(* ===== verification/Greylock_Prelude.thy ===== *)
theory Greylock_Prelude
  imports Complex_Main "HOL-Library.Word"
begin

unbundle bit_operations_syntax

text \<open>
  What every component of the server shares.

  \<^item> The types of the code's data: \<open>byte\<close> is a C++ \<open>uint8_t\<close>/\<open>std::byte\<close>, a C++
    \<open>std::string\<close> is a HOL \<open>string\<close> (a list of 8-bit characters, so lengths count bytes), and an
    \<open>int64_t\<close> is an \<open>int\<close> whose narrowing casts are written out (\<open>to_i64\<close>, \<open>to_i32\<close>).
  \<^item> \<open>json\<close>, the values of \<open>nlohmann::json\<close>, with the accessors the handlers use.
  \<^item> \<open>third_party\<close>, the functions of libsodium and nlohmann/json the code calls, and \<open>env\<close>, what a
    request reads from its surroundings: the clock, the random generator and whether an audit
    append succeeds.  Both are arguments of the definitions that use them.
  \<^item> Requests, responses and the exception boundary every route has.
  \<^item> Tables with a primary key: the SQL statements of the code on a list of rows in insertion
    order, and the interface \<open>keyed_table\<close> they satisfy.
\<close>

named_theorems handler_defs \<open>definitions unfolded when a route is evaluated\<close>
named_theorems guard_simps \<open>what the guards of a route rest on\<close>

section \<open>Bytes, integers and strings\<close>

type_synonym byte = "8 word"

definition to_i64 :: "int \<Rightarrow> int" where
  "to_i64 n = signed_take_bit 63 n"

definition to_i32 :: "int \<Rightarrow> int" where
  "to_i32 n = signed_take_bit 31 n"

definition in_i64 :: "int \<Rightarrow> bool" where
  "in_i64 n \<longleftrightarrow> - (2 ^ 63) \<le> n \<and> n < 2 ^ 63"

lemma to_i64_id [simp]: "in_i64 n \<Longrightarrow> to_i64 n = n"
  by (simp add: to_i64_def in_i64_def signed_take_bit_int_eq_self)

lemma to_i64_range: "in_i64 (to_i64 n)"
  unfolding to_i64_def in_i64_def
  using signed_take_bit_int_greater_eq_minus_exp [of 63 n] signed_take_bit_int_less_exp [of 63 n]
  by simp

definition byte_of_char :: "char \<Rightarrow> byte" where
  "byte_of_char c = of_char c"

lemma unat_byte_less: "unat (b :: byte) < 256"
proof -
  have "unat b < 2 ^ LENGTH(8)" by (rule unsigned_less)
  then show ?thesis by simp
qed

lemma unat_byte_nibbles: "unat (b :: byte) div 16 < 16" "unat b mod 16 < 16"
  using unat_byte_less [of b] by (auto intro: less_mult_imp_div_less)

definition char_of_byte :: "byte \<Rightarrow> char" where
  "char_of_byte b = char_of (unat b)"

lemma unat_byte_of_char [simp]: "unat (byte_of_char c) = of_char c"
proof -
  have "byte_of_char c = of_nat (of_char c)"
    by (simp only: byte_of_char_def of_nat_of_char)
  then have "unat (byte_of_char c) = take_bit 8 (of_char c)"
    by (simp add: unsigned_of_nat)
  then show ?thesis by (simp add: take_bit_eq_mod)
qed

lemma char_of_byte_of_char [simp]: "char_of_byte (byte_of_char c) = c"
  by (simp add: char_of_byte_def)

lemma byte_of_char_of_byte [simp]: "byte_of_char (char_of_byte b) = b"
proof -
  have "unat b < 2 ^ LENGTH(8)" by (rule unsigned_less)
  then have "unat (byte_of_char (char_of_byte b)) = unat b"
    by (simp add: char_of_byte_def)
  then show ?thesis by (simp only: word_unat_eq_iff)
qed

lemma byte_of_char_inject [simp]: "byte_of_char c = byte_of_char d \<longleftrightarrow> c = d"
  by (metis char_of_byte_of_char)

definition nul :: char where
  "nul = CHR 0x00"

lemma byte_of_char_nul [simp]: "byte_of_char nul = 0"
  by (simp add: byte_of_char_def nul_def)

lemma byte_of_char_eq_0 [simp]: "byte_of_char c = 0 \<longleftrightarrow> c = nul"
  using byte_of_char_inject [of c nul] by simp

text \<open>The bytes of a \<open>std::string\<close>, and the \<open>std::string\<close> of a \<open>const char*\<close>: it stops at NUL.\<close>

definition bytes_of :: "string \<Rightarrow> byte list" where
  "bytes_of s = map byte_of_char s"

lemma bytes_of_inject [simp]: "bytes_of s = bytes_of t \<longleftrightarrow> s = t"
  by (simp add: bytes_of_def inj_map_eq_map inj_def)

lemma length_bytes_of [simp]: "length (bytes_of s) = length s"
  by (simp add: bytes_of_def)

definition c_str :: "string \<Rightarrow> string" where
  "c_str s = takeWhile (\<lambda>c. c \<noteq> nul) s"

definition nul_free :: "string \<Rightarrow> bool" where
  "nul_free s \<longleftrightarrow> list_all (\<lambda>c. c \<noteq> nul) s"

lemma c_str_id [simp]: "nul_free s \<Longrightarrow> c_str s = s"
  by (induction s) (auto simp: c_str_def nul_free_def)

lemma nul_free_c_str [simp]: "nul_free (c_str s)"
  by (auto simp: c_str_def nul_free_def list_all_iff dest: set_takeWhileD)

lemma nul_free_Nil [simp]: "nul_free []"
  by (simp add: nul_free_def)

lemma c_str_Nil [simp]: "c_str [] = []"
  by (simp add: c_str_def)

text \<open>\<open>isspace\<close> in the C locale.\<close>

definition c_isspace :: "char \<Rightarrow> bool" where
  "c_isspace c \<longleftrightarrow> (of_char c :: nat) = 32 \<or> (9 \<le> (of_char c :: nat) \<and> (of_char c :: nat) \<le> 13)"

text \<open>\<open>std::to_string\<close> of an integer.\<close>

fun digits_rev :: "nat \<Rightarrow> string" where
  "digits_rev n = char_of (48 + n mod 10) # (if n < 10 then [] else digits_rev (n div 10))"

declare digits_rev.simps [simp del]

definition nat_to_string :: "nat \<Rightarrow> string" where
  "nat_to_string n = rev (digits_rev n)"

definition int_to_string :: "int \<Rightarrow> string" where
  "int_to_string i = (if i < 0 then ''-'' @ nat_to_string (nat (- i)) else nat_to_string (nat i))"

section \<open>JSON values\<close>

text \<open>
  A value of \<open>nlohmann::json\<close>.  \<open>JInt\<close> stands for \<open>number_integer\<close> and \<open>number_unsigned\<close>
  (\<open>is_number_integer\<close> holds of both), \<open>JFloat None\<close> for a double that is not finite, and
  \<open>JFloat (Some q)\<close> for a finite one, whose value is the rational number \<open>q\<close>.  An object lists its
  members in the order \<open>std::map\<close> has them.
\<close>

datatype json =
    JNull
  | JBool bool
  | JInt int
  | JFloat "rat option"
  | JStr string
  | JArr "json list"
  | JObj "(string \<times> json) list"

fun json_at :: "json \<Rightarrow> string \<Rightarrow> json option" where
  "json_at (JObj kvs) k = map_of kvs k"
| "json_at _ k = None"

text \<open>\<open>get<std::string>\<close>, \<open>get<int64_t>\<close> and \<open>get<int>\<close>; \<open>None\<close> is the type error they throw.\<close>

fun get_string :: "json \<Rightarrow> string option" where
  "get_string (JStr s) = Some s"
| "get_string _ = None"

definition trunc :: "rat \<Rightarrow> int" where
  "trunc q = (if 0 \<le> q then floor q else ceiling q)"

fun get_int64 :: "json \<Rightarrow> int option" where
  "get_int64 (JInt n) = Some (to_i64 n)"
| "get_int64 (JFloat (Some q)) = Some (to_i64 (trunc q))"
| "get_int64 (JFloat None) = Some 0"
| "get_int64 _ = None"

fun get_int :: "json \<Rightarrow> int option" where
  "get_int (JInt n) = Some (to_i32 n)"
| "get_int (JFloat (Some q)) = Some (to_i32 (trunc q))"
| "get_int (JFloat None) = Some 0"
| "get_int (JBool b) = Some (if b then 1 else 0)"
| "get_int _ = None"

text \<open>\<open>body.at(k).get<T>()\<close>.\<close>

definition at_string :: "json \<Rightarrow> string \<Rightarrow> string option" where
  "at_string j k = Option.bind (json_at j k) get_string"

definition at_int64 :: "json \<Rightarrow> string \<Rightarrow> int option" where
  "at_int64 j k = Option.bind (json_at j k) get_int64"

definition at_int :: "json \<Rightarrow> string \<Rightarrow> int option" where
  "at_int j k = Option.bind (json_at j k) get_int"

text \<open>
  \<open>body.contains(k) && body[k].is_string()\<close> followed by the read, and the same for
  \<open>is_number_integer()\<close>: an absent member and one of another type are both ignored.
\<close>

fun is_integer_value :: "json \<Rightarrow> int option" where
  "is_integer_value (JInt n) = Some (to_i64 n)"
| "is_integer_value _ = None"

definition opt_string :: "json \<Rightarrow> string \<Rightarrow> string option" where
  "opt_string j k = Option.bind (json_at j k) get_string"

definition opt_int64 :: "json \<Rightarrow> string \<Rightarrow> int option" where
  "opt_int64 j k = Option.bind (json_at j k) is_integer_value"

definition json_nullable :: "string option \<Rightarrow> json" where
  "json_nullable x = (case x of None \<Rightarrow> JNull | Some s \<Rightarrow> JStr s)"

section \<open>Third-party functions and the surroundings of a request\<close>

text \<open>
  libsodium: \<open>generichash\<close> is \<open>crypto_generichash\<close> without a key and with a 32-byte output,
  \<open>pwhash_str\<close> is \<open>crypto_pwhash_str\<close> (\<open>None\<close> when it fails), \<open>pwhash_verify\<close> is
  \<open>crypto_pwhash_str_verify\<close>, \<open>bin2hex\<close> is \<open>sodium_bin2hex\<close>, and \<open>b64_encode\<close>/\<open>b64_decode\<close> are
  \<open>sodium_bin2base64\<close>/\<open>sodium_base642bin\<close> with the URL-safe variant without padding, and
  \<open>sodium_memcmp\<close> the comparison of two buffers of the same length (0 on equality).
  nlohmann/json: \<open>dump\<close> is the compact serialisation.
\<close>

record third_party =
  generichash :: "byte list \<Rightarrow> byte list"
  pwhash_str :: "string \<Rightarrow> byte list option"
  pwhash_verify :: "byte list \<Rightarrow> string \<Rightarrow> bool"
  bin2hex :: "byte list \<Rightarrow> string"
  b64_encode :: "byte list \<Rightarrow> string"
  b64_decode :: "string \<Rightarrow> byte list option"
  sodium_memcmp :: "byte list \<Rightarrow> byte list \<Rightarrow> int"
  dump :: "json \<Rightarrow> string"

text \<open>
  What one request reads: \<open>clock i\<close> is the \<open>i\<close>-th reading of the wall clock in seconds,
  \<open>clock_ms\<close> the reading in milliseconds an audit event carries, \<open>random_id\<close>, \<open>random_token\<close> and
  \<open>random_totp\<close> the 16, 32 and 20 bytes \<open>randombytes_buf\<close> fills, and \<open>append_ok i\<close> whether SQLite
  completes the \<open>i\<close>-th audit append of the request (it may fail on a full disk or a busy file).
\<close>

record env =
  clock :: "nat \<Rightarrow> int"
  clock_ms :: int
  random_id :: "byte list"
  random_token :: "byte list"
  random_totp :: "byte list"
  append_ok :: "nat \<Rightarrow> bool"

text \<open>Documented behaviour of \<open>sodium_bin2hex\<close>: two lower-case hex digits per byte, injective.\<close>

definition hex_digits :: "char list" where
  "hex_digits = ''0123456789abcdef''"

definition bin2hex_spec :: "(byte list \<Rightarrow> string) \<Rightarrow> bool" where
  "bin2hex_spec h \<longleftrightarrow>
     (\<forall>bs. length (h bs) = 2 * length bs \<and> set (h bs) \<subseteq> set hex_digits) \<and> inj h"

section \<open>Requests, responses and the exception boundary\<close>

text \<open>
  \<open>authorization\<close> is \<open>req.headers.find("Authorization")\<close>, \<open>path_param\<close> is \<open>req.path_params\<close> (the
  route's parameters are always present), \<open>query\<close> is \<open>has_param\<close>/\<open>get_param_value\<close>, and \<open>body\<close> is
  what \<open>json::parse(req.body)\<close> returns, \<open>None\<close> when it throws.
\<close>

record request =
  authorization :: "string option"
  path_param :: "string \<Rightarrow> string"
  query :: "string \<Rightarrow> string option"
  body :: "json option"

datatype response = Resp (status: nat) (content: json)

text \<open>A handler either returns a response or throws; \<open>Inl what\<close> is the \<open>std::exception\<close>.\<close>

type_synonym 's outcome = "(string + response) \<times> 's"

abbreviation err :: "nat \<Rightarrow> string \<Rightarrow> response" where
  "err st e \<equiv> Resp st (JObj [(''error'', JStr e)])"

abbreviation err_msg :: "nat \<Rightarrow> string \<Rightarrow> string \<Rightarrow> response" where
  "err_msg st e m \<equiv> Resp st (JObj [(''error'', JStr e), (''message'', JStr m)])"

definition guarded :: "'s outcome \<Rightarrow> response \<times> 's" where
  "guarded x =
     (case x of
        (Inr r, s) \<Rightarrow> (r, s)
      | (Inl what, s) \<Rightarrow> (err_msg 500 ''internal'' what, s))"

lemma snd_guarded [simp]: "snd (guarded x) = snd x"
  by (cases x) (auto simp: guarded_def split: sum.splits)

lemma guarded_Inr [simp]: "guarded (Inr r, s) = (r, s)"
  by (simp add: guarded_def)

lemma guarded_Inl [simp]: "guarded (Inl w, s) = (err_msg 500 ''internal'' w, s)"
  by (simp add: guarded_def)

section \<open>Tables with a primary key\<close>

text \<open>
  A table is the list of its rows in insertion order.  The four statement shapes of the code,
  each by primary key: \<open>SELECT ... WHERE key = ?\<close>, \<open>INSERT\<close> (which fails on a duplicate key),
  \<open>UPDATE ... WHERE key = ?\<close> and \<open>DELETE ... WHERE key = ?\<close>.
\<close>

definition sel_by :: "('r \<Rightarrow> 'k) \<Rightarrow> 'k \<Rightarrow> 'r list \<Rightarrow> 'r option" where
  "sel_by key k rows = find (\<lambda>r. key r = k) rows"

definition ins_by :: "('r \<Rightarrow> 'k) \<Rightarrow> 'r \<Rightarrow> 'r list \<Rightarrow> 'r list option" where
  "ins_by key r rows = (if key r \<in> set (map key rows) then None else Some (rows @ [r]))"

definition upd_by :: "('r \<Rightarrow> 'k) \<Rightarrow> 'k \<Rightarrow> ('r \<Rightarrow> 'r) \<Rightarrow> 'r list \<Rightarrow> 'r list" where
  "upd_by key k f rows = map (\<lambda>r. if key r = k then f r else r) rows"

definition del_by :: "('r \<Rightarrow> 'k) \<Rightarrow> 'k \<Rightarrow> 'r list \<Rightarrow> 'r list" where
  "del_by key k rows = filter (\<lambda>r. key r \<noteq> k) rows"

definition unique_by :: "('r \<Rightarrow> 'k) \<Rightarrow> 'r list \<Rightarrow> bool" where
  "unique_by key rows \<longleftrightarrow> distinct (map key rows)"

lemma sel_by_Nil [simp]: "sel_by key k [] = None"
  by (simp add: sel_by_def)

lemma sel_by_Cons [simp]: "sel_by key k (r # rows) = (if key r = k then Some r else sel_by key k rows)"
  by (simp add: sel_by_def)

lemma sel_by_Some: "sel_by key k rows = Some r \<Longrightarrow> r \<in> set rows \<and> key r = k"
  by (auto simp: sel_by_def find_Some_iff)

lemma sel_by_None: "sel_by key k rows = None \<longleftrightarrow> k \<notin> key ` set rows"
  by (auto simp: sel_by_def find_None_iff)

lemma sel_by_mem: "unique_by key rows \<Longrightarrow> r \<in> set rows \<Longrightarrow> sel_by key (key r) rows = Some r"
  by (induction rows) (auto simp: unique_by_def)

lemma sel_by_append:
  "sel_by key k (rows @ rs) = (case sel_by key k rows of None \<Rightarrow> sel_by key k rs | Some r \<Rightarrow> Some r)"
  by (induction rows) auto

lemma sel_by_upd_by:
  assumes "\<And>r. key (f r) = key r"
  shows "sel_by key k (upd_by key j f rows) =
           (if k = j then map_option f (sel_by key k rows) else sel_by key k rows)"
  by (induction rows) (auto simp: upd_by_def assms)

lemma sel_by_del_by: "sel_by key k (del_by key j rows) = (if k = j then None else sel_by key k rows)"
  by (induction rows) (auto simp: del_by_def)

lemma map_key_upd_by:
  assumes "\<And>r. key (f r) = key r"
  shows "map key (upd_by key j f rows) = map key rows"
  by (induction rows) (auto simp: upd_by_def assms)

lemma set_del_by [simp]: "set (del_by key k rows) = {r \<in> set rows. key r \<noteq> k}"
  by (simp add: del_by_def)

lemma upd_by_other: "k \<notin> key ` set rows \<Longrightarrow> upd_by key k f rows = rows"
  by (auto simp: upd_by_def intro!: map_idI)

lemma set_upd_byD: "r \<in> set (upd_by key k f rows) \<Longrightarrow> (\<exists>q \<in> set rows. key q = k \<and> r = f q) \<or> r \<in> set rows"
  by (auto simp: upd_by_def split: if_splits)

text \<open>
  The interface of a table with a primary key.  \<open>invar\<close> is the uniqueness of the key; \<open>lookup\<close>
  after each statement is a law.  An \<open>UPDATE\<close> in this program never assigns the key column, so
  its row function keeps the key.
\<close>

locale keyed_table =
  fixes key :: "'r \<Rightarrow> 'k"
    and lookup :: "'k \<Rightarrow> 't \<Rightarrow> 'r option"
    and insert :: "'r \<Rightarrow> 't \<Rightarrow> 't option"
    and update :: "'k \<Rightarrow> ('r \<Rightarrow> 'r) \<Rightarrow> 't \<Rightarrow> 't"
    and delete :: "'k \<Rightarrow> 't \<Rightarrow> 't"
    and invar :: "'t \<Rightarrow> bool"
  assumes insert_fails: "insert r t = None \<longleftrightarrow> lookup (key r) t \<noteq> None"
    and lookup_insert: "insert r t = Some t' \<Longrightarrow>
          lookup k t' = (if k = key r then Some r else lookup k t)"
    and lookup_update: "(\<And>r. key (f r) = key r) \<Longrightarrow>
          lookup k (update j f t) = (if k = j then map_option f (lookup k t) else lookup k t)"
    and lookup_delete: "lookup k (delete j t) = (if k = j then None else lookup k t)"
    and lookup_key: "lookup k t = Some r \<Longrightarrow> key r = k"
    and invar_insert: "invar t \<Longrightarrow> insert r t = Some t' \<Longrightarrow> invar t'"
    and invar_update: "invar t \<Longrightarrow> (\<And>r. key (f r) = key r) \<Longrightarrow> invar (update j f t)"
    and invar_delete: "invar t \<Longrightarrow> invar (delete j t)"
begin

lemma insert_twice_fails: "insert r t = Some t' \<Longrightarrow> key q = key r \<Longrightarrow> insert q t' = None"
  by (simp add: insert_fails lookup_insert)

lemma insert_keeps: "insert r t = Some t' \<Longrightarrow> lookup k t = Some q \<Longrightarrow> lookup k t' = Some q"
  by (metis insert_fails lookup_insert option.distinct(1))

lemma insert_after_delete: "\<exists>t'. insert r (delete (key r) t) = Some t'"
  by (metis insert_fails lookup_delete not_None_eq)

lemma update_missing: "(\<And>r. key (f r) = key r) \<Longrightarrow> lookup j t = None \<Longrightarrow>
    lookup k (update j f t) = lookup k t"
  by (simp add: lookup_update)

lemma update_update:
  "(\<And>r. key (f r) = key r) \<Longrightarrow> (\<And>r. key (g r) = key r) \<Longrightarrow>
    lookup k (update j g (update j f t)) =
      (if k = j then map_option (\<lambda>r. g (f r)) (lookup k t) else lookup k t)"
  by (simp add: lookup_update option.map_comp comp_def)

end

lemma keyed_table_list: "keyed_table key (sel_by key) (ins_by key) (upd_by key) (del_by key) (unique_by key)"
proof (unfold_locales, goal_cases)
  case (1 r t)
  show ?case by (auto simp: ins_by_def sel_by_None)
next
  case (2 r t t' k)
  then have "key r \<notin> key ` set t" and "t' = t @ [r]"
    by (auto simp: ins_by_def split: if_splits)
  then show ?case
    using sel_by_None [of key "key r" t]
    by (cases "k = key r")
       (simp_all add: sel_by_append split: option.splits)
next
  case (3 f k j t)
  then show ?case by (rule sel_by_upd_by)
next
  case (4 k j t)
  show ?case by (rule sel_by_del_by)
next
  case (5 k t r)
  then show ?case by (rule sel_by_Some [THEN conjunct2])
next
  case (6 t r t')
  then have "key r \<notin> set (map key t)" and "t' = t @ [r]"
    by (simp_all only: ins_by_def split: if_splits) simp_all
  with 6(1) show ?case by (simp only: unique_by_def map_append distinct_append) simp
next
  case (7 t f j)
  then have "map key (upd_by key j f t) = map key t" by (intro map_key_upd_by)
  with 7(1) show ?case by (simp only: unique_by_def)
next
  case (8 t j)
  then show ?case unfolding unique_by_def del_by_def by (rule distinct_map_filter)
qed

end
