(* ===== verification/Sanitizer_Model.thy ===== *)
theory Sanitizer_Model
  imports Greylock_Prelude
begin

text \<open>
  The audit sanitizer (\<open>server/audit/Sanitizer.cpp\<close>): a recursive walk over the details of an
  event that rejects deny-listed keys, strings with the shape of a token, non-finite numbers and
  structures nested too deeply, and a cap on the serialised size.

  The walk is modelled with its reasons; \<open>clean\<close> is the specification it is compared with: what a
  payload must satisfy, with neither an order of visiting nor a path.
\<close>

definition MAX_DEPTH :: nat where
  "MAX_DEPTH = 8"

definition MAX_TOTAL_BYTES :: nat where
  "MAX_TOTAL_BYTES = 64 * 1024"

definition ALLOWED_KEYS :: "string list" where
  "ALLOWED_KEYS =
     [''userid'', ''sessionid'', ''accountid'', ''transactionid'', ''entityid'', ''tokenid'',
      ''subjectid'', ''actoruserid'', ''domain'', ''outcome'', ''action'', ''kind'', ''reason'',
      ''version'', ''seq'', ''ts'', ''count'', ''added'', ''modified'', ''removed'',
      ''httpstatus'', ''errorcode'', ''transports'']"

definition DENY_KEY_SUBSTRINGS :: "string list" where
  "DENY_KEY_SUBSTRINGS =
     [''password'', ''passphrase'', ''secret'', ''token'', ''cookie'', ''dek'', ''kek'',
      ''keksalt'', ''credentialpublickey'', ''signature'', ''pem'', ''key'']"

definition in_range :: "char \<Rightarrow> char \<Rightarrow> char \<Rightarrow> bool" where
  "in_range lo hi c \<longleftrightarrow> (of_char lo :: nat) \<le> of_char c \<and> (of_char c :: nat) \<le> of_char hi"

definition tolower :: "char \<Rightarrow> char" where
  "tolower c = (if in_range (CHR ''A'') (CHR ''Z'') c then char_of (of_char c + 32 :: nat) else c)"

definition to_lower :: "string \<Rightarrow> string" where
  "to_lower s = map tolower s"

text \<open>\<open>hay.find(sub) != npos\<close>.\<close>

fun starts_with :: "string \<Rightarrow> string \<Rightarrow> bool" where
  "starts_with [] _ = True"
| "starts_with (x # xs) [] = False"
| "starts_with (x # xs) (y # ys) = (x = y \<and> starts_with xs ys)"

fun contains_sub :: "string \<Rightarrow> string \<Rightarrow> bool" where
  "contains_sub sub [] = (sub = [])"
| "contains_sub sub (c # cs) = (starts_with sub (c # cs) \<or> contains_sub sub cs)"

definition is_key_allowed :: "string \<Rightarrow> bool" where
  "is_key_allowed key =
     (let key_lower = to_lower key in
      if key_lower \<in> set ALLOWED_KEYS then True
      else \<not> list_ex (\<lambda>sub. contains_sub sub key_lower) DENY_KEY_SUBSTRINGS)"

definition base64url_char :: "char \<Rightarrow> bool" where
  "base64url_char c \<longleftrightarrow> in_range (CHR ''A'') (CHR ''Z'') c \<or> in_range (CHR ''a'') (CHR ''z'') c \<or>
     in_range (CHR ''0'') (CHR ''9'') c \<or> c = CHR ''+'' \<or> c = CHR ''/'' \<or> c = CHR ''_'' \<or>
     c = CHR ''-''"

definition hex_char :: "char \<Rightarrow> bool" where
  "hex_char c \<longleftrightarrow> in_range (CHR ''0'') (CHR ''9'') c \<or> in_range (CHR ''a'') (CHR ''f'') c \<or>
     in_range (CHR ''A'') (CHR ''F'') c"

text \<open>The loop over the optional trailing padding: at most two \<open>=\<close> are dropped.\<close>

fun strip_padding :: "nat \<Rightarrow> string \<Rightarrow> string" where
  "strip_padding 0 s = s"
| "strip_padding (Suc n) s = (if s \<noteq> [] \<and> last s = CHR ''='' then strip_padding n (butlast s) else s)"

definition is_base64url_like :: "string \<Rightarrow> bool" where
  "is_base64url_like s \<longleftrightarrow> \<not> length s < 32 \<and> list_all base64url_char (strip_padding 2 s)"

definition is_hex_like :: "string \<Rightarrow> bool" where
  "is_hex_like s \<longleftrightarrow> \<not> length s < 32 \<and> list_all hex_char s"

definition looks_like_token :: "string \<Rightarrow> bool" where
  "looks_like_token s =
     (if length s < 32 then False
      else if is_hex_like s then True
      else if is_base64url_like s then True
      else False)"

text \<open>\<open>None\<close> is \<open>{true, {}}\<close>, \<open>Some reason\<close> is \<open>{false, reason}\<close>.\<close>

fun walk_value :: "json \<Rightarrow> nat \<Rightarrow> string \<Rightarrow> string option"
  and walk_object :: "(string \<times> json) list \<Rightarrow> nat \<Rightarrow> string \<Rightarrow> string option"
  and walk_array :: "json list \<Rightarrow> nat \<Rightarrow> nat \<Rightarrow> string \<Rightarrow> string option" where
  "walk_value JNull depth path = None"
| "walk_value (JStr s) depth path =
     (if looks_like_token s then Some (''token-shape value at '' @ path) else None)"
| "walk_value (JInt n) depth path = None"
| "walk_value (JFloat f) depth path =
     (if f = None then Some (''non-finite number at '' @ path) else None)"
| "walk_value (JBool b) depth path = None"
| "walk_value (JArr vs) depth path =
     (if depth > MAX_DEPTH then Some (''depth limit at '' @ path) else walk_array vs 0 depth path)"
| "walk_value (JObj kvs) depth path =
     (if depth > MAX_DEPTH then Some (''depth limit at '' @ path) else walk_object kvs depth path)"
| "walk_object [] depth path = None"
| "walk_object ((key, v) # kvs) depth path =
     (if \<not> is_key_allowed key then Some (''deny key '' @ [CHR 0x27] @ key @ [CHR 0x27] @ '' at '' @ path)
      else case walk_value v (depth + 1) (path @ ''.'' @ key) of
             Some r \<Rightarrow> Some r
           | None \<Rightarrow> walk_object kvs depth path)"
| "walk_array [] i depth path = None"
| "walk_array (v # vs) i depth path =
     (case walk_value v (depth + 1) (path @ ''['' @ nat_to_string i @ '']'') of
        Some r \<Rightarrow> Some r
      | None \<Rightarrow> walk_array vs (i + 1) depth path)"

text \<open>
  \<open>json::dump\<close> throws on a string that is not UTF-8.  Its decoder reads byte by byte: a first byte fixes
  the ranges of those that must follow.
\<close>

definition following_bytes :: "nat \<Rightarrow> (nat \<times> nat) list option" where
  "following_bytes b =
     (if b \<le> 0x7F then Some []
      else if 0xC2 \<le> b \<and> b \<le> 0xDF then Some [(0x80, 0xBF)]
      else if b = 0xE0 then Some [(0xA0, 0xBF), (0x80, 0xBF)]
      else if b = 0xED then Some [(0x80, 0x9F), (0x80, 0xBF)]
      else if 0xE1 \<le> b \<and> b \<le> 0xEF then Some [(0x80, 0xBF), (0x80, 0xBF)]
      else if b = 0xF0 then Some [(0x90, 0xBF), (0x80, 0xBF), (0x80, 0xBF)]
      else if 0xF1 \<le> b \<and> b \<le> 0xF3 then Some [(0x80, 0xBF), (0x80, 0xBF), (0x80, 0xBF)]
      else if b = 0xF4 then Some [(0x80, 0x8F), (0x80, 0xBF), (0x80, 0xBF)]
      else None)"

fun utf8_from :: "(nat \<times> nat) list \<Rightarrow> string \<Rightarrow> bool" where
  "utf8_from [] [] = True"
| "utf8_from (r # rs) [] = False"
| "utf8_from [] (c # cs) =
     (case following_bytes (of_char c) of None \<Rightarrow> False | Some rs \<Rightarrow> utf8_from rs cs)"
| "utf8_from ((lo, hi) # rs) (c # cs) = (lo \<le> of_char c \<and> of_char c \<le> hi \<and> utf8_from rs cs)"

definition valid_utf8 :: "string \<Rightarrow> bool" where
  "valid_utf8 s = utf8_from [] s"

fun json_utf8 :: "json \<Rightarrow> bool" where
  "json_utf8 (JStr s) = valid_utf8 s"
| "json_utf8 (JArr vs) = list_all json_utf8 vs"
| "json_utf8 (JObj kvs) = list_all (\<lambda>kv. valid_utf8 (fst kv) \<and> json_utf8 (snd kv)) kvs"
| "json_utf8 _ = True"

text \<open>\<open>sanitize\<close>: \<open>None\<close> is \<open>Accepted\<close>, \<open>Some reason\<close> is \<open>Rejected\<close>.  The \<open>catch (...)\<close> around the body
  turns the exception of \<open>dump\<close> into a rejection.\<close>

fun sanitize :: "third_party \<Rightarrow> json \<Rightarrow> string option" where
  "sanitize L (JObj kvs) =
     (case walk_value (JObj kvs) 0 ''details'' of
        Some r \<Rightarrow> Some r
      | None \<Rightarrow>
          if \<not> json_utf8 (JObj kvs) then Some ''sanitizer internal error''
          else if length (dump L (JObj kvs)) > MAX_TOTAL_BYTES then Some ''payload exceeds 64 KiB''
          else None)"
| "sanitize L _ = Some ''details must be a JSON object''"

section \<open>The specification of an acceptable payload\<close>

text \<open>The nesting depth, and all keys and strings of a value.\<close>

fun depth_of :: "json \<Rightarrow> nat" where
  "depth_of (JArr vs) = Suc (foldr max (map depth_of vs) 0)"
| "depth_of (JObj kvs) = Suc (foldr max (map (\<lambda>kv. depth_of (snd kv)) kvs) 0)"
| "depth_of _ = 0"

fun keys_of :: "json \<Rightarrow> string list" where
  "keys_of (JArr vs) = concat (map keys_of vs)"
| "keys_of (JObj kvs) = concat (map (\<lambda>kv. fst kv # keys_of (snd kv)) kvs)"
| "keys_of _ = []"

fun strings_of :: "json \<Rightarrow> string list" where
  "strings_of (JStr s) = [s]"
| "strings_of (JArr vs) = concat (map strings_of vs)"
| "strings_of (JObj kvs) = concat (map (\<lambda>kv. strings_of (snd kv)) kvs)"
| "strings_of _ = []"

fun finite_numbers :: "json \<Rightarrow> bool" where
  "finite_numbers (JFloat f) = (f \<noteq> None)"
| "finite_numbers (JArr vs) = list_all finite_numbers vs"
| "finite_numbers (JObj kvs) = list_all (\<lambda>kv. finite_numbers (snd kv)) kvs"
| "finite_numbers _ = True"

definition clean :: "json \<Rightarrow> bool" where
  "clean j \<longleftrightarrow> depth_of j \<le> MAX_DEPTH + 1 \<and> list_all is_key_allowed (keys_of j) \<and>
     list_all (\<lambda>s. \<not> looks_like_token s) (strings_of j) \<and> finite_numbers j"

definition clean_at :: "nat \<Rightarrow> json \<Rightarrow> bool" where
  "clean_at d j \<longleftrightarrow> (depth_of j = 0 \<or> d + depth_of j \<le> MAX_DEPTH + 1) \<and>
     list_all is_key_allowed (keys_of j) \<and>
     list_all (\<lambda>s. \<not> looks_like_token s) (strings_of j) \<and> finite_numbers j"

lemma add_foldr_max_le:
  "d + foldr max (map f xs) (0::nat) \<le> n \<longleftrightarrow> d \<le> n \<and> (\<forall>x \<in> set xs. d + f x \<le> n)"
  by (induction xs) auto

lemma deeper: "d \<le> MAX_DEPTH \<Longrightarrow> (n = 0 \<or> Suc d + n \<le> MAX_DEPTH + 1) \<longleftrightarrow> d + n \<le> MAX_DEPTH"
  by auto

lemma clean_at_JArr:
  "clean_at d (JArr vs) \<longleftrightarrow> d \<le> MAX_DEPTH \<and> list_all (clean_at (Suc d)) vs"
proof (cases "d \<le> MAX_DEPTH")
  case True
  then show ?thesis
    by (auto simp: clean_at_def deeper list_all_iff less_Suc_eq_le add_foldr_max_le)
next
  case False
  then show ?thesis by (simp add: clean_at_def)
qed

lemma clean_at_JObj:
  "clean_at d (JObj kvs) \<longleftrightarrow> d \<le> MAX_DEPTH \<and>
     list_all (\<lambda>kv. is_key_allowed (fst kv) \<and> clean_at (Suc d) (snd kv)) kvs"
proof (cases "d \<le> MAX_DEPTH")
  case True
  then show ?thesis
    by (auto simp: clean_at_def deeper list_all_iff less_Suc_eq_le add_foldr_max_le)
next
  case False
  then show ?thesis by (simp add: clean_at_def)
qed

lemma clean_at_leaf:
  "clean_at d JNull" "clean_at d (JBool b)" "clean_at d (JInt n)"
  "clean_at d (JFloat f) \<longleftrightarrow> f \<noteq> None" "clean_at d (JStr s) \<longleftrightarrow> \<not> looks_like_token s"
  by (simp_all add: clean_at_def)

lemma clean_iff: "clean j \<longleftrightarrow> clean_at 0 j"
  by (auto simp: clean_def clean_at_def)

text \<open>The walk accepts exactly the payloads that are clean below the depth it stands at.\<close>

lemma walk_spec:
  "walk_value j d path = None \<longleftrightarrow> clean_at d j"
  "walk_object kvs d path = None \<longleftrightarrow>
     list_all (\<lambda>kv. is_key_allowed (fst kv) \<and> clean_at (Suc d) (snd kv)) kvs"
  "walk_array vs i d path = None \<longleftrightarrow> list_all (clean_at (Suc d)) vs"
  by (induction j d path and kvs d path and vs i d path rule: walk_value_walk_object_walk_array.induct)
     (auto simp: clean_at_leaf clean_at_JArr clean_at_JObj split: option.splits)

lemma sanitize_iff:
  "sanitize L (JObj kvs) = None \<longleftrightarrow>
     clean (JObj kvs) \<and> json_utf8 (JObj kvs) \<and> length (dump L (JObj kvs)) \<le> MAX_TOTAL_BYTES"
proof (cases "walk_value (JObj kvs) 0 ''details''")
  case None
  then show ?thesis using walk_spec(1) [of "JObj kvs" 0 "''details''"]
    by (simp add: clean_iff not_less del: walk_value.simps json_utf8.simps)
next
  case (Some r)
  then show ?thesis using walk_spec(1) [of "JObj kvs" 0 "''details''"]
    by (simp add: clean_iff del: walk_value.simps)
qed

text \<open>\<open>dump\<close> succeeds when all keys and strings are UTF-8, wherever they are; ASCII is.\<close>

lemma json_utf8_iff:
  "json_utf8 j \<longleftrightarrow> list_all valid_utf8 (keys_of j) \<and> list_all valid_utf8 (strings_of j)"
  by (induction j) (auto simp: list_all_iff)

lemma ascii_valid_utf8: "list_all (\<lambda>c. (of_char c :: nat) \<le> 0x7F) s \<Longrightarrow> valid_utf8 s"
  unfolding valid_utf8_def by (induction s) (auto simp: following_bytes_def)

section \<open>Keys and token shapes\<close>

text \<open>\<open>find\<close> on the lower-cased key: the substring occurs somewhere.\<close>

lemma starts_with_iff: "starts_with sub s \<longleftrightarrow> (\<exists>t. s = sub @ t)"
  by (induction sub s rule: starts_with.induct) auto

lemma contains_sub_iff: "contains_sub sub s \<longleftrightarrow> (\<exists>p t. s = p @ sub @ t)"
proof (induction s)
  case (Cons c cs)
  show ?case
  proof
    assume "contains_sub sub (c # cs)"
    then consider "starts_with sub (c # cs)" | "contains_sub sub cs" by auto
    then show "\<exists>p t. c # cs = p @ sub @ t"
    proof cases
      case 1
      then show ?thesis by (metis append_Nil starts_with_iff)
    next
      case 2
      with Cons show ?thesis by (metis append_Cons)
    qed
  next
    assume "\<exists>p t. c # cs = p @ sub @ t"
    then obtain p t where pt: "c # cs = p @ sub @ t" by blast
    show "contains_sub sub (c # cs)"
    proof (cases p)
      case Nil
      with pt show ?thesis by (metis append_Nil contains_sub.simps(2) starts_with_iff)
    next
      case (Cons x p')
      with pt have "cs = p' @ sub @ t" by simp
      with Cons.IH show ?thesis by auto
    qed
  qed
qed simp

text \<open>A deny-listed word is found in any mixture of cases.\<close>

lemma denied_key:
  assumes "sub \<in> set DENY_KEY_SUBSTRINGS" and "to_lower key = p @ sub @ t"
    and "to_lower key \<notin> set ALLOWED_KEYS"
  shows "\<not> is_key_allowed key"
proof -
  have "contains_sub sub (to_lower key)" using assms(2) contains_sub_iff by blast
  with assms(1,3) show ?thesis by (auto simp: is_key_allowed_def Let_def list_ex_iff)
qed

lemma hex_char_base64url: "hex_char c \<Longrightarrow> base64url_char c"
  by (auto simp: hex_char_def base64url_char_def in_range_def)

lemma strip_padding_id: "s = [] \<or> last s \<noteq> CHR ''='' \<Longrightarrow> strip_padding n s = s"
  by (cases n) auto

lemma hex_digits_hex: "set s \<subseteq> set hex_digits \<Longrightarrow> list_all hex_char s"
  by (auto simp: list_all_iff hex_digits_def hex_char_def in_range_def)

lemma looks_like_token_hex: "set s \<subseteq> set hex_digits \<Longrightarrow> looks_like_token s \<longleftrightarrow> 32 \<le> length s"
  using hex_digits_hex [of s] by (auto simp: looks_like_token_def is_hex_like_def)

text \<open>The separate hexadecimal test adds nothing: its strings already pass the other one.\<close>

lemma looks_like_token_eq: "looks_like_token s = is_base64url_like s"
proof -
  have "is_base64url_like s" if h: "is_hex_like s"
  proof -
    have len: "\<not> length s < 32" and hx: "\<forall>c \<in> set s. hex_char c"
      using h by (auto simp: is_hex_like_def list_all_iff)
    then have "last s \<in> set s" by (cases s) auto
    with hx have "last s \<noteq> CHR ''=''" by (auto simp: hex_char_def in_range_def)
    with len hx show ?thesis
      by (auto simp: is_base64url_like_def strip_padding_id list_all_iff hex_char_base64url)
  qed
  then show ?thesis by (auto simp: looks_like_token_def is_base64url_like_def)
qed

lemma short_string_ok: "length s < 32 \<Longrightarrow> \<not> looks_like_token s"
  by (simp add: looks_like_token_def)

end
