(* ===== verification/Canonical_Bytes.thy ===== *)
theory Canonical_Bytes
  imports Greylock_Prelude
begin

text \<open>
  The byte string an audit entry is hashed as (\<open>server/audit/CanonicalBytes.cpp\<close>): two 64-bit
  big-endian words, seven NUL-terminated strings, the details with a 32-bit length, and the
  previous hash.  The layout determines the entry when no text field holds a NUL
  (\<open>canonical_inject\<close>), and only then (\<open>canonical_nul_shift\<close>).
\<close>

record pre_commit_entry =
  pce_seq :: int
  pce_ts_ms :: int
  pce_actor :: string
  pce_actor_kind :: string
  pce_domain :: string
  pce_subject :: string
  pce_subject_kind :: string
  pce_action :: string
  pce_outcome :: string
  pce_details :: string
  pce_prev :: "byte list"

definition append_be64 :: "byte list \<Rightarrow> 64 word \<Rightarrow> byte list" where
  "append_be64 out v = out @
     [ucast (drop_bit 56 v AND 0xFF), ucast (drop_bit 48 v AND 0xFF),
      ucast (drop_bit 40 v AND 0xFF), ucast (drop_bit 32 v AND 0xFF),
      ucast (drop_bit 24 v AND 0xFF), ucast (drop_bit 16 v AND 0xFF),
      ucast (drop_bit 8 v AND 0xFF), ucast (v AND 0xFF)]"

definition append_be_int64 :: "byte list \<Rightarrow> int \<Rightarrow> byte list" where
  "append_be_int64 out v = append_be64 out (word_of_int v)"

definition append_be32 :: "byte list \<Rightarrow> 32 word \<Rightarrow> byte list" where
  "append_be32 out v = out @
     [ucast (drop_bit 24 v AND 0xFF), ucast (drop_bit 16 v AND 0xFF),
      ucast (drop_bit 8 v AND 0xFF), ucast (v AND 0xFF)]"

definition append_nul_terminated :: "byte list \<Rightarrow> string \<Rightarrow> byte list" where
  "append_nul_terminated out s = out @ bytes_of s @ [0]"

definition compute_canonical_bytes :: "pre_commit_entry \<Rightarrow> string + byte list" where
  "compute_canonical_bytes e =
     (if length (pce_prev e) \<noteq> 32
      then Inl (''compute_canonical_bytes: prev_hash must be exactly 32 bytes, got '' @
                nat_to_string (length (pce_prev e)))
      else
        let out = append_be64 [] (word_of_int (pce_seq e));
            ts_unix_nanos = to_i64 (pce_ts_ms e * 1000000);
            out = append_be_int64 out ts_unix_nanos;
            out = append_nul_terminated out (pce_actor e);
            out = append_nul_terminated out (pce_actor_kind e);
            out = append_nul_terminated out (pce_domain e);
            out = append_nul_terminated out (pce_subject e);
            out = append_nul_terminated out (pce_subject_kind e);
            out = append_nul_terminated out (pce_action e);
            out = append_nul_terminated out (pce_outcome e);
            out = append_be32 out (word_of_nat (length (pce_details e)));
            out = out @ bytes_of (pce_details e)
        in Inr (out @ pce_prev e))"

definition compute_entry_hash :: "third_party \<Rightarrow> byte list \<Rightarrow> byte list" where
  "compute_entry_hash L canonical = generichash L canonical"

section \<open>The layout determines the entry\<close>

text \<open>The fields of the layout, each as a block of bytes.\<close>

definition be64 :: "int \<Rightarrow> byte list" where
  "be64 v = append_be64 [] (word_of_int v)"

definition be32 :: "nat \<Rightarrow> byte list" where
  "be32 n = append_be32 [] (word_of_nat n)"

definition nul_field :: "string \<Rightarrow> byte list" where
  "nul_field s = bytes_of s @ [0]"

definition canonical :: "pre_commit_entry \<Rightarrow> byte list" where
  "canonical e = be64 (pce_seq e) @ be64 (to_i64 (pce_ts_ms e * 1000000)) @
     nul_field (pce_actor e) @ nul_field (pce_actor_kind e) @ nul_field (pce_domain e) @
     nul_field (pce_subject e) @ nul_field (pce_subject_kind e) @ nul_field (pce_action e) @
     nul_field (pce_outcome e) @ be32 (length (pce_details e)) @ bytes_of (pce_details e) @
     pce_prev e"

lemma append_blocks:
  "append_be64 out (word_of_int v) = out @ be64 v" "append_be_int64 out v = out @ be64 v"
  "append_be32 out (word_of_nat n) = out @ be32 n" "append_nul_terminated out s = out @ nul_field s"
  by (simp_all add: append_be64_def append_be_int64_def append_be32_def append_nul_terminated_def
                    be64_def be32_def nul_field_def)

lemma compute_canonical_bytes_eq:
  "compute_canonical_bytes e =
     (if length (pce_prev e) = 32 then Inr (canonical e)
      else Inl (''compute_canonical_bytes: prev_hash must be exactly 32 bytes, got '' @
                nat_to_string (length (pce_prev e))))"
  by (simp add: compute_canonical_bytes_def Let_def append_blocks canonical_def)

lemma length_be64 [simp]: "length (be64 v) = 8"
  by (simp add: be64_def append_be64_def)

lemma length_be32 [simp]: "length (be32 n) = 4"
  by (simp add: be32_def append_be32_def)

lemma drop_bit_byte_inject:
  fixes v w :: "'a :: len word"
  assumes "(ucast (drop_bit n v AND 0xFF) :: byte) = ucast (drop_bit n w AND 0xFF)"
    and "n \<le> i" and "i < n + 8"
  shows "bit v i = bit w i"
proof -
  have *: "bit (ucast (drop_bit n u AND 0xFF) :: byte) (i - n) \<longleftrightarrow> bit u i" for u :: "'a word"
  proof -
    have m: "(0xFF :: 'a word) = mask 8" by (simp add: mask_eq_exp_minus_1)
    have "bit (0xFF :: 'a word) (i - n) \<longleftrightarrow> i - n < LENGTH('a)"
      unfolding m bit_mask_iff possible_bit_word using assms(2,3) by auto
    then show ?thesis
      using assms(2,3) by (auto simp: bit_simps dest: bit_imp_le_length)
  qed
  show ?thesis using assms(1) * [of v] * [of w] by simp
qed

lemma append_be64_inject: "append_be64 [] v = append_be64 [] w \<Longrightarrow> v = w"
proof (rule bit_eqI)
  fix i
  assume eq: "append_be64 [] v = append_be64 [] w" and "possible_bit TYPE(64 word) i"
  then have "i < 64" by (simp add: possible_bit_word)
  then consider "i < 8" | "8 \<le> i" "i < 16" | "16 \<le> i" "i < 24" | "24 \<le> i" "i < 32"
    | "32 \<le> i" "i < 40" | "40 \<le> i" "i < 48" | "48 \<le> i" "i < 56" | "56 \<le> i" "i < 64"
    by linarith
  then show "bit v i = bit w i"
    using eq
      drop_bit_byte_inject [of 0 v w i] drop_bit_byte_inject [of 8 v w i]
      drop_bit_byte_inject [of 16 v w i] drop_bit_byte_inject [of 24 v w i]
      drop_bit_byte_inject [of 32 v w i] drop_bit_byte_inject [of 40 v w i]
      drop_bit_byte_inject [of 48 v w i] drop_bit_byte_inject [of 56 v w i]
    by cases (simp_all add: append_be64_def)
qed

lemma append_be32_inject: "append_be32 [] v = append_be32 [] w \<Longrightarrow> v = w"
proof (rule bit_eqI)
  fix i
  assume eq: "append_be32 [] v = append_be32 [] w" and "possible_bit TYPE(32 word) i"
  then have "i < 32" by (simp add: possible_bit_word)
  then consider "i < 8" | "8 \<le> i" "i < 16" | "16 \<le> i" "i < 24" | "24 \<le> i" "i < 32"
    by linarith
  then show "bit v i = bit w i"
    using eq
      drop_bit_byte_inject [of 0 v w i] drop_bit_byte_inject [of 8 v w i]
      drop_bit_byte_inject [of 16 v w i] drop_bit_byte_inject [of 24 v w i]
    by cases (simp_all add: append_be32_def)
qed

lemma be64_inject: "in_i64 a \<Longrightarrow> in_i64 b \<Longrightarrow> be64 a = be64 b \<longleftrightarrow> a = b"
proof
  assume r: "in_i64 a" "in_i64 b" and "be64 a = be64 b"
  then have "(word_of_int a :: 64 word) = word_of_int b"
    unfolding be64_def by (blast dest: append_be64_inject)
  then have "sint (word_of_int a :: 64 word) = sint (word_of_int b :: 64 word)" by simp
  then have "to_i64 a = to_i64 b" by (simp add: to_i64_def sint_sbintrunc')
  with r show "a = b" by simp
qed simp

lemma be32_inject: "m < 2 ^ 32 \<Longrightarrow> n < 2 ^ 32 \<Longrightarrow> be32 m = be32 n \<longleftrightarrow> m = n"
proof
  assume r: "m < 2 ^ 32" "n < 2 ^ 32" and "be32 m = be32 n"
  then have "(word_of_nat m :: 32 word) = word_of_nat n"
    unfolding be32_def by (blast dest: append_be32_inject)
  then have "unat (word_of_nat m :: 32 word) = unat (word_of_nat n :: 32 word)" by simp
  with r show "m = n" by (simp add: unsigned_of_nat take_bit_eq_mod)
qed simp

lemma nul_field_append_inject:
  assumes "nul_free s" and "nul_free t" and "nul_field s @ x = nul_field t @ y"
  shows "s = t \<and> x = y"
  using assms
proof (induction s arbitrary: t)
  case Nil
  then show ?case by (cases t) (auto simp: nul_field_def bytes_of_def nul_free_def)
next
  case (Cons c s)
  then show ?case by (cases t) (auto simp: nul_field_def bytes_of_def nul_free_def)
qed

definition entry_nul_free :: "pre_commit_entry \<Rightarrow> bool" where
  "entry_nul_free e \<longleftrightarrow> nul_free (pce_actor e) \<and> nul_free (pce_actor_kind e) \<and>
     nul_free (pce_domain e) \<and> nul_free (pce_subject e) \<and> nul_free (pce_subject_kind e) \<and>
     nul_free (pce_action e) \<and> nul_free (pce_outcome e)"

text \<open>Sequence number, time and details stay in the range of their fields.\<close>

definition entry_in_range :: "pre_commit_entry \<Rightarrow> bool" where
  "entry_in_range e \<longleftrightarrow> in_i64 (pce_seq e) \<and> in_i64 (pce_ts_ms e * 1000000) \<and>
     length (pce_details e) < 2 ^ 32 \<and> length (pce_prev e) = 32"

lemma canonical_inject:
  assumes "entry_nul_free e" and "entry_nul_free e'" and "entry_in_range e" and "entry_in_range e'"
    and "canonical e = canonical e'"
  shows "e = e'"
proof -
  note r = assms(3,4) [unfolded entry_in_range_def]
  note n = assms(1,2) [unfolded entry_nul_free_def]
  have c: "be64 (pce_seq e) = be64 (pce_seq e')"
    "be64 (to_i64 (pce_ts_ms e * 1000000)) = be64 (to_i64 (pce_ts_ms e' * 1000000))"
    using assms(5) by (simp_all add: canonical_def)
  have seq: "pce_seq e = pce_seq e'" using c(1) r be64_inject by blast
  have "pce_ts_ms e * 1000000 = pce_ts_ms e' * 1000000" using c(2) r by (simp add: be64_inject)
  then have ts: "pce_ts_ms e = pce_ts_ms e'" by simp
  have "nul_field (pce_actor e) @ nul_field (pce_actor_kind e) @ nul_field (pce_domain e) @
     nul_field (pce_subject e) @ nul_field (pce_subject_kind e) @ nul_field (pce_action e) @
     nul_field (pce_outcome e) @ be32 (length (pce_details e)) @ bytes_of (pce_details e) @ pce_prev e
   = nul_field (pce_actor e') @ nul_field (pce_actor_kind e') @ nul_field (pce_domain e') @
     nul_field (pce_subject e') @ nul_field (pce_subject_kind e') @ nul_field (pce_action e') @
     nul_field (pce_outcome e') @ be32 (length (pce_details e')) @ bytes_of (pce_details e') @ pce_prev e'"
    using assms(5) by (simp add: canonical_def)
  then have f: "pce_actor e = pce_actor e'" "pce_actor_kind e = pce_actor_kind e'"
    "pce_domain e = pce_domain e'" "pce_subject e = pce_subject e'"
    "pce_subject_kind e = pce_subject_kind e'" "pce_action e = pce_action e'"
    "pce_outcome e = pce_outcome e'"
    and tail: "be32 (length (pce_details e)) @ bytes_of (pce_details e) @ pce_prev e
      = be32 (length (pce_details e')) @ bytes_of (pce_details e') @ pce_prev e'"
    using n by (metis nul_field_append_inject)+
  have "length (pce_details e) = length (pce_details e')"
    using tail r by (simp add: be32_inject)
  with tail have d: "pce_details e = pce_details e'" "pce_prev e = pce_prev e'"
    by simp_all
  show ?thesis using seq ts f d by simp
qed

text \<open>
  A NUL inside a field moves the boundary between it and the next one: two different entries
  with the same canonical bytes, whatever their other fields.
\<close>

lemma canonical_nul_shift:
  "canonical (e\<lparr>pce_subject := s @ [nul] @ t, pce_subject_kind := k\<rparr>) =
   canonical (e\<lparr>pce_subject := s, pce_subject_kind := t @ [nul] @ k\<rparr>)"
  by (simp add: canonical_def nul_field_def bytes_of_def)

end
