(* ===== verification/Database_Model.thy ===== *)
theory Database_Model
  imports Greylock_Prelude
begin

text \<open>
  The SQLite schema the server runs on (\<open>server/db/Migrations.cpp\<close>, the tables the routes use) and the
  constraints SQLite enforces on it: primary keys, \<open>UNIQUE\<close>, \<open>CHECK\<close> and, because the constructor
  of \<open>Database\<close> switches them on, foreign keys.  A statement that breaks a constraint leaves the
  table as it was; \<open>None\<close> is the result code other than \<open>SQLITE_DONE\<close> that \<open>step()\<close> then returns.

  Nullable columns are options, every row is a record, and a table lists its rows in insertion
  order.  \<open>db_ok\<close> is the integrity the constraints maintain.
\<close>

section \<open>Rows\<close>

record user_row =
  user_id :: string
  user_email :: string
  user_created :: int
  user_pass :: "byte list"
  user_totp :: "byte list option"

record entity_row =
  ent_id :: string
  ent_name :: string
  ent_kind :: string
  ent_created :: int

record member_row =
  mem_user :: string
  mem_entity :: string
  mem_role :: string

record account_row =
  acc_id :: string
  acc_entity :: string
  acc_name :: string
  acc_kind :: string
  acc_balance :: int
  acc_item :: "string option"
  acc_plaid :: "string option"
  acc_token :: "byte list option"
  acc_linked :: int
  acc_created :: int
  acc_institution :: string

record tx_row =
  tx_id :: string
  tx_account :: string
  tx_plaid :: "string option"
  tx_posted :: int
  tx_amount :: int
  tx_description :: "string option"
  tx_category :: "string option"
  tx_created :: int

record category_row =
  cat_id :: string
  cat_entity :: string
  cat_name :: string
  cat_kind :: string

record budget_row =
  bud_id :: string
  bud_entity :: string
  bud_category :: "string option"
  bud_amount :: int
  bud_start :: int
  bud_end :: int

record session_row =
  ses_id :: string
  ses_user :: string
  ses_created :: int
  ses_seen :: int
  ses_expires :: int
  ses_revoked :: int

record enroll_row =
  enr_hash :: "byte list"
  enr_email :: string
  enr_created :: int
  enr_expires :: int
  enr_consumed :: "int option"

record audit_row =
  aud_seq :: int
  aud_nanos :: int
  aud_actor :: "string option"
  aud_actor_kind :: string
  aud_domain :: "string option"
  aud_subject :: "string option"
  aud_subject_kind :: "string option"
  aud_action :: string
  aud_outcome :: string
  aud_details :: "string option"
  aud_prev :: "byte list"
  aud_hash :: "byte list"

record sync_row =
  syn_account :: string
  syn_cursor :: string
  syn_last :: int

record link_row =
  lnk_hash :: "byte list"
  lnk_account :: string
  lnk_user :: string
  lnk_expires :: int

record decision_row =
  dec_id :: string
  dec_title :: string
  dec_body :: string
  dec_scope :: string
  dec_status :: string
  dec_outcome :: "string option"
  dec_by :: "string option"
  dec_at :: "int option"
  dec_due :: "int option"
  dec_note :: "string option"
  dec_created :: int

record relationship_row =
  rel_id :: string
  rel_name :: string
  rel_kind :: string
  rel_email :: "string option"
  rel_phone :: "string option"
  rel_contact :: "int option"
  rel_notes :: string
  rel_created :: int
  rel_updated :: int

record target_row =
  tgt_id :: string
  tgt_name :: string
  tgt_scope :: string
  tgt_stage :: string
  tgt_thesis :: string
  tgt_size :: "int option"
  tgt_note :: "string option"
  tgt_created :: int
  tgt_updated :: int

record db =
  users :: "user_row list"
  entities :: "entity_row list"
  memberships :: "member_row list"
  accounts :: "account_row list"
  transactions :: "tx_row list"
  categories :: "category_row list"
  budgets :: "budget_row list"
  sessions :: "session_row list"
  enrollments :: "enroll_row list"
  audit_log :: "audit_row list"
  sync_state :: "sync_row list"
  pending_links :: "link_row list"
  decisions :: "decision_row list"
  relationships :: "relationship_row list"
  targets :: "target_row list"

definition empty_db :: db where
  "empty_db = \<lparr>users = [], entities = [], memberships = [], accounts = [], transactions = [],
     categories = [], budgets = [], sessions = [], enrollments = [], audit_log = [],
     sync_state = [], pending_links = [], decisions = [], relationships = [], targets = []\<rparr>"

section \<open>Constraints\<close>

definition entity_kinds :: "string list" where
  "entity_kinds = [''Individual'', ''LLC'', ''Corporation'', ''Partnership'', ''Trust'', ''Other'']"

definition mem_key :: "member_row \<Rightarrow> string \<times> string" where
  "mem_key m = (mem_user m, mem_entity m)"

definition insert_user :: "user_row \<Rightarrow> db \<Rightarrow> db option" where
  "insert_user r d =
     (if user_email r \<in> set (map user_email (users d)) then None
      else map_option (\<lambda>t. d\<lparr>users := t\<rparr>) (ins_by user_id r (users d)))"

definition insert_entity :: "entity_row \<Rightarrow> db \<Rightarrow> db option" where
  "insert_entity r d =
     (if ent_kind r \<notin> set entity_kinds then None
      else map_option (\<lambda>t. d\<lparr>entities := t\<rparr>) (ins_by ent_id r (entities d)))"

definition insert_membership :: "member_row \<Rightarrow> db \<Rightarrow> db option" where
  "insert_membership r d =
     (if mem_user r \<notin> set (map user_id (users d)) \<or> mem_entity r \<notin> set (map ent_id (entities d))
      then None
      else map_option (\<lambda>t. d\<lparr>memberships := t\<rparr>) (ins_by mem_key r (memberships d)))"

definition insert_account :: "account_row \<Rightarrow> db \<Rightarrow> db option" where
  "insert_account r d =
     (if acc_entity r \<notin> set (map ent_id (entities d)) then None
      else map_option (\<lambda>t. d\<lparr>accounts := t\<rparr>) (ins_by acc_id r (accounts d)))"

definition insert_transaction :: "tx_row \<Rightarrow> db \<Rightarrow> db option" where
  "insert_transaction r d =
     (if tx_account r \<notin> set (map acc_id (accounts d)) then None
      else map_option (\<lambda>t. d\<lparr>transactions := t\<rparr>) (ins_by tx_id r (transactions d)))"

definition insert_category :: "category_row \<Rightarrow> db \<Rightarrow> db option" where
  "insert_category r d =
     (if cat_entity r \<notin> set (map ent_id (entities d)) then None
      else map_option (\<lambda>t. d\<lparr>categories := t\<rparr>) (ins_by cat_id r (categories d)))"

definition insert_budget :: "budget_row \<Rightarrow> db \<Rightarrow> db option" where
  "insert_budget r d =
     (if bud_entity r \<notin> set (map ent_id (entities d)) then None
      else map_option (\<lambda>t. d\<lparr>budgets := t\<rparr>) (ins_by bud_id r (budgets d)))"

definition insert_session :: "session_row \<Rightarrow> db \<Rightarrow> db option" where
  "insert_session r d =
     (if ses_user r \<notin> set (map user_id (users d)) then None
      else map_option (\<lambda>t. d\<lparr>sessions := t\<rparr>) (ins_by ses_id r (sessions d)))"

definition insert_enrollment :: "enroll_row \<Rightarrow> db \<Rightarrow> db option" where
  "insert_enrollment r d = map_option (\<lambda>t. d\<lparr>enrollments := t\<rparr>) (ins_by enr_hash r (enrollments d))"

text \<open>
  \<open>DELETE\<close> of a parent row: no table declares \<open>ON DELETE CASCADE\<close>, so the statement fails while a
  child row refers to the parent.  Deleting a row that is not there succeeds and changes nothing.
\<close>

definition entity_referenced :: "string \<Rightarrow> db \<Rightarrow> bool" where
  "entity_referenced k d \<longleftrightarrow>
     k \<in> set (map mem_entity (memberships d)) \<or> k \<in> set (map acc_entity (accounts d)) \<or>
     k \<in> set (map cat_entity (categories d)) \<or> k \<in> set (map bud_entity (budgets d))"

definition delete_entity :: "string \<Rightarrow> db \<Rightarrow> db option" where
  "delete_entity k d =
     (if k \<in> set (map ent_id (entities d)) \<and> entity_referenced k d then None
      else Some (d\<lparr>entities := del_by ent_id k (entities d)\<rparr>))"

definition delete_account :: "string \<Rightarrow> db \<Rightarrow> db option" where
  "delete_account k d =
     (if k \<in> set (map acc_id (accounts d)) \<and> k \<in> set (map tx_account (transactions d)) then None
      else Some (d\<lparr>accounts := del_by acc_id k (accounts d)\<rparr>))"

text \<open>\<open>db.exec\<close> and \<open>stmt.step()\<close> whose result code the caller ignores.\<close>

definition ignoring :: "(db \<Rightarrow> db option) \<Rightarrow> db \<Rightarrow> db" where
  "ignoring stmt d = (case stmt d of None \<Rightarrow> d | Some d' \<Rightarrow> d')"

section \<open>Integrity\<close>

definition keys_ok :: "db \<Rightarrow> bool" where
  "keys_ok d \<longleftrightarrow> unique_by user_id (users d) \<and> unique_by user_email (users d) \<and>
     unique_by ent_id (entities d) \<and> unique_by mem_key (memberships d) \<and>
     unique_by acc_id (accounts d) \<and> unique_by tx_id (transactions d) \<and>
     unique_by cat_id (categories d) \<and> unique_by bud_id (budgets d) \<and>
     unique_by ses_id (sessions d) \<and> unique_by enr_hash (enrollments d) \<and>
     unique_by syn_account (sync_state d) \<and> unique_by lnk_hash (pending_links d)"

text \<open>A foreign key: the column \<open>f\<close> of the child table refers to the key \<open>g\<close> of the parent table.\<close>

definition fk :: "('c \<Rightarrow> 'k) \<Rightarrow> 'c list \<Rightarrow> ('p \<Rightarrow> 'k) \<Rightarrow> 'p list \<Rightarrow> bool" where
  "fk f cs g ps \<longleftrightarrow> set (map f cs) \<subseteq> set (map g ps)"

definition refs_ok :: "db \<Rightarrow> bool" where
  "refs_ok d \<longleftrightarrow>
     fk mem_user (memberships d) user_id (users d) \<and>
     fk mem_entity (memberships d) ent_id (entities d) \<and>
     fk acc_entity (accounts d) ent_id (entities d) \<and>
     fk tx_account (transactions d) acc_id (accounts d) \<and>
     fk cat_entity (categories d) ent_id (entities d) \<and>
     fk bud_entity (budgets d) ent_id (entities d) \<and>
     fk ses_user (sessions d) user_id (users d)"

definition kinds_ok :: "db \<Rightarrow> bool" where
  "kinds_ok d \<longleftrightarrow> list_all (\<lambda>r. ent_kind r \<in> set entity_kinds) (entities d)"

definition db_ok :: "db \<Rightarrow> bool" where
  "db_ok d \<longleftrightarrow> keys_ok d \<and> refs_ok d \<and> kinds_ok d"

lemmas db_ok_defs = db_ok_def keys_ok_def refs_ok_def kinds_ok_def

lemma empty_db_ok: "db_ok empty_db"
  by (simp add: db_ok_defs empty_db_def unique_by_def fk_def)

interpretation users_tbl: keyed_table user_id "sel_by user_id" "ins_by user_id" "upd_by user_id"
  "del_by user_id" "unique_by user_id"
  by (rule keyed_table_list)

interpretation entities_tbl: keyed_table ent_id "sel_by ent_id" "ins_by ent_id" "upd_by ent_id"
  "del_by ent_id" "unique_by ent_id"
  by (rule keyed_table_list)

interpretation members_tbl: keyed_table mem_key "sel_by mem_key" "ins_by mem_key" "upd_by mem_key"
  "del_by mem_key" "unique_by mem_key"
  by (rule keyed_table_list)

interpretation accounts_tbl: keyed_table acc_id "sel_by acc_id" "ins_by acc_id" "upd_by acc_id"
  "del_by acc_id" "unique_by acc_id"
  by (rule keyed_table_list)

interpretation txs_tbl: keyed_table tx_id "sel_by tx_id" "ins_by tx_id" "upd_by tx_id"
  "del_by tx_id" "unique_by tx_id"
  by (rule keyed_table_list)

interpretation categories_tbl: keyed_table cat_id "sel_by cat_id" "ins_by cat_id" "upd_by cat_id"
  "del_by cat_id" "unique_by cat_id"
  by (rule keyed_table_list)

interpretation budgets_tbl: keyed_table bud_id "sel_by bud_id" "ins_by bud_id" "upd_by bud_id"
  "del_by bud_id" "unique_by bud_id"
  by (rule keyed_table_list)

interpretation sessions_tbl: keyed_table ses_id "sel_by ses_id" "ins_by ses_id" "upd_by ses_id"
  "del_by ses_id" "unique_by ses_id"
  by (rule keyed_table_list)

interpretation enrollments_tbl: keyed_table enr_hash "sel_by enr_hash" "ins_by enr_hash"
  "upd_by enr_hash" "del_by enr_hash" "unique_by enr_hash"
  by (rule keyed_table_list)

interpretation sync_tbl: keyed_table syn_account "sel_by syn_account" "ins_by syn_account"
  "upd_by syn_account" "del_by syn_account" "unique_by syn_account"
  by (rule keyed_table_list)

interpretation links_tbl: keyed_table lnk_hash "sel_by lnk_hash" "ins_by lnk_hash"
  "upd_by lnk_hash" "del_by lnk_hash" "unique_by lnk_hash"
  by (rule keyed_table_list)

lemma ins_by_Some:
  "ins_by key r t = Some t' \<longleftrightarrow> key r \<notin> key ` set t \<and> t' = t @ [r]"
  by (auto simp: ins_by_def)

lemma ins_by_map_Some:
  "map_option f (ins_by key r t) = Some d \<longleftrightarrow> key r \<notin> key ` set t \<and> d = f (t @ [r])"
  by (auto simp: ins_by_def)

lemma unique_by_snoc: "unique_by key (t @ [r]) \<longleftrightarrow> unique_by key t \<and> key r \<notin> key ` set t"
  by (simp add: unique_by_def)

lemma unique_by_del_by [simp]: "unique_by key t \<Longrightarrow> unique_by key (del_by k' k t)"
  by (simp add: unique_by_def del_by_def distinct_map_filter)

lemma fk_Nil [simp]: "fk f [] g ps"
  by (simp add: fk_def)

lemma fk_child_snoc: "fk f (cs @ [c]) g ps \<longleftrightarrow> fk f cs g ps \<and> f c \<in> g ` set ps"
  by (auto simp: fk_def)

lemma fk_parent_snoc: "fk f cs g ps \<Longrightarrow> fk f cs g (ps @ [p])"
  by (auto simp: fk_def)

lemma fk_child_del: "fk f cs g ps \<Longrightarrow> fk f (del_by key k cs) g ps"
  by (auto simp: fk_def)

lemma fk_parent_del:
  assumes "fk f cs g ps" and "k \<notin> f ` set cs"
  shows "fk f cs g (del_by g k ps)"
proof -
  have "f c \<in> g ` set (del_by g k ps)" if "c \<in> set cs" for c
  proof -
    from that assms(2) have "f c \<noteq> k" by auto
    moreover from that assms(1) obtain p where "p \<in> set ps" and "f c = g p"
      by (auto simp: fk_def)
    ultimately show ?thesis by auto
  qed
  then show ?thesis by (auto simp: fk_def)
qed

lemma map_upd_by: "(\<And>r. g (h r) = g r) \<Longrightarrow> map g (upd_by key k h t) = map g t"
  by (induction t) (auto simp: upd_by_def)

lemma fk_child_upd: "(\<And>r. f (h r) = f r) \<Longrightarrow> fk f (upd_by key k h cs) g ps = fk f cs g ps"
  by (simp only: fk_def map_upd_by)

lemma fk_parent_upd: "(\<And>r. g (h r) = g r) \<Longrightarrow> fk f cs g (upd_by key k h ps) = fk f cs g ps"
  by (simp only: fk_def map_upd_by)

lemma unique_by_upd: "(\<And>r. key (h r) = key r) \<Longrightarrow> unique_by key (upd_by key' k h t) = unique_by key t"
  by (simp only: unique_by_def map_upd_by)

lemmas integrity_simps = db_ok_defs unique_by_snoc fk_child_snoc fk_parent_snoc fk_child_del
  fk_parent_del fk_child_upd fk_parent_upd unique_by_upd

text \<open>What a successful insertion does.\<close>

lemma insert_user_Some:
  "insert_user r d = Some d' \<longleftrightarrow> user_email r \<notin> user_email ` set (users d) \<and> 
     user_id r \<notin> user_id ` set (users d) \<and> d' = d\<lparr>users := users d @ [r]\<rparr>"
  by (auto simp only: insert_user_def ins_by_map_Some set_map split: if_splits)

lemma insert_entity_Some:
  "insert_entity r d = Some d' \<longleftrightarrow> ent_kind r \<in> set entity_kinds \<and> 
     ent_id r \<notin> ent_id ` set (entities d) \<and> d' = d\<lparr>entities := entities d @ [r]\<rparr>"
  by (auto simp only: insert_entity_def ins_by_map_Some set_map split: if_splits)

lemma insert_membership_Some:
  "insert_membership r d = Some d' \<longleftrightarrow> mem_user r \<in> user_id ` set (users d) \<and> mem_entity r \<in> ent_id ` set (entities d) \<and> 
     mem_key r \<notin> mem_key ` set (memberships d) \<and> d' = d\<lparr>memberships := memberships d @ [r]\<rparr>"
  by (auto simp only: insert_membership_def ins_by_map_Some set_map split: if_splits)

lemma insert_account_Some:
  "insert_account r d = Some d' \<longleftrightarrow> acc_entity r \<in> ent_id ` set (entities d) \<and> 
     acc_id r \<notin> acc_id ` set (accounts d) \<and> d' = d\<lparr>accounts := accounts d @ [r]\<rparr>"
  by (auto simp only: insert_account_def ins_by_map_Some set_map split: if_splits)

lemma insert_transaction_Some:
  "insert_transaction r d = Some d' \<longleftrightarrow> tx_account r \<in> acc_id ` set (accounts d) \<and> 
     tx_id r \<notin> tx_id ` set (transactions d) \<and> d' = d\<lparr>transactions := transactions d @ [r]\<rparr>"
  by (auto simp only: insert_transaction_def ins_by_map_Some set_map split: if_splits)

lemma insert_category_Some:
  "insert_category r d = Some d' \<longleftrightarrow> cat_entity r \<in> ent_id ` set (entities d) \<and> 
     cat_id r \<notin> cat_id ` set (categories d) \<and> d' = d\<lparr>categories := categories d @ [r]\<rparr>"
  by (auto simp only: insert_category_def ins_by_map_Some set_map split: if_splits)

lemma insert_budget_Some:
  "insert_budget r d = Some d' \<longleftrightarrow> bud_entity r \<in> ent_id ` set (entities d) \<and> 
     bud_id r \<notin> bud_id ` set (budgets d) \<and> d' = d\<lparr>budgets := budgets d @ [r]\<rparr>"
  by (auto simp only: insert_budget_def ins_by_map_Some set_map split: if_splits)

lemma insert_session_Some:
  "insert_session r d = Some d' \<longleftrightarrow> ses_user r \<in> user_id ` set (users d) \<and> 
     ses_id r \<notin> ses_id ` set (sessions d) \<and> d' = d\<lparr>sessions := sessions d @ [r]\<rparr>"
  by (auto simp only: insert_session_def ins_by_map_Some set_map split: if_splits)

lemma insert_enrollment_Some:
  "insert_enrollment r d = Some d' \<longleftrightarrow> 
     enr_hash r \<notin> enr_hash ` set (enrollments d) \<and> d' = d\<lparr>enrollments := enrollments d @ [r]\<rparr>"
  by (auto simp only: insert_enrollment_def ins_by_map_Some set_map split: if_splits)

lemmas insert_Some = insert_user_Some insert_entity_Some insert_membership_Some insert_account_Some 
  insert_transaction_Some insert_category_Some insert_budget_Some insert_session_Some insert_enrollment_Some

text \<open>Every statement keeps the integrity of the database, whether or not it succeeds.\<close>

lemma insert_user_ok: "db_ok d \<Longrightarrow> insert_user r d = Some d' \<Longrightarrow> db_ok d'"
  by (clarsimp simp only: insert_user_Some) (simp add: integrity_simps)

lemma insert_entity_ok: "db_ok d \<Longrightarrow> insert_entity r d = Some d' \<Longrightarrow> db_ok d'"
  by (clarsimp simp only: insert_entity_Some) (simp add: integrity_simps)

lemma insert_membership_ok: "db_ok d \<Longrightarrow> insert_membership r d = Some d' \<Longrightarrow> db_ok d'"
  by (clarsimp simp only: insert_membership_Some) (simp add: integrity_simps)

lemma insert_account_ok: "db_ok d \<Longrightarrow> insert_account r d = Some d' \<Longrightarrow> db_ok d'"
  by (clarsimp simp only: insert_account_Some) (simp add: integrity_simps)

lemma insert_transaction_ok: "db_ok d \<Longrightarrow> insert_transaction r d = Some d' \<Longrightarrow> db_ok d'"
  by (clarsimp simp only: insert_transaction_Some) (simp add: integrity_simps)

lemma insert_category_ok: "db_ok d \<Longrightarrow> insert_category r d = Some d' \<Longrightarrow> db_ok d'"
  by (clarsimp simp only: insert_category_Some) (simp add: integrity_simps)

lemma insert_budget_ok: "db_ok d \<Longrightarrow> insert_budget r d = Some d' \<Longrightarrow> db_ok d'"
  by (clarsimp simp only: insert_budget_Some) (simp add: integrity_simps)

lemma insert_session_ok: "db_ok d \<Longrightarrow> insert_session r d = Some d' \<Longrightarrow> db_ok d'"
  by (clarsimp simp only: insert_session_Some) (simp add: integrity_simps)

lemma insert_enrollment_ok: "db_ok d \<Longrightarrow> insert_enrollment r d = Some d' \<Longrightarrow> db_ok d'"
  by (clarsimp simp only: insert_enrollment_Some) (simp add: integrity_simps)

lemma delete_entity_Some:
  "delete_entity k d = Some d' \<longleftrightarrow> (k \<notin> ent_id ` set (entities d) \<or> \<not> entity_referenced k d) \<and>
     d' = d\<lparr>entities := del_by ent_id k (entities d)\<rparr>"
  by (auto simp: delete_entity_def)

lemma delete_account_Some:
  "delete_account k d = Some d' \<longleftrightarrow>
     (k \<notin> acc_id ` set (accounts d) \<or> k \<notin> tx_account ` set (transactions d)) \<and>
     d' = d\<lparr>accounts := del_by acc_id k (accounts d)\<rparr>"
  by (auto simp: delete_account_def)

lemma del_by_missing: "k \<notin> key ` set t \<Longrightarrow> del_by key k t = t"
  by (auto simp: del_by_def intro!: filter_True)

lemma delete_entity_ok:
  assumes "db_ok d" and "delete_entity k d = Some d'"
  shows "db_ok d'"
proof (cases "k \<in> ent_id ` set (entities d)")
  case True
  with assms(2) have "\<not> entity_referenced k d" and d': "d' = d\<lparr>entities := del_by ent_id k (entities d)\<rparr>"
    by (simp_all add: delete_entity_Some)
  with assms(1) show ?thesis
    by (simp add: integrity_simps entity_referenced_def list_all_iff)
next
  case False
  with assms show ?thesis by (simp add: delete_entity_Some del_by_missing)
qed

lemma delete_account_ok:
  assumes "db_ok d" and "delete_account k d = Some d'"
  shows "db_ok d'"
proof (cases "k \<in> acc_id ` set (accounts d)")
  case True
  with assms(2) have "k \<notin> tx_account ` set (transactions d)"
    and d': "d' = d\<lparr>accounts := del_by acc_id k (accounts d)\<rparr>"
    by (simp_all add: delete_account_Some)
  with assms(1) show ?thesis by (simp add: integrity_simps)
next
  case False
  with assms show ?thesis by (simp add: delete_account_Some del_by_missing)
qed

lemma ignoring_ok: "db_ok d \<Longrightarrow> (\<And>d'. stmt d = Some d' \<Longrightarrow> db_ok d') \<Longrightarrow> db_ok (ignoring stmt d)"
  by (simp add: ignoring_def split: option.splits)

section \<open>Membership queries (\<open>server/data/EntityMembership.cpp\<close>)\<close>

definition user_has_access_to_entity :: "db \<Rightarrow> string \<Rightarrow> string \<Rightarrow> bool" where
  "user_has_access_to_entity d uid eid \<longleftrightarrow>
     list_ex (\<lambda>m. mem_user m = uid \<and> mem_entity m = eid) (memberships d)"

definition user_is_owner_of_entity :: "db \<Rightarrow> string \<Rightarrow> string \<Rightarrow> bool" where
  "user_is_owner_of_entity d uid eid \<longleftrightarrow>
     list_ex (\<lambda>m. mem_user m = uid \<and> mem_entity m = eid \<and> mem_role m = ''owner'') (memberships d)"

lemma owner_has_access: "user_is_owner_of_entity d uid eid \<Longrightarrow> user_has_access_to_entity d uid eid"
  by (auto simp: user_is_owner_of_entity_def user_has_access_to_entity_def list_ex_iff)

lemma owner_referenced: "user_is_owner_of_entity d uid eid \<Longrightarrow> entity_referenced eid d"
  by (auto simp: user_is_owner_of_entity_def entity_referenced_def list_ex_iff)

lemma access_user_exists: "db_ok d \<Longrightarrow> user_has_access_to_entity d uid eid \<Longrightarrow> uid \<in> user_id ` set (users d)"
  by (fastforce simp: user_has_access_to_entity_def list_ex_iff db_ok_defs fk_def)

lemma access_entity_exists:
  "db_ok d \<Longrightarrow> user_has_access_to_entity d uid eid \<Longrightarrow> eid \<in> ent_id ` set (entities d)"
  by (fastforce simp: user_has_access_to_entity_def list_ex_iff db_ok_defs fk_def)

end
