(* ===== verification/Session_Model.thy ===== *)
theory Session_Model
  imports Database_Model
begin

text \<open>
  Sessions (\<open>server/auth/Session.cpp\<close>, \<open>Session.h\<close>) and the middleware that reads the bearer
  token (\<open>server/auth/SessionMiddleware.cpp\<close>).  A session row is keyed by the hex of the hash of
  the 32 random bytes the client holds; \<open>validate_and_touch_session\<close> is the only reader.

  The lemmas give the result of each operation on every branch, the fields an operation may
  change, the life of one token (minted, valid for eight hours, revoked for good) and the frame of
  the middleware as the interface \<open>session_guard\<close> the data routes rely on.
\<close>

definition kSessionAbsoluteTimeoutSeconds :: int where
  "kSessionAbsoluteTimeoutSeconds = 8 * 3600"

definition kSessionIdleTimeoutSeconds :: int where
  "kSessionIdleTimeoutSeconds = kSessionAbsoluteTimeoutSeconds"

definition base64url_decode :: "third_party \<Rightarrow> string \<Rightarrow> byte list" where
  "base64url_decode L s = (case b64_decode L s of None \<Rightarrow> [] | Some bs \<Rightarrow> bs)"

text \<open>The primary key of the session a sequence of raw bytes belongs to.\<close>

definition session_key :: "third_party \<Rightarrow> byte list \<Rightarrow> string" where
  "session_key L raw = bin2hex L (generichash L raw)"

record minted_session =
  raw_token :: string
  token_hash :: "byte list"

definition mint_session ::
  "third_party \<Rightarrow> env \<Rightarrow> string \<Rightarrow> int \<Rightarrow> db \<Rightarrow> (string + minted_session) \<times> db" where
  "mint_session L E uid now d =
     (let raw = random_token E;
          s = \<lparr>raw_token = b64_encode L raw, token_hash = generichash L raw\<rparr>;
          row = \<lparr>ses_id = bin2hex L (token_hash s), ses_user = uid, ses_created = now,
                 ses_seen = now, ses_expires = now + kSessionAbsoluteTimeoutSeconds,
                 ses_revoked = 0\<rparr>
      in case insert_session row d of
           None \<Rightarrow> (Inl ''mint_session: INSERT into sessions failed'', d)
         | Some d' \<Rightarrow> (Inr s, d'))"

definition touch :: "int \<Rightarrow> session_row \<Rightarrow> session_row" where
  "touch now r = r\<lparr>ses_seen := now\<rparr>"

definition validate_and_touch_session ::
  "third_party \<Rightarrow> string \<Rightarrow> int \<Rightarrow> db \<Rightarrow> string option \<times> db" where
  "validate_and_touch_session L tok now d =
     (let raw = base64url_decode L tok in
      if length raw \<noteq> 32 then (None, d)
      else let sid = session_key L raw in
        (case sel_by ses_id sid (sessions d) of
           None \<Rightarrow> (None, d)
         | Some r \<Rightarrow>
             if ses_revoked r \<noteq> 0 then (None, d)
             else if ses_expires r \<le> now then (None, d)
             else if ses_seen r \<le> now - kSessionIdleTimeoutSeconds then (None, d)
             else (Some (c_str (ses_user r)),
                   d\<lparr>sessions := upd_by ses_id sid (touch now) (sessions d)\<rparr>)))"

definition revoke_session :: "third_party \<Rightarrow> string \<Rightarrow> db \<Rightarrow> bool \<times> db" where
  "revoke_session L tok d =
     (let raw = base64url_decode L tok in
      if length raw \<noteq> 32 then (False, d)
      else let sid = session_key L raw in
        (sid \<in> set (map ses_id (sessions d)),
         d\<lparr>sessions := upd_by ses_id sid (\<lambda>r. r\<lparr>ses_revoked := 1\<rparr>) (sessions d)\<rparr>))"

definition extract_bearer :: "request \<Rightarrow> string option" where
  "extract_bearer req =
     (case authorization req of
        None \<Rightarrow> None
      | Some hdr \<Rightarrow>
          if length hdr < 8 \<or> take 7 hdr \<noteq> ''Bearer '' then None else Some (drop 7 hdr))"

definition require_session :: "third_party \<Rightarrow> env \<Rightarrow> request \<Rightarrow> db \<Rightarrow> string option \<times> db" where
  "require_session L E req d =
     (case extract_bearer req of
        None \<Rightarrow> (None, d)
      | Some tok \<Rightarrow> validate_and_touch_session L tok (clock E 0) d)"

section \<open>The result of each operation\<close>

lemma extract_bearer_header:
  "authorization req = Some (''Bearer '' @ tok) \<Longrightarrow>
     extract_bearer req = (if tok = [] then None else Some tok)"
  by (cases tok) (simp_all add: extract_bearer_def)

lemma touch_fields [simp]:
  "ses_id (touch now r) = ses_id r" "ses_user (touch now r) = ses_user r"
  "ses_created (touch now r) = ses_created r" "ses_expires (touch now r) = ses_expires r"
  "ses_revoked (touch now r) = ses_revoked r" "ses_seen (touch now r) = now"
  by (simp_all add: touch_def)

text \<open>The three checks, as one predicate on the row.\<close>

definition session_live :: "int \<Rightarrow> session_row \<Rightarrow> bool" where
  "session_live now r \<longleftrightarrow> ses_revoked r = 0 \<and> now < ses_expires r \<and>
     now - kSessionIdleTimeoutSeconds < ses_seen r"

lemma validate_eq:
  "validate_and_touch_session L tok now d =
     (let raw = base64url_decode L tok; sid = session_key L raw in
      if length raw \<noteq> 32 then (None, d)
      else case sel_by ses_id sid (sessions d) of
             None \<Rightarrow> (None, d)
           | Some r \<Rightarrow>
               if session_live now r
               then (Some (c_str (ses_user r)),
                     d\<lparr>sessions := upd_by ses_id sid (touch now) (sessions d)\<rparr>)
               else (None, d))"
  unfolding validate_and_touch_session_def session_live_def Let_def
  by (auto split: option.splits)

lemma validate_SomeE:
  assumes "validate_and_touch_session L tok now d = (Some uid, d')"
  obtains r where "length (base64url_decode L tok) = 32"
    and "sel_by ses_id (session_key L (base64url_decode L tok)) (sessions d) = Some r"
    and "session_live now r" and "uid = c_str (ses_user r)"
    and "d' = d\<lparr>sessions :=
           upd_by ses_id (session_key L (base64url_decode L tok)) (touch now) (sessions d)\<rparr>"
  using assms by (auto simp: validate_eq Let_def split: if_splits option.splits)

lemma validate_None_same:
  "fst (validate_and_touch_session L tok now d) = None \<Longrightarrow>
     snd (validate_and_touch_session L tok now d) = d"
  by (auto simp: validate_eq Let_def split: if_splits option.splits)

section \<open>What the operations leave alone\<close>

text \<open>All tables but the sessions.\<close>

definition data_of :: "db \<Rightarrow> db" where
  "data_of d = d\<lparr>sessions := []\<rparr>"

lemma data_of_eq_iff:
  "data_of d = data_of d' \<longleftrightarrow> (\<exists>t. d' = d\<lparr>sessions := t\<rparr>)"
  by (cases d; cases d') (auto simp: data_of_def)

lemma data_of_sessions [simp]: "data_of (d\<lparr>sessions := t\<rparr>) = data_of d"
  by (simp add: data_of_def)

lemma data_of_cong:
  assumes "data_of d = data_of d'"
  shows "users d = users d'" "entities d = entities d'" "memberships d = memberships d'"
    "accounts d = accounts d'" "transactions d = transactions d'" "categories d = categories d'"
    "budgets d = budgets d'" "enrollments d = enrollments d'" "audit_log d = audit_log d'"
  using assms by (auto simp: data_of_eq_iff)

lemma validate_data: "data_of (snd (validate_and_touch_session L tok now d)) = data_of d"
  by (simp add: validate_eq Let_def split: option.splits)

lemma revoke_data: "data_of (snd (revoke_session L tok d)) = data_of d"
  by (simp add: revoke_session_def Let_def)

lemma mint_data: "data_of (snd (mint_session L E uid now d)) = data_of d"
  by (auto simp: mint_session_def Let_def insert_session_Some split: option.splits)

lemma require_data [simp]: "data_of (snd (require_session L E req d)) = data_of d"
  by (simp add: require_session_def validate_data split: option.splits)

lemma require_None_same:
  "fst (require_session L E req d) = None \<Longrightarrow> snd (require_session L E req d) = d"
  by (simp add: require_session_def validate_None_same split: option.splits)

lemma sessions_upd_ok:
  "db_ok d \<Longrightarrow> (\<And>r. ses_id (f r) = ses_id r \<and> ses_user (f r) = ses_user r) \<Longrightarrow>
     db_ok (d\<lparr>sessions := upd_by ses_id k f (sessions d)\<rparr>)"
  by (simp add: integrity_simps)

lemma validate_ok: "db_ok d \<Longrightarrow> db_ok (snd (validate_and_touch_session L tok now d))"
  by (auto simp: validate_eq Let_def sessions_upd_ok split: option.splits)

lemma revoke_ok: "db_ok d \<Longrightarrow> db_ok (snd (revoke_session L tok d))"
  by (auto simp: revoke_session_def Let_def sessions_upd_ok)

lemma mint_ok: "db_ok d \<Longrightarrow> db_ok (snd (mint_session L E uid now d))"
  by (auto simp: mint_session_def Let_def insert_session_ok split: option.splits)

lemma require_ok [simp]: "db_ok d \<Longrightarrow> db_ok (snd (require_session L E req d))"
  by (auto simp: require_session_def validate_ok split: option.splits)

text \<open>
  What a data route relies on: without a valid session nothing changes, and with one only the
  session table does.
\<close>

locale session_guard =
  fixes require :: "request \<Rightarrow> 's \<Rightarrow> string option \<times> 's"
    and visible :: "'s \<Rightarrow> 'v"
    and ok :: "'s \<Rightarrow> bool"
  assumes rejected_same: "fst (require req s) = None \<Longrightarrow> snd (require req s) = s"
    and frame: "visible (snd (require req s)) = visible s"
    and keeps_ok: "ok s \<Longrightarrow> ok (snd (require req s))"
begin

text \<open>Any number of requests that only authenticate leave the visible state alone.\<close>

lemma frame_iterate: "visible (fold (\<lambda>req s. snd (require req s)) reqs s) = visible s"
  by (induction reqs arbitrary: s) (simp_all add: frame)

lemma ok_iterate: "ok s \<Longrightarrow> ok (fold (\<lambda>req s. snd (require req s)) reqs s)"
  by (induction reqs arbitrary: s) (simp_all add: keeps_ok)

end

interpretation http_session: session_guard "require_session L E" data_of db_ok
  by unfold_locales (simp_all add: require_None_same)

section \<open>The life of a token\<close>

text \<open>Documented behaviour of libsodium's base64 codec and of the 32-byte hash.\<close>

definition b64_spec :: "third_party \<Rightarrow> bool" where
  "b64_spec L \<longleftrightarrow> (\<forall>bs. b64_decode L (b64_encode L bs) = Some bs)"

lemma base64url_decode_encode: "b64_spec L \<Longrightarrow> base64url_decode L (b64_encode L bs) = bs"
  by (simp add: base64url_decode_def b64_spec_def)

lemma mint_InrE:
  assumes "mint_session L E uid now d = (Inr s, d')"
  obtains "raw_token s = b64_encode L (random_token E)"
    and "uid \<in> user_id ` set (users d)"
    and "session_key L (random_token E) \<notin> ses_id ` set (sessions d)"
    and "d' = d\<lparr>sessions := sessions d @
           [\<lparr>ses_id = session_key L (random_token E), ses_user = uid, ses_created = now,
             ses_seen = now, ses_expires = now + kSessionAbsoluteTimeoutSeconds,
             ses_revoked = 0\<rparr>]\<rparr>"
  using assms
  by (auto simp: mint_session_def Let_def insert_session_Some session_key_def
           split: option.splits)

lemma sel_by_snoc_new: "key r \<notin> key ` set t \<Longrightarrow> sel_by key (key r) (t @ [r]) = Some r"
  using sel_by_None [of key "key r" t] by (simp add: sel_by_append)

lemma mint_selects:
  assumes "mint_session L E uid now d = (Inr s, d')"
  shows "sel_by ses_id (session_key L (random_token E)) (sessions d') =
    Some \<lparr>ses_id = session_key L (random_token E), ses_user = uid, ses_created = now,
      ses_seen = now, ses_expires = now + kSessionAbsoluteTimeoutSeconds, ses_revoked = 0\<rparr>"
  using assms by (elim mint_InrE) (simp add: sel_by_append sel_by_None [THEN iffD2])

lemma revoked_never_valid:
  assumes "sel_by ses_id (session_key L (base64url_decode L tok)) (sessions d) = Some r"
    and "ses_revoked r \<noteq> 0"
  shows "validate_and_touch_session L tok now d = (None, d)"
  using assms by (simp add: validate_eq Let_def session_live_def)

lemma revoke_selects:
  assumes "length (base64url_decode L tok) = 32"
  shows "sel_by ses_id (session_key L (base64url_decode L tok)) (sessions (snd (revoke_session L tok d))) =
    map_option (\<lambda>r. r\<lparr>ses_revoked := 1\<rparr>)
      (sel_by ses_id (session_key L (base64url_decode L tok)) (sessions d))"
  using assms by (simp add: revoke_session_def Let_def sel_by_upd_by)

text \<open>
  Sequences of session operations.  \<open>session_step\<close> is one call of the three operations at a time
  the caller supplies; a revocation survives every later step.
\<close>

datatype session_op = Validate string int | Revoke string | Mint env string int

fun session_step :: "third_party \<Rightarrow> session_op \<Rightarrow> db \<Rightarrow> db" where
  "session_step L (Validate tok now) d = snd (validate_and_touch_session L tok now d)"
| "session_step L (Revoke tok) d = snd (revoke_session L tok d)"
| "session_step L (Mint E uid now) d = snd (mint_session L E uid now d)"

definition session_revoked :: "string \<Rightarrow> db \<Rightarrow> bool" where
  "session_revoked sid d \<longleftrightarrow>
     (case sel_by ses_id sid (sessions d) of None \<Rightarrow> False | Some r \<Rightarrow> ses_revoked r \<noteq> 0)"

lemma session_revoked_upd:
  assumes "\<And>r. ses_id (f r) = ses_id r" and "\<And>r. ses_revoked r \<noteq> 0 \<Longrightarrow> ses_revoked (f r) \<noteq> 0"
    and "session_revoked sid d"
  shows "session_revoked sid (d\<lparr>sessions := upd_by ses_id k f (sessions d)\<rparr>)"
  using assms by (auto simp: session_revoked_def sel_by_upd_by split: option.splits)

lemma session_revoked_step: "session_revoked sid d \<Longrightarrow> session_revoked sid (session_step L p d)"
proof (cases p)
  case (Validate tok now)
  assume "session_revoked sid d"
  with Validate show ?thesis
    by (simp add: validate_eq Let_def session_revoked_upd split: option.splits)
next
  case (Revoke tok)
  assume "session_revoked sid d"
  with Revoke show ?thesis by (simp add: revoke_session_def Let_def session_revoked_upd)
next
  case (Mint E uid now)
  assume "session_revoked sid d"
  with Mint show ?thesis
    by (auto simp: mint_session_def Let_def insert_session_Some session_revoked_def sel_by_append
             split: option.splits)
qed

lemma session_revoked_steps: "session_revoked sid d \<Longrightarrow> session_revoked sid (fold (session_step L) ops d)"
  by (induction ops arbitrary: d) (simp_all add: session_revoked_step)

text \<open>
  The absolute cap: a row's expiry is fixed when it is minted and no operation moves it.
\<close>

definition session_wf :: "session_row \<Rightarrow> bool" where
  "session_wf r \<longleftrightarrow> ses_expires r = ses_created r + kSessionAbsoluteTimeoutSeconds"

definition sessions_wf :: "db \<Rightarrow> bool" where
  "sessions_wf d \<longleftrightarrow> list_all session_wf (sessions d)"

lemma sessions_wf_upd:
  "sessions_wf d \<Longrightarrow> (\<And>r. session_wf r \<Longrightarrow> session_wf (f r)) \<Longrightarrow>
     sessions_wf (d\<lparr>sessions := upd_by ses_id k f (sessions d)\<rparr>)"
  by (auto simp: sessions_wf_def list_all_iff dest!: set_upd_byD)

lemma validate_wf: "sessions_wf d \<Longrightarrow> sessions_wf (snd (validate_and_touch_session L tok now d))"
  by (auto simp: validate_eq Let_def session_wf_def intro!: sessions_wf_upd split: option.splits)

lemma revoke_wf: "sessions_wf d \<Longrightarrow> sessions_wf (snd (revoke_session L tok d))"
  by (auto simp: revoke_session_def Let_def session_wf_def intro!: sessions_wf_upd)

lemma mint_wf: "sessions_wf d \<Longrightarrow> sessions_wf (snd (mint_session L E uid now d))"
  by (auto simp: mint_session_def Let_def insert_session_Some sessions_wf_def session_wf_def
           split: option.splits)

lemma require_wf: "sessions_wf d \<Longrightarrow> sessions_wf (snd (require_session L E req d))"
  by (simp add: require_session_def validate_wf split: option.splits)

lemma session_steps_wf: "sessions_wf d \<Longrightarrow> sessions_wf (fold (session_step L) ops d)"
proof (induction ops arbitrary: d)
  case (Cons p ops)
  have "sessions_wf (session_step L p d)"
    using Cons.prems by (cases p) (simp_all add: validate_wf revoke_wf mint_wf)
  with Cons.IH show ?case by simp
qed simp

end
