(* ===== verification/Sql_Audit_Log.thy ===== *)
theory Sql_Audit_Log
  imports Sanitizer_Model Canonical_Bytes Session_Model "HOL-Library.Sublist"
begin

text \<open>
  The hash-chained audit log (\<open>server/audit/SqlAuditLog.cpp\<close>, \<open>AuditEvent.h\<close>) and the chain
  verifier the repository keeps beside it (\<open>tests/test_audit_writer.cpp\<close>).

  \<open>record_event\<close> is \<open>SqlAuditLog::record\<close>.  The lemmas show that it only ever appends, that a
  rejected payload is replaced by a fixed record, that the verifier accepts every log written
  with NUL-free fields, and that an accepted log is committed to by its last hash.  \<open>audit_sink\<close>
  is the interface \<open>IAuditLog\<close> the handlers call.
\<close>

record audit_event =
  ev_ts_ms :: int
  ev_actor :: string
  ev_actor_kind :: string
  ev_domain :: string
  ev_subject :: string
  ev_subject_kind :: string
  ev_action :: string
  ev_outcome :: string
  ev_details :: json

definition zero_hash :: "byte list" where
  "zero_hash = replicate 32 0"

text \<open>\<open>SELECT seq, entry_hash FROM audit_log ORDER BY seq DESC LIMIT 1\<close>.\<close>

definition head_row :: "audit_row list \<Rightarrow> audit_row option" where
  "head_row rows = (case rows of [] \<Rightarrow> None | _ \<Rightarrow> Some (last (sort_key aud_seq rows)))"

definition bind_text :: "string \<Rightarrow> string option" where
  "bind_text s = (if s = [] then None else Some s)"

definition append_locked ::
  "third_party \<Rightarrow> bool \<Rightarrow> audit_event \<Rightarrow> string \<Rightarrow> db \<Rightarrow> (string + unit) \<times> db" where
  "append_locked L stored evt details_json d =
     (let (next_seq, prev_hash) =
            (case head_row (audit_log d) of
               None \<Rightarrow> (1, zero_hash)
             | Some h \<Rightarrow> (aud_seq h + 1, if length (aud_hash h) = 32 then aud_hash h else zero_hash));
          pce = \<lparr>pce_seq = next_seq, pce_ts_ms = ev_ts_ms evt, pce_actor = ev_actor evt,
                 pce_actor_kind = ev_actor_kind evt, pce_domain = ev_domain evt,
                 pce_subject = ev_subject evt, pce_subject_kind = ev_subject_kind evt,
                 pce_action = ev_action evt, pce_outcome = ev_outcome evt,
                 pce_details = details_json, pce_prev = prev_hash\<rparr>
      in case compute_canonical_bytes pce of
           Inl what \<Rightarrow> (Inl what, d)
         | Inr bytes \<Rightarrow>
             let entry_hash = compute_entry_hash L bytes;
                 row = \<lparr>aud_seq = next_seq, aud_nanos = to_i64 (ev_ts_ms evt * 1000000),
                        aud_actor = bind_text (ev_actor evt), aud_actor_kind = ev_actor_kind evt,
                        aud_domain = bind_text (ev_domain evt), aud_subject = bind_text (ev_subject evt),
                        aud_subject_kind = bind_text (ev_subject_kind evt),
                        aud_action = ev_action evt, aud_outcome = ev_outcome evt,
                        aud_details = bind_text details_json, aud_prev = prev_hash,
                        aud_hash = entry_hash\<rparr>
             in if \<not> stored then (Inl ''SqlAuditLog: INSERT failed'', d)
                else case ins_by aud_seq row (audit_log d) of
                       None \<Rightarrow> (Inl ''SqlAuditLog: INSERT failed'', d)
                     | Some t \<Rightarrow> (Inr (), d\<lparr>audit_log := t\<rparr>))"

definition rejection_of :: "audit_event \<Rightarrow> audit_event" where
  "rejection_of evt = evt\<lparr>ev_action := ''audit_record_rejected'', ev_outcome := ''failure'',
     ev_details := JObj [(''kind'', JStr ''sanitizer_rejected_payload'')]\<rparr>"

text \<open>\<open>record\<close>: an exception while the rejection record is chained is caught and logged.\<close>

definition record_event :: "third_party \<Rightarrow> bool \<Rightarrow> audit_event \<Rightarrow> db \<Rightarrow> (string + unit) \<times> db" where
  "record_event L stored evt d =
     (case sanitize L (ev_details evt) of
        Some reason \<Rightarrow>
          (let rejection = rejection_of evt in
           case sanitize L (ev_details rejection) of
             None \<Rightarrow> (Inr (), snd (append_locked L stored rejection (dump L (ev_details rejection)) d))
           | Some _ \<Rightarrow> (Inr (), d))
      | None \<Rightarrow> append_locked L stored evt (dump L (ev_details evt)) d)"

section \<open>The verifier\<close>

text \<open>C++ integer division truncates towards zero.\<close>

definition trunc_div :: "int \<Rightarrow> int \<Rightarrow> int" where
  "trunc_div a b = sgn a * sgn b * (\<bar>a\<bar> div \<bar>b\<bar>)"

definition read_text :: "string option \<Rightarrow> string" where
  "read_text x = (case x of None \<Rightarrow> [] | Some s \<Rightarrow> c_str s)"

definition entry_of_row :: "audit_row \<Rightarrow> pre_commit_entry" where
  "entry_of_row r =
     \<lparr>pce_seq = aud_seq r, pce_ts_ms = trunc_div (aud_nanos r) 1000000,
      pce_actor = read_text (aud_actor r), pce_actor_kind = c_str (aud_actor_kind r),
      pce_domain = read_text (aud_domain r), pce_subject = read_text (aud_subject r),
      pce_subject_kind = read_text (aud_subject_kind r), pce_action = c_str (aud_action r),
      pce_outcome = c_str (aud_outcome r),
      pce_details = (case aud_details r of None \<Rightarrow> [] | Some s \<Rightarrow> s),
      pce_prev = (if length (aud_prev r) = 32 then aud_prev r else zero_hash)\<rparr>"

datatype verify_error = Gap int | Duplicate int | Hash_mismatch int | Prev_hash_mismatch int

fun verify_from :: "third_party \<Rightarrow> int \<Rightarrow> byte list \<Rightarrow> audit_row list \<Rightarrow> verify_error option" where
  "verify_from L expected_seq expected_prev [] = None"
| "verify_from L expected_seq expected_prev (r # rs) =
     (if aud_seq r \<noteq> expected_seq
      then if aud_seq r > expected_seq then Some (Gap expected_seq) else Some (Duplicate (aud_seq r))
      else if Inr (aud_hash r) \<noteq> map_sum id (compute_entry_hash L) (compute_canonical_bytes (entry_of_row r))
      then Some (Hash_mismatch (aud_seq r))
      else if aud_prev r \<noteq> expected_prev then Some (Prev_hash_mismatch (aud_seq r))
      else verify_from L (expected_seq + 1) (aud_hash r) rs)"

definition verify_chain :: "third_party \<Rightarrow> audit_row list \<Rightarrow> verify_error option" where
  "verify_chain L rows = verify_from L 1 zero_hash (sort_key aud_seq rows)"

section \<open>Appending\<close>

lemma length_zero_hash [simp]: "length zero_hash = 32"
  by (simp add: zero_hash_def)

lemma compute_canonical_entry [simp]:
  "compute_canonical_bytes (entry_of_row r) = Inr (canonical (entry_of_row r))"
  by (simp add: compute_canonical_bytes_eq entry_of_row_def)

text \<open>The row \<open>append_locked\<close> writes after a log whose last row is \<open>h\<close>.\<close>

definition next_seq :: "audit_row list \<Rightarrow> int" where
  "next_seq rows = (case head_row rows of None \<Rightarrow> 1 | Some h \<Rightarrow> aud_seq h + 1)"

definition head_hash :: "audit_row list \<Rightarrow> byte list" where
  "head_hash rows = (case head_row rows of None \<Rightarrow> zero_hash
     | Some h \<Rightarrow> if length (aud_hash h) = 32 then aud_hash h else zero_hash)"

definition entry_of_event :: "audit_event \<Rightarrow> string \<Rightarrow> int \<Rightarrow> byte list \<Rightarrow> pre_commit_entry" where
  "entry_of_event evt details sq prev =
     \<lparr>pce_seq = sq, pce_ts_ms = ev_ts_ms evt, pce_actor = ev_actor evt,
      pce_actor_kind = ev_actor_kind evt, pce_domain = ev_domain evt,
      pce_subject = ev_subject evt, pce_subject_kind = ev_subject_kind evt,
      pce_action = ev_action evt, pce_outcome = ev_outcome evt,
      pce_details = details, pce_prev = prev\<rparr>"

definition row_of_event :: "third_party \<Rightarrow> audit_event \<Rightarrow> string \<Rightarrow> int \<Rightarrow> byte list \<Rightarrow> audit_row" where
  "row_of_event L evt details sq prev =
     \<lparr>aud_seq = sq, aud_nanos = to_i64 (ev_ts_ms evt * 1000000),
      aud_actor = bind_text (ev_actor evt), aud_actor_kind = ev_actor_kind evt,
      aud_domain = bind_text (ev_domain evt), aud_subject = bind_text (ev_subject evt),
      aud_subject_kind = bind_text (ev_subject_kind evt),
      aud_action = ev_action evt, aud_outcome = ev_outcome evt,
      aud_details = bind_text details, aud_prev = prev,
      aud_hash = generichash L (canonical (entry_of_event evt details sq prev))\<rparr>"

lemma length_head_hash [simp]: "length (head_hash rows) = 32"
  by (simp add: head_hash_def split: option.splits)

lemma sort_key_Nil_iff: "sort_key f xs = [] \<longleftrightarrow> xs = []"
  by (metis length_0_conv length_sort)

lemma head_row_eq: "head_row rows = (if rows = [] then None else Some (last (sort_key aud_seq rows)))"
  by (cases rows) (simp_all add: head_row_def)

lemma head_row_max: "r \<in> set rows \<Longrightarrow> aud_seq r < next_seq rows"
proof -
  assume r: "r \<in> set rows"
  define t where "t = sort_key aud_seq rows"
  have t: "sorted (map aud_seq t)" "r \<in> set t" "t \<noteq> []"
    using r by (auto simp: t_def sort_key_Nil_iff)
  then obtain i where "i < length t" "t ! i = r" by (metis in_set_conv_nth)
  with t(1,3) have "aud_seq r \<le> aud_seq (t ! (length t - 1))"
    using sorted_nth_mono [of "map aud_seq t" i "length t - 1"] by auto
  moreover have "head_row rows = Some (last t)"
    using r by (cases rows) (auto simp: head_row_def t_def)
  ultimately show ?thesis using t(3) by (simp add: next_seq_def last_conv_nth)
qed

lemma append_locked_eq:
  "append_locked L stored evt details d =
     (if stored
      then (Inr (), d\<lparr>audit_log := audit_log d @
              [row_of_event L evt details (next_seq (audit_log d)) (head_hash (audit_log d))]\<rparr>)
      else (Inl ''SqlAuditLog: INSERT failed'', d))"
proof -
  let ?row = "row_of_event L evt details (next_seq (audit_log d)) (head_hash (audit_log d))"
  have "aud_seq ?row \<notin> set (map aud_seq (audit_log d))"
    using head_row_max [of _ "audit_log d"] by (fastforce simp: row_of_event_def)
  then have "ins_by aud_seq ?row (audit_log d) = Some (audit_log d @ [?row])"
    by (simp add: ins_by_def)
  then show ?thesis
    by (cases "head_row (audit_log d)")
       (simp_all add: append_locked_def Let_def compute_canonical_bytes_eq compute_entry_hash_def
          row_of_event_def entry_of_event_def next_seq_def head_hash_def)
qed

lemma rejection_details_clean: "clean (ev_details (rejection_of evt))"
  by (simp add: rejection_of_def clean_def MAX_DEPTH_def is_key_allowed_def to_lower_def
      tolower_def in_range_def ALLOWED_KEYS_def short_string_ok)

lemma rejection_details_utf8: "json_utf8 (ev_details (rejection_of evt))"
  by (simp add: rejection_of_def ascii_valid_utf8)

lemma record_event_cases:
  "record_event L stored evt d =
     (if sanitize L (ev_details evt) = None
      then append_locked L stored evt (dump L (ev_details evt)) d
      else if length (dump L (ev_details (rejection_of evt))) \<le> MAX_TOTAL_BYTES
      then (Inr (), snd (append_locked L stored (rejection_of evt)
              (dump L (ev_details (rejection_of evt))) d))
      else (Inr (), d))"
proof -
  have "sanitize L (ev_details (rejection_of evt)) = None \<longleftrightarrow>
      length (dump L (ev_details (rejection_of evt))) \<le> MAX_TOTAL_BYTES"
    using sanitize_iff [of L "[(''kind'', JStr ''sanitizer_rejected_payload'')]"]
      rejection_details_clean [of evt] rejection_details_utf8 [of evt]
    by (simp add: rejection_of_def del: sanitize.simps)
  then show ?thesis
    by (auto simp: record_event_def Let_def split: option.splits)
qed

text \<open>The log only grows, by at most one row, and nothing else changes.\<close>

definition extends_log :: "db \<Rightarrow> db \<Rightarrow> bool" where
  "extends_log d d' \<longleftrightarrow> (\<exists>rows. d' = d\<lparr>audit_log := audit_log d @ rows\<rparr> \<and> length rows \<le> 1)"

lemma extends_log_refl [simp]: "extends_log d d"
  unfolding extends_log_def by (rule exI [of _ "[]"]) simp

lemma extends_log_snoc [simp]: "extends_log d (d\<lparr>audit_log := audit_log d @ [r]\<rparr>)"
  unfolding extends_log_def by (rule exI [of _ "[r]"]) simp

lemma record_event_log: "extends_log d (snd (record_event L stored evt d))"
  by (simp add: record_event_cases append_locked_eq)

lemma record_event_error: "record_event L stored evt d = (Inl what, d') \<Longrightarrow> d' = d \<and> \<not> stored"
  by (auto simp: record_event_cases append_locked_eq split: if_splits)

section \<open>Verification succeeds on what was recorded\<close>

definition row_checks :: "third_party \<Rightarrow> int \<Rightarrow> byte list \<Rightarrow> audit_row \<Rightarrow> bool" where
  "row_checks L sq prev r \<longleftrightarrow> aud_seq r = sq \<and>
     aud_hash r = generichash L (canonical (entry_of_row r)) \<and> aud_prev r = prev"

lemma verify_from_Cons_None:
  "verify_from L sq prev (r # rs) = None \<longleftrightarrow>
     row_checks L sq prev r \<and> verify_from L (sq + 1) (aud_hash r) rs = None"
  by (auto simp: row_checks_def compute_entry_hash_def)

definition last_hash :: "byte list \<Rightarrow> audit_row list \<Rightarrow> byte list" where
  "last_hash prev rs = (if rs = [] then prev else aud_hash (last rs))"

lemma verify_from_snoc_None:
  "verify_from L sq prev (rs @ [r]) = None \<longleftrightarrow>
     verify_from L sq prev rs = None \<and> row_checks L (sq + int (length rs)) (last_hash prev rs) r"
proof (induction rs arbitrary: sq prev)
  case Nil
  show ?case
    by (simp add: verify_from_Cons_None last_hash_def del: verify_from.simps(2))
next
  case (Cons a rs)
  then show ?case
    by (auto simp: verify_from_Cons_None last_hash_def add.assoc simp del: verify_from.simps(2))
qed

lemma verify_from_seqs:
  "verify_from L sq prev rs = None \<Longrightarrow> map aud_seq rs = map (\<lambda>i. sq + int i) [0..<length rs]"
proof (induction rs rule: rev_induct)
  case (snoc r rs)
  then show ?case by (simp add: verify_from_snoc_None row_checks_def)
qed simp

lemma insort_key_snoc:
  assumes "\<forall>y \<in> set ys. f y < f x" and "f z < f x"
  shows "insort_key f z (ys @ [x]) = insort_key f z ys @ [x]"
  using assms by (induction ys) auto

lemma sort_key_snoc: "\<forall>y \<in> set xs. f y < f x \<Longrightarrow> sort_key f (xs @ [x]) = sort_key f xs @ [x]"
  by (induction xs) (simp_all add: insort_key_snoc)

lemma next_seq_sorted:
  assumes "verify_chain L rows = None"
  shows "next_seq rows = 1 + int (length rows)"
proof (cases rows rule: rev_cases)
  case Nil
  then show ?thesis by (simp add: next_seq_def head_row_def)
next
  case (snoc xs x)
  let ?t = "sort_key aud_seq rows"
  have "map aud_seq ?t = map (\<lambda>i. 1 + int i) [0..<length ?t]"
    using assms verify_from_seqs unfolding verify_chain_def by blast
  then have "map aud_seq ?t ! (length ?t - 1) = map (\<lambda>i. 1 + int i) [0..<length ?t] ! (length ?t - 1)"
    by simp
  moreover have ne: "?t \<noteq> []" using snoc by (simp add: sort_key_Nil_iff)
  ultimately have "aud_seq (last ?t) = 1 + int (length ?t - 1)"
    by (simp add: last_conv_nth del: length_sort)
  moreover have "0 < length rows" using snoc by simp
  ultimately show ?thesis using snoc by (simp add: next_seq_def head_row_eq of_nat_diff)
qed

text \<open>Documented output length of the hash.\<close>

definition hash32 :: "third_party \<Rightarrow> bool" where
  "hash32 L \<longleftrightarrow> (\<forall>x. length (generichash L x) = 32)"

lemma head_hash_last:
  assumes "verify_chain L rows = None" and "hash32 L"
  shows "head_hash rows = last_hash zero_hash (sort_key aud_seq rows)"
proof (cases rows rule: rev_cases)
  case Nil
  then show ?thesis by (simp add: head_hash_def head_row_def last_hash_def)
next
  case (snoc xs x)
  let ?t = "sort_key aud_seq rows"
  have ne: "?t \<noteq> []" using snoc by (simp add: sort_key_Nil_iff)
  then have "verify_from L 1 zero_hash (butlast ?t @ [last ?t]) = None"
    using assms(1) by (simp add: verify_chain_def)
  then have "aud_hash (last ?t) = generichash L (canonical (entry_of_row (last ?t)))"
    unfolding verify_from_snoc_None row_checks_def by blast
  then have "length (aud_hash (last ?t)) = 32" using assms(2) by (simp add: hash32_def)
  moreover have "head_row rows = Some (last ?t)"
    using snoc by (simp add: head_row_eq)
  ultimately show ?thesis using ne by (simp add: head_hash_def last_hash_def)
qed

definition event_nul_free :: "audit_event \<Rightarrow> bool" where
  "event_nul_free evt \<longleftrightarrow> nul_free (ev_actor evt) \<and> nul_free (ev_actor_kind evt) \<and>
     nul_free (ev_domain evt) \<and> nul_free (ev_subject evt) \<and> nul_free (ev_subject_kind evt) \<and>
     nul_free (ev_action evt) \<and> nul_free (ev_outcome evt)"

text \<open>A millisecond time whose nanoseconds fit \<open>int64_t\<close> (until the year 2262).\<close>

definition time_in_range :: "int \<Rightarrow> bool" where
  "time_in_range ms \<longleftrightarrow> in_i64 (ms * 1000000)"

lemma trunc_div_mult: "trunc_div (a * 1000000) 1000000 = a"
  by (simp add: trunc_div_def sgn_mult abs_mult mult_sgn_abs)

lemma read_text_bind: "nul_free s \<Longrightarrow> read_text (bind_text s) = s"
  by (simp add: read_text_def bind_text_def)

lemma details_bind: "(case bind_text s of None \<Rightarrow> [] | Some s \<Rightarrow> s) = s"
  by (simp add: bind_text_def)

text \<open>The verifier rebuilds exactly the entry that was hashed.\<close>

lemma entry_of_row_of_event:
  assumes "event_nul_free evt" and "time_in_range (ev_ts_ms evt)" and "length prev = 32"
  shows "entry_of_row (row_of_event L evt details sq prev) = entry_of_event evt details sq prev"
  using assms
  by (simp add: entry_of_row_def row_of_event_def entry_of_event_def event_nul_free_def
      time_in_range_def trunc_div_mult read_text_bind details_bind)

lemma append_locked_verifies:
  assumes "verify_chain L (audit_log d) = None" and "hash32 L" and "event_nul_free evt"
    and "time_in_range (ev_ts_ms evt)"
  shows "verify_chain L (audit_log (snd (append_locked L stored evt details d))) = None"
proof (cases stored)
  case True
  let ?rows = "audit_log d"
  let ?r = "row_of_event L evt details (next_seq ?rows) (head_hash ?rows)"
  have sq: "\<forall>y \<in> set ?rows. aud_seq y < aud_seq ?r"
    using head_row_max [of _ ?rows] by (simp add: row_of_event_def)
  have "row_checks L (1 + int (length (sort_key aud_seq ?rows)))
          (last_hash zero_hash (sort_key aud_seq ?rows)) ?r"
    unfolding row_checks_def entry_of_row_of_event [OF assms(3,4) length_head_hash]
    using next_seq_sorted [OF assms(1)] head_hash_last [OF assms(1,2)]
    by (simp add: row_of_event_def)
  then have "verify_chain L (?rows @ [?r]) = None"
    using assms(1) by (simp add: verify_chain_def sort_key_snoc [OF sq] verify_from_snoc_None)
  with True show ?thesis by (simp add: append_locked_eq)
next
  case False
  with assms(1) show ?thesis by (simp add: append_locked_eq)
qed

lemma rejection_nul_free: "event_nul_free evt \<Longrightarrow> event_nul_free (rejection_of evt)"
  by (simp add: event_nul_free_def rejection_of_def nul_free_def nul_def)

lemma record_event_verifies:
  assumes "verify_chain L (audit_log d) = None" and "hash32 L" and "event_nul_free evt"
    and "time_in_range (ev_ts_ms evt)"
  shows "verify_chain L (audit_log (snd (record_event L stored evt d))) = None"
proof -
  have "time_in_range (ev_ts_ms (rejection_of evt))"
    using assms(4) by (simp add: rejection_of_def)
  then have "verify_chain L (audit_log (snd (append_locked L stored (rejection_of evt) js d))) = None"
    for js
    using append_locked_verifies [OF assms(1,2) rejection_nul_free [OF assms(3)]] by blast
  moreover have "verify_chain L (audit_log (snd (append_locked L stored evt js d))) = None" for js
    using append_locked_verifies [OF assms] by blast
  ultimately show ?thesis
    unfolding record_event_cases using assms(1) by (simp split: if_splits)
qed

section \<open>A verified log is determined by its last hash\<close>

lemma entry_of_row_nul_free: "entry_nul_free (entry_of_row r)"
  by (simp add: entry_nul_free_def entry_of_row_def read_text_def split: option.splits)

definition row_in_range :: "audit_row \<Rightarrow> bool" where
  "row_in_range r \<longleftrightarrow> entry_in_range (entry_of_row r)"

lemma chain_determined:
  assumes "verify_from L sq prev rs = None" and "verify_from L sq prev rs' = None"
    and "list_all row_in_range rs" and "list_all row_in_range rs'"
    and "inj_on (generichash L) (canonical ` entry_of_row ` (set rs \<union> set rs'))"
    and "length rs = length rs'" and "last_hash prev rs = last_hash prev rs'"
    and "hash32 L" and "length prev = 32"
  shows "map entry_of_row rs = map entry_of_row rs'"
  using assms
proof (induction rs arbitrary: rs' rule: rev_induct)
  case Nil
  then show ?case by simp
next
  case (snoc r rs)
  from snoc.prems(6) obtain r' ts where rs': "rs' = ts @ [r']" and len: "length rs = length ts"
    by (cases rs' rule: rev_cases) auto
  note c = snoc.prems(1) [unfolded verify_from_snoc_None row_checks_def]
  note c' = snoc.prems(2) [unfolded rs' verify_from_snoc_None row_checks_def]
  have "generichash L (canonical (entry_of_row r)) = generichash L (canonical (entry_of_row r'))"
    using c c' snoc.prems(7) by (simp add: rs' last_hash_def)
  then have "canonical (entry_of_row r) = canonical (entry_of_row r')"
    by (rule inj_onD [OF snoc.prems(5)]) (simp_all add: rs')
  then have e: "entry_of_row r = entry_of_row r'"
    using snoc.prems(3,4)
    by (intro canonical_inject entry_of_row_nul_free) (simp_all add: rs' row_in_range_def)
  have l32: "length (last_hash prev xs) = 32" if "verify_from L sq prev xs = None" for xs
  proof (cases xs rule: rev_cases)
    case Nil
    with snoc.prems(9) show ?thesis by (simp add: last_hash_def)
  next
    case (snoc ys y)
    with that have "aud_hash y = generichash L (canonical (entry_of_row y))"
      by (simp add: verify_from_snoc_None row_checks_def)
    with snoc \<open>hash32 L\<close> show ?thesis by (simp add: last_hash_def hash32_def)
  qed
  have "aud_prev r = aud_prev r'"
    using arg_cong [OF e, of pce_prev] c c' l32 [of rs] l32 [of ts] by (simp add: entry_of_row_def)
  then have "last_hash prev rs = last_hash prev ts" using c c' by simp
  moreover have "inj_on (generichash L) (canonical ` entry_of_row ` (set rs \<union> set ts))"
    using snoc.prems(5) by (rule inj_on_subset) (auto simp: rs')
  ultimately have "map entry_of_row rs = map entry_of_row ts"
    using c c' snoc.prems(3,4,8,9) len by (intro snoc.IH) (simp_all add: rs')
  with e show ?case by (simp add: rs')
qed

text \<open>The sequence number in the last entry makes the lengths agree.\<close>

lemma chain_length:
  assumes "verify_from L 1 prev rs = None" and "rs \<noteq> []"
  shows "int (length rs) = aud_seq (last rs)"
proof -
  have "verify_from L 1 prev (butlast rs @ [last rs]) = None" using assms by simp
  then have "aud_seq (last rs) = 1 + int (length (butlast rs))"
    unfolding verify_from_snoc_None row_checks_def by blast
  then show ?thesis using assms(2) by (cases rs rule: rev_cases) simp_all
qed

lemma verified_log_determined:
  assumes "verify_chain L rs = None" and "verify_chain L rs' = None" and "rs \<noteq> []" and "rs' \<noteq> []"
    and "list_all row_in_range rs" and "list_all row_in_range rs'"
    and "inj_on (generichash L) (canonical ` entry_of_row ` (set rs \<union> set rs'))"
    and "head_hash rs = head_hash rs'" and "hash32 L"
  shows "map entry_of_row (sort_key aud_seq rs) = map entry_of_row (sort_key aud_seq rs')"
proof (rule chain_determined)
  let ?t = "sort_key aud_seq rs" and ?t' = "sort_key aud_seq rs'"
  show v: "verify_from L 1 zero_hash ?t = None" "verify_from L 1 zero_hash ?t' = None"
    using assms(1,2) by (simp_all add: verify_chain_def)
  show "list_all row_in_range ?t" "list_all row_in_range ?t'"
    using assms(5,6) by (simp_all add: list_all_iff)
  show "inj_on (generichash L) (canonical ` entry_of_row ` (set ?t \<union> set ?t'))"
    using assms(7) by simp
  show lh: "last_hash zero_hash ?t = last_hash zero_hash ?t'"
    using assms head_hash_last by metis
  have ne: "?t \<noteq> []" "?t' \<noteq> []" using assms(3,4) by (simp_all add: sort_key_Nil_iff)
  have h: "aud_hash (last t) = generichash L (canonical (entry_of_row (last t)))"
    if "verify_from L 1 zero_hash t = None" "t \<noteq> []" for t
  proof -
    have "verify_from L 1 zero_hash (butlast t @ [last t]) = None" using that by simp
    then show ?thesis unfolding verify_from_snoc_None row_checks_def by blast
  qed
  have mem: "last ?t \<in> set rs" "last ?t' \<in> set rs'" using ne last_in_set by fastforce+
  have "aud_hash (last ?t) = aud_hash (last ?t')"
    using lh ne by (simp add: last_hash_def)
  then have "generichash L (canonical (entry_of_row (last ?t))) =
      generichash L (canonical (entry_of_row (last ?t')))"
    by (simp only: h [OF v(1) ne(1)] h [OF v(2) ne(2)])
  then have "canonical (entry_of_row (last ?t)) = canonical (entry_of_row (last ?t'))"
    by (rule inj_onD [OF assms(7)]) (use mem in \<open>blast+\<close>)
  moreover have "row_in_range (last ?t)" "row_in_range (last ?t')"
    using assms(5,6) mem by (simp_all add: list_all_iff)
  ultimately have "entry_of_row (last ?t) = entry_of_row (last ?t')"
    by (intro canonical_inject entry_of_row_nul_free) (simp_all add: row_in_range_def)
  then have "aud_seq (last ?t) = aud_seq (last ?t')"
    by (metis entry_of_row_def pre_commit_entry.select_convs(1))
  then show "length ?t = length ?t'"
    using chain_length [OF v(1) ne(1)] chain_length [OF v(2) ne(2)] by simp
  show "hash32 L" "length zero_hash = 32" using assms(9) by simp_all
qed

section \<open>The interface the handlers call\<close>

text \<open>
  \<open>IAuditLog::record\<close>: whatever the event, the log only grows, by at most one row, everything
  outside the log stays, and a call that throws has written nothing.
\<close>

locale audit_sink =
  fixes record_in :: "audit_event \<Rightarrow> 's \<Rightarrow> (string + unit) \<times> 's"
    and log_of :: "'s \<Rightarrow> 'row list"
    and rest_of :: "'s \<Rightarrow> 'rest"
  assumes grows: "prefix (log_of s) (log_of (snd (record_in evt s)))"
    and at_most_one: "length (log_of (snd (record_in evt s))) \<le> Suc (length (log_of s))"
    and rest_same: "rest_of (snd (record_in evt s)) = rest_of s"
    and throws_same: "fst (record_in evt s) = Inl what \<Longrightarrow> snd (record_in evt s) = s"
begin

definition record_all :: "audit_event list \<Rightarrow> 's \<Rightarrow> 's" where
  "record_all evts s = fold (\<lambda>evt s. snd (record_in evt s)) evts s"

lemma record_all_append_only: "prefix (log_of s) (log_of (record_all evts s))"
proof (induction evts arbitrary: s)
  case (Cons evt evts)
  show ?case
    using grows [of s evt] Cons [of "snd (record_in evt s)"]
    by (auto simp: record_all_def intro: prefix_order.trans)
qed (simp add: record_all_def)

lemma record_all_length: "length (log_of (record_all evts s)) \<le> length (log_of s) + length evts"
proof (induction evts arbitrary: s)
  case (Cons evt evts)
  show ?case
    using at_most_one [of evt s] Cons [of "snd (record_in evt s)"] by (simp add: record_all_def)
qed (simp add: record_all_def)

lemma record_all_rest: "rest_of (record_all evts s) = rest_of s"
  by (induction evts arbitrary: s) (simp_all add: record_all_def rest_same)

end

text \<open>Everything but the audit log.\<close>

definition unlogged :: "db \<Rightarrow> db" where
  "unlogged d = d\<lparr>audit_log := []\<rparr>"

lemma extends_logD:
  assumes "extends_log d d'"
  shows "prefix (audit_log d) (audit_log d')" "length (audit_log d') \<le> Suc (length (audit_log d))"
    "unlogged d' = unlogged d" "db_ok d' = db_ok d" "sessions d' = sessions d"
  using assms by (auto simp: extends_log_def unlogged_def db_ok_defs)

interpretation sql_audit: audit_sink "record_event L stored" audit_log unlogged
proof (unfold_locales, goal_cases)
  case (4 evt s what)
  then show ?case using record_event_error [of L stored evt s what] by (metis prod.collapse)
qed (use extends_logD [OF record_event_log] in blast)+

end
