(* ===== verification/Entity_Scope.thy ===== *)
theory Entity_Scope
  imports Sql_Audit_Log
begin

text \<open>
  What the data routes of \<open>server/data\<close> share: every handler authenticates the session, finds the
  entity the request is about, checks the membership of the user and only then acts.

  \<open>entity_view e d\<close> is the data of the entity \<open>e\<close>: its row, members, accounts, transactions,
  categories and budgets.  An action is \<open>confined\<close> to an entity when it keeps the database in
  order, leaves the data of every other entity alone and only appends to the audit log.
  \<open>entity_route\<close> is the contract of a handler and its isolation theorem; each handler of the
  following theories is an interpretation of it.
\<close>

section \<open>The guard\<close>

definition entity_guard ::
  "third_party \<Rightarrow> env \<Rightarrow> (db \<Rightarrow> string \<Rightarrow> string \<Rightarrow> bool) \<Rightarrow> (request \<Rightarrow> db \<Rightarrow> string option) \<Rightarrow>
   (request \<Rightarrow> string \<Rightarrow> string \<Rightarrow> db \<Rightarrow> db outcome) \<Rightarrow> request \<Rightarrow> db \<Rightarrow> db outcome" where
  "entity_guard L E allowed scope act req d =
     (case require_session L E req d of
        (None, d1) \<Rightarrow> (Inr (err 401 ''unauthorized''), d1)
      | (Some uid, d1) \<Rightarrow>
          (case scope req d1 of
             None \<Rightarrow> (Inr (err 404 ''not_found''), d1)
           | Some eid \<Rightarrow>
               if \<not> allowed d1 uid eid then (Inr (err 403 ''forbidden''), d1)
               else act req uid eid d1))"

text \<open>A path parameter that names the entity itself, and an id that has to be looked up.\<close>

definition path_scope :: "string \<Rightarrow> request \<Rightarrow> db \<Rightarrow> string option" where
  "path_scope p req d = Some (path_param req p)"

definition lookup_scope :: "string \<Rightarrow> (db \<Rightarrow> string \<Rightarrow> string) \<Rightarrow> request \<Rightarrow> db \<Rightarrow> string option" where
  "lookup_scope p entity_id_of req d =
     (let eid = entity_id_of d (path_param req p) in if eid = [] then None else Some eid)"

text \<open>\<open>sqlite3_column_text\<close> of the one column of a query by primary key, \<open>""\<close> without a row.\<close>

definition text_of_key :: "('r \<Rightarrow> string) \<Rightarrow> ('r \<Rightarrow> string) \<Rightarrow> string \<Rightarrow> 'r list \<Rightarrow> string" where
  "text_of_key key col k rows = (case sel_by key k rows of None \<Rightarrow> [] | Some r \<Rightarrow> c_str (col r))"

text \<open>What a handler does after \<open>log.record(evt)\<close>; an exception of the log leaves the handler.\<close>

definition and_then :: "(string + unit) \<times> db \<Rightarrow> (db \<Rightarrow> response) \<Rightarrow> db outcome" where
  "and_then x k = (case x of (Inl what, d) \<Rightarrow> (Inl what, d) | (Inr _, d) \<Rightarrow> (Inr (k d), d))"

lemma snd_and_then [simp]: "snd (and_then x k) = snd x"
  by (cases x) (simp add: and_then_def split: sum.splits)

text \<open>A column the body may leave out.\<close>

definition if_given :: "'v option \<Rightarrow> ('v \<Rightarrow> db \<Rightarrow> db) \<Rightarrow> db \<Rightarrow> db" where
  "if_given x f d = (case x of None \<Rightarrow> d | Some v \<Rightarrow> f v d)"

text \<open>Statements executed one after the other, their result codes ignored.\<close>

definition exec_all :: "(db \<Rightarrow> db) list \<Rightarrow> db \<Rightarrow> db" where
  "exec_all stmts d = fold (\<lambda>stmt d. stmt d) stmts d"

text \<open>A string bound as \<open>NULL\<close> when it is empty.\<close>

definition null_if_empty :: "string \<Rightarrow> string option" where
  "null_if_empty s = (if s = [] then None else Some s)"

text \<open>\<open>generate_id\<close>: 16 random bytes in hex.\<close>

definition generate_id :: "third_party \<Rightarrow> env \<Rightarrow> string" where
  "generate_id L E = bin2hex L (random_id E)"

section \<open>The data of an entity\<close>

definition store_ok :: "db \<Rightarrow> bool" where
  "store_ok d \<longleftrightarrow> db_ok d \<and> list_all (\<lambda>r. nul_free (ent_id r)) (entities d)"

definition tx_entity :: "db \<Rightarrow> tx_row \<Rightarrow> string option" where
  "tx_entity d t = map_option acc_entity (sel_by acc_id (tx_account t) (accounts d))"

record entity_data =
  view_row :: "entity_row list"
  view_members :: "member_row list"
  view_accounts :: "account_row list"
  view_txs :: "tx_row list"
  view_categories :: "category_row list"
  view_budgets :: "budget_row list"

definition entity_view :: "string \<Rightarrow> db \<Rightarrow> entity_data" where
  "entity_view e d =
     \<lparr>view_row = filter (\<lambda>r. ent_id r = e) (entities d),
      view_members = filter (\<lambda>r. mem_entity r = e) (memberships d),
      view_accounts = filter (\<lambda>r. acc_entity r = e) (accounts d),
      view_txs = filter (\<lambda>t. tx_entity d t = Some e) (transactions d),
      view_categories = filter (\<lambda>r. cat_entity r = e) (categories d),
      view_budgets = filter (\<lambda>r. bud_entity r = e) (budgets d)\<rparr>"

definition confined :: "string \<Rightarrow> db \<Rightarrow> db \<Rightarrow> bool" where
  "confined e d d' \<longleftrightarrow>
     (store_ok d \<longrightarrow> store_ok d' \<and> (\<forall>e'. e' \<noteq> e \<longrightarrow> entity_view e' d' = entity_view e' d)) \<and>
     prefix (audit_log d) (audit_log d') \<and>
     sessions d' = sessions d \<and> users d' = users d \<and> enrollments d' = enrollments d"

lemma entity_view_cong:
  assumes "entities d' = entities d" "memberships d' = memberships d" "accounts d' = accounts d"
    "transactions d' = transactions d" "categories d' = categories d" "budgets d' = budgets d"
  shows "entity_view e d' = entity_view e d"
  using assms by (simp add: entity_view_def tx_entity_def)

lemma store_ok_cong:
  assumes "db_ok d' = db_ok d" "entities d' = entities d"
  shows "store_ok d' = store_ok d"
  using assms by (simp add: store_ok_def)

lemma confined_refl [simp, intro!]: "confined e d d"
  by (simp add: confined_def)

lemma confined_trans: "confined e d d' \<Longrightarrow> confined e d' d'' \<Longrightarrow> confined e d d''"
  unfolding confined_def by (metis prefix_order.trans)

lemma extends_log_confined: "extends_log d d' \<Longrightarrow> confined e d d'"
proof -
  assume "extends_log d d'"
  then obtain rows where d': "d' = d\<lparr>audit_log := audit_log d @ rows\<rparr>"
    by (auto simp: extends_log_def)
  have "entity_view e' d' = entity_view e' d" for e'
    unfolding d' by (rule entity_view_cong) simp_all
  then show ?thesis
    by (simp add: confined_def d' store_ok_def db_ok_defs)
qed

lemma record_confined: "confined e d d' \<Longrightarrow> confined e d (snd (record_event L stored evt d'))"
  by (rule confined_trans [OF _ extends_log_confined [OF record_event_log]])

section \<open>Statements confined to an entity\<close>

lemma filter_upd_by:
  assumes "\<And>r. r \<in> set t \<Longrightarrow> key r = k \<Longrightarrow> \<not> P r \<and> \<not> P (f r)"
  shows "filter P (upd_by key k f t) = filter P t"
  using assms by (induction t) (auto simp: upd_by_def)

lemma filter_del_by:
  assumes "\<And>r. r \<in> set t \<Longrightarrow> key r = k \<Longrightarrow> \<not> P r"
  shows "filter P (del_by key k t) = filter P t"
  using assms by (induction t) (auto simp: del_by_def)

text \<open>The rows found by key belong to the entity the lookup names.\<close>

lemma fk_nul_free:
  "store_ok d \<Longrightarrow> fk f t ent_id (entities d) \<Longrightarrow> r \<in> set t \<Longrightarrow> nul_free (f r)"
  by (fastforce simp: store_ok_def fk_def list_all_iff)

lemma text_of_key_entity:
  assumes "store_ok d" "unique_by key t" "fk f t ent_id (entities d)"
    and "text_of_key key f k t = e" "e \<noteq> []" "r \<in> set t" "key r = k"
  shows "f r = e"
proof -
  have "sel_by key k t = Some r" using sel_by_mem [OF assms(2,6)] assms(7) by simp
  with assms(4) have "c_str (f r) = e" by (simp add: text_of_key_def)
  with fk_nul_free [OF assms(1,3,6)] show ?thesis by simp
qed

lemma text_of_key_exists:
  assumes "text_of_key key f k t = e" "e \<noteq> []"
  obtains r where "sel_by key k t = Some r" "r \<in> set t" "key r = k" "c_str (f r) = e"
  using assms by (auto simp: text_of_key_def dest: sel_by_Some split: option.splits)

lemma store_keys:
  assumes "store_ok d"
  shows "unique_by ent_id (entities d)" "unique_by acc_id (accounts d)" "unique_by tx_id (transactions d)"
    "unique_by cat_id (categories d)" "unique_by bud_id (budgets d)"
    "fk acc_entity (accounts d) ent_id (entities d)" "fk cat_entity (categories d) ent_id (entities d)"
    "fk bud_entity (budgets d) ent_id (entities d)" "fk tx_account (transactions d) acc_id (accounts d)"
  using assms by (auto simp only: store_ok_def db_ok_defs)

lemma tx_entity_upd:
  assumes "\<And>r. acc_id (f r) = acc_id r" "\<And>r. acc_entity (f r) = acc_entity r"
  shows "tx_entity (d\<lparr>accounts := upd_by acc_id k f (accounts d)\<rparr>) t = tx_entity d t"
  using assms
  by (cases "sel_by acc_id (tx_account t) (accounts d)")
     (auto simp: tx_entity_def sel_by_upd_by)

lemma tx_entity_cong: "accounts d' = accounts d \<Longrightarrow> tx_entity d' = tx_entity d"
  by (simp add: tx_entity_def fun_eq_iff)

lemma confined_update_entity:
  assumes "\<And>r. ent_id (f r) = ent_id r" "\<And>r. ent_kind r \<in> set entity_kinds \<Longrightarrow> ent_kind (f r) \<in> set entity_kinds"
  shows "confined e d (d\<lparr>entities := upd_by ent_id e f (entities d)\<rparr>)"
proof -
  let ?d = "d\<lparr>entities := upd_by ent_id e f (entities d)\<rparr>"
  have "map ent_id (upd_by ent_id e f (entities d)) = map ent_id (entities d)"
    by (rule map_upd_by) (rule assms(1))
  then have ids: "ent_id ` set (upd_by ent_id e f (entities d)) = ent_id ` set (entities d)"
    by (metis set_map)
  have kinds: "kinds_ok d \<Longrightarrow> kinds_ok ?d"
    by (auto simp: kinds_ok_def list_all_iff assms(2) dest!: set_upd_byD)
  have "store_ok d \<Longrightarrow> store_ok ?d"
  proof -
    assume ok: "store_ok d"
    then have "db_ok ?d"
      using kinds by (simp add: integrity_simps store_ok_def assms(1) kinds_ok_def)
    moreover have "\<forall>i \<in> ent_id ` set (entities ?d). nul_free i"
      using ok unfolding sel_by_None ids by (simp add: ids store_ok_def list_all_iff)
    ultimately show ?thesis by (simp add: store_ok_def list_all_iff)
  qed
  moreover have "entity_view e' ?d = entity_view e' d" if "e' \<noteq> e" for e'
    using that by (auto simp: entity_view_def tx_entity_def assms(1) intro!: filter_upd_by)
  ultimately show ?thesis by (simp add: confined_def)
qed

lemma confined_update_account:
  assumes "\<And>r. acc_id (f r) = acc_id r" "\<And>r. acc_entity (f r) = acc_entity r"
    and "text_of_key acc_id acc_entity k (accounts d) = e" "e \<noteq> []"
  shows "confined e d (d\<lparr>accounts := upd_by acc_id k f (accounts d)\<rparr>)"
proof -
  let ?d = "d\<lparr>accounts := upd_by acc_id k f (accounts d)\<rparr>"
  have "store_ok d \<Longrightarrow> store_ok ?d"
    by (simp add: store_ok_def integrity_simps assms(1,2))
  moreover have "entity_view e' ?d = entity_view e' d" if "store_ok d" "e' \<noteq> e" for e'
  proof -
    have "acc_entity r = e" if "r \<in> set (accounts d)" "acc_id r = k" for r
      using text_of_key_entity [OF \<open>store_ok d\<close> _ _ assms(3,4) that] store_keys [OF \<open>store_ok d\<close>]
      by blast
    then have "filter (\<lambda>r. acc_entity r = e') (upd_by acc_id k f (accounts d)) =
        filter (\<lambda>r. acc_entity r = e') (accounts d)"
      using that(2) by (intro filter_upd_by) (simp add: assms(2))
    then show ?thesis by (simp add: entity_view_def tx_entity_upd [OF assms(1,2)])
  qed
  ultimately show ?thesis by (simp add: confined_def)
qed

lemma confined_insert_account:
  assumes "insert_account r d = Some d'" and "acc_entity r = e"
  shows "confined e d d'"
proof -
  from assms(1) have d': "d' = d\<lparr>accounts := accounts d @ [r]\<rparr>" by (simp add: insert_account_Some)
  have "store_ok d \<Longrightarrow> store_ok d'"
    using insert_account_ok [OF _ assms(1)] by (simp add: store_ok_def d')
  moreover have "entity_view e' d' = entity_view e' d" if "store_ok d" "e' \<noteq> e" for e'
  proof -
    have "tx_entity d' t = tx_entity d t" if "t \<in> set (transactions d)" for t
    proof -
      have "tx_account t \<in> acc_id ` set (accounts d)"
        using store_keys(9) [OF \<open>store_ok d\<close>] that by (auto simp: fk_def)
      then obtain a where "sel_by acc_id (tx_account t) (accounts d) = Some a"
        by (metis sel_by_None not_None_eq)
      then show ?thesis by (simp add: tx_entity_def d' sel_by_append)
    qed
    then have "filter (\<lambda>t. tx_entity d' t = Some e') (transactions d) =
        filter (\<lambda>t. tx_entity d t = Some e') (transactions d)"
      by (intro filter_cong) simp_all
    then show ?thesis using that(2) assms(2) by (simp add: entity_view_def d')
  qed
  ultimately show ?thesis by (simp add: confined_def d')
qed

lemma confined_delete_account:
  assumes "text_of_key acc_id acc_entity k (accounts d) = e" "e \<noteq> []"
  shows "confined e d (ignoring (delete_account k) d)"
proof (cases "delete_account k d")
  case None
  then show ?thesis by (simp add: ignoring_def)
next
  case (Some d')
  then have d': "d' = d\<lparr>accounts := del_by acc_id k (accounts d)\<rparr>"
    and free: "k \<notin> acc_id ` set (accounts d) \<or> k \<notin> tx_account ` set (transactions d)"
    by (simp_all add: delete_account_Some)
  obtain r where "r \<in> set (accounts d)" "acc_id r = k"
    using assms by (rule text_of_key_exists)
  then have "k \<in> acc_id ` set (accounts d)" by blast
  with free have free: "k \<notin> tx_account ` set (transactions d)" by blast
  have "store_ok d \<Longrightarrow> store_ok d'"
    using delete_account_ok [OF _ Some] by (simp add: store_ok_def d')
  moreover have "entity_view e' d' = entity_view e' d" if "store_ok d" "e' \<noteq> e" for e'
  proof -
    have "tx_entity d' t = tx_entity d t" if "t \<in> set (transactions d)" for t
      using that free by (auto simp: tx_entity_def d' sel_by_del_by)
    then have txs: "filter (\<lambda>t. tx_entity d' t = Some e') (transactions d) =
        filter (\<lambda>t. tx_entity d t = Some e') (transactions d)"
      by (intro filter_cong) simp_all
    have "acc_entity r = e" if "r \<in> set (accounts d)" "acc_id r = k" for r
      using text_of_key_entity [OF \<open>store_ok d\<close> _ _ assms that] store_keys [OF \<open>store_ok d\<close>]
      by blast
    then have "filter (\<lambda>r. acc_entity r = e') (del_by acc_id k (accounts d)) =
        filter (\<lambda>r. acc_entity r = e') (accounts d)"
      using that(2) by (intro filter_del_by) simp
    with txs show ?thesis by (simp add: entity_view_def d')
  qed
  ultimately show ?thesis using Some by (simp add: confined_def d' ignoring_def)
qed

text \<open>The account a transaction is on.\<close>

lemma confined_insert_transaction:
  assumes "insert_transaction r d = Some d'"
    and "store_ok d \<Longrightarrow> tx_entity d r = Some e"
  shows "confined e d d'"
proof -
  from assms(1) have d': "d' = d\<lparr>transactions := transactions d @ [r]\<rparr>"
    by (simp add: insert_transaction_Some)
  have "store_ok d \<Longrightarrow> store_ok d'"
    using insert_transaction_ok [OF _ assms(1)] by (simp add: store_ok_def d')
  moreover have "entity_view e' d' = entity_view e' d" if "store_ok d" "e' \<noteq> e" for e'
  proof -
    have "tx_entity d r \<noteq> Some e'" using assms(2) that by simp
    moreover have "tx_entity d' = tx_entity d" by (rule tx_entity_cong) (simp add: d')
    ultimately show ?thesis unfolding entity_view_def by (simp add: d')
  qed
  ultimately show ?thesis by (simp add: confined_def d')
qed

lemma confined_update_transaction:
  assumes "\<And>r. tx_id (f r) = tx_id r" "\<And>r. tx_account (f r) = tx_account r"
    and "\<And>t. store_ok d \<Longrightarrow> t \<in> set (transactions d) \<Longrightarrow> tx_id t = k \<Longrightarrow> tx_entity d t = Some e"
  shows "confined e d (d\<lparr>transactions := upd_by tx_id k f (transactions d)\<rparr>)"
proof -
  let ?d = "d\<lparr>transactions := upd_by tx_id k f (transactions d)\<rparr>"
  have "store_ok d \<Longrightarrow> store_ok ?d"
    by (simp add: store_ok_def integrity_simps assms(1,2))
  moreover have "entity_view e' ?d = entity_view e' d" if "store_ok d" "e' \<noteq> e" for e'
  proof -
    have "filter (\<lambda>t. tx_entity d t = Some e') (upd_by tx_id k f (transactions d)) =
        filter (\<lambda>t. tx_entity d t = Some e') (transactions d)"
    proof (rule filter_upd_by)
      fix t assume "t \<in> set (transactions d)" "tx_id t = k"
      then have "tx_entity d t = Some e" using assms(3) that(1) by blast
      moreover have "tx_entity d (f t) = tx_entity d t" by (simp add: tx_entity_def assms(2))
      ultimately show "\<not> tx_entity d t = Some e' \<and> \<not> tx_entity d (f t) = Some e'"
        using that(2) by simp
    qed
    then show ?thesis by (simp add: entity_view_def tx_entity_cong [of ?d d])
  qed
  ultimately show ?thesis by (simp add: confined_def)
qed

lemma confined_delete_transaction:
  assumes "\<And>t. store_ok d \<Longrightarrow> t \<in> set (transactions d) \<Longrightarrow> tx_id t = k \<Longrightarrow> tx_entity d t = Some e"
  shows "confined e d (d\<lparr>transactions := del_by tx_id k (transactions d)\<rparr>)"
proof -
  let ?d = "d\<lparr>transactions := del_by tx_id k (transactions d)\<rparr>"
  have "store_ok d \<Longrightarrow> store_ok ?d"
    by (simp add: store_ok_def integrity_simps)
  moreover have "entity_view e' ?d = entity_view e' d" if "store_ok d" "e' \<noteq> e" for e'
  proof -
    have "filter (\<lambda>t. tx_entity d t = Some e') (del_by tx_id k (transactions d)) =
        filter (\<lambda>t. tx_entity d t = Some e') (transactions d)"
      using assms that by (intro filter_del_by) simp
    then show ?thesis by (simp add: entity_view_def tx_entity_cong [of ?d d])
  qed
  ultimately show ?thesis by (simp add: confined_def)
qed


lemma confined_insert_category:
  assumes "insert_category r d = Some d'" and "cat_entity r = e"
  shows "confined e d d'"
proof -
  from assms(1) have d': "d' = d\<lparr>categories := categories d @ [r]\<rparr>" by (simp add: insert_category_Some)
  have "store_ok d \<Longrightarrow> store_ok d'"
    using insert_category_ok [OF _ assms(1)] by (simp add: store_ok_def d')
  then show ?thesis
    using assms(2) by (simp add: confined_def d' entity_view_def tx_entity_def)
qed

lemma confined_update_category:
  assumes "\<And>r. cat_id (f r) = cat_id r" "\<And>r. cat_entity (f r) = cat_entity r"
    and "text_of_key cat_id cat_entity k (categories d) = e" "e \<noteq> []"
  shows "confined e d (d\<lparr>categories := upd_by cat_id k f (categories d)\<rparr>)"
proof -
  let ?d = "d\<lparr>categories := upd_by cat_id k f (categories d)\<rparr>"
  have "store_ok d \<Longrightarrow> store_ok ?d"
    by (simp add: store_ok_def integrity_simps assms(1,2))
  moreover have "entity_view e' ?d = entity_view e' d" if "store_ok d" "e' \<noteq> e" for e'
  proof -
    have "cat_entity r = e" if "r \<in> set (categories d)" "cat_id r = k" for r
      using text_of_key_entity [OF \<open>store_ok d\<close> _ _ assms(3,4) that] store_keys [OF \<open>store_ok d\<close>]
      by blast
    then have "filter (\<lambda>r. cat_entity r = e') (upd_by cat_id k f (categories d)) =
        filter (\<lambda>r. cat_entity r = e') (categories d)"
      using that(2) by (intro filter_upd_by) (simp add: assms(2))
    then show ?thesis by (simp add: entity_view_def tx_entity_def)
  qed
  ultimately show ?thesis by (simp add: confined_def)
qed

lemma confined_delete_category:
  assumes "text_of_key cat_id cat_entity k (categories d) = e" "e \<noteq> []"
  shows "confined e d (d\<lparr>categories := del_by cat_id k (categories d)\<rparr>)"
proof -
  let ?d = "d\<lparr>categories := del_by cat_id k (categories d)\<rparr>"
  have "store_ok d \<Longrightarrow> store_ok ?d"
    by (simp add: store_ok_def integrity_simps)
  moreover have "entity_view e' ?d = entity_view e' d" if "store_ok d" "e' \<noteq> e" for e'
  proof -
    have "cat_entity r = e" if "r \<in> set (categories d)" "cat_id r = k" for r
      using text_of_key_entity [OF \<open>store_ok d\<close> _ _ assms that] store_keys [OF \<open>store_ok d\<close>]
      by blast
    then have "filter (\<lambda>r. cat_entity r = e') (del_by cat_id k (categories d)) =
        filter (\<lambda>r. cat_entity r = e') (categories d)"
      using that(2) by (intro filter_del_by) simp
    then show ?thesis by (simp add: entity_view_def tx_entity_def)
  qed
  ultimately show ?thesis by (simp add: confined_def)
qed


lemma confined_insert_budget:
  assumes "insert_budget r d = Some d'" and "bud_entity r = e"
  shows "confined e d d'"
proof -
  from assms(1) have d': "d' = d\<lparr>budgets := budgets d @ [r]\<rparr>" by (simp add: insert_budget_Some)
  have "store_ok d \<Longrightarrow> store_ok d'"
    using insert_budget_ok [OF _ assms(1)] by (simp add: store_ok_def d')
  then show ?thesis
    using assms(2) by (simp add: confined_def d' entity_view_def tx_entity_def)
qed

lemma confined_update_budget:
  assumes "\<And>r. bud_id (f r) = bud_id r" "\<And>r. bud_entity (f r) = bud_entity r"
    and "text_of_key bud_id bud_entity k (budgets d) = e" "e \<noteq> []"
  shows "confined e d (d\<lparr>budgets := upd_by bud_id k f (budgets d)\<rparr>)"
proof -
  let ?d = "d\<lparr>budgets := upd_by bud_id k f (budgets d)\<rparr>"
  have "store_ok d \<Longrightarrow> store_ok ?d"
    by (simp add: store_ok_def integrity_simps assms(1,2))
  moreover have "entity_view e' ?d = entity_view e' d" if "store_ok d" "e' \<noteq> e" for e'
  proof -
    have "bud_entity r = e" if "r \<in> set (budgets d)" "bud_id r = k" for r
      using text_of_key_entity [OF \<open>store_ok d\<close> _ _ assms(3,4) that] store_keys [OF \<open>store_ok d\<close>]
      by blast
    then have "filter (\<lambda>r. bud_entity r = e') (upd_by bud_id k f (budgets d)) =
        filter (\<lambda>r. bud_entity r = e') (budgets d)"
      using that(2) by (intro filter_upd_by) (simp add: assms(2))
    then show ?thesis by (simp add: entity_view_def tx_entity_def)
  qed
  ultimately show ?thesis by (simp add: confined_def)
qed

lemma confined_delete_budget:
  assumes "text_of_key bud_id bud_entity k (budgets d) = e" "e \<noteq> []"
  shows "confined e d (d\<lparr>budgets := del_by bud_id k (budgets d)\<rparr>)"
proof -
  let ?d = "d\<lparr>budgets := del_by bud_id k (budgets d)\<rparr>"
  have "store_ok d \<Longrightarrow> store_ok ?d"
    by (simp add: store_ok_def integrity_simps)
  moreover have "entity_view e' ?d = entity_view e' d" if "store_ok d" "e' \<noteq> e" for e'
  proof -
    have "bud_entity r = e" if "r \<in> set (budgets d)" "bud_id r = k" for r
      using text_of_key_entity [OF \<open>store_ok d\<close> _ _ assms that] store_keys [OF \<open>store_ok d\<close>]
      by blast
    then have "filter (\<lambda>r. bud_entity r = e') (del_by bud_id k (budgets d)) =
        filter (\<lambda>r. bud_entity r = e') (budgets d)"
      using that(2) by (intro filter_del_by) simp
    then show ?thesis by (simp add: entity_view_def tx_entity_def)
  qed
  ultimately show ?thesis by (simp add: confined_def)
qed


section \<open>The contract of a data route\<close>

text \<open>
  The weaker contract every data route meets, those that are not about one existing entity
  included: integrity, isolation of the entities the user is not a member of, an append-only log,
  and nothing done to users, enrollment tokens or, after authentication, sessions.
\<close>

locale data_route =
  fixes handle :: "request \<Rightarrow> db \<Rightarrow> db outcome"
    and session :: "request \<Rightarrow> db \<Rightarrow> string option \<times> db"
  assumes keeps_store: "store_ok d \<Longrightarrow> store_ok (snd (handle req d))"
    and isolates: "store_ok d \<Longrightarrow> e \<in> ent_id ` set (entities d) \<Longrightarrow>
          (\<And>uid. fst (session req d) = Some uid \<Longrightarrow> \<not> user_has_access_to_entity d uid e) \<Longrightarrow>
          entity_view e (snd (handle req d)) = entity_view e d"
    and log_grows: "prefix (audit_log d) (audit_log (snd (handle req d)))"
    and same_sessions: "sessions (snd (handle req d)) = sessions (snd (session req d))"
    and same_users: "users (snd (handle req d)) = users d"
    and same_enrollments: "enrollments (snd (handle req d)) = enrollments d"
    and rejects: "session req d = (None, d1) \<Longrightarrow> handle req d = (Inr (err 401 ''unauthorized''), d1)"

text \<open>
  \<open>session\<close> authenticates, \<open>scope\<close> finds the entity (\<open>None\<close> is the 404), \<open>allowed\<close> is the
  membership test the handler uses.  The laws are the three rejections and confinement.
\<close>

locale entity_route =
  fixes handle :: "request \<Rightarrow> db \<Rightarrow> db outcome"
    and session :: "request \<Rightarrow> db \<Rightarrow> string option \<times> db"
    and scope :: "request \<Rightarrow> db \<Rightarrow> string option"
    and allowed :: "db \<Rightarrow> string \<Rightarrow> string \<Rightarrow> bool"
  assumes session_data: "data_of (snd (session req d)) = data_of d"
    and session_ok: "store_ok d \<Longrightarrow> store_ok (snd (session req d))"
    and no_session: "session req d = (None, d1) \<Longrightarrow> handle req d = (Inr (err 401 ''unauthorized''), d1)"
    and no_scope: "session req d = (Some uid, d1) \<Longrightarrow> scope req d1 = None \<Longrightarrow>
          handle req d = (Inr (err 404 ''not_found''), d1)"
    and not_allowed: "session req d = (Some uid, d1) \<Longrightarrow> scope req d1 = Some e \<Longrightarrow> \<not> allowed d1 uid e \<Longrightarrow>
          handle req d = (Inr (err 403 ''forbidden''), d1)"
    and allowed_access: "allowed d uid e \<Longrightarrow> user_has_access_to_entity d uid e"
    and acts_confined: "session req d = (Some uid, d1) \<Longrightarrow> scope req d1 = Some e \<Longrightarrow> allowed d1 uid e \<Longrightarrow>
          confined e d1 (snd (handle req d))"
begin

lemma view_session: "entity_view e (snd (session req d)) = entity_view e d"
  using data_of_cong [OF session_data [of req d]] by (intro entity_view_cong) simp_all

lemma access_session: "user_has_access_to_entity (snd (session req d)) = user_has_access_to_entity d"
  using data_of_cong(3) [OF session_data [of req d]]
  by (simp add: user_has_access_to_entity_def fun_eq_iff)

text \<open>Every request falls into one of four cases.\<close>

lemma cases_of_request:
  obtains (unauthorized) d1 where "session req d = (None, d1)"
      "handle req d = (Inr (err 401 ''unauthorized''), d1)"
  | (not_found) uid d1 where "session req d = (Some uid, d1)" "scope req d1 = None"
      "handle req d = (Inr (err 404 ''not_found''), d1)"
  | (forbidden) uid d1 e where "session req d = (Some uid, d1)" "scope req d1 = Some e"
      "\<not> allowed d1 uid e" "handle req d = (Inr (err 403 ''forbidden''), d1)"
  | (acts) uid d1 e where "session req d = (Some uid, d1)" "scope req d1 = Some e" "allowed d1 uid e"
      "user_has_access_to_entity d uid e" "confined e d1 (snd (handle req d))"
proof (cases "session req d")
  case (Pair who d1)
  show ?thesis
  proof (cases who)
    case None
    with Pair show ?thesis using no_session unauthorized by blast
  next
    case (Some uid)
    note s = Pair [unfolded Some]
    show ?thesis
    proof (cases "scope req d1")
      case None
      with s show ?thesis using no_scope not_found by blast
    next
      case (Some e)
      show ?thesis
      proof (cases "allowed d1 uid e")
        case True
        then have "user_has_access_to_entity d uid e"
          using allowed_access [of d1 uid e] access_session [of req d] s by simp
        with True s Some show ?thesis using acts acts_confined by blast
      next
        case False
        with s Some show ?thesis using not_allowed forbidden by blast
      qed
    qed
  qed
qed

lemma handle_store: "store_ok d \<Longrightarrow> store_ok (snd (handle req d))"
proof (rule cases_of_request [of req d])
  fix uid d1 e
  assume "store_ok d" "session req d = (Some uid, d1)" "confined e d1 (snd (handle req d))"
  then show ?thesis using session_ok [of d req] by (auto simp: confined_def)
qed (use session_ok [of d req] in simp_all)

text \<open>Tenant isolation: without access to an entity, no request changes its data.\<close>

lemma isolation:
  assumes "store_ok d" and "\<And>uid. fst (session req d) = Some uid \<Longrightarrow> \<not> user_has_access_to_entity d uid e"
  shows "entity_view e (snd (handle req d)) = entity_view e d"
proof (rule cases_of_request [of req d])
  fix uid d1 e'
  assume s: "session req d = (Some uid, d1)" and "user_has_access_to_entity d uid e'"
    and c: "confined e' d1 (snd (handle req d))"
  then have "e \<noteq> e'" using assms(2) [of uid] by auto
  moreover have "store_ok d1" using session_ok [OF assms(1), of req] s by simp
  ultimately show ?thesis using c view_session [of e req d] s by (simp add: confined_def)
qed (use view_session [of e req d] in simp_all)

lemma handle_log: "prefix (audit_log d) (audit_log (snd (handle req d)))"
  using data_of_cong(9) [OF session_data [of req d]]
  by (rule_tac cases_of_request [of req d]) (simp_all add: confined_def)

lemma handle_sessions: "sessions (snd (handle req d)) = sessions (snd (session req d))"
  by (rule cases_of_request [of req d]) (simp_all add: confined_def)

lemma handle_users: "users (snd (handle req d)) = users d"
  using data_of_cong(1) [OF session_data [of req d]]
  by (rule_tac cases_of_request [of req d]) (simp_all add: confined_def)

lemma handle_enrollments: "enrollments (snd (handle req d)) = enrollments d"
  using data_of_cong(8) [OF session_data [of req d]]
  by (rule_tac cases_of_request [of req d]) (simp_all add: confined_def)

end

sublocale entity_route \<subseteq> data_route handle session
  by unfold_locales
     (simp_all add: handle_store isolation handle_log handle_sessions handle_users handle_enrollments
        no_session)

text \<open>A handler that starts with the guard meets the contract when its action is confined.\<close>

lemma require_store_ok: "store_ok d \<Longrightarrow> store_ok (snd (require_session L E req d))"
  using data_of_cong(2) [OF require_data [of L E req d]] by (simp add: store_ok_def)

lemma entity_guard_route:
  assumes "\<And>d uid e. allowed d uid e \<Longrightarrow> user_has_access_to_entity d uid e"
    and "\<And>req uid e d. scope req d = Some e \<Longrightarrow> allowed d uid e \<Longrightarrow> confined e d (snd (act req uid e d))"
  shows "entity_route (entity_guard L E allowed scope act) (require_session L E) scope allowed"
  by unfold_locales
     (simp_all add: entity_guard_def require_store_ok assms)

lemma lookup_scopeD:
  "lookup_scope p entity_id_of req d = Some e \<Longrightarrow> entity_id_of d (path_param req p) = e \<and> e \<noteq> []"
  by (auto simp: lookup_scope_def Let_def split: if_splits)

text \<open>The three rejections, for a handler of this form.\<close>

lemma guard_unauthorized:
  "fst (require_session L E req d) = None \<Longrightarrow>
     entity_guard L E allowed scope act req d = (Inr (err 401 ''unauthorized''), d)"
  using require_None_same [of L E req d]
  by (cases "require_session L E req d") (simp add: entity_guard_def)

lemma read_only_route:
  assumes "\<And>req d. snd (handle req d) = snd (require_session L E req d)"
    and "\<And>req d d1. require_session L E req d = (None, d1) \<Longrightarrow> handle req d = (Inr (err 401 ''unauthorized''), d1)"
  shows "data_route handle (require_session L E)"
proof (unfold_locales, goal_cases)
  case (2 d e req)
  show ?case
    unfolding assms(1) by (rule entity_view_cong) (rule data_of_cong [OF require_data])+
next
  case (3 d req)
  show ?case
    unfolding assms(1) using data_of_cong(9) [OF require_data [of L E req d]] by simp
next
  case (5 req d)
  show ?case unfolding assms(1) by (rule data_of_cong [OF require_data])
next
  case (6 req d)
  show ?case unfolding assms(1) by (rule data_of_cong [OF require_data])
qed (simp_all add: assms require_store_ok)

section \<open>Sequences of column updates\<close>

lemma text_of_key_upd:
  assumes "\<And>r. key (f r) = key r" "\<And>r. col (f r) = col r"
  shows "text_of_key key col k (upd_by key j f t) = text_of_key key col k t"
  using assms by (simp add: text_of_key_def sel_by_upd_by split: option.splits)

text \<open>A statement that stays confined and keeps the condition \<open>P\<close> that makes the next one so.\<close>

definition stays :: "(db \<Rightarrow> bool) \<Rightarrow> string \<Rightarrow> (db \<Rightarrow> db) \<Rightarrow> bool" where
  "stays P e f \<longleftrightarrow> (\<forall>d. P d \<longrightarrow> P (f d) \<and> confined e d (f d))"

lemma staysI: "(\<And>d. P d \<Longrightarrow> P (f d)) \<Longrightarrow> (\<And>d. P d \<Longrightarrow> confined e d (f d)) \<Longrightarrow> stays P e f"
  by (simp add: stays_def)

lemma stays_if_given: "(\<And>v. stays P e (f v)) \<Longrightarrow> stays P e (if_given x f)"
  by (simp add: stays_def if_given_def split: option.splits)

lemma stays_exec_all: "list_all (stays P e) fs \<Longrightarrow> P d \<Longrightarrow> confined e d (exec_all fs d)"
proof (induction fs arbitrary: d)
  case (Cons f fs)
  then have "P (f d)" "confined e d (f d)" by (simp_all add: stays_def)
  with Cons show ?case by (auto simp: exec_all_def intro: confined_trans)
qed (simp add: exec_all_def)

lemma stays_account:
  assumes "\<And>r. acc_id (f r) = acc_id r" "\<And>r. acc_entity (f r) = acc_entity r" "e \<noteq> []"
  shows "stays (\<lambda>d. text_of_key acc_id acc_entity k (accounts d) = e) e
           (\<lambda>d. d\<lparr>accounts := upd_by acc_id k f (accounts d)\<rparr>)"
  using assms by (intro staysI confined_update_account) (simp_all add: text_of_key_upd)

lemma stays_category:
  assumes "\<And>r. cat_id (f r) = cat_id r" "\<And>r. cat_entity (f r) = cat_entity r" "e \<noteq> []"
  shows "stays (\<lambda>d. text_of_key cat_id cat_entity k (categories d) = e) e
           (\<lambda>d. d\<lparr>categories := upd_by cat_id k f (categories d)\<rparr>)"
  using assms by (intro staysI confined_update_category) (simp_all add: text_of_key_upd)

lemma stays_budget:
  assumes "\<And>r. bud_id (f r) = bud_id r" "\<And>r. bud_entity (f r) = bud_entity r" "e \<noteq> []"
  shows "stays (\<lambda>d. text_of_key bud_id bud_entity k (budgets d) = e) e
           (\<lambda>d. d\<lparr>budgets := upd_by bud_id k f (budgets d)\<rparr>)"
  using assms by (intro staysI confined_update_budget) (simp_all add: text_of_key_upd)

definition tx_in :: "string \<Rightarrow> string \<Rightarrow> db \<Rightarrow> bool" where
  "tx_in k e d \<longleftrightarrow> (store_ok d \<longrightarrow> (\<forall>t \<in> set (transactions d). tx_id t = k \<longrightarrow> tx_entity d t = Some e))"

lemma stays_transaction:
  assumes "\<And>r. tx_id (f r) = tx_id r" "\<And>r. tx_account (f r) = tx_account r"
  shows "stays (tx_in k e) e (\<lambda>d. d\<lparr>transactions := upd_by tx_id k f (transactions d)\<rparr>)"
proof (rule staysI)
  fix d assume t: "tx_in k e d"
  then show "confined e d (d\<lparr>transactions := upd_by tx_id k f (transactions d)\<rparr>)"
    using assms by (intro confined_update_transaction) (simp_all add: tx_in_def)
  let ?d = "d\<lparr>transactions := upd_by tx_id k f (transactions d)\<rparr>"
  have "store_ok ?d = store_ok d" by (simp add: store_ok_def integrity_simps assms)
  moreover have "tx_entity ?d r = tx_entity d r" "tx_entity d (f r) = tx_entity d r" for r
    by (simp_all add: tx_entity_def assms)
  ultimately have eq: "tx_in k e ?d \<longleftrightarrow>
      (store_ok d \<longrightarrow> (\<forall>r \<in> set (transactions ?d). tx_id r = k \<longrightarrow> tx_entity d r = Some e))"
    and same: "tx_entity d (f r) = tx_entity d r" for r
    unfolding tx_in_def by simp_all
  show "tx_in k e ?d"
    unfolding eq
  proof (intro impI ballI)
    fix r assume ok: "store_ok d" and "r \<in> set (transactions ?d)" and k: "tx_id r = k"
    then have "(\<exists>q \<in> set (transactions d). tx_id q = k \<and> r = f q) \<or> r \<in> set (transactions d)"
      using set_upd_byD [of r tx_id k f "transactions d"] by simp
    then show "tx_entity d r = Some e"
    proof
      assume "\<exists>q \<in> set (transactions d). tx_id q = k \<and> r = f q"
      then obtain q where "q \<in> set (transactions d)" "tx_id q = k" "r = f q" by blast
      with t ok show ?thesis by (simp add: tx_in_def same)
    next
      assume "r \<in> set (transactions d)"
      with t ok k show ?thesis by (simp add: tx_in_def)
    qed
  qed
qed

end
