(* ===== verification/Enrollment_Model.thy ===== *)
theory Enrollment_Model
  imports Session_Model
begin

text \<open>
  Enrollment tokens (\<open>server/auth/EnrollmentToken.cpp\<close>): 32 random bytes given out in hex and
  stored as their hash, redeemed at most once and before they expire.

  \<open>hex_to_bytes\<close> follows \<open>strtoul\<close> on two characters, with the white space and the signs it
  accepts.  The lemmas show the hex round trip, that redeeming is peeking and then marking, and
  that a redeemed token is never accepted again.
\<close>

section \<open>Hexadecimal\<close>

definition hex_digit :: "nat \<Rightarrow> char" where
  "hex_digit n = hex_digits ! n"

definition byte_to_hex :: "byte \<Rightarrow> string" where
  "byte_to_hex b = [hex_digit (unat b div 16), hex_digit (unat b mod 16)]"

definition bytes_to_hex :: "byte list \<Rightarrow> string" where
  "bytes_to_hex data = concat (map byte_to_hex data)"

definition hex_value :: "char \<Rightarrow> nat option" where
  "hex_value c =
     (let n = (of_char c :: nat) in
      if 48 \<le> n \<and> n \<le> 57 then Some (n - 48)
      else if 97 \<le> n \<and> n \<le> 102 then Some (n - 87)
      else if 65 \<le> n \<and> n \<le> 70 then Some (n - 55)
      else None)"

text \<open>
  \<open>strtoul\<close> in base 16 on a two-character buffer, narrowed to \<open>uint8_t\<close>; \<open>None\<close> when it stops
  before the end.  One leading white-space character or sign is accepted, and a minus sign
  negates modulo the width.
\<close>

definition strtoul_pair :: "char \<Rightarrow> char \<Rightarrow> byte option" where
  "strtoul_pair a b =
     (case (hex_value a, hex_value b) of
        (Some x, Some y) \<Rightarrow> Some (of_nat (16 * x + y))
      | (None, Some y) \<Rightarrow>
          if c_isspace a \<or> a = CHR ''+'' then Some (of_nat y)
          else if a = CHR ''-'' then Some (- of_nat y)
          else None
      | _ \<Rightarrow> None)"

fun hex_pairs :: "string \<Rightarrow> byte list option" where
  "hex_pairs [] = Some []"
| "hex_pairs [c] = None"
| "hex_pairs (a # b # s) =
     (case strtoul_pair a b of
        None \<Rightarrow> None
      | Some v \<Rightarrow> map_option ((#) v) (hex_pairs s))"

definition hex_to_bytes :: "string \<Rightarrow> byte list" where
  "hex_to_bytes hex =
     (if length hex mod 2 \<noteq> 0 then []
      else case hex_pairs hex of None \<Rightarrow> [] | Some out \<Rightarrow> out)"

lemma hex_value_digit: "n < 16 \<Longrightarrow> hex_value (hex_digit n) = Some n"
proof -
  assume "n < 16"
  then have "n \<in> set [0..<16]" by simp
  moreover have "\<forall>m \<in> set [0..<16]. hex_value (hex_digit m) = Some m"
    by (simp add: upt_rec hex_value_def hex_digit_def hex_digits_def Let_def)
  ultimately show ?thesis by blast
qed

lemma strtoul_byte: "strtoul_pair (hex_digit (unat b div 16)) (hex_digit (unat b mod 16)) = Some b"
proof -
  note n = unat_byte_nibbles [of b]
  then show ?thesis
    by (simp add: strtoul_pair_def hex_value_digit [OF n(1)] hex_value_digit [OF n(2)]
        del: of_nat_add of_nat_mult)
qed

lemma hex_pairs_bytes_to_hex: "hex_pairs (bytes_to_hex bs) = Some bs"
  by (induction bs) (simp_all add: bytes_to_hex_def byte_to_hex_def strtoul_byte)

lemma length_bytes_to_hex [simp]: "length (bytes_to_hex bs) = 2 * length bs"
  by (induction bs) (simp_all add: bytes_to_hex_def byte_to_hex_def)

lemma hex_to_bytes_to_hex: "hex_to_bytes (bytes_to_hex bs) = bs"
  by (simp add: hex_to_bytes_def hex_pairs_bytes_to_hex)

lemma bytes_to_hex_digits: "set (bytes_to_hex bs) \<subseteq> set hex_digits"
proof (induction bs)
  case (Cons b bs)
  have "length hex_digits = 16" by (simp add: hex_digits_def)
  then have "hex_digits ! (unat b div 16) \<in> set hex_digits"
    and "hex_digits ! (unat b mod 16) \<in> set hex_digits"
    using unat_byte_nibbles [of b] by (simp_all only: nth_mem)
  then show ?case
    using Cons by (auto simp: bytes_to_hex_def byte_to_hex_def hex_digit_def)
qed (simp add: bytes_to_hex_def)

lemma bytes_to_hex_inject: "bytes_to_hex a = bytes_to_hex b \<longleftrightarrow> a = b"
  by (metis hex_to_bytes_to_hex)

lemma bytes_to_hex_spec: "bin2hex_spec bytes_to_hex"
  by (simp add: bin2hex_spec_def bytes_to_hex_digits inj_def bytes_to_hex_inject)

text \<open>The hex printed for a token has two lower-case digits per byte and reads back to the same
  bytes.\<close>

theorem token_hex_roundtrip:
  "hex_to_bytes (bytes_to_hex bs) = bs \<and> length (bytes_to_hex bs) = 2 * length bs \<and>
   set (bytes_to_hex bs) \<subseteq> set ''0123456789abcdef''"
  using bytes_to_hex_digits [of bs] by (simp add: hex_to_bytes_to_hex hex_digits_def)

text \<open>The reader also accepts pairs that are not hexadecimal: white space or a plus sign before a
  digit counts as a zero, a minus sign negates.\<close>

theorem token_hex_lenient:
  "hex_to_bytes '' a'' = [0x0A] \<and> hex_to_bytes ''+a'' = [0x0A] \<and> hex_to_bytes ''-a'' = [0xF6]"
  by code_simp

section \<open>The token table\<close>

record minted_enrollment =
  men_raw :: string
  men_hash :: "byte list"
  men_expires :: int

record enrollment_record =
  rec_hash :: "byte list"
  rec_email :: string
  rec_created :: int
  rec_expires :: int
  rec_consumed :: int

definition mint_enrollment_token :: "third_party \<Rightarrow> env \<Rightarrow> int \<Rightarrow> minted_enrollment" where
  "mint_enrollment_token L E ttl =
     (let raw = random_token E in
      \<lparr>men_raw = bytes_to_hex raw, men_hash = generichash L raw, men_expires = clock E 0 + ttl\<rparr>)"

definition persist_enrollment_token ::
  "env \<Rightarrow> minted_enrollment \<Rightarrow> string \<Rightarrow> db \<Rightarrow> (string + unit) \<times> db" where
  "persist_enrollment_token E tok email d =
     (case insert_enrollment \<lparr>enr_hash = men_hash tok, enr_email = email, enr_created = clock E 0,
             enr_expires = men_expires tok, enr_consumed = None\<rparr> d of
        None \<Rightarrow> (Inl ''persist_enrollment_token: INSERT failed'', d)
      | Some d' \<Rightarrow> (Inr (), d'))"

definition consume_enrollment_token ::
  "third_party \<Rightarrow> string \<Rightarrow> int \<Rightarrow> db \<Rightarrow> enrollment_record option \<times> db" where
  "consume_enrollment_token L raw now d =
     (let raw_bytes = hex_to_bytes raw in
      if length raw_bytes \<noteq> 32 then (None, d)
      else let hash = generichash L raw_bytes in
        (case sel_by enr_hash hash (enrollments d) of
           None \<Rightarrow> (None, d)
         | Some r \<Rightarrow>
             if enr_expires r \<le> now then (None, d)
             else if enr_consumed r \<noteq> None then (None, d)
             else (Some \<lparr>rec_hash = hash, rec_email = c_str (enr_email r), rec_created = enr_created r,
                     rec_expires = enr_expires r, rec_consumed = now\<rparr>,
                   d\<lparr>enrollments := upd_by enr_hash hash (\<lambda>r. r\<lparr>enr_consumed := Some now\<rparr>)
                       (enrollments d)\<rparr>)))"

definition peek_enrollment_token ::
  "third_party \<Rightarrow> string \<Rightarrow> int \<Rightarrow> db \<Rightarrow> enrollment_record option" where
  "peek_enrollment_token L raw now d =
     (let raw_bytes = hex_to_bytes raw in
      if length raw_bytes \<noteq> 32 then None
      else let hash = generichash L raw_bytes in
        (case sel_by enr_hash hash (enrollments d) of
           None \<Rightarrow> None
         | Some r \<Rightarrow>
             if enr_expires r \<le> now then None
             else if enr_consumed r \<noteq> None then None
             else Some \<lparr>rec_hash = hash, rec_email = c_str (enr_email r), rec_created = enr_created r,
                    rec_expires = enr_expires r, rec_consumed = 0\<rparr>))"

definition mark_enrollment_token_consumed :: "byte list \<Rightarrow> int \<Rightarrow> db \<Rightarrow> bool \<times> db" where
  "mark_enrollment_token_consumed hash now d =
     (hash \<in> set (map enr_hash (enrollments d)),
      d\<lparr>enrollments := upd_by enr_hash hash (\<lambda>r. r\<lparr>enr_consumed := Some now\<rparr>) (enrollments d)\<rparr>)"

section \<open>Redeeming\<close>

lemma consume_is_peek_then_mark:
  "consume_enrollment_token L raw now d =
     (case peek_enrollment_token L raw now d of
        None \<Rightarrow> (None, d)
      | Some rec \<Rightarrow> (Some (rec\<lparr>rec_consumed := now\<rparr>),
                    snd (mark_enrollment_token_consumed (rec_hash rec) now d)))"
  by (simp add: consume_enrollment_token_def peek_enrollment_token_def Let_def
      mark_enrollment_token_consumed_def split: option.splits)

lemma peek_SomeE:
  assumes "peek_enrollment_token L raw now d = Some rec"
  obtains r where "length (hex_to_bytes raw) = 32"
    and "sel_by enr_hash (generichash L (hex_to_bytes raw)) (enrollments d) = Some r"
    and "now < enr_expires r" and "enr_consumed r = None"
    and "rec_hash rec = generichash L (hex_to_bytes raw)" and "rec_email rec = c_str (enr_email r)"
  using assms by (auto simp: peek_enrollment_token_def Let_def split: if_splits option.splits)

lemma peek_mark_succeeds:
  assumes "peek_enrollment_token L raw now d = Some rec"
  shows "fst (mark_enrollment_token_consumed (rec_hash rec) t d)"
  using assms
proof (rule peek_SomeE)
  fix r
  assume "sel_by enr_hash (generichash L (hex_to_bytes raw)) (enrollments d) = Some r"
    and h: "rec_hash rec = generichash L (hex_to_bytes raw)"
  then have "r \<in> set (enrollments d)" "enr_hash r = rec_hash rec"
    by (auto dest: sel_by_Some)
  then show ?thesis by (force simp: mark_enrollment_token_consumed_def)
qed

text \<open>A token whose row has been marked.\<close>

definition token_spent :: "byte list \<Rightarrow> db \<Rightarrow> bool" where
  "token_spent hash d \<longleftrightarrow>
     (case sel_by enr_hash hash (enrollments d) of None \<Rightarrow> False | Some r \<Rightarrow> enr_consumed r \<noteq> None)"

lemma spent_not_peeked:
  "token_spent (generichash L (hex_to_bytes raw)) d \<Longrightarrow> peek_enrollment_token L raw now d = None"
  by (auto simp: token_spent_def peek_enrollment_token_def Let_def split: option.splits)

lemma mark_spends:
  "fst (mark_enrollment_token_consumed hash now d) \<Longrightarrow>
     token_spent hash (snd (mark_enrollment_token_consumed hash now d))"
  using sel_by_None [of enr_hash hash "enrollments d"]
  by (auto simp: token_spent_def mark_enrollment_token_consumed_def sel_by_upd_by
           split: option.splits)

lemma token_spent_mark:
  "token_spent h d \<Longrightarrow> token_spent h (snd (mark_enrollment_token_consumed hash now d))"
  by (auto simp: token_spent_def mark_enrollment_token_consumed_def sel_by_upd_by
           split: option.splits)

lemma token_spent_persist:
  "token_spent h d \<Longrightarrow> token_spent h (snd (persist_enrollment_token E tok email d))"
  by (auto simp: token_spent_def persist_enrollment_token_def insert_enrollment_Some sel_by_append
           split: option.splits)

lemma token_spent_cong: "enrollments d' = enrollments d \<Longrightarrow> token_spent h d' = token_spent h d"
  by (simp add: token_spent_def)

lemma mark_ok: "db_ok d \<Longrightarrow> db_ok (snd (mark_enrollment_token_consumed hash now d))"
  by (simp add: mark_enrollment_token_consumed_def integrity_simps)

lemma persist_ok: "db_ok d \<Longrightarrow> db_ok (snd (persist_enrollment_token E tok email d))"
  by (auto simp: persist_enrollment_token_def insert_enrollment_ok split: option.splits)

lemma mark_frame [simp]:
  "users (snd (mark_enrollment_token_consumed hash now d)) = users d"
  "sessions (snd (mark_enrollment_token_consumed hash now d)) = sessions d"
  "audit_log (snd (mark_enrollment_token_consumed hash now d)) = audit_log d"
  by (simp_all add: mark_enrollment_token_consumed_def)

end
