(* ===== verification/Rate_Limit.thy ===== *)
theory Rate_Limit
  imports Greylock_Prelude
begin

text \<open>
  The in-process login rate limiter (\<open>server/auth/AuthHandlers.cpp\<close>,
  \<open>AuthRateLimitInternal.h\<close>): a map from a key to a counter and the start of its window, bounded
  in size.  The hash map is an association list with distinct keys; \<open>erase\<close> filters, \<open>operator[]\<close>
  inserts a zeroed bucket at the end.

  The lemmas bound the map and the number of requests let through per window, and show that a
  key's budget is untouched by requests for other keys.
\<close>

definition kRateLimitMax :: int where
  "kRateLimitMax = 5"

definition kRateLimitWindowSecs :: int where
  "kRateLimitWindowSecs = 15 * 60"

definition kMaxRateBuckets :: nat where
  "kMaxRateBuckets = 10000"

record rate_bucket =
  rb_count :: int
  rb_start :: int

type_synonym buckets = "(string \<times> rate_bucket) list"

definition window_expired :: "int \<Rightarrow> rate_bucket \<Rightarrow> bool" where
  "window_expired t b \<longleftrightarrow> t - rb_start b \<ge> kRateLimitWindowSecs"

definition sweep :: "int \<Rightarrow> buckets \<Rightarrow> buckets" where
  "sweep t m = filter (\<lambda>(k, b). \<not> window_expired t b) m"

text \<open>\<open>m[key]\<close>: the bucket, inserted with its default members when the key is absent.\<close>

definition bucket_at :: "string \<Rightarrow> buckets \<Rightarrow> rate_bucket" where
  "bucket_at key m = (case map_of m key of None \<Rightarrow> \<lparr>rb_count = 0, rb_start = 0\<rparr> | Some b \<Rightarrow> b)"

definition store_bucket :: "string \<Rightarrow> rate_bucket \<Rightarrow> buckets \<Rightarrow> buckets" where
  "store_bucket key b m =
     (if key \<in> fst ` set m then map (\<lambda>(k, c). if k = key then (k, b) else (k, c)) m
      else m @ [(key, b)])"

definition reset_window :: "int \<Rightarrow> rate_bucket \<Rightarrow> rate_bucket" where
  "reset_window t b = (if window_expired t b then \<lparr>rb_count = 0, rb_start = t\<rparr> else b)"

text \<open>The part of \<open>rate_limit_check\<close> after room has been made: count or refuse.\<close>

definition count_request :: "string \<Rightarrow> int \<Rightarrow> buckets \<Rightarrow> bool \<times> buckets" where
  "count_request key t m =
     (let b = reset_window t (bucket_at key m) in
      if rb_count b \<ge> kRateLimitMax then (True, store_bucket key b m)
      else (False, store_bucket key (b\<lparr>rb_count := rb_count b + 1\<rparr>) m))"

definition rate_limit_check :: "string \<Rightarrow> int \<Rightarrow> buckets \<Rightarrow> bool \<times> buckets" where
  "rate_limit_check key t m =
     (if key \<notin> fst ` set m \<and> length m \<ge> kMaxRateBuckets
      then let m' = sweep t m in
           if length m' \<ge> kMaxRateBuckets then (True, m') else count_request key t m'
      else count_request key t m)"

section \<open>The map\<close>

definition buckets_ok :: "buckets \<Rightarrow> bool" where
  "buckets_ok m \<longleftrightarrow> distinct (map fst m) \<and> length m \<le> kMaxRateBuckets \<and>
     list_all (\<lambda>(k, b). 0 \<le> rb_count b \<and> rb_count b \<le> kRateLimitMax) m"

lemma store_bucket_keys:
  "fst ` set (store_bucket key b m) = insert key (fst ` set m)"
  by (force simp: store_bucket_def image_iff)

lemma store_bucket_distinct: "distinct (map fst m) \<Longrightarrow> distinct (map fst (store_bucket key b m))"
proof -
  assume d: "distinct (map fst m)"
  have "map fst (map (\<lambda>(k, c). if k = key then (k, b) else (k, c)) m) = map fst m"
    by (induction m) auto
  with d show ?thesis by (simp add: store_bucket_def del: map_map)
qed

lemma length_store_bucket:
  "length (store_bucket key b m) = (if key \<in> fst ` set m then length m else Suc (length m))"
  by (simp add: store_bucket_def)

lemma map_of_store_bucket:
  "map_of (store_bucket key b m) k = (if k = key then Some b else map_of m k)"
proof (cases "key \<in> fst ` set m")
  case True
  have "map_of (map (\<lambda>(k, c). if k = key then (k, b) else (k, c)) m) k =
      (if k = key then map_option (\<lambda>_. b) (map_of m k) else map_of m k)"
    by (induction m) auto
  moreover have "map_of m key \<noteq> None" using True by (simp add: map_of_eq_None_iff)
  ultimately show ?thesis using True by (auto simp: store_bucket_def)
next
  case False
  then have "map_of m key = None" by (simp add: map_of_eq_None_iff)
  with False show ?thesis by (auto simp: store_bucket_def map_add_def split: option.splits)
qed

lemma set_store_bucketD: "x \<in> set (store_bucket key b m) \<Longrightarrow> x = (key, b) \<or> x \<in> set m"
  by (cases x) (auto simp: store_bucket_def split: if_splits)

lemma bucket_at_store [simp]: "bucket_at key (store_bucket key b m) = b"
  by (simp add: bucket_at_def map_of_store_bucket)

lemma bucket_at_ok:
  assumes "buckets_ok m"
  shows "0 \<le> rb_count (bucket_at key m) \<and> rb_count (bucket_at key m) \<le> kRateLimitMax"
  using assms
  by (fastforce simp: bucket_at_def buckets_ok_def list_all_iff kRateLimitMax_def
      split: option.splits dest: map_of_SomeD)

lemma count_request_ok:
  assumes "buckets_ok m" and "key \<in> fst ` set m \<or> length m < kMaxRateBuckets"
  shows "buckets_ok (snd (count_request key t m))"
proof -
  have b: "0 \<le> rb_count (reset_window t (bucket_at key m)) \<and>
      rb_count (reset_window t (bucket_at key m)) \<le> kRateLimitMax"
    using bucket_at_ok [OF assms(1)] by (simp add: reset_window_def kRateLimitMax_def)
  have store: "buckets_ok (store_bucket key c m)" if "0 \<le> rb_count c" "rb_count c \<le> kRateLimitMax" for c
    using assms that
  proof -
    have "distinct (map fst (store_bucket key c m))"
      using assms(1) by (simp add: buckets_ok_def store_bucket_distinct)
    moreover have "length (store_bucket key c m) \<le> kMaxRateBuckets"
      using assms by (auto simp: length_store_bucket buckets_ok_def)
    moreover have "list_all (\<lambda>(k, b). 0 \<le> rb_count b \<and> rb_count b \<le> kRateLimitMax) (store_bucket key c m)"
      using assms(1) that set_store_bucketD by (fastforce simp: buckets_ok_def list_all_iff)
    ultimately show ?thesis by (simp add: buckets_ok_def)
  qed
  show ?thesis
    using b store by (auto simp: count_request_def Let_def not_le kRateLimitMax_def)
qed

lemma sweep_ok: "buckets_ok m \<Longrightarrow> buckets_ok (sweep t m)"
  unfolding buckets_ok_def sweep_def list_all_iff
  by (auto simp: distinct_map_filter intro: le_trans [OF length_filter_le])

lemma rate_limit_check_ok: "buckets_ok m \<Longrightarrow> buckets_ok (snd (rate_limit_check key t m))"
  by (auto simp: rate_limit_check_def Let_def sweep_ok count_request_ok not_le)

section \<open>The budget of a key\<close>

text \<open>
  The requests a key has left in the window that is open at \<open>t\<close>, and a run of the limiter over a
  list of requests with the answers it gives.
\<close>

fun run_limiter :: "(string \<times> int) list \<Rightarrow> buckets \<Rightarrow> bool list \<times> buckets" where
  "run_limiter [] m = ([], m)"
| "run_limiter ((key, t) # reqs) m =
     (let (limited, m') = rate_limit_check key t m;
          (rest, m'') = run_limiter reqs m'
      in (limited # rest, m''))"

lemma run_limiter_ok: "buckets_ok m \<Longrightarrow> buckets_ok (snd (run_limiter reqs m))"
proof (induction reqs arbitrary: m)
  case (Cons r reqs)
  obtain k t where r: "r = (k, t)" by (cases r)
  have "buckets_ok (snd (run_limiter reqs (snd (rate_limit_check k t m))))"
    using Cons rate_limit_check_ok by blast
  then show ?case by (simp add: r split_def Let_def)
qed simp

text \<open>While a window is open and the key has a bucket, its start never moves.\<close>

definition open_bucket :: "string \<Rightarrow> int \<Rightarrow> int \<Rightarrow> buckets \<Rightarrow> bool" where
  "open_bucket key w n m \<longleftrightarrow> map_of m key = Some \<lparr>rb_count = n, rb_start = w\<rparr>"

lemma sweep_keeps_open:
  assumes "open_bucket key w n m" and "t < w + kRateLimitWindowSecs" and "distinct (map fst m)"
  shows "open_bucket key w n (sweep t m)"
proof -
  have "(key, \<lparr>rb_count = n, rb_start = w\<rparr>) \<in> set (sweep t m)"
    using assms(1,2) by (auto simp: open_bucket_def sweep_def window_expired_def dest: map_of_SomeD)
  moreover have "distinct (map fst (sweep t m))"
    using assms(3) by (simp add: sweep_def distinct_map_filter)
  ultimately show ?thesis by (simp add: open_bucket_def)
qed

lemma check_other_key:
  assumes "open_bucket key w n m" and "t < w + kRateLimitWindowSecs" and "distinct (map fst m)"
    and "k \<noteq> key"
  shows "open_bucket key w n (snd (rate_limit_check k t m))"
proof -
  have "open_bucket key w n (snd (count_request k t m'))" if "open_bucket key w n m'" for m'
    using that assms(4) by (simp add: count_request_def Let_def open_bucket_def map_of_store_bucket)
  then show ?thesis
    using assms(1) sweep_keeps_open [OF assms(1,2,3)] by (simp add: rate_limit_check_def Let_def)
qed

lemma check_same_key:
  assumes "open_bucket key w n m" and "t < w + kRateLimitWindowSecs"
  shows "rate_limit_check key t m =
    (if n \<ge> kRateLimitMax then (True, store_bucket key \<lparr>rb_count = n, rb_start = w\<rparr> m)
     else (False, store_bucket key \<lparr>rb_count = n + 1, rb_start = w\<rparr> m))"
proof -
  have "key \<in> fst ` set m" using assms(1) by (force simp: open_bucket_def dest: map_of_SomeD)
  then show ?thesis
    using assms
    by (simp add: rate_limit_check_def count_request_def Let_def bucket_at_def open_bucket_def
        reset_window_def window_expired_def)
qed

text \<open>How many of the requests for a key were let through.\<close>

definition passed :: "string \<Rightarrow> (string \<times> int) list \<Rightarrow> bool list \<Rightarrow> nat" where
  "passed key reqs ans = length (filter (\<lambda>((k, t), limited). k = key \<and> \<not> limited) (zip reqs ans))"

lemma passed_Cons:
  "passed key ((k, t) # reqs) (a # ans) = (if k = key \<and> \<not> a then 1 else 0) + passed key reqs ans"
  by (simp add: passed_def)

lemma window_budget:
  assumes "buckets_ok m" and "open_bucket key w n m" and "0 \<le> n" and "n \<le> kRateLimitMax"
    and "\<forall>(k, t) \<in> set reqs. t < w + kRateLimitWindowSecs"
  shows "int (passed key reqs (fst (run_limiter reqs m))) + n \<le> kRateLimitMax"
  using assms
proof (induction reqs arbitrary: m n)
  case Nil
  then show ?case by (simp add: passed_def)
next
  case (Cons r reqs)
  obtain k t where r: "r = (k, t)" by (cases r)
  let ?m' = "snd (rate_limit_check k t m)"
  have t: "t < w + kRateLimitWindowSecs" using Cons.prems(5) r by simp
  have ok: "buckets_ok ?m'" using Cons.prems(1) by (rule rate_limit_check_ok)
  have split: "passed key (r # reqs) (fst (run_limiter (r # reqs) m)) =
      (if k = key \<and> \<not> fst (rate_limit_check k t m) then 1 else 0) +
      passed key reqs (fst (run_limiter reqs ?m'))"
    by (simp add: r passed_Cons split_def Let_def)
  show ?case
  proof (cases "k = key")
    case True
    note chk = check_same_key [OF Cons.prems(2) t, folded True]
    show ?thesis
    proof (cases "n \<ge> kRateLimitMax")
      case True
      then have "open_bucket key w n ?m'"
        using chk \<open>k = key\<close> by (simp add: open_bucket_def map_of_store_bucket)
      then have "int (passed key reqs (fst (run_limiter reqs ?m'))) + n \<le> kRateLimitMax"
        using Cons.IH ok Cons.prems(3-5) by simp
      with True chk split show ?thesis by simp
    next
      case False
      then have "open_bucket key w (n + 1) ?m'"
        using chk \<open>k = key\<close> by (simp add: open_bucket_def map_of_store_bucket)
      then have "int (passed key reqs (fst (run_limiter reqs ?m'))) + (n + 1) \<le> kRateLimitMax"
        using False Cons.prems(3-5) by (intro Cons.IH ok) simp_all
      with False chk split \<open>k = key\<close> show ?thesis by simp
    qed
  next
    case False
    have "open_bucket key w n ?m'"
      using check_other_key [OF Cons.prems(2) t _ False] Cons.prems(1) by (simp add: buckets_ok_def)
    then have "int (passed key reqs (fst (run_limiter reqs ?m'))) + n \<le> kRateLimitMax"
      using Cons.IH ok Cons.prems(3-5) by simp
    with False split show ?thesis by simp
  qed
qed

end
