(* ===== verification/Hmac_Sha1.thy ===== *)
theory Hmac_Sha1
  imports Greylock_Prelude
begin

text \<open>
  The self-contained HMAC-SHA1 (\<open>server/auth/HmacSha1.h\<close>): a streaming SHA-1 state with a 64-byte
  buffer, and HMAC over it.  \<open>uint32_t\<close> and \<open>uint64_t\<close> are words, so additions wrap.

  The reference is the one-shot definition of RFC 3174 (pad the message, cut it into blocks, fold
  the compression function); the lemmas show that \<open>update\<close> and \<open>finalize\<close> compute it however the
  message is split over calls, and that HMAC is the formula of RFC 2104 over that reference.
\<close>

section \<open>The compression function\<close>

definition rot32 :: "32 word \<Rightarrow> nat \<Rightarrow> 32 word" where
  "rot32 x n = push_bit n x OR drop_bit (32 - n) x"

text \<open>The 64-byte buffer and the counters of \<open>Sha1State\<close>.\<close>

record sha1_state =
  sha_h :: "32 word list"
  sha_len_bits :: "64 word"
  sha_buf :: "byte list"
  sha_used :: nat

definition initial_h :: "32 word list" where
  "initial_h = [0x67452301, 0xEFCDAB89, 0x98BADCFE, 0x10325476, 0xC3D2E1F0]"

definition sha1_init :: sha1_state where
  "sha1_init = \<lparr>sha_h = initial_h, sha_len_bits = 0, sha_buf = replicate 64 0, sha_used = 0\<rparr>"

definition message_word :: "byte list \<Rightarrow> nat \<Rightarrow> 32 word" where
  "message_word b i =
     push_bit 24 (ucast (b ! (i * 4))) OR push_bit 16 (ucast (b ! (i * 4 + 1))) OR
     push_bit 8 (ucast (b ! (i * 4 + 2))) OR ucast (b ! (i * 4 + 3))"

definition schedule :: "byte list \<Rightarrow> 32 word list" where
  "schedule b =
     fold (\<lambda>i w. w @ [rot32 (w ! (i - 3) XOR w ! (i - 8) XOR w ! (i - 14) XOR w ! (i - 16)) 1])
       [16..<80] (map (message_word b) [0..<16])"

type_synonym round_vars = "32 word \<times> 32 word \<times> 32 word \<times> 32 word \<times> 32 word"

definition round_fk :: "nat \<Rightarrow> 32 word \<Rightarrow> 32 word \<Rightarrow> 32 word \<Rightarrow> 32 word \<times> 32 word" where
  "round_fk i b2 c d =
     (if i < 20 then ((b2 AND c) OR (NOT b2 AND d), 0x5A827999)
      else if i < 40 then (b2 XOR c XOR d, 0x6ED9EBA1)
      else if i < 60 then ((b2 AND c) OR (b2 AND d) OR (c AND d), 0x8F1BBCDC)
      else (b2 XOR c XOR d, 0xCA62C1D6))"

fun round_step :: "32 word list \<Rightarrow> nat \<Rightarrow> round_vars \<Rightarrow> round_vars" where
  "round_step w i (a, b2, c, d, e) =
     (let (f, k) = round_fk i b2 c d;
          tmp = rot32 a 5 + f + e + k + w ! i
      in (tmp, a, rot32 b2 30, c, d))"

definition compress :: "byte list \<Rightarrow> 32 word list \<Rightarrow> 32 word list" where
  "compress block h =
     (let w = schedule block;
          (a, b2, c, d, e) = fold (round_step w) [0..<80] (h ! 0, h ! 1, h ! 2, h ! 3, h ! 4)
      in [h ! 0 + a, h ! 1 + b2, h ! 2 + c, h ! 3 + d, h ! 4 + e])"

definition process_block :: "byte list \<Rightarrow> sha1_state \<Rightarrow> sha1_state" where
  "process_block b st = st\<lparr>sha_h := compress b (sha_h st)\<rparr>"

section \<open>Streaming\<close>

text \<open>\<open>memcpy(buf + used, src, n)\<close>.\<close>

definition copy_into :: "byte list \<Rightarrow> nat \<Rightarrow> byte list \<Rightarrow> byte list" where
  "copy_into buf used src = take used buf @ src @ drop (used + length src) buf"

text \<open>
  The loop of \<open>update\<close>.  At its head fewer than 64 bytes are buffered (\<open>update_loop_absorbs\<close>
  keeps it so), hence each turn consumes a byte; with a full buffer the code would not return.
\<close>

function update_loop :: "byte list \<Rightarrow> sha1_state \<Rightarrow> sha1_state" where
  "update_loop data st =
     (if data = [] \<or> 64 \<le> sha_used st then st
      else
        let copy = min (length data) (64 - sha_used st);
            st1 = st\<lparr>sha_buf := copy_into (sha_buf st) (sha_used st) (take copy data),
                     sha_used := sha_used st + copy\<rparr>;
            st2 = (if sha_used st1 = 64 then (process_block (sha_buf st1) st1)\<lparr>sha_used := 0\<rparr> else st1)
        in update_loop (drop copy data) st2)"
  by pat_completeness auto

termination
  by (relation "measure (\<lambda>(data, st). length data)") auto

declare update_loop.simps [simp del]

definition update :: "byte list \<Rightarrow> sha1_state \<Rightarrow> sha1_state" where
  "update data st = update_loop data (st\<lparr>sha_len_bits := sha_len_bits st + of_nat (length data) * 8\<rparr>)"

text \<open>\<open>while (buf_used < n) buf[buf_used++] = 0\<close>.\<close>

definition zero_fill :: "nat \<Rightarrow> sha1_state \<Rightarrow> sha1_state" where
  "zero_fill n st =
     st\<lparr>sha_buf := fold (\<lambda>i b. b[i := 0]) [sha_used st..<n] (sha_buf st),
        sha_used := max (sha_used st) n\<rparr>"

definition length_byte :: "64 word \<Rightarrow> nat \<Rightarrow> byte" where
  "length_byte len i = ucast (drop_bit (56 - i * 8) len AND 0xFF)"

definition put_length :: "sha1_state \<Rightarrow> sha1_state" where
  "put_length st =
     st\<lparr>sha_buf := fold (\<lambda>i b. b[56 + i := length_byte (sha_len_bits st) i]) [0..<8] (sha_buf st)\<rparr>"

definition digest_bytes :: "32 word list \<Rightarrow> byte list" where
  "digest_bytes h =
     concat (map (\<lambda>i. [ucast (drop_bit 24 (h ! i)), ucast (drop_bit 16 (h ! i)),
                       ucast (drop_bit 8 (h ! i)), ucast (h ! i)]) [0..<5])"

definition finalize :: "sha1_state \<Rightarrow> byte list" where
  "finalize st =
     (let st1 = st\<lparr>sha_buf := (sha_buf st)[sha_used st := 0x80], sha_used := sha_used st + 1\<rparr>;
          st2 = (if sha_used st1 > 56
                 then let z = zero_fill 64 st1 in (process_block (sha_buf z) z)\<lparr>sha_used := 0\<rparr>
                 else st1);
          st3 = put_length (zero_fill 56 st2);
          st4 = process_block (sha_buf st3) st3
      in digest_bytes (sha_h st4))"

definition kDigestLen :: nat where
  "kDigestLen = 20"

definition kBlockLen :: nat where
  "kBlockLen = 64"

definition hmac_key_block :: "byte list \<Rightarrow> byte list" where
  "hmac_key_block key =
     (if length key > kBlockLen
      then copy_into (replicate kBlockLen 0) 0 (finalize (update key sha1_init))
      else copy_into (replicate kBlockLen 0) 0 key)"

definition hmac :: "byte list \<Rightarrow> byte list \<Rightarrow> byte list" where
  "hmac key msg =
     (let k = hmac_key_block key;
          ipad = map (\<lambda>b. b XOR 0x36) k;
          opad = map (\<lambda>b. b XOR 0x5C) k;
          inner_digest = finalize (update msg (update ipad sha1_init))
      in finalize (update inner_digest (update opad sha1_init)))"

section \<open>The one-shot reference\<close>

fun blocks :: "byte list \<Rightarrow> byte list list" where
  "blocks m = (if length m < 64 then [] else take 64 m # blocks (drop 64 m))"

fun remainder :: "byte list \<Rightarrow> byte list" where
  "remainder m = (if length m < 64 then m else remainder (drop 64 m))"

declare blocks.simps [simp del] remainder.simps [simp del]

definition length_field :: "byte list \<Rightarrow> byte list" where
  "length_field m = map (length_byte (of_nat (8 * length m))) [0..<8]"

definition padding :: "byte list \<Rightarrow> byte list" where
  "padding m =
     (let r = length m mod 64 in
      0x80 # replicate (if r < 56 then 55 - r else 119 - r) 0 @ length_field m)"

definition sha1 :: "byte list \<Rightarrow> byte list" where
  "sha1 m = digest_bytes (fold compress (blocks (m @ padding m)) initial_h)"

definition pad_key :: "byte list \<Rightarrow> byte list" where
  "pad_key key = (if length key > 64 then sha1 key @ replicate 44 0 else key @ replicate (64 - length key) 0)"

definition hmac_spec :: "byte list \<Rightarrow> byte list \<Rightarrow> byte list" where
  "hmac_spec key msg =
     sha1 (map (\<lambda>b. b XOR 0x5C) (pad_key key) @ sha1 (map (\<lambda>b. b XOR 0x36) (pad_key key) @ msg))"

lemma length_digest_bytes [simp]: "length (digest_bytes h) = 20"
  by (simp add: digest_bytes_def upt_rec)

lemma length_sha1 [simp]: "length (sha1 m) = 20"
  by (simp add: sha1_def)

lemma length_finalize [simp]: "length (finalize st) = 20"
  by (simp add: finalize_def Let_def)

lemma remainder_length: "length (remainder m) = length m mod 64"
  by (induction m rule: remainder.induct) (simp add: remainder.simps le_mod_geq)

lemma append_within_block:
  "length (remainder m) + length x < 64 \<Longrightarrow>
     blocks (m @ x) = blocks m \<and> remainder (m @ x) = remainder m @ x"
proof (induction m rule: blocks.induct)
  case (1 m)
  then show ?case
    by (cases "length m < 64") (simp_all add: blocks.simps [of m] remainder.simps [of m]
        blocks.simps [of "m @ x"] remainder.simps [of "m @ x"])
qed

lemma append_full_block:
  "length (remainder m) + length x = 64 \<Longrightarrow>
     blocks (m @ x) = blocks m @ [remainder m @ x] \<and> remainder (m @ x) = []"
proof (induction m rule: blocks.induct)
  case (1 m)
  have "blocks [] = []" "remainder [] = []" by (simp_all add: blocks.simps remainder.simps)
  with 1 show ?case
    by (cases "length m < 64") (simp_all add: blocks.simps [of m] remainder.simps [of m]
        blocks.simps [of "m @ x"] remainder.simps [of "m @ x"])
qed

section \<open>Streaming computes the reference\<close>

text \<open>The state after the message \<open>m\<close> has been fed.\<close>

definition absorbed :: "byte list \<Rightarrow> sha1_state \<Rightarrow> bool" where
  "absorbed m st \<longleftrightarrow>
     sha_h st = fold compress (blocks m) initial_h \<and> length (sha_buf st) = 64 \<and>
     sha_used st = length (remainder m) \<and> take (sha_used st) (sha_buf st) = remainder m"

lemma absorbed_init: "absorbed [] sha1_init"
  by (simp add: absorbed_def sha1_init_def blocks.simps remainder.simps)

lemma remainder_lt: "length (remainder m) < 64"
  by (simp add: remainder_length)

lemma absorbed_used: "absorbed m st \<Longrightarrow> sha_used st < 64"
  by (simp add: absorbed_def remainder_lt)

lemma absorbed_len [simp]: "absorbed m (st\<lparr>sha_len_bits := n\<rparr>) = absorbed m st"
  by (simp add: absorbed_def)

lemma copy_into_take:
  "used \<le> length buf \<Longrightarrow> take (used + length src) (copy_into buf used src) = take used buf @ src"
  by (simp add: copy_into_def)

lemma length_copy_into: "used + length src \<le> length buf \<Longrightarrow> length (copy_into buf used src) = length buf"
  by (simp add: copy_into_def)

lemma update_loop_absorbs:
  "absorbed m st \<Longrightarrow> absorbed (m @ data) (update_loop data st) \<and>
     sha_len_bits (update_loop data st) = sha_len_bits st"
proof (induction data st arbitrary: m rule: update_loop.induct)
  case (1 data st)
  show ?case
  proof (cases "data = []")
    case True
    with 1(2) show ?thesis by (simp add: update_loop.simps)
  next
    case False
    let ?n = "min (length data) (64 - sha_used st)"
    let ?x = "take ?n data"
    let ?st1 = "st\<lparr>sha_buf := copy_into (sha_buf st) (sha_used st) ?x, sha_used := sha_used st + ?n\<rparr>"
    let ?st2 = "if sha_used ?st1 = 64 then (process_block (sha_buf ?st1) ?st1)\<lparr>sha_used := 0\<rparr> else ?st1"
    from 1(2) have used: "sha_used st < 64" by (rule absorbed_used)
    from 1(2) have st: "sha_h st = fold compress (blocks m) initial_h" "length (sha_buf st) = 64"
      "sha_used st = length (remainder m)" "take (sha_used st) (sha_buf st) = remainder m"
      by (auto simp only: absorbed_def)
    have len: "length ?x = ?n" by simp
    have buf: "take (sha_used st + ?n) (sha_buf ?st1) = remainder m @ ?x"
      using copy_into_take [of "sha_used st" "sha_buf st" ?x] st used by simp
    have lbuf: "length (sha_buf ?st1) = 64"
      using length_copy_into [of "sha_used st" ?x "sha_buf st"] st used by simp
    have step: "absorbed (m @ ?x) ?st2"
    proof (cases "sha_used st + ?n = 64")
      case True
      then have full: "length (remainder m) + length ?x = 64" using st(3) len by simp
      from True buf lbuf have "sha_buf ?st1 = remainder m @ ?x" by simp
      with True show ?thesis
        using append_full_block [OF full] st(1) lbuf
        by (simp add: absorbed_def process_block_def)
    next
      case False
      then have "length (remainder m) + length ?x < 64" using st(3) len used by simp
      note w = append_within_block [OF this]
      have "length (remainder (m @ ?x)) = sha_used st + ?n" using w st(3) len by simp
      with False show ?thesis
        using w st(1) lbuf buf by (simp add: absorbed_def)
    qed
    have eq: "update_loop data st = update_loop (drop ?n data) ?st2"
      using False used by (subst update_loop.simps) (simp add: Let_def)
    have "absorbed ((m @ ?x) @ drop ?n data) (update_loop (drop ?n data) ?st2) \<and>
        sha_len_bits (update_loop (drop ?n data) ?st2) = sha_len_bits ?st2"
      using False used by (intro 1(1) [OF _ refl refl refl step]) simp
    moreover have "sha_len_bits ?st2 = sha_len_bits st" by (simp add: process_block_def)
    moreover have "(m @ ?x) @ drop ?n data = m @ data" by simp
    ultimately show ?thesis by (simp only: eq)
  qed
qed

lemma fold_zero_fill:
  "u \<le> n \<Longrightarrow> n \<le> length b \<Longrightarrow>
     fold (\<lambda>i b. b[i := 0]) [u..<n] b = take u b @ replicate (n - u) 0 @ drop n b"
proof (induction n)
  case (Suc n)
  show ?case
  proof (cases "u = Suc n")
    case False
    with Suc have "fold (\<lambda>i b. b[i := 0]) [u..<n] b = take u b @ replicate (n - u) 0 @ drop n b"
      and "u \<le> n" and "n < length b" by auto
    then show ?thesis
      by (simp add: list_update_append Suc_diff_le replicate_append_same Cons_nth_drop_Suc [symmetric]
          flip: replicate_append_same)
  qed simp
qed simp

lemma fold_put_length:
  "length b = 64 \<Longrightarrow>
     fold (\<lambda>i b. b[56 + i := f i]) [0..<8] b = take 56 b @ map f [0..<8]"
proof -
  assume len: "length b = 64"
  have "n \<le> 8 \<Longrightarrow> fold (\<lambda>i b. b[56 + i := f i]) [0..<n] b = take 56 b @ map f [0..<n] @ drop (56 + n) b" for n
  proof (induction n)
    case (Suc n)
    with len show ?case
      by (simp add: list_update_append Cons_nth_drop_Suc [symmetric])
  qed simp
  from this [of 8] len show ?thesis by simp
qed

lemma length_length_field [simp]: "length (length_field m) = 8"
  by (simp add: length_field_def)

lemma put_length_buf:
  "length (sha_buf st) = 64 \<Longrightarrow> sha_len_bits st = of_nat (8 * length m) \<Longrightarrow>
     sha_buf (put_length st) = take 56 (sha_buf st) @ length_field m"
  using fold_put_length [of "sha_buf st"] by (simp add: put_length_def length_field_def)

text \<open>The last one or two blocks \<open>finalize\<close> compresses are the padded rest of the message.\<close>

lemma finalize_absorbed:
  assumes a: "absorbed m st" and len: "sha_len_bits st = of_nat (8 * length m)"
  shows "finalize st = sha1 m"
proof -
  let ?r = "remainder m" and ?u = "length (remainder m)"
  let ?st1 = "st\<lparr>sha_buf := (sha_buf st)[sha_used st := 0x80], sha_used := sha_used st + 1\<rparr>"
  from a have st: "sha_h st = fold compress (blocks m) initial_h" "length (sha_buf st) = 64"
    "sha_used st = ?u" "take ?u (sha_buf st) = ?r"
    by (auto simp only: absorbed_def)
  have u: "?u < 64" by (rule remainder_lt)
  have umod: "length m mod 64 = ?u" by (simp add: remainder_length)
  have buf1: "take (?u + 1) (sha_buf ?st1) = ?r @ [0x80]"
    using st u by (simp add: take_Suc_conv_app_nth)
  have lbuf1: "length (sha_buf ?st1) = 64" using st by simp
  show ?thesis
  proof (cases "?u < 56")
    case True
    let ?p = "0x80 # replicate (55 - ?u) 0 @ length_field m"
    have pad: "padding m = ?p" using True by (simp add: padding_def umod)
    have fill: "sha_buf (zero_fill 56 ?st1) = (?r @ [0x80]) @ replicate (55 - ?u) 0 @ drop 56 (sha_buf ?st1)"
      using True fold_zero_fill [of "?u + 1" 56 "sha_buf ?st1"] lbuf1 buf1 st(3)
      by (simp add: zero_fill_def)
    have "sha_buf (put_length (zero_fill 56 ?st1)) = take 56 (sha_buf (zero_fill 56 ?st1)) @ length_field m"
      using True fill lbuf1 len by (intro put_length_buf) (simp_all add: zero_fill_def)
    also have "take 56 (sha_buf (zero_fill 56 ?st1)) = ?r @ 0x80 # replicate (55 - ?u) 0"
    proof -
      have "length (?r @ 0x80 # replicate (55 - ?u) 0) = 56" using True by simp
      then have "take 56 ((?r @ 0x80 # replicate (55 - ?u) 0) @ b) = ?r @ 0x80 # replicate (55 - ?u) 0" for b
        by (metis append_eq_conv_conj)
      then show ?thesis unfolding fill by simp
    qed
    finally have last: "sha_buf (put_length (zero_fill 56 ?st1)) = ?r @ ?p" by simp
    have "blocks (m @ ?p) = blocks m @ [?r @ ?p]"
      using True by (intro conjunct1 [OF append_full_block]) simp
    moreover have "finalize st = digest_bytes (compress (sha_buf (put_length (zero_fill 56 ?st1))) (sha_h st))"
      using True st(3) by (simp add: finalize_def Let_def process_block_def put_length_def zero_fill_def)
    ultimately show ?thesis
      by (simp only: last sha1_def pad st(1) fold_append fold.simps o_def id_apply)
  next
    case False
    let ?z = "zero_fill 64 ?st1"
    let ?st2 = "(process_block (sha_buf ?z) ?z)\<lparr>sha_used := 0\<rparr>"
    let ?p1 = "0x80 # replicate (63 - ?u) 0" and ?p2 = "replicate 56 0 @ length_field m"
    have n: "119 - ?u = (63 - ?u) + 56" using u by simp
    have "replicate (119 - ?u) (0 :: byte) = replicate (63 - ?u) 0 @ replicate 56 0"
      unfolding n by (rule replicate_add)
    then have pad: "padding m = ?p1 @ ?p2"
      using False by (simp add: padding_def umod Let_def)
    have fill: "sha_buf ?z = ?r @ ?p1"
      using u fold_zero_fill [of "?u + 1" 64 "sha_buf ?st1"] lbuf1 buf1 st(3)
      by (simp add: zero_fill_def)
    have "length (sha_buf ?st2) = 64" using fill u by (simp add: process_block_def)
    then have fill2: "sha_buf (zero_fill 56 ?st2) = replicate 56 0 @ drop 56 (sha_buf ?st2)"
      using fold_zero_fill [of 0 56 "sha_buf ?st2"] by (simp add: zero_fill_def)
    have "sha_buf (put_length (zero_fill 56 ?st2)) = take 56 (sha_buf (zero_fill 56 ?st2)) @ length_field m"
      using fill2 \<open>length (sha_buf ?st2) = 64\<close> len
      by (intro put_length_buf) (simp_all add: zero_fill_def process_block_def)
    then have last: "sha_buf (put_length (zero_fill 56 ?st2)) = ?p2" unfolding fill2 by simp
    have "blocks (m @ ?p1) = blocks m @ [?r @ ?p1]" and rest: "remainder (m @ ?p1) = []"
      using u append_full_block [of m ?p1] by simp_all
    moreover have "blocks ((m @ ?p1) @ ?p2) = blocks (m @ ?p1) @ [remainder (m @ ?p1) @ ?p2]"
      using rest by (intro conjunct1 [OF append_full_block]) simp
    moreover have "(m @ ?p1) @ ?p2 = m @ padding m" by (simp add: pad)
    ultimately have "blocks (m @ padding m) = blocks m @ [?r @ ?p1, ?p2]" by simp
    moreover have "finalize st =
        digest_bytes (compress (sha_buf (put_length (zero_fill 56 ?st2))) (compress (sha_buf ?z) (sha_h st)))"
      using False st(3) by (simp add: finalize_def Let_def process_block_def put_length_def zero_fill_def)
    ultimately show ?thesis by (simp only: last [unfolded fill] fill sha1_def st(1) fold_append fold.simps o_def id_apply)
  qed
qed

text \<open>The state of a run of \<open>update\<close> over the pieces of a message.\<close>

definition fed :: "byte list \<Rightarrow> sha1_state \<Rightarrow> bool" where
  "fed m st \<longleftrightarrow> absorbed m st \<and> sha_len_bits st = of_nat (8 * length m)"

lemma fed_init: "fed [] sha1_init"
  by (simp add: fed_def absorbed_init) (simp add: sha1_init_def)

lemma fed_update: "fed m st \<Longrightarrow> fed (m @ data) (update data st)"
  using update_loop_absorbs [of m "st\<lparr>sha_len_bits := sha_len_bits st + of_nat (length data) * 8\<rparr>" data]
  by (simp add: fed_def update_def distrib_left)

lemma fed_updates: "fed m st \<Longrightarrow> fed (m @ concat pieces) (fold update pieces st)"
proof (induction pieces arbitrary: m st)
  case (Cons p pieces)
  from Cons.IH [OF fed_update [OF Cons.prems], of p] show ?case by simp
qed simp

lemma finalize_fed: "fed m st \<Longrightarrow> finalize st = sha1 m"
  by (simp add: fed_def finalize_absorbed)

lemma finalize_pieces: "finalize (fold update pieces sha1_init) = sha1 (concat pieces)"
  using fed_updates [OF fed_init, of pieces] by (simp add: finalize_fed)

lemma hmac_key_block_eq: "hmac_key_block key = pad_key key"
  using finalize_pieces [of "[key]"]
  by (simp add: hmac_key_block_def pad_key_def kBlockLen_def copy_into_def)

lemma length_hmac [simp]: "length (hmac key msg) = kDigestLen"
  by (simp add: hmac_def Let_def kDigestLen_def)

text \<open>C7. However a message is cut into pieces for \<open>update\<close>, \<open>finalize\<close> returns the SHA-1 of the whole
  message: padding, block boundaries and the 64-bit length are those of RFC 3174.\<close>

theorem sha1_streaming: "finalize (fold update pieces sha1_init) = sha1 (concat pieces)"
  by (rule finalize_pieces)

text \<open>The HMAC routine computes the formula of RFC 2104 for keys and messages of any length, long
  keys hashed first, and its digest has 20 bytes.\<close>

theorem hmac_is_rfc2104: "hmac key msg = hmac_spec key msg \<and> length (hmac key msg) = 20"
  using finalize_pieces [of "[map (\<lambda>b. b XOR 0x36) (pad_key key), msg]"]
    finalize_pieces [of "[map (\<lambda>b. b XOR 0x5C) (pad_key key), x]" for x]
  by (simp add: hmac_def hmac_spec_def Let_def hmac_key_block_eq)

end
