(* ===== verification/Totp.thy ===== *)
theory Totp
  imports Hmac_Sha1
begin

text \<open>
  Time-based one-time passwords (\<open>server/auth/Totp.cpp\<close>): the base32 form of a secret, the
  provisioning URI, the code of RFC 6238 and its verification over a window of time steps.

  \<open>int\<close> is a 32-bit word and \<open>int64_t\<close> an \<open>int\<close> cast to an unsigned counter.  The lemmas show
  that the base32 encoder is the 5-bit grouping of RFC 4648, that the URI encoding can be decoded,
  that a code is below one million, and that verification accepts exactly the codes of the window.
\<close>

section \<open>Base32\<close>

definition kBase32Alphabet :: string where
  "kBase32Alphabet = ''ABCDEFGHIJKLMNOPQRSTUVWXYZ234567''"

definition alphabet_char :: "32 word \<Rightarrow> char" where
  "alphabet_char x = kBase32Alphabet ! unat (x AND 0x1F)"

text \<open>\<open>while (bits >= 5)\<close>: the buffer is not masked, only its low bits are read.\<close>

function emit :: "32 word \<Rightarrow> nat \<Rightarrow> string \<times> nat" where
  "emit buf bits =
     (if bits \<ge> 5
      then let bits' = bits - 5; (out, n) = emit buf bits'
           in (alphabet_char (signed_drop_bit bits' buf) # out, n)
      else ([], bits))"
  by pat_completeness auto

termination by (relation "measure snd") auto

declare emit.simps [simp del]

fun base32_loop :: "byte list \<Rightarrow> 32 word \<Rightarrow> nat \<Rightarrow> string" where
  "base32_loop [] buf bits = (if bits > 0 then [alphabet_char (push_bit (5 - bits) buf)] else [])"
| "base32_loop (b # bs) buf bits =
     (let buf' = push_bit 8 buf OR ucast b; (out, bits') = emit buf' (bits + 8)
      in out @ base32_loop bs buf' bits')"

definition totp_secret_to_base32 :: "byte list \<Rightarrow> string" where
  "totp_secret_to_base32 secret = base32_loop secret 0 0"

text \<open>The reference: the bits of the secret, most significant first, in groups of five.\<close>

definition low_bits :: "nat \<Rightarrow> 'a::len word \<Rightarrow> bool list" where
  "low_bits n w = map (\<lambda>i. bit w (n - 1 - i)) [0..<n]"

definition bits_to_nat :: "bool list \<Rightarrow> nat" where
  "bits_to_nat bs = foldl (\<lambda>n b. 2 * n + of_bool b) 0 bs"

fun group5 :: "bool list \<Rightarrow> nat list" where
  "group5 bs =
     (if bs = [] then []
      else if length bs < 5 then [bits_to_nat (bs @ replicate (5 - length bs) False)]
      else bits_to_nat (take 5 bs) # group5 (drop 5 bs))"

declare group5.simps [simp del]

definition base32_spec :: "byte list \<Rightarrow> string" where
  "base32_spec secret = map ((!) kBase32Alphabet) (group5 (concat (map (low_bits 8) secret)))"

lemma length_low_bits [simp]: "length (low_bits n w) = n"
  by (simp add: low_bits_def)

lemma low_bits_split:
  "n \<le> m \<Longrightarrow> low_bits m w = low_bits (m - n) (signed_drop_bit n w) @ low_bits n w"
  if "m \<le> LENGTH('a)" for w :: "'a::len word"
  using that by (auto simp: low_bits_def list_eq_iff_nth_eq nth_append bit_simps)

lemma low_bits_push:
  fixes buf :: "32 word" and b :: byte
  assumes "n \<le> 24"
  shows "low_bits (n + 8) (push_bit 8 buf OR ucast b) = low_bits n buf @ low_bits 8 b"
  using assms
  by (auto simp: low_bits_def list_eq_iff_nth_eq nth_append bit_simps not_less not_le dest: bit_imp_le_length)

lemma upt5: "[0..<5] = [0, 1, 2, 3, 4 :: nat]"
  by (simp add: upt_rec)

lemma unat_low5: "unat (x AND 0x1F) = bits_to_nat (low_bits 5 x)" for x :: "32 word"
proof -
  have "x AND 0x1F = take_bit 5 x" by (simp add: take_bit_eq_mask mask_eq_exp_minus_1)
  also have "take_bit 5 x = horner_sum of_bool 2 (map (bit x) [0..<5])"
    by (simp only: horner_sum_bit_eq_take_bit)
  finally have eq: "x AND 0x1F = horner_sum of_bool 2 (map (bit x) [0..<5])" .
  show ?thesis
    unfolding eq upt5 bits_to_nat_def low_bits_def
    by (cases "bit x 0"; cases "bit x 1"; cases "bit x 2"; cases "bit x 3"; cases "bit x 4") simp_all
qed

lemma alphabet_char_eq: "alphabet_char x = kBase32Alphabet ! bits_to_nat (low_bits 5 x)"
  by (simp add: alphabet_char_def unat_low5)


lemma low_bits_0 [simp]: "low_bits 0 w = []"
  by (simp add: low_bits_def)

lemma low_bits_shift:
  fixes buf :: "32 word"
  assumes "n \<le> 5"
  shows "low_bits 5 (push_bit (5 - n) buf) = low_bits n buf @ replicate (5 - n) False"
  using assms
  by (auto simp: low_bits_def list_eq_iff_nth_eq nth_append bit_simps)

lemma emit_spec:
  "bits \<le> 32 \<Longrightarrow> snd (emit buf bits) < 5 \<and>
     map ((!) kBase32Alphabet) (group5 (low_bits bits buf @ rest)) =
       fst (emit buf bits) @ map ((!) kBase32Alphabet) (group5 (low_bits (snd (emit buf bits)) buf @ rest))"
proof (induction buf bits rule: emit.induct)
  case (1 buf bits)
  show ?case
  proof (cases "bits \<ge> 5")
    case True
    let ?n = "bits - 5"
    have "low_bits bits buf = low_bits (bits - ?n) (signed_drop_bit ?n buf) @ low_bits ?n buf"
      using 1(2) by (intro low_bits_split) simp_all
    with True have split: "low_bits bits buf = low_bits 5 (signed_drop_bit ?n buf) @ low_bits ?n buf"
      by simp
    have "group5 (low_bits bits buf @ rest) =
        bits_to_nat (low_bits 5 (signed_drop_bit ?n buf)) # group5 (low_bits ?n buf @ rest)"
      unfolding split by (subst group5.simps) (auto simp flip: length_greater_0_conv)
    moreover have "emit buf bits =
        (alphabet_char (signed_drop_bit ?n buf) # fst (emit buf ?n), snd (emit buf ?n))"
      using True by (subst emit.simps) (simp add: Let_def split_def)
    ultimately show ?thesis
      using 1 True by (simp add: alphabet_char_eq)
  next
    case False
    then have "emit buf bits = ([], bits)" by (subst emit.simps) simp
    with False show ?thesis by simp
  qed
qed

lemma base32_loop_spec:
  "bits < 5 \<Longrightarrow> base32_loop bs buf bits =
     map ((!) kBase32Alphabet) (group5 (low_bits bits buf @ concat (map (low_bits 8) bs)))"
proof (induction bs buf bits rule: base32_loop.induct)
  case (1 buf bits)
  have "low_bits bits buf = [] \<longleftrightarrow> bits = 0"
    by (metis length_low_bits length_0_conv low_bits_0)
  with 1 show ?case
    by (simp add: group5.simps [of "low_bits bits buf"] group5.simps [of "[]"] alphabet_char_eq low_bits_shift)
next
  case (2 b bs buf bits)
  let ?buf = "push_bit 8 buf OR ucast b"
  let ?e = "emit ?buf (bits + 8)"
  have e: "snd ?e < 5 \<and> map ((!) kBase32Alphabet) (group5 (low_bits (bits + 8) ?buf @ rest)) =
       fst ?e @ map ((!) kBase32Alphabet) (group5 (low_bits (snd ?e) ?buf @ rest))" for rest
    using 2(2) by (intro emit_spec) simp
  then have "base32_loop bs ?buf (snd ?e) = map ((!) kBase32Alphabet)
      (group5 (low_bits (snd ?e) ?buf @ concat (map (low_bits 8) bs)))"
    by (intro 2(1) [OF refl refl prod.collapse]) simp
  with e [of "concat (map (low_bits 8) bs)"] low_bits_push [of bits buf b] 2(2) show ?case
    by (simp add: Let_def split_def)
qed

text \<open>The base32 encoder, which keeps its pending bits in a 32-bit buffer it never masks, writes the
  bits of the secret in groups of five, the last one padded with zeros, as RFC 4648 has it.\<close>

theorem base32_groups_bits: "totp_secret_to_base32 secret = base32_spec secret"
  by (simp add: totp_secret_to_base32_def base32_spec_def base32_loop_spec)

section \<open>The provisioning URI\<close>

definition hex_upper :: "nat \<Rightarrow> char" where
  "hex_upper n = ''0123456789ABCDEF'' ! n"

definition is_unreserved :: "char \<Rightarrow> bool" where
  "is_unreserved c \<longleftrightarrow>
     (let n = (of_char c :: nat) in
      (65 \<le> n \<and> n \<le> 90) \<or> (97 \<le> n \<and> n \<le> 122) \<or> (48 \<le> n \<and> n \<le> 57) \<or>
      c = CHR ''-'' \<or> c = CHR ''_'' \<or> c = CHR ''.'' \<or> c = CHR ''~'')"

definition encode_char :: "char \<Rightarrow> string" where
  "encode_char c =
     (if is_unreserved c then [c]
      else [CHR ''%'', hex_upper (of_char c div 16), hex_upper (of_char c mod 16)])"

definition url_encode :: "string \<Rightarrow> string" where
  "url_encode s = concat (map encode_char s)"

definition make_totp_provisioning_uri :: "string \<Rightarrow> string \<Rightarrow> byte list \<Rightarrow> string" where
  "make_totp_provisioning_uri label issuer secret =
     (let b32 = totp_secret_to_base32 secret;
          enc_label = url_encode label; enc_issuer = url_encode issuer; enc_b32 = url_encode b32
      in ''otpauth://totp/'' @ enc_issuer @ '':'' @ enc_label @ ''?secret='' @ enc_b32 @
         ''&issuer='' @ enc_issuer @ ''&algorithm=SHA1&digits=6&period=30'')"

text \<open>A percent decoder.\<close>

definition hex_upper_value :: "char \<Rightarrow> nat" where
  "hex_upper_value c = (let n = (of_char c :: nat) in if n < 58 then n - 48 else n - 55)"

fun url_decode :: "string \<Rightarrow> string" where
  "url_decode [] = []"
| "url_decode (c # s) =
     (if c = CHR ''%'' then
        (case s of a # b # t \<Rightarrow> char_of (16 * hex_upper_value a + hex_upper_value b) # url_decode t
         | _ \<Rightarrow> c # s)
      else c # url_decode s)"

lemma hex_upper_value: "n < 16 \<Longrightarrow> hex_upper_value (hex_upper n) = n"
proof -
  assume "n < 16"
  then have "n \<in> set [0..<16]" by simp
  moreover have "\<forall>m \<in> set [0..<16]. hex_upper_value (hex_upper m) = m"
    by (simp add: upt_rec hex_upper_value_def hex_upper_def Let_def)
  ultimately show ?thesis by blast
qed

lemma url_decode_encode_char: "url_decode (encode_char c @ s) = c # url_decode s"
proof (cases "is_unreserved c")
  case True
  then have "c \<noteq> CHR ''%''" by (auto simp: is_unreserved_def)
  with True show ?thesis by (simp add: encode_char_def)
next
  case False
  have "(of_char c :: nat) < 256" using unat_byte_less [of "byte_of_char c"] by simp
  then have "(of_char c :: nat) div 16 < 16" by (rule less_mult_imp_div_less [of _ 16 16, simplified])
  with False show ?thesis by (simp add: encode_char_def hex_upper_value)
qed

text \<open>The percent-encoding of the provisioning URI can be undone: decoding it gives the label,
  issuer or secret back, whatever bytes they hold.\<close>

theorem url_encoding_roundtrip: "url_decode (url_encode s) = s"
  by (induction s) (simp_all add: url_encode_def url_decode_encode_char)

section \<open>Codes\<close>

definition counter_of :: "int \<Rightarrow> 64 word" where
  "counter_of unix_seconds = word_of_int unix_seconds div 30"

definition counter_bytes :: "64 word \<Rightarrow> byte list" where
  "counter_bytes counter =
     snd (fold (\<lambda>i (c, bs). (drop_bit 8 c, bs[i := ucast (c AND 0xFF)]))
       (rev [0..<8]) (counter, replicate 8 0))"

definition truncate_hmac :: "byte list \<Rightarrow> 32 word" where
  "truncate_hmac h =
     (let offset = unat (h ! 19 AND 0x0F) in
      push_bit 24 (ucast (h ! offset AND 0x7F)) OR push_bit 16 (ucast (h ! (offset + 1) AND 0xFF)) OR
      push_bit 8 (ucast (h ! (offset + 2) AND 0xFF)) OR ucast (h ! (offset + 3) AND 0xFF))"

definition compute_totp_code :: "byte list \<Rightarrow> int \<Rightarrow> int" where
  "compute_totp_code secret unix_seconds =
     (let p = truncate_hmac (hmac secret (counter_bytes (counter_of unix_seconds)))
      in uint (p mod 1000000))"

definition code_bytes :: "int \<Rightarrow> byte list" where
  "code_bytes code =
     (let u = word_of_int code :: 32 word in
      [ucast (drop_bit 24 u AND 0xFF), ucast (drop_bit 16 u AND 0xFF),
       ucast (drop_bit 8 u AND 0xFF), ucast (u AND 0xFF)])"

text \<open>The verification, with the list of the calls it makes to \<open>sodium_memcmp\<close>, one for each turn of its
  loop.\<close>

definition compare_steps :: "third_party \<Rightarrow> byte list \<Rightarrow> int \<Rightarrow> int \<Rightarrow> int \<Rightarrow> bool \<times> (byte list \<times> byte list) list" where
  "compare_steps L secret unix_seconds code skew_window =
     (if code < 0 \<or> code > 999999 then (False, [])
      else case fold (\<lambda>delta (match, calls).
              let candidate = compute_totp_code secret (unix_seconds + delta * 30);
                  eq = (if sodium_memcmp L (code_bytes code) (code_bytes candidate) = 0 then 1 else 0)
              in (match OR eq, calls @ [(code_bytes code, code_bytes candidate)]))
              [- skew_window..skew_window] (0 :: int, []) of
        (match, calls) \<Rightarrow> (match = 1, calls))"

definition verify_totp_code :: "third_party \<Rightarrow> byte list \<Rightarrow> int \<Rightarrow> int \<Rightarrow> int \<Rightarrow> bool" where
  "verify_totp_code L secret unix_seconds code skew_window = fst (compare_steps L secret unix_seconds code skew_window)"

lemma code_range: "0 \<le> compute_totp_code secret t \<and> compute_totp_code secret t < 1000000"
  by (simp add: compute_totp_code_def Let_def uint_mod)

text \<open>The four bytes read at the dynamic offset lie inside the digest.\<close>

lemma offset_in_digest: "unat (h ! 19 AND 0x0F) + 3 < kDigestLen" for h :: "byte list"
proof -
  have "h ! 19 AND 0x0F \<le> 0x0F" by (rule word_and_le1)
  then have "unat (h ! 19 AND 0x0F) \<le> 15" by (simp add: word_le_nat_alt)
  then show ?thesis by (simp add: kDigestLen_def)
qed

lemma code_step: "0 \<le> t \<Longrightarrow> t < 2 ^ 63 \<Longrightarrow> 0 \<le> t' \<Longrightarrow> t' < 2 ^ 63 \<Longrightarrow> t div 30 = t' div 30 \<Longrightarrow>
    compute_totp_code secret t = compute_totp_code secret t'"
proof -
  assume a: "0 \<le> t" "t < 2 ^ 63" "0 \<le> t'" "t' < 2 ^ 63" "t div 30 = t' div 30"
  then have "uint (counter_of t) = uint (counter_of t')"
    by (simp add: counter_of_def uint_div uint_word_of_int)
  then have "counter_of t = counter_of t'" by (simp only: word_uint_eq_iff)
  then show ?thesis by (simp add: compute_totp_code_def)
qed

text \<open>A one-time code has at most six digits, and the four digest bytes it is cut from lie inside
  the 20-byte digest for every secret and time.\<close>

theorem totp_code_bounds:
  "0 \<le> compute_totp_code secret t \<and> compute_totp_code secret t \<le> 999999 \<and>
   unat (hmac secret (counter_bytes (counter_of t)) ! 19 AND 0x0F) + 3 <
     length (hmac secret (counter_bytes (counter_of t)))"
  using code_range [of secret t] offset_in_digest [of "hmac secret (counter_bytes (counter_of t))"] by simp

text \<open>Documented behaviour of \<open>sodium_memcmp\<close>.\<close>

definition memcmp_spec :: "third_party \<Rightarrow> bool" where
  "memcmp_spec L \<longleftrightarrow> (\<forall>a b. length a = length b \<longrightarrow> (sodium_memcmp L a b = 0 \<longleftrightarrow> a = b))"

lemma ucast_and_FF: "(ucast (x AND 0xFF :: 32 word) :: byte) = ucast x"
proof -
  have "x AND 0xFF = take_bit 8 x" by (simp add: take_bit_eq_mask mask_eq_exp_minus_1)
  then show ?thesis by (simp only:) (rule bit_eqI, simp add: bit_simps)
qed

lemma code_bytes_eq: "code_bytes code =
    map (\<lambda>k. ucast (drop_bit k (word_of_int code :: 32 word))) [24, 16, 8, 0]"
  by (simp add: code_bytes_def ucast_and_FF Let_def)

lemma code_bytes_inject:
  assumes "0 \<le> a" "a < 2 ^ 32" "0 \<le> b" "b < 2 ^ 32" and e: "code_bytes a = code_bytes b"
  shows "a = b"
proof -
  let ?u = "word_of_int a :: 32 word" and ?v = "word_of_int b :: 32 word"
  have eqk: "(ucast (drop_bit k ?u) :: byte) = ucast (drop_bit k ?v)" if "k \<in> {0, 8, 16, 24}" for k
    using e that by (auto simp: code_bytes_eq)
  have "bit ?u n = bit ?v n" if "n < 32" for n
  proof -
    let ?k = "8 * (n div 8)"
    have "n div 8 \<in> {0, 1, 2, 3}" using that by auto
    then have "?k \<in> {0, 8, 16, 24}" by auto
    then have "bit (ucast (drop_bit ?k ?u) :: byte) (n mod 8) = bit (ucast (drop_bit ?k ?v) :: byte) (n mod 8)"
      by (simp only: eqk)
    then show ?thesis by (simp add: bit_ucast_iff bit_drop_bit_eq)
  qed
  then have "?u = ?v" by (intro bit_word_eqI) simp
  then have "uint ?u = uint ?v" by simp
  with assms(1-4) show ?thesis by (simp add: uint_word_of_int)
qed

text \<open>Verification accepts exactly the codes of the window.\<close>

lemma fold_match:
  "fold (\<lambda>d m. m OR (if P d then 1 else 0)) ds (if b then 1 else 0 :: int) = (if b \<or> list_ex P ds then 1 else 0)"
proof (induction ds arbitrary: b)
  case (Cons d ds)
  have "((if b then 1 else 0) OR (if P d then 1 else 0) :: int) = (if b \<or> P d then 1 else 0)"
    by simp
  with Cons.IH [of "b \<or> P d"] show ?case by simp
qed simp

lemma fold_calls:
  "fold (\<lambda>d (m, cs). (f d m, cs @ [g d])) ds (m, cs) = (fold f ds m, cs @ map g ds)"
  by (induction ds arbitrary: m cs) simp_all

lemma compare_steps_eq:
  "compare_steps L secret t code skew =
     (if code < 0 \<or> code > 999999 then (False, [])
      else (fold (\<lambda>delta match.
              let candidate = compute_totp_code secret (t + delta * 30);
                  eq = (if sodium_memcmp L (code_bytes code) (code_bytes candidate) = 0 then 1 else 0)
              in match OR eq) [- skew..skew] (0 :: int) = 1,
            map (\<lambda>k. (code_bytes code, code_bytes (compute_totp_code secret (t + k * 30)))) [- skew..skew]))"
  by (simp add: compare_steps_def Let_def fold_calls)

lemma verify_totp_iff:
  assumes "memcmp_spec L"
  shows "verify_totp_code L secret t code skew \<longleftrightarrow>
    (0 \<le> code \<and> code \<le> 999999 \<and> (\<exists>k \<in> {- skew..skew}. compute_totp_code secret (t + k * 30) = code))"
proof (cases "0 \<le> code \<and> code \<le> 999999")
  case True
  have "sodium_memcmp L (code_bytes code) (code_bytes c) = 0 \<longleftrightarrow> c = code"
    if "c = compute_totp_code secret x" for c x
  proof -
    have "length (code_bytes code) = length (code_bytes c)" by (simp add: code_bytes_eq)
    then have "sodium_memcmp L (code_bytes code) (code_bytes c) = 0 \<longleftrightarrow> code_bytes code = code_bytes c"
      using assms by (simp add: memcmp_spec_def)
    then show ?thesis
      using code_bytes_inject [of code c] code_range [of secret x] True that by auto
  qed
  then have eq: "(\<lambda>delta match. let candidate = compute_totp_code secret (t + delta * 30);
        eq = (if sodium_memcmp L (code_bytes code) (code_bytes candidate) = 0 then 1 else 0)
      in match OR eq) = (\<lambda>d m. m OR (if compute_totp_code secret (t + d * 30) = code then 1 else 0 :: int))"
    by (simp add: Let_def)
  have "verify_totp_code L secret t code skew \<longleftrightarrow>
      fold (\<lambda>d m. m OR (if compute_totp_code secret (t + d * 30) = code then 1 else 0 :: int)) [- skew..skew] 0 = 1"
    using True unfolding verify_totp_code_def compare_steps_eq eq by simp
  also have "\<dots> \<longleftrightarrow> (\<exists>k \<in> {- skew..skew}. compute_totp_code secret (t + k * 30) = code)"
    using fold_match [of "\<lambda>d. compute_totp_code secret (t + d * 30) = code" "[- skew..skew]" False]
    by (simp add: list_ex_iff)
  finally show ?thesis using True by simp
next
  case False
  then show ?thesis by (auto simp: verify_totp_code_def compare_steps_def)
qed

text \<open>A code made by a clock at most \<open>skew\<close> steps away is accepted.\<close>

lemma verify_accepts_skewed:
  assumes "memcmp_spec L" and "0 \<le> t'" "t' < 2 ^ 63" and "t < 2 ^ 63 - 30 * skew" and "30 * skew \<le> t"
    and "\<bar>t' div 30 - t div 30\<bar> \<le> skew"
  shows "verify_totp_code L secret t (compute_totp_code secret t') skew"
proof -
  let ?d = "t' div 30 - t div 30"
  have d: "?d \<in> {- skew..skew}" using assms(6) by auto
  have "t + ?d * 30 = t mod 30 + 30 * (t' div 30)"
    using div_mult_mod_eq [of t 30] by (simp add: algebra_simps)
  then have q: "(t + ?d * 30) div 30 = t' div 30" by simp
  have "0 \<le> t + ?d * 30" "t + ?d * 30 < 2 ^ 63"
    using assms(4,5) d by auto
  with q have "compute_totp_code secret (t + ?d * 30) = compute_totp_code secret t'"
    using assms(2,3) by (intro code_step) simp_all
  with d code_range [of secret t'] show ?thesis
    by (auto simp: verify_totp_iff [OF assms(1)] intro: bexI [of _ ?d])
qed

end
