(* ===== verification/Auth_Handlers.thy ===== *)
theory Auth_Handlers
  imports Entity_Scope Enrollment_Model Rate_Limit Totp
begin

text \<open>
  The authentication routes (\<open>server/auth/AuthHandlers.cpp\<close>, \<open>PassphraseHash.cpp\<close>): enrolling with
  a token, logging in with passphrase and one-time code behind the rate limiter, logging out and
  \<open>whoami\<close>.  The server's state is the database and the rate limiter's map.

  The lemmas give the ways each handler can end, what a successful enrollment or login has
  checked and written, and what the handlers leave alone.
\<close>

record server_state =
  sv_db :: db
  sv_rate :: buckets

section \<open>Passphrases\<close>

definition crypto_pwhash_STRBYTES :: nat where
  "crypto_pwhash_STRBYTES = 128"

definition hash_passphrase :: "third_party \<Rightarrow> string \<Rightarrow> string + byte list" where
  "hash_passphrase L passphrase =
     (case pwhash_str L passphrase of
        None \<Rightarrow> Inl ''PassphraseHash::hash_passphrase: crypto_pwhash_str failed (out-of-memory or libsodium not initialized)''
      | Some out \<Rightarrow> Inr out)"

definition verify_passphrase :: "third_party \<Rightarrow> string \<Rightarrow> byte list \<Rightarrow> bool" where
  "verify_passphrase L passphrase stored_hash =
     (if length stored_hash < crypto_pwhash_STRBYTES then False
      else pwhash_verify L stored_hash passphrase)"

text \<open>Hashed on the first use; the verification against it only spends time.\<close>

definition dummy_hash :: "third_party \<Rightarrow> string + byte list" where
  "dummy_hash L = hash_passphrase L ''tf-dummy-init-passphrase-do-not-use-9c4f''"

section \<open>Handlers\<close>

definition emit_audit ::
  "third_party \<Rightarrow> env \<Rightarrow> nat \<Rightarrow> string \<Rightarrow> string \<Rightarrow> string \<Rightarrow> string \<Rightarrow> string \<Rightarrow> string \<Rightarrow> string \<Rightarrow> json \<Rightarrow>
   db \<Rightarrow> (string + unit) \<times> db" where
  "emit_audit L E i actor actor_kind domain subject subject_kind action outcome details d =
     record_event L (append_ok E i)
       \<lparr>ev_ts_ms = clock_ms E, ev_actor = actor, ev_actor_kind = actor_kind, ev_domain = domain,
        ev_subject = subject, ev_subject_kind = subject_kind, ev_action = action,
        ev_outcome = outcome, ev_details = details\<rparr> d"

text \<open>\<open>catch (...)\<close> around the transaction of an enrollment.\<close>

definition catch_all :: "db outcome \<Rightarrow> db outcome" where
  "catch_all x = (case x of (Inl _, d) \<Rightarrow> (Inr (err 500 ''internal''), d) | (Inr r, d) \<Rightarrow> (Inr r, d))"

definition reject_enrollment :: "third_party \<Rightarrow> env \<Rightarrow> db \<Rightarrow> db outcome" where
  "reject_enrollment L E d =
     and_then (emit_audit L E 0 [] ''system'' [] [] ''enrollment_token'' ''enrollment_token_rejected''
                 ''failure'' (JObj []) d)
       (\<lambda>_. err 400 ''invalid_enrollment_token'')"

definition enroll_transaction :: "third_party \<Rightarrow> env \<Rightarrow> string \<Rightarrow> string \<Rightarrow> string \<Rightarrow> db \<Rightarrow> db outcome" where
  "enroll_transaction L E token email passphrase d =
     (let t = clock E 0 in
      case peek_enrollment_token L token t d of
        None \<Rightarrow> reject_enrollment L E d
      | Some peeked \<Rightarrow>
          if rec_email peeked \<noteq> email then reject_enrollment L E d
          else
            (case hash_passphrase L passphrase of
               Inl what \<Rightarrow> (Inr (err_msg 500 ''internal'' what), d)
             | Inr pass_hash \<Rightarrow>
                 let totp_secret = random_totp E; uid = generate_id L E in
                 (case insert_user \<lparr>user_id = uid, user_email = email, user_created = t,
                         user_pass = pass_hash, user_totp = Some totp_secret\<rparr> d of
                    None \<Rightarrow> (Inr (err 409 ''email_already_registered''), d)
                  | Some d1 \<Rightarrow>
                      let (marked, d2) = mark_enrollment_token_consumed (rec_hash peeked) t d1 in
                      if \<not> marked then (Inr (err_msg 500 ''internal'' ''token consume failed''), d)
                      else
                        let uri = make_totp_provisioning_uri email ''Greylock'' totp_secret in
                        and_then (emit_audit L E 0 uid ''system'' [] uid ''user''
                                    ''enrollment_token_consumed'' ''success'' (JObj []) d2)
                          (\<lambda>_. Resp 200 (JObj [(''totp_provisioning_uri'', JStr uri),
                                               (''user_id'', JStr uid)])))))"

definition handle_enroll :: "third_party \<Rightarrow> env \<Rightarrow> request \<Rightarrow> db \<Rightarrow> db outcome" where
  "handle_enroll L E req d =
     (case body req of
        None \<Rightarrow> (Inr (err 400 ''invalid_json''), d)
      | Some j \<Rightarrow>
          (case (at_string j ''token'', at_string j ''email'', at_string j ''passphrase'') of
             (Some token, Some email, Some passphrase) \<Rightarrow>
               catch_all (enroll_transaction L E token email passphrase d)
           | _ \<Rightarrow> (Inr (err_msg 400 ''missing_fields'' ''token, email, passphrase required''), d)))"

definition auth_failed :: "third_party \<Rightarrow> env \<Rightarrow> string \<Rightarrow> string \<Rightarrow> string \<Rightarrow> json \<Rightarrow> db \<Rightarrow> db outcome" where
  "auth_failed L E actor actor_kind subject details d =
     and_then (emit_audit L E 0 actor actor_kind [] subject ''user'' ''passphrase_authentication_failure''
                 ''failure'' details d)
       (\<lambda>_. err 401 ''auth_failed'')"

text \<open>The part of a login after the rate limiter has let it through.\<close>

definition login_user :: "third_party \<Rightarrow> env \<Rightarrow> string \<Rightarrow> string \<Rightarrow> int \<Rightarrow> db \<Rightarrow> db outcome" where
  "login_user L E email passphrase totp_code d =
     (let t = clock E 0 in
      case sel_by user_email email (users d) of
        None \<Rightarrow>
          (case dummy_hash L of
             Inl what \<Rightarrow> (Inl what, d)
           | Inr _ \<Rightarrow> auth_failed L E [] ''system'' [] (JObj []) d)
      | Some u \<Rightarrow>
          let uid = c_str (user_id u);
              totp = (case user_totp u of None \<Rightarrow> [] | Some s \<Rightarrow> s) in
          if \<not> verify_passphrase L passphrase (user_pass u)
          then auth_failed L E uid ''user'' uid (JObj [(''reason'', JStr ''wrong_passphrase'')]) d
          else if \<not> verify_totp_code L totp t totp_code 1
          then auth_failed L E uid ''user'' uid (JObj [(''reason'', JStr ''wrong_totp'')]) d
          else
            (case mint_session L E uid t d of
               (Inl what, d1) \<Rightarrow> (Inr (err_msg 500 ''internal'' what), d1)
             | (Inr session, d1) \<Rightarrow>
                 (case emit_audit L E 0 uid ''user'' [] (bin2hex L (token_hash session)) ''session''
                         ''passphrase_authentication_success'' ''success''
                         (JObj [(''email'', JStr email)]) d1 of
                    (Inl what, d2) \<Rightarrow> (Inl what, d2)
                  | (Inr _, d2) \<Rightarrow>
                      and_then (emit_audit L E 1 uid ''user'' [] uid ''user'' ''session_created'' ''success''
                                  (JObj []) d2)
                        (\<lambda>_. Resp 200 (JObj
                           [(''expires_at_unix'', JInt (t + kSessionAbsoluteTimeoutSeconds)),
                            (''session_token'', JStr (raw_token session)),
                            (''user_id'', JStr uid)])))))"

definition rate_key :: "string \<Rightarrow> string" where
  "rate_key email = ''auth_login:'' @ email"

definition handle_login :: "third_party \<Rightarrow> env \<Rightarrow> request \<Rightarrow> server_state \<Rightarrow> server_state outcome" where
  "handle_login L E req s =
     (case body req of
        None \<Rightarrow> (Inr (err 400 ''invalid_json''), s)
      | Some j \<Rightarrow>
          (case (at_string j ''email'', at_string j ''passphrase'', at_int j ''totp_code'') of
             (Some email, Some passphrase, Some totp_code) \<Rightarrow>
               let (limited, m) = rate_limit_check (rate_key email) (clock E 0) (sv_rate s);
                   (r, d) =
                     (if limited
                      then and_then (emit_audit L E 0 [] ''system'' [] email ''user'' ''auth_rate_limit_tripped''
                                       ''rate_limited'' (JObj [(''email'', JStr email)]) (sv_db s))
                             (\<lambda>_. err_msg 429 ''rate_limited'' ''Too many login attempts. Try again later.'')
                      else login_user L E email passphrase totp_code (sv_db s))
               in (r, s\<lparr>sv_db := d, sv_rate := m\<rparr>)
           | _ \<Rightarrow> (Inr (err_msg 400 ''missing_fields'' ''email, passphrase, totp_code required''), s)))"

definition handle_logout :: "third_party \<Rightarrow> env \<Rightarrow> request \<Rightarrow> db \<Rightarrow> db outcome" where
  "handle_logout L E req d =
     (case extract_bearer req of
        None \<Rightarrow> (Inr (err 401 ''missing_token''), d)
      | Some tok \<Rightarrow>
          let (revoked, d1) = revoke_session L tok d in
          if revoked
          then and_then (emit_audit L E 0 [] ''user'' [] [] ''session'' ''session_revoked'' ''success''
                           (JObj []) d1) (\<lambda>_. Resp 200 (JObj []))
          else (Inr (Resp 200 (JObj [])), d1))"

definition handle_whoami :: "third_party \<Rightarrow> env \<Rightarrow> request \<Rightarrow> db \<Rightarrow> db outcome" where
  "handle_whoami L E req d =
     (case extract_bearer req of
        None \<Rightarrow> (Inr (err 401 ''missing_token''), d)
      | Some tok \<Rightarrow>
          (case validate_and_touch_session L tok (clock E 0) d of
             (None, d1) \<Rightarrow>
               and_then (emit_audit L E 0 [] ''user'' [] [] ''session'' ''session_expired'' ''failure''
                           (JObj []) d1)
                 (\<lambda>_. err 401 ''invalid_or_expired_session'')
           | (Some uid, d1) \<Rightarrow>
               let email = (case sel_by user_id uid (users d1) of None \<Rightarrow> [] | Some u \<Rightarrow> c_str (user_email u)) in
               and_then (emit_audit L E 0 uid ''user'' [] uid ''user'' ''passphrase_authentication_success''
                           ''success'' (JObj []) d1)
                 (\<lambda>_. Resp 200 (JObj [(''email'', JStr email), (''user_id'', JStr uid)]))))"

section \<open>Failures are indistinguishable\<close>

lemma snd_catch_all [simp]: "snd (catch_all x) = snd x"
  by (cases x) (simp add: catch_all_def split: sum.splits)

lemma emit_audit_extends: "extends_log d (snd (emit_audit L E i a b c f g h j k d))"
  by (simp add: emit_audit_def record_event_log)

lemma and_then_Inr: "fst (and_then x k) = Inr r \<longleftrightarrow> fst x = Inr () \<and> r = k (snd x)"
  by (cases x) (auto simp: and_then_def split: sum.splits)

lemma and_then_Inl: "fst (and_then x k) = Inl w \<longleftrightarrow> fst x = Inl w"
  by (cases x) (auto simp: and_then_def split: sum.splits)

lemma auth_failed_extends: "extends_log d (snd (auth_failed L E a b c f d))"
  by (simp add: auth_failed_def emit_audit_extends)

lemma auth_failed_status: "fst (auth_failed L E a b c f d) = Inr r \<Longrightarrow> r = err 401 ''auth_failed''"
  by (simp add: auth_failed_def and_then_Inr)

section \<open>The ways an enrollment ends\<close>

definition enrolled :: "third_party \<Rightarrow> env \<Rightarrow> string \<Rightarrow> byte list \<Rightarrow> byte list \<Rightarrow> db \<Rightarrow> db" where
  "enrolled L E email pass_hash tok_hash d =
     snd (mark_enrollment_token_consumed tok_hash (clock E 0)
       (d\<lparr>users := users d @ [\<lparr>user_id = generate_id L E, user_email = email, user_created = clock E 0,
            user_pass = pass_hash, user_totp = Some (random_totp E)\<rparr>]\<rparr>))"

lemma enroll_transaction_cases:
  obtains (rejected) "enroll_transaction L E token email passphrase d = reject_enrollment L E d"
      "\<And>r. peek_enrollment_token L token (clock E 0) d = Some r \<Longrightarrow> rec_email r \<noteq> email"
  | (failed) r where "enroll_transaction L E token email passphrase d = (Inr r, d)"
      "status r \<in> {409, 500}"
  | (created) p h uri where
      "peek_enrollment_token L token (clock E 0) d = Some p" "rec_email p = email"
      "hash_passphrase L passphrase = Inr h"
      "email \<notin> user_email ` set (users d)" "generate_id L E \<notin> user_id ` set (users d)"
      "enroll_transaction L E token email passphrase d =
         and_then (emit_audit L E 0 (generate_id L E) ''system'' [] (generate_id L E) ''user''
                     ''enrollment_token_consumed'' ''success'' (JObj []) (enrolled L E email h (rec_hash p) d))
           (\<lambda>_. Resp 200 (JObj [(''totp_provisioning_uri'', JStr uri), (''user_id'', JStr (generate_id L E))]))"
proof (cases "\<exists>p. peek_enrollment_token L token (clock E 0) d = Some p \<and> rec_email p = email")
  case False
  then have "enroll_transaction L E token email passphrase d = reject_enrollment L E d"
    by (auto simp: enroll_transaction_def Let_def split: option.splits)
  with False show ?thesis by (intro rejected) auto
next
  case True
  then obtain p where p: "peek_enrollment_token L token (clock E 0) d = Some p" "rec_email p = email"
    by blast
  show ?thesis
  proof (cases "hash_passphrase L passphrase")
    case (Inl what)
    with p show ?thesis
      by (intro failed [of "err_msg 500 ''internal'' what"]) (simp_all add: enroll_transaction_def Let_def)
  next
    case (Inr h)
    let ?u = "\<lparr>user_id = generate_id L E, user_email = email, user_created = clock E 0,
                user_pass = h, user_totp = Some (random_totp E)\<rparr>"
    show ?thesis
    proof (cases "insert_user ?u d")
      case None
      with p Inr show ?thesis
        by (intro failed [of "err 409 ''email_already_registered''"]) (simp_all add: enroll_transaction_def Let_def)
    next
      case (Some d1)
      then have d1: "d1 = d\<lparr>users := users d @ [?u]\<rparr>" "email \<notin> user_email ` set (users d)"
        "generate_id L E \<notin> user_id ` set (users d)"
        by (simp_all add: insert_user_Some)
      have "enrollments d1 = enrollments d" by (simp add: d1)
      then have "fst (mark_enrollment_token_consumed (rec_hash p) (clock E 0) d1)"
        using peek_mark_succeeds [OF p(1)] by (simp add: mark_enrollment_token_consumed_def)
      then have "enroll_transaction L E token email passphrase d =
         and_then (emit_audit L E 0 (generate_id L E) ''system'' [] (generate_id L E) ''user''
                     ''enrollment_token_consumed'' ''success'' (JObj []) (enrolled L E email h (rec_hash p) d))
           (\<lambda>_. Resp 200 (JObj [(''totp_provisioning_uri'',
                JStr (make_totp_provisioning_uri email ''Greylock'' (random_totp E))),
                (''user_id'', JStr (generate_id L E))]))"
        using p Inr Some
        by (simp add: enroll_transaction_def Let_def split_def enrolled_def d1)
      with p Inr d1 show ?thesis by (intro created) simp_all
    qed
  qed
qed

section \<open>The ways a login ends\<close>

lemma login_user_cases:
  obtains (refused) "extends_log d (snd (login_user L E email passphrase code d))"
      "\<And>r. fst (login_user L E email passphrase code d) = Inr r \<Longrightarrow> r = err 401 ''auth_failed''"
  | (mint_failed) what where "login_user L E email passphrase code d = (Inr (err_msg 500 ''internal'' what), d)"
  | (logged_in) u s d1 d2 where "sel_by user_email email (users d) = Some u"
      "verify_passphrase L passphrase (user_pass u)"
      "verify_totp_code L (case user_totp u of None \<Rightarrow> [] | Some x \<Rightarrow> x) (clock E 0) code 1"
      "mint_session L E (c_str (user_id u)) (clock E 0) d = (Inr s, d1)"
      "extends_log d1 d2" "extends_log d2 (snd (login_user L E email passphrase code d))"
      "\<And>r. fst (login_user L E email passphrase code d) = Inr r \<Longrightarrow>
         r = Resp 200 (JObj [(''expires_at_unix'', JInt (clock E 0 + kSessionAbsoluteTimeoutSeconds)),
               (''session_token'', JStr (raw_token s)), (''user_id'', JStr (c_str (user_id u)))])"
proof (cases "sel_by user_email email (users d)")
  case None
  then show ?thesis
    by (cases "dummy_hash L", goal_cases)
       (rule refused; auto simp: login_user_def Let_def auth_failed_extends auth_failed_status)+
next
  case (Some u)
  let ?totp = "case user_totp u of None \<Rightarrow> [] | Some x \<Rightarrow> x"
  show ?thesis
  proof (cases "verify_passphrase L passphrase (user_pass u) \<and> verify_totp_code L ?totp (clock E 0) code 1")
    case False
    then consider "\<not> verify_passphrase L passphrase (user_pass u)"
      | "verify_passphrase L passphrase (user_pass u)" "\<not> verify_totp_code L ?totp (clock E 0) code 1"
      by blast
    then show ?thesis
      by cases (rule refused; simp add: login_user_def Let_def Some auth_failed_extends auth_failed_status)+
  next
    case True
    obtain m d1 where m: "mint_session L E (c_str (user_id u)) (clock E 0) d = (m, d1)"
      by (cases "mint_session L E (c_str (user_id u)) (clock E 0) d")
    show ?thesis
    proof (cases m)
      case (Inl what)
      moreover from this m have "d1 = d"
        by (auto simp: mint_session_def Let_def split: option.splits)
      ultimately show ?thesis
        using Some True m by (intro mint_failed) (simp add: login_user_def Let_def)
    next
      case (Inr s)
      let ?a = "emit_audit L E 0 (c_str (user_id u)) ''user'' [] (bin2hex L (token_hash s)) ''session''
        ''passphrase_authentication_success'' ''success'' (JObj [(''email'', JStr email)]) d1"
      have x: "extends_log d1 (snd ?a)" by (rule emit_audit_extends)
      have eq: "login_user L E email passphrase code d =
          (case ?a of
             (Inl what, d2) \<Rightarrow> (Inl what, d2)
           | (Inr _, d2) \<Rightarrow>
               and_then (emit_audit L E 1 (c_str (user_id u)) ''user'' [] (c_str (user_id u)) ''user''
                   ''session_created'' ''success'' (JObj []) d2)
                 (\<lambda>_. Resp 200 (JObj
                    [(''expires_at_unix'', JInt (clock E 0 + kSessionAbsoluteTimeoutSeconds)),
                     (''session_token'', JStr (raw_token s)), (''user_id'', JStr (c_str (user_id u)))])))"
        using Some True m Inr by (simp add: login_user_def Let_def)
      show ?thesis
      proof (rule logged_in [OF Some _ _ _ x])
        show "extends_log (snd ?a) (snd (login_user L E email passphrase code d))"
          unfolding eq by (auto simp: emit_audit_extends split: prod.splits sum.splits)
        show "mint_session L E (c_str (user_id u)) (clock E 0) d = (Inr s, d1)"
          using m Inr by simp
      next
        fix r assume "fst (login_user L E email passphrase code d) = Inr r"
        then show "r = Resp 200 (JObj [(''expires_at_unix'', JInt (clock E 0 + kSessionAbsoluteTimeoutSeconds)),
             (''session_token'', JStr (raw_token s)), (''user_id'', JStr (c_str (user_id u)))])"
          unfolding eq by (auto simp: and_then_Inr split: prod.splits sum.splits)
      qed (use True in simp_all)
    qed
  qed
qed

section \<open>What the handlers leave alone\<close>

definition auth_step :: "db \<Rightarrow> db \<Rightarrow> bool" where
  "auth_step d d' \<longleftrightarrow> (store_ok d \<longrightarrow> store_ok d') \<and> (\<forall>e. entity_view e d' = entity_view e d) \<and>
     entities d' = entities d \<and> memberships d' = memberships d \<and>
     prefix (audit_log d) (audit_log d') \<and> (sessions_wf d \<longrightarrow> sessions_wf d')"

lemma auth_step_refl [simp, intro!]: "auth_step d d"
  by (simp add: auth_step_def)

lemma auth_step_trans: "auth_step d d' \<Longrightarrow> auth_step d' d'' \<Longrightarrow> auth_step d d''"
  unfolding auth_step_def by (metis prefix_order.trans)

lemma auth_step_log: "extends_log d d' \<Longrightarrow> auth_step d d'"
proof -
  assume x: "extends_log d d'"
  then obtain rows where d': "d' = d\<lparr>audit_log := audit_log d @ rows\<rparr>" by (auto simp: extends_log_def)
  have "entity_view e d' = entity_view e d" for e
    unfolding d' by (rule entity_view_cong) simp_all
  then show ?thesis by (simp add: auth_step_def d' store_ok_def db_ok_defs sessions_wf_def)
qed

lemma auth_step_sessions:
  assumes "data_of d' = data_of d" "db_ok d \<Longrightarrow> db_ok d'" "sessions_wf d \<Longrightarrow> sessions_wf d'"
  shows "auth_step d d'"
proof -
  note c = data_of_cong [OF assms(1)]
  have "entity_view e d' = entity_view e d" for e by (rule entity_view_cong) (simp_all add: c)
  then show ?thesis using assms(2,3) by (simp add: auth_step_def store_ok_def c)
qed

lemma auth_step_enrolled:
  assumes "email \<notin> user_email ` set (users d)" "generate_id L E \<notin> user_id ` set (users d)"
  shows "auth_step d (enrolled L E email h k d)"
proof -
  let ?u = "\<lparr>user_id = generate_id L E, user_email = email, user_created = clock E 0,
              user_pass = h, user_totp = Some (random_totp E)\<rparr>"
  have "insert_user ?u d = Some (d\<lparr>users := users d @ [?u]\<rparr>)"
    using assms by (simp add: insert_user_Some)
  then have "db_ok d \<Longrightarrow> db_ok (enrolled L E email h k d)"
    unfolding enrolled_def by - (rule mark_ok, rule insert_user_ok [of d ?u])
  then show ?thesis
    by (simp add: auth_step_def store_ok_def enrolled_def mark_enrollment_token_consumed_def
        entity_view_def tx_entity_def sessions_wf_def)
qed

lemma enroll_step: "auth_step d (snd (handle_enroll L E req d))"
proof -
  have "auth_step d (snd (enroll_transaction L E tok email p d))" for tok email p
  proof (rule enroll_transaction_cases [of L E tok email p d])
    fix x h uri
    assume "email \<notin> user_email ` set (users d)" "generate_id L E \<notin> user_id ` set (users d)"
      and eq: "enroll_transaction L E tok email p d =
         and_then (emit_audit L E 0 (generate_id L E) ''system'' [] (generate_id L E) ''user''
                     ''enrollment_token_consumed'' ''success'' (JObj []) (enrolled L E email h (rec_hash x) d))
           (\<lambda>_. Resp 200 (JObj [(''totp_provisioning_uri'', JStr uri), (''user_id'', JStr (generate_id L E))]))"
    then show ?thesis
      unfolding eq snd_and_then
      by (blast intro: auth_step_trans auth_step_enrolled auth_step_log emit_audit_extends)
  next
    assume eq: "enroll_transaction L E tok email p d = reject_enrollment L E d"
    show ?thesis
      unfolding eq reject_enrollment_def snd_and_then by (rule auth_step_log [OF emit_audit_extends])
  qed simp
  then show ?thesis by (simp add: handle_enroll_def split: option.splits)
qed

lemma mint_step: "auth_step d (snd (mint_session L E uid now d))"
  by (intro auth_step_sessions mint_data mint_ok mint_wf)

lemma login_user_step: "auth_step d (snd (login_user L E email p code d))"
proof (rule login_user_cases [of d L E email p code])
  fix u s d1 d2
  assume "mint_session L E (c_str (user_id u)) (clock E 0) d = (Inr s, d1)"
    "extends_log d1 d2" "extends_log d2 (snd (login_user L E email p code d))"
  then show ?thesis
    using mint_step [of d L E "c_str (user_id u)" "clock E 0"]
    by (metis auth_step_log auth_step_trans snd_conv)
qed (simp_all add: auth_step_log)

lemma login_step: "auth_step (sv_db s) (sv_db (snd (handle_login L E req s)))"
  by (simp add: handle_login_def Let_def split_def login_user_step
      auth_step_log [OF emit_audit_extends] split: option.splits)

lemma logout_step: "auth_step d (snd (handle_logout L E req d))"
proof -
  have *: "auth_step d (snd (revoke_session L tok d))" for tok
    by (intro auth_step_sessions revoke_data revoke_ok revoke_wf)
  then have "auth_step d (snd (emit_audit L E 0 [] ''user'' [] [] ''session'' ''session_revoked'' ''success''
      (JObj []) (snd (revoke_session L tok d))))" for tok
    by (rule auth_step_trans) (rule auth_step_log [OF emit_audit_extends])
  with * show ?thesis
    by (simp add: handle_logout_def Let_def split_def split: option.splits)
qed

lemma whoami_step: "auth_step d (snd (handle_whoami L E req d))"
proof -
  have "auth_step d (snd (validate_and_touch_session L tok t d))" for tok t
    by (intro auth_step_sessions validate_data validate_ok validate_wf)
  then have "auth_step d (snd (emit_audit L E 0 a b c f g h i k (snd (validate_and_touch_session L tok t d))))"
    for a b c f g h i k tok t
    by (rule auth_step_trans) (rule auth_step_log [OF emit_audit_extends])
  then show ?thesis
    by (simp add: handle_whoami_def Let_def split_def split: option.splits)
qed

lemma login_buckets: "buckets_ok (sv_rate s) \<Longrightarrow> buckets_ok (sv_rate (snd (handle_login L E req s)))"
  by (auto simp: handle_login_def Let_def split_def rate_limit_check_ok split: option.splits)

section \<open>Revoked sessions and spent tokens\<close>

lemma session_revoked_cong: "sessions d' = sessions d \<Longrightarrow> session_revoked sid d' = session_revoked sid d"
  by (simp add: session_revoked_def)

lemma extends_log_sessions: "extends_log d d' \<Longrightarrow> sessions d' = sessions d"
  by (auto simp: extends_log_def)

lemma extends_log_enrollments: "extends_log d d' \<Longrightarrow> enrollments d' = enrollments d"
  by (auto simp: extends_log_def)

lemma emit_audit_tables [simp]:
  "sessions (snd (emit_audit L E i a b c f g h j k d)) = sessions d"
  "enrollments (snd (emit_audit L E i a b c f g h j k d)) = enrollments d"
  "session_revoked sid (snd (emit_audit L E i a b c f g h j k d)) = session_revoked sid d"
  "token_spent th (snd (emit_audit L E i a b c f g h j k d)) = token_spent th d"
  by (rule extends_log_sessions [OF emit_audit_extends] extends_log_enrollments [OF emit_audit_extends]
        session_revoked_cong [OF extends_log_sessions [OF emit_audit_extends]]
        token_spent_cong [OF extends_log_enrollments [OF emit_audit_extends]])+

lemma enroll_transaction_sessions:
  "sessions (snd (enroll_transaction L E tok email p d)) = sessions d"
  by (rule enroll_transaction_cases [of L E tok email p d])
     (simp_all add: reject_enrollment_def enrolled_def)

lemma enroll_sessions: "sessions (snd (handle_enroll L E req d)) = sessions d"
  by (simp add: handle_enroll_def enroll_transaction_sessions split: option.splits)

lemma login_sessions:
  obtains "sessions (sv_db (snd (handle_login L E req s))) = sessions (sv_db s)"
  | uid where "sessions (sv_db (snd (handle_login L E req s))) =
      sessions (snd (mint_session L E uid (clock E 0) (sv_db s)))"
proof -
  have u: "sessions (snd (login_user L E email p code d)) = sessions d \<or>
      (\<exists>uid. sessions (snd (login_user L E email p code d)) = sessions (snd (mint_session L E uid (clock E 0) d)))"
    for email p code d
  proof (rule login_user_cases [of d L E email p code])
    fix u m d1 d2
    assume "mint_session L E (c_str (user_id u)) (clock E 0) d = (Inr m, d1)"
      "extends_log d1 d2" "extends_log d2 (snd (login_user L E email p code d))"
    then have "sessions (snd (login_user L E email p code d)) =
        sessions (snd (mint_session L E (c_str (user_id u)) (clock E 0) d))"
      by (simp add: extends_log_sessions)
    then show ?thesis by blast
  qed (simp_all add: extends_log_sessions)
  have "sessions (sv_db (snd (handle_login L E req s))) = sessions (sv_db s) \<or>
      (\<exists>uid. sessions (sv_db (snd (handle_login L E req s))) =
         sessions (snd (mint_session L E uid (clock E 0) (sv_db s))))"
    using u by (simp add: handle_login_def Let_def split_def split: option.splits)
  then show ?thesis using that by blast
qed

lemma revoked_enroll: "session_revoked sid d \<Longrightarrow> session_revoked sid (snd (handle_enroll L E req d))"
  using session_revoked_cong [OF enroll_sessions] by simp

lemma revoked_login:
  assumes "session_revoked sid (sv_db s)"
  shows "session_revoked sid (sv_db (snd (handle_login L E req s)))"
proof (rule login_sessions [of L E req s])
  fix uid
  assume "sessions (sv_db (snd (handle_login L E req s))) =
      sessions (snd (mint_session L E uid (clock E 0) (sv_db s)))"
  moreover have "session_revoked sid (snd (mint_session L E uid (clock E 0) (sv_db s)))"
    using session_revoked_step [OF assms, of L "Mint E uid (clock E 0)"] by simp
  ultimately show ?thesis by (simp add: session_revoked_def)
qed (use assms session_revoked_cong in blast)

lemma revoked_logout:
  assumes "session_revoked sid d" shows "session_revoked sid (snd (handle_logout L E req d))"
proof -
  have "session_revoked sid (snd (revoke_session L tok d))" for tok
    using session_revoked_step [OF assms, of L "Revoke tok"] by simp
  with assms show ?thesis
    by (simp add: handle_logout_def Let_def split_def split: option.splits)
qed

lemma revoked_whoami:
  assumes "session_revoked sid d" shows "session_revoked sid (snd (handle_whoami L E req d))"
proof -
  have "session_revoked sid (snd (validate_and_touch_session L tok t d))" for tok t
    using session_revoked_step [OF assms, of L "Validate tok t"] by simp
  with assms show ?thesis
    by (simp add: handle_whoami_def Let_def split_def split: option.splits)
qed

lemma revoked_require:
  assumes "session_revoked sid d" shows "session_revoked sid (snd (require_session L E req d))"
proof -
  have "session_revoked sid (snd (validate_and_touch_session L tok t d))" for tok t
    using session_revoked_step [OF assms, of L "Validate tok t"] by simp
  with assms show ?thesis by (simp add: require_session_def split: option.splits)
qed

lemma spent_enroll:
  assumes "token_spent h d" shows "token_spent h (snd (handle_enroll L E req d))"
proof -
  have "token_spent h (snd (enroll_transaction L E tok email p d))" for tok email p
  proof (rule enroll_transaction_cases [of L E tok email p d])
    fix x ph uri
    assume eq: "enroll_transaction L E tok email p d =
         and_then (emit_audit L E 0 (generate_id L E) ''system'' [] (generate_id L E) ''user''
                     ''enrollment_token_consumed'' ''success'' (JObj []) (enrolled L E email ph (rec_hash x) d))
           (\<lambda>_. Resp 200 (JObj [(''totp_provisioning_uri'', JStr uri), (''user_id'', JStr (generate_id L E))]))"
    have "token_spent h (enrolled L E email ph (rec_hash x) d)"
      unfolding enrolled_def
      by (rule token_spent_mark) (use assms in \<open>simp add: token_spent_def\<close>)
    then show ?thesis unfolding eq by simp
  qed (use assms in \<open>simp_all add: reject_enrollment_def\<close>)
  with assms show ?thesis by (simp add: handle_enroll_def split: option.splits)
qed

lemma session_ops_enrollments:
  "enrollments (snd (mint_session L E uid now d)) = enrollments d"
  "enrollments (snd (revoke_session L tok d)) = enrollments d"
  "enrollments (snd (validate_and_touch_session L tok now d)) = enrollments d"
  by (rule data_of_cong [OF mint_data] data_of_cong [OF revoke_data] data_of_cong [OF validate_data])+

lemma login_enrollments: "enrollments (sv_db (snd (handle_login L E req s))) = enrollments (sv_db s)"
proof -
  have "enrollments (snd (login_user L E email p code d)) = enrollments d" for email p code d
  proof (rule login_user_cases [of d L E email p code])
    fix u m d1 d2
    assume "mint_session L E (c_str (user_id u)) (clock E 0) d = (Inr m, d1)"
      "extends_log d1 d2" "extends_log d2 (snd (login_user L E email p code d))"
    then show ?thesis
      using session_ops_enrollments(1) [of L E "c_str (user_id u)" "clock E 0" d]
      by (simp add: extends_log_enrollments)
  qed (simp_all add: extends_log_enrollments)
  then show ?thesis by (simp add: handle_login_def Let_def split_def split: option.splits)
qed

lemma logout_enrollments: "enrollments (snd (handle_logout L E req d)) = enrollments d"
  by (simp add: handle_logout_def Let_def split_def session_ops_enrollments split: option.splits)

lemma whoami_enrollments: "enrollments (snd (handle_whoami L E req d)) = enrollments d"
  by (simp add: handle_whoami_def Let_def split_def session_ops_enrollments split: option.splits)

end
