(* ===== verification/Entities_Handler.thy ===== *)
theory Entities_Handler
  imports Entity_Scope
begin

text \<open>
  The entity routes (\<open>server/data/EntitiesHandler.cpp\<close>): list, get, create, update and delete.

  The lemmas give the result of each handler past the guard, interpret the contract
  \<open>entity_route\<close> and show that deleting an entity never removes it: the membership row the
  owner check has just found still refers to it.
\<close>

definition emit_audit_entity ::
  "third_party \<Rightarrow> env \<Rightarrow> string \<Rightarrow> string \<Rightarrow> string \<Rightarrow> string \<Rightarrow> string \<Rightarrow> string \<Rightarrow> json \<Rightarrow> db \<Rightarrow>
   (string + unit) \<times> db" where
  "emit_audit_entity L E actor domain subject subject_kind action outcome details d =
     record_event L (append_ok E 0)
       \<lparr>ev_ts_ms = clock_ms E, ev_actor = actor, ev_actor_kind = ''user'', ev_domain = domain,
        ev_subject = subject, ev_subject_kind = subject_kind, ev_action = action,
        ev_outcome = outcome, ev_details = details\<rparr> d"

definition valid_entity_kind :: "string \<Rightarrow> bool" where
  "valid_entity_kind kind \<longleftrightarrow> kind = ''Individual'' \<or> kind = ''LLC'' \<or> kind = ''Corporation'' \<or>
     kind = ''Partnership'' \<or> kind = ''Trust'' \<or> kind = ''Other''"

definition entity_row_to_json :: "entity_row \<Rightarrow> json" where
  "entity_row_to_json r =
     JObj [(''created_at_unix'', JInt (ent_created r)), (''id'', JStr (c_str (ent_id r))),
           (''kind'', JStr (c_str (ent_kind r))), (''name'', JStr (c_str (ent_name r)))]"

text \<open>\<open>entities JOIN entity_memberships ... WHERE m.user_id = ?\<close>, one row per membership.\<close>

definition entities_of_user :: "db \<Rightarrow> string \<Rightarrow> entity_row list" where
  "entities_of_user d uid =
     concat (map (\<lambda>e. map (\<lambda>_. e)
         (filter (\<lambda>m. mem_entity m = ent_id e \<and> mem_user m = uid) (memberships d)))
       (entities d))"

definition handle_get_entities :: "third_party \<Rightarrow> env \<Rightarrow> request \<Rightarrow> db \<Rightarrow> db outcome" where
  "handle_get_entities L E req d =
     (case require_session L E req d of
        (None, d1) \<Rightarrow> (Inr (err 401 ''unauthorized''), d1)
      | (Some uid, d1) \<Rightarrow>
          (Inr (Resp 200 (JObj
             [(''items'', JArr (map entity_row_to_json (sort_key ent_created (entities_of_user d1 uid)))),
              (''next_cursor'', JNull)])), d1))"

definition handle_get_entity :: "third_party \<Rightarrow> env \<Rightarrow> request \<Rightarrow> db \<Rightarrow> db outcome" where
  "handle_get_entity L E = entity_guard L E user_has_access_to_entity (path_scope ''id'')
     (\<lambda>req uid entity_id d.
        case sel_by ent_id entity_id (entities d) of
          None \<Rightarrow> (Inr (err 404 ''not_found''), d)
        | Some r \<Rightarrow> (Inr (Resp 200 (entity_row_to_json r)), d))"

definition handle_create_entity :: "third_party \<Rightarrow> env \<Rightarrow> request \<Rightarrow> db \<Rightarrow> db outcome" where
  "handle_create_entity L E req d =
     (case require_session L E req d of
        (None, d1) \<Rightarrow> (Inr (err 401 ''unauthorized''), d1)
      | (Some uid, d1) \<Rightarrow>
          (case body req of
             None \<Rightarrow> (Inr (err 400 ''invalid_json''), d1)
           | Some j \<Rightarrow>
               (case (at_string j ''name'', at_string j ''kind'') of
                  (Some name, Some kind) \<Rightarrow>
                    if \<not> valid_entity_kind kind
                    then (Inr (err_msg 400 ''invalid_kind'' ''kind must be one of: Individual, LLC, Corporation, Partnership, Trust, Other''), d1)
                    else
                      let entity_id = generate_id L E; t = clock E 1 in
                      (case insert_entity \<lparr>ent_id = entity_id, ent_name = name, ent_kind = kind, ent_created = t\<rparr> d1 of
                         None \<Rightarrow> (Inr (err 500 ''internal''), d1)
                       | Some d2 \<Rightarrow>
                           (case insert_membership \<lparr>mem_user = uid, mem_entity = entity_id, mem_role = ''owner''\<rparr> d2 of
                              None \<Rightarrow> (Inr (err 500 ''internal''), d1)
                            | Some d3 \<Rightarrow>
                                and_then (emit_audit_entity L E uid entity_id entity_id ''entity'' ''entity_created''
                                            ''success'' (JObj [(''kind'', JStr kind), (''name'', JStr name)]) d3)
                                  (\<lambda>_. Resp 201 (JObj [(''created_at_unix'', JInt t), (''id'', JStr entity_id),
                                                       (''kind'', JStr kind), (''name'', JStr name)]))))
                | _ \<Rightarrow> (Inr (err_msg 400 ''missing_fields'' ''name, kind required''), d1))))"

text \<open>The \<open>UPDATE\<close> of the columns the body names; the statement's result is not looked at.\<close>

definition update_entity_columns :: "string \<Rightarrow> string option \<Rightarrow> string option \<Rightarrow> db \<Rightarrow> db" where
  "update_entity_columns entity_id name kind d =
     (let upd = (\<lambda>f. d\<lparr>entities := upd_by ent_id entity_id f (entities d)\<rparr>) in
      case (name, kind) of
        (Some n, Some k) \<Rightarrow> upd (\<lambda>r. r\<lparr>ent_name := n, ent_kind := k\<rparr>)
      | (Some n, None) \<Rightarrow> upd (\<lambda>r. r\<lparr>ent_name := n\<rparr>)
      | (None, Some k) \<Rightarrow> upd (\<lambda>r. r\<lparr>ent_kind := k\<rparr>)
      | (None, None) \<Rightarrow> d)"

definition handle_update_entity :: "third_party \<Rightarrow> env \<Rightarrow> request \<Rightarrow> db \<Rightarrow> db outcome" where
  "handle_update_entity L E = entity_guard L E user_has_access_to_entity (path_scope ''id'')
     (\<lambda>req uid entity_id d.
        case body req of
          None \<Rightarrow> (Inr (err 400 ''invalid_json''), d)
        | Some j \<Rightarrow>
            let name = opt_string j ''name''; kind = opt_string j ''kind'' in
            if (case kind of None \<Rightarrow> False | Some k \<Rightarrow> \<not> valid_entity_kind k)
            then (Inr (err 400 ''invalid_kind''), d)
            else if sel_by ent_id entity_id (entities d) = None
            then (Inr (err 404 ''not_found''), d)
            else
              and_then (emit_audit_entity L E uid entity_id entity_id ''entity'' ''entity_updated''
                          ''success'' (JObj []) (update_entity_columns entity_id name kind d))
                (\<lambda>d'. case sel_by ent_id entity_id (entities d') of
                        Some r \<Rightarrow> Resp 200 (entity_row_to_json r)
                      | None \<Rightarrow> Resp 200 (JObj [])))"

definition handle_delete_entity :: "third_party \<Rightarrow> env \<Rightarrow> request \<Rightarrow> db \<Rightarrow> db outcome" where
  "handle_delete_entity L E = entity_guard L E user_is_owner_of_entity (path_scope ''id'')
     (\<lambda>req uid entity_id d.
        and_then (emit_audit_entity L E uid entity_id entity_id ''entity'' ''entity_deleted''
                    ''success'' (JObj []) (ignoring (delete_entity entity_id) d))
          (\<lambda>_. Resp 200 (JObj [])))"

section \<open>Confinement\<close>

lemma valid_entity_kind_iff: "valid_entity_kind kind \<longleftrightarrow> kind \<in> set entity_kinds"
  by (auto simp: valid_entity_kind_def entity_kinds_def)

lemma emit_audit_entity_confined:
  "confined e d d' \<Longrightarrow> confined e d (snd (emit_audit_entity L E a b c f g h i d'))"
  by (simp add: emit_audit_entity_def record_confined)

lemma update_entity_columns_confined:
  assumes "case kind of None \<Rightarrow> True | Some k \<Rightarrow> valid_entity_kind k"
  shows "confined e d (update_entity_columns e name kind d)"
  using assms
  by (auto simp: update_entity_columns_def valid_entity_kind_iff intro!: confined_update_entity
           split: option.splits)

text \<open>The owner's membership row refers to the entity, so the \<open>DELETE\<close> always fails.\<close>

lemma delete_owned_fails:
  assumes "db_ok d" "user_is_owner_of_entity d uid e"
  shows "ignoring (delete_entity e) d = d"
proof -
  have "e \<in> ent_id ` set (entities d)"
    using access_entity_exists [OF assms(1) owner_has_access [OF assms(2)]] .
  then show ?thesis
    using owner_referenced [OF assms(2)] by (simp add: ignoring_def delete_entity_def)
qed

lemma delete_owned_confined:
  assumes "user_is_owner_of_entity d uid e"
  shows "confined e d (ignoring (delete_entity e) d)"
proof (cases "e \<in> ent_id ` set (entities d)")
  case True
  then have "ignoring (delete_entity e) d = d"
    using owner_referenced [OF assms] by (simp add: ignoring_def delete_entity_def)
  then show ?thesis by simp
next
  case False
  then have "ignoring (delete_entity e) d = d"
    by (simp add: ignoring_def delete_entity_def del_by_missing)
  then show ?thesis by simp
qed

interpretation get_entity: entity_route "handle_get_entity L E" "require_session L E"
  "path_scope ''id''" user_has_access_to_entity
  unfolding handle_get_entity_def
  by (rule entity_guard_route) (simp_all split: option.splits)

interpretation update_entity: entity_route "handle_update_entity L E" "require_session L E"
  "path_scope ''id''" user_has_access_to_entity
  unfolding handle_update_entity_def
  by (rule entity_guard_route)
     (auto simp: Let_def intro!: emit_audit_entity_confined update_entity_columns_confined
           split: option.splits)

interpretation delete_entity: entity_route "handle_delete_entity L E" "require_session L E"
  "path_scope ''id''" user_is_owner_of_entity
  unfolding handle_delete_entity_def
  by (rule entity_guard_route)
     (simp_all add: owner_has_access emit_audit_entity_confined delete_owned_confined)

section \<open>Listing and creating\<close>

lemma entities_of_user_iff:
  "r \<in> set (entities_of_user d uid) \<longleftrightarrow> r \<in> set (entities d) \<and> user_has_access_to_entity d uid (ent_id r)"
  by (auto simp: entities_of_user_def user_has_access_to_entity_def list_ex_iff)

lemma filter_unique_key:
  "unique_by key t \<Longrightarrow> filter (\<lambda>r. key r = k) t = (case sel_by key k t of None \<Rightarrow> [] | Some r \<Rightarrow> [r])"
proof (induction t)
  case (Cons a t)
  have "filter (\<lambda>r. key r = key a) t = []"
  proof (rule filter_False)
    have "key a \<notin> key ` set t" using Cons.prems by (simp add: unique_by_def)
    then show "\<forall>r \<in> set t. key r \<noteq> key a" by (metis imageI)
  qed
  with Cons show ?case by (auto simp: unique_by_def)
qed simp

text \<open>The join lists each entity of the user once, in insertion order.\<close>

lemma concat_map_if: "concat (map (\<lambda>e. if P e then [e] else []) xs) = filter P xs"
  by (induction xs) auto

lemma entities_of_user_eq:
  assumes "db_ok d"
  shows "entities_of_user d uid = filter (\<lambda>e. user_has_access_to_entity d uid (ent_id e)) (entities d)"
proof -
  have u: "unique_by mem_key (memberships d)" using assms by (simp add: db_ok_defs)
  have "map (\<lambda>_. e) (filter (\<lambda>m. mem_entity m = ent_id e \<and> mem_user m = uid) (memberships d)) =
      (if user_has_access_to_entity d uid (ent_id e) then [e] else [])" for e :: entity_row
  proof -
    have "filter (\<lambda>m. mem_entity m = ent_id e \<and> mem_user m = uid) (memberships d) =
        filter (\<lambda>m. mem_key m = (uid, ent_id e)) (memberships d)"
      by (intro filter_cong) (auto simp: mem_key_def)
    also have "\<dots> = (case sel_by mem_key (uid, ent_id e) (memberships d) of None \<Rightarrow> [] | Some m \<Rightarrow> [m])"
      by (rule filter_unique_key [OF u])
    moreover have "user_has_access_to_entity d uid (ent_id e) \<longleftrightarrow>
        sel_by mem_key (uid, ent_id e) (memberships d) \<noteq> None"
      by (force simp: user_has_access_to_entity_def list_ex_iff sel_by_None mem_key_def image_iff)
    ultimately show ?thesis by (auto split: option.splits)
  qed
  then have "entities_of_user d uid =
      concat (map (\<lambda>e. if user_has_access_to_entity d uid (ent_id e) then [e] else []) (entities d))"
    unfolding entities_of_user_def by (simp only:)
  also have "\<dots> = filter (\<lambda>e. user_has_access_to_entity d uid (ent_id e)) (entities d)"
    by (rule concat_map_if)
  finally show ?thesis .
qed

lemma snd_handle_get_entities: "snd (handle_get_entities L E req d) = snd (require_session L E req d)"
  by (simp add: handle_get_entities_def split: prod.splits option.splits)

interpretation list_entities: data_route "handle_get_entities L E" "require_session L E"
  by (rule read_only_route) (simp_all add: snd_handle_get_entities, simp add: handle_get_entities_def)

text \<open>The two rows a successful \<open>POST /entities\<close> writes.\<close>

definition entity_created :: "string \<Rightarrow> string \<Rightarrow> string \<Rightarrow> string \<Rightarrow> int \<Rightarrow> db \<Rightarrow> db" where
  "entity_created uid eid name kind t d =
     d\<lparr>entities := entities d @ [\<lparr>ent_id = eid, ent_name = name, ent_kind = kind, ent_created = t\<rparr>],
       memberships := memberships d @ [\<lparr>mem_user = uid, mem_entity = eid, mem_role = ''owner''\<rparr>]\<rparr>"

lemma handle_create_entity_cases:
  assumes "require_session L E req d = (Some uid, d1)"
  obtains (refused) r where "handle_create_entity L E req d = (Inr r, d1)" "status r \<in> {400, 500}"
  | (made) j name kind d3 where "body req = Some j" "at_string j ''name'' = Some name"
      "at_string j ''kind'' = Some kind" "valid_entity_kind kind"
      "generate_id L E \<notin> ent_id ` set (entities d1)"
      "d3 = entity_created uid (generate_id L E) name kind (clock E 1) d1"
      "db_ok d1 \<Longrightarrow> db_ok d3"
      "handle_create_entity L E req d =
         and_then (emit_audit_entity L E uid (generate_id L E) (generate_id L E) ''entity''
                    ''entity_created'' ''success'' (JObj [(''kind'', JStr kind), (''name'', JStr name)]) d3)
           (\<lambda>_. Resp 201 (JObj [(''created_at_unix'', JInt (clock E 1)), (''id'', JStr (generate_id L E)),
                                (''kind'', JStr kind), (''name'', JStr name)]))"
proof (cases "(\<exists>j name kind. body req = Some j \<and> at_string j ''name'' = Some name \<and>
    at_string j ''kind'' = Some kind \<and> valid_entity_kind kind)")
  case False
  then show ?thesis
    using assms refused
    by (force simp: handle_create_entity_def split: option.splits if_splits)
next
  case True
  then obtain j name kind where j: "body req = Some j" "at_string j ''name'' = Some name"
    "at_string j ''kind'' = Some kind" "valid_entity_kind kind" by blast
  let ?e = "\<lparr>ent_id = generate_id L E, ent_name = name, ent_kind = kind, ent_created = clock E 1\<rparr>"
  let ?m = "\<lparr>mem_user = uid, mem_entity = generate_id L E, mem_role = ''owner''\<rparr>"
  show ?thesis
  proof (cases "insert_entity ?e d1")
    case None
    then show ?thesis
      using assms j by (intro refused [of "err 500 ''internal''"]) (simp_all add: handle_create_entity_def Let_def)
  next
    case (Some d2)
    show ?thesis
    proof (cases "insert_membership ?m d2")
      case None
      then show ?thesis
        using assms j Some by (intro refused [of "err 500 ''internal''"]) (simp_all add: handle_create_entity_def Let_def)
    next
      case d3: (Some d3)
      have "d3 = entity_created uid (generate_id L E) name kind (clock E 1) d1"
        and "generate_id L E \<notin> ent_id ` set (entities d1)"
        using Some d3 by (simp_all add: insert_entity_Some insert_membership_Some entity_created_def)
      moreover have "db_ok d1 \<Longrightarrow> db_ok d3"
        using insert_membership_ok [OF insert_entity_ok [OF _ Some] d3] .
      ultimately show ?thesis
        using assms j Some d3 by (intro made) (simp_all add: handle_create_entity_def Let_def)
    qed
  qed
qed

lemma hex_nul_free: "set s \<subseteq> set hex_digits \<Longrightarrow> nul_free s"
  by (auto simp: nul_free_def list_all_iff hex_digits_def nul_def)

lemma generate_id_nul_free: "bin2hex_spec (bin2hex L) \<Longrightarrow> nul_free (generate_id L E)"
  by (simp add: generate_id_def bin2hex_spec_def hex_nul_free)

lemma entity_created_view:
  "e \<noteq> eid \<Longrightarrow> entity_view e (entity_created uid eid name kind t d) = entity_view e d"
  by (simp add: entity_view_def entity_created_def tx_entity_def)

lemma emit_audit_entity_extends: "extends_log d (snd (emit_audit_entity L E a b c f g h i d))"
  by (simp add: emit_audit_entity_def record_event_log)

lemma create_entity_route:
  assumes "bin2hex_spec (bin2hex L)"
  shows "data_route (handle_create_entity L E) (require_session L E)"
proof -
  have main: "snd (handle_create_entity L E req d) = snd (require_session L E req d) \<or>
      (\<exists>uid name kind d3. fst (require_session L E req d) = Some uid \<and> valid_entity_kind kind \<and>
         generate_id L E \<notin> ent_id ` set (entities (snd (require_session L E req d))) \<and>
         d3 = entity_created uid (generate_id L E) name kind (clock E 1) (snd (require_session L E req d)) \<and>
         (db_ok (snd (require_session L E req d)) \<longrightarrow> db_ok d3) \<and>
         extends_log d3 (snd (handle_create_entity L E req d)))" for req d
  proof (cases "require_session L E req d")
    case (Pair who d1)
    show ?thesis
    proof (cases who)
      case None
      with Pair show ?thesis by (simp add: handle_create_entity_def)
    next
      case (Some uid)
      with Pair have s: "require_session L E req d = (Some uid, d1)" by simp
      show ?thesis
      proof (rule handle_create_entity_cases [OF s])
        fix j name kind d3
        assume "valid_entity_kind kind" "generate_id L E \<notin> ent_id ` set (entities d1)"
          "d3 = entity_created uid (generate_id L E) name kind (clock E 1) d1" "db_ok d1 \<Longrightarrow> db_ok d3"
          "handle_create_entity L E req d =
             and_then (emit_audit_entity L E uid (generate_id L E) (generate_id L E) ''entity''
                ''entity_created'' ''success'' (JObj [(''kind'', JStr kind), (''name'', JStr name)]) d3)
               (\<lambda>_. Resp 201 (JObj [(''created_at_unix'', JInt (clock E 1)), (''id'', JStr (generate_id L E)),
                                    (''kind'', JStr kind), (''name'', JStr name)]))"
        then show ?thesis using s emit_audit_entity_extends by fastforce
      qed (use s in simp_all)
    qed
  qed
  have view: "entity_view e (snd (handle_create_entity L E req d)) = entity_view e d"
    if "e \<in> ent_id ` set (entities d)" for e req d
  proof -
    let ?d1 = "snd (require_session L E req d)"
    have s: "entity_view e ?d1 = entity_view e d" "entities ?d1 = entities d"
      using data_of_cong [OF require_data [of L E req d]] by (auto intro: entity_view_cong)
    from main [of req d] show ?thesis
    proof (elim disjE exE conjE)
      fix uid name kind d3
      assume "generate_id L E \<notin> ent_id ` set (entities ?d1)"
        and d3: "d3 = entity_created uid (generate_id L E) name kind (clock E 1) ?d1"
        and x: "extends_log d3 (snd (handle_create_entity L E req d))"
      with that s(2) have "e \<noteq> generate_id L E" by metis
      then have "entity_view e d3 = entity_view e d" using entity_created_view s(1) d3 by metis
      moreover have "entity_view e (snd (handle_create_entity L E req d)) = entity_view e d3"
        using x by (auto simp: extends_log_def intro!: entity_view_cong)
      ultimately show ?thesis by simp
    qed (simp add: s)
  qed
  have frame: "prefix (audit_log d) (audit_log (snd (handle_create_entity L E req d))) \<and>
      sessions (snd (handle_create_entity L E req d)) = sessions (snd (require_session L E req d)) \<and>
      users (snd (handle_create_entity L E req d)) = users d \<and>
      enrollments (snd (handle_create_entity L E req d)) = enrollments d" for req d
    using main [of req d] data_of_cong [OF require_data [of L E req d]]
    by (auto simp: extends_log_def entity_created_def)
  have store: "store_ok (snd (handle_create_entity L E req d))" if "store_ok d" for req d
  proof -
    have ok: "store_ok (snd (require_session L E req d))" using that by (rule require_store_ok)
    from main [of req d] show ?thesis
    proof (elim disjE exE conjE)
      fix uid name kind d3
      assume "db_ok (snd (require_session L E req d)) \<longrightarrow> db_ok d3"
        and d3: "d3 = entity_created uid (generate_id L E) name kind (clock E 1) (snd (require_session L E req d))"
        and x: "extends_log d3 (snd (handle_create_entity L E req d))"
      then have "store_ok d3"
        using ok generate_id_nul_free [OF assms] by (simp add: store_ok_def entity_created_def)
      then show ?thesis using extends_log_confined [OF x] by (simp add: confined_def)
    qed (simp add: ok)
  qed
  show ?thesis
    by unfold_locales (simp_all add: store view frame, simp add: handle_create_entity_def)
qed

end
