(* ===== verification/Number_Text.thy ===== *)
theory Number_Text
  imports Greylock_Prelude
begin

text \<open>
  Numbers in text: the readers of the C++ library the server uses on query parameters, dates and
  environment variables, and what they do with the numbers it prints.
\<close>


definition is_digit :: "char \<Rightarrow> bool" where
  "is_digit c \<longleftrightarrow> 48 \<le> (of_char c :: nat) \<and> (of_char c :: nat) \<le> 57"

definition digits_value :: "string \<Rightarrow> int" where
  "digits_value ds = foldl (\<lambda>n c. 10 * n + (of_char c - 48)) 0 ds"

text \<open>
  \<open>std::stoll\<close> and \<open>std::stoi\<close>: leading white space and one sign are skipped, the digits that
  follow are read up to the first other character; no digit, or a value out of range, throws.
\<close>

definition read_number :: "string \<Rightarrow> int option" where
  "read_number s =
     (let t = dropWhile c_isspace s;
          (neg, u) = (case t of c # r \<Rightarrow> if c = CHR ''-'' then (True, r)
                                         else if c = CHR ''+'' then (False, r) else (False, t)
                      | [] \<Rightarrow> (False, []));
          ds = takeWhile is_digit u
      in if ds = [] then None else Some (if neg then - digits_value ds else digits_value ds))"

definition in_i32 :: "int \<Rightarrow> bool" where
  "in_i32 n \<longleftrightarrow> - (2 ^ 31) \<le> n \<and> n < 2 ^ 31"

definition stoll :: "string \<Rightarrow> int option" where
  "stoll s = (case read_number s of None \<Rightarrow> None | Some v \<Rightarrow> if in_i64 v then Some v else None)"

definition stoi :: "string \<Rightarrow> int option" where
  "stoi s = (case read_number s of None \<Rightarrow> None | Some v \<Rightarrow> if in_i32 v then Some v else None)"

section \<open>Digits\<close>

lemma digit_of_char: "n < 10 \<Longrightarrow> (of_char (char_of (48 + n :: nat) :: char) :: nat) = 48 + n"
  by simp

lemma digits_rev_digits: "list_all is_digit (digits_rev n) \<and> digits_rev n \<noteq> []"
proof (induction n rule: digits_rev.induct)
  case (1 n)
  have "n mod 10 < 10" by simp
  then have "is_digit (char_of (48 + n mod 10))"
    by (simp add: is_digit_def)
  with 1 show ?case by (simp add: digits_rev.simps [of n])
qed

lemma digits_value_snoc: "digits_value (ds @ [c]) = 10 * digits_value ds + (of_char c - 48)"
  by (simp add: digits_value_def)

lemma digits_value_single: "digits_value [c] = of_char c - 48"
  by (simp add: digits_value_def)

lemma of_char_digit: "(of_char (char_of (48 + n mod 10) :: char) :: int) = 48 + int (n mod 10)"
proof -
  have "n mod 10 < 10" by simp
  then have "(of_char (char_of (48 + n mod 10) :: char) :: nat) = 48 + n mod 10"
    by (rule digit_of_char)
  then have "int (of_char (char_of (48 + n mod 10) :: char)) = int (48 + n mod 10)"
    by (simp only:)
  then show ?thesis by (simp only: of_nat_of_char of_nat_add of_nat_numeral)
qed

lemma digits_value_rev: "digits_value (rev (digits_rev n)) = int n"
proof (induction n rule: digits_rev.induct)
  case (1 n)
  show ?case
  proof (cases "n < 10")
    case True
    then have "rev (digits_rev n) = [char_of (48 + n mod 10)]"
      unfolding digits_rev.simps [of n] by (simp only: if_True rev.simps append_Nil)
    then have "digits_value (rev (digits_rev n)) = int (n mod 10)"
      by (simp only: digits_value_single of_char_digit)
    with True show ?thesis by (simp only: mod_less)
  next
    case False
    then have "rev (digits_rev n) = rev (digits_rev (n div 10)) @ [char_of (48 + n mod 10)]"
      unfolding digits_rev.simps [of n] by (simp only: if_False rev.simps)
    then have "digits_value (rev (digits_rev n)) = 10 * int (n div 10) + int (n mod 10)"
      using 1 [OF False] by (simp only: digits_value_snoc of_char_digit)
    also have "\<dots> = int (10 * (n div 10) + n mod 10)" by (simp only: of_nat_add of_nat_mult of_nat_numeral)
    also have "\<dots> = int n" by (simp only: mult_div_mod_eq)
    finally show ?thesis .
  qed
qed

lemma nat_to_string_digits: "list_all is_digit (nat_to_string n)" "nat_to_string n \<noteq> []"
  "digits_value (nat_to_string n) = int n"
  using digits_rev_digits [of n] digits_value_rev [of n] by (simp_all add: nat_to_string_def list_all_rev)

lemma digit_not_special:
  "is_digit c \<Longrightarrow> \<not> c_isspace c \<and> c \<noteq> CHR ''-'' \<and> c \<noteq> CHR ''+''"
  by (auto simp: is_digit_def c_isspace_def)

lemma takeWhile_all: "list_all P xs \<Longrightarrow> takeWhile P xs = xs"
  by (simp add: list_all_iff)

text \<open>A run of digits is read as its value.\<close>

lemma read_digits:
  assumes "list_all is_digit ds" "ds \<noteq> []" shows "read_number ds = Some (digits_value ds)"
proof -
  obtain c cs where c: "ds = c # cs" using assms(2) by (cases ds) auto
  then have "\<not> c_isspace c \<and> c \<noteq> CHR ''-'' \<and> c \<noteq> CHR ''+''"
    using assms(1) digit_not_special by simp
  moreover have "takeWhile is_digit (c # cs) = c # cs"
    using assms(1) c by (intro takeWhile_all) simp
  ultimately show ?thesis by (simp add: read_number_def Let_def c)
qed

lemma read_negative:
  assumes "list_all is_digit ds" "ds \<noteq> []"
  shows "read_number (CHR ''-'' # ds) = Some (- digits_value ds)"
proof -
  have "\<not> c_isspace (CHR ''-'')" by (simp add: c_isspace_def)
  then show ?thesis using assms by (simp add: read_number_def takeWhile_all)
qed

text \<open>A number that was printed is read back unchanged.\<close>

lemma read_to_string: "read_number (int_to_string n) = Some n"
  using nat_to_string_digits [of "nat n"] nat_to_string_digits [of "nat (- n)"]
  by (simp add: int_to_string_def read_digits read_negative)

lemma stoll_to_string:
  assumes "in_i64 n" shows "stoll (int_to_string n) = Some n"
  using assms by (simp add: stoll_def read_to_string)

text \<open>A number printed in at most \<open>w\<close> digits, and a number padded with zeros to the left.\<close>

lemma digits_value_zeros: "digits_value (replicate k (CHR ''0'') @ ds) = digits_value ds"
proof (induction k)
  case (Suc k)
  have "digits_value (CHR ''0'' # xs) = digits_value xs" for xs
    by (simp add: digits_value_def)
  with Suc show ?case by simp
qed simp

lemma length_digits_rev: "0 < w \<Longrightarrow> n < 10 ^ w \<Longrightarrow> length (digits_rev n) \<le> w"
proof (induction n arbitrary: w rule: digits_rev.induct)
  case (1 n)
  show ?case
  proof (cases "n < 10")
    case True
    then show ?thesis using 1(2) by (simp add: digits_rev.simps [of n])
  next
    case False
    obtain v where v: "w = Suc v" using 1(2) by (cases w) auto
    then have "n div 10 < 10 ^ v" using 1(3) by (simp add: less_mult_imp_div_less mult.commute)
    moreover have "0 < v" using False 1(3) v by (cases v) auto
    ultimately have "length (digits_rev (n div 10)) \<le> v" using 1(1) [OF False] by blast
    then show ?thesis by (simp add: digits_rev.simps [of n] v)
  qed
qed

end
