(* ===== verification/Transactions_Handler.thy ===== *)
theory Transactions_Handler
  imports Entity_Scope Number_Text
begin

text \<open>
  The transaction routes (\<open>server/data/TransactionsHandler.cpp\<close>): the paged list of an account,
  get, create, update and delete.  A transaction belongs to the entity of its account.

  The lemmas interpret \<open>entity_route\<close> and say what a page and its cursor are to the whole list.
\<close>

definition kDefaultLimit :: int where
  "kDefaultLimit = 100"

definition kMaxLimit :: int where
  "kMaxLimit = 1000"

definition emit_audit_tx ::
  "third_party \<Rightarrow> env \<Rightarrow> string \<Rightarrow> string \<Rightarrow> string \<Rightarrow> string \<Rightarrow> string \<Rightarrow> json \<Rightarrow> db \<Rightarrow>
   (string + unit) \<times> db" where
  "emit_audit_tx L E actor domain subject action outcome details d =
     record_event L (append_ok E 0)
       \<lparr>ev_ts_ms = clock_ms E, ev_actor = actor, ev_actor_kind = ''user'', ev_domain = domain,
        ev_subject = subject, ev_subject_kind = ''transaction'', ev_action = action,
        ev_outcome = outcome, ev_details = details\<rparr> d"

definition deserialize_description :: "string option \<Rightarrow> string" where
  "deserialize_description x = (case x of None \<Rightarrow> [] | Some s \<Rightarrow> s)"

definition tx_row_to_json :: "tx_row \<Rightarrow> json" where
  "tx_row_to_json r =
     JObj [(''account_id'', JStr (c_str (tx_account r))), (''amount_cents'', JInt (tx_amount r)),
           (''category'', json_nullable (map_option c_str (tx_category r))),
           (''created_at_unix'', JInt (tx_created r)),
           (''description'', JStr (deserialize_description (tx_description r))),
           (''id'', JStr (c_str (tx_id r))),
           (''plaid_transaction_id'', json_nullable (map_option c_str (tx_plaid r))),
           (''posted_at_unix'', JInt (tx_posted r))]"

definition get_tx_account_entity_id :: "db \<Rightarrow> string \<Rightarrow> string" where
  "get_tx_account_entity_id d account_id = text_of_key acc_id acc_entity account_id (accounts d)"

text \<open>\<open>transactions t JOIN accounts a ON a.id = t.account_id WHERE t.id = ?\<close>.\<close>

definition get_tx_ids :: "db \<Rightarrow> string \<Rightarrow> string \<times> string" where
  "get_tx_ids d k =
     (case sel_by tx_id k (transactions d) of
        None \<Rightarrow> ([], [])
      | Some t \<Rightarrow>
          (case sel_by acc_id (tx_account t) (accounts d) of
             None \<Rightarrow> ([], [])
           | Some a \<Rightarrow> (c_str (tx_account t), c_str (acc_entity a))))"

definition tx_scope :: "string \<Rightarrow> request \<Rightarrow> db \<Rightarrow> string option" where
  "tx_scope p = lookup_scope p (\<lambda>d k. snd (get_tx_ids d k))"

definition parse_qparam_int :: "request \<Rightarrow> string \<Rightarrow> int \<Rightarrow> int" where
  "parse_qparam_int req key default_val =
     (case query req key of
        None \<Rightarrow> default_val
      | Some s \<Rightarrow> (case stoll s of None \<Rightarrow> default_val | Some v \<Rightarrow> v))"

text \<open>The page of a query: \<open>WHERE ... ORDER BY posted_at_unix DESC LIMIT ? OFFSET ?\<close>.\<close>

definition select_transactions :: "db \<Rightarrow> string \<Rightarrow> int \<Rightarrow> int \<Rightarrow> tx_row list" where
  "select_transactions d account_id from until =
     sort_key (\<lambda>r. - tx_posted r)
       (filter (\<lambda>r. tx_account r = account_id \<and> from \<le> tx_posted r \<and> tx_posted r \<le> until) (transactions d))"

definition page :: "int \<Rightarrow> int \<Rightarrow> 'a list \<Rightarrow> 'a list" where
  "page limit offset xs = take (nat limit) (drop (nat offset) xs)"

definition page_limit :: "request \<Rightarrow> int" where
  "page_limit req =
     (let limit = parse_qparam_int req ''limit'' kDefaultLimit in
      if limit \<le> 0 \<or> limit > kMaxLimit then kDefaultLimit else limit)"

definition page_offset :: "request \<Rightarrow> int" where
  "page_offset req =
     (let offset = parse_qparam_int req ''offset'' 0 in if offset < 0 then 0 else offset)"

definition next_cursor :: "int \<Rightarrow> int \<Rightarrow> 'a list \<Rightarrow> json" where
  "next_cursor limit offset items =
     (if int (length items) = limit then JStr (int_to_string (to_i64 (offset + limit))) else JNull)"

definition handle_list_transactions :: "third_party \<Rightarrow> env \<Rightarrow> request \<Rightarrow> db \<Rightarrow> db outcome" where
  "handle_list_transactions L E =
     entity_guard L E user_has_access_to_entity (lookup_scope ''account_id'' get_tx_account_entity_id)
     (\<lambda>req uid entity_id d.
        let from = parse_qparam_int req ''from'' 0;
            until = parse_qparam_int req ''to'' (2 ^ 63 - 1);
            limit = page_limit req;
            offset = page_offset req;
            items = page limit offset (select_transactions d (path_param req ''account_id'') from until)
        in (Inr (Resp 200 (JObj [(''items'', JArr (map tx_row_to_json items)),
                                 (''next_cursor'', next_cursor limit offset items)])), d))"

definition handle_get_transaction :: "third_party \<Rightarrow> env \<Rightarrow> request \<Rightarrow> db \<Rightarrow> db outcome" where
  "handle_get_transaction L E = entity_guard L E user_has_access_to_entity (tx_scope ''id'')
     (\<lambda>req uid entity_id d.
        case sel_by tx_id (path_param req ''id'') (transactions d) of
          None \<Rightarrow> (Inr (err 404 ''not_found''), d)
        | Some r \<Rightarrow> (Inr (Resp 200 (tx_row_to_json r)), d))"

definition handle_create_transaction :: "third_party \<Rightarrow> env \<Rightarrow> request \<Rightarrow> db \<Rightarrow> db outcome" where
  "handle_create_transaction L E =
     entity_guard L E user_has_access_to_entity (lookup_scope ''account_id'' get_tx_account_entity_id)
     (\<lambda>req uid entity_id d.
        case body req of
          None \<Rightarrow> (Inr (err 400 ''invalid_json''), d)
        | Some j \<Rightarrow>
            (case at_int64 j ''amount_cents'' of
               None \<Rightarrow> (Inr (err_msg 400 ''missing_fields'' ''amount_cents required''), d)
             | Some amount_cents \<Rightarrow>
                 let account_id = path_param req ''account_id'';
                     posted_at_unix = (case opt_int64 j ''posted_at_unix'' of None \<Rightarrow> clock E 1 | Some p \<Rightarrow> p);
                     description = (case opt_string j ''description'' of None \<Rightarrow> [] | Some s \<Rightarrow> s);
                     category = (case opt_string j ''category'' of None \<Rightarrow> [] | Some s \<Rightarrow> s);
                     tx = generate_id L E; t = clock E 2
                 in case insert_transaction \<lparr>tx_id = tx, tx_account = account_id, tx_plaid = None,
                           tx_posted = posted_at_unix, tx_amount = amount_cents,
                           tx_description = null_if_empty description,
                           tx_category = null_if_empty category, tx_created = t\<rparr> d of
                      None \<Rightarrow> (Inr (err 500 ''internal''), d)
                    | Some d' \<Rightarrow>
                        and_then (emit_audit_tx L E uid entity_id tx ''transaction_created'' ''success''
                                    (JObj [(''account_id'', JStr account_id), (''amount_cents'', JInt amount_cents)]) d')
                          (\<lambda>_. Resp 201 (JObj
                             [(''account_id'', JStr account_id), (''amount_cents'', JInt amount_cents),
                              (''category'', json_nullable (null_if_empty category)),
                              (''created_at_unix'', JInt t), (''description'', JStr description),
                              (''id'', JStr tx), (''plaid_transaction_id'', JNull),
                              (''posted_at_unix'', JInt posted_at_unix)]))))"

definition handle_update_transaction :: "third_party \<Rightarrow> env \<Rightarrow> request \<Rightarrow> db \<Rightarrow> db outcome" where
  "handle_update_transaction L E = entity_guard L E user_has_access_to_entity (tx_scope ''id'')
     (\<lambda>req uid entity_id d.
        case body req of
          None \<Rightarrow> (Inr (err 400 ''invalid_json''), d)
        | Some j \<Rightarrow>
            let tx = path_param req ''id'';
                upd = (\<lambda>f d. d\<lparr>transactions := upd_by tx_id tx f (transactions d)\<rparr>);
                d' = exec_all
                  [if_given (opt_int64 j ''amount_cents'') (\<lambda>a. upd (\<lambda>r. r\<lparr>tx_amount := a\<rparr>)),
                   if_given (opt_int64 j ''posted_at_unix'') (\<lambda>p. upd (\<lambda>r. r\<lparr>tx_posted := p\<rparr>)),
                   if_given (opt_string j ''description'') (\<lambda>s. upd (\<lambda>r. r\<lparr>tx_description := Some s\<rparr>)),
                   if_given (opt_string j ''category'') (\<lambda>c. upd (\<lambda>r. r\<lparr>tx_category := Some c\<rparr>))] d
            in and_then (emit_audit_tx L E uid entity_id tx ''transaction_updated'' ''success'' (JObj []) d')
                 (\<lambda>d'. case sel_by tx_id tx (transactions d') of
                         Some r \<Rightarrow> Resp 200 (tx_row_to_json r)
                       | None \<Rightarrow> Resp 200 (JObj [])))"

definition handle_delete_transaction :: "third_party \<Rightarrow> env \<Rightarrow> request \<Rightarrow> db \<Rightarrow> db outcome" where
  "handle_delete_transaction L E = entity_guard L E user_has_access_to_entity (tx_scope ''id'')
     (\<lambda>req uid entity_id d.
        let tx = path_param req ''id'' in
        and_then (emit_audit_tx L E uid entity_id tx ''transaction_deleted'' ''success'' (JObj [])
                    (d\<lparr>transactions := del_by tx_id tx (transactions d)\<rparr>))
          (\<lambda>_. Resp 200 (JObj [])))"

section \<open>Confinement\<close>

lemma emit_audit_tx_confined:
  "confined e d d' \<Longrightarrow> confined e d (snd (emit_audit_tx L E a b c g h i d'))"
  by (simp add: emit_audit_tx_def record_confined)

lemma tx_account_scopeD:
  "lookup_scope p get_tx_account_entity_id req d = Some e \<Longrightarrow>
     text_of_key acc_id acc_entity (path_param req p) (accounts d) = e \<and> e \<noteq> []"
  by (drule lookup_scopeD) (simp add: get_tx_account_entity_id_def)

lemma account_scope_tx_entity:
  assumes "text_of_key acc_id acc_entity (tx_account r) (accounts d) = e" "e \<noteq> []" "store_ok d"
  shows "tx_entity d r = Some e"
proof -
  obtain a where a: "sel_by acc_id (tx_account r) (accounts d) = Some a" "a \<in> set (accounts d)"
    "c_str (acc_entity a) = e"
    using assms(1,2) by (rule text_of_key_exists)
  then have "acc_entity a = e"
    using fk_nul_free [OF assms(3) store_keys(6) [OF assms(3)]] by simp
  with a show ?thesis by (simp add: tx_entity_def)
qed

lemma tx_scope_in: "tx_scope p req d = Some e \<Longrightarrow> tx_in (path_param req p) e d"
proof -
  assume "tx_scope p req d = Some e"
  then have s: "snd (get_tx_ids d (path_param req p)) = e" "e \<noteq> []"
    by (auto simp: tx_scope_def dest: lookup_scopeD)
  show ?thesis
    unfolding tx_in_def
  proof (intro impI ballI)
    fix t assume ok: "store_ok d" and "t \<in> set (transactions d)" "tx_id t = path_param req p"
    then have "sel_by tx_id (path_param req p) (transactions d) = Some t"
      using sel_by_mem [OF store_keys(3) [OF ok]] by metis
    with s obtain a where a: "sel_by acc_id (tx_account t) (accounts d) = Some a" "c_str (acc_entity a) = e"
      by (auto simp: get_tx_ids_def split: option.splits)
    then have "a \<in> set (accounts d)" by (auto dest: sel_by_Some)
    then have "acc_entity a = e" using fk_nul_free [OF ok store_keys(6) [OF ok]] a(2) by simp
    with a(1) show "tx_entity d t = Some e" by (simp add: tx_entity_def)
  qed
qed

interpretation list_transactions: entity_route "handle_list_transactions L E" "require_session L E"
  "lookup_scope ''account_id'' get_tx_account_entity_id" user_has_access_to_entity
  unfolding handle_list_transactions_def by (rule entity_guard_route) (simp_all add: Let_def)

interpretation get_transaction: entity_route "handle_get_transaction L E" "require_session L E"
  "tx_scope ''id''" user_has_access_to_entity
  unfolding handle_get_transaction_def by (rule entity_guard_route) (simp_all split: option.splits)

interpretation create_transaction: entity_route "handle_create_transaction L E" "require_session L E"
  "lookup_scope ''account_id'' get_tx_account_entity_id" user_has_access_to_entity
  unfolding handle_create_transaction_def
  by (rule entity_guard_route)
     (auto simp: Let_def dest!: tx_account_scopeD
           intro!: emit_audit_tx_confined confined_insert_transaction account_scope_tx_entity
           split: option.splits)

interpretation update_transaction: entity_route "handle_update_transaction L E" "require_session L E"
  "tx_scope ''id''" user_has_access_to_entity
  unfolding handle_update_transaction_def
proof (rule entity_guard_route, goal_cases)
  case (2 req uid e d)
  then have "tx_in (path_param req ''id'') e d" by (intro tx_scope_in)
  then show ?case
    by (auto simp: Let_def intro!: emit_audit_tx_confined stays_exec_all [where P = "tx_in (path_param req ''id'') e"]
        stays_if_given stays_transaction split: option.splits)
qed

interpretation delete_transaction: entity_route "handle_delete_transaction L E" "require_session L E"
  "tx_scope ''id''" user_has_access_to_entity
  unfolding handle_delete_transaction_def
proof (rule entity_guard_route, goal_cases)
  case (2 req uid e d)
  then have "tx_in (path_param req ''id'') e d" by (intro tx_scope_in)
  then show ?case
    by (auto simp: Let_def tx_in_def intro!: emit_audit_tx_confined confined_delete_transaction)
qed

section \<open>Paging\<close>

lemma page_limit_range: "1 \<le> page_limit req \<and> page_limit req \<le> kMaxLimit"
  by (simp add: page_limit_def Let_def kDefaultLimit_def kMaxLimit_def)

lemma page_offset_nonneg: "0 \<le> page_offset req"
  by (simp add: page_offset_def Let_def)

text \<open>A full page does not reach past the end, a page that is not full is the last one.\<close>

lemma next_cursor_null:
  "next_cursor limit offset (page limit offset xs) = JNull \<Longrightarrow> 0 \<le> limit \<Longrightarrow>
     page limit offset xs = drop (nat offset) xs"
  by (auto simp: next_cursor_def page_def split: if_splits)

lemma next_cursor_printed:
  assumes "next_cursor limit offset (page limit offset xs) = JStr cursor" "0 < limit" "0 \<le> offset"
  shows "cursor = int_to_string (to_i64 (offset + limit))" "nat offset + nat limit \<le> length xs"
    "page limit offset xs @ drop (nat (offset + limit)) xs = drop (nat offset) xs"
proof -
  show "cursor = int_to_string (to_i64 (offset + limit))" and len: "nat offset + nat limit \<le> length xs"
    using assms by (auto simp: next_cursor_def page_def split: if_splits)
  show "page limit offset xs @ drop (nat (offset + limit)) xs = drop (nat offset) xs"
    using assms(2,3) append_take_drop_id [of "nat limit" "drop (nat offset) xs"]
    by (simp add: page_def nat_add_distrib add.commute)
qed

end
