(* ===== verification/Categories_Handler.thy ===== *)
theory Categories_Handler
  imports Entity_Scope "HOL-Library.Char_ord" "HOL-Library.List_Lexorder"
begin

text \<open>
  The category routes (\<open>server/data/CategoriesHandler.cpp\<close>): list (ordered by name, compared byte
  by byte as SQLite's default collation does), get, create, update and delete, each an
  interpretation of \<open>entity_route\<close>.
\<close>

definition emit_audit_cat ::
  "third_party \<Rightarrow> env \<Rightarrow> string \<Rightarrow> string \<Rightarrow> string \<Rightarrow> string \<Rightarrow> string \<Rightarrow> json \<Rightarrow> db \<Rightarrow>
   (string + unit) \<times> db" where
  "emit_audit_cat L E actor domain subject action outcome details d =
     record_event L (append_ok E 0)
       \<lparr>ev_ts_ms = clock_ms E, ev_actor = actor, ev_actor_kind = ''user'', ev_domain = domain,
        ev_subject = subject, ev_subject_kind = ''category'', ev_action = action,
        ev_outcome = outcome, ev_details = details\<rparr> d"

definition category_row_to_json :: "category_row \<Rightarrow> json" where
  "category_row_to_json r =
     JObj [(''entity_id'', JStr (c_str (cat_entity r))), (''id'', JStr (c_str (cat_id r))),
           (''kind'', JStr (c_str (cat_kind r))), (''name'', JStr (c_str (cat_name r)))]"

definition get_category_entity_id :: "db \<Rightarrow> string \<Rightarrow> string" where
  "get_category_entity_id d k = text_of_key cat_id cat_entity k (categories d)"

definition handle_list_categories :: "third_party \<Rightarrow> env \<Rightarrow> request \<Rightarrow> db \<Rightarrow> db outcome" where
  "handle_list_categories L E = entity_guard L E user_has_access_to_entity (path_scope ''entity_id'')
     (\<lambda>req uid entity_id d.
        (Inr (Resp 200 (JObj
           [(''items'', JArr (map category_row_to_json
               (sort_key cat_name (filter (\<lambda>r. cat_entity r = entity_id) (categories d)))))])), d))"

definition handle_get_category :: "third_party \<Rightarrow> env \<Rightarrow> request \<Rightarrow> db \<Rightarrow> db outcome" where
  "handle_get_category L E =
     entity_guard L E user_has_access_to_entity (lookup_scope ''id'' get_category_entity_id)
     (\<lambda>req uid entity_id d.
        case sel_by cat_id (path_param req ''id'') (categories d) of
          None \<Rightarrow> (Inr (err 404 ''not_found''), d)
        | Some r \<Rightarrow> (Inr (Resp 200 (category_row_to_json r)), d))"

definition handle_create_category :: "third_party \<Rightarrow> env \<Rightarrow> request \<Rightarrow> db \<Rightarrow> db outcome" where
  "handle_create_category L E = entity_guard L E user_has_access_to_entity (path_scope ''entity_id'')
     (\<lambda>req uid entity_id d.
        case body req of
          None \<Rightarrow> (Inr (err 400 ''invalid_json''), d)
        | Some j \<Rightarrow>
            (case (at_string j ''name'', at_string j ''kind'') of
               (Some name, Some kind) \<Rightarrow>
                 let cid = generate_id L E in
                 (case insert_category \<lparr>cat_id = cid, cat_entity = entity_id, cat_name = name, cat_kind = kind\<rparr> d of
                    None \<Rightarrow> (Inr (err 500 ''internal''), d)
                  | Some d' \<Rightarrow>
                      and_then (emit_audit_cat L E uid entity_id cid ''category_created'' ''success''
                                  (JObj [(''kind'', JStr kind), (''name'', JStr name)]) d')
                        (\<lambda>_. Resp 201 (JObj [(''entity_id'', JStr entity_id), (''id'', JStr cid),
                                             (''kind'', JStr kind), (''name'', JStr name)])))
             | _ \<Rightarrow> (Inr (err_msg 400 ''missing_fields'' ''name, kind required''), d)))"

definition handle_update_category :: "third_party \<Rightarrow> env \<Rightarrow> request \<Rightarrow> db \<Rightarrow> db outcome" where
  "handle_update_category L E =
     entity_guard L E user_has_access_to_entity (lookup_scope ''id'' get_category_entity_id)
     (\<lambda>req uid entity_id d.
        case body req of
          None \<Rightarrow> (Inr (err 400 ''invalid_json''), d)
        | Some j \<Rightarrow>
            let cid = path_param req ''id'';
                upd = (\<lambda>f d. d\<lparr>categories := upd_by cat_id cid f (categories d)\<rparr>);
                d' = exec_all
                  [if_given (opt_string j ''name'') (\<lambda>n. upd (\<lambda>r. r\<lparr>cat_name := n\<rparr>)),
                   if_given (opt_string j ''kind'') (\<lambda>k. upd (\<lambda>r. r\<lparr>cat_kind := k\<rparr>))] d
            in and_then (emit_audit_cat L E uid entity_id cid ''category_updated'' ''success'' (JObj []) d')
                 (\<lambda>d'. case sel_by cat_id cid (categories d') of
                         Some r \<Rightarrow> Resp 200 (category_row_to_json r)
                       | None \<Rightarrow> Resp 200 (JObj [])))"

definition handle_delete_category :: "third_party \<Rightarrow> env \<Rightarrow> request \<Rightarrow> db \<Rightarrow> db outcome" where
  "handle_delete_category L E =
     entity_guard L E user_has_access_to_entity (lookup_scope ''id'' get_category_entity_id)
     (\<lambda>req uid entity_id d.
        let cid = path_param req ''id'' in
        and_then (emit_audit_cat L E uid entity_id cid ''category_deleted'' ''success'' (JObj [])
                    (d\<lparr>categories := del_by cat_id cid (categories d)\<rparr>))
          (\<lambda>_. Resp 200 (JObj [])))"

section \<open>Confinement\<close>

lemma emit_audit_cat_confined:
  "confined e d d' \<Longrightarrow> confined e d (snd (emit_audit_cat L E a b c g h i d'))"
  by (simp add: emit_audit_cat_def record_confined)

lemma category_scopeD:
  "lookup_scope p get_category_entity_id req d = Some e \<Longrightarrow>
     text_of_key cat_id cat_entity (path_param req p) (categories d) = e \<and> e \<noteq> []"
  by (drule lookup_scopeD) (simp add: get_category_entity_id_def)

interpretation list_categories: entity_route "handle_list_categories L E" "require_session L E"
  "path_scope ''entity_id''" user_has_access_to_entity
  unfolding handle_list_categories_def by (rule entity_guard_route) simp_all

interpretation get_category: entity_route "handle_get_category L E" "require_session L E"
  "lookup_scope ''id'' get_category_entity_id" user_has_access_to_entity
  unfolding handle_get_category_def by (rule entity_guard_route) (simp_all split: option.splits)

interpretation create_category: entity_route "handle_create_category L E" "require_session L E"
  "path_scope ''entity_id''" user_has_access_to_entity
  unfolding handle_create_category_def
  by (rule entity_guard_route)
     (auto simp: Let_def path_scope_def intro!: emit_audit_cat_confined confined_insert_category
           split: option.splits)

interpretation update_category: entity_route "handle_update_category L E" "require_session L E"
  "lookup_scope ''id'' get_category_entity_id" user_has_access_to_entity
  unfolding handle_update_category_def
proof (rule entity_guard_route, goal_cases)
  case (2 req uid e d)
  then have "text_of_key cat_id cat_entity (path_param req ''id'') (categories d) = e" "e \<noteq> []"
    using category_scopeD by blast+
  then show ?case
    by (auto simp: Let_def intro!: emit_audit_cat_confined
        stays_exec_all [where P = "\<lambda>d. text_of_key cat_id cat_entity (path_param req ''id'') (categories d) = e"]
        stays_if_given stays_category split: option.splits)
qed

interpretation delete_category: entity_route "handle_delete_category L E" "require_session L E"
  "lookup_scope ''id'' get_category_entity_id" user_has_access_to_entity
  unfolding handle_delete_category_def
  by (rule entity_guard_route)
     (auto simp: Let_def dest!: category_scopeD intro!: emit_audit_cat_confined confined_delete_category)

end
