(* ===== verification/Budgets_Handler.thy ===== *)
theory Budgets_Handler
  imports Entity_Scope
begin

text \<open>
  The budget routes (\<open>server/data/BudgetsHandler.cpp\<close>): list (latest period first), get, create,
  update and delete, each an interpretation of \<open>entity_route\<close>.
\<close>

definition emit_audit_bud ::
  "third_party \<Rightarrow> env \<Rightarrow> string \<Rightarrow> string \<Rightarrow> string \<Rightarrow> string \<Rightarrow> string \<Rightarrow> json \<Rightarrow> db \<Rightarrow>
   (string + unit) \<times> db" where
  "emit_audit_bud L E actor domain subject action outcome details d =
     record_event L (append_ok E 0)
       \<lparr>ev_ts_ms = clock_ms E, ev_actor = actor, ev_actor_kind = ''user'', ev_domain = domain,
        ev_subject = subject, ev_subject_kind = ''budget'', ev_action = action,
        ev_outcome = outcome, ev_details = details\<rparr> d"

definition budget_row_to_json :: "budget_row \<Rightarrow> json" where
  "budget_row_to_json r =
     JObj [(''amount_cents'', JInt (bud_amount r)),
           (''category_id'', json_nullable (map_option c_str (bud_category r))),
           (''entity_id'', JStr (c_str (bud_entity r))), (''id'', JStr (c_str (bud_id r))),
           (''period_end_unix'', JInt (bud_end r)), (''period_start_unix'', JInt (bud_start r))]"

definition get_budget_entity_id :: "db \<Rightarrow> string \<Rightarrow> string" where
  "get_budget_entity_id d k = text_of_key bud_id bud_entity k (budgets d)"

definition handle_list_budgets :: "third_party \<Rightarrow> env \<Rightarrow> request \<Rightarrow> db \<Rightarrow> db outcome" where
  "handle_list_budgets L E = entity_guard L E user_has_access_to_entity (path_scope ''entity_id'')
     (\<lambda>req uid entity_id d.
        (Inr (Resp 200 (JObj
           [(''items'', JArr (map budget_row_to_json
               (sort_key (\<lambda>r. - bud_start r) (filter (\<lambda>r. bud_entity r = entity_id) (budgets d)))))])), d))"

definition handle_get_budget :: "third_party \<Rightarrow> env \<Rightarrow> request \<Rightarrow> db \<Rightarrow> db outcome" where
  "handle_get_budget L E =
     entity_guard L E user_has_access_to_entity (lookup_scope ''id'' get_budget_entity_id)
     (\<lambda>req uid entity_id d.
        case sel_by bud_id (path_param req ''id'') (budgets d) of
          None \<Rightarrow> (Inr (err 404 ''not_found''), d)
        | Some r \<Rightarrow> (Inr (Resp 200 (budget_row_to_json r)), d))"

definition handle_create_budget :: "third_party \<Rightarrow> env \<Rightarrow> request \<Rightarrow> db \<Rightarrow> db outcome" where
  "handle_create_budget L E = entity_guard L E user_has_access_to_entity (path_scope ''entity_id'')
     (\<lambda>req uid entity_id d.
        case body req of
          None \<Rightarrow> (Inr (err 400 ''invalid_json''), d)
        | Some j \<Rightarrow>
            (case (at_int64 j ''amount_cents'', at_int64 j ''period_start_unix'', at_int64 j ''period_end_unix'') of
               (Some amount_cents, Some period_start, Some period_end) \<Rightarrow>
                 let category_id = (case opt_string j ''category_id'' of None \<Rightarrow> [] | Some s \<Rightarrow> s);
                     bid = generate_id L E
                 in case insert_budget \<lparr>bud_id = bid, bud_entity = entity_id,
                           bud_category = null_if_empty category_id, bud_amount = amount_cents,
                           bud_start = period_start, bud_end = period_end\<rparr> d of
                      None \<Rightarrow> (Inr (err 500 ''internal''), d)
                    | Some d' \<Rightarrow>
                        and_then (emit_audit_bud L E uid entity_id bid ''budget_created'' ''success''
                                    (JObj [(''amount_cents'', JInt amount_cents)]) d')
                          (\<lambda>_. Resp 201 (JObj
                             [(''amount_cents'', JInt amount_cents),
                              (''category_id'', json_nullable (null_if_empty category_id)),
                              (''entity_id'', JStr entity_id), (''id'', JStr bid),
                              (''period_end_unix'', JInt period_end), (''period_start_unix'', JInt period_start)]))
             | _ \<Rightarrow> (Inr (err_msg 400 ''missing_fields''
                       ''amount_cents, period_start_unix, period_end_unix required''), d)))"

definition handle_update_budget :: "third_party \<Rightarrow> env \<Rightarrow> request \<Rightarrow> db \<Rightarrow> db outcome" where
  "handle_update_budget L E =
     entity_guard L E user_has_access_to_entity (lookup_scope ''id'' get_budget_entity_id)
     (\<lambda>req uid entity_id d.
        case body req of
          None \<Rightarrow> (Inr (err 400 ''invalid_json''), d)
        | Some j \<Rightarrow>
            let bid = path_param req ''id'';
                upd = (\<lambda>f d. d\<lparr>budgets := upd_by bud_id bid f (budgets d)\<rparr>);
                d' = exec_all
                  [if_given (opt_int64 j ''amount_cents'') (\<lambda>a. upd (\<lambda>r. r\<lparr>bud_amount := a\<rparr>)),
                   if_given (opt_int64 j ''period_start_unix'') (\<lambda>p. upd (\<lambda>r. r\<lparr>bud_start := p\<rparr>)),
                   if_given (opt_int64 j ''period_end_unix'') (\<lambda>p. upd (\<lambda>r. r\<lparr>bud_end := p\<rparr>)),
                   if_given (opt_string j ''category_id'') (\<lambda>c. upd (\<lambda>r. r\<lparr>bud_category := Some c\<rparr>))] d
            in and_then (emit_audit_bud L E uid entity_id bid ''budget_updated'' ''success'' (JObj []) d')
                 (\<lambda>d'. case sel_by bud_id bid (budgets d') of
                         Some r \<Rightarrow> Resp 200 (budget_row_to_json r)
                       | None \<Rightarrow> Resp 200 (JObj [])))"

definition handle_delete_budget :: "third_party \<Rightarrow> env \<Rightarrow> request \<Rightarrow> db \<Rightarrow> db outcome" where
  "handle_delete_budget L E =
     entity_guard L E user_has_access_to_entity (lookup_scope ''id'' get_budget_entity_id)
     (\<lambda>req uid entity_id d.
        let bid = path_param req ''id'' in
        and_then (emit_audit_bud L E uid entity_id bid ''budget_deleted'' ''success'' (JObj [])
                    (d\<lparr>budgets := del_by bud_id bid (budgets d)\<rparr>))
          (\<lambda>_. Resp 200 (JObj [])))"

section \<open>Confinement\<close>

lemma emit_audit_bud_confined:
  "confined e d d' \<Longrightarrow> confined e d (snd (emit_audit_bud L E a b c g h i d'))"
  by (simp add: emit_audit_bud_def record_confined)

lemma budget_scopeD:
  "lookup_scope p get_budget_entity_id req d = Some e \<Longrightarrow>
     text_of_key bud_id bud_entity (path_param req p) (budgets d) = e \<and> e \<noteq> []"
  by (drule lookup_scopeD) (simp add: get_budget_entity_id_def)

interpretation list_budgets: entity_route "handle_list_budgets L E" "require_session L E"
  "path_scope ''entity_id''" user_has_access_to_entity
  unfolding handle_list_budgets_def by (rule entity_guard_route) simp_all

interpretation get_budget: entity_route "handle_get_budget L E" "require_session L E"
  "lookup_scope ''id'' get_budget_entity_id" user_has_access_to_entity
  unfolding handle_get_budget_def by (rule entity_guard_route) (simp_all split: option.splits)

interpretation create_budget: entity_route "handle_create_budget L E" "require_session L E"
  "path_scope ''entity_id''" user_has_access_to_entity
  unfolding handle_create_budget_def
  by (rule entity_guard_route)
     (auto simp: Let_def path_scope_def intro!: emit_audit_bud_confined confined_insert_budget
           split: option.splits)

interpretation update_budget: entity_route "handle_update_budget L E" "require_session L E"
  "lookup_scope ''id'' get_budget_entity_id" user_has_access_to_entity
  unfolding handle_update_budget_def
proof (rule entity_guard_route, goal_cases)
  case (2 req uid e d)
  then have "text_of_key bud_id bud_entity (path_param req ''id'') (budgets d) = e" "e \<noteq> []"
    using budget_scopeD by blast+
  then show ?case
    by (auto simp: Let_def intro!: emit_audit_bud_confined
        stays_exec_all [where P = "\<lambda>d. text_of_key bud_id bud_entity (path_param req ''id'') (budgets d) = e"]
        stays_if_given stays_budget split: option.splits)
qed

interpretation delete_budget: entity_route "handle_delete_budget L E" "require_session L E"
  "lookup_scope ''id'' get_budget_entity_id" user_has_access_to_entity
  unfolding handle_delete_budget_def
  by (rule entity_guard_route)
     (auto simp: Let_def dest!: budget_scopeD intro!: emit_audit_bud_confined confined_delete_budget)

end
