(* ===== verification/V3_Objects.thy ===== *)
theory V3_Objects
  imports Entity_Scope "HOL-Library.Char_ord" "HOL-Library.List_Lexorder"
begin

text \<open>
  The read-only routes of decisions, relationships and targets (\<open>server/data/V3ObjectsHandler.cpp\<close>)
  and the tolerant lookup of a relationship: an exact id or name first, then the best match of the
  slugs.

  The lemmas show that every route meets the contract \<open>data_route\<close>, what a slug looks like and that
  taking it twice changes nothing, and that the fallback answers the first row of the best score.
  No route looks at the membership of the user.
\<close>

section \<open>Slugs\<close>

definition lower :: "string \<Rightarrow> string" where
  "lower s = map tolower s"

text \<open>\<open>std::isalnum\<close> of the C locale.\<close>

definition is_alnum :: "char \<Rightarrow> bool" where
  "is_alnum c \<longleftrightarrow> in_range (CHR ''0'') (CHR ''9'') c \<or> in_range (CHR ''A'') (CHR ''Z'') c \<or>
     in_range (CHR ''a'') (CHR ''z'') c"

text \<open>The loop, with the flag \<open>last_dash\<close>; the output is what it appends.\<close>

fun slug_loop :: "bool \<Rightarrow> string \<Rightarrow> string" where
  "slug_loop last_dash [] = []"
| "slug_loop last_dash (c # s) =
     (if is_alnum c then tolower c # slug_loop False s
      else if \<not> last_dash then CHR ''-'' # slug_loop True s
      else slug_loop last_dash s)"

text \<open>\<open>while (!out.empty() && out.back() == '-') out.pop_back()\<close>.\<close>

definition drop_dashes :: "string \<Rightarrow> string" where
  "drop_dashes out = rev (dropWhile (\<lambda>c. c = CHR ''-'') (rev out))"

definition slug :: "string \<Rightarrow> string" where
  "slug s = drop_dashes (slug_loop True s)"

section \<open>Rows\<close>

definition member_str :: "string \<Rightarrow> string option \<Rightarrow> (string \<times> json) list" where
  "member_str k x = (case x of None \<Rightarrow> [] | Some s \<Rightarrow> [(k, JStr (c_str s))])"

definition member_int :: "string \<Rightarrow> int option \<Rightarrow> (string \<times> json) list" where
  "member_int k x = (case x of None \<Rightarrow> [] | Some n \<Rightarrow> [(k, JInt n)])"

definition decision_row_to_json :: "decision_row \<Rightarrow> json" where
  "decision_row_to_json r = JObj (
     [(''body_md'', JStr (c_str (dec_body r))), (''created_at_unix'', JInt (dec_created r))] @
     member_int ''decided_at_unix'' (dec_at r) @ member_str ''decided_by_user_id'' (dec_by r) @
     [(''entity_scope'', JStr (c_str (dec_scope r))), (''id'', JStr (c_str (dec_id r)))] @
     member_str ''outcome'' (dec_outcome r) @ member_int ''outcome_due_unix'' (dec_due r) @
     member_str ''source_note_id'' (dec_note r) @
     [(''status'', JStr (c_str (dec_status r))), (''title'', JStr (c_str (dec_title r)))])"

definition relationship_row_to_json :: "relationship_row \<Rightarrow> json" where
  "relationship_row_to_json r = JObj (
     [(''created_at_unix'', JInt (rel_created r)), (''display_name'', JStr (c_str (rel_name r))),
      (''id'', JStr (c_str (rel_id r))), (''kind'', JStr (c_str (rel_kind r)))] @
     member_int ''last_contact_unix'' (rel_contact r) @
     [(''notes_md'', JStr (c_str (rel_notes r)))] @
     member_str ''primary_email'' (rel_email r) @ member_str ''primary_phone'' (rel_phone r) @
     [(''updated_at_unix'', JInt (rel_updated r))])"

definition target_row_to_json :: "target_row \<Rightarrow> json" where
  "target_row_to_json r = JObj (
     [(''created_at_unix'', JInt (tgt_created r)), (''entity_scope'', JStr (c_str (tgt_scope r))),
      (''id'', JStr (c_str (tgt_id r))), (''name'', JStr (c_str (tgt_name r)))] @
     member_int ''size_cents'' (tgt_size r) @ member_str ''source_note_id'' (tgt_note r) @
     [(''stage'', JStr (c_str (tgt_stage r))), (''thesis_md'', JStr (c_str (tgt_thesis r))),
      (''updated_at_unix'', JInt (tgt_updated r))])"

section \<open>Handlers\<close>

text \<open>A handler that authenticates and then only reads.\<close>

definition reading ::
  "third_party \<Rightarrow> env \<Rightarrow> (request \<Rightarrow> db \<Rightarrow> response) \<Rightarrow> request \<Rightarrow> db \<Rightarrow> db outcome" where
  "reading L E answer req d =
     (case require_session L E req d of
        (None, d1) \<Rightarrow> (Inr (err 401 ''unauthorized''), d1)
      | (Some _, d1) \<Rightarrow> (Inr (answer req d1), d1))"

definition items :: "json list \<Rightarrow> response" where
  "items js = Resp 200 (JObj [(''items'', JArr js), (''next_cursor'', JNull)])"

definition found :: "('r \<Rightarrow> json) \<Rightarrow> 'r option \<Rightarrow> response" where
  "found to_json r = (case r of None \<Rightarrow> err 404 ''not_found'' | Some row \<Rightarrow> Resp 200 (to_json row))"

definition handle_list_decisions :: "third_party \<Rightarrow> env \<Rightarrow> request \<Rightarrow> db \<Rightarrow> db outcome" where
  "handle_list_decisions L E = reading L E (\<lambda>req d.
     items (map decision_row_to_json
       (sort_key (\<lambda>r. - (case dec_at r of Some t \<Rightarrow> t | None \<Rightarrow> dec_created r)) (decisions d))))"

definition handle_get_decision :: "third_party \<Rightarrow> env \<Rightarrow> request \<Rightarrow> db \<Rightarrow> db outcome" where
  "handle_get_decision L E = reading L E (\<lambda>req d.
     let i = path_param req ''id'' in
     found decision_row_to_json (find (\<lambda>r. dec_id r = i \<or> dec_title r = i) (decisions d)))"

definition handle_list_relationships :: "third_party \<Rightarrow> env \<Rightarrow> request \<Rightarrow> db \<Rightarrow> db outcome" where
  "handle_list_relationships L E = reading L E (\<lambda>req d.
     items (map relationship_row_to_json (sort_key rel_name (relationships d))))"

text \<open>\<open>WHERE id = ? OR LOWER(display_name) = LOWER(?) ORDER BY id LIMIT 1\<close>.\<close>

definition exact_relationship :: "string \<Rightarrow> relationship_row list \<Rightarrow> relationship_row option" where
  "exact_relationship i rows =
     (case sort_key rel_id (filter (\<lambda>r. rel_id r = i \<or> lower (rel_name r) = lower i) rows) of
        [] \<Rightarrow> None
      | r # _ \<Rightarrow> Some r)"

text \<open>The tokens of a slug, as the loop over \<open>find('-', start)\<close> cuts them.\<close>

function slug_tokens :: "string \<Rightarrow> string list" where
  "slug_tokens s =
     (if s = [] then []
      else takeWhile (\<lambda>c. c \<noteq> CHR ''-'') s # slug_tokens (drop 1 (dropWhile (\<lambda>c. c \<noteq> CHR ''-'') s)))"
  by pat_completeness auto

termination
proof (relation "measure length", goal_cases)
  case (2 s)
  have "length (dropWhile (\<lambda>c. c \<noteq> CHR ''-'') s) \<le> length s" by (rule length_dropWhile_le)
  with 2 show ?case by (cases s) auto
qed simp

declare slug_tokens.simps [simp del]

definition match_score :: "string \<Rightarrow> relationship_row \<Rightarrow> nat" where
  "match_score i r =
     (let sl = slug i; dn = c_str (rel_name r); dns = slug dn in
      if dns = sl then 3
      else if sl \<in> set (slug_tokens dns) then 2
      else if sl \<noteq> [] \<and> contains_sub (lower i) (lower dn) then 1
      else 0)"

text \<open>The walk over the rows: a strictly better score replaces the best, a full match ends it.\<close>

fun best_match ::
  "string \<Rightarrow> relationship_row option \<Rightarrow> nat \<Rightarrow> relationship_row list \<Rightarrow> relationship_row option \<times> nat" where
  "best_match i best best_score [] = (best, best_score)"
| "best_match i best best_score (r # rs) =
     (let score = match_score i r in
      if best_score < score
      then if score = 3 then (Some r, score) else best_match i (Some r) score rs
      else best_match i best best_score rs)"

definition handle_get_relationship :: "third_party \<Rightarrow> env \<Rightarrow> request \<Rightarrow> db \<Rightarrow> db outcome" where
  "handle_get_relationship L E = reading L E (\<lambda>req d.
     let i = path_param req ''id'' in
     case exact_relationship i (relationships d) of
       Some r \<Rightarrow> Resp 200 (relationship_row_to_json r)
     | None \<Rightarrow>
         (case best_match i None 0 (relationships d) of
            (Some r, best_score) \<Rightarrow>
              if 0 < best_score then Resp 200 (relationship_row_to_json r) else err 404 ''not_found''
          | (None, _) \<Rightarrow> err 404 ''not_found''))"

definition handle_list_targets :: "third_party \<Rightarrow> env \<Rightarrow> request \<Rightarrow> db \<Rightarrow> db outcome" where
  "handle_list_targets L E = reading L E (\<lambda>req d.
     items (map target_row_to_json (sort_key (\<lambda>r. - tgt_updated r) (targets d))))"

definition handle_get_target :: "third_party \<Rightarrow> env \<Rightarrow> request \<Rightarrow> db \<Rightarrow> db outcome" where
  "handle_get_target L E = reading L E (\<lambda>req d.
     let i = path_param req ''id'' in
     found target_row_to_json (find (\<lambda>r. tgt_id r = i \<or> lower (tgt_name r) = lower i) (targets d)))"

section \<open>The contract\<close>

lemma reading_route: "data_route (reading L E answer) (require_session L E)"
  by (rule read_only_route) (simp_all add: reading_def split: prod.splits option.splits)

interpretation list_decisions: data_route "handle_list_decisions L E" "require_session L E"
  unfolding handle_list_decisions_def by (rule reading_route)

interpretation get_decision: data_route "handle_get_decision L E" "require_session L E"
  unfolding handle_get_decision_def by (rule reading_route)

interpretation list_relationships: data_route "handle_list_relationships L E" "require_session L E"
  unfolding handle_list_relationships_def by (rule reading_route)

interpretation get_relationship: data_route "handle_get_relationship L E" "require_session L E"
  unfolding handle_get_relationship_def by (rule reading_route)

interpretation list_targets: data_route "handle_list_targets L E" "require_session L E"
  unfolding handle_list_targets_def by (rule reading_route)

interpretation get_target: data_route "handle_get_target L E" "require_session L E"
  unfolding handle_get_target_def by (rule reading_route)

section \<open>What a slug is\<close>

text \<open>
  \<open>slug_form b s\<close>: lower-case letters and digits in runs separated by single dashes, no dash at
  the end, and none at the start unless \<open>b\<close>.
\<close>

fun slug_form :: "bool \<Rightarrow> string \<Rightarrow> bool" where
  "slug_form dash_allowed [] = True"
| "slug_form dash_allowed (c # s) =
     (if c = CHR ''-'' then dash_allowed \<and> s \<noteq> [] \<and> slug_form False s
      else is_alnum c \<and> tolower c = c \<and> slug_form True s)"

lemma alnum_not_dash: "\<not> is_alnum (CHR ''-'')"
  by (simp add: is_alnum_def in_range_def)

lemma tolower_alnum: "is_alnum c \<Longrightarrow> is_alnum (tolower c) \<and> tolower (tolower c) = tolower c"
  by (auto simp: is_alnum_def tolower_def in_range_def of_char_of)

lemma dropWhile_snoc:
  "dropWhile P (xs @ [x]) = (if dropWhile P xs = [] then dropWhile P [x] else dropWhile P xs @ [x])"
  by (induction xs) auto

lemma drop_dashes_simps:
  "drop_dashes [] = []"
  "drop_dashes (c # s) = (if c = CHR ''-'' \<and> drop_dashes s = [] then [] else c # drop_dashes s)"
proof -
  show "drop_dashes [] = []" by (simp add: drop_dashes_def)
  show "drop_dashes (c # s) = (if c = CHR ''-'' \<and> drop_dashes s = [] then [] else c # drop_dashes s)"
    by (simp add: drop_dashes_def dropWhile_snoc)
qed

lemma slug_loop_form: "slug_form (\<not> last_dash) (drop_dashes (slug_loop last_dash s))"
  by (induction last_dash s rule: slug_loop.induct)
     (auto simp: drop_dashes_simps tolower_alnum alnum_not_dash dest: tolower_alnum)

lemma slug_form_fixed: "slug_form b t \<Longrightarrow> slug_loop (\<not> b) t = t \<and> drop_dashes t = t"
  by (induction b t rule: slug_form.induct) (auto simp: drop_dashes_simps alnum_not_dash split: if_splits)

lemma slug_idem: "slug_form False (slug s) \<and> slug (slug s) = slug s"
  using slug_loop_form [of True s] slug_form_fixed [of False "slug s"] by (simp add: slug_def)

section \<open>The best match\<close>

lemma match_score_le: "match_score i r \<le> 3"
  by (simp add: match_score_def Let_def)

lemma best_match_spec:
  assumes "n \<le> 3"
  shows "case best_match i best n rows of (b, m) \<Rightarrow>
    n \<le> m \<and> m \<le> 3 \<and> list_all (\<lambda>r. match_score i r \<le> m) rows \<and>
    b = (if m = n then best else find (\<lambda>r. match_score i r = m) rows) \<and>
    (m \<noteq> n \<longrightarrow> list_ex (\<lambda>r. match_score i r = m) rows)"
  using assms
proof (induction i best n rows rule: best_match.induct)
  case (2 i best n r rs)
  have le: "match_score i r \<le> 3" by (rule match_score_le)
  have all3: "list_all (\<lambda>r. match_score i r \<le> 3) rs" by (simp add: list_all_iff match_score_le)
  show ?case
  proof (cases "n < match_score i r")
    case False
    then show ?thesis
      using 2 by (auto simp: Let_def split: prod.splits)
  next
    case True
    show ?thesis
    proof (cases "match_score i r = 3")
      case True
      then show ?thesis using \<open>n < match_score i r\<close> all3 by (simp add: Let_def)
    next
      case False
      with \<open>n < match_score i r\<close> 2(1) [OF refl _ False] le show ?thesis
        by (auto simp: Let_def split: prod.splits)
    qed
  qed
qed simp

text \<open>The specification of the fallback: the first row whose score is the best and not 0.\<close>

definition first_best :: "string \<Rightarrow> relationship_row list \<Rightarrow> relationship_row option" where
  "first_best i rows =
     (let m = fold max (map (match_score i) rows) 0 in
      if m = 0 then None else find (\<lambda>r. match_score i r = m) rows)"

lemma fold_max_bounds:
  "list_all (\<lambda>x. x \<le> m) xs \<Longrightarrow> n \<le> m \<Longrightarrow> m = n \<or> m \<in> set xs \<Longrightarrow> fold max xs (n :: nat) = m"
proof (induction xs arbitrary: n)
  case (Cons x xs)
  then show ?case by (cases "m \<in> set xs") (auto simp: max_def)
qed auto

lemma best_match_first:
  "best_match i None 0 rows = (b, m) \<Longrightarrow> b = first_best i rows \<and> (b \<noteq> None \<longrightarrow> 0 < m)"
proof -
  assume bm: "best_match i None 0 rows = (b, m)"
  have s: "list_all (\<lambda>r. match_score i r \<le> m) rows"
    "b = (if m = 0 then None else find (\<lambda>r. match_score i r = m) rows)"
    "m \<noteq> 0 \<longrightarrow> list_ex (\<lambda>r. match_score i r = m) rows"
    using best_match_spec [where n = 0 and i = i and best = None and rows = rows] by (simp_all add: bm)
  have "fold max (map (match_score i) rows) 0 = m"
  proof (rule fold_max_bounds)
    show "list_all (\<lambda>x. x \<le> m) (map (match_score i) rows)" using s(1) by (simp add: list_all_iff)
    show "m = 0 \<or> m \<in> set (map (match_score i) rows)" using s(3) by (auto simp: list_ex_iff)
  qed simp
  then show ?thesis using s(2) by (simp add: first_best_def)
qed

end
