(* ===== verification/Civil_Date.thy ===== *)
theory Civil_Date
  imports Number_Text
begin

text \<open>
  Dates as the Plaid client writes and reads them (\<open>format_plaid_date\<close>, \<open>parse_plaid_date\<close> of
  \<open>server/plaid/PlaidApiClient.cpp\<close>), with the calendar of the C library they rest on: \<open>timegm\<close>,
  which normalises months out of range, and \<open>gmtime_r\<close>.

  The lemmas show that the year \<open>gmtime_r\<close> picks is the one that contains the day, and that a
  printed date is read back as the midnight it began with.
\<close>

section \<open>The calendar\<close>

text \<open>Days from 1 January 1970 to 1 January of a year.\<close>

definition leap_year :: "int \<Rightarrow> bool" where
  "leap_year y \<longleftrightarrow> y mod 4 = 0 \<and> y mod 100 \<noteq> 0 \<or> y mod 400 = 0"

definition days_to_year :: "int \<Rightarrow> int" where
  "days_to_year y =
     365 * (y - 1970) + ((y - 1) div 4 - (y - 1) div 100 + (y - 1) div 400) - 477"

definition days_to_month :: "bool \<Rightarrow> nat \<Rightarrow> int" where
  "days_to_month leap m =
     [0, 31, 59, 90, 120, 151, 181, 212, 243, 273, 304, 334] ! m + (if leap \<and> 2 \<le> m then 1 else 0)"

text \<open>\<open>struct tm\<close>, of which only the date is read; \<open>tm_mon\<close> counts from 0.\<close>

record tm =
  tm_year :: int
  tm_mon :: int
  tm_mday :: int

definition timegm :: "tm \<Rightarrow> int" where
  "timegm t =
     (let y = tm_year t + 1900 + tm_mon t div 12
      in 86400 * (days_to_year y + days_to_month (leap_year y) (nat (tm_mon t mod 12)) + tm_mday t - 1))"

definition year_of_day :: "int \<Rightarrow> int" where
  "year_of_day d =
     (let y = 1970 + 400 * d div 146097
      in if d < days_to_year y then y - 1 else if days_to_year (y + 1) \<le> d then y + 1 else y)"

text \<open>The month, from 0, of a day of the year.\<close>

definition month_of_day :: "bool \<Rightarrow> int \<Rightarrow> nat" where
  "month_of_day leap n = length (filter (\<lambda>m. days_to_month leap m \<le> n) [1..<12])"

text \<open>\<open>None\<close> is the null pointer: the year does not fit an \<open>int\<close>.\<close>

definition gmtime :: "int \<Rightarrow> tm option" where
  "gmtime secs =
     (let d = secs div 86400; y = year_of_day d; n = d - days_to_year y;
          mon = month_of_day (leap_year y) n
      in if in_i32 (y - 1900)
         then Some \<lparr>tm_year = y - 1900, tm_mon = int mon,
                    tm_mday = n - days_to_month (leap_year y) mon + 1\<rparr>
         else None)"

section \<open>The dates of the Plaid API\<close>

text \<open>\<open>%0wd\<close> of \<open>printf\<close>: the sign counts towards the width.\<close>

definition zero_pad :: "nat \<Rightarrow> nat \<Rightarrow> string" where
  "zero_pad w n = (let ds = nat_to_string n in replicate (w - length ds) (CHR ''0'') @ ds)"

definition printf_0d :: "nat \<Rightarrow> int \<Rightarrow> string" where
  "printf_0d w n = (if n < 0 then CHR ''-'' # zero_pad (w - 1) (nat (- n)) else zero_pad w (nat n))"

text \<open>
  The buffer has 16 bytes, one of them for the terminator.  When \<open>gmtime_r\<close> fails the structure
  keeps its zeros.
\<close>

definition format_plaid_date :: "int \<Rightarrow> string" where
  "format_plaid_date unix_secs =
     (let t = (case gmtime unix_secs of None \<Rightarrow> \<lparr>tm_year = 0, tm_mon = 0, tm_mday = 0\<rparr> | Some t \<Rightarrow> t)
      in take 15 (printf_0d 4 (tm_year t + 1900) @ ''-'' @ printf_0d 2 (tm_mon t + 1) @ ''-'' @
                  printf_0d 2 (tm_mday t)))"

definition substr :: "nat \<Rightarrow> nat \<Rightarrow> string \<Rightarrow> string" where
  "substr i n s = take n (drop i s)"

text \<open>\<open>Inl\<close> is the exception of \<open>std::stoi\<close>, whose text is the name of the function.\<close>

definition parse_plaid_date :: "string \<Rightarrow> string + int" where
  "parse_plaid_date date_str =
     (if length date_str < 10 then Inr 0
      else case stoi (substr 0 4 date_str) of
             None \<Rightarrow> Inl ''stoi''
           | Some year \<Rightarrow>
               (case stoi (substr 5 2 date_str) of
                  None \<Rightarrow> Inl ''stoi''
                | Some month \<Rightarrow>
                    (case stoi (substr 8 2 date_str) of
                       None \<Rightarrow> Inl ''stoi''
                     | Some day \<Rightarrow>
                         Inr (timegm \<lparr>tm_year = year - 1900, tm_mon = month - 1, tm_mday = day\<rparr>))))"

section \<open>The year of a day\<close>

lemma days_to_year_bounds:
  "146097 * (y - 1970) - 607 \<le> 400 * days_to_year y"
  "400 * days_to_year y \<le> 146097 * (y - 1970) + 993"
proof -
  define n where "n = y - 1"
  have q: "n = 4 * (n div 4) + n mod 4" "n = 100 * (n div 100) + n mod 100" "n = 400 * (n div 400) + n mod 400"
    by simp_all
  have r: "0 \<le> n mod 4" "n mod 4 < 4" "0 \<le> n mod 100" "n mod 100 < 100" "0 \<le> n mod 400" "n mod 400 < 400"
    by simp_all
  have d: "days_to_year y = 365 * (n - 1969) + (n div 4 - n div 100 + n div 400) - 477"
    by (simp add: days_to_year_def n_def)
  show "146097 * (y - 1970) - 607 \<le> 400 * days_to_year y"
    "400 * days_to_year y \<le> 146097 * (y - 1970) + 993"
    unfolding d n_def [symmetric] using q r by (simp_all add: n_def)
qed

lemma year_of_day: "days_to_year (year_of_day d) \<le> d \<and> d < days_to_year (year_of_day d + 1)"
proof -
  define q where "q = 400 * d div 146097"
  have "400 * d = 146097 * q + 400 * d mod 146097" by (simp add: q_def)
  then have q: "146097 * q \<le> 400 * d" "400 * d < 146097 * q + 146097"
    using pos_mod_bound [of 146097 "400 * d"] pos_mod_sign [of 146097 "400 * d"] by linarith+
  define y where "y = 1970 + q"
  have b: "days_to_year (y - 1) \<le> d" "d < days_to_year (y + 1 + 1)"
    using q days_to_year_bounds(2) [of "y - 1"] days_to_year_bounds(1) [of "y + 1 + 1"] by (simp_all add: y_def)
  have yd: "year_of_day d = (if d < days_to_year y then y - 1 else if days_to_year (y + 1) \<le> d then y + 1 else y)"
    by (simp only: year_of_day_def Let_def q_def y_def)
  consider "d < days_to_year y" | "days_to_year (y + 1) \<le> d" "\<not> d < days_to_year y"
    | "days_to_year y \<le> d" "d < days_to_year (y + 1)" by linarith
  then show ?thesis
  proof cases
    case 1
    then have "year_of_day d = y - 1" by (simp only: yd if_True)
    then show ?thesis using b 1 by simp
  next
    case 2
    then have "year_of_day d = y + 1" by (simp only: yd if_True if_False)
    then show ?thesis using b 2 by (simp only: simp_thms)
  next
    case 3
    then have "\<not> d < days_to_year y" "\<not> days_to_year (y + 1) \<le> d" by linarith+
    then have "year_of_day d = y" by (simp only: yd if_False)
    then show ?thesis using 3 by (simp only: simp_thms)
  qed
qed

lemma div_predecessor:
  assumes "0 < (k :: int)"
  shows "y div k - (y - 1) div k = (if y mod k = 0 then 1 else 0)"
proof -
  have y: "y = k * (y div k) + y mod k" by simp
  have r: "0 \<le> y mod k" "y mod k < k" using assms by simp_all
  show ?thesis
  proof (cases "y mod k = 0")
    case True
    have "k * (y div k - 1) = k * (y div k) - k" by (simp add: algebra_simps)
    then have "y - 1 = k * (y div k - 1) + (k - 1)" using y True by linarith
    from int_div_pos_eq [OF this] have "(y - 1) div k = y div k - 1" using assms by simp
    with True show ?thesis by simp
  next
    case False
    have "y - 1 = k * (y div k) + (y mod k - 1)" using y by linarith
    from int_div_pos_eq [OF this] have "(y - 1) div k = y div k" using False r by simp
    with False show ?thesis by simp
  qed
qed

lemma days_in_year: "days_to_year (y + 1) = days_to_year y + (if leap_year y then 366 else 365)"
proof -
  have d: "y div 4 - (y - 1) div 4 = (if y mod 4 = 0 then 1 else 0)"
    "y div 100 - (y - 1) div 100 = (if y mod 100 = 0 then 1 else 0)"
    "y div 400 - (y - 1) div 400 = (if y mod 400 = 0 then 1 else 0)"
    by (rule div_predecessor; simp)+
  have e: "days_to_year (y + 1) = days_to_year y + 365 + (y div 4 - (y - 1) div 4) -
      (y div 100 - (y - 1) div 100) + (y div 400 - (y - 1) div 400)"
    by (simp add: days_to_year_def)
  have "(100 :: int) dvd 400" "(4 :: int) dvd 100" by simp_all
  then have "y mod 400 = 0 \<longrightarrow> y mod 100 = 0" "y mod 100 = 0 \<longrightarrow> y mod 4 = 0"
    unfolding mod_eq_0_iff_dvd by (blast intro: dvd_trans)+
  then show ?thesis unfolding e d leap_year_def by auto
qed

section \<open>Round trip\<close>

lemma month_of_day_table:
  "list_all (\<lambda>leap. list_all (\<lambda>n. days_to_month leap (month_of_day leap n) \<le> n \<and>
       n < days_to_month leap (month_of_day leap n) + 31) [0..364 + (if leap then 1 else 0)]) [True, False]"
  by code_simp

lemma month_of_day:
  assumes "0 \<le> n" "n < (if leap then 366 else 365)"
  shows "days_to_month leap (month_of_day leap n) \<le> n" "n < days_to_month leap (month_of_day leap n) + 31"
    "month_of_day leap n \<le> 11"
proof -
  have "n \<in> set [0..364 + (if leap then 1 else 0)]" using assms by (cases leap) simp_all
  moreover have "leap \<in> set [True, False]" by simp
  ultimately show "days_to_month leap (month_of_day leap n) \<le> n"
    "n < days_to_month leap (month_of_day leap n) + 31"
    using month_of_day_table unfolding list_all_iff by blast+
  have "month_of_day leap n \<le> length [1..<12]" unfolding month_of_day_def by (rule length_filter_le)
  then show "month_of_day leap n \<le> 11" by simp
qed

lemma gmtime_date:
  assumes "gmtime secs = Some t"
  shows "timegm t = 86400 * (secs div 86400)" "0 \<le> tm_mon t" "tm_mon t \<le> 11" "1 \<le> tm_mday t" "tm_mday t \<le> 31"
    "tm_year t + 1900 = year_of_day (secs div 86400)"
proof -
  define d where "d = secs div 86400"
  define y where "y = year_of_day d"
  define n where "n = d - days_to_year y"
  have n: "0 \<le> n" "n < (if leap_year y then 366 else 365)"
    using year_of_day [of d] days_in_year [of y] by (auto simp: n_def y_def)
  note m = month_of_day [OF n]
  have t: "t = \<lparr>tm_year = y - 1900, tm_mon = int (month_of_day (leap_year y) n),
      tm_mday = n - days_to_month (leap_year y) (month_of_day (leap_year y) n) + 1\<rparr>"
    using assms unfolding gmtime_def Let_def d_def [symmetric] y_def [symmetric] n_def [symmetric]
    by (simp split: if_splits)
  have mm: "int (month_of_day (leap_year y) n) div 12 = 0" "int (month_of_day (leap_year y) n) mod 12 = int (month_of_day (leap_year y) n)"
    using m(3) by simp_all
  show "timegm t = 86400 * (secs div 86400)"
    unfolding d_def [symmetric] timegm_def Let_def t
    by (simp only: tm.select_convs mm nat_int diff_add_cancel add_0_right) (simp add: n_def)
  show "0 \<le> tm_mon t" "tm_mon t \<le> 11" "1 \<le> tm_mday t" "tm_mday t \<le> 31"
    "tm_year t + 1900 = year_of_day (secs div 86400)"
    using m by (simp_all add: t y_def d_def)
qed

lemma zero_pad_digits:
  assumes "0 < w" "n < 10 ^ w"
  shows "length (zero_pad w n) = w" "read_number (zero_pad w n) = Some (int n)"
proof -
  have "length (nat_to_string n) \<le> w"
    using length_digits_rev [OF assms] by (simp add: nat_to_string_def)
  then show "length (zero_pad w n) = w" by (simp add: zero_pad_def Let_def)
  have "is_digit (CHR ''0'')" by (simp add: is_digit_def)
  then have "list_all is_digit (zero_pad w n)" "zero_pad w n \<noteq> []"
    using nat_to_string_digits [of n] by (auto simp: zero_pad_def Let_def list_all_iff)
  from read_digits [OF this] show "read_number (zero_pad w n) = Some (int n)"
    by (simp add: zero_pad_def Let_def digits_value_zeros nat_to_string_digits(3))
qed

lemma parse_format_fields:
  assumes "length a = 4" "length b = 2" "length c = 2"
    and "stoi a = Some y" "stoi b = Some m" "stoi c = Some q"
  shows "parse_plaid_date (take 15 (a @ ''-'' @ b @ ''-'' @ c)) =
    Inr (timegm \<lparr>tm_year = y - 1900, tm_mon = m - 1, tm_mday = q\<rparr>)"
  using assms by (simp add: parse_plaid_date_def substr_def)

text \<open>A date the client prints is read back as the midnight that began the day, for every time in
  the years 0 to 9999.\<close>

theorem plaid_date_roundtrip:
  assumes "- 62167219200 \<le> t" "t < 253402300800"
  shows "parse_plaid_date (format_plaid_date t) = Inr (t - t mod 86400)"
proof -
  define d where "d = t div 86400"
  have d: "- 719528 \<le> d" "d < 2932897" using assms by (simp_all add: d_def)
  have e: "days_to_year 0 = - 719528" "days_to_year 10000 = 2932897" by (simp_all add: days_to_year_def)
  have mono: "days_to_year a \<le> days_to_year b" if "a \<le> b" for a b
    using that by (induction rule: int_ge_induct) (auto simp: days_in_year)
  have y: "0 \<le> year_of_day d" "year_of_day d < 10000"
    using year_of_day [of d] d e mono [of "year_of_day d + 1" 0] mono [of 10000 "year_of_day d"] by linarith+
  then obtain g where g: "gmtime t = Some g"
    by (simp add: gmtime_def Let_def d_def in_i32_def)
  note G = gmtime_date [OF g, folded d_def]
  have "stoi (printf_0d w n) = Some n \<and> length (printf_0d w n) = w" if "0 \<le> n" "n < 10 ^ w" "0 < w" "w \<le> 4" for w n
  proof -
    have "nat n < 10 ^ w" using that by (simp add: nat_less_iff)
    moreover have "(10 :: int) ^ w \<le> 10 ^ 4" using that by (intro power_increasing) simp_all
    ultimately show ?thesis
      using that zero_pad_digits [of w "nat n"] by (simp add: printf_0d_def stoi_def in_i32_def)
  qed
  then have "parse_plaid_date (format_plaid_date t) =
      Inr (timegm \<lparr>tm_year = tm_year g + 1900 - 1900, tm_mon = tm_mon g + 1 - 1, tm_mday = tm_mday g\<rparr>)"
    using G y by (simp only: format_plaid_date_def Let_def g option.case) (rule parse_format_fields; simp)
  also have "\<dots> = Inr (timegm g)" by (cases g) simp
  also have "\<dots> = Inr (t - t mod 86400)" by (simp add: G(1) d_def minus_mod_eq_mult_div)
  finally show ?thesis .
qed

theorem plaid_date_roundtrip_witness: "parse_plaid_date (format_plaid_date 1709208000) = Inr 1709164800"
  using plaid_date_roundtrip [of 1709208000] by simp

end
