(* ===== verification/Double_Arith.thy ===== *)
theory Double_Arith
  imports Greylock_Prelude "HOL-Library.Log_Nat"
begin

text \<open>
  The arithmetic of C++ \<open>double\<close> the Plaid client uses, on the rational values doubles have: the
  nearest double of a number (53 significant bits, ties to even), the product, and the two
  conversions to \<open>int64_t\<close>.  Overflow and the subnormal range, which amounts of money do not reach,
  are left out: the exponent is unbounded.

  The lemmas give the relative error of rounding and show that \<open>llround\<close> of a hundred times the
  double nearest to a number of cents over a hundred is that number of cents, while truncating
  loses a cent for some amounts.
\<close>

text \<open>Rounding to an integer, ties to the even one.\<close>

definition round_even :: "rat \<Rightarrow> int" where
  "round_even r =
     (let n = floor r; d = r - of_int n in
      if d < 1 / 2 then n else if 1 / 2 < d then n + 1 else if even n then n else n + 1)"

text \<open>The binary exponent: \<open>2 powi exponent q \<le> q < 2 powi (exponent q + 1)\<close> for positive \<open>q\<close>.\<close>

definition exponent :: "rat \<Rightarrow> int" where
  "exponent q =
     (case quotient_of q of
        (a, b) \<Rightarrow>
          (let e = int (floorlog 2 (nat a)) - int (floorlog 2 (nat b)) in
           if 2 powi e \<le> q then e else e - 1))"

definition round_double :: "rat \<Rightarrow> rat" where
  "round_double q =
     (if q = 0 then 0
      else let e = exponent \<bar>q\<bar> - 52 in sgn q * (of_int (round_even (\<bar>q\<bar> * 2 powi (- e))) * 2 powi e))"

definition dmul :: "rat \<Rightarrow> rat \<Rightarrow> rat" where
  "dmul x y = round_double (x * y)"

text \<open>\<open>std::llround\<close>: halves away from zero.\<close>

definition llround :: "rat \<Rightarrow> int" where
  "llround y = (if 0 \<le> y then floor (y + 1 / 2) else ceiling (y - 1 / 2))"

lemma round_even_error: "\<bar>of_int (round_even r) - r\<bar> \<le> 1 / 2"
proof -
  let ?n = "floor r"
  have b: "of_int ?n \<le> r" "r < of_int ?n + 1" by linarith+
  have "round_even r = ?n \<and> r - of_int ?n \<le> 1 / 2 \<or> round_even r = ?n + 1 \<and> 1 / 2 \<le> r - of_int ?n"
  proof (cases "r - of_int ?n" "1 / 2 :: rat" rule: linorder_cases)
    case less
    then show ?thesis by (simp add: round_even_def Let_def)
  next
    case equal
    then show ?thesis unfolding round_even_def Let_def by simp
  next
    case greater
    then show ?thesis by (simp add: round_even_def Let_def)
  qed
  then consider "round_even r = ?n" "r - of_int ?n \<le> 1 / 2"
    | "round_even r = ?n + 1" "1 / 2 \<le> r - of_int ?n" by blast
  then show ?thesis
  proof cases
    case 1
    then show ?thesis using b by (simp only: abs_le_iff) linarith
  next
    case 2
    then show ?thesis using b by (simp only: abs_le_iff of_int_add of_int_1) linarith
  qed
qed

lemma floorlog_pos:
  assumes "0 < (a :: int)"
  shows "(2 :: rat) powi (int (floorlog 2 (nat a)) - 1) \<le> of_int a"
    and "of_int a < (2 :: rat) powi int (floorlog 2 (nat a))"
proof -
  let ?l = "floorlog 2 (nat a)"
  have b: "2 ^ (?l - 1) \<le> nat a" "nat a < 2 ^ ?l"
    using floorlog_bounds [of "nat a" 2] assms by auto
  have l: "0 < ?l" using assms floorlog_eq_zero_iff [of 2 "nat a"] by simp
  have "(2 :: rat) powi (int ?l - 1) = 2 ^ (?l - 1)"
    using l by (simp add: power_int_def nat_diff_distrib)
  also have "\<dots> = of_nat (2 ^ (?l - 1))" by simp
  also have "\<dots> \<le> of_nat (nat a)" using b(1) of_nat_le_iff by blast
  also have "\<dots> = of_int a" using assms by simp
  finally show "(2 :: rat) powi (int ?l - 1) \<le> of_int a" .
  have "of_int a = (of_nat (nat a) :: rat)" using assms by simp
  also have "\<dots> < of_nat (2 ^ ?l)" using b(2) of_nat_less_iff by blast
  also have "\<dots> = (2 :: rat) powi int ?l" by simp
  finally show "of_int a < (2 :: rat) powi int ?l" .
qed

lemma exponent_bounds:
  assumes "0 < q" shows "2 powi exponent q \<le> q \<and> q < 2 powi (exponent q + 1)"
proof -
  obtain a b where ab: "quotient_of q = (a, b)" by fastforce
  have q: "q = of_int a / of_int b" "0 < b" using quotient_of_div [OF ab] quotient_of_denom_pos [OF ab] by simp_all
  then have a: "0 < a" using assms by (simp add: zero_less_divide_iff)
  let ?la = "int (floorlog 2 (nat a))" and ?lb = "int (floorlog 2 (nat b))"
  note A = floorlog_pos [OF a] and B = floorlog_pos [OF q(2)]
  have "q < 2 powi ?la / 2 powi (?lb - 1)"
    unfolding q(1) using A(2) B(1) a q(2) by (intro frac_less) auto
  also have "\<dots> = 2 powi (?la - ?lb + 1)" by (simp add: power_int_diff power_int_add)
  finally have u: "q < 2 powi (?la - ?lb + 1)" .
  have "2 powi (?la - ?lb - 1) = (2 :: rat) powi (?la - 1) / 2 powi ?lb"
    by (simp add: power_int_diff)
  also have "\<dots> \<le> q" unfolding q(1) using A(1) B(2) a q(2) by (intro frac_le) auto
  finally have l: "2 powi (?la - ?lb - 1) \<le> q" .
  show ?thesis using u l by (auto simp: exponent_def ab Let_def)
qed

lemma exponent_unique:
  assumes "2 powi e \<le> q" "q < 2 powi (e + 1)" shows "exponent q = e"
proof -
  have "0 < q" using assms(1) zero_less_power_int [of "2 :: rat" e] by linarith
  from exponent_bounds [OF this] have b: "2 powi exponent q \<le> q" "q < 2 powi (exponent q + 1)" by blast+
  have "(2 :: rat) powi exponent q < 2 powi (e + 1)" "(2 :: rat) powi e < 2 powi (exponent q + 1)"
    using assms b by linarith+
  then have "\<not> e + 1 \<le> exponent q" "\<not> exponent q + 1 \<le> e"
    using power_int_increasing [of "e + 1" "exponent q" "2 :: rat"]
      power_int_increasing [of "exponent q + 1" e "2 :: rat"] by linarith+
  then show ?thesis by linarith
qed

lemma round_double_error: "\<bar>round_double q - q\<bar> \<le> \<bar>q\<bar> / 2 ^ 53"
proof (cases "q = 0")
  case False
  define e where "e = exponent \<bar>q\<bar> - 52"
  define m where "m = \<bar>q\<bar> * 2 powi (- e)"
  have p: "(0 :: rat) < 2 powi e" by simp
  have q: "\<bar>q\<bar> = m * 2 powi e" by (simp add: m_def power_int_minus)
  have "round_double q - q = sgn q * (of_int (round_even m) * 2 powi e - \<bar>q\<bar>)"
  proof -
    have "round_double q = sgn q * (of_int (round_even m) * 2 powi e)"
      using False by (simp add: round_double_def Let_def e_def m_def)
    moreover have "q = sgn q * \<bar>q\<bar>" by (simp only: mult_sgn_abs)
    ultimately show ?thesis by (metis right_diff_distrib)
  qed
  also have "\<dots> = sgn q * ((of_int (round_even m) - m) * 2 powi e)"
    unfolding q by (simp add: algebra_simps)
  finally have "\<bar>round_double q - q\<bar> = \<bar>of_int (round_even m) - m\<bar> * 2 powi e"
    using False p by (simp add: abs_mult)
  also have "\<dots> \<le> 1 / 2 * 2 powi e"
    using round_even_error [of m] p by (intro mult_right_mono) auto
  also have "\<dots> = 2 powi (exponent \<bar>q\<bar>) / 2 ^ 53"
    by (simp add: e_def power_int_diff field_simps)
  also have "\<dots> \<le> \<bar>q\<bar> / 2 ^ 53"
    using exponent_bounds [of "\<bar>q\<bar>"] False by (simp add: divide_right_mono)
  finally show ?thesis .
qed (simp add: round_double_def)

lemma llround_near:
  assumes "\<bar>y - of_int n\<bar> < 1 / 2" shows "llround y = n"
proof (cases "0 \<le> y")
  case True
  have "of_int n \<le> y + 1 / 2" "y + 1 / 2 < of_int n + 1" using assms by linarith+
  then show ?thesis using True by (simp add: llround_def floor_unique)
next
  case False
  have "of_int n - 1 < y - 1 / 2" "y - 1 / 2 \<le> of_int n" using assms by linarith+
  then show ?thesis using False by (simp add: llround_def ceiling_unique)
qed

text \<open>A number of cents survives the division by 100, two roundings and the product, up to less than a half.\<close>

lemma dollars_near:
  assumes "\<bar>n\<bar> \<le> 2 ^ 50"
  shows "\<bar>dmul (round_double (of_int n / 100)) 100 - of_int n\<bar> < 1 / 2"
proof -
  let ?N = "of_int n :: rat"
  have N: "\<bar>?N\<bar> \<le> 2 ^ 50"
  proof -
    have "\<bar>?N\<bar> = of_int \<bar>n\<bar>" by simp
    also have "\<dots> \<le> of_int (2 ^ 50)" using assms of_int_le_iff by blast
    finally show ?thesis by simp
  qed
  define x where "x = round_double (?N / 100)"
  define y where "y = dmul x 100"
  have "\<bar>x - ?N / 100\<bar> \<le> \<bar>?N / 100\<bar> / 2 ^ 53"
    unfolding x_def by (rule round_double_error)
  then have x: "\<bar>x * 100 - ?N\<bar> \<le> \<bar>?N\<bar> / 2 ^ 53" by (simp add: abs_if field_simps split: if_splits)
  have "\<bar>y - x * 100\<bar> \<le> \<bar>x * 100\<bar> / 2 ^ 53"
    unfolding y_def dmul_def by (rule round_double_error)
  moreover have "\<bar>?N\<bar> / 2 ^ 53 \<le> 1 / 8" using N by simp
  moreover have "\<bar>x * 100\<bar> / 2 ^ 53 \<le> 1 / 4"
  proof -
    have "\<bar>x * 100\<bar> \<le> \<bar>?N\<bar> + \<bar>x * 100 - ?N\<bar>" by linarith
    also have "\<dots> \<le> 2 ^ 51" using N x by simp
    finally show ?thesis by simp
  qed
  ultimately have "\<bar>y - ?N\<bar> < 1 / 2" using x by linarith
  then show ?thesis by (simp add: x_def y_def)
qed

text \<open>The double of 29 cents and its product with 100.\<close>

lemma double_29_cents: "round_double (29 / 100) = 5224175567749775 / 2 ^ 54"
proof -
  have "exponent (29 / 100) = - 2"
    by (rule exponent_unique) (simp_all add: power_int_minus)
  moreover have "floor (130604389193744384 / 25 :: rat) = 5224175567749775" by (simp add: floor_unique)
  ultimately show ?thesis
    by (simp add: round_double_def Let_def round_even_def power_int_minus)
qed

lemma double_29_cents_product:
  "dmul (- round_double (29 / 100)) 100 = - (8162774324609023 / 2 ^ 48)"
proof -
  have "exponent (522417556774977500 / 18014398509481984) = 4"
    by (rule exponent_unique) (simp_all add: power_int_minus)
  moreover have "floor (130604389193744375 / 16 :: rat) = 8162774324609023" by (simp add: floor_unique)
  ultimately have "round_double (- (522417556774977500 / 18014398509481984)) = - (8162774324609023 / 2 ^ 48)"
    by (simp add: round_double_def Let_def round_even_def power_int_minus)
  then show ?thesis by (simp add: dmul_def double_29_cents)
qed

lemma double_29_cents_truncated: "trunc (dmul (- round_double (29 / 100)) 100) = -28"
  by (simp add: double_29_cents_product trunc_def ceiling_unique)

section \<open>Sums and exact values\<close>

definition dadd :: "rat \<Rightarrow> rat \<Rightarrow> rat" where
  "dadd x y = round_double (x + y)"

definition dsub :: "rat \<Rightarrow> rat \<Rightarrow> rat" where
  "dsub x y = round_double (x - y)"

definition ddiv :: "rat \<Rightarrow> rat \<Rightarrow> rat" where
  "ddiv x y = round_double (x / y)"

text \<open>A double is a fixed point of rounding.\<close>

definition is_double :: "rat \<Rightarrow> bool" where
  "is_double q \<longleftrightarrow> round_double q = q"

lemma round_even_int [simp]: "round_even (of_int n) = n"
  by (simp add: round_even_def)

lemma powi_nat: "0 \<le> k \<Longrightarrow> (2 :: rat) powi k = of_int (2 ^ nat k)"
  by (simp add: power_int_def)

lemma double_scaled:
  assumes "\<bar>m\<bar> \<le> 2 ^ 53" shows "is_double (of_int m * 2 powi e)"
proof (cases "m = 0")
  case False
  let ?r = "\<bar>of_int m * 2 powi e :: rat\<bar>"
  let ?x = "exponent ?r"
  have r: "?r = of_int \<bar>m\<bar> * 2 powi e" and pos: "0 < ?r" using False by (simp_all add: abs_mult)
  have x: "2 powi ?x \<le> ?r" "?r < 2 powi (?x + 1)" using exponent_bounds [OF pos] by blast+
  have m: "(of_int \<bar>m\<bar> :: rat) \<le> 2 powi 53" using assms by (simp add: power_int_def)
  have "2 powi ?x \<le> (2 :: rat) powi (53 + e)"
    using x(1) m unfolding r power_int_add [of "2 :: rat" 53 e, simplified]
    by (simp add: power_int_add) (meson mult_right_mono order_trans zero_le_power_int zero_le_numeral)
  then have le: "?x \<le> 53 + e"
    using power_int_strict_increasing [of "53 + e" ?x "2 :: rat"] by fastforce
  have "\<exists>n. ?r * 2 powi (52 - ?x) = of_int n"
  proof (cases "?x = 53 + e")
    case True
    then have "2 powi (53 + e) \<le> ?r" using x(1) by simp
    moreover have "?r \<le> 2 powi (53 + e)"
      using m unfolding r by (simp add: power_int_add)
    ultimately have "?r * 2 powi (52 - ?x) = 2 powi (53 + e) * 2 powi (52 - (53 + e))" using True by simp
    also have "\<dots> = of_int (2 ^ 52)" by (simp flip: power_int_add)
    finally show ?thesis by blast
  next
    case False
    then have "0 \<le> e + (52 - ?x)" using le by linarith
    then have "?r * 2 powi (52 - ?x) = of_int (\<bar>m\<bar> * 2 ^ nat (e + (52 - ?x)))"
      unfolding r by (simp add: powi_nat flip: power_int_add)
    then show ?thesis by blast
  qed
  then obtain n where n: "?r * 2 powi (52 - ?x) = of_int n" by blast
  have "of_int n * 2 powi (?x - 52) = ?r * (2 powi (52 - ?x) * 2 powi (?x - 52))"
    unfolding n [symmetric] by (simp only: mult.assoc)
  also have "2 powi (52 - ?x) * 2 powi (?x - 52) = (1 :: rat)"
    by (simp flip: power_int_add)
  finally have scaled: "of_int n * 2 powi (?x - 52) = ?r" by simp
  have neg: "- (?x - 52) = 52 - ?x" by simp
  show ?thesis
    unfolding is_double_def round_double_def Let_def neg
    using False n scaled by (simp only: round_even_int) (simp add: mult_sgn_abs)
qed (simp add: is_double_def round_double_def)

lemma double_int: "\<bar>n\<bar> \<le> 2 ^ 53 \<Longrightarrow> is_double (of_int n)"
  using double_scaled [of n 0] by simp

lemma round_even_bound: "\<bar>r\<bar> \<le> 2 ^ 53 \<Longrightarrow> \<bar>round_even r\<bar> \<le> 2 ^ 53"
proof -
  assume r: "\<bar>r\<bar> \<le> 2 ^ 53"
  have "(of_int \<bar>round_even r\<bar> :: rat) \<le> \<bar>r\<bar> + 1 / 2"
    using round_even_error [of r] by (simp only: of_int_abs)
  also have "\<dots> < of_int (2 ^ 53 + 1)" using r by simp
  finally show ?thesis by linarith
qed

text \<open>What rounding returns is a double.\<close>

lemma is_double_round [simp]: "is_double (round_double q)"
proof (cases "q = 0")
  case False
  define e where "e = exponent \<bar>q\<bar> - 52"
  define m where "m = round_even (\<bar>q\<bar> * 2 powi (- e))"
  have "\<bar>q\<bar> < 2 powi (e + 53)"
    using exponent_bounds [of "\<bar>q\<bar>"] False by (simp add: e_def add.commute)
  then have "\<bar>q\<bar> * 2 powi (- e) \<le> 2 powi (e + 53) * 2 powi (- e)"
    by (intro mult_right_mono) auto
  also have "2 powi (e + 53) * 2 powi (- e) = (2 ^ 53 :: rat)"
    by (simp flip: power_int_add)
  finally have "\<bar>m\<bar> \<le> 2 ^ 53"
    unfolding m_def by (intro round_even_bound) (simp add: abs_mult)
  then have "is_double (of_int (- m) * 2 powi e)" and "is_double (of_int m * 2 powi e)"
    by (simp_all only: double_scaled abs_minus_cancel)
  moreover have "round_double q = of_int m * 2 powi e \<or> round_double q = of_int (- m) * 2 powi e"
    using False by (auto simp: round_double_def Let_def e_def m_def sgn_if)
  ultimately show ?thesis by metis
qed (simp add: is_double_def round_double_def)

lemma double_ops [simp]: "is_double (dadd x y)" "is_double (dsub x y)" "is_double (ddiv x y)" "is_double 0"
  by (simp_all add: dadd_def dsub_def ddiv_def) (simp add: is_double_def round_double_def)

lemma dadd_exact: "is_double (x + y) \<Longrightarrow> dadd x y = x + y"
  by (simp add: dadd_def is_double_def)

lemma dsub_exact: "is_double (x - y) \<Longrightarrow> dsub x y = x - y"
  by (simp add: dsub_def is_double_def)

end
