(* ===== verification/Json_Reading.thy ===== *)
theory Json_Reading
  imports Double_Arith
begin

text \<open>
  What the clients of the program share: the request and response of the HTTP interface
  (\<open>src/services/IHttpClient.h\<close>) and the reading of \<open>nlohmann::json\<close> values with the exceptions it
  throws (\<open>Inl what\<close>).
\<close>

section \<open>HTTP messages\<close>

record http_request =
  rq_method :: string
  rq_url :: string
  rq_headers :: "(string \<times> string) list"
  rq_body :: "string option"
  rq_timeout :: nat

record http_response =
  rs_status :: int
  rs_headers :: "(string \<times> string) list"
  rs_body :: string

section \<open>Reading JSON\<close>

definition bind_sum :: "'e + 'a \<Rightarrow> ('a \<Rightarrow> 'e + 'b) \<Rightarrow> 'e + 'b" where
  "bind_sum x f = (case x of Inl e \<Rightarrow> Inl e | Inr a \<Rightarrow> f a)"

lemma bind_sum_simps [simp]: "bind_sum (Inl e) f = Inl e" "bind_sum (Inr a) f = f a"
  by (simp_all add: bind_sum_def)

fun map_sum_list :: "('a \<Rightarrow> 'e + 'b) \<Rightarrow> 'a list \<Rightarrow> 'e + 'b list" where
  "map_sum_list f [] = Inr []"
| "map_sum_list f (x # xs) = bind_sum (f x) (\<lambda>y. bind_sum (map_sum_list f xs) (\<lambda>ys. Inr (y # ys)))"

fun type_name :: "json \<Rightarrow> string" where
  "type_name JNull = ''null''"
| "type_name (JBool _) = ''boolean''"
| "type_name (JInt _) = ''number''"
| "type_name (JFloat _) = ''number''"
| "type_name (JStr _) = ''string''"
| "type_name (JArr _) = ''array''"
| "type_name (JObj _) = ''object''"

definition type_error_302 :: "string \<Rightarrow> json \<Rightarrow> string" where
  "type_error_302 wanted j =
     ''[json.exception.type_error.302] type must be '' @ wanted @ '', but is '' @ type_name j"

definition type_error_306 :: "json \<Rightarrow> string" where
  "type_error_306 j = ''[json.exception.type_error.306] cannot use value() with '' @ type_name j"

definition as_string :: "json \<Rightarrow> string + string" where
  "as_string j = (case get_string j of None \<Rightarrow> Inl (type_error_302 ''string'' j) | Some s \<Rightarrow> Inr s)"

fun get_double :: "json \<Rightarrow> rat option" where
  "get_double (JInt n) = Some (round_double (of_int n))"
| "get_double (JFloat (Some q)) = Some q"
| "get_double (JFloat None) = Some 0"
| "get_double _ = None"

definition as_double :: "json \<Rightarrow> string + rat" where
  "as_double j = (case get_double j of None \<Rightarrow> Inl (type_error_302 ''number'' j) | Some q \<Rightarrow> Inr q)"

fun as_bool :: "json \<Rightarrow> string + bool" where
  "as_bool (JBool b) = Inr b"
| "as_bool j = Inl (type_error_302 ''boolean'' j)"

text \<open>\<open>j.value(k, default)\<close>.\<close>

definition value_or :: "(json \<Rightarrow> string + 'v) \<Rightarrow> json \<Rightarrow> string \<Rightarrow> 'v \<Rightarrow> string + 'v" where
  "value_or get j k fallback =
     (case j of
        JObj kvs \<Rightarrow> (case map_of kvs k of None \<Rightarrow> Inr fallback | Some v \<Rightarrow> get v)
      | _ \<Rightarrow> Inl (type_error_306 j))"

text \<open>\<open>j.contains(k) && j[k].is_array()\<close>, and the elements the loop then visits.\<close>

definition elements_of :: "json \<Rightarrow> string \<Rightarrow> json list" where
  "elements_of j k = (case json_at j k of Some (JArr vs) \<Rightarrow> vs | _ \<Rightarrow> [])"

text \<open>The elements a range-based \<open>for\<close> visits: those of an array, the values of an object, nothing for
  \<open>null\<close> and the value itself for any other.\<close>

fun loop_elements :: "json \<Rightarrow> json list" where
  "loop_elements JNull = []"
| "loop_elements (JArr vs) = vs"
| "loop_elements (JObj kvs) = map snd kvs"
| "loop_elements j = [j]"

lemma bind_sum_Inr:
  "bind_sum x f = Inr c \<longleftrightarrow> (\<exists>a. x = Inr a \<and> f a = Inr c)"
  by (cases x) simp_all

lemma map_sum_list_Inr:
  assumes "\<And>x. x \<in> set xs \<Longrightarrow> f (g x) = Inr (h x)"
  shows "map_sum_list f (map g xs) = Inr (map h xs)"
  using assms by (induction xs) simp_all

end
