(* ===== verification/Plaid_Client.thy ===== *)
theory Plaid_Client
  imports Civil_Date Json_Reading
begin

text \<open>
  The HTTP client of the Plaid API (\<open>server/plaid/PlaidApiClient.cpp\<close>).  Sending a request and parsing
  a body are functions of other libraries, so both are arguments (\<open>http_client\<close> of the client's
  record and \<open>parse\<close>); \<open>dump\<close> is the serialisation of \<open>third_party\<close>.

  An operation returns \<open>Inl what\<close> for the exception it throws, and otherwise what it returns: the
  exceptions are those of \<open>json::value\<close>, \<open>get\<close> and \<open>std::stoi\<close>.

  The lemmas show when a call yields nothing, and what happens to amounts of money.
\<close>

section \<open>Requests\<close>

record plaid_client =
  http_client :: "(http_request \<Rightarrow> http_response option) option"
  client_id :: string
  plaid_secret :: string
  plaid_env :: string

text \<open>The constructor: unset and empty variables are the same.\<close>

definition env_or :: "(string \<Rightarrow> string option) \<Rightarrow> string \<Rightarrow> string \<Rightarrow> string" where
  "env_or getenv k fallback =
     (case getenv k of Some v \<Rightarrow> if v \<noteq> [] then v else fallback | None \<Rightarrow> fallback)"

definition make_plaid_client ::
  "(string \<Rightarrow> string option) \<Rightarrow> (http_request \<Rightarrow> http_response option) \<Rightarrow> plaid_client" where
  "make_plaid_client getenv http =
     \<lparr>http_client = Some http, client_id = env_or getenv ''PLAID_CLIENT_ID'' [],
      plaid_secret = env_or getenv ''PLAID_SECRET'' [], plaid_env = env_or getenv ''PLAID_ENV'' ''sandbox''\<rparr>"

definition credentials_available :: "plaid_client \<Rightarrow> bool" where
  "credentials_available c \<longleftrightarrow> client_id c \<noteq> [] \<and> plaid_secret c \<noteq> []"

definition base_url :: "plaid_client \<Rightarrow> string" where
  "base_url c =
     (if plaid_env c = ''production'' then ''https://production.plaid.com''
      else if plaid_env c = ''development'' then ''https://development.plaid.com''
      else ''https://sandbox.plaid.com'')"

section \<open>What the API returns\<close>

record plaid_transaction =
  ptx_id :: string
  ptx_account :: string
  ptx_cents :: int
  ptx_date :: int
  ptx_name :: string
  ptx_category :: string

record plaid_balance =
  pab_account :: string
  pab_cents :: int

record transaction_list =
  tl_added :: "plaid_transaction list"
  tl_modified :: "plaid_transaction list"
  tl_removed :: "string list"
  tl_cursor :: string
  tl_more :: bool
  tl_accounts :: "plaid_balance list"

text \<open>\<open>static_cast<int64_t>(-amount_dollars * 100.0)\<close> and \<open>std::llround(dollars * 100.0)\<close>.\<close>

definition amount_cents :: "rat \<Rightarrow> int" where
  "amount_cents amount_dollars = to_i64 (trunc (dmul (- amount_dollars) 100))"

definition balance_cents_of :: "rat \<Rightarrow> int" where
  "balance_cents_of dollars = to_i64 (llround (dmul dollars 100))"

definition first_category :: "json \<Rightarrow> string + string" where
  "first_category tx = (case elements_of tx ''category'' of [] \<Rightarrow> Inr [] | c # _ \<Rightarrow> as_string c)"

definition parse_transaction :: "json \<Rightarrow> string + plaid_transaction" where
  "parse_transaction tx =
     bind_sum (value_or as_string tx ''transaction_id'' []) (\<lambda>tid.
     bind_sum (value_or as_string tx ''account_id'' []) (\<lambda>account.
     bind_sum (value_or as_double tx ''amount'' 0) (\<lambda>amount.
     bind_sum (value_or as_string tx ''date'' []) (\<lambda>date_str.
     bind_sum (if date_str = [] then Inr 0 else parse_plaid_date date_str) (\<lambda>date.
     bind_sum (value_or as_string tx ''name'' []) (\<lambda>name.
     bind_sum (first_category tx) (\<lambda>category.
       Inr \<lparr>ptx_id = tid, ptx_account = account, ptx_cents = amount_cents amount, ptx_date = date,
            ptx_name = name, ptx_category = category\<rparr>)))))))"

definition current_cents :: "json \<Rightarrow> int" where
  "current_cents acct =
     (case json_at acct ''balances'' of
        Some (JObj bal) \<Rightarrow>
          (case map_of bal ''current'' of
             None \<Rightarrow> 0
           | Some v \<Rightarrow> (case get_double v of None \<Rightarrow> 0 | Some dollars \<Rightarrow> balance_cents_of dollars))
      | _ \<Rightarrow> 0)"

definition parse_balance :: "json \<Rightarrow> string + plaid_balance option" where
  "parse_balance acct =
     bind_sum (value_or as_string acct ''account_id'' []) (\<lambda>i.
       Inr (if i = [] then None else Some \<lparr>pab_account = i, pab_cents = current_cents acct\<rparr>))"

section \<open>The calls\<close>

text \<open>
  What every call does with its body: send it, and give up on a transport error, on a status other
  than 2xx, on a body that is no JSON and on a body with an error code.
\<close>

definition plaid_post ::
  "third_party \<Rightarrow> (string \<Rightarrow> json option) \<Rightarrow> plaid_client \<Rightarrow> string \<Rightarrow> json \<Rightarrow> string + json option" where
  "plaid_post L parse c path body_obj =
     (case http_client c of
        None \<Rightarrow> Inr None
      | Some http_send \<Rightarrow>
          (case http_send \<lparr>rq_method = ''POST'', rq_url = base_url c @ path,
                  rq_headers = [(''Content-Type'', ''application/json''), (''Plaid-Version'', ''2020-09-14'')],
                  rq_body = Some (dump L body_obj), rq_timeout = 30000\<rparr> of
             None \<Rightarrow> Inr None
           | Some resp \<Rightarrow>
               if rs_status resp < 200 \<or> 300 \<le> rs_status resp then Inr None
               else
                 (case parse (rs_body resp) of
                    None \<Rightarrow> Inr None
                  | Some resp_json \<Rightarrow>
                      if json_at resp_json ''error_code'' \<notin> {None, Some JNull}
                      then bind_sum (value_or as_string resp_json ''error_code'' ''unknown'') (\<lambda>_. Inr None)
                      else Inr (Some resp_json))))"

definition with_reply :: "string + json option \<Rightarrow> (json \<Rightarrow> string + 'v) \<Rightarrow> string + 'v option" where
  "with_reply r f =
     bind_sum r (\<lambda>j. case j of None \<Rightarrow> Inr None | Some resp_json \<Rightarrow>
       bind_sum (f resp_json) (\<lambda>v. Inr (Some v)))"

definition read_sync_reply :: "json \<Rightarrow> string + transaction_list" where
  "read_sync_reply resp_json =
     bind_sum (map_sum_list parse_transaction (elements_of resp_json ''added'')) (\<lambda>added.
     bind_sum (map_sum_list parse_transaction (elements_of resp_json ''modified'')) (\<lambda>modified.
     bind_sum (map_sum_list (\<lambda>tx. value_or as_string tx ''transaction_id'' []) (elements_of resp_json ''removed''))
       (\<lambda>removed.
     bind_sum (value_or as_string resp_json ''next_cursor'' []) (\<lambda>next_cursor.
     bind_sum (value_or as_bool resp_json ''has_more'' False) (\<lambda>has_more.
     bind_sum (map_sum_list parse_balance (elements_of resp_json ''accounts'')) (\<lambda>balances.
       Inr \<lparr>tl_added = added, tl_modified = modified, tl_removed = filter (\<lambda>tid. tid \<noteq> []) removed,
            tl_cursor = next_cursor, tl_more = has_more, tl_accounts = List.map_filter id balances\<rparr>))))))"

definition sync_transactions ::
  "third_party \<Rightarrow> (string \<Rightarrow> json option) \<Rightarrow> plaid_client \<Rightarrow> string \<Rightarrow> string option \<Rightarrow>
   string + transaction_list option" where
  "sync_transactions L parse c access_token cursor =
     with_reply
       (plaid_post L parse c ''/transactions/sync''
          (JObj ([(''access_token'', JStr access_token), (''client_id'', JStr (client_id c)),
                  (''count'', JInt 500)] @
                 (case cursor of Some cur \<Rightarrow> if cur \<noteq> [] then [(''cursor'', JStr cur)] else [] | None \<Rightarrow> []) @
                 [(''secret'', JStr (plaid_secret c))])))
       read_sync_reply"

definition fetch_transactions ::
  "third_party \<Rightarrow> (string \<Rightarrow> json option) \<Rightarrow> plaid_client \<Rightarrow> string \<Rightarrow> string \<Rightarrow> int \<Rightarrow> int \<Rightarrow>
   string + transaction_list option" where
  "fetch_transactions L parse c access_token account_id from_unix to_unix =
     with_reply
       (plaid_post L parse c ''/transactions/get''
          (JObj ([(''access_token'', JStr access_token), (''client_id'', JStr (client_id c)),
                  (''end_date'', JStr (format_plaid_date to_unix))] @
                 (if account_id \<noteq> [] then [(''options'', JObj [(''account_ids'', JArr [JStr account_id])])] else []) @
                 [(''secret'', JStr (plaid_secret c)), (''start_date'', JStr (format_plaid_date from_unix))])))
       (\<lambda>resp_json.
          bind_sum (map_sum_list parse_transaction (elements_of resp_json ''transactions'')) (\<lambda>added.
            Inr \<lparr>tl_added = added, tl_modified = [], tl_removed = [], tl_cursor = [], tl_more = False,
                 tl_accounts = []\<rparr>))"

definition link_token_create ::
  "third_party \<Rightarrow> (string \<Rightarrow> json option) \<Rightarrow> plaid_client \<Rightarrow> string \<Rightarrow> string + string option" where
  "link_token_create L parse c client_user_id =
     with_reply
       (plaid_post L parse c ''/link/token/create''
          (JObj [(''client_id'', JStr (client_id c)), (''client_name'', JStr ''Greylock''),
                 (''country_codes'', JArr [JStr ''US'']), (''language'', JStr ''en''),
                 (''products'', JArr [JStr ''transactions'']), (''secret'', JStr (plaid_secret c)),
                 (''user'', JObj [(''client_user_id'', JStr client_user_id)])]))
       (\<lambda>resp_json. value_or as_string resp_json ''link_token'' [])"

definition item_public_token_exchange ::
  "third_party \<Rightarrow> (string \<Rightarrow> json option) \<Rightarrow> plaid_client \<Rightarrow> string \<Rightarrow> string + string option" where
  "item_public_token_exchange L parse c public_token =
     with_reply
       (plaid_post L parse c ''/item/public_token/exchange''
          (JObj [(''client_id'', JStr (client_id c)), (''public_token'', JStr public_token),
                 (''secret'', JStr (plaid_secret c))]))
       (\<lambda>resp_json. value_or as_string resp_json ''access_token'' [])"

text \<open>Here every failure is the answer \<open>false\<close>.\<close>

definition item_remove ::
  "third_party \<Rightarrow> (string \<Rightarrow> json option) \<Rightarrow> plaid_client \<Rightarrow> string \<Rightarrow> string + bool" where
  "item_remove L parse c access_token =
     bind_sum
       (with_reply
         (plaid_post L parse c ''/item/remove''
            (JObj [(''access_token'', JStr access_token), (''client_id'', JStr (client_id c)),
                   (''secret'', JStr (plaid_secret c))]))
         (\<lambda>resp_json. value_or as_bool resp_json ''removed'' False))
       (\<lambda>r. Inr (case r of None \<Rightarrow> False | Some b \<Rightarrow> b))"

section \<open>What a call rests on\<close>

lemma bind_sum_InrE:
  assumes "bind_sum x f = Inr b"
  obtains a where "x = Inr a" "f a = Inr b"
  using assms by (cases x) auto

lemma plaid_post_SomeD:
  assumes "plaid_post L parse c path b = Inr (Some j)"
  obtains http resp where "http_client c = Some http"
    "http \<lparr>rq_method = ''POST'', rq_url = base_url c @ path,
       rq_headers = [(''Content-Type'', ''application/json''), (''Plaid-Version'', ''2020-09-14'')],
       rq_body = Some (dump L b), rq_timeout = 30000\<rparr> = Some resp"
    "200 \<le> rs_status resp" "rs_status resp < 300" "parse (rs_body resp) = Some j"
    "json_at j ''error_code'' = None \<or> json_at j ''error_code'' = Some JNull"
  using assms by (auto simp: plaid_post_def split: option.splits if_splits elim!: bind_sum_InrE)

lemma with_reply_SomeD:
  assumes "with_reply r f = Inr (Some v)"
  obtains j where "r = Inr (Some j)" "f j = Inr v"
  using assms by (auto simp: with_reply_def split: option.splits elim!: bind_sum_InrE)

definition sync_body :: "plaid_client \<Rightarrow> string \<Rightarrow> string option \<Rightarrow> json" where
  "sync_body c access_token cursor =
     JObj ([(''access_token'', JStr access_token), (''client_id'', JStr (client_id c)), (''count'', JInt 500)] @
       (case cursor of Some cur \<Rightarrow> if cur \<noteq> [] then [(''cursor'', JStr cur)] else [] | None \<Rightarrow> []) @
       [(''secret'', JStr (plaid_secret c))])"

text \<open>A sync yields transactions only from a 2xx answer to the one request it sends, with a JSON body
  that carries no error code: a failed call never yields a partial list.\<close>

theorem sync_reply_trusted:
  assumes "sync_transactions L parse c access_token cursor = Inr (Some reply)"
  shows "\<exists>http resp j. http_client c = Some http \<and>
    http \<lparr>rq_method = ''POST'', rq_url = base_url c @ ''/transactions/sync'',
       rq_headers = [(''Content-Type'', ''application/json''), (''Plaid-Version'', ''2020-09-14'')],
       rq_body = Some (dump L (sync_body c access_token cursor)), rq_timeout = 30000\<rparr> = Some resp \<and>
    200 \<le> rs_status resp \<and> rs_status resp < 300 \<and> parse (rs_body resp) = Some j \<and>
    json_at j ''error_code'' \<in> {None, Some JNull} \<and> read_sync_reply j = Inr reply"
  using assms unfolding sync_transactions_def
  by (elim with_reply_SomeD plaid_post_SomeD) (auto simp: sync_body_def)

text \<open>A client whose server always answers an empty object.\<close>

definition quiet_client :: plaid_client where
  "quiet_client = \<lparr>http_client = Some (\<lambda>_. Some \<lparr>rs_status = 200, rs_headers = [], rs_body = ''{}''\<rparr>),
     client_id = ''id'', plaid_secret = ''s'', plaid_env = ''sandbox''\<rparr>"

definition empty_reply :: transaction_list where
  "empty_reply = \<lparr>tl_added = [], tl_modified = [], tl_removed = [], tl_cursor = [], tl_more = False,
     tl_accounts = []\<rparr>"

lemma quiet_sync: "sync_transactions L (\<lambda>_. Some (JObj [])) quiet_client tok cur = Inr (Some empty_reply)"
  by (simp add: sync_transactions_def plaid_post_def quiet_client_def with_reply_def read_sync_reply_def
      elements_of_def value_or_def empty_reply_def map_filter_simps)

theorem sync_reply_trusted_witness:
  "\<exists>http resp j. http_client quiet_client = Some http \<and>
    http \<lparr>rq_method = ''POST'', rq_url = ''https://sandbox.plaid.com/transactions/sync'',
       rq_headers = [(''Content-Type'', ''application/json''), (''Plaid-Version'', ''2020-09-14'')],
       rq_body = Some [], rq_timeout = 30000\<rparr> = Some resp \<and>
    200 \<le> rs_status resp \<and> rs_status resp < 300 \<and> Some (JObj []) = Some j \<and>
    json_at j ''error_code'' \<in> {None, Some JNull} \<and> read_sync_reply j = Inr empty_reply"
  using sync_reply_trusted [OF quiet_sync [of "\<lparr>generichash = (\<lambda>x. x), pwhash_str = (\<lambda>_. None),
      pwhash_verify = (\<lambda>_ _. False), bin2hex = (\<lambda>_. []), b64_encode = (\<lambda>_. []), b64_decode = (\<lambda>_. None),
      sodium_memcmp = (\<lambda>_ _. 0), dump = (\<lambda>_. [])\<rparr>" "''t''" None]]
  by (simp add: base_url_def quiet_client_def)

section \<open>Amounts of money\<close>

text \<open>The number of cents of an amount, when the amount is the double nearest to it.\<close>

lemma dollars_close:
  assumes "\<bar>n\<bar> \<le> 2 ^ 50"
  shows "\<bar>dmul (round_double (of_int n / 100)) 100 - of_int n\<bar> < 1 / 2"
  using dollars_near [OF assms] .

text \<open>Balances are exact: the double nearest to a number of cents over 100 is stored as that number of
  cents, up to 2 to the 50 cents.\<close>

theorem balance_cents_exact:
  assumes "\<bar>n\<bar> \<le> 2 ^ 50"
  shows "balance_cents_of (round_double (of_int n / 100)) = n"
proof -
  have "in_i64 n" using assms by (simp add: in_i64_def abs_le_iff)
  then show ?thesis using llround_near [OF dollars_close [OF assms]] by (simp add: balance_cents_of_def)
qed

theorem balance_cents_exact_witness: "balance_cents_of (round_double (29 / 100)) = 29"
  using balance_cents_exact [of 29] by simp

lemma round_double_minus: "round_double (- q) = - round_double q"
  by (simp add: round_double_def Let_def sgn_minus)

text \<open>Amounts of transactions are truncated instead: the cents stored are those of the amount, negated,
  or one cent nearer to zero.\<close>

theorem transaction_cents_truncated:
  assumes "\<bar>n\<bar> \<le> 2 ^ 50"
  shows "amount_cents (round_double (of_int n / 100)) \<in> {- n, - n + sgn n}"
proof -
  let ?y = "dmul (- round_double (of_int n / 100)) 100"
  have "\<bar>?y + of_int n\<bar> < 1 / 2"
    using dollars_close [OF assms] by (simp add: dmul_def round_double_minus abs_minus_commute)
  then have y: "- of_int n - 1 / 2 < ?y" "?y < - of_int n + 1 / 2" by linarith+
  have "trunc ?y \<in> {- n, - n + sgn n}"
  proof (cases n "0 :: int" rule: linorder_cases)
    case less
    then have "0 \<le> ?y" using y(1) of_int_le_iff [of n "-1", where 'a = rat] by simp
    moreover have "- n - 1 \<le> floor ?y" "floor ?y \<le> - n" using y by linarith+
    ultimately show ?thesis using less by (auto simp: trunc_def)
  next
    case equal
    then show ?thesis by (simp add: trunc_def dmul_def round_double_def)
  next
    case greater
    then have "\<not> 0 \<le> ?y" using y(2) of_int_le_iff [of 1 n, where 'a = rat] by simp
    moreover have "- n \<le> ceiling ?y" "ceiling ?y \<le> - n + 1" using y by linarith+
    ultimately show ?thesis using greater by (auto simp: trunc_def)
  qed
  moreover have "in_i64 (- n)" "in_i64 (- n + sgn n)"
    using assms by (auto simp: in_i64_def abs_le_iff sgn_if)
  ultimately show ?thesis by (auto simp: amount_cents_def)
qed

theorem transaction_cents_truncated_witness:
  "amount_cents (round_double (29 / 100)) \<in> {- 29, - 28}"
  using transaction_cents_truncated [of 29] by simp

text \<open>The cent is really lost: 29 cents are stored as 28.\<close>

theorem transaction_cents_lost: "amount_cents (round_double (29 / 100)) = - 28"
proof -
  have "in_i64 (- 28)" by (simp add: in_i64_def)
  then show ?thesis by (simp add: amount_cents_def double_29_cents_truncated)
qed

end
