(* ===== verification/Envelope_Encryption.thy ===== *)
theory Envelope_Encryption
  imports Greylock_Prelude
begin

text \<open>
  The envelope around encrypted columns (\<open>src/services/crypto/EnvelopeEncryption.cpp\<close>): a version
  byte, a random nonce of 24 bytes and the output of libsodium's XChaCha20-Poly1305.  The cipher and
  the key derivation of libsodium are arguments.

  The lemma shows which blobs decrypt, and to what.
\<close>

text \<open>
  \<open>aead_seal\<close> and \<open>aead_open\<close> are \<open>crypto_aead_xchacha20poly1305_ietf_encrypt\<close> and \<open>_decrypt\<close> of a
  key, a nonce, the additional data and a text, \<open>kdf_derive\<close> is \<open>crypto_kdf_derive_from_key\<close> of a
  subkey number, a context and a master key; \<open>None\<close> is a result code other than 0.  \<open>sodium_ready\<close>
  tells whether \<open>sodium_init\<close> succeeds.
\<close>

record crypto_libs =
  sodium_ready :: bool
  aead_seal :: "byte list \<Rightarrow> byte list \<Rightarrow> byte list \<Rightarrow> byte list \<Rightarrow> byte list option"
  aead_open :: "byte list \<Rightarrow> byte list \<Rightarrow> byte list \<Rightarrow> byte list \<Rightarrow> byte list option"
  kdf_derive :: "nat \<Rightarrow> string \<Rightarrow> byte list \<Rightarrow> byte list option"

text \<open>
  Documented behaviour of the cipher: the tag adds 16 bytes, and opening a text succeeds exactly
  when it is what sealing yields under the same key, nonce and additional data.
\<close>

definition aead_spec :: "crypto_libs \<Rightarrow> bool" where
  "aead_spec C \<longleftrightarrow>
     (\<forall>k n a p c. length k = 32 \<longrightarrow> length n = 24 \<longrightarrow>
        (aead_open C k n a c = Some p \<longleftrightarrow> aead_seal C k n a p = Some c) \<and>
        (aead_seal C k n a p = Some c \<longrightarrow> length c = length p + 16))"

definition NONCE_BYTES :: nat where
  "NONCE_BYTES = 24"

definition TAG_BYTES :: nat where
  "TAG_BYTES = 16"

definition HEADER_BYTES :: nat where
  "HEADER_BYTES = 1 + NONCE_BYTES"

definition MIN_BLOB_BYTES :: nat where
  "MIN_BLOB_BYTES = HEADER_BYTES + TAG_BYTES"

definition ENVELOPE_VERSION :: byte where
  "ENVELOPE_VERSION = 1"

definition sodium_failed :: string where
  "sodium_failed = ''tf::crypto: sodium_init() returned -1 '' @
     [CHR 0xE2, CHR 0x80, CHR 0x94] @ '' libsodium initialization failed. '' @
     ''Check that the library is correctly installed and linked.''"

text \<open>\<open>nonce\<close> is what \<open>randombytes_buf\<close> fills in.\<close>

definition encrypt :: "crypto_libs \<Rightarrow> byte list \<Rightarrow> byte list \<Rightarrow> byte list \<Rightarrow> byte list \<Rightarrow> string + byte list" where
  "encrypt C nonce plaintext aad key =
     (if \<not> sodium_ready C then Inl sodium_failed
      else case aead_seal C key nonce aad plaintext of
             None \<Rightarrow> Inl ''tf::crypto::encrypt: libsodium encrypt returned non-zero''
           | Some ciphertext \<Rightarrow> Inr (ENVELOPE_VERSION # nonce @ ciphertext))"

definition decrypt :: "crypto_libs \<Rightarrow> byte list \<Rightarrow> byte list \<Rightarrow> byte list \<Rightarrow> string + byte list option" where
  "decrypt C blob aad key =
     (if \<not> sodium_ready C then Inl sodium_failed
      else if length blob < MIN_BLOB_BYTES then Inr None
      else if hd blob \<noteq> ENVELOPE_VERSION then Inr None
      else Inr (aead_open C key (take NONCE_BYTES (drop 1 blob)) aad (drop HEADER_BYTES blob)))"

lemma decrypt_encrypt:
  assumes "aead_spec C" "length key = 32" "length nonce = 24" "encrypt C nonce plaintext aad key = Inr blob"
  shows "decrypt C blob aad key = Inr (Some plaintext)"
proof -
  obtain c where c: "aead_seal C key nonce aad plaintext = Some c" "blob = ENVELOPE_VERSION # nonce @ c"
    and ready: "sodium_ready C"
    using assms(4) by (auto simp: encrypt_def split: if_splits option.splits)
  have "aead_open C key nonce aad c = Some plaintext \<and> length c = length plaintext + 16"
    using assms(1-3) c(1) unfolding aead_spec_def by blast
  then show ?thesis
    using assms(3) ready
    by (simp add: decrypt_def c MIN_BLOB_BYTES_def HEADER_BYTES_def NONCE_BYTES_def TAG_BYTES_def)
qed

lemma decrypt_some:
  assumes "aead_spec C" "length key = 32" "decrypt C blob aad key = Inr (Some plaintext)"
  shows "length (take 24 (drop 1 blob)) = 24 \<and> encrypt C (take 24 (drop 1 blob)) plaintext aad key = Inr blob"
proof -
  have b: "sodium_ready C" "41 \<le> length blob" "hd blob = ENVELOPE_VERSION"
    "aead_open C key (take 24 (drop 1 blob)) aad (drop 25 blob) = Some plaintext"
    using assms(3)
    by (auto simp: decrypt_def MIN_BLOB_BYTES_def HEADER_BYTES_def NONCE_BYTES_def TAG_BYTES_def split: if_splits)
  have n: "length (take 24 (drop 1 blob)) = 24" using b(2) by simp
  then have "aead_seal C key (take 24 (drop 1 blob)) aad plaintext = Some (drop 25 blob)"
    using assms(1,2) b(4) unfolding aead_spec_def by blast
  moreover have "blob = hd blob # take 24 (drop 1 blob) @ drop 25 blob"
  proof -
    obtain x xs where "blob = x # xs" using b(2) by (cases blob) auto
    then show ?thesis by simp
  qed
  ultimately have "encrypt C (take 24 (drop 1 blob)) plaintext aad key = Inr blob"
    using b(1,3) by (simp add: encrypt_def)
  with n show ?thesis by blast
qed

text \<open>C23. A blob decrypts to a text under a key and additional data exactly when encrypting that text,
  with those, can yield the blob: decryption undoes encryption and accepts nothing else.\<close>

theorem envelope_exact:
  assumes "aead_spec C" "length key = 32"
  shows "decrypt C blob aad key = Inr (Some plaintext) \<longleftrightarrow>
    (\<exists>nonce. length nonce = 24 \<and> encrypt C nonce plaintext aad key = Inr blob)"
  using decrypt_encrypt [OF assms] decrypt_some [OF assms] by blast

text \<open>
  A cipher that satisfies the documented behaviour: the text in the clear, followed by a tag that
  holds the first bytes of the key, so that it opens under no key that starts otherwise.
\<close>

definition clear_libs :: crypto_libs where
  "clear_libs =
     \<lparr>sodium_ready = True, aead_seal = (\<lambda>k n a p. Some (p @ take 16 k)),
      aead_open = (\<lambda>k n a c. if 16 \<le> length c \<and> drop (length c - 16) c = take 16 k
                             then Some (take (length c - 16) c) else None),
      kdf_derive = (\<lambda>i ctx m. Some m)\<rparr>"

lemma clear_libs_spec [simp]: "aead_spec clear_libs"
proof -
  have "(16 \<le> length c \<and> drop (length c - 16) c = take 16 k \<and> take (length c - 16) c = p) = (p @ take 16 k = c)"
    if "length k = 32" for k c p :: "byte list"
  proof
    assume h: "16 \<le> length c \<and> drop (length c - 16) c = take 16 k \<and> take (length c - 16) c = p"
    then have "p @ take 16 k = take (length c - 16) c @ drop (length c - 16) c" by simp
    then show "p @ take 16 k = c" by (simp only: append_take_drop_id)
  qed (use that in auto)
  then show ?thesis by (auto simp: aead_spec_def clear_libs_def)
qed

theorem envelope_exact_witness:
  "decrypt clear_libs (1 # replicate 24 9 @ [65] @ replicate 16 3) [7] (replicate 32 3) = Inr (Some [65]) \<longleftrightarrow>
    (\<exists>nonce. length nonce = 24 \<and>
       encrypt clear_libs nonce [65] [7] (replicate 32 3) = Inr (1 # replicate 24 9 @ [65] @ replicate 16 3))"
  by (rule envelope_exact) simp_all

end
