(* ===== verification/Plaid_Broker.thy ===== *)
theory Plaid_Broker
  imports Envelope_Encryption Enrollment_Model Entity_Scope
begin

text \<open>
  The broker of Plaid access tokens (\<open>server/plaid/PlaidTokenBroker.cpp\<close> and its header): the key it
  derives from the master key, and the tokens it keeps encrypted in the accounts table, bound to
  their account by the additional data.

  The lemmas show that a stored token is the one that is decrypted, that a master key survives its
  spelling in the environment, and what a missing or foreign blob leads to.
\<close>

section \<open>The key\<close>

definition KDF_CTX :: string where
  "KDF_CTX = ''tf-plaid''"

definition PLAID_DEK_SUBKEY_ID :: nat where
  "PLAID_DEK_SUBKEY_ID = 1"

definition derive_dek :: "crypto_libs \<Rightarrow> byte list \<Rightarrow> string + byte list" where
  "derive_dek C master_key =
     (case kdf_derive C PLAID_DEK_SUBKEY_ID KDF_CTX master_key of
        None \<Rightarrow> Inl ''PlaidTokenBroker: crypto_kdf_derive_from_key failed''
      | Some dek \<Rightarrow> Inr dek)"

definition broker_of_key :: "crypto_libs \<Rightarrow> byte list \<Rightarrow> string + byte list" where
  "broker_of_key C master_key =
     (if \<not> sodium_ready C then Inl ''PlaidTokenBroker: sodium_init() failed'' else derive_dek C master_key)"

text \<open>Two characters at a time, 32 times; \<open>None\<close> is a character that is no hex digit.\<close>

fun decode_hex_key :: "string \<Rightarrow> byte list option" where
  "decode_hex_key (hi # lo # s) =
     (case (hex_value hi, hex_value lo) of
        (Some hv, Some lv) \<Rightarrow>
          map_option ((#) (or (push_bit 4 (of_nat hv)) (of_nat lv))) (decode_hex_key s)
      | _ \<Rightarrow> None)"
| "decode_hex_key _ = Some []"

definition read_master_key_env :: "string option \<Rightarrow> string + byte list" where
  "read_master_key_env env_val =
     (case env_val of
        None \<Rightarrow> Inl (''PlaidTokenBroker: TF_MASTER_KEY environment variable is not set. '' @
                    ''Set it to a 64-hex-character (32-byte) master key.'')
      | Some key_str \<Rightarrow>
          if key_str = []
          then Inl (''PlaidTokenBroker: TF_MASTER_KEY environment variable is not set. '' @
                    ''Set it to a 64-hex-character (32-byte) master key.'')
          else if length key_str = 64
          then (case decode_hex_key key_str of
                  None \<Rightarrow> Inl ''PlaidTokenBroker: TF_MASTER_KEY contains non-hex characters.''
                | Some k \<Rightarrow> Inr k)
          else if length key_str = 32 then Inr (bytes_of key_str)
          else Inl (''PlaidTokenBroker: TF_MASTER_KEY must be 64 hex characters or 32 raw bytes; got '' @
                    nat_to_string (length key_str) @ '' characters.''))"

definition broker_of_env :: "crypto_libs \<Rightarrow> string option \<Rightarrow> string + byte list" where
  "broker_of_env C env_val =
     (if \<not> sodium_ready C then Inl ''PlaidTokenBroker: sodium_init() failed''
      else case read_master_key_env env_val of Inl what \<Rightarrow> Inl what | Inr k \<Rightarrow> derive_dek C k)"

section \<open>Tokens\<close>

text \<open>\<open>stored\<close> tells whether SQLite completes the \<open>UPDATE\<close>.\<close>

definition store_token ::
  "crypto_libs \<Rightarrow> byte list \<Rightarrow> byte list \<Rightarrow> bool \<Rightarrow> string \<Rightarrow> string \<Rightarrow> db \<Rightarrow> (string + unit) \<times> db" where
  "store_token C dek nonce stored account_id plaintext_token d =
     (case encrypt C nonce (bytes_of plaintext_token) (bytes_of account_id) dek of
        Inl what \<Rightarrow> (Inl what, d)
      | Inr blob \<Rightarrow>
          if \<not> stored
          then (Inl (''PlaidTokenBroker::store_token: UPDATE failed for account '' @ account_id), d)
          else (Inr (), d\<lparr>accounts := upd_by acc_id account_id
                             (\<lambda>r. r\<lparr>acc_token := Some blob, acc_linked := 1\<rparr>) (accounts d)\<rparr>))"

definition clear_token :: "string \<Rightarrow> db \<Rightarrow> db" where
  "clear_token account_id d =
     d\<lparr>accounts := upd_by acc_id account_id (\<lambda>r. r\<lparr>acc_token := None, acc_linked := 0\<rparr>) (accounts d)\<rparr>"

text \<open>A blob of no bytes counts as none.\<close>

definition fetch_encrypted_blob :: "string \<Rightarrow> db \<Rightarrow> byte list option" where
  "fetch_encrypted_blob account_id d =
     (case sel_by acc_id account_id (accounts d) of
        None \<Rightarrow> None
      | Some r \<Rightarrow> (case acc_token r of None \<Rightarrow> None | Some blob \<Rightarrow> if blob = [] then None else Some blob))"

definition decrypt_and_invoke ::
  "crypto_libs \<Rightarrow> byte list \<Rightarrow> string \<Rightarrow> byte list \<Rightarrow> (string \<Rightarrow> db \<Rightarrow> (string + 'a) \<times> db) \<Rightarrow> db \<Rightarrow>
   (string + 'a) \<times> db" where
  "decrypt_and_invoke C dek account_id blob f d =
     (case decrypt C blob (bytes_of account_id) dek of
        Inl what \<Rightarrow> (Inl what, d)
      | Inr None \<Rightarrow>
          (Inl (''PlaidTokenBroker: decryption failed for account '' @ account_id @ '' '' @
                [CHR 0xE2, CHR 0x80, CHR 0x94] @ '' tag mismatch or corrupted blob.''), d)
      | Inr (Some plaintext) \<Rightarrow> f (map char_of_byte plaintext) d)"

definition with_decrypted_token ::
  "crypto_libs \<Rightarrow> byte list \<Rightarrow> string \<Rightarrow> (string \<Rightarrow> db \<Rightarrow> (string + 'a) \<times> db) \<Rightarrow>
   (db \<Rightarrow> (string + 'a) \<times> db) \<Rightarrow> db \<Rightarrow> (string + 'a) \<times> db" where
  "with_decrypted_token C dek account_id on_token on_no_token d =
     (case fetch_encrypted_blob account_id d of
        None \<Rightarrow> on_no_token d
      | Some blob \<Rightarrow> decrypt_and_invoke C dek account_id blob on_token d)"

section \<open>Round trips\<close>

lemma nibbles_or: "or (push_bit 4 (of_nat (unat (b :: byte) div 16))) (of_nat (unat b mod 16)) = b"
proof -
  have "(of_nat (unat b div 16) :: byte) = of_nat (unat (drop_bit 4 b))"
    by (simp only: unat_drop_bit_eq drop_bit_eq_div [where 'a = nat]) simp
  moreover have "(of_nat (unat b mod 16) :: byte) = of_nat (unat (take_bit 4 b))"
    by (simp only: unsigned_take_bit_eq take_bit_eq_mod [where 'a = nat]) simp
  moreover have "or (push_bit 4 (drop_bit 4 b)) (take_bit 4 b) = b"
    by (rule bit_word_eqI) (auto simp: bit_simps)
  ultimately show ?thesis by simp
qed

lemma decode_hex_key_bytes: "decode_hex_key (bytes_to_hex bs) = Some bs"
proof (induction bs)
  case (Cons b bs)
  have h: "hex_value (hex_digit (unat b div 16)) = Some (unat b div 16)"
    "hex_value (hex_digit (unat b mod 16)) = Some (unat b mod 16)"
    by (rule hex_value_digit, rule unat_byte_nibbles)+
  have "or (push_bit 4 (of_nat (unat b div 16))) (of_nat (unat b mod 16)) = b"
    by (rule nibbles_or)
  with Cons h show ?case by (simp add: bytes_to_hex_def byte_to_hex_def)
qed (simp add: bytes_to_hex_def)

text \<open>A master key of 32 bytes is the same key whether the environment holds its 64 hex digits or the
  bytes themselves.\<close>

theorem master_key_spellings:
  assumes "length k = 32"
  shows "read_master_key_env (Some (bytes_to_hex k)) = Inr k \<and>
    read_master_key_env (Some (map char_of_byte k)) = Inr k"
proof -
  have "bytes_to_hex k \<noteq> []" using assms by (metis length_bytes_to_hex list.size(3) mult_is_0 zero_neq_numeral)
  then show ?thesis
    using assms by (auto simp: read_master_key_env_def decode_hex_key_bytes bytes_of_def comp_def)
qed

theorem master_key_spellings_witness:
  "read_master_key_env (Some (bytes_to_hex (replicate 32 5))) = Inr (replicate 32 5) \<and>
   read_master_key_env (Some (map char_of_byte (replicate 32 5))) = Inr (replicate 32 5)"
  by (rule master_key_spellings) simp

lemma char_of_bytes_of [simp]: "map char_of_byte (bytes_of s) = s"
  by (simp add: bytes_of_def comp_def)

lemma store_token_result:
  assumes "store_token C dek nonce stored account_id token d = (Inr (), d')"
  obtains blob where "encrypt C nonce (bytes_of token) (bytes_of account_id) dek = Inr blob"
    "d' = d\<lparr>accounts := upd_by acc_id account_id (\<lambda>r. r\<lparr>acc_token := Some blob, acc_linked := 1\<rparr>) (accounts d)\<rparr>"
  using assms by (auto simp: store_token_def split: sum.splits if_splits)

text \<open>The token stored for an account is the one its users get, and only for that account: reading the
  token of any other account gives what it gave before.\<close>

theorem stored_token_decrypts:
  assumes "aead_spec C" "length dek = 32" "length nonce = 24"
    and "store_token C dek nonce stored account_id token d = (Inr (), d')"
    and "sel_by acc_id account_id (accounts d) = Some r"
  shows "with_decrypted_token C dek account_id on_token on_no_token d' = on_token token d' \<and>
    (account_id' \<noteq> account_id \<longrightarrow> fetch_encrypted_blob account_id' d' = fetch_encrypted_blob account_id' d)"
proof -
  obtain blob where blob: "encrypt C nonce (bytes_of token) (bytes_of account_id) dek = Inr blob"
    "d' = d\<lparr>accounts := upd_by acc_id account_id (\<lambda>r. r\<lparr>acc_token := Some blob, acc_linked := 1\<rparr>) (accounts d)\<rparr>"
    using assms(4) by (rule store_token_result)
  have "blob \<noteq> []" using blob(1) by (auto simp: encrypt_def split: if_splits option.splits)
  then have "fetch_encrypted_blob account_id d' = Some blob"
    using assms(5) by (simp add: fetch_encrypted_blob_def blob(2) sel_by_upd_by)
  moreover have "account_id' \<noteq> account_id \<Longrightarrow> fetch_encrypted_blob account_id' d' = fetch_encrypted_blob account_id' d"
    by (simp add: fetch_encrypted_blob_def blob(2) sel_by_upd_by)
  ultimately show ?thesis
    using decrypt_encrypt [OF assms(1-3) blob(1)]
    by (simp add: with_decrypted_token_def decrypt_and_invoke_def)
qed

definition one_account_db :: db where
  "one_account_db = empty_db\<lparr>accounts :=
     [\<lparr>acc_id = ''a'', acc_entity = ''e'', acc_name = [], acc_kind = [], acc_balance = 0, acc_item = None,
       acc_plaid = None, acc_token = None, acc_linked = 0, acc_created = 0, acc_institution = []\<rparr>]\<rparr>"

theorem stored_token_decrypts_witness:
  "with_decrypted_token clear_libs (replicate 32 3) ''a'' (\<lambda>t d. (Inr t, d)) (\<lambda>d. (Inl ''none'', d))
     (snd (store_token clear_libs (replicate 32 3) (replicate 24 9) True ''a'' ''tok'' one_account_db)) =
     (Inr ''tok'', snd (store_token clear_libs (replicate 32 3) (replicate 24 9) True ''a'' ''tok'' one_account_db))"
proof -
  have "store_token clear_libs (replicate 32 3) (replicate 24 9) True ''a'' ''tok'' one_account_db =
      (Inr (), snd (store_token clear_libs (replicate 32 3) (replicate 24 9) True ''a'' ''tok'' one_account_db))"
    by (simp add: store_token_def encrypt_def clear_libs_def)
  from stored_token_decrypts [OF clear_libs_spec _ _ this, where on_token = "\<lambda>t d. (Inr t, d)" and
      on_no_token = "\<lambda>d. (Inl ''none'', d)" and account_id' = "''a''"]
  show ?thesis by (simp add: one_account_db_def)
qed

text \<open>A cleared token is gone.\<close>

lemma cleared_token: "with_decrypted_token C dek account_id on_token on_no_token (clear_token account_id d) =
    on_no_token (clear_token account_id d)"
  by (simp add: with_decrypted_token_def fetch_encrypted_blob_def clear_token_def sel_by_upd_by
      split: option.splits)

end
