(* ===== verification/Plaid_Sync.thy ===== *)
theory Plaid_Sync
  imports Plaid_Client Plaid_Broker Accounts_Handler
begin

text \<open>
  The sync of linked accounts (\<open>server/plaid/PlaidSyncScheduler.cpp\<close>) and the route that forces one
  (\<open>handle_sync_account\<close> of \<open>server/data/AccountsHandler.cpp\<close>).

  The lemmas show that applying a page of transactions twice is applying it once, that a pass over
  the accounts leaves one audit record for each, whatever fails on the way, that the cursor
  advances even past transactions that could not be stored, and how the worker paces itself.
\<close>

text \<open>
  What a sync works with: the client and its parser, the cipher and the derived key, the nonce the
  random generator yields, and which statements SQLite completes: the \<open>i\<close>-th insertion of a
  transaction, and the update of the account (its balance, or its token).
\<close>

record plaid_world =
  pw_client :: plaid_client
  pw_parse :: "string \<Rightarrow> json option"
  pw_crypto :: crypto_libs
  pw_dek :: "byte list"
  pw_nonce :: "byte list"
  pw_insert_ok :: "nat \<Rightarrow> bool"
  pw_update_ok :: bool

section \<open>The statements of a sync\<close>

definition get_cursor :: "string \<Rightarrow> db \<Rightarrow> string option" where
  "get_cursor account_id d =
     (case sel_by syn_account account_id (sync_state d) of
        None \<Rightarrow> None
      | Some r \<Rightarrow> (let cur = c_str (syn_cursor r) in if cur \<noteq> [] then Some cur else None))"

definition store_cursor :: "int \<Rightarrow> string \<Rightarrow> string \<Rightarrow> db \<Rightarrow> db" where
  "store_cursor now account_id cursor d =
     (case ins_by syn_account \<lparr>syn_account = account_id, syn_cursor = cursor, syn_last = now\<rparr> (sync_state d) of
        Some t \<Rightarrow> d\<lparr>sync_state := t\<rparr>
      | None \<Rightarrow> d\<lparr>sync_state := upd_by syn_account account_id
                    (\<lambda>r. r\<lparr>syn_cursor := cursor, syn_last := now\<rparr>) (sync_state d)\<rparr>)"

definition emit_sync_audit ::
  "third_party \<Rightarrow> env \<Rightarrow> nat \<Rightarrow> string \<Rightarrow> string \<Rightarrow> string \<Rightarrow> json \<Rightarrow> db \<Rightarrow> (string + unit) \<times> db" where
  "emit_sync_audit L E i account_id action outcome details d =
     record_event L (append_ok E i)
       \<lparr>ev_ts_ms = clock_ms E, ev_actor = [], ev_actor_kind = ''sync_worker'', ev_domain = [],
        ev_subject = account_id, ev_subject_kind = ''account'', ev_action = action,
        ev_outcome = outcome, ev_details = details\<rparr> d"

definition internal_id :: "third_party \<Rightarrow> plaid_transaction \<Rightarrow> string" where
  "internal_id L t = bin2hex L (generichash L (bytes_of (ptx_id t)))"

definition overwrite :: "plaid_transaction \<Rightarrow> tx_row \<Rightarrow> tx_row" where
  "overwrite t r = r\<lparr>tx_amount := ptx_cents t, tx_posted := ptx_date t,
     tx_description := null_if_empty (ptx_name t), tx_category := null_if_empty (ptx_category t)\<rparr>"

definition upsert_transaction ::
  "third_party \<Rightarrow> int \<Rightarrow> bool \<Rightarrow> string \<Rightarrow> plaid_transaction \<Rightarrow> db \<Rightarrow> (string + unit) \<times> db" where
  "upsert_transaction L now done account_id t d =
     (let failed = Inl (''PlaidSyncScheduler::upsert_transaction: INSERT failed for plaid_tx_id='' @ ptx_id t);
          r = \<lparr>tx_id = internal_id L t, tx_account = account_id, tx_plaid = Some (ptx_id t),
               tx_posted = ptx_date t, tx_amount = ptx_cents t, tx_description = null_if_empty (ptx_name t),
               tx_category = null_if_empty (ptx_category t), tx_created = now\<rparr>
      in if \<not> done then (failed, d)
         else if tx_id r \<in> set (map tx_id (transactions d))
         then (Inr (), d\<lparr>transactions := upd_by tx_id (tx_id r) (overwrite t) (transactions d)\<rparr>)
         else case insert_transaction r d of None \<Rightarrow> (failed, d) | Some d' \<Rightarrow> (Inr (), d'))"

definition update_transaction :: "plaid_transaction \<Rightarrow> db \<Rightarrow> db" where
  "update_transaction t d =
     d\<lparr>transactions := upd_by tx_plaid (Some (ptx_id t)) (overwrite t) (transactions d)\<rparr>"

definition delete_transaction :: "string \<Rightarrow> db \<Rightarrow> db" where
  "delete_transaction plaid_tx_id d =
     d\<lparr>transactions := del_by tx_plaid (Some plaid_tx_id) (transactions d)\<rparr>"

section \<open>One account\<close>

text \<open>The loop over the added transactions: a failed insertion is logged and skipped.\<close>

fun add_transactions ::
  "third_party \<Rightarrow> env \<Rightarrow> (nat \<Rightarrow> bool) \<Rightarrow> nat \<Rightarrow> string \<Rightarrow> plaid_transaction list \<Rightarrow> int \<times> db \<Rightarrow> int \<times> db" where
  "add_transactions L E done i account_id [] acc = acc"
| "add_transactions L E done i account_id (t # ts) (added_count, d) =
     (case upsert_transaction L (clock E i) (done i) account_id t d of
        (Inl what, d') \<Rightarrow> add_transactions L E done (i + 1) account_id ts (added_count, d')
      | (Inr _, d') \<Rightarrow> add_transactions L E done (i + 1) account_id ts (added_count + 1, d'))"

definition set_balance :: "bool \<Rightarrow> string \<Rightarrow> int \<Rightarrow> db \<Rightarrow> int \<times> db" where
  "set_balance done account_id cents d =
     (if done then (cents, d\<lparr>accounts := upd_by acc_id account_id (\<lambda>r. r\<lparr>acc_balance := cents\<rparr>) (accounts d)\<rparr>)
      else (0, d))"

definition advance_cursor :: "int \<Rightarrow> string \<Rightarrow> string \<Rightarrow> db \<Rightarrow> db" where
  "advance_cursor now account_id cursor d =
     (if cursor \<noteq> [] then store_cursor now account_id cursor d else d)"

definition first_balance :: "bool \<Rightarrow> string \<Rightarrow> plaid_balance list \<Rightarrow> db \<Rightarrow> int \<times> db" where
  "first_balance done account_id balances d =
     (case balances of [] \<Rightarrow> (0, d) | b # _ \<Rightarrow> set_balance done account_id (pab_cents b) d)"

definition apply_reply ::
  "third_party \<Rightarrow> env \<Rightarrow> plaid_world \<Rightarrow> string \<Rightarrow> transaction_list \<Rightarrow> db \<Rightarrow> (string + unit) \<times> db" where
  "apply_reply L E W account_id rep d =
     (let (added_count, d1) = add_transactions L E (pw_insert_ok W) 0 account_id (tl_added rep) (0, d);
          d2 = fold update_transaction (tl_modified rep) d1;
          d3 = fold delete_transaction (tl_removed rep) d2;
          d4 = advance_cursor (clock E (length (tl_added rep))) account_id (tl_cursor rep) d3;
          (balance, d5) = first_balance (pw_update_ok W) account_id (tl_accounts rep) d4
      in emit_sync_audit L E 0 account_id ''plaid_sync_completed'' ''success''
           (JObj [(''added'', JInt added_count), (''balance_cents'', JInt balance),
                  (''modified'', JInt (int (length (tl_modified rep)))),
                  (''removed'', JInt (int (length (tl_removed rep))))]) d5)"

definition sync_with_token ::
  "third_party \<Rightarrow> env \<Rightarrow> plaid_world \<Rightarrow> string \<Rightarrow> string \<Rightarrow> db \<Rightarrow> (string + unit) \<times> db" where
  "sync_with_token L E W account_id token d =
     (case sync_transactions L (pw_parse W) (pw_client W) token (get_cursor account_id d) of
        Inl what \<Rightarrow> (Inl what, d)
      | Inr None \<Rightarrow>
          emit_sync_audit L E 0 account_id ''plaid_sync_failed'' ''failure''
            (JObj [(''reason'', JStr ''api_error'')]) d
      | Inr (Some rep) \<Rightarrow> apply_reply L E W account_id rep d)"

definition sync_account ::
  "third_party \<Rightarrow> env \<Rightarrow> plaid_world \<Rightarrow> string \<Rightarrow> db \<Rightarrow> (string + unit) \<times> db" where
  "sync_account L E W account_id d =
     (case sel_by acc_id account_id (accounts d) of
        None \<Rightarrow> (Inl (''PlaidSyncScheduler::sync_account: account not found: '' @ account_id), d)
      | Some r \<Rightarrow>
          if to_i32 (acc_linked r) = 0
          then (Inl (''PlaidSyncScheduler::sync_account: account not linked: '' @ account_id), d)
          else with_decrypted_token (pw_crypto W) (pw_dek W) account_id
                 (sync_with_token L E W account_id)
                 (emit_sync_audit L E 0 account_id ''plaid_sync_failed'' ''failure''
                    (JObj [(''reason'', JStr ''token_missing'')])) d)"

section \<open>All accounts\<close>

text \<open>An exception of one account is recorded and the next account goes on.\<close>

fun sync_each ::
  "third_party \<Rightarrow> (nat \<Rightarrow> env) \<Rightarrow> (nat \<Rightarrow> plaid_world) \<Rightarrow> nat \<Rightarrow> string list \<Rightarrow> db \<Rightarrow> db" where
  "sync_each L E W i [] d = d"
| "sync_each L E W i (account_id # ids) d =
     (case sync_account L (E i) (W i) account_id d of
        (Inr _, d') \<Rightarrow> sync_each L E W (i + 1) ids d'
      | (Inl what, d') \<Rightarrow>
          sync_each L E W (i + 1) ids
            (snd (emit_sync_audit L (E i) 1 account_id ''plaid_sync_failed'' ''failure''
               (JObj [(''message'', JStr what), (''reason'', JStr ''exception'')]) d')))"

definition linked_accounts :: "db \<Rightarrow> string list" where
  "linked_accounts d = map (\<lambda>r. c_str (acc_id r)) (filter (\<lambda>r. acc_linked r = 1) (accounts d))"

definition sync_all_accounts ::
  "third_party \<Rightarrow> (nat \<Rightarrow> env) \<Rightarrow> (nat \<Rightarrow> plaid_world) \<Rightarrow> db \<Rightarrow> db" where
  "sync_all_accounts L E W d = sync_each L E W 0 (linked_accounts d) d"

section \<open>The route\<close>

definition handle_sync_account ::
  "third_party \<Rightarrow> env \<Rightarrow> plaid_world \<Rightarrow> request \<Rightarrow> db \<Rightarrow> db outcome" where
  "handle_sync_account L E W =
     entity_guard L E user_has_access_to_entity (lookup_scope ''id'' get_account_entity_id)
     (\<lambda>req uid entity_id d.
        let account_id = path_param req ''id'' in
        case sel_by acc_id account_id (accounts d) of
          None \<Rightarrow> (Inr (err 404 ''not_found''), d)
        | Some r \<Rightarrow>
            if to_i32 (acc_linked r) = 0 then (Inr (err 400 ''not_linked''), d)
            else (case sync_account L E W account_id d of
                    (Inr _, d') \<Rightarrow> (Inr (Resp 200 (JObj [(''success'', JBool True)])), d')
                  | (Inl what, d') \<Rightarrow> (Inr (err_msg 500 ''sync_failed'' what), d')))"

definition handle_sync_unavailable :: "request \<Rightarrow> db \<Rightarrow> db outcome" where
  "handle_sync_unavailable req d = (Inr (err_msg 503 ''sync_unavailable'' ''Plaid sync not available''), d)"

section \<open>What a sync leaves alone\<close>

text \<open>The step of a sync: integrity is kept, the log grows, and only accounts' balances, transactions and
  cursors change besides.\<close>

definition sync_step :: "db \<Rightarrow> db \<Rightarrow> bool" where
  "sync_step d d' \<longleftrightarrow> (store_ok d \<longrightarrow> store_ok d') \<and> prefix (audit_log d) (audit_log d') \<and>
     users d' = users d \<and> entities d' = entities d \<and> memberships d' = memberships d \<and>
     categories d' = categories d \<and> budgets d' = budgets d \<and> sessions d' = sessions d \<and>
     enrollments d' = enrollments d \<and> map acc_id (accounts d') = map acc_id (accounts d) \<and>
     map acc_entity (accounts d') = map acc_entity (accounts d)"

lemma sync_step_refl [simp, intro!]: "sync_step d d"
  by (simp add: sync_step_def)

lemma sync_step_trans: "sync_step d d' \<Longrightarrow> sync_step d' d'' \<Longrightarrow> sync_step d d''"
  unfolding sync_step_def by (metis prefix_order.trans)

lemma extends_log_step: "extends_log d d' \<Longrightarrow> sync_step d d'"
  by (auto simp: extends_log_def sync_step_def store_ok_def db_ok_defs)

lemma emit_step [simp]: "sync_step d (snd (emit_sync_audit L E i a b c j d))"
  unfolding emit_sync_audit_def by (rule extends_log_step [OF record_event_log])

lemma overwrite_keys [simp]:
  "tx_id (overwrite t r) = tx_id r" "tx_account (overwrite t r) = tx_account r"
  "tx_plaid (overwrite t r) = tx_plaid r" "tx_created (overwrite t r) = tx_created r"
  by (simp_all add: overwrite_def)

lemma upsert_step: "sync_step d (snd (upsert_transaction L now done a t d))"
proof -
  have "sync_step d d'" if "insert_transaction r d = Some d'" for r d'
    using that insert_transaction_ok [OF _ that]
    by (auto simp: sync_step_def store_ok_def insert_transaction_Some)
  moreover have "sync_step d (d\<lparr>transactions := upd_by tx_id k (overwrite t) (transactions d)\<rparr>)" for k
    by (simp add: sync_step_def store_ok_def integrity_simps)
  ultimately show ?thesis by (auto simp: upsert_transaction_def Let_def split: option.splits)
qed

lemma add_transactions_step: "sync_step d (snd (add_transactions L E done i a ts (n, d)))"
proof (induction ts arbitrary: i n d)
  case (Cons t ts)
  show ?case
    using upsert_step [of d L "clock E i" "done i" a t] Cons
    by (cases "upsert_transaction L (clock E i) (done i) a t d")
       (auto split: sum.splits intro: sync_step_trans)
qed simp

lemma update_step: "sync_step d (update_transaction t d)"
  by (simp add: sync_step_def store_ok_def integrity_simps update_transaction_def)

lemma delete_step: "sync_step d (delete_transaction k d)"
  by (simp add: sync_step_def store_ok_def integrity_simps delete_transaction_def)

lemma fold_step: "(\<And>x d. sync_step d (f x d)) \<Longrightarrow> sync_step d (fold f xs d)"
  by (induction xs arbitrary: d) (auto intro: sync_step_trans)

lemma store_cursor_step: "sync_step d (store_cursor now a cur d)"
proof -
  have "unique_by syn_account t' \<Longrightarrow> sync_step d (d\<lparr>sync_state := t'\<rparr>)" if "unique_by syn_account (sync_state d)" for t'
    by (auto simp: sync_step_def store_ok_def db_ok_defs)
  moreover have "\<not> unique_by syn_account (sync_state d) \<Longrightarrow> sync_step d (d\<lparr>sync_state := t'\<rparr>)" for t'
    by (auto simp: sync_step_def store_ok_def db_ok_defs)
  ultimately show ?thesis
    using sync_tbl.invar_insert [of "sync_state d"]
      sync_tbl.invar_update [of "sync_state d" "\<lambda>r. r\<lparr>syn_cursor := cur, syn_last := now\<rparr>" a]
    by (cases "unique_by syn_account (sync_state d)") (auto simp: store_cursor_def split: option.splits)
qed

lemma set_balance_step: "sync_step d (snd (set_balance done a cents d))"
  by (simp add: set_balance_def sync_step_def store_ok_def integrity_simps map_upd_by)

lemma first_balance_step: "sync_step d (snd (first_balance done a bs d))"
  by (simp add: first_balance_def set_balance_step split: list.splits)

lemma apply_reply_step: "sync_step d (snd (apply_reply L E W a rep d))"
proof -
  obtain n d1 where d1: "add_transactions L E (pw_insert_ok W) 0 a (tl_added rep) (0, d) = (n, d1)" by fastforce
  define d3 where "d3 = fold delete_transaction (tl_removed rep) (fold update_transaction (tl_modified rep) d1)"
  define d4 where "d4 = advance_cursor (clock E (length (tl_added rep))) a (tl_cursor rep) d3"
  obtain b d5 where d5: "first_balance (pw_update_ok W) a (tl_accounts rep) d4 = (b, d5)" by fastforce
  have "sync_step d d1" using add_transactions_step [of d L E "pw_insert_ok W" 0 a "tl_added rep" 0] d1 by simp
  moreover have "sync_step d1 d3" unfolding d3_def by (blast intro: sync_step_trans fold_step update_step delete_step)
  moreover have "sync_step d3 d4" by (simp add: d4_def advance_cursor_def store_cursor_step)
  moreover have "sync_step d4 d5"
    using d5 first_balance_step [of d4 "pw_update_ok W" a "tl_accounts rep"] by simp
  ultimately have "sync_step d d5" by (blast intro: sync_step_trans)
  then have "sync_step d (snd (emit_sync_audit L E 0 a x y j d5))" for x y j
    by (rule sync_step_trans) simp
  then show ?thesis by (simp add: apply_reply_def d1 d3_def [symmetric] d4_def [symmetric] d5 Let_def)
qed

lemma sync_account_step: "sync_step d (snd (sync_account L E W a d))"
proof -
  have "sync_step d (snd (sync_with_token L E W a tok d))" for tok
    by (simp add: sync_with_token_def apply_reply_step split: sum.splits option.splits)
  then show ?thesis
    by (simp add: sync_account_def with_decrypted_token_def decrypt_and_invoke_def
        split: option.splits sum.splits)
qed

lemma sync_each_step: "sync_step d (sync_each L E W i ids d)"
proof (induction ids arbitrary: i d)
  case (Cons a ids)
  obtain r d' where r: "sync_account L (E i) (W i) a d = (r, d')" by fastforce
  then have "sync_step d d'" using sync_account_step [of d L "E i" "W i" a] by simp
  moreover have "sync_step d' (sync_each L E W (i + 1) ids d')" by (rule Cons)
  moreover have "sync_step d' (sync_each L E W (i + 1) ids (snd (emit_sync_audit L (E i) 1 a x y j d')))" for x y j
    by (rule sync_step_trans [OF emit_step Cons])
  ultimately show ?case by (auto simp: r split: sum.splits intro: sync_step_trans)
qed simp

lemma sync_all_step: "sync_step d (sync_all_accounts L E W d)"
  unfolding sync_all_accounts_def by (rule sync_each_step)

section \<open>Syncing a page twice\<close>

text \<open>The table after the statements, when SQLite completes them.\<close>

definition upsert_rows ::
  "third_party \<Rightarrow> int \<Rightarrow> string \<Rightarrow> plaid_transaction \<Rightarrow> tx_row list \<Rightarrow> tx_row list" where
  "upsert_rows L now account_id t T =
     (if internal_id L t \<in> tx_id ` set T then upd_by tx_id (internal_id L t) (overwrite t) T
      else T @ [\<lparr>tx_id = internal_id L t, tx_account = account_id, tx_plaid = Some (ptx_id t),
                 tx_posted = ptx_date t, tx_amount = ptx_cents t, tx_description = null_if_empty (ptx_name t),
                 tx_category = null_if_empty (ptx_category t), tx_created = now\<rparr>])"

fun add_rows :: "third_party \<Rightarrow> env \<Rightarrow> nat \<Rightarrow> string \<Rightarrow> plaid_transaction list \<Rightarrow> tx_row list \<Rightarrow> tx_row list" where
  "add_rows L E i account_id [] T = T"
| "add_rows L E i account_id (t # ts) T =
     add_rows L E (i + 1) account_id ts (upsert_rows L (clock E i) account_id t T)"

lemma upsert_done:
  assumes "a \<in> acc_id ` set (accounts d)"
  shows "upsert_transaction L now True a t d = (Inr (), d\<lparr>transactions := upsert_rows L now a t (transactions d)\<rparr>)"
  using assms
  by (auto simp: upsert_transaction_def upsert_rows_def Let_def insert_transaction_Some split: option.splits)
     (auto simp: insert_transaction_def ins_by_def split: if_splits)

lemma add_transactions_done:
  assumes "a \<in> acc_id ` set (accounts d)"
  shows "add_transactions L E (\<lambda>_. True) i a ts (n, d) =
    (n + int (length ts), d\<lparr>transactions := add_rows L E i a ts (transactions d)\<rparr>)"
  using assms by (induction ts arbitrary: i n d) (simp_all add: upsert_done)

text \<open>What the page does to one row.\<close>

fun row_after :: "third_party \<Rightarrow> plaid_transaction list \<Rightarrow> tx_row \<Rightarrow> tx_row" where
  "row_after L [] r = r"
| "row_after L (t # ts) r = row_after L ts (if tx_id r = internal_id L t then overwrite t r else r)"

lemma row_after_id [simp]: "tx_id (row_after L ts r) = tx_id r"
  by (induction ts arbitrary: r) auto

lemma row_after_other: "tx_id r \<notin> internal_id L ` set ts \<Longrightarrow> row_after L ts r = r"
  by (induction ts) auto

lemma overwrite_overwrite: "overwrite t (overwrite s r) = overwrite t r"
  by (simp add: overwrite_def)

lemma row_after_overwrites:
  "tx_id r \<in> internal_id L ` set ts \<Longrightarrow> row_after L ts (overwrite s r) = row_after L ts r"
proof (induction ts arbitrary: r s)
  case (Cons t ts)
  show ?case
  proof (cases "tx_id r \<in> internal_id L ` set ts")
    case True
    with Cons.IH [of r s] Cons.IH [of "overwrite s r" t] Cons.IH [of r t] show ?thesis by simp
  next
    case False
    with Cons.prems show ?thesis by (auto simp: overwrite_overwrite)
  qed
qed simp

lemma ids_upsert_rows: "tx_id ` set (upsert_rows L now a t T) = insert (internal_id L t) (tx_id ` set T)"
proof -
  have "tx_id ` set (upd_by tx_id k (overwrite t) T) = tx_id ` set T" for k
    by (simp only: set_map [symmetric] map_upd_by overwrite_keys)
  then show ?thesis by (auto simp: upsert_rows_def)
qed

lemma ids_add_rows: "tx_id ` set (add_rows L E i a ts T) = internal_id L ` set ts \<union> tx_id ` set T"
  by (induction ts arbitrary: i T) (auto simp: ids_upsert_rows)

lemma upsert_rows_row:
  assumes "r \<in> set (upsert_rows L now a t T)" "tx_id r = internal_id L t" shows "overwrite t r = r"
proof (cases "internal_id L t \<in> tx_id ` set T")
  case True
  then have "r \<in> set (upd_by tx_id (internal_id L t) (overwrite t) T)"
    using assms(1) by (simp add: upsert_rows_def)
  then have "r \<in> (\<lambda>q. if tx_id q = internal_id L t then overwrite t q else q) ` set T"
    by (simp only: upd_by_def set_map)
  then show ?thesis using assms(2) by (auto simp: overwrite_overwrite)
next
  case False
  then have "r \<notin> set T" using assms(2) by (metis imageI)
  then show ?thesis using assms False by (auto simp: upsert_rows_def overwrite_def)
qed

lemma upsert_rows_other:
  "r \<in> set (upsert_rows L now a t T) \<Longrightarrow> tx_id r \<noteq> internal_id L t \<Longrightarrow> r \<in> set T"
  by (auto simp: upsert_rows_def upd_by_def split: if_splits)

lemma add_rows_other:
  "r \<in> set (add_rows L E i a ts T) \<Longrightarrow> tx_id r \<notin> internal_id L ` set ts \<Longrightarrow> r \<in> set T"
  by (induction ts arbitrary: i T) (auto dest: upsert_rows_other)

lemma add_rows_settled: "r \<in> set (add_rows L E i a ts T) \<Longrightarrow> row_after L ts r = r"
proof (induction ts arbitrary: i T)
  case (Cons t ts)
  let ?T = "upsert_rows L (clock E i) a t T"
  have r: "r \<in> set (add_rows L E (i + 1) a ts ?T)" using Cons.prems by simp
  then have settled: "row_after L ts r = r" by (rule Cons.IH)
  show ?case
  proof (cases "tx_id r = internal_id L t \<and> tx_id r \<notin> internal_id L ` set ts")
    case True
    then have "overwrite t r = r" using add_rows_other [OF r] upsert_rows_row by blast
    with settled show ?thesis by simp
  next
    case False
    with settled show ?thesis by (auto simp: row_after_overwrites)
  qed
qed simp

lemma add_rows_present:
  "internal_id L ` set ts \<subseteq> tx_id ` set T \<Longrightarrow> add_rows L E i a ts T = map (row_after L ts) T"
proof (induction ts arbitrary: i T)
  case (Cons t ts)
  then have t: "upsert_rows L (clock E i) a t T = upd_by tx_id (internal_id L t) (overwrite t) T"
    by (simp add: upsert_rows_def)
  then have "tx_id ` set (upd_by tx_id (internal_id L t) (overwrite t) T) = insert (internal_id L t) (tx_id ` set T)"
    using ids_upsert_rows [of L "clock E i" a t T] by simp
  then have "internal_id L ` set ts \<subseteq> tx_id ` set (upd_by tx_id (internal_id L t) (overwrite t) T)"
    using Cons.prems by auto
  from Cons.IH [OF this] show ?case by (simp add: t) (simp add: upd_by_def)
qed (simp add: map_idI)

lemma add_rows_twice: "add_rows L E' j a' ts (add_rows L E i a ts T) = add_rows L E i a ts T"
proof -
  have "add_rows L E' j a' ts (add_rows L E i a ts T) = map (row_after L ts) (add_rows L E i a ts T)"
    by (rule add_rows_present) (simp add: ids_add_rows)
  also have "\<dots> = add_rows L E i a ts T" by (rule map_idI) (rule add_rows_settled)
  finally show ?thesis .
qed

section \<open>The audit record of an account\<close>

lemma upsert_log [simp]: "audit_log (snd (upsert_transaction L now done a t d)) = audit_log d"
  by (auto simp: upsert_transaction_def Let_def insert_transaction_Some split: option.splits)

lemma add_transactions_log [simp]:
  "audit_log (snd (add_transactions L E done i a ts (n, d))) = audit_log d"
proof (induction ts arbitrary: i n d)
  case (Cons t ts)
  then show ?case
    using upsert_log [of L "clock E i" "done i" a t d]
    by (cases "upsert_transaction L (clock E i) (done i) a t d") (auto split: sum.splits)
qed simp

lemma fold_log: "(\<And>x d. audit_log (f x d) = audit_log d) \<Longrightarrow> audit_log (fold f xs d) = audit_log d"
  by (induction xs arbitrary: d) auto

lemma statements_log [simp]:
  "audit_log (fold update_transaction ts d) = audit_log d"
  "audit_log (fold delete_transaction ks d) = audit_log d"
  "audit_log (advance_cursor now a cur d) = audit_log d"
  "audit_log (snd (first_balance done a bs d)) = audit_log d"
  by (simp_all add: fold_log update_transaction_def delete_transaction_def advance_cursor_def
      store_cursor_def first_balance_def set_balance_def split: option.splits list.splits)

text \<open>The record of a rejected payload fits the log.\<close>

definition rejection_fits :: "third_party \<Rightarrow> bool" where
  "rejection_fits L \<longleftrightarrow>
     length (dump L (JObj [(''kind'', JStr ''sanitizer_rejected_payload'')])) \<le> MAX_TOTAL_BYTES"

text \<open>What the work on one account adds to the log: at most one record, of that account by the worker, and one
  for certain under a condition.\<close>

definition records :: "bool \<Rightarrow> string \<Rightarrow> audit_row list \<Rightarrow> bool" where
  "records sure a rows \<longleftrightarrow> length rows \<le> 1 \<and> (sure \<longrightarrow> length rows = 1) \<and>
     list_all (\<lambda>r. aud_subject r = bind_text a \<and> aud_actor_kind r = ''sync_worker'') rows"

definition logged :: "bool \<Rightarrow> string \<Rightarrow> db \<Rightarrow> db \<Rightarrow> bool" where
  "logged sure a d d' \<longleftrightarrow> (\<exists>rows. audit_log d' = audit_log d @ rows \<and> records sure a rows)"

lemma emit_logged:
  "case emit_sync_audit L E i a action outcome details d of
     (Inl what, d') \<Rightarrow> d' = d \<and> \<not> append_ok E i
   | (Inr _, d') \<Rightarrow> logged (append_ok E i \<and> rejection_fits L) a d d'"
proof (cases "emit_sync_audit L E i a action outcome details d")
  case (Pair res d')
  show ?thesis
  proof (cases res)
    case (Inl what)
    then show ?thesis using Pair record_event_error unfolding emit_sync_audit_def by fastforce
  next
    case (Inr u)
    then show ?thesis using Pair
      by (auto simp: emit_sync_audit_def record_event_cases append_locked_eq rejection_of_def rejection_fits_def
          logged_def records_def row_of_event_def split: if_splits)
  qed
qed

lemma logged_cong: "logged c a d1 d' \<Longrightarrow> audit_log d1 = audit_log d \<Longrightarrow> logged c a d d'"
  by (simp add: logged_def)

lemma apply_reply_logged:
  "case apply_reply L E W a rep d of
     (Inl what, d') \<Rightarrow> audit_log d' = audit_log d
   | (Inr _, d') \<Rightarrow> logged (append_ok E 0 \<and> rejection_fits L) a d d'"
proof -
  obtain n d1 where d1: "add_transactions L E (pw_insert_ok W) 0 a (tl_added rep) (0, d) = (n, d1)" by fastforce
  define d4 where "d4 = advance_cursor (clock E (length (tl_added rep))) a (tl_cursor rep)
    (fold delete_transaction (tl_removed rep) (fold update_transaction (tl_modified rep) d1))"
  obtain b d5 where d5: "first_balance (pw_update_ok W) a (tl_accounts rep) d4 = (b, d5)" by fastforce
  have "audit_log d1 = audit_log d" using add_transactions_log [of L E "pw_insert_ok W" 0 a "tl_added rep" 0 d] d1 by simp
  moreover have "audit_log d5 = audit_log d4"
    using statements_log(4) [of "pw_update_ok W" a "tl_accounts rep" d4] by (simp only: d5 snd_conv)
  moreover have "audit_log d4 = audit_log d1" by (simp add: d4_def)
  ultimately have same: "audit_log d5 = audit_log d" by simp
  obtain action outcome details where "apply_reply L E W a rep d = emit_sync_audit L E 0 a action outcome details d5"
    by (simp add: apply_reply_def d1 d4_def [symmetric] d5 Let_def)
  then show ?thesis
    using emit_logged [where L = L and E = E and i = 0 and a = a and action = action and outcome = outcome
      and details = details and d = d5] same logged_cong [OF _ same]
    by (auto split: prod.splits sum.splits)
qed

lemma sync_account_logged:
  "case sync_account L E W a d of
     (Inl what, d') \<Rightarrow> audit_log d' = audit_log d
   | (Inr _, d') \<Rightarrow> logged (append_ok E 0 \<and> rejection_fits L) a d d'"
proof -
  have e: "case emit_sync_audit L E 0 a x y j d of (Inl what, d') \<Rightarrow> audit_log d' = audit_log d
    | (Inr _, d') \<Rightarrow> logged (append_ok E 0 \<and> rejection_fits L) a d d'" for x y j
    using emit_logged [where L = L and E = E and i = 0 and a = a and action = x and outcome = y
      and details = j and d = d] by (auto split: prod.splits sum.splits)
  have "case sync_with_token L E W a tok d of (Inl what, d') \<Rightarrow> audit_log d' = audit_log d
    | (Inr _, d') \<Rightarrow> logged (append_ok E 0 \<and> rejection_fits L) a d d'" for tok
    using e apply_reply_logged [where L = L and E = E and W = W and a = a and d = d]
    by (cases "sync_transactions L (pw_parse W) (pw_client W) tok (get_cursor a d)")
      (auto simp: sync_with_token_def split: option.splits)
  then show ?thesis
    using e by (auto simp: sync_account_def with_decrypted_token_def decrypt_and_invoke_def
        split: option.splits sum.splits)
qed

text \<open>One account of a pass, its failure included.\<close>

lemma sync_step_logged:
  "\<exists>d1. sync_each L E W i (a # ids) d = sync_each L E W (i + 1) ids d1 \<and>
     logged (append_ok (E i) 0 \<and> append_ok (E i) 1 \<and> rejection_fits L) a d d1"
proof -
  obtain res d' where r: "sync_account L (E i) (W i) a d = (res, d')" by fastforce
  note one = sync_account_logged [where L = L and E = "E i" and W = "W i" and a = a and d = d, unfolded r prod.case]
  show ?thesis
  proof (cases res)
    case (Inl what)
    then have same: "audit_log d' = audit_log d" using one by simp
    let ?j = "JObj [(''message'', JStr what), (''reason'', JStr ''exception'')]"
    obtain res1 d1 where e: "emit_sync_audit L (E i) 1 a ''plaid_sync_failed'' ''failure'' ?j d' = (res1, d1)" by fastforce
    note two = emit_logged [where L = L and E = "E i" and i = 1 and a = a and action = "''plaid_sync_failed''"
      and outcome = "''failure''" and details = ?j and d = d', unfolded e prod.case]
    have "logged (append_ok (E i) 0 \<and> append_ok (E i) 1 \<and> rejection_fits L) a d' d1"
      using two by (cases res1) (auto simp: logged_def records_def)
    then have "logged (append_ok (E i) 0 \<and> append_ok (E i) 1 \<and> rejection_fits L) a d d1" using same by (rule logged_cong)
    moreover have "sync_each L E W i (a # ids) d = sync_each L E W (i + 1) ids d1" using r Inl e by simp
    ultimately show ?thesis by blast
  next
    case (Inr u)
    then have "logged (append_ok (E i) 0 \<and> append_ok (E i) 1 \<and> rejection_fits L) a d d'"
      using one by (auto simp: logged_def records_def)
    moreover have "sync_each L E W i (a # ids) d = sync_each L E W (i + 1) ids d'" using r Inr by simp
    ultimately show ?thesis by blast
  qed
qed

lemma sync_each_logged:
  "\<exists>rss. audit_log (sync_each L E W i ids d) = audit_log d @ concat rss \<and>
     list_all2 (\<lambda>(k, a). records (append_ok (E k) 0 \<and> append_ok (E k) 1 \<and> rejection_fits L) a)
       (enumerate i ids) rss"
proof (induction ids arbitrary: i d)
  case Nil
  show ?case by (rule exI [of _ "[]"]) simp
next
  case (Cons a ids)
  obtain d1 where d1: "sync_each L E W i (a # ids) d = sync_each L E W (i + 1) ids d1"
    "logged (append_ok (E i) 0 \<and> append_ok (E i) 1 \<and> rejection_fits L) a d d1"
    using sync_step_logged by blast
  then obtain rows where rows: "audit_log d1 = audit_log d @ rows"
    "records (append_ok (E i) 0 \<and> append_ok (E i) 1 \<and> rejection_fits L) a rows" by (auto simp: logged_def)
  obtain rss where "audit_log (sync_each L E W (i + 1) ids d1) = audit_log d1 @ concat rss"
    "list_all2 (\<lambda>(k, a). records (append_ok (E k) 0 \<and> append_ok (E k) 1 \<and> rejection_fits L) a)
       (enumerate (Suc i) ids) rss" using Cons [of "i + 1" d1] by auto
  with rows d1(1) show ?case by (intro exI [of _ "rows # rss"]) simp
qed

section \<open>The cursor\<close>

lemma store_cursor_get:
  assumes "cur \<noteq> []" "nul_free cur" shows "get_cursor a (store_cursor now a cur d) = Some cur"
proof (cases "ins_by syn_account \<lparr>syn_account = a, syn_cursor = cur, syn_last = now\<rparr> (sync_state d)")
  case None
  then have "sel_by syn_account a (sync_state d) \<noteq> None"
    using sync_tbl.insert_fails [of "\<lparr>syn_account = a, syn_cursor = cur, syn_last = now\<rparr>" "sync_state d"] by simp
  then show ?thesis using None assms by (auto simp: store_cursor_def get_cursor_def sel_by_upd_by Let_def)
next
  case (Some t)
  then show ?thesis
    using sync_tbl.lookup_insert [OF Some, of a] assms by (simp add: store_cursor_def get_cursor_def Let_def)
qed

lemma get_cursor_cong: "sync_state d' = sync_state d \<Longrightarrow> get_cursor a d' = get_cursor a d"
  by (simp add: get_cursor_def)

lemma first_balance_frame [simp]:
  "sync_state (snd (first_balance done a bs d)) = sync_state d"
  "transactions (snd (first_balance done a bs d)) = transactions d"
  by (simp_all add: first_balance_def set_balance_def split: list.splits)

lemma extends_log_frame:
  "extends_log d d' \<Longrightarrow> sync_state d' = sync_state d" "extends_log d d' \<Longrightarrow> transactions d' = transactions d"
  by (auto simp: extends_log_def)

lemma emit_frame [simp]:
  "sync_state (snd (emit_sync_audit L E i a x y j d)) = sync_state d"
  "transactions (snd (emit_sync_audit L E i a x y j d)) = transactions d"
  unfolding emit_sync_audit_def by (rule extends_log_frame [OF record_event_log])+

lemma advance_cursor_frame [simp]: "transactions (advance_cursor now a cur d) = transactions d"
  by (simp add: advance_cursor_def store_cursor_def split: option.splits)

text \<open>Without a completed insertion no transaction is added.\<close>

lemma add_transactions_failed:
  "add_transactions L E (\<lambda>_. False) i a ts (n, d) = (n, d)"
  by (induction ts arbitrary: i) (simp_all add: upsert_transaction_def)

lemma ids_update: "tx_id ` set (transactions (fold update_transaction ts d)) = tx_id ` set (transactions d)"
proof (induction ts arbitrary: d)
  case (Cons t ts)
  have "tx_id ` set (upd_by tx_plaid k (overwrite t) T) = tx_id ` set T" for k T
    by (simp only: set_map [symmetric] map_upd_by overwrite_keys)
  with Cons show ?case by (simp add: update_transaction_def)
qed simp

lemma ids_delete: "tx_id ` set (transactions (fold delete_transaction ks d)) \<subseteq> tx_id ` set (transactions d)"
proof (induction ks arbitrary: d)
  case (Cons k ks)
  have "tx_id ` set (transactions (delete_transaction k d)) \<subseteq> tx_id ` set (transactions d)"
    by (auto simp: delete_transaction_def)
  with Cons [of "delete_transaction k d"] show ?case by simp
qed simp

lemma apply_reply_failed:
  assumes "pw_insert_ok W = (\<lambda>_. False)" "tl_cursor rep \<noteq> []" "nul_free (tl_cursor rep)"
  shows "get_cursor a (snd (apply_reply L E W a rep d)) = Some (tl_cursor rep)"
    and "tx_id ` set (transactions (snd (apply_reply L E W a rep d))) \<subseteq> tx_id ` set (transactions d)"
proof -
  define d3 where "d3 = fold delete_transaction (tl_removed rep) (fold update_transaction (tl_modified rep) d)"
  define d4 where "d4 = advance_cursor (clock E (length (tl_added rep))) a (tl_cursor rep) d3"
  obtain b d5 where d5: "first_balance (pw_update_ok W) a (tl_accounts rep) d4 = (b, d5)" by fastforce
  have eq: "apply_reply L E W a rep d = emit_sync_audit L E 0 a ''plaid_sync_completed'' ''success''
     (JObj [(''added'', JInt 0), (''balance_cents'', JInt b),
        (''modified'', JInt (int (length (tl_modified rep)))),
        (''removed'', JInt (int (length (tl_removed rep))))]) d5"
    by (simp add: apply_reply_def assms(1) add_transactions_failed d3_def [symmetric] d4_def [symmetric] d5)
  have f: "sync_state d5 = sync_state d4" "transactions d5 = transactions d4"
    using first_balance_frame [of "pw_update_ok W" a "tl_accounts rep" d4] by (simp_all only: d5 snd_conv)
  have "get_cursor a d5 = get_cursor a d4" by (rule get_cursor_cong) (rule f)
  then have "get_cursor a d5 = Some (tl_cursor rep)"
    using assms(2,3) by (simp add: d4_def advance_cursor_def store_cursor_get)
  then show "get_cursor a (snd (apply_reply L E W a rep d)) = Some (tl_cursor rep)"
    unfolding eq by (simp add: get_cursor_def)
  show "tx_id ` set (transactions (snd (apply_reply L E W a rep d))) \<subseteq> tx_id ` set (transactions d)"
    unfolding eq using ids_delete [of "tl_removed rep" "fold update_transaction (tl_modified rep) d"]
    by (simp add: f d4_def d3_def ids_update)
qed

section \<open>The worker\<close>

text \<open>
  The thread of the scheduler.  Its only input is the stop flag, read once before every second of
  sleep and before every pass: \<open>stop n\<close> is the \<open>n\<close>-th reading.  A run is the list of what the
  worker does; \<open>None\<close> is a run that has not returned within the fuel, which counts readings.
\<close>

datatype worker_event = Sleep | Sync_pass

text \<open>The constructor: a positive number in the environment overrides the interval.\<close>

definition sync_interval :: "string option \<Rightarrow> int \<Rightarrow> int" where
  "sync_interval env_interval default_seconds =
     (case env_interval of
        None \<Rightarrow> default_seconds
      | Some s \<Rightarrow>
          if s = [] then default_seconds
          else (case stoll s of
                  None \<Rightarrow> default_seconds
                | Some v \<Rightarrow> if 0 < v then v else default_seconds))"

text \<open>\<open>left\<close> seconds of the interval remain; then the passes begin.\<close>

fun worker_wait :: "nat \<Rightarrow> (nat \<Rightarrow> bool) \<Rightarrow> nat \<Rightarrow> nat \<Rightarrow> nat \<Rightarrow> worker_event list option" where
  "worker_wait 0 stop n interval left = None"
| "worker_wait (Suc fuel) stop n interval left =
     (if left = 0
      then if stop n then Some []
           else map_option ((#) Sync_pass) (worker_wait fuel stop (n + 1) interval interval)
      else if stop n then Some []
           else map_option ((#) Sleep) (worker_wait fuel stop (n + 1) interval (left - 1)))"

definition worker_thread :: "nat \<Rightarrow> (nat \<Rightarrow> bool) \<Rightarrow> int \<Rightarrow> worker_event list option" where
  "worker_thread fuel stop interval = worker_wait fuel stop 0 (nat interval) (nat interval)"

text \<open>What the worker does in \<open>k\<close> readings that are all false.\<close>

fun schedule :: "nat \<Rightarrow> nat \<Rightarrow> nat \<Rightarrow> worker_event list" where
  "schedule 0 interval left = []"
| "schedule (Suc k) interval left =
     (if left = 0 then Sync_pass # schedule k interval interval else Sleep # schedule k interval (left - 1))"

lemma worker_wait_schedule:
  assumes "\<And>i. i < k \<Longrightarrow> \<not> stop (n + i)" "stop (n + k)" "k < fuel"
  shows "worker_wait fuel stop n interval left = Some (schedule k interval left)"
  using assms
proof (induction k arbitrary: fuel n left)
  case 0
  then obtain f where "fuel = Suc f" by (cases fuel) auto
  with 0 show ?case by simp
next
  case (Suc k)
  then obtain f where f: "fuel = Suc f" by (cases fuel) auto
  have "worker_wait f stop (n + 1) interval l = Some (schedule k interval l)" for l
  proof (rule Suc.IH)
    fix i assume "i < k"
    then show "\<not> stop (n + 1 + i)" using Suc.prems(1) [of "Suc i"] by simp
  qed (use Suc.prems f in simp_all)
  moreover have "\<not> stop n" using Suc.prems(1) [of 0] by simp
  ultimately show ?case by (simp add: f)
qed

lemma concat_replicate_Suc: "concat (replicate (Suc k) p) = concat (replicate k p) @ p"
  by (induction k) simp_all

lemma schedule_periodic: "schedule k interval left = take k (replicate left Sleep @ concat (replicate k (Sync_pass # replicate interval Sleep)))"
proof (induction k arbitrary: left)
  case IH: (Suc k)
  let ?p = "Sync_pass # replicate interval Sleep"
  have more: "take k (xs @ concat (replicate (Suc k) ?p)) = take k (xs @ concat (replicate k ?p))" for xs
  proof -
    have "k \<le> length (xs @ concat (replicate k ?p))" by (simp add: length_concat sum_list_replicate)
    moreover have "concat (replicate (Suc k) ?p) = concat (replicate k ?p) @ ?p"
      by (rule concat_replicate_Suc)
    ultimately show ?thesis by (simp only: append_assoc [symmetric] take_append) simp
  qed
  show ?case
  proof (cases left)
    case 0
    then show ?thesis using IH [of interval] by simp
  next
    case (Suc l)
    then show ?thesis using IH [of l] more [of "replicate l Sleep"] by simp
  qed
qed simp

text \<open>\<open>start\<close> and \<open>stop\<close>: the thread that is started is the one that is joined.\<close>

record scheduler =
  sch_started :: bool
  sch_stop_flag :: bool
  sch_running :: bool

definition start_worker :: "scheduler \<Rightarrow> scheduler" where
  "start_worker s =
     (if sch_started s then s else s\<lparr>sch_stop_flag := False, sch_started := True, sch_running := True\<rparr>)"

definition stop_worker :: "scheduler \<Rightarrow> scheduler" where
  "stop_worker s =
     (if \<not> sch_started s then s else s\<lparr>sch_stop_flag := True, sch_running := False, sch_started := False\<rparr>)"

end
