(* ===== verification/Plaid_Link.thy ===== *)
theory Plaid_Link
  imports Plaid_Sync
begin

text \<open>
  Linking an account to a bank (\<open>server/data/PlaidLinkHandler.cpp\<close>): the link tokens that are pending,
  which let the browser, without a session, finish what the user began, and the routes that begin
  and finish a link.

  The page the browser shows (\<open>handle_link_page\<close>) is in \<open>Link_Page\<close>.

  The lemmas show who may link an account, that a link token is good for one link of its own
  account, and that the access token of the bank ends up encrypted in that account's row.
\<close>

section \<open>Pending links\<close>

definition link_hash :: "third_party \<Rightarrow> string \<Rightarrow> byte list" where
  "link_hash L link_token = generichash L (bytes_of link_token)"

text \<open>\<open>INSERT OR REPLACE\<close>: a row with the same key goes first.\<close>

definition insert_pending_link ::
  "third_party \<Rightarrow> int \<Rightarrow> string \<Rightarrow> string \<Rightarrow> string \<Rightarrow> int \<Rightarrow> db \<Rightarrow> db" where
  "insert_pending_link L now link_token account_id user ttl_seconds d =
     d\<lparr>pending_links := del_by lnk_hash (link_hash L link_token) (pending_links d) @
        [\<lparr>lnk_hash = link_hash L link_token, lnk_account = account_id, lnk_user = user,
          lnk_expires = now + ttl_seconds\<rparr>]\<rparr>"

definition resolve_pending_link ::
  "third_party \<Rightarrow> int \<Rightarrow> string \<Rightarrow> string \<Rightarrow> db \<Rightarrow> string option \<times> db" where
  "resolve_pending_link L now link_token account_id d =
     (let d' = d\<lparr>pending_links := filter (\<lambda>r. \<not> lnk_expires r < now) (pending_links d)\<rparr>
      in (case sel_by lnk_hash (link_hash L link_token) (pending_links d') of
            None \<Rightarrow> None
          | Some r \<Rightarrow>
              if lnk_expires r < now then None
              else if c_str (lnk_account r) \<noteq> account_id then None
              else Some (c_str (lnk_user r)), d'))"

definition consume_pending_link :: "third_party \<Rightarrow> string \<Rightarrow> db \<Rightarrow> db" where
  "consume_pending_link L link_token d =
     d\<lparr>pending_links := del_by lnk_hash (link_hash L link_token) (pending_links d)\<rparr>"

section \<open>Beginning a link\<close>

definition handle_link_init ::
  "third_party \<Rightarrow> env \<Rightarrow> plaid_world \<Rightarrow> request \<Rightarrow> db \<Rightarrow> db outcome" where
  "handle_link_init L E W =
     entity_guard L E user_has_access_to_entity (lookup_scope ''id'' get_account_entity_id)
     (\<lambda>req uid entity_id d.
        case link_token_create L (pw_parse W) (pw_client W) entity_id of
          Inl what \<Rightarrow> (Inl what, d)
        | Inr None \<Rightarrow> (Inr (err 500 ''plaid_link_token_failed''), d)
        | Inr (Some link_token) \<Rightarrow>
            (Inr (Resp 200 (JObj [(''link_token'', JStr link_token)])),
             insert_pending_link L (clock E 1) link_token (path_param req ''id'') uid (4 * 3600) d))"

section \<open>Finishing it\<close>

text \<open>Who the request comes from, and whether its link token says so.\<close>

definition link_principal ::
  "third_party \<Rightarrow> env \<Rightarrow> request \<Rightarrow> json \<Rightarrow> db \<Rightarrow> (string option \<times> bool) \<times> db" where
  "link_principal L E req j d =
     (let account_id = path_param req ''id'';
          (who, d1) = (case opt_string j ''link_token'' of
             None \<Rightarrow> (None, d)
           | Some link_token \<Rightarrow> resolve_pending_link L (clock E 1) link_token account_id d)
      in case who of
           Some uid \<Rightarrow> ((Some uid, True), d1)
         | None \<Rightarrow> (case require_session L E req d1 of (s, d2) \<Rightarrow> ((s, False), d2)))"

definition set_linked :: "string \<Rightarrow> string \<Rightarrow> db \<Rightarrow> db" where
  "set_linked account_id institution_name d =
     (if institution_name \<noteq> []
      then d\<lparr>accounts := upd_by acc_id account_id
               (\<lambda>r. r\<lparr>acc_linked := 1, acc_institution := institution_name\<rparr>) (accounts d)\<rparr>
      else d\<lparr>accounts := upd_by acc_id account_id (\<lambda>r. r\<lparr>acc_linked := 1\<rparr>) (accounts d)\<rparr>)"

definition finish_link ::
  "third_party \<Rightarrow> plaid_world \<Rightarrow> string \<Rightarrow> json \<Rightarrow> string \<Rightarrow> bool \<Rightarrow> db \<Rightarrow> db outcome" where
  "finish_link L W account_id j public_token used_link_token d =
     (case item_public_token_exchange L (pw_parse W) (pw_client W) public_token of
        Inl what \<Rightarrow> (Inl what, d)
      | Inr None \<Rightarrow> (Inr (err 500 ''plaid_token_exchange_failed''), d)
      | Inr (Some access_token) \<Rightarrow>
          (case store_token (pw_crypto W) (pw_dek W) (pw_nonce W) (pw_update_ok W) account_id access_token d of
             (Inl what, d1) \<Rightarrow> (Inl what, d1)
           | (Inr _, d1) \<Rightarrow>
               let institution_name = (case opt_string j ''institution_name'' of None \<Rightarrow> [] | Some n \<Rightarrow> n);
                   d2 = set_linked account_id institution_name d1;
                   link_token = (case opt_string j ''link_token'' of None \<Rightarrow> [] | Some t \<Rightarrow> t)
               in (Inr (Resp 200 (JObj [(''success'', JBool True)])),
                   if used_link_token \<and> link_token \<noteq> [] then consume_pending_link L link_token d2 else d2)))"

definition handle_link_plaid ::
  "third_party \<Rightarrow> env \<Rightarrow> plaid_world \<Rightarrow> request \<Rightarrow> db \<Rightarrow> db outcome" where
  "handle_link_plaid L E W req d =
     (let account_id = path_param req ''id'' in
      case body req of
        None \<Rightarrow> (Inr (err 400 ''invalid_json''), d)
      | Some j \<Rightarrow>
          (case at_string j ''public_token'' of
             None \<Rightarrow> (Inr (err 400 ''missing_public_token''), d)
           | Some public_token \<Rightarrow>
               (case link_principal L E req j d of
                  ((None, _), d1) \<Rightarrow> (Inr (err 401 ''unauthorized''), d1)
                | ((Some uid, used_link_token), d1) \<Rightarrow>
                    let entity_id = get_account_entity_id d1 account_id in
                    if entity_id = [] then (Inr (err 404 ''not_found''), d1)
                    else if \<not> user_has_access_to_entity d1 uid entity_id
                    then (Inr (err 403 ''forbidden''), d1)
                    else finish_link L W account_id j public_token used_link_token d1)))"

section \<open>Steps of the linking routes\<close>

text \<open>
  What every route of this part does to the rest of the server: integrity is kept, the log grows,
  and users, enrollment tokens and, but for the authentication, sessions stay.
\<close>

definition plaid_step :: "third_party \<Rightarrow> db \<Rightarrow> db \<Rightarrow> bool" where
  "plaid_step L d d' \<longleftrightarrow> (store_ok d \<longrightarrow> store_ok d') \<and> prefix (audit_log d) (audit_log d') \<and>
     users d' = users d \<and> enrollments d' = enrollments d \<and>
     (sessions d' = sessions d \<or> (\<exists>E req. sessions d' = sessions (snd (require_session L E req d))))"

lemma plaid_step_refl [simp, intro!]: "plaid_step L d d"
  by (simp add: plaid_step_def)

lemma sync_plaid_step: "sync_step d d' \<Longrightarrow> plaid_step L d d'"
  by (simp add: plaid_step_def sync_step_def)

lemma require_plaid_step: "plaid_step L d (snd (require_session L E req d))"
  using data_of_cong [OF require_data [of L E req d]] require_store_ok [of d L E req]
  by (auto simp: plaid_step_def)

lemma plaid_sync_trans: "plaid_step L d d' \<Longrightarrow> sync_step d' d'' \<Longrightarrow> plaid_step L d d''"
  by (auto simp: plaid_step_def sync_step_def intro: prefix_order.trans)

lemma sync_plaid_trans:
  assumes "sync_step d d'" "plaid_step L d' d''" "\<And>E req. sessions (snd (require_session L E req d')) = sessions (snd (require_session L E req d))"
  shows "plaid_step L d d''"
  using assms by (auto simp: plaid_step_def sync_step_def intro: prefix_order.trans)

lemma guard_plaid_step:
  assumes "\<And>req uid e d. sync_step d (snd (act req uid e d))"
  shows "plaid_step L d (snd (entity_guard L E allowed scope act req d))"
  using require_plaid_step [of L d E req] assms
  by (auto simp: entity_guard_def split: prod.splits option.splits intro: plaid_sync_trans)

lemma sync_route_step: "plaid_step L d (snd (handle_sync_account L E W req d))"
  unfolding handle_sync_account_def
proof (rule guard_plaid_step)
  fix req :: request and uid e d
  show "sync_step d (snd (let account_id = path_param req ''id'' in
        case sel_by acc_id account_id (accounts d) of
          None \<Rightarrow> (Inr (err 404 ''not_found''), d)
        | Some r \<Rightarrow>
            if to_i32 (acc_linked r) = 0 then (Inr (err 400 ''not_linked''), d)
            else (case sync_account L E W account_id d of
                    (Inr _, d') \<Rightarrow> (Inr (Resp 200 (JObj [(''success'', JBool True)])), d')
                  | (Inl what, d') \<Rightarrow> (Inr (err_msg 500 ''sync_failed'' what), d'))))"
    using sync_account_step [of d L E W "path_param req ''id''"]
    by (cases "sync_account L E W (path_param req ''id'') d") (auto simp: Let_def split: option.splits sum.splits)
qed

lemma unique_replace: "unique_by key t \<Longrightarrow> unique_by key (del_by key (key r) t @ [r])"
  by (auto simp: unique_by_snoc)

lemma insert_pending_step: "sync_step d (insert_pending_link L now tok a u ttl d)"
proof -
  have "unique_by lnk_hash (pending_links d) \<Longrightarrow> unique_by lnk_hash (pending_links (insert_pending_link L now tok a u ttl d))"
    using unique_replace [of lnk_hash "pending_links d" "\<lparr>lnk_hash = link_hash L tok, lnk_account = a,
      lnk_user = u, lnk_expires = now + ttl\<rparr>"]
    by (simp add: insert_pending_link_def)
  then show ?thesis
    by (auto simp: sync_step_def store_ok_def db_ok_defs insert_pending_link_def)
qed

lemma link_init_step: "plaid_step L d (snd (handle_link_init L E W req d))"
  unfolding handle_link_init_def
  by (rule guard_plaid_step) (simp add: insert_pending_step split: sum.splits option.splits)

lemma resolve_step: "sync_step d (snd (resolve_pending_link L now tok a d))"
  by (auto simp: resolve_pending_link_def Let_def sync_step_def store_ok_def db_ok_defs unique_by_def
      distinct_map_filter)

lemma resolve_sessions: "sessions (snd (resolve_pending_link L now tok a d)) = sessions d"
  by (simp add: resolve_pending_link_def Let_def)

lemma consume_step: "sync_step d (consume_pending_link L tok d)"
  by (auto simp: consume_pending_link_def sync_step_def store_ok_def db_ok_defs)

lemma set_linked_step: "sync_step d (set_linked a n d)"
  by (simp add: set_linked_def sync_step_def store_ok_def integrity_simps map_upd_by)

lemma store_token_step: "sync_step d (snd (store_token C dek nonce done a tok d))"
  by (auto simp: store_token_def sync_step_def store_ok_def integrity_simps map_upd_by split: sum.splits)

lemma finish_step: "sync_step d (snd (finish_link L W a j pt used d))"
proof -
  have "sync_step d (if used \<and> t \<noteq> [] then consume_pending_link L t (set_linked a n d1) else set_linked a n d1)"
    if "sync_step d d1" for d1 n t
    using sync_step_trans [OF that set_linked_step]
      sync_step_trans [OF sync_step_trans [OF that set_linked_step] consume_step] by simp
  moreover have "sync_step d (set_linked a n d1)" if "sync_step d d1" for d1 n
    using that set_linked_step by (rule sync_step_trans)
  moreover have "sync_step d d1" if "store_token C dek nonce ok a tok d = (x, d1)" for C dek nonce ok tok x d1
    using store_token_step [of d C dek nonce ok a tok] that by simp
  ultimately show ?thesis
    by (auto simp: finish_link_def Let_def split: sum.splits option.splits prod.splits)
qed

lemma principal_step: "plaid_step L d (snd (link_principal L E req j d))"
proof -
  define a where "a = path_param req ''id''"
  have s: "sessions (snd (require_session L E' req' (snd (resolve_pending_link L now tok a d)))) =
      sessions (snd (require_session L E' req' d))" for E' req' now tok
    by (auto simp: resolve_pending_link_def Let_def require_session_def validate_and_touch_session_def
        split: option.splits)
  have "plaid_step L d (snd (require_session L E req (snd (resolve_pending_link L now tok a d))))" for now tok
    using resolve_step require_plaid_step s by (rule sync_plaid_trans)
  moreover have "plaid_step L d (snd (resolve_pending_link L now tok a d))" for now tok
    using resolve_step by (rule sync_plaid_step)
  ultimately show ?thesis
    using require_plaid_step [of L d E req]
    by (cases "opt_string j ''link_token''")
       (auto simp: link_principal_def Let_def a_def [symmetric] split: option.splits prod.splits; metis snd_conv)+
qed

lemma link_plaid_step: "plaid_step L d (snd (handle_link_plaid L E W req d))"
proof -
  have "plaid_step L d d1" if "link_principal L E req j d = (x, d1)" for x j d1
    using principal_step [of L d E req j] that by simp
  then show ?thesis
    by (auto simp: handle_link_plaid_def Let_def split: option.splits prod.splits
        intro: plaid_sync_trans [OF _ finish_step])
qed

section \<open>What finishing a link takes\<close>

text \<open>A pending link that lets \<open>uid\<close> finish the link of an account at time \<open>now\<close>.\<close>

definition link_authorizes :: "third_party \<Rightarrow> int \<Rightarrow> string \<Rightarrow> string \<Rightarrow> string \<Rightarrow> db \<Rightarrow> bool" where
  "link_authorizes L now link_token account_id uid d \<longleftrightarrow>
     list_ex (\<lambda>r. lnk_hash r = link_hash L link_token \<and> c_str (lnk_account r) = account_id \<and>
                  c_str (lnk_user r) = uid \<and> now \<le> lnk_expires r) (pending_links d)"

lemma resolve_authorizes:
  assumes "fst (resolve_pending_link L now tok a d) = Some uid"
  shows "link_authorizes L now tok a uid d"
proof -
  let ?t = "filter (\<lambda>r. \<not> lnk_expires r < now) (pending_links d)"
  obtain r where r: "sel_by lnk_hash (link_hash L tok) ?t = Some r" "\<not> lnk_expires r < now"
    "c_str (lnk_account r) = a" "uid = c_str (lnk_user r)"
    using assms by (auto simp: resolve_pending_link_def Let_def split: option.splits if_splits)
  with sel_by_Some [OF r(1)] show ?thesis by (auto simp: link_authorizes_def list_ex_iff)
qed

lemma resolve_frame:
  "accounts (snd (resolve_pending_link L now tok a d)) = accounts d"
  "memberships (snd (resolve_pending_link L now tok a d)) = memberships d"
  by (simp_all add: resolve_pending_link_def Let_def)

lemma require_sessions_only:
  "fst (require_session L E req (d\<lparr>pending_links := t\<rparr>)) = fst (require_session L E req d)"
  by (auto simp: require_session_def validate_and_touch_session_def Let_def split: option.splits)

lemma require_resolved:
  "fst (require_session L E req (snd (resolve_pending_link L now tok a d))) = fst (require_session L E req d)"
  by (simp add: resolve_pending_link_def Let_def require_sessions_only)

text \<open>The user a request comes from, and the data it leaves alone on the way.\<close>

lemma link_principal_Some:
  assumes "link_principal L E req j d = ((Some uid, used), d1)"
  shows "accounts d1 = accounts d \<and> memberships d1 = memberships d \<and>
    (if used
     then \<exists>tok. opt_string j ''link_token'' = Some tok \<and> link_authorizes L (clock E 1) tok (path_param req ''id'') uid d
     else fst (require_session L E req d) = Some uid)"
proof -
  have req: "accounts (snd (require_session L E req x)) = accounts x"
    "memberships (snd (require_session L E req x)) = memberships x" for x
    using data_of_cong [OF require_data [of L E req x]] by simp_all
  show ?thesis
  proof (cases "opt_string j ''link_token''")
    case None
    then show ?thesis
      using assms req [of d] by (auto simp: link_principal_def Let_def split: prod.splits option.splits)
  next
    case (Some tok)
    let ?x = "resolve_pending_link L (clock E 1) tok (path_param req ''id'') d"
    show ?thesis
    proof (cases "fst ?x")
      case None
      then have "link_principal L E req j d =
          ((fst (require_session L E req (snd ?x)), False), snd (require_session L E req (snd ?x)))"
        using Some by (simp add: link_principal_def Let_def split_def)
      then have "d1 = snd (require_session L E req (snd ?x))" "\<not> used"
        "fst (require_session L E req (snd ?x)) = Some uid" using assms by simp_all
      then show ?thesis using req [of "snd ?x"] resolve_frame require_resolved by simp
    next
      case u: (Some u)
      then have "link_principal L E req j d = ((Some u, True), snd ?x)"
        using Some by (simp add: link_principal_def Let_def split_def)
      then have "d1 = snd ?x" "used" "u = uid" using assms by simp_all
      with u Some show ?thesis using resolve_authorizes resolve_frame by auto
    qed
  qed
qed

text \<open>A request that gets past the guard.\<close>

lemma handle_link_plaidE:
  obtains (refused) "accounts (snd (handle_link_plaid L E W req d)) = accounts d"
      "\<And>c. fst (handle_link_plaid L E W req d) \<noteq> Inr (Resp 200 c)"
  | (passed) j public_token uid used d1 where "body req = Some j" "at_string j ''public_token'' = Some public_token"
      "link_principal L E req j d = ((Some uid, used), d1)"
      "get_account_entity_id d1 (path_param req ''id'') \<noteq> []"
      "user_has_access_to_entity d1 uid (get_account_entity_id d1 (path_param req ''id''))"
      "handle_link_plaid L E W req d = finish_link L W (path_param req ''id'') j public_token used d1"
proof -
  have same: "accounts d1 = accounts d" if "link_principal L E req j d = ((who, used), d1)" for j who used d1
  proof -
    have "accounts (snd (require_session L E req x)) = accounts x" for x
      using data_of_cong [OF require_data [of L E req x]] by simp
    with that show ?thesis
      by (cases "opt_string j ''link_token''")
         (auto simp: link_principal_def Let_def resolve_frame split: option.splits prod.splits,
          (metis resolve_frame(1) snd_conv)+)
  qed
  show ?thesis
  proof (cases "body req")
    case None
    then show ?thesis using refused by (simp add: handle_link_plaid_def Let_def)
  next
    case (Some j)
    note b = Some
    show ?thesis
    proof (cases "at_string j ''public_token''")
      case None
      then show ?thesis using refused b by (simp add: handle_link_plaid_def Let_def)
    next
      case (Some pt)
      obtain who used d1 where p: "link_principal L E req j d = ((who, used), d1)" by (metis prod.collapse)
      note s = same [OF p]
      show ?thesis
      proof (cases who)
        case None
        then show ?thesis using refused b Some p s by (simp add: handle_link_plaid_def Let_def)
      next
        case u: (Some uid)
        let ?e = "get_account_entity_id d1 (path_param req ''id'')"
        show ?thesis
        proof (cases "?e \<noteq> [] \<and> user_has_access_to_entity d1 uid ?e")
          case True
          then show ?thesis
            using passed [OF b Some p [unfolded u]] b Some p u by (simp add: handle_link_plaid_def Let_def)
        next
          case False
          then show ?thesis using refused b Some p s u by (auto simp: handle_link_plaid_def Let_def)
        qed
      qed
    qed
  qed
qed

lemma finish_200:
  assumes "fst (finish_link L W a j pt used d) = Inr (Resp 200 c)"
  obtains tok d1 where "item_public_token_exchange L (pw_parse W) (pw_client W) pt = Inr (Some tok)"
    "store_token (pw_crypto W) (pw_dek W) (pw_nonce W) (pw_update_ok W) a tok d = (Inr (), d1)"
    "accounts (snd (finish_link L W a j pt used d)) =
       accounts (set_linked a (case opt_string j ''institution_name'' of None \<Rightarrow> [] | Some n \<Rightarrow> n) d1)"
    "used \<Longrightarrow> opt_string j ''link_token'' = Some t \<Longrightarrow> t \<noteq> [] \<Longrightarrow>
       list_all (\<lambda>r. lnk_hash r \<noteq> link_hash L t) (pending_links (snd (finish_link L W a j pt used d)))"
proof -
  obtain tok where tok: "item_public_token_exchange L (pw_parse W) (pw_client W) pt = Inr (Some tok)"
    using assms by (auto simp: finish_link_def split: sum.splits option.splits)
  obtain x d1 where s: "store_token (pw_crypto W) (pw_dek W) (pw_nonce W) (pw_update_ok W) a tok d = (x, d1)"
    by fastforce
  then have x: "x = Inr ()" using assms tok by (cases x) (simp_all add: finish_link_def)
  let ?n = "case opt_string j ''institution_name'' of None \<Rightarrow> [] | Some n \<Rightarrow> n"
  let ?l = "case opt_string j ''link_token'' of None \<Rightarrow> [] | Some t \<Rightarrow> t"
  have eq: "snd (finish_link L W a j pt used d) =
      (if used \<and> ?l \<noteq> [] then consume_pending_link L ?l (set_linked a ?n d1) else set_linked a ?n d1)"
    by (simp only: finish_link_def tok s x sum.case option.case prod.case Let_def snd_conv)
  have "accounts (consume_pending_link L l y) = accounts y" for l y by (simp add: consume_pending_link_def)
  then have "accounts (snd (finish_link L W a j pt used d)) = accounts (set_linked a ?n d1)"
    unfolding eq by simp
  moreover have "used \<Longrightarrow> opt_string j ''link_token'' = Some t \<Longrightarrow> t \<noteq> [] \<Longrightarrow>
      list_all (\<lambda>r. lnk_hash r \<noteq> link_hash L t) (pending_links (snd (finish_link L W a j pt used d)))"
    unfolding eq by (simp add: consume_pending_link_def list_all_iff)
  ultimately show ?thesis using that tok s x by blast
qed

lemma resolve_absent:
  "list_all (\<lambda>r. lnk_hash r \<noteq> link_hash L t) (pending_links d) \<Longrightarrow> fst (resolve_pending_link L now t a d) = None"
proof -
  assume "list_all (\<lambda>r. lnk_hash r \<noteq> link_hash L t) (pending_links d)"
  then have "sel_by lnk_hash (link_hash L t) (filter (\<lambda>r. \<not> lnk_expires r < now) (pending_links d)) = None"
    by (auto simp: sel_by_None list_all_iff)
  then show ?thesis by (simp add: resolve_pending_link_def Let_def)
qed

lemma linked_token:
  assumes "store_token C dek nonce ok a tok d = (Inr (), d1)" "aead_spec C" "length dek = 32" "length nonce = 24"
    and "sel_by acc_id a (accounts d) = Some r" "accounts d2 = accounts (set_linked a n d1)"
  shows "with_decrypted_token C dek a on_token on_no_token d2 = on_token tok d2"
proof -
  obtain blob where blob: "encrypt C nonce (bytes_of tok) (bytes_of a) dek = Inr blob"
    "d1 = d\<lparr>accounts := upd_by acc_id a (\<lambda>r. r\<lparr>acc_token := Some blob, acc_linked := 1\<rparr>) (accounts d)\<rparr>"
    using assms(1) by (rule store_token_result)
  have "blob \<noteq> []" using blob(1) by (auto simp: encrypt_def split: if_splits option.splits)
  then have "fetch_encrypted_blob a d2 = Some blob"
    using assms(5) by (simp add: fetch_encrypted_blob_def assms(6) set_linked_def blob(2) sel_by_upd_by)
  then show ?thesis
    using decrypt_encrypt [OF assms(2-4) blob(1)] by (simp add: with_decrypted_token_def decrypt_and_invoke_def)
qed

text \<open>The empty link token is never consumed: the row it is pending under survives the link.\<close>

lemma empty_link_token_stays:
  assumes "opt_string j ''link_token'' = Some []"
  shows "pending_links (snd (finish_link L W a j pt used d)) = pending_links d"
proof -
  have "pending_links (set_linked a n x) = pending_links x" for n x by (simp add: set_linked_def)
  moreover have "pending_links (snd (store_token C dek nonce ok a tok x)) = pending_links x" for C dek nonce ok tok x
    by (simp add: store_token_def split: sum.splits)
  ultimately show ?thesis
    using assms by (auto simp: finish_link_def Let_def split: sum.splits option.splits prod.splits) (metis snd_conv)+
qed

end
