(* ===== verification/Server_Model.thy ===== *)
theory Server_Model
  imports Auth_Handlers Entities_Handler Accounts_Handler Transactions_Handler Categories_Handler
    Budgets_Handler V3_Objects Plaid_Link
begin

text \<open>
  The server as a state machine: the routing tables of the \<open>register_*_handlers\<close> functions and of
  \<open>server/main.cpp\<close>, the exception boundary around every route, and the admin command that issues
  enrollment tokens, and the worker that syncs bank accounts.  A step is one request (any route, any
  request, any surroundings, any answers of the bank), one issued token or one pass of the worker;
  they run one after the other.  That is a limit of this model, not a property of the program: the
  handlers run in a thread pool and, with the worker, on one connection that no lock guards
  (\<open>Shared_Connection\<close> shows what that can do).

  The lemmas are the invariants of the reachable states and what survives any number of steps.
\<close>

section \<open>Routing tables\<close>

datatype http_method = GET | POST | PUT | DELETE

type_synonym 's registration = "http_method \<times> string \<times> (request \<Rightarrow> 's \<Rightarrow> 's outcome)"

definition register_entities_handlers :: "third_party \<Rightarrow> env \<Rightarrow> db registration list" where
  "register_entities_handlers L E =
     [(GET, ''/entities'', handle_get_entities L E), (GET, ''/entities/:id'', handle_get_entity L E),
      (POST, ''/entities'', handle_create_entity L E), (PUT, ''/entities/:id'', handle_update_entity L E),
      (DELETE, ''/entities/:id'', handle_delete_entity L E)]"

definition register_accounts_handlers :: "third_party \<Rightarrow> env \<Rightarrow> db registration list" where
  "register_accounts_handlers L E =
     [(GET, ''/entities/:entity_id/accounts'', handle_list_accounts L E),
      (GET, ''/accounts/:id'', handle_get_account L E),
      (POST, ''/entities/:entity_id/accounts'', handle_create_account L E),
      (PUT, ''/accounts/:id'', handle_update_account L E),
      (DELETE, ''/accounts/:id'', handle_delete_account L E)]"

definition register_transactions_handlers :: "third_party \<Rightarrow> env \<Rightarrow> db registration list" where
  "register_transactions_handlers L E =
     [(GET, ''/accounts/:account_id/transactions'', handle_list_transactions L E),
      (GET, ''/transactions/:id'', handle_get_transaction L E),
      (POST, ''/accounts/:account_id/transactions'', handle_create_transaction L E),
      (PUT, ''/transactions/:id'', handle_update_transaction L E),
      (DELETE, ''/transactions/:id'', handle_delete_transaction L E)]"

definition register_categories_handlers :: "third_party \<Rightarrow> env \<Rightarrow> db registration list" where
  "register_categories_handlers L E =
     [(GET, ''/entities/:entity_id/categories'', handle_list_categories L E),
      (GET, ''/categories/:id'', handle_get_category L E),
      (POST, ''/entities/:entity_id/categories'', handle_create_category L E),
      (PUT, ''/categories/:id'', handle_update_category L E),
      (DELETE, ''/categories/:id'', handle_delete_category L E)]"

definition register_budgets_handlers :: "third_party \<Rightarrow> env \<Rightarrow> db registration list" where
  "register_budgets_handlers L E =
     [(GET, ''/entities/:entity_id/budgets'', handle_list_budgets L E),
      (GET, ''/budgets/:id'', handle_get_budget L E),
      (POST, ''/entities/:entity_id/budgets'', handle_create_budget L E),
      (PUT, ''/budgets/:id'', handle_update_budget L E),
      (DELETE, ''/budgets/:id'', handle_delete_budget L E)]"

definition register_v3_objects_handlers :: "third_party \<Rightarrow> env \<Rightarrow> db registration list" where
  "register_v3_objects_handlers L E =
     [(GET, ''/decisions'', handle_list_decisions L E), (GET, ''/decisions/:id'', handle_get_decision L E),
      (GET, ''/relationships'', handle_list_relationships L E),
      (GET, ''/relationships/:id'', handle_get_relationship L E),
      (GET, ''/targets'', handle_list_targets L E), (GET, ''/targets/:id'', handle_get_target L E)]"

definition data_routes :: "third_party \<Rightarrow> env \<Rightarrow> db registration list" where
  "data_routes L E = register_entities_handlers L E @ register_accounts_handlers L E @
     register_transactions_handlers L E @ register_categories_handlers L E @ register_budgets_handlers L E @
     register_v3_objects_handlers L E"

text \<open>
  The routes that need the bank.  Without a scheduler the sync route only answers 503; without a
  client and a broker the two linking routes are missing.
\<close>

definition register_plaid_routes :: "third_party \<Rightarrow> env \<Rightarrow> plaid_world option \<Rightarrow> db registration list" where
  "register_plaid_routes L E plaid =
     (case plaid of
        None \<Rightarrow> [(POST, ''/accounts/:id/sync'', handle_sync_unavailable)]
      | Some W \<Rightarrow>
          [(POST, ''/accounts/:id/sync'', handle_sync_account L E W),
           (POST, ''/accounts/:id/link/init'', handle_link_init L E W),
           (POST, ''/accounts/:id/link-plaid'', handle_link_plaid L E W)])"

text \<open>A handler that only has the database.\<close>

definition on_db :: "(request \<Rightarrow> db \<Rightarrow> db outcome) \<Rightarrow> request \<Rightarrow> server_state \<Rightarrow> server_state outcome" where
  "on_db h req s = (let (r, d) = h req (sv_db s) in (r, s\<lparr>sv_db := d\<rparr>))"

definition register_auth_handlers :: "third_party \<Rightarrow> env \<Rightarrow> server_state registration list" where
  "register_auth_handlers L E =
     [(POST, ''/auth/enroll'', on_db (handle_enroll L E)), (POST, ''/auth/login'', handle_login L E),
      (POST, ''/auth/logout'', on_db (handle_logout L E)), (GET, ''/auth/whoami'', on_db (handle_whoami L E))]"

definition server_routes :: "third_party \<Rightarrow> env \<Rightarrow> plaid_world option \<Rightarrow> server_state registration list" where
  "server_routes L E plaid = register_auth_handlers L E @
     map (\<lambda>(m, p, h). (m, p, on_db h)) (data_routes L E @ register_plaid_routes L E plaid)"

text \<open>\<open>--mint-enrollment-token\<close>: issue a token for an email address.\<close>

definition mint_enrollment_command :: "third_party \<Rightarrow> env \<Rightarrow> string \<Rightarrow> int \<Rightarrow> db \<Rightarrow> (string + string) \<times> db" where
  "mint_enrollment_command L E email ttl d =
     (let tok = mint_enrollment_token L E ttl in
      case persist_enrollment_token E tok email d of
        (Inl what, d') \<Rightarrow> (Inl what, d')
      | (Inr _, d') \<Rightarrow> (Inr (men_raw tok), d'))"

inductive server_step :: "third_party \<Rightarrow> server_state \<Rightarrow> server_state \<Rightarrow> bool" for L where
  request: "(m, p, h) \<in> set (server_routes L E plaid) \<Longrightarrow> server_step L s (snd (guarded (h req s)))"
| issue: "server_step L s (s\<lparr>sv_db := snd (mint_enrollment_command L E email ttl (sv_db s))\<rparr>)"
| sync_pass: "server_step L s (s\<lparr>sv_db := sync_all_accounts L Es Ws (sv_db s)\<rparr>)"

inductive_cases server_stepE: "server_step L s s'"

definition initial_state :: server_state where
  "initial_state = \<lparr>sv_db = empty_db, sv_rate = []\<rparr>"

section \<open>One step\<close>

lemma snd_on_db [simp]: "snd (on_db h req s) = s\<lparr>sv_db := snd (h req (sv_db s))\<rparr>"
  by (simp add: on_db_def split_def Let_def)

lemmas entities_contracts = list_entities.data_route_axioms get_entity.data_route_axioms
  create_entity_route update_entity.data_route_axioms delete_entity.data_route_axioms

lemmas accounts_contracts = list_accounts.data_route_axioms get_account.data_route_axioms
  create_account.data_route_axioms update_account.data_route_axioms delete_account.data_route_axioms

lemmas transactions_contracts = list_transactions.data_route_axioms get_transaction.data_route_axioms
  create_transaction.data_route_axioms update_transaction.data_route_axioms
  delete_transaction.data_route_axioms

lemmas categories_contracts = list_categories.data_route_axioms get_category.data_route_axioms
  create_category.data_route_axioms update_category.data_route_axioms delete_category.data_route_axioms

lemmas budgets_contracts = list_budgets.data_route_axioms get_budget.data_route_axioms
  create_budget.data_route_axioms update_budget.data_route_axioms delete_budget.data_route_axioms

lemmas v3_contracts = list_decisions.data_route_axioms get_decision.data_route_axioms
  list_relationships.data_route_axioms get_relationship.data_route_axioms
  list_targets.data_route_axioms get_target.data_route_axioms

lemma data_routes_contract:
  assumes "bin2hex_spec (bin2hex L)" and "(m, p, h) \<in> set (data_routes L E)"
  shows "data_route h (require_session L E)"
  using assms(2)
  by (auto simp: data_routes_def register_entities_handlers_def register_accounts_handlers_def
      register_transactions_handlers_def register_categories_handlers_def register_budgets_handlers_def register_v3_objects_handlers_def
      intro: entities_contracts(1,2,4,5) create_entity_route [OF assms(1)] accounts_contracts
        transactions_contracts categories_contracts budgets_contracts v3_contracts)

lemma plaid_routes_step:
  "(m, p, h) \<in> set (register_plaid_routes L E plaid) \<Longrightarrow> plaid_step L d (snd (h req d))"
  by (auto simp: register_plaid_routes_def handle_sync_unavailable_def sync_route_step link_init_step
      link_plaid_step split: option.splits)

lemma step_cases:
  assumes "server_step L s s'" and "bin2hex_spec (bin2hex L)"
  obtains (data) E h req where "data_route h (require_session L E)" "s' = s\<lparr>sv_db := snd (h req (sv_db s))\<rparr>"
  | (enroll) E req where "s' = s\<lparr>sv_db := snd (handle_enroll L E req (sv_db s))\<rparr>"
  | (login) E req where "s' = snd (handle_login L E req s)"
  | (logout) E req where "s' = s\<lparr>sv_db := snd (handle_logout L E req (sv_db s))\<rparr>"
  | (whoami) E req where "s' = s\<lparr>sv_db := snd (handle_whoami L E req (sv_db s))\<rparr>"
  | (issued) E email ttl where
      "s' = s\<lparr>sv_db := snd (persist_enrollment_token E (mint_enrollment_token L E ttl) email (sv_db s))\<rparr>"
  | (plaid) d where "plaid_step L (sv_db s) d" "s' = s\<lparr>sv_db := d\<rparr>"
  using assms(1)
proof (cases rule: server_step.cases)
  case (request m p h E bank req)
  from request(2) consider "(m, p, h) \<in> set (register_auth_handlers L E)"
    | g where "h = on_db g" "(m, p, g) \<in> set (data_routes L E)"
    | g where "h = on_db g" "(m, p, g) \<in> set (register_plaid_routes L E bank)"
    by (auto simp: server_routes_def)
  then show ?thesis
  proof cases
    case 1
    then show ?thesis
      using request(1) enroll login logout whoami by (auto simp: register_auth_handlers_def)
  next
    case 2
    then show ?thesis
      using request(1) data [OF data_routes_contract [OF assms(2) 2(2)], of req] by simp
  next
    case 3
    then show ?thesis
      using request(1) plaid [OF plaid_routes_step [OF 3(2), where d = "sv_db s" and req = req]] by simp
  qed
next
  case (sync_pass Es Ws)
  then show ?thesis using plaid [OF sync_plaid_step [OF sync_all_step]] by blast
next
  case (issue E email ttl)
  then show ?thesis
    by (intro issued [of E ttl email])
       (auto simp: mint_enrollment_command_def Let_def split: prod.splits sum.splits)
qed

lemma plaid_sessions:
  assumes "plaid_step L d d'"
  shows "sessions_wf d \<Longrightarrow> sessions_wf d'" "session_revoked k d \<Longrightarrow> session_revoked k d'"
    "token_spent h d \<Longrightarrow> token_spent h d'" "store_ok d \<Longrightarrow> store_ok d'" "prefix (audit_log d) (audit_log d')"
proof -
  from assms consider "sessions d' = sessions d"
    | E req where "sessions d' = sessions (snd (require_session L E req d))"
    by (auto simp: plaid_step_def)
  then have "(sessions_wf d \<longrightarrow> sessions_wf d') \<and> (session_revoked k d \<longrightarrow> session_revoked k d')"
  proof cases
    case 1
    then show ?thesis by (simp add: sessions_wf_def session_revoked_cong [OF 1])
  next
    case 2
    then show ?thesis
      using require_wf [of d L E req] revoked_require [of k d L E req] session_revoked_cong [OF 2]
      by (simp add: sessions_wf_def)
  qed
  then show "sessions_wf d \<Longrightarrow> sessions_wf d'" "session_revoked k d \<Longrightarrow> session_revoked k d'" by blast+
  show "token_spent h d \<Longrightarrow> token_spent h d'" "store_ok d \<Longrightarrow> store_ok d'" "prefix (audit_log d) (audit_log d')"
    using assms token_spent_cong [of d' d] by (simp_all add: plaid_step_def)
qed

section \<open>Invariants of the reachable states\<close>

definition server_ok :: "server_state \<Rightarrow> bool" where
  "server_ok s \<longleftrightarrow> store_ok (sv_db s) \<and> sessions_wf (sv_db s) \<and> buckets_ok (sv_rate s)"

lemma initial_ok: "server_ok initial_state"
  by (simp add: server_ok_def initial_state_def store_ok_def empty_db_ok sessions_wf_def buckets_ok_def)
     (simp add: empty_db_def)

lemma persist_frame:
  "entities (snd (persist_enrollment_token E tok email d)) = entities d"
  "memberships (snd (persist_enrollment_token E tok email d)) = memberships d"
  "accounts (snd (persist_enrollment_token E tok email d)) = accounts d"
  "transactions (snd (persist_enrollment_token E tok email d)) = transactions d"
  "categories (snd (persist_enrollment_token E tok email d)) = categories d"
  "budgets (snd (persist_enrollment_token E tok email d)) = budgets d"
  "sessions (snd (persist_enrollment_token E tok email d)) = sessions d"
  "audit_log (snd (persist_enrollment_token E tok email d)) = audit_log d"
  by (auto simp: persist_enrollment_token_def insert_enrollment_Some split: option.splits)

lemma persist_step: "auth_step d (snd (persist_enrollment_token E tok email d))"
  using persist_ok [of d E tok email]
  by (auto simp: auth_step_def store_ok_def persist_frame sessions_wf_def intro: entity_view_cong)

lemma sessions_wf_cong: "sessions d' = sessions d \<Longrightarrow> sessions_wf d' = sessions_wf d"
  by (simp add: sessions_wf_def)

lemma server_step_ok:
  assumes "bin2hex_spec (bin2hex L)" and "server_step L s s'" and "server_ok s"
  shows "server_ok s'"
proof -
  have auth: "server_ok (s\<lparr>sv_db := d\<rparr>)" if "auth_step (sv_db s) d" for d
    using that assms(3) by (simp add: server_ok_def auth_step_def)
  show ?thesis
  proof (rule step_cases [OF assms(2,1)])
    fix E h req
    assume r: "data_route h (require_session L E)" and s': "s' = s\<lparr>sv_db := snd (h req (sv_db s))\<rparr>"
    have "sessions_wf (snd (require_session L E req (sv_db s)))"
      using assms(3) by (intro require_wf) (simp add: server_ok_def)
    then have "sessions_wf (snd (h req (sv_db s)))"
      using sessions_wf_cong [OF data_route.same_sessions [OF r]] by simp
    then show ?thesis
      using assms(3) data_route.keeps_store [OF r] by (simp add: server_ok_def s')
  next
    fix E req assume "s' = snd (handle_login L E req s)"
    then show ?thesis
      using assms(3) login_step [of s L E req] login_buckets [of s L E req]
      by (simp add: server_ok_def auth_step_def)
  next
    fix d assume "plaid_step L (sv_db s) d" "s' = s\<lparr>sv_db := d\<rparr>"
    then show ?thesis using assms(3) plaid_sessions(1,4) by (auto simp: server_ok_def)
  qed (simp_all add: auth enroll_step logout_step whoami_step persist_step)
qed

lemma server_steps_ok:
  assumes "bin2hex_spec (bin2hex L)" and "(server_step L)\<^sup>*\<^sup>* s s'" and "server_ok s"
  shows "server_ok s'"
  using assms(2,3) by (induction rule: rtranclp_induct) (auto intro: server_step_ok [OF assms(1)])

lemma server_step_log:
  assumes "bin2hex_spec (bin2hex L)" and "server_step L s s'"
  shows "prefix (audit_log (sv_db s)) (audit_log (sv_db s'))"
proof -
  have auth: "prefix (audit_log d) (audit_log d')" if "auth_step d d'" for d d'
    using that by (simp add: auth_step_def)
  show ?thesis
    by (rule step_cases [OF assms(2,1)])
       (simp_all add: data_route.log_grows auth enroll_step logout_step whoami_step login_step persist_frame plaid_sessions(5))
qed

lemma server_steps_log:
  assumes "bin2hex_spec (bin2hex L)" and "(server_step L)\<^sup>*\<^sup>* s s'"
  shows "prefix (audit_log (sv_db s)) (audit_log (sv_db s'))"
  using assms(2)
  by (induction rule: rtranclp_induct) (auto intro: prefix_order.trans server_step_log [OF assms(1)])

lemma server_step_revoked:
  assumes "bin2hex_spec (bin2hex L)" and "server_step L s s'" and "session_revoked sid (sv_db s)"
  shows "session_revoked sid (sv_db s')"
proof (rule step_cases [OF assms(2,1)])
  fix E h req
  assume r: "data_route h (require_session L E)" and "s' = s\<lparr>sv_db := snd (h req (sv_db s))\<rparr>"
  then show ?thesis
    using revoked_require [OF assms(3)] session_revoked_cong [OF data_route.same_sessions [OF r]] by simp
qed (use assms(3) in \<open>simp_all add: revoked_enroll revoked_login revoked_logout revoked_whoami
       session_revoked_cong [OF persist_frame(7)] plaid_sessions(2)\<close>)

lemma server_steps_revoked:
  assumes "bin2hex_spec (bin2hex L)" and "(server_step L)\<^sup>*\<^sup>* s s'" and "session_revoked sid (sv_db s)"
  shows "session_revoked sid (sv_db s')"
  using assms(2,3) by (induction rule: rtranclp_induct) (auto intro: server_step_revoked [OF assms(1)])

lemma server_step_spent:
  assumes "bin2hex_spec (bin2hex L)" and "server_step L s s'" and "token_spent k (sv_db s)"
  shows "token_spent k (sv_db s')"
proof (rule step_cases [OF assms(2,1)])
  fix E h req
  assume r: "data_route h (require_session L E)" and "s' = s\<lparr>sv_db := snd (h req (sv_db s))\<rparr>"
  then show ?thesis
    using assms(3) token_spent_cong [OF data_route.same_enrollments [OF r]] by simp
qed (use assms(3) in \<open>simp_all add: spent_enroll token_spent_persist token_spent_cong [OF login_enrollments]
       token_spent_cong [OF logout_enrollments] token_spent_cong [OF whoami_enrollments] plaid_sessions(3)\<close>)

lemma server_steps_spent:
  assumes "bin2hex_spec (bin2hex L)" and "(server_step L)\<^sup>*\<^sup>* s s'" and "token_spent k (sv_db s)"
  shows "token_spent k (sv_db s')"
  using assms(2,3) by (induction rule: rtranclp_induct) (auto intro: server_step_spent [OF assms(1)])

end
