(* ===== verification/Reference_Instance.thy ===== *)
theory Reference_Instance
  imports Server_Model
begin

text \<open>
  An instance of the parameters that meets the documented behaviour of the libraries, on which
  the properties with hypotheses are shown to apply: a hash that pads or cuts to 32 bytes, a
  hex codec in place of base64, passphrases stored in the clear, an empty serialisation.  It
  stands for no real library; it only shows that the hypotheses can hold together.
\<close>

definition reference_libs :: third_party where
  "reference_libs =
     \<lparr>generichash = (\<lambda>x. take 32 (x @ replicate 32 0)),
      pwhash_str = (\<lambda>p. Some (take 128 (bytes_of p @ replicate 128 0))),
      pwhash_verify = (\<lambda>h p. h = take 128 (bytes_of p @ replicate 128 0)),
      bin2hex = bytes_to_hex, b64_encode = bytes_to_hex, b64_decode = (\<lambda>s. Some (hex_to_bytes s)),
      sodium_memcmp = (\<lambda>a b. if a = b then 0 else 1), dump = (\<lambda>_. ''{}'')\<rparr>"

text \<open>A request's surroundings at time \<open>t\<close>, with random bytes all equal to \<open>x\<close>.\<close>

definition surroundings :: "int \<Rightarrow> byte \<Rightarrow> env" where
  "surroundings t x =
     \<lparr>clock = (\<lambda>_. t), clock_ms = t * 1000, random_id = replicate 16 x, random_token = replicate 32 x,
      random_totp = replicate 20 x, append_ok = (\<lambda>_. True)\<rparr>"

definition plain_request :: request where
  "plain_request = \<lparr>authorization = None, path_param = (\<lambda>_. []), query = (\<lambda>_. None), body = None\<rparr>"

lemma reference_bin2hex [simp]: "bin2hex_spec (bin2hex reference_libs)"
  by (simp add: reference_libs_def bytes_to_hex_spec)

lemma reference_b64 [simp]: "b64_spec reference_libs"
  by (simp add: b64_spec_def reference_libs_def hex_to_bytes_to_hex)

lemma reference_hash32 [simp]: "hash32 reference_libs"
  by (auto simp: hash32_def reference_libs_def min_def)

lemma reference_memcmp [simp]: "memcmp_spec reference_libs"
  by (simp add: memcmp_spec_def reference_libs_def)

text \<open>
  A small database: one user with a known passphrase and one-time secret, who owns one entity
  with one account, and a second user with an entity of their own.
\<close>

definition owner_row :: user_row where
  "owner_row = \<lparr>user_id = ''u1'', user_email = ''a@b'', user_created = 0,
     user_pass = take 128 (bytes_of ''secret'' @ replicate 128 0), user_totp = Some (replicate 20 9)\<rparr>"

definition other_row :: user_row where
  "other_row = \<lparr>user_id = ''u2'', user_email = ''c@d'', user_created = 0,
     user_pass = take 128 (bytes_of ''hidden'' @ replicate 128 0), user_totp = Some (replicate 20 8)\<rparr>"

definition account_of :: "string \<Rightarrow> string \<Rightarrow> account_row" where
  "account_of k e = \<lparr>acc_id = k, acc_entity = e, acc_name = ''Checking'', acc_kind = ''bank'',
     acc_balance = 100, acc_item = None, acc_plaid = None, acc_token = None, acc_linked = 0,
     acc_created = 0, acc_institution = []\<rparr>"

definition session_of :: "string \<Rightarrow> byte \<Rightarrow> int \<Rightarrow> session_row" where
  "session_of uid x t = \<lparr>ses_id = session_key reference_libs (replicate 32 x), ses_user = uid,
     ses_created = t, ses_seen = t, ses_expires = t + kSessionAbsoluteTimeoutSeconds, ses_revoked = 0\<rparr>"

definition small_db :: db where
  "small_db = empty_db
     \<lparr>users := [owner_row, other_row],
      entities := [\<lparr>ent_id = ''e1'', ent_name = ''Mine'', ent_kind = ''LLC'', ent_created = 5\<rparr>,
                   \<lparr>ent_id = ''e2'', ent_name = ''Theirs'', ent_kind = ''Trust'', ent_created = 3\<rparr>],
      memberships := [\<lparr>mem_user = ''u1'', mem_entity = ''e1'', mem_role = ''owner''\<rparr>,
                      \<lparr>mem_user = ''u2'', mem_entity = ''e2'', mem_role = ''owner''\<rparr>],
      accounts := [account_of ''a1'' ''e1'', account_of ''a2'' ''e2''],
      sessions := [session_of ''u1'' 1 1000]\<rparr>"

text \<open>A request that carries the token of the first user's session.\<close>

definition bearer_request :: "byte \<Rightarrow> request" where
  "bearer_request x = plain_request\<lparr>authorization := Some (''Bearer '' @ bytes_to_hex (replicate 32 x))\<rparr>"

lemma small_db_ok [simp]: "store_ok small_db"
  by (simp add: small_db_def store_ok_def db_ok_defs empty_db_def owner_row_def other_row_def
      account_of_def session_of_def unique_by_def fk_def mem_key_def entity_kinds_def nul_free_def nul_def)

lemma bearer_decodes [simp]:
  "extract_bearer (bearer_request x) = Some (bytes_to_hex (replicate 32 x))"
  "base64url_decode reference_libs (bytes_to_hex bs) = bs"
proof -
  have "bytes_to_hex (replicate 32 x) \<noteq> []"
    by (metis length_bytes_to_hex length_replicate list.size(3) mult_is_0 zero_neq_numeral)
  then show "extract_bearer (bearer_request x) = Some (bytes_to_hex (replicate 32 x))"
    by (simp add: bearer_request_def extract_bearer_header)
  show "base64url_decode reference_libs (bytes_to_hex bs) = bs"
    by (simp add: base64url_decode_def reference_libs_def hex_to_bytes_to_hex)
qed

lemma owner_session:
  "require_session reference_libs (surroundings 2000 y) (bearer_request 1) small_db =
     (Some ''u1'', small_db\<lparr>sessions := [touch 2000 (session_of ''u1'' 1 1000)]\<rparr>)"
  by (simp add: require_session_def validate_and_touch_session_def surroundings_def Let_def
      small_db_def session_of_def kSessionAbsoluteTimeoutSeconds_def kSessionIdleTimeoutSeconds_def
      upd_by_def nul_free_def nul_def)

end
