(* ===== verification/Audit_Properties.thy ===== *)
theory Audit_Properties
  imports Reference_Instance
begin

text \<open>
  What the audit log promises: which payloads are written at all, that the encoding under the hash
  determines the record, that whatever is recorded verifies, and that a verified log is
  committed to by its last hash.
\<close>

section \<open>Payloads\<close>

text \<open>C39. The sanitizer accepts exactly the payloads whose nesting stays within the bound, whose keys
  are all allowed, that hold no token-shaped string and no infinite number, whose keys and strings are
  all UTF-8 (on others the serialisation throws, which is a rejection too), and whose serialisation
  fits in 64 KiB.\<close>

theorem sanitizer_exact:
  "sanitize L (JObj kvs) = None \<longleftrightarrow>
     depth_of (JObj kvs) \<le> MAX_DEPTH + 1 \<and> list_all is_key_allowed (keys_of (JObj kvs)) \<and>
     list_all (\<lambda>s. \<not> looks_like_token s) (strings_of (JObj kvs)) \<and> finite_numbers (JObj kvs) \<and>
     list_all valid_utf8 (keys_of (JObj kvs)) \<and> list_all valid_utf8 (strings_of (JObj kvs)) \<and>
     length (dump L (JObj kvs)) \<le> MAX_TOTAL_BYTES"
  using sanitize_iff [of L kvs]
  by (auto simp: clean_def json_utf8_iff list_all_iff simp del: sanitize.simps json_utf8.simps)

text \<open>A key that contains a denied word in any mixture of cases is refused, unless it is one of the
  exceptions by name.\<close>

theorem denied_words_refused:
  assumes "sub \<in> set DENY_KEY_SUBSTRINGS" and "to_lower key = p @ sub @ t"
    and "to_lower key \<notin> set ALLOWED_KEYS"
  shows "\<not> is_key_allowed key"
  by (rule denied_key [OF assms])

theorem denied_words_refused_witness: "\<not> is_key_allowed ''MyPassWordHint''"
  by (rule denied_words_refused [of "''password''" _ "''my''" "''hint''"])
     code_simp+

section \<open>The encoding under the hash\<close>

text \<open>Two records of NUL-free fields in range with the same canonical bytes are the same record.\<close>

theorem canonical_bytes_injective:
  assumes "entry_nul_free e" and "entry_nul_free e'" and "entry_in_range e" and "entry_in_range e'"
    and "compute_canonical_bytes e = compute_canonical_bytes e'"
  shows "e = e'"
proof -
  have "length (pce_prev e) = 32" "length (pce_prev e') = 32"
    using assms(3,4) by (simp_all add: entry_in_range_def)
  then have "canonical e = canonical e'"
    using assms(5) by (simp add: compute_canonical_bytes_eq)
  with assms(1-4) show ?thesis by (rule canonical_inject)
qed

definition sample_entry :: pre_commit_entry where
  "sample_entry = \<lparr>pce_seq = 1, pce_ts_ms = 5, pce_actor = ''u'', pce_actor_kind = ''user'',
     pce_domain = [], pce_subject = ''s'', pce_subject_kind = ''k'', pce_action = ''a'',
     pce_outcome = ''o'', pce_details = ''{}'', pce_prev = zero_hash\<rparr>"

theorem canonical_bytes_injective_witness: "sample_entry = sample_entry\<lparr>pce_seq := 1\<rparr>"
  by (rule canonical_bytes_injective)
     (simp_all add: sample_entry_def entry_nul_free_def entry_in_range_def nul_free_def nul_def in_i64_def)

text \<open>A NUL inside a field defeats the encoding: moving it between the subject and its kind gives
  a different record with the same canonical bytes, whatever the other fields are.\<close>

theorem canonical_bytes_ambiguous:
  "compute_canonical_bytes (e\<lparr>pce_subject := s @ [nul] @ t, pce_subject_kind := k\<rparr>) =
   compute_canonical_bytes (e\<lparr>pce_subject := s, pce_subject_kind := t @ [nul] @ k\<rparr>)"
  using canonical_nul_shift [where e = e and s = s and t = t and k = k] by (simp add: compute_canonical_bytes_eq)

section \<open>The chain\<close>

text \<open>C5. Recording an event with NUL-free fields keeps the chain verifiable, whether its payload is
  accepted, replaced by the rejection record, or the write fails.\<close>

theorem recorded_chain_verifies:
  assumes "verify_chain L (audit_log d) = None" and "hash32 L" and "event_nul_free evt"
    and "time_in_range (ev_ts_ms evt)"
  shows "verify_chain L (audit_log (snd (record_event L stored evt d))) = None"
  by (rule record_event_verifies [OF assms])

definition sample_event :: audit_event where
  "sample_event = \<lparr>ev_ts_ms = 7, ev_actor = ''u1'', ev_actor_kind = ''user'', ev_domain = ''e1'',
     ev_subject = ''a1'', ev_subject_kind = ''account'', ev_action = ''account_deleted'',
     ev_outcome = ''success'', ev_details = JObj []\<rparr>"

lemma sample_event_ok: "event_nul_free sample_event" "time_in_range (ev_ts_ms sample_event)"
  by (simp_all add: sample_event_def event_nul_free_def nul_free_def nul_def time_in_range_def in_i64_def)

theorem recorded_chain_verifies_witness:
  "verify_chain reference_libs (audit_log (snd (record_event reference_libs True sample_event empty_db))) = None"
  by (rule recorded_chain_verifies [OF _ reference_hash32 sample_event_ok])
     (simp add: empty_db_def verify_chain_def)

text \<open>C35. A log that verifies is determined by its last hash: two verified logs that end in the same
  hash record the same entries in the same order, when the hash has no collision among them.\<close>

theorem last_hash_commits:
  assumes "verify_chain L rs = None" and "verify_chain L rs' = None" and "rs \<noteq> []" and "rs' \<noteq> []"
    and "list_all row_in_range rs" and "list_all row_in_range rs'"
    and "inj_on (generichash L) (canonical ` entry_of_row ` (set rs \<union> set rs'))"
    and "head_hash rs = head_hash rs'" and "hash32 L"
  shows "map entry_of_row (sort_key aud_seq rs) = map entry_of_row (sort_key aud_seq rs')"
  by (rule verified_log_determined [OF assms])

definition sample_log :: "audit_row list" where
  "sample_log = audit_log (snd (record_event reference_libs True sample_event empty_db))"

lemma sample_log_eq:
  "sample_log = [row_of_event reference_libs sample_event ''{}'' 1 zero_hash]"
proof -
  have "sanitize reference_libs (JObj []) = None"
    by (simp add: reference_libs_def MAX_TOTAL_BYTES_def MAX_DEPTH_def)
  then show ?thesis
    by (simp add: sample_log_def record_event_cases append_locked_eq sample_event_def empty_db_def
        next_seq_def head_hash_def head_row_def reference_libs_def)
qed

theorem last_hash_commits_witness:
  "map entry_of_row (sort_key aud_seq sample_log) = map entry_of_row (sort_key aud_seq (rev sample_log))"
proof (rule last_hash_commits)
  show "verify_chain reference_libs sample_log = None"
    unfolding sample_log_def
    by (rule record_event_verifies [OF _ reference_hash32 sample_event_ok])
       (simp add: empty_db_def verify_chain_def)
  then show "verify_chain reference_libs (rev sample_log) = None"
    by (simp add: sample_log_eq)
  show "list_all row_in_range sample_log"
    by (simp add: sample_log_eq row_in_range_def entry_of_row_def row_of_event_def sample_event_def
        entry_in_range_def in_i64_def trunc_div_def bind_text_def to_i64_id zero_hash_def)
  then show "list_all row_in_range (rev sample_log)" by (simp add: sample_log_eq)
qed (simp_all add: sample_log_eq)

end
