(* ===== verification/Auth_Properties.thy ===== *)
theory Auth_Properties
  imports Reference_Instance
begin

text \<open>
  What the authentication of the server promises: the life of a session token, what a login and an
  enrollment have checked when they succeed and what they leave when they fail, the rate limit,
  and the one-time codes.  Each property with hypotheses is applied to the instance of
  \<open>Reference_Instance\<close>.
\<close>

section \<open>Sessions\<close>

lemma minted_validates:
  assumes "b64_spec L" and "length (random_token E) = 32" and "nul_free uid"
    and "mint_session L E uid now d = (Inr s, d')"
  shows "fst (validate_and_touch_session L (raw_token s) t d') =
    (if t < now + kSessionAbsoluteTimeoutSeconds then Some uid else None)"
proof -
  have raw: "base64url_decode L (raw_token s) = random_token E"
    using assms(1,4) by (elim mint_InrE) (simp add: base64url_decode_encode)
  show ?thesis
    using mint_selects [OF assms(4)] assms(2,3)
    by (simp add: validate_eq Let_def raw session_live_def kSessionIdleTimeoutSeconds_def)
qed

text \<open>A freshly minted session token authenticates its user from any clock reading before eight
  hours after the login, and nobody from then on.\<close>

theorem session_lifetime:
  assumes "b64_spec L" and "length (random_token E) = 32" and "nul_free uid"
    and "mint_session L E uid now d = (Inr s, d')"
  shows "fst (validate_and_touch_session L (raw_token s) t d') =
    (if t < now + 8 * 3600 then Some uid else None)"
  using minted_validates [OF assms] by (simp add: kSessionAbsoluteTimeoutSeconds_def)

definition minted_example :: "(string + minted_session) \<times> db" where
  "minted_example = mint_session reference_libs (surroundings 2000 3) ''u2'' 2000 small_db"

lemma minted_example_Inr: "\<exists>s d. minted_example = (Inr s, d)"
proof -
  have "session_key reference_libs (replicate 32 3) \<noteq> session_key reference_libs (replicate 32 1)"
    by (simp add: session_key_def reference_libs_def bytes_to_hex_inject)
  then show ?thesis
    by (simp add: minted_example_def mint_session_def Let_def insert_session_def ins_by_def small_db_def
        session_of_def session_key_def surroundings_def other_row_def)
qed

theorem session_lifetime_witness:
  "\<exists>s d. minted_example = (Inr s, d) \<and>
     fst (validate_and_touch_session reference_libs (raw_token s) 30799 d) = Some ''u2'' \<and>
     fst (validate_and_touch_session reference_libs (raw_token s) 30800 d) = None"
proof -
  obtain s d where m: "minted_example = (Inr s, d)" using minted_example_Inr by blast
  note life = session_lifetime [OF reference_b64 _ _ m [unfolded minted_example_def]]
  have "length (random_token (surroundings 2000 3)) = 32" "nul_free ''u2''"
    by (simp_all add: surroundings_def nul_free_def nul_def)
  then have "fst (validate_and_touch_session reference_libs (raw_token s) 30799 d) = Some ''u2''"
    and "fst (validate_and_touch_session reference_libs (raw_token s) 30800 d) = None"
    using life [of 30799] life [of 30800] by simp_all
  with m show ?thesis by blast
qed

text \<open>Validation is all or nothing: it answers a user exactly when the token decodes to 32 bytes
  whose hash is the key of a session that is not revoked, not expired and was seen within the idle
  time; then only the time that session was last seen changes, otherwise nothing does.\<close>

theorem validation_exact:
  "validate_and_touch_session L tok now d =
     (let raw = base64url_decode L tok; sid = session_key L raw in
      case (if length raw = 32 then sel_by ses_id sid (sessions d) else None) of
        None \<Rightarrow> (None, d)
      | Some r \<Rightarrow>
          if ses_revoked r = 0 \<and> now < ses_expires r \<and> now - kSessionIdleTimeoutSeconds < ses_seen r
          then (Some (c_str (ses_user r)), d\<lparr>sessions := upd_by ses_id sid (touch now) (sessions d)\<rparr>)
          else (None, d))"
  by (simp add: validate_eq Let_def session_live_def split: option.splits)

section \<open>Enrollment\<close>

lemma catch_all_Inr: "fst (catch_all x) = Inr r \<longleftrightarrow>
    (fst x = Inr r \<or> ((\<exists>w. fst x = Inl w) \<and> r = err 500 ''internal''))"
  by (cases x) (auto simp: catch_all_def split: sum.splits)

lemma reject_enrollment_status: "fst (reject_enrollment L E d) = Inr r \<Longrightarrow> status r = 400"
  by (auto simp: reject_enrollment_def and_then_Inr)

lemma enroll_200:
  assumes "handle_enroll L E req d = (Inr r, d')" and "status r = 200"
  shows "\<exists>j token email passphrase row h.
    body req = Some j \<and> at_string j ''token'' = Some token \<and> at_string j ''email'' = Some email \<and>
    at_string j ''passphrase'' = Some passphrase \<and>
    sel_by enr_hash (generichash L (hex_to_bytes token)) (enrollments d) = Some row \<and>
    clock E 0 < enr_expires row \<and> enr_consumed row = None \<and> c_str (enr_email row) = email \<and>
    email \<notin> user_email ` set (users d) \<and> hash_passphrase L passphrase = Inr h \<and>
    (\<exists>log. d' = d\<lparr>users := users d @ [\<lparr>user_id = generate_id L E, user_email = email,
            user_created = clock E 0, user_pass = h, user_totp = Some (random_totp E)\<rparr>],
          enrollments := upd_by enr_hash (enr_hash row) (\<lambda>r. r\<lparr>enr_consumed := Some (clock E 0)\<rparr>) (enrollments d),
          audit_log := audit_log d @ log\<rparr>)"
proof -
  from assms obtain j token email passphrase where j: "body req = Some j"
    "at_string j ''token'' = Some token" "at_string j ''email'' = Some email"
    "at_string j ''passphrase'' = Some passphrase"
    and h: "handle_enroll L E req d = catch_all (enroll_transaction L E token email passphrase d)"
    by (auto simp: handle_enroll_def split: option.splits)
  have fst: "fst (enroll_transaction L E token email passphrase d) = Inr r"
    using assms h catch_all_Inr [of "enroll_transaction L E token email passphrase d" r] by auto
  have snd: "snd (enroll_transaction L E token email passphrase d) = d'"
    using assms(1) h by (metis snd_catch_all snd_conv)
  show ?thesis
  proof (rule enroll_transaction_cases [of L E token email passphrase d])
    assume "enroll_transaction L E token email passphrase d = reject_enrollment L E d"
    then show ?thesis using fst assms(2) reject_enrollment_status [of L E d r] by simp
  next
    fix q assume "enroll_transaction L E token email passphrase d = (Inr q, d)" "status q \<in> {409, 500}"
    then show ?thesis using fst assms(2) by auto
  next
    fix p h uri
    assume c: "peek_enrollment_token L token (clock E 0) d = Some p" "rec_email p = email"
      "hash_passphrase L passphrase = Inr h" "email \<notin> user_email ` set (users d)"
      and eq: "enroll_transaction L E token email passphrase d =
         and_then (emit_audit L E 0 (generate_id L E) ''system'' [] (generate_id L E) ''user''
                     ''enrollment_token_consumed'' ''success'' (JObj []) (enrolled L E email h (rec_hash p) d))
           (\<lambda>_. Resp 200 (JObj [(''totp_provisioning_uri'', JStr uri), (''user_id'', JStr (generate_id L E))]))"
    obtain row where row: "sel_by enr_hash (generichash L (hex_to_bytes token)) (enrollments d) = Some row"
      "clock E 0 < enr_expires row" "enr_consumed row = None"
      "rec_hash p = generichash L (hex_to_bytes token)" "rec_email p = c_str (enr_email row)"
      using c(1) by (rule peek_SomeE)
    have key: "enr_hash row = rec_hash p" using sel_by_Some [OF row(1)] row(4) by simp
    obtain log where "d' = (enrolled L E email h (rec_hash p) d)\<lparr>audit_log := audit_log d @ log\<rparr>"
      using emit_audit_extends [of "enrolled L E email h (rec_hash p) d"] snd
      unfolding eq snd_and_then extends_log_def
      by (fastforce simp: enrolled_def mark_enrollment_token_consumed_def)
    then have d': "d' = d\<lparr>users := users d @ [\<lparr>user_id = generate_id L E, user_email = email,
            user_created = clock E 0, user_pass = h, user_totp = Some (random_totp E)\<rparr>],
          enrollments := upd_by enr_hash (enr_hash row) (\<lambda>r. r\<lparr>enr_consumed := Some (clock E 0)\<rparr>) (enrollments d),
          audit_log := audit_log d @ log\<rparr>"
      by (simp add: enrolled_def mark_enrollment_token_consumed_def key)
    have e: "c_str (enr_email row) = email" using row(5) c(2) by simp
    show ?thesis
      by (intro exI conjI) (rule j row(1,2,3) e c(3,4) d')+
  qed
qed

text \<open>A successful enrollment has redeemed a token that was issued for that very email address,
  had not expired and had not been used, and the address was not registered: it adds exactly one
  user, with the hash of the passphrase, marks the token used, and touches nothing else but the
  audit log.\<close>

theorem enrollment_success:
  assumes "handle_enroll L E req d = (Inr r, d')" and "status r = 200"
  shows "\<exists>j token email passphrase row h.
    body req = Some j \<and> at_string j ''token'' = Some token \<and> at_string j ''email'' = Some email \<and>
    at_string j ''passphrase'' = Some passphrase \<and>
    sel_by enr_hash (generichash L (hex_to_bytes token)) (enrollments d) = Some row \<and>
    clock E 0 < enr_expires row \<and> enr_consumed row = None \<and> c_str (enr_email row) = email \<and>
    email \<notin> user_email ` set (users d) \<and> hash_passphrase L passphrase = Inr h \<and>
    (\<exists>log. d' = d\<lparr>users := users d @ [\<lparr>user_id = generate_id L E, user_email = email,
            user_created = clock E 0, user_pass = h, user_totp = Some (random_totp E)\<rparr>],
          enrollments := upd_by enr_hash (enr_hash row) (\<lambda>r. r\<lparr>enr_consumed := Some (clock E 0)\<rparr>) (enrollments d),
          audit_log := audit_log d @ log\<rparr>)"
  by (rule enroll_200 [OF assms])

lemma record_event_stored: "fst (record_event L True evt d) = Inr ()"
  by (simp add: record_event_cases append_locked_eq)

lemma emit_audit_stored: "append_ok E i \<Longrightarrow> fst (emit_audit L E i a b c f g h j k d) = Inr ()"
  by (simp add: emit_audit_def record_event_stored)

lemma and_then_stored: "fst x = Inr () \<Longrightarrow> and_then x k = (Inr (k (snd x)), snd x)"
  by (cases x) (simp add: and_then_def)

definition enroll_db :: db where
  "enroll_db = small_db\<lparr>enrollments := [\<lparr>enr_hash = generichash reference_libs (replicate 32 5),
     enr_email = ''n@o'', enr_created = 0, enr_expires = 5000, enr_consumed = None\<rparr>]\<rparr>"

definition enroll_request :: "string \<Rightarrow> request" where
  "enroll_request email = plain_request\<lparr>body := Some (JObj [(''email'', JStr email),
     (''passphrase'', JStr ''pw''), (''token'', JStr (bytes_to_hex (replicate 32 5)))])\<rparr>"

lemma enroll_request_fields:
  "handle_enroll L E (enroll_request email) d =
     catch_all (enroll_transaction L E (bytes_to_hex (replicate 32 5)) email ''pw'' d)"
  by (simp add: handle_enroll_def enroll_request_def at_string_def)

lemma enroll_example_peek:
  "peek_enrollment_token reference_libs (bytes_to_hex (replicate 32 5)) 2000 enroll_db =
     Some \<lparr>rec_hash = generichash reference_libs (replicate 32 5), rec_email = ''n@o'', rec_created = 0,
           rec_expires = 5000, rec_consumed = 0\<rparr>"
  by (simp add: peek_enrollment_token_def hex_to_bytes_to_hex Let_def enroll_db_def nul_free_def nul_def)

lemma enroll_example:
  "\<exists>r d'. handle_enroll reference_libs (surroundings 2000 7) (enroll_request ''n@o'') enroll_db = (Inr r, d') \<and>
     status r = 200"
proof -
  have id: "length (generate_id reference_libs (surroundings 2000 7)) = 32"
    by (simp add: generate_id_def reference_libs_def surroundings_def)
  let ?h = "take 128 (bytes_of ''pw'' @ replicate 128 0)"
  have h: "hash_passphrase reference_libs ''pw'' = Inr ?h"
    by (simp add: hash_passphrase_def reference_libs_def)
  have "clock (surroundings 2000 7) 0 = 2000" by (simp add: surroundings_def)
  then have p: "peek_enrollment_token reference_libs (bytes_to_hex (replicate 32 5))
      (clock (surroundings 2000 7) 0) enroll_db = Some \<lparr>rec_hash = generichash reference_libs (replicate 32 5),
        rec_email = ''n@o'', rec_created = 0, rec_expires = 5000, rec_consumed = 0\<rparr>"
    using enroll_example_peek by simp
  have s: "append_ok (surroundings 2000 7) 0" by (simp add: surroundings_def)
  have ids: "map user_id (users enroll_db) = [''u1'', ''u2'']" "map user_email (users enroll_db) = [''a@b'', ''c@d'']"
    by (simp_all add: enroll_db_def small_db_def owner_row_def other_row_def)
  have ins: "insert_user u enroll_db = Some (enroll_db\<lparr>users := users enroll_db @ [u]\<rparr>)"
    if "user_email u = ''n@o''" "user_id u = generate_id reference_libs (surroundings 2000 7)" for u
    using that id ids by (auto simp: insert_user_def ins_by_def)
  have enr: "enrollments enroll_db = [\<lparr>enr_hash = generichash reference_libs (replicate 32 5),
     enr_email = ''n@o'', enr_created = 0, enr_expires = 5000, enr_consumed = None\<rparr>]"
    by (simp add: enroll_db_def)
  show ?thesis
    by (simp add: enroll_request_fields enroll_transaction_def Let_def p h ins enr split_def
        and_then_stored emit_audit_stored [OF s] catch_all_def mark_enrollment_token_consumed_def)
qed

theorem enrollment_success_witness:
  "\<exists>r d' h log. handle_enroll reference_libs (surroundings 2000 7) (enroll_request ''n@o'') enroll_db = (Inr r, d') \<and>
     status r = 200 \<and> hash_passphrase reference_libs ''pw'' = Inr h \<and>
     users d' = users enroll_db @ [\<lparr>user_id = generate_id reference_libs (surroundings 2000 7), user_email = ''n@o'',
       user_created = 2000, user_pass = h, user_totp = Some (replicate 20 7)\<rparr>] \<and>
     audit_log d' = audit_log enroll_db @ log"
proof -
  have e: "clock (surroundings 2000 7) 0 = 2000" "random_totp (surroundings 2000 7) = replicate 20 7"
    by (simp_all add: surroundings_def)
  obtain r d' where r: "handle_enroll reference_libs (surroundings 2000 7) (enroll_request ''n@o'') enroll_db = (Inr r, d')"
    "status r = 200"
    using enroll_example by blast
  from enrollment_success [OF r, unfolded e]
  obtain h log where "hash_passphrase reference_libs ''pw'' = Inr h"
    "users d' = users enroll_db @ [\<lparr>user_id = generate_id reference_libs (surroundings 2000 7), user_email = ''n@o'',
       user_created = 2000, user_pass = h, user_totp = Some (replicate 20 7)\<rparr>]"
    "audit_log d' = audit_log enroll_db @ log"
    by (auto simp: enroll_request_def at_string_def)
  with r show ?thesis by blast
qed

text \<open>When the audit log can be written, an enrollment that does not answer 200 has created no
  user and spent no token: the database differs from before at most by audit rows.\<close>

theorem enrollment_failure:
  assumes "append_ok E 0" and "handle_enroll L E req d = (Inr r, d')" and "status r \<noteq> 200"
  shows "\<exists>log. d' = d\<lparr>audit_log := audit_log d @ log\<rparr>"
proof -
  have same: "\<exists>log. d = d\<lparr>audit_log := audit_log d @ log\<rparr>" by (rule exI [of _ "[]"]) simp
  have tr: "\<exists>log. snd (enroll_transaction L E token email passphrase d) = d\<lparr>audit_log := audit_log d @ log\<rparr>"
    if fst: "fst (catch_all (enroll_transaction L E token email passphrase d)) = Inr r" for token email passphrase
  proof (rule enroll_transaction_cases [of L E token email passphrase d])
    assume "enroll_transaction L E token email passphrase d = reject_enrollment L E d"
    then show ?thesis
      using emit_audit_extends [of d L E 0 "[]" "''system''" "[]" "[]" "''enrollment_token''"
          "''enrollment_token_rejected''" "''failure''" "JObj []"]
      by (auto simp: reject_enrollment_def extends_log_def)
  next
    fix q assume "enroll_transaction L E token email passphrase d = (Inr q, d)"
    then show ?thesis using same by simp
  next
    fix p h uri
    assume "enroll_transaction L E token email passphrase d =
         and_then (emit_audit L E 0 (generate_id L E) ''system'' [] (generate_id L E) ''user''
                     ''enrollment_token_consumed'' ''success'' (JObj []) (enrolled L E email h (rec_hash p) d))
           (\<lambda>_. Resp 200 (JObj [(''totp_provisioning_uri'', JStr uri), (''user_id'', JStr (generate_id L E))]))"
    then have "status r = 200"
      using fst by (auto simp: and_then_stored emit_audit_stored [OF assms(1)] catch_all_def)
    with assms(3) show ?thesis by simp
  qed
  have "snd (handle_enroll L E req d) = d \<or>
      (\<exists>token email p. handle_enroll L E req d = catch_all (enroll_transaction L E token email p d))"
    by (simp add: handle_enroll_def split: option.splits) blast
  then show ?thesis
  proof (elim disjE exE)
    fix token email p
    assume "handle_enroll L E req d = catch_all (enroll_transaction L E token email p d)"
    with assms(2) have h: "catch_all (enroll_transaction L E token email p d) = (Inr r, d')" by simp
    then have "fst (catch_all (enroll_transaction L E token email p d)) = Inr r" by simp
    moreover have "d' = snd (enroll_transaction L E token email p d)"
      using h by (metis snd_catch_all snd_conv)
    ultimately have "fst (catch_all (enroll_transaction L E token email p d)) = Inr r"
      and "d' = snd (enroll_transaction L E token email p d)" by simp_all
    then show ?thesis using tr by blast
  qed (use assms(2) same in simp)
qed

theorem enrollment_failure_witness:
  "\<exists>r d'. handle_enroll reference_libs (surroundings 2000 7) (enroll_request ''x@y'') enroll_db = (Inr r, d') \<and>
     (\<exists>log. d' = enroll_db\<lparr>audit_log := audit_log enroll_db @ log\<rparr>)"
proof -
  have p: "peek_enrollment_token reference_libs (bytes_to_hex (replicate 32 5))
      (clock (surroundings 2000 7) 0) enroll_db = Some \<lparr>rec_hash = generichash reference_libs (replicate 32 5),
        rec_email = ''n@o'', rec_created = 0, rec_expires = 5000, rec_consumed = 0\<rparr>"
    using enroll_example_peek by (simp add: surroundings_def)
  have s: "append_ok (surroundings 2000 7) 0" by (simp add: surroundings_def)
  obtain r d' where r: "handle_enroll reference_libs (surroundings 2000 7) (enroll_request ''x@y'') enroll_db = (Inr r, d')"
    "status r \<noteq> 200"
    by (simp add: enroll_request_fields enroll_transaction_def Let_def p reject_enrollment_def
        and_then_stored emit_audit_stored [OF s] catch_all_def)
  from r(1) enrollment_failure [OF s r] show ?thesis by blast
qed

section \<open>Logging in\<close>

text \<open>The three fields of a login request.\<close>

definition login_fields :: "request \<Rightarrow> (string \<times> string \<times> int) option" where
  "login_fields req =
     (case body req of
        None \<Rightarrow> None
      | Some j \<Rightarrow>
          (case (at_string j ''email'', at_string j ''passphrase'', at_int j ''totp_code'') of
             (Some email, Some passphrase, Some code) \<Rightarrow> Some (email, passphrase, code)
           | _ \<Rightarrow> None))"

lemma handle_login_eq:
  assumes "login_fields req = Some (email, passphrase, code)"
  shows "handle_login L E req s =
     (let (limited, m) = rate_limit_check (rate_key email) (clock E 0) (sv_rate s);
          (r, d) =
            (if limited
             then and_then (emit_audit L E 0 [] ''system'' [] email ''user'' ''auth_rate_limit_tripped''
                              ''rate_limited'' (JObj [(''email'', JStr email)]) (sv_db s))
                    (\<lambda>_. err_msg 429 ''rate_limited'' ''Too many login attempts. Try again later.'')
             else login_user L E email passphrase code (sv_db s))
      in (r, s\<lparr>sv_db := d, sv_rate := m\<rparr>))"
  using assms by (auto simp: login_fields_def handle_login_def split: option.splits)

lemma handle_login_no_fields:
  "login_fields req = None \<Longrightarrow> \<exists>r. handle_login L E req s = (Inr r, s) \<and> status r = 400"
  by (auto simp: login_fields_def handle_login_def split: option.splits)

text \<open>C3. A login that answers 200 was within the rate limit, named a registered address, and had both
  the passphrase and a one-time code of the window right; the token it returns is the one of the
  session it stored for that user.\<close>

theorem login_success:
  assumes "handle_login L E req s = (Inr r, s')" and "status r = 200"
  shows "\<exists>email passphrase code u minted d1.
    login_fields req = Some (email, passphrase, code) \<and>
    \<not> fst (rate_limit_check (rate_key email) (clock E 0) (sv_rate s)) \<and>
    sel_by user_email email (users (sv_db s)) = Some u \<and>
    verify_passphrase L passphrase (user_pass u) \<and>
    verify_totp_code L (case user_totp u of None \<Rightarrow> [] | Some x \<Rightarrow> x) (clock E 0) code 1 \<and>
    mint_session L E (c_str (user_id u)) (clock E 0) (sv_db s) = (Inr minted, d1) \<and>
    sessions (sv_db s') = sessions d1 \<and> users (sv_db s') = users (sv_db s) \<and>
    json_at (content r) ''session_token'' = Some (JStr (raw_token minted))"
proof -
  obtain email passphrase code where f: "login_fields req = Some (email, passphrase, code)"
    using assms handle_login_no_fields [of req L E s] by (cases "login_fields req") auto
  let ?d = "sv_db s"
  have nl: "\<not> fst (rate_limit_check (rate_key email) (clock E 0) (sv_rate s))"
    using assms by (auto simp: handle_login_eq [OF f] Let_def split_def and_then_Inr)
  then have l: "login_user L E email passphrase code ?d = (Inr r, sv_db s')"
    using assms(1) by (auto simp: handle_login_eq [OF f] Let_def split_def prod_eq_iff)
  show ?thesis
  proof (rule login_user_cases [of ?d L E email passphrase code])
    fix u m d1 d2
    assume c: "sel_by user_email email (users ?d) = Some u"
      "verify_passphrase L passphrase (user_pass u)"
      "verify_totp_code L (case user_totp u of None \<Rightarrow> [] | Some x \<Rightarrow> x) (clock E 0) code 1"
      "mint_session L E (c_str (user_id u)) (clock E 0) ?d = (Inr m, d1)"
      and x: "extends_log d1 d2" "extends_log d2 (snd (login_user L E email passphrase code ?d))"
      and res: "\<And>r. fst (login_user L E email passphrase code ?d) = Inr r \<Longrightarrow>
         r = Resp 200 (JObj [(''expires_at_unix'', JInt (clock E 0 + kSessionAbsoluteTimeoutSeconds)),
               (''session_token'', JStr (raw_token m)), (''user_id'', JStr (c_str (user_id u)))])"
    have ses: "sessions (sv_db s') = sessions d1"
      using extends_log_sessions [OF x(1)] extends_log_sessions [OF x(2)] l by simp
    have "users d1 = users ?d"
      using data_of_cong(1) [OF mint_data [of L E "c_str (user_id u)" "clock E 0" ?d]] c(4) by simp
    then have usr: "users (sv_db s') = users ?d"
      using x l by (auto simp: extends_log_def)
    have tok: "json_at (content r) ''session_token'' = Some (JStr (raw_token m))"
      using res [of r] l by simp
    show ?thesis by (intro exI conjI) (rule f nl c ses usr tok)+
  qed (use l assms(2) in auto)
qed

text \<open>The one-time code of the moment is a code of the window.\<close>

definition login_request :: "string \<Rightarrow> int \<Rightarrow> request" where
  "login_request passphrase code = plain_request\<lparr>body := Some (JObj [(''email'', JStr ''a@b''),
     (''passphrase'', JStr passphrase), (''totp_code'', JInt code)])\<rparr>"

definition current_code :: int where
  "current_code = compute_totp_code (replicate 20 9) 2000"

definition small_server :: server_state where
  "small_server = \<lparr>sv_db = small_db, sv_rate = []\<rparr>"

lemma to_i32_id: "- (2 ^ 31) \<le> n \<Longrightarrow> n < 2 ^ 31 \<Longrightarrow> to_i32 n = n"
  by (simp add: to_i32_def signed_take_bit_int_eq_self)

lemma login_request_fields:
  "- (2 ^ 31) \<le> code \<Longrightarrow> code < 2 ^ 31 \<Longrightarrow>
     login_fields (login_request passphrase code) = Some (''a@b'', passphrase, code)"
  by (simp add: login_fields_def login_request_def at_string_def at_int_def to_i32_id)

lemma current_code_range: "0 \<le> current_code \<and> current_code < 1000000"
  unfolding current_code_def by (rule code_range)

lemma current_code_verifies: "verify_totp_code reference_libs (replicate 20 9) 2000 current_code 1"
  unfolding current_code_def by (rule verify_accepts_skewed) simp_all

lemma fresh_not_limited: "rate_limit_check key t [] = (False, [(key, \<lparr>rb_count = 1, rb_start = t\<rparr>)])"
  if "900 \<le> t"
  using that
  by (simp add: rate_limit_check_def count_request_def reset_window_def window_expired_def bucket_at_def
      kMaxRateBuckets_def kRateLimitMax_def kRateLimitWindowSecs_def store_bucket_def Let_def)

lemma login_example:
  "\<exists>r s'. handle_login reference_libs (surroundings 2000 3) (login_request ''secret'' current_code) small_server
     = (Inr r, s') \<and> status r = 200"
proof -
  let ?E = "surroundings 2000 3" and ?L = reference_libs
  have f: "login_fields (login_request ''secret'' current_code) = Some (''a@b'', ''secret'', current_code)"
    using current_code_range by (intro login_request_fields) simp_all
  have e: "clock ?E 0 = 2000" "append_ok ?E 0" "append_ok ?E 1" "append_ok ?E (Suc 0)"
    "sv_rate small_server = []"
    by (simp_all add: surroundings_def small_server_def)
  have u: "sel_by user_email ''a@b'' (users (sv_db small_server)) = Some owner_row"
    by (simp add: small_server_def small_db_def owner_row_def)
  have p: "verify_passphrase ?L ''secret'' (user_pass owner_row)"
    by (simp add: verify_passphrase_def reference_libs_def owner_row_def crypto_pwhash_STRBYTES_def)
  have t: "(case user_totp owner_row of None \<Rightarrow> [] | Some x \<Rightarrow> x) = replicate 20 9" "c_str (user_id owner_row) = ''u1''"
    by (simp_all add: owner_row_def nul_free_def nul_def)
  have "session_key ?L (replicate 32 3) \<noteq> session_key ?L (replicate 32 1)"
    by (simp add: session_key_def reference_libs_def bytes_to_hex_inject)
  then obtain m d1 where m: "mint_session ?L ?E ''u1'' 2000 (sv_db small_server) = (Inr m, d1)"
    by (simp add: mint_session_def Let_def insert_session_def ins_by_def small_db_def small_server_def
        session_of_def session_key_def surroundings_def owner_row_def)
  obtain d2 where a: "emit_audit ?L ?E 0 ''u1'' ''user'' [] (bin2hex ?L (token_hash m)) ''session''
      ''passphrase_authentication_success'' ''success'' (JObj [(''email'', JStr ''a@b'')]) d1 = (Inr (), d2)"
    using emit_audit_stored [OF e(2)] by (metis prod.collapse)
  show ?thesis
    by (simp add: handle_login_eq [OF f] Let_def split_def e fresh_not_limited login_user_def
        u p t current_code_verifies m a and_then_stored emit_audit_stored)
qed

theorem login_success_witness:
  "\<exists>r s' (minted :: minted_session). handle_login reference_libs (surroundings 2000 3) (login_request ''secret'' current_code) small_server
     = (Inr r, s') \<and> status r = 200 \<and> json_at (content r) ''session_token'' = Some (JStr (raw_token minted))"
proof -
  obtain r s' where r: "handle_login reference_libs (surroundings 2000 3)
      (login_request ''secret'' current_code) small_server = (Inr r, s')" "status r = 200"
    using login_example by blast
  from r login_success [OF r] show ?thesis by blast
qed

lemma auth_failed_stored:
  "append_ok E 0 \<Longrightarrow> fst (auth_failed L E a b c f d) = Inr (err 401 ''auth_failed'')"
  by (simp add: auth_failed_def and_then_stored emit_audit_stored)

text \<open>C36. While the audit log can be written, and on requests that are well-formed and pass the rate limiter,
  an unknown address, a wrong passphrase and a wrong one-time code get the very same answer, and none of them
  creates a session or changes anything but the audit log and the rate limiter. The one difference is a dummy hash that cannot be computed (libsodium lacks the memory):
  an unknown address then gets that error, with the database unchanged, where a known one is refused as
  before.\<close>

theorem failed_logins_alike:
  assumes "append_ok E 0"
    and "login_fields req = Some (email, passphrase, code)"
    and "\<not> fst (rate_limit_check (rate_key email) (clock E 0) (sv_rate s))"
    and "case sel_by user_email email (users (sv_db s)) of
           None \<Rightarrow> True
         | Some u \<Rightarrow> \<not> verify_passphrase L passphrase (user_pass u) \<or>
             \<not> verify_totp_code L (case user_totp u of None \<Rightarrow> [] | Some x \<Rightarrow> x) (clock E 0) code 1"
  shows "case (dummy_hash L, sel_by user_email email (users (sv_db s))) of
      (Inl what, None) \<Rightarrow> fst (handle_login L E req s) = Inl what \<and> sv_db (snd (handle_login L E req s)) = sv_db s
    | _ \<Rightarrow> fst (handle_login L E req s) = Inr (err 401 ''auth_failed'') \<and>
        (\<exists>log. sv_db (snd (handle_login L E req s)) = (sv_db s)\<lparr>audit_log := audit_log (sv_db s) @ log\<rparr>)"
proof -
  note refused = auth_failed_stored [OF assms(1)] auth_failed_extends
  have "case (dummy_hash L, sel_by user_email email (users (sv_db s))) of
      (Inl what, None) \<Rightarrow> login_user L E email passphrase code (sv_db s) = (Inl what, sv_db s)
    | _ \<Rightarrow> fst (login_user L E email passphrase code (sv_db s)) = Inr (err 401 ''auth_failed'') \<and>
        extends_log (sv_db s) (snd (login_user L E email passphrase code (sv_db s)))"
  proof (cases "sel_by user_email email (users (sv_db s))")
    case None
    then show ?thesis by (simp add: login_user_def Let_def refused split: sum.split)
  next
    case (Some u)
    then have "fst (login_user L E email passphrase code (sv_db s)) = Inr (err 401 ''auth_failed'') \<and>
        extends_log (sv_db s) (snd (login_user L E email passphrase code (sv_db s)))"
      using assms(4) by (simp add: login_user_def Let_def refused)
    with Some show ?thesis by (simp split: sum.split)
  qed
  with assms(3) show ?thesis
    by (auto simp: handle_login_eq [OF assms(2)] Let_def split_def extends_log_def split: sum.splits option.splits)
qed

theorem failed_logins_alike_witness:
  "fst (handle_login reference_libs (surroundings 2000 3) (login_request ''wrong'' 7) small_server) =
     Inr (err 401 ''auth_failed'')"
proof -
  have p: "\<not> verify_passphrase reference_libs ''wrong'' (user_pass owner_row)"
    by (simp add: verify_passphrase_def reference_libs_def owner_row_def bytes_of_def)
  have f: "login_fields (login_request ''wrong'' 7) = Some (''a@b'', ''wrong'', 7)"
    by (rule login_request_fields) simp_all
  have u: "sel_by user_email ''a@b'' (users (sv_db small_server)) = Some owner_row"
    by (simp add: small_server_def small_db_def owner_row_def)
  have ok: "append_ok (surroundings 2000 3) 0"
    "\<not> fst (rate_limit_check (rate_key ''a@b'') (clock (surroundings 2000 3) 0) (sv_rate small_server))"
    by (simp_all add: surroundings_def small_server_def fresh_not_limited)
  show ?thesis
    using failed_logins_alike [where L = reference_libs, OF ok(1) f ok(2)] p by (simp add: u split: sum.splits)
qed

text \<open>C8. However requests for any keys are interleaved, at most five for one key are let through
  before its window closes: those already counted plus those that pass never exceed the limit.\<close>

theorem rate_limit_budget:
  assumes "buckets_ok m" and "map_of m key = Some \<lparr>rb_count = n, rb_start = w\<rparr>" and "0 \<le> n" and "n \<le> 5"
    and "\<forall>(k, t) \<in> set reqs. t < w + 900"
  shows "int (passed key reqs (fst (run_limiter reqs m))) + n \<le> 5"
  using window_budget [of m key w n reqs] assms
  by (simp add: open_bucket_def kRateLimitMax_def kRateLimitWindowSecs_def)

theorem rate_limit_budget_witness:
  "int (passed ''k'' [(''k'', 10), (''j'', 11), (''k'', 899)]
     (fst (run_limiter [(''k'', 10), (''j'', 11), (''k'', 899)] [(''k'', \<lparr>rb_count = 4, rb_start = 0\<rparr>)]))) + 4 \<le> 5"
  by (rule rate_limit_budget [where w = 0])
     (simp_all add: buckets_ok_def kMaxRateBuckets_def kRateLimitMax_def)

text \<open>Once the budget of an address is spent, a login for it answers 429 whatever the credentials
  are, and changes no table but the audit log.\<close>

theorem login_limited:
  assumes "login_fields req = Some (email, passphrase, code)" and "append_ok E 0"
    and "map_of (sv_rate s) (rate_key email) = Some \<lparr>rb_count = 5, rb_start = w\<rparr>"
    and "clock E 0 < w + 900"
  shows "fst (handle_login L E req s) =
      Inr (err_msg 429 ''rate_limited'' ''Too many login attempts. Try again later.'') \<and>
    (\<exists>log. sv_db (snd (handle_login L E req s)) = (sv_db s)\<lparr>audit_log := audit_log (sv_db s) @ log\<rparr>)"
proof -
  have "fst (rate_limit_check (rate_key email) (clock E 0) (sv_rate s))"
    using check_same_key [of "rate_key email" w 5 "sv_rate s" "clock E 0"] assms(3,4)
    by (simp add: open_bucket_def kRateLimitMax_def kRateLimitWindowSecs_def)
  then show ?thesis
    using emit_audit_extends [of "sv_db s" L E 0 "[]" "''system''" "[]" email "''user''"
        "''auth_rate_limit_tripped''" "''rate_limited''" "JObj [(''email'', JStr email)]"]
    by (auto simp: handle_login_eq [OF assms(1)] Let_def split_def extends_log_def
        and_then_stored emit_audit_stored [OF assms(2)])
qed

theorem login_limited_witness:
  "fst (handle_login reference_libs (surroundings 2000 3) (login_request ''secret'' current_code)
     (small_server\<lparr>sv_rate := [(rate_key ''a@b'', \<lparr>rb_count = 5, rb_start = 1500\<rparr>)]\<rparr>)) =
     Inr (err_msg 429 ''rate_limited'' ''Too many login attempts. Try again later.'')"
proof -
  have f: "login_fields (login_request ''secret'' current_code) = Some (''a@b'', ''secret'', current_code)"
    using current_code_range by (intro login_request_fields) simp_all
  show ?thesis
    by (rule login_limited [OF f, where w = 1500, THEN conjunct1]) (simp_all add: surroundings_def)
qed

section \<open>One-time codes\<close>

text \<open>C37. Verification accepts a code exactly when it has at most six digits and is the code of one of
  the time steps of the window. For such a number it makes the same calls whether the code is right or wrong:
  one constant-time comparison for each step of the window, in order, with no early exit; any other number is
  refused without a comparison.\<close>

theorem totp_verification:
  assumes "memcmp_spec L"
  shows "(verify_totp_code L secret t code skew \<longleftrightarrow>
      0 \<le> code \<and> code \<le> 999999 \<and> (\<exists>k \<in> {- skew..skew}. compute_totp_code secret (t + k * 30) = code)) \<and>
    snd (compare_steps L secret t code skew) =
      (if 0 \<le> code \<and> code \<le> 999999
       then map (\<lambda>k. (code_bytes code, code_bytes (compute_totp_code secret (t + k * 30)))) [- skew..skew]
       else [])"
  using verify_totp_iff [OF assms] by (simp add: compare_steps_eq)

theorem totp_verification_witness:
  "\<not> verify_totp_code reference_libs [1, 2, 3] 5000 1000000 1 \<and>
   length (snd (compare_steps reference_libs [1, 2, 3] 5000 7 1)) = 3"
  using totp_verification [OF reference_memcmp, of "[1, 2, 3]" 5000 1000000 1]
    totp_verification [OF reference_memcmp, of "[1, 2, 3]" 5000 7 1] by simp

text \<open>A code made by a device whose clock is at most \<open>skew\<close> steps of 30 seconds away from the
  server's is accepted.\<close>

theorem totp_skew_tolerated:
  assumes "memcmp_spec L" and "0 \<le> t'" "t' < 2 ^ 63" and "t < 2 ^ 63 - 30 * skew" and "30 * skew \<le> t"
    and "\<bar>t' div 30 - t div 30\<bar> \<le> skew"
  shows "verify_totp_code L secret t (compute_totp_code secret t') skew"
  by (rule verify_accepts_skewed [OF assms])

theorem totp_skew_tolerated_witness:
  "verify_totp_code reference_libs [1, 2, 3] 5000 (compute_totp_code [1, 2, 3] 5020) 1"
  by (rule totp_skew_tolerated) simp_all

end
