(* ===== verification/Data_Properties.thy ===== *)
theory Data_Properties
  imports Auth_Properties "HOL-Library.Multiset"
begin

text \<open>
  What the data routes promise beyond their common contract: what a created entity is, which
  entities a user sees, how a list is paged, and where the code falls short of what it reports.
\<close>

section \<open>Entities\<close>

text \<open>A successful \<open>POST /entities\<close> adds exactly one entity, with the name and kind of the request
  and the current time, and one membership that makes the requesting user its owner.\<close>

theorem created_entity:
  assumes "require_session L E req d = (Some uid, d1)"
    and "handle_create_entity L E req d = (Inr r, d')" and "status r = 201"
  shows "\<exists>j name kind log. body req = Some j \<and> at_string j ''name'' = Some name \<and>
    at_string j ''kind'' = Some kind \<and> kind \<in> set entity_kinds \<and>
    generate_id L E \<notin> ent_id ` set (entities d1) \<and>
    d' = d1\<lparr>entities := entities d1 @ [\<lparr>ent_id = generate_id L E, ent_name = name, ent_kind = kind,
                                        ent_created = clock E 1\<rparr>],
            memberships := memberships d1 @ [\<lparr>mem_user = uid, mem_entity = generate_id L E, mem_role = ''owner''\<rparr>],
            audit_log := audit_log d1 @ log\<rparr> \<and>
    user_is_owner_of_entity d' uid (generate_id L E)"
proof (rule handle_create_entity_cases [OF assms(1)])
  fix q assume "handle_create_entity L E req d = (Inr q, d1)" "status q \<in> {400, 500}"
  with assms(2,3) show ?thesis by auto
next
  fix j name kind d3
  let ?i = "generate_id L E"
  assume j: "body req = Some j" "at_string j ''name'' = Some name" "at_string j ''kind'' = Some kind"
    "valid_entity_kind kind" "?i \<notin> ent_id ` set (entities d1)"
    and d3: "d3 = entity_created uid ?i name kind (clock E 1) d1"
    and h: "handle_create_entity L E req d =
         and_then (emit_audit_entity L E uid ?i ?i ''entity'' ''entity_created'' ''success''
                    (JObj [(''kind'', JStr kind), (''name'', JStr name)]) d3)
           (\<lambda>_. Resp 201 (JObj [(''created_at_unix'', JInt (clock E 1)), (''id'', JStr ?i),
                                (''kind'', JStr kind), (''name'', JStr name)]))"
  have "extends_log d3 d'"
    using emit_audit_entity_extends assms(2) unfolding h by (metis snd_and_then snd_conv)
  then obtain log where "d' = d3\<lparr>audit_log := audit_log d3 @ log\<rparr>" by (auto simp: extends_log_def)
  then have d': "d' = d1\<lparr>entities := entities d1 @ [\<lparr>ent_id = ?i, ent_name = name, ent_kind = kind,
                                        ent_created = clock E 1\<rparr>],
            memberships := memberships d1 @ [\<lparr>mem_user = uid, mem_entity = ?i, mem_role = ''owner''\<rparr>],
            audit_log := audit_log d1 @ log\<rparr>"
    by (simp add: d3 entity_created_def)
  have own: "user_is_owner_of_entity d' uid ?i" by (simp add: d' user_is_owner_of_entity_def)
  have k: "kind \<in> set entity_kinds" using j(4) by (simp add: valid_entity_kind_iff)
  show ?thesis by (intro exI conjI) (rule j(1-3) k j(5) d' own)+
qed

definition create_request :: request where
  "create_request = (bearer_request 1)\<lparr>body := Some (JObj [(''kind'', JStr ''LLC''), (''name'', JStr ''New'')])\<rparr>"

lemma create_session:
  "require_session reference_libs (surroundings 2000 y) create_request small_db =
     (Some ''u1'', small_db\<lparr>sessions := [touch 2000 (session_of ''u1'' 1 1000)]\<rparr>)"
  using owner_session [of y]
  by (simp add: require_session_def create_request_def extract_bearer_def)

lemma create_example:
  "\<exists>r d'. handle_create_entity reference_libs (surroundings 2000 7) create_request small_db = (Inr r, d') \<and>
     status r = 201"
proof -
  have id: "length (generate_id reference_libs (surroundings 2000 7)) = 32"
    by (simp add: generate_id_def reference_libs_def surroundings_def)
  let ?d = "small_db\<lparr>sessions := [touch 2000 (session_of ''u1'' 1 1000)]\<rparr>"
  have ids: "map ent_id (entities ?d) = [''e1'', ''e2'']" "map mem_key (memberships ?d) = [(''u1'', ''e1''), (''u2'', ''e2'')]"
    "map user_id (users ?d) = [''u1'', ''u2'']"
    by (simp_all add: small_db_def mem_key_def owner_row_def other_row_def)
  have b: "body create_request = Some (JObj [(''kind'', JStr ''LLC''), (''name'', JStr ''New'')])"
    by (simp add: create_request_def)
  have v: "valid_entity_kind ''LLC''" by (simp add: valid_entity_kind_def)
  have e: "insert_entity r ?d = Some (?d\<lparr>entities := entities ?d @ [r]\<rparr>)"
    if "ent_id r = generate_id reference_libs (surroundings 2000 7)" "ent_kind r = ''LLC''" for r
    using that id ids by (auto simp: insert_entity_def ins_by_def entity_kinds_def)
  have m: "insert_membership q (?d\<lparr>entities := entities ?d @ [r]\<rparr>) \<noteq> None"
    if "ent_id r = generate_id reference_libs (surroundings 2000 7)" "mem_entity q = ent_id r" "mem_user q = ''u1''" for q r
    using that id ids by (auto simp: insert_membership_def ins_by_def mem_key_def)
  have a: "fst (emit_audit_entity reference_libs (surroundings 2000 7) p q s t u w x y) = Inr ()" for p q s t u w x y
    by (simp add: emit_audit_entity_def surroundings_def record_event_stored)
  show ?thesis
    using m [of "\<lparr>ent_id = generate_id reference_libs (surroundings 2000 7), ent_name = ''New'', ent_kind = ''LLC'',
        ent_created = clock (surroundings 2000 7) 1\<rparr>" "\<lparr>mem_user = ''u1'', mem_entity =
        generate_id reference_libs (surroundings 2000 7), mem_role = ''owner''\<rparr>"]
    by (auto simp: handle_create_entity_def create_session b at_string_def v e Let_def and_then_stored a
        split: option.splits)
qed

theorem created_entity_witness:
  "\<exists>d'. user_is_owner_of_entity d' ''u1'' (generate_id reference_libs (surroundings 2000 7)) \<and>
     snd (handle_create_entity reference_libs (surroundings 2000 7) create_request small_db) = d'"
proof -
  obtain r d' where "handle_create_entity reference_libs (surroundings 2000 7) create_request small_db = (Inr r, d')"
    "status r = 201"
    using create_example by blast
  from this(1) created_entity [OF create_session this] show ?thesis by auto
qed

text \<open>\<open>GET /entities\<close> lists the entities the user is a member of and no others, each once, in the
  order of their creation times, and changes nothing but the session's last use.\<close>

theorem listed_entities:
  assumes "require_session L E req d = (Some uid, d1)" and "db_ok d"
  shows "\<exists>es. handle_get_entities L E req d =
       (Inr (Resp 200 (JObj [(''items'', JArr (map entity_row_to_json es)), (''next_cursor'', JNull)])), d1) \<and>
     set es = {r \<in> set (entities d). user_has_access_to_entity d uid (ent_id r)} \<and>
     distinct (map ent_id es) \<and> sorted (map ent_created es)"
proof -
  let ?es = "sort_key ent_created (entities_of_user d1 uid)"
  note same = data_of_cong [OF require_data [of L E req d], unfolded assms(1) snd_conv]
  have eq: "entities_of_user d1 uid = filter (\<lambda>e. user_has_access_to_entity d uid (ent_id e)) (entities d)"
    using entities_of_user_eq [OF assms(2), of uid] same(2,3) by (simp add: entities_of_user_def)
  have "distinct (map ent_id (entities d))"
    using assms(2) by (simp add: db_ok_defs unique_by_def)
  then have "distinct (map ent_id (entities_of_user d1 uid))"
    unfolding eq by (rule distinct_map_filter)
  then have "distinct (map ent_id ?es)"
    by (metis distinct_map distinct_sort inj_on_cong set_sort)
  moreover have "set ?es = {r \<in> set (entities d). user_has_access_to_entity d uid (ent_id r)}"
    by (simp add: eq)
  ultimately show ?thesis
    by (intro exI [of _ ?es] conjI) (simp_all add: handle_get_entities_def assms(1))
qed

theorem listed_entities_witness:
  "\<exists>es. fst (handle_get_entities reference_libs (surroundings 2000 7) (bearer_request 1) small_db) =
       Inr (Resp 200 (JObj [(''items'', JArr (map entity_row_to_json es)), (''next_cursor'', JNull)])) \<and>
     set es = {r \<in> set (entities small_db). user_has_access_to_entity small_db ''u1'' (ent_id r)}"
proof -
  have "db_ok small_db" using small_db_ok by (simp add: store_ok_def)
  from listed_entities [OF owner_session this, of 7] show ?thesis by auto
qed

text \<open>\<open>DELETE /entities/:id\<close> never deletes an entity: for an owner it reports success and leaves
  every table but the audit log and the sessions as it was, because the owner's membership row
  still refers to the entity and the failed statement goes unnoticed.\<close>

theorem delete_entity_keeps_it:
  assumes "db_ok d" and "require_session L E req d = (Some uid, d1)"
    and "user_is_owner_of_entity d uid (path_param req ''id'')" and "append_ok E 0"
  shows "fst (handle_delete_entity L E req d) = Inr (Resp 200 (JObj [])) \<and>
    (\<exists>log. snd (handle_delete_entity L E req d) = d1\<lparr>audit_log := audit_log d1 @ log\<rparr>)"
proof -
  let ?e = "path_param req ''id''"
  have same: "memberships d1 = memberships d"
    using data_of_cong(3) [OF require_data [of L E req d]] assms(2) by simp
  then have own: "user_is_owner_of_entity d1 uid ?e"
    using assms(3) by (simp add: user_is_owner_of_entity_def)
  have "db_ok d1" using require_ok [OF assms(1), of L E req] assms(2) by simp
  then have del: "ignoring (delete_entity ?e) d1 = d1" using own by (rule delete_owned_fails)
  have st: "fst (emit_audit_entity L E a b c f g h i d1) = Inr ()" for a b c f g h i
    by (simp add: emit_audit_entity_def assms(4) record_event_stored)
  have "extends_log d1 (snd (emit_audit_entity L E uid ?e ?e ''entity'' ''entity_deleted'' ''success'' (JObj []) d1))"
    by (rule emit_audit_entity_extends)
  then show ?thesis
    by (auto simp: handle_delete_entity_def entity_guard_def path_scope_def assms(2) own del
        and_then_stored st extends_log_def)
qed

theorem delete_entity_keeps_it_witness:
  "fst (handle_delete_entity reference_libs (surroundings 2000 7)
      ((bearer_request 1)\<lparr>path_param := (\<lambda>_. ''e1'')\<rparr>) small_db) = Inr (Resp 200 (JObj []))"
proof (rule delete_entity_keeps_it [THEN conjunct1])
  show "db_ok small_db" using small_db_ok by (simp add: store_ok_def)
  show "require_session reference_libs (surroundings 2000 7) ((bearer_request 1)\<lparr>path_param := (\<lambda>_. ''e1'')\<rparr>) small_db =
      (Some ''u1'', small_db\<lparr>sessions := [touch 2000 (session_of ''u1'' 1 1000)]\<rparr>)"
    using owner_session [of 7] by (simp add: require_session_def extract_bearer_def)
qed (simp_all add: small_db_def user_is_owner_of_entity_def surroundings_def)

section \<open>Transactions\<close>

text \<open>A client that walks the pages: it sends the request, keeps the items of the answer, and while the answer
  has a cursor sends the request again with that string as its \<open>offset\<close>. Each request has its own
  surroundings; \<open>None\<close> is running out of requests, or an answer that is no page.\<close>

fun walk_pages :: "nat \<Rightarrow> third_party \<Rightarrow> (nat \<Rightarrow> env) \<Rightarrow> nat \<Rightarrow> request \<Rightarrow> db \<Rightarrow> (json list \<times> db) option" where
  "walk_pages 0 L E i req d = None"
| "walk_pages (Suc n) L E i req d =
     (case handle_list_transactions L (E i) req d of
        (Inr (Resp code answer), d1) \<Rightarrow>
          if code \<noteq> 200 then None
          else (case (json_at answer ''items'', json_at answer ''next_cursor'') of
              (Some (JArr its), Some JNull) \<Rightarrow> Some (its, d1)
            | (Some (JArr its), Some (JStr cursor)) \<Rightarrow>
                map_option (\<lambda>(rest, d2). (its @ rest, d2))
                  (walk_pages n L E (Suc i) (req\<lparr>query := (query req)(''offset'' \<mapsto> cursor)\<rparr>) d1)
            | _ \<Rightarrow> None)
      | _ \<Rightarrow> None)"

text \<open>A session that is live at a time stays so after it was touched at another.\<close>

lemma require_touched:
  assumes "extract_bearer req = Some tok" "length (base64url_decode L tok) = 32"
    and "sel_by ses_id (session_key L (base64url_decode L tok)) (sessions d) = Some (r\<lparr>ses_seen := t\<rparr>)"
    and "ses_seen r \<le> t" "session_live (clock E 0) r"
  shows "\<exists>d1. require_session L E req d = (Some (c_str (ses_user r)), d1) \<and> data_of d1 = data_of d \<and>
    sel_by ses_id (session_key L (base64url_decode L tok)) (sessions d1) = Some (r\<lparr>ses_seen := clock E 0\<rparr>)"
proof -
  have "session_live (clock E 0) (r\<lparr>ses_seen := t\<rparr>)" using assms(4,5) by (simp add: session_live_def)
  then show ?thesis
    using assms(1-3) by (simp add: require_session_def validate_eq Let_def sel_by_upd_by touch_def)
qed

text \<open>One request of the walk.\<close>

lemma page_answer:
  assumes "require_session L E req d = (Some uid, d1)" and "data_of d1 = data_of d"
    and "get_tx_account_entity_id d (path_param req ''account_id'') = e" "e \<noteq> []" "user_has_access_to_entity d uid e"
  shows "handle_list_transactions L E req d =
    (let its = page (page_limit req) (page_offset req)
           (select_transactions d (path_param req ''account_id'') (parse_qparam_int req ''from'' 0)
              (parse_qparam_int req ''to'' (2 ^ 63 - 1)))
     in (Inr (Resp 200 (JObj [(''items'', JArr (map tx_row_to_json its)),
           (''next_cursor'', next_cursor (page_limit req) (page_offset req) its)])), d1))"
proof -
  have same: "accounts d1 = accounts d" "memberships d1 = memberships d" "transactions d1 = transactions d"
    using data_of_cong [OF assms(2)] by simp_all
  have "lookup_scope ''account_id'' get_tx_account_entity_id req d1 = Some e"
    using assms(3,4) by (simp add: lookup_scope_def get_tx_account_entity_id_def same(1) Let_def)
  moreover have "user_has_access_to_entity d1 uid e"
    using assms(5) by (simp add: user_has_access_to_entity_def same(2))
  ultimately show ?thesis
    unfolding handle_list_transactions_def entity_guard_def assms(1) by (simp add: select_transactions_def same(3) Let_def)
qed

lemma walk_from:
  assumes "extract_bearer req = Some tok" "length (base64url_decode L tok) = 32"
    and "sel_by ses_id (session_key L (base64url_decode L tok)) (sessions d) = Some (r\<lparr>ses_seen := t\<rparr>)"
    and "ses_seen r \<le> t" "\<forall>i. session_live (clock (E i) 0) r \<and> ses_seen r \<le> clock (E i) 0"
    and "get_tx_account_entity_id d (path_param req ''account_id'') = e" "e \<noteq> []"
    and "user_has_access_to_entity d (c_str (ses_user r)) e"
    and "xs = select_transactions d (path_param req ''account_id'') (parse_qparam_int req ''from'' 0)
           (parse_qparam_int req ''to'' (2 ^ 63 - 1))"
    and "int (length xs) < 2 ^ 62" "length xs < n + nat (page_offset req)" "0 < n"
  shows "\<exists>d'. walk_pages n L E i req d = Some (map tx_row_to_json (drop (nat (page_offset req)) xs), d') \<and>
    data_of d' = data_of d"
  using assms(1,3,4,6,8-12)
proof (induction n arbitrary: req d t i)
  case (Suc n)
  note p = Suc.prems
  obtain d1 where s: "require_session L (E i) req d = (Some (c_str (ses_user r)), d1)" "data_of d1 = data_of d"
    "sel_by ses_id (session_key L (base64url_decode L tok)) (sessions d1) = Some (r\<lparr>ses_seen := clock (E i) 0\<rparr>)"
    using require_touched [OF p(1) assms(2) p(2,3), of "E i"] assms(5) by blast
  let ?lim = "page_limit req" and ?off = "page_offset req"
  let ?its = "page ?lim ?off xs"
  have lim: "0 < ?lim" "?lim \<le> 1000" using page_limit_range [of req] by (simp_all add: kMaxLimit_def)
  have off: "0 \<le> ?off" by (rule page_offset_nonneg)
  have a: "handle_list_transactions L (E i) req d =
      (Inr (Resp 200 (JObj [(''items'', JArr (map tx_row_to_json ?its)),
         (''next_cursor'', next_cursor ?lim ?off ?its)])), d1)"
    unfolding page_answer [OF s(1,2) p(4) assms(7) p(5)] p(6) Let_def by (rule refl)
  show ?case
  proof (cases "next_cursor ?lim ?off ?its")
    case JNull
    then have "?its = drop (nat ?off) xs" using next_cursor_null [OF JNull] lim(1) by simp
    with JNull show ?thesis using a s(2) by simp
  next
    case (JStr cursor)
    note c = next_cursor_printed [OF JStr lim(1) off]
    let ?req = "req\<lparr>query := (query req)(''offset'' \<mapsto> cursor)\<rparr>"
    have sum: "in_i64 (?off + ?lim)" "?off + ?lim \<le> int (length xs)"
      using c(2) lim off p(7) by (simp_all add: in_i64_def)
    have next_off: "page_offset ?req = ?off + ?lim"
      using c(1) sum(1) lim off by (simp add: page_offset_def parse_qparam_int_def stoll_to_string Let_def)
    have same: "page_limit ?req = ?lim" "parse_qparam_int ?req ''from'' 0 = parse_qparam_int req ''from'' 0"
      "parse_qparam_int ?req ''to'' (2 ^ 63 - 1) = parse_qparam_int req ''to'' (2 ^ 63 - 1)"
      by (simp_all add: page_limit_def parse_qparam_int_def)
    have data: "accounts d1 = accounts d" "memberships d1 = memberships d" "transactions d1 = transactions d"
      using data_of_cong [OF s(2)] by simp_all
    have "\<exists>d'. walk_pages n L E (Suc i) ?req d1 =
        Some (map tx_row_to_json (drop (nat (page_offset ?req)) xs), d') \<and> data_of d' = data_of d1"
    proof (rule Suc.IH)
      show "sel_by ses_id (session_key L (base64url_decode L tok)) (sessions d1) = Some (r\<lparr>ses_seen := clock (E i) 0\<rparr>)"
        by (rule s(3))
      show "extract_bearer ?req = Some tok" using p(1) by (simp add: extract_bearer_def)
      show "length xs < n + nat (page_offset ?req)"
        using p(8) lim off unfolding next_off by (simp add: nat_add_distrib)
      then show "0 < n" using c(2) lim off unfolding next_off by (simp add: nat_add_distrib)
      show "xs = select_transactions d1 (path_param ?req ''account_id'') (parse_qparam_int ?req ''from'' 0)
          (parse_qparam_int ?req ''to'' (2 ^ 63 - 1))"
        unfolding same p(6) by (simp add: select_transactions_def data)
    qed (use p assms(5) in \<open>simp_all add: get_tx_account_entity_id_def user_has_access_to_entity_def data\<close>)
    then show ?thesis using a s(2) JStr c(3) unfolding next_off by (auto simp: map_append [symmetric] simp del: map_append)
  qed (auto simp: next_cursor_def split: if_splits)
qed simp

text \<open>C9. A client that walks the transactions of an account from the first page, sending each cursor it gets as the
  offset of its next request, gets every transaction of the account in the range exactly once, latest first (those
  of the same second in the one order the query gives them), and ends: after the last page there is no cursor. Its
  session must stay live at the times of all its requests, the user have access to the account, the table hold
  fewer than 2 to the 62 rows, and nobody change the data in between.\<close>

theorem cursors_cover_list:
  assumes "extract_bearer req = Some tok" and "length (base64url_decode L tok) = 32"
    and "sel_by ses_id (session_key L (base64url_decode L tok)) (sessions d) = Some r"
    and "\<forall>i. session_live (clock (E i) 0) r \<and> ses_seen r \<le> clock (E i) 0"
    and "get_tx_account_entity_id d account_id = e" "e \<noteq> []" "user_has_access_to_entity d (c_str (ses_user r)) e"
    and "path_param req ''account_id'' = account_id" and "query req ''offset'' = None"
    and "from = parse_qparam_int req ''from'' 0" "until = parse_qparam_int req ''to'' (2 ^ 63 - 1)"
    and "int (length (transactions d)) < 2 ^ 62" "length (transactions d) < n"
  shows "\<exists>rows d'. walk_pages n L E 0 req d = Some (map tx_row_to_json rows, d') \<and> data_of d' = data_of d \<and>
    mset rows = mset (filter (\<lambda>r. tx_account r = account_id \<and> from \<le> tx_posted r \<and> tx_posted r \<le> until) (transactions d)) \<and>
    sorted_wrt (\<ge>) (map tx_posted rows)"
proof -
  let ?s = "select_transactions d account_id from until"
  have len: "length ?s \<le> length (transactions d)" by (simp add: select_transactions_def)
  have first: "page_offset req = 0" using assms(9) by (simp add: page_offset_def parse_qparam_int_def)
  have "\<exists>d'. walk_pages n L E 0 req d = Some (map tx_row_to_json (drop (nat (page_offset req)) ?s), d') \<and>
      data_of d' = data_of d"
    by (rule walk_from [where t = "ses_seen r" and r = r and e = e])
      (use assms len in \<open>simp_all add: first\<close>)
  moreover have "sorted (map (\<lambda>r. - tx_posted r) ?s)" by (simp add: select_transactions_def)
  then have "sorted_wrt (\<ge>) (map tx_posted ?s)" by (simp add: sorted_wrt_map)
  moreover have "mset ?s = mset (filter (\<lambda>r. tx_account r = account_id \<and> from \<le> tx_posted r \<and> tx_posted r \<le> until) (transactions d))"
    by (simp add: select_transactions_def)
  ultimately show ?thesis unfolding first by auto
qed

text \<open>Three transactions in pages of two.\<close>

definition bought :: "string \<Rightarrow> int \<Rightarrow> tx_row" where
  "bought k t = \<lparr>tx_id = k, tx_account = ''a1'', tx_plaid = None, tx_posted = t, tx_amount = - 350,
     tx_description = Some ''coffee'', tx_category = None, tx_created = t\<rparr>"

definition three_bought :: db where
  "three_bought = small_db\<lparr>transactions := [bought ''t1'' 10, bought ''t2'' 30, bought ''t3'' 20]\<rparr>"

definition pages_of_two :: request where
  "pages_of_two = (bearer_request 1)\<lparr>path_param := (\<lambda>_. ''a1''), query := [''limit'' \<mapsto> ''2'']\<rparr>"

theorem cursors_cover_list_witness:
  "\<exists>rows d'. walk_pages 4 reference_libs (\<lambda>_. surroundings 2000 7) 0 pages_of_two three_bought =
     Some (map tx_row_to_json rows, d') \<and> mset rows = {#bought ''t1'' 10, bought ''t2'' 30, bought ''t3'' 20#}"
proof -
  let ?tok = "bytes_to_hex (replicate 32 (1 :: byte))"
  have bearer: "extract_bearer pages_of_two = Some ?tok"
    using bearer_decodes(1) [of 1] by (simp add: pages_of_two_def extract_bearer_def)
  have row: "sel_by ses_id (session_key reference_libs (base64url_decode reference_libs ?tok)) (sessions three_bought) =
      Some (session_of ''u1'' 1 1000)"
    by (simp add: three_bought_def small_db_def session_of_def)
  have live: "\<forall>i. session_live (clock (surroundings 2000 7) 0) (session_of ''u1'' 1 1000) \<and>
      ses_seen (session_of ''u1'' 1 1000) \<le> clock (surroundings 2000 7) 0"
    by (simp add: session_live_def session_of_def surroundings_def kSessionAbsoluteTimeoutSeconds_def
        kSessionIdleTimeoutSeconds_def)
  have entity: "get_tx_account_entity_id three_bought ''a1'' = ''e1''"
    by (simp add: get_tx_account_entity_id_def text_of_key_def three_bought_def small_db_def account_of_def
        nul_free_def nul_def)
  have access: "user_has_access_to_entity three_bought (c_str (ses_user (session_of ''u1'' 1 1000))) ''e1''"
    by (simp add: user_has_access_to_entity_def three_bought_def small_db_def session_of_def c_str_def nul_def)
  have req: "path_param pages_of_two ''account_id'' = ''a1''" "query pages_of_two ''offset'' = None"
    by (simp_all add: pages_of_two_def)
  have range: "parse_qparam_int pages_of_two ''from'' 0 = 0" "parse_qparam_int pages_of_two ''to'' (2 ^ 63 - 1) = 2 ^ 63 - 1"
    by (simp_all add: parse_qparam_int_def pages_of_two_def)
  have few: "int (length (transactions three_bought)) < 2 ^ 62" "length (transactions three_bought) < 4"
    by (simp_all add: three_bought_def)
  have len: "length (base64url_decode reference_libs ?tok) = 32" by simp
  from cursors_cover_list [OF bearer len row live entity _ access req refl refl few]
  show ?thesis unfolding range by (auto simp: three_bought_def bought_def)
qed

text \<open>A cursor the server printed is read back as the same offset.\<close>

theorem cursor_roundtrip:
  assumes "in_i64 n" and "query req ''offset'' = Some (int_to_string n)"
  shows "parse_qparam_int req ''offset'' fallback = n"
  using assms by (simp add: parse_qparam_int_def stoll_to_string)

theorem cursor_roundtrip_witness:
  "parse_qparam_int (plain_request\<lparr>query := (\<lambda>_. Some (int_to_string 250))\<rparr>) ''offset'' 0 = 250"
  by (rule cursor_roundtrip) (simp_all add: in_i64_def)

text \<open>A created transaction is never audited as such: the payload carries the account's id, whose 32
  hex digits the sanitizer takes for a token, so the log gets a rejection record instead.\<close>

theorem created_transaction_audit_rejected:
  assumes "set account_id \<subseteq> set hex_digits" and "32 \<le> length account_id"
  shows "\<exists>rows. audit_log (snd (emit_audit_tx L E uid entity_id tx ''transaction_created'' ''success''
       (JObj [(''account_id'', JStr account_id), (''amount_cents'', JInt n)]) d)) = audit_log d @ rows \<and>
     (\<forall>r \<in> set rows. aud_action r = ''audit_record_rejected'' \<and> aud_outcome r = ''failure'')"
proof -
  have "looks_like_token account_id" using assms by (simp add: looks_like_token_hex)
  then have "\<not> clean (JObj [(''account_id'', JStr account_id), (''amount_cents'', JInt n)])"
    by (simp add: clean_def)
  then have "sanitize L (JObj [(''account_id'', JStr account_id), (''amount_cents'', JInt n)]) \<noteq> None"
    by (simp add: sanitize_iff del: sanitize.simps)
  then show ?thesis
    by (auto simp: emit_audit_tx_def record_event_cases append_locked_eq rejection_of_def row_of_event_def
        simp del: sanitize.simps)
qed

theorem created_transaction_audit_rejected_witness:
  "\<exists>rows. audit_log (snd (emit_audit_tx reference_libs (surroundings 9 9) ''u1'' ''e1'' ''t1''
       ''transaction_created'' ''success''
       (JObj [(''account_id'', JStr (replicate 32 (CHR ''a''))), (''amount_cents'', JInt 5)]) small_db)) =
       audit_log small_db @ rows \<and>
     (\<forall>r \<in> set rows. aud_action r = ''audit_record_rejected'' \<and> aud_outcome r = ''failure'')"
  by (rule created_transaction_audit_rejected) (simp_all add: hex_digits_def)

end
