(* ===== verification/Plaid_Properties.thy ===== *)
theory Plaid_Properties
  imports Reference_Instance
begin

text \<open>
  What the bank link promises: who can link an account, that a link token works once, that the
  stored access token is the bank's, that syncing is idempotent and leaves a record for every
  account, how the worker paces itself, and what the read-only v3 routes find.
\<close>

section \<open>A bank to link with\<close>

text \<open>
  A bank that exchanges every public token for the access token "tok" and has no news, and the first
  user of the small database on the way to link the account a1.
\<close>

definition reference_world :: plaid_world where
  "reference_world =
     \<lparr>pw_client = \<lparr>http_client = Some (\<lambda>_. Some \<lparr>rs_status = 200, rs_headers = [], rs_body = []\<rparr>),
        client_id = ''id'', plaid_secret = ''s'', plaid_env = ''sandbox''\<rparr>,
      pw_parse = (\<lambda>_. Some (JObj [(''access_token'', JStr ''tok''), (''next_cursor'', JStr ''c1'')])),
      pw_crypto = clear_libs, pw_dek = replicate 32 3, pw_nonce = replicate 24 9,
      pw_insert_ok = (\<lambda>_. True), pw_update_ok = True\<rparr>"

definition linking_db :: db where
  "linking_db = small_db\<lparr>pending_links := [\<lparr>lnk_hash = link_hash reference_libs ''lt'', lnk_account = ''a1'',
     lnk_user = ''u1'', lnk_expires = 5000\<rparr>]\<rparr>"

definition link_request :: request where
  "link_request = plain_request\<lparr>path_param := (\<lambda>_. ''a1''),
     body := Some (JObj [(''link_token'', JStr ''lt''), (''public_token'', JStr ''pt'')])\<rparr>"

definition linked_db :: db where
  "linked_db = snd (handle_link_plaid reference_libs (surroundings 2000 7) reference_world link_request linking_db)"

lemma link_resolves: "resolve_pending_link reference_libs 2000 ''lt'' ''a1'' linking_db = (Some ''u1'', linking_db)"
  by (simp add: resolve_pending_link_def linking_db_def small_db_def empty_db_def nul_free_def nul_def Let_def)

lemma link_principal_u1:
  "link_principal reference_libs (surroundings 2000 7) link_request
     (JObj [(''link_token'', JStr ''lt''), (''public_token'', JStr ''pt'')]) linking_db =
   ((Some ''u1'', True), linking_db)"
  using link_resolves
  by (simp add: link_principal_def opt_string_def surroundings_def link_request_def)

lemma link_scope: "get_account_entity_id linking_db ''a1'' = ''e1''"
  "user_has_access_to_entity linking_db ''u1'' ''e1''"
  by (simp_all add: get_account_entity_id_def text_of_key_def linking_db_def small_db_def account_of_def
      nul_free_def nul_def user_has_access_to_entity_def)

lemma exchanged: "item_public_token_exchange L (pw_parse reference_world) (pw_client reference_world) pt = Inr (Some ''tok'')"
  by (simp add: item_public_token_exchange_def reference_world_def plaid_post_def with_reply_def value_or_def
      as_string_def)

lemma stored: "fst (store_token (pw_crypto reference_world) (pw_dek reference_world) (pw_nonce reference_world)
    (pw_update_ok reference_world) a tok d) = Inr ()"
  by (simp add: store_token_def reference_world_def encrypt_def clear_libs_def)

lemma link_runs: "handle_link_plaid reference_libs (surroundings 2000 7) reference_world link_request linking_db =
    finish_link reference_libs reference_world ''a1''
      (JObj [(''link_token'', JStr ''lt''), (''public_token'', JStr ''pt'')]) ''pt'' True linking_db"
  using link_principal_u1 link_scope by (simp add: handle_link_plaid_def link_request_def at_string_def)

lemma link_succeeds: "fst (handle_link_plaid reference_libs (surroundings 2000 7) reference_world link_request linking_db) =
    Inr (Resp 200 (JObj [(''success'', JBool True)]))"
proof -
  have "fst (finish_link L reference_world a j pt used d) = Inr (Resp 200 (JObj [(''success'', JBool True)]))" for L a j pt used d
    using stored [of a "''tok''" d]
    by (cases "store_token (pw_crypto reference_world) (pw_dek reference_world) (pw_nonce reference_world)
      (pw_update_ok reference_world) a ''tok'' d") (simp add: finish_link_def exchanged Let_def)
  then show ?thesis unfolding link_runs .
qed

lemma link_changes: "accounts linked_db \<noteq> accounts linking_db"
proof -
  obtain blob where "snd (store_token (pw_crypto reference_world) (pw_dek reference_world) (pw_nonce reference_world)
      (pw_update_ok reference_world) ''a1'' ''tok'' linking_db) =
    linking_db\<lparr>accounts := upd_by acc_id ''a1'' (\<lambda>r. r\<lparr>acc_token := Some blob, acc_linked := 1\<rparr>) (accounts linking_db)\<rparr>"
    by (simp add: store_token_def reference_world_def encrypt_def clear_libs_def)
  then have "accounts linked_db = accounts (set_linked ''a1'' [] (linking_db\<lparr>accounts :=
      upd_by acc_id ''a1'' (\<lambda>r. r\<lparr>acc_token := Some blob, acc_linked := 1\<rparr>) (accounts linking_db)\<rparr>))"
    using stored [of "''a1''" "''tok''" linking_db]
    unfolding linked_db_def link_runs
    by (simp add: finish_link_def exchanged Let_def split_def sum.case_eq_if consume_pending_link_def opt_string_def)
  then show ?thesis
    by (simp add: set_linked_def upd_by_def linking_db_def small_db_def account_of_def)
qed

section \<open>Linking\<close>

text \<open>C12. Only a member of an account's entity links it: when a request to finish a link changes any account,
  it came from a user with access to the account's entity, who has a valid session or began the link
  of this very account, with the link token the request carries, and it has not expired.\<close>

theorem link_authorization:
  assumes "accounts (snd (handle_link_plaid L E W req d)) \<noteq> accounts d"
  shows "\<exists>uid. user_has_access_to_entity d uid (get_account_entity_id d (path_param req ''id'')) \<and>
    (fst (require_session L E req d) = Some uid \<or>
     (\<exists>j tok. body req = Some j \<and> opt_string j ''link_token'' = Some tok \<and>
        link_authorizes L (clock E 1) tok (path_param req ''id'') uid d))"
proof (rule handle_link_plaidE [of L E W req d])
  fix j public_token uid used d1
  assume p: "body req = Some j" "link_principal L E req j d = ((Some uid, used), d1)"
    "user_has_access_to_entity d1 uid (get_account_entity_id d1 (path_param req ''id''))"
  note q = link_principal_Some [OF p(2)]
  then have "user_has_access_to_entity d uid (get_account_entity_id d (path_param req ''id''))"
    using p(3) by (simp add: user_has_access_to_entity_def get_account_entity_id_def)
  with p(1) q show ?thesis by (cases used) auto
qed (use assms in simp)

theorem link_authorization_witness:
  "\<exists>uid. user_has_access_to_entity linking_db uid (get_account_entity_id linking_db ''a1'') \<and>
    (fst (require_session reference_libs (surroundings 2000 7) link_request linking_db) = Some uid \<or>
     (\<exists>j tok. body link_request = Some j \<and> opt_string j ''link_token'' = Some tok \<and>
        link_authorizes reference_libs 2000 tok ''a1'' uid linking_db))"
  using link_authorization [of reference_libs "surroundings 2000 7" reference_world link_request linking_db]
    link_changes
  by (simp add: linked_db_def link_request_def surroundings_def)

text \<open>C17. A non-empty link token is good for one link: once a request that was authenticated by its link token has been
  answered with success, that token resolves to nobody, for any account at any time. (The empty token is the
  exception: the server does not delete it after a link.)\<close>

theorem link_token_single_use:
  assumes "fst (handle_link_plaid L E W req d) = Inr (Resp 200 c)"
    and "body req = Some j" "opt_string j ''link_token'' = Some tok" "tok \<noteq> []"
    and "fst (resolve_pending_link L (clock E 1) tok (path_param req ''id'') d) \<noteq> None"
  shows "fst (resolve_pending_link L now tok a (snd (handle_link_plaid L E W req d))) = None"
proof (rule handle_link_plaidE [of L E W req d])
  fix j' public_token uid used d1
  assume p: "body req = Some j'" "link_principal L E req j' d = ((Some uid, used), d1)"
    and h: "handle_link_plaid L E W req d = finish_link L W (path_param req ''id'') j' public_token used d1"
  have j: "j' = j" using p(1) assms(2) by simp
  obtain u where "fst (resolve_pending_link L (clock E 1) tok (path_param req ''id'') d) = Some u"
    using assms(5) by blast
  then have used
    using p(2) assms(3) by (auto simp: link_principal_def Let_def j split: prod.splits)
  moreover have "fst (finish_link L W (path_param req ''id'') j public_token used d1) = Inr (Resp 200 c)"
    using assms(1) by (simp add: h j)
  ultimately have "list_all (\<lambda>r. lnk_hash r \<noteq> link_hash L tok)
      (pending_links (snd (finish_link L W (path_param req ''id'') j public_token used d1)))"
    using assms(3,4) by (metis finish_200)
  then show ?thesis unfolding h j by (rule resolve_absent)
qed (use assms(1) in auto)

theorem link_token_single_use_witness:
  "fst (resolve_pending_link reference_libs 2001 ''lt'' ''a1'' linked_db) = None"
  unfolding linked_db_def
  by (rule link_token_single_use [OF link_succeeds,
      where j = "JObj [(''link_token'', JStr ''lt''), (''public_token'', JStr ''pt'')]"])
     (simp_all add: link_request_def opt_string_def surroundings_def link_resolves)

text \<open>C18. What a link stores is the bank's token: after a successful link, whoever asks the broker for the
  account's token gets the access token the bank exchanged the public token for.\<close>

theorem linked_token_decrypts:
  assumes "fst (handle_link_plaid L E W req d) = Inr (Resp 200 c)"
    and "aead_spec (pw_crypto W)" "length (pw_dek W) = 32" "length (pw_nonce W) = 24"
  shows "\<exists>j public_token access_token. body req = Some j \<and> at_string j ''public_token'' = Some public_token \<and>
    item_public_token_exchange L (pw_parse W) (pw_client W) public_token = Inr (Some access_token) \<and>
    with_decrypted_token (pw_crypto W) (pw_dek W) (path_param req ''id'') on_token on_no_token
      (snd (handle_link_plaid L E W req d)) =
    on_token access_token (snd (handle_link_plaid L E W req d))"
proof (rule handle_link_plaidE [of L E W req d])
  fix j public_token uid used d1
  assume p: "body req = Some j" "at_string j ''public_token'' = Some public_token"
    "get_account_entity_id d1 (path_param req ''id'') \<noteq> []"
    and h: "handle_link_plaid L E W req d = finish_link L W (path_param req ''id'') j public_token used d1"
  obtain r where r: "sel_by acc_id (path_param req ''id'') (accounts d1) = Some r"
    using p(3) by (auto simp: get_account_entity_id_def text_of_key_def split: option.splits)
  obtain tok d2 where t: "item_public_token_exchange L (pw_parse W) (pw_client W) public_token = Inr (Some tok)"
    "store_token (pw_crypto W) (pw_dek W) (pw_nonce W) (pw_update_ok W) (path_param req ''id'') tok d1 = (Inr (), d2)"
    "accounts (snd (handle_link_plaid L E W req d)) = accounts (set_linked (path_param req ''id'')
       (case opt_string j ''institution_name'' of None \<Rightarrow> [] | Some n \<Rightarrow> n) d2)"
    using assms(1) unfolding h by (rule finish_200)
  from linked_token [OF t(2) assms(2-4) r t(3)] p t(1) show ?thesis by blast
qed (use assms(1) in auto)

theorem linked_token_decrypts_witness:
  "\<exists>j public_token access_token. body link_request = Some j \<and> at_string j ''public_token'' = Some public_token \<and>
    item_public_token_exchange reference_libs (pw_parse reference_world) (pw_client reference_world) public_token =
      Inr (Some access_token) \<and>
    with_decrypted_token (pw_crypto reference_world) (pw_dek reference_world) (path_param link_request ''id'')
      (\<lambda>t d. (Inr t, d)) (\<lambda>d. (Inl ''none'', d)) linked_db = (Inr access_token, linked_db)"
  unfolding linked_db_def
  by (rule linked_token_decrypts [OF link_succeeds, where on_token = "\<lambda>t d. (Inr t, d)"])
     (simp_all add: reference_world_def)

section \<open>Syncing\<close>

text \<open>C19. Syncing is idempotent: when the same page of added transactions arrives again, all of it is
  counted again and no row of any table changes, whatever the page repeats and whatever time has passed.\<close>

theorem resync_idempotent:
  assumes "a \<in> acc_id ` set (accounts d)"
    and "add_transactions L E (\<lambda>_. True) 0 a ts (0, d) = (n, d')"
  shows "add_transactions L E' (\<lambda>_. True) 0 a ts (0, d') = (n, d')"
proof -
  from assms have d': "n = int (length ts)" "d' = d\<lparr>transactions := add_rows L E 0 a ts (transactions d)\<rparr>"
    by (simp_all add: add_transactions_done)
  then show ?thesis using assms(1) by (simp add: add_transactions_done add_rows_twice)
qed

text \<open>A page that names a transaction twice.\<close>

definition repeated_page :: "plaid_transaction list" where
  "repeated_page =
     [\<lparr>ptx_id = ''p1'', ptx_account = ''x'', ptx_cents = 5, ptx_date = 0, ptx_name = ''Shop'', ptx_category = []\<rparr>,
      \<lparr>ptx_id = ''p1'', ptx_account = ''x'', ptx_cents = 7, ptx_date = 0, ptx_name = [], ptx_category = []\<rparr>]"

lemma a1_exists: "''a1'' \<in> acc_id ` set (accounts small_db)"
  by (simp add: small_db_def account_of_def)

theorem resync_idempotent_witness:
  "add_transactions reference_libs (surroundings 9000 2) (\<lambda>_. True) 0 ''a1'' repeated_page
     (0, small_db\<lparr>transactions := add_rows reference_libs (surroundings 2000 1) 0 ''a1'' repeated_page
        (transactions small_db)\<rparr>) =
   (2, small_db\<lparr>transactions := add_rows reference_libs (surroundings 2000 1) 0 ''a1'' repeated_page
        (transactions small_db)\<rparr>)"
  by (rule resync_idempotent [OF a1_exists, where E = "surroundings 2000 1"])
     (simp only: add_transactions_done [OF a1_exists], simp add: repeated_page_def)

text \<open>C20. A pass over the linked accounts leaves at most one audit record for each of them, in their order, by the
  worker, and nothing else, whatever fails on the way: an account that is unlinked, a blob that does not
  decrypt, an answer that cannot be parsed and a call that is refused stop no other account. For an account
  whose log entries SQLite can write it leaves exactly one (the record that stands for a rejected payload being
  short enough, which it is unless the serialiser is broken).\<close>

theorem one_record_per_account:
  "\<exists>rss. audit_log (sync_all_accounts L E W d) = audit_log d @ concat rss \<and>
     list_all2 (\<lambda>(i, a) rows. length rows \<le> 1 \<and>
         (append_ok (E i) 0 \<and> append_ok (E i) 1 \<and> rejection_fits L \<longrightarrow> length rows = 1) \<and>
         list_all (\<lambda>r. aud_subject r = bind_text a \<and> aud_actor_kind r = ''sync_worker'') rows)
       (enumerate 0 (linked_accounts d)) rss"
  using sync_each_logged [of L E W 0 "linked_accounts d" d]
  unfolding sync_all_accounts_def records_def by simp

lemma reference_rejection [simp]: "rejection_fits reference_libs"
  by (simp add: rejection_fits_def reference_libs_def MAX_TOTAL_BYTES_def)

definition two_linked_db :: db where
  "two_linked_db = small_db\<lparr>accounts := map (\<lambda>r. r\<lparr>acc_linked := 1\<rparr>) (accounts small_db)\<rparr>"

theorem one_record_per_account_witness:
  "map aud_subject (audit_log (sync_all_accounts reference_libs (\<lambda>_. surroundings 2000 1) (\<lambda>_. reference_world)
     two_linked_db)) = [Some ''a1'', Some ''a2'']"
proof -
  have ok: "append_ok (surroundings 2000 1) n" for n by (simp add: surroundings_def)
  have ids: "linked_accounts two_linked_db = [''a1'', ''a2'']"
    by (simp add: two_linked_db_def small_db_def linked_accounts_def account_of_def nul_free_def nul_def)
  have bound: "bind_text ''a1'' = Some ''a1''" "bind_text ''a2'' = Some ''a2''" by (simp_all add: bind_text_def)
  have empty: "audit_log two_linked_db = []" by (simp add: two_linked_db_def small_db_def empty_db_def)
  show ?thesis
    using one_record_per_account [of reference_libs "\<lambda>_. surroundings 2000 1" "\<lambda>_. reference_world" two_linked_db]
    unfolding ids empty by (auto simp: ok list_all2_Cons1 list_all_iff bound length_Suc_conv)
qed

text \<open>The cursor runs ahead of the table: when SQLite completes none of the insertions of a page, no
  transaction is added, and yet the cursor moves past the page, so that no later sync asks for it again.\<close>

theorem cursor_passes_failed_inserts:
  assumes "pw_insert_ok W = (\<lambda>_. False)" "tl_cursor rep \<noteq> []" "nul_free (tl_cursor rep)"
  shows "get_cursor a (snd (apply_reply L E W a rep d)) = Some (tl_cursor rep) \<and>
    tx_id ` set (transactions (snd (apply_reply L E W a rep d))) \<subseteq> tx_id ` set (transactions d)"
  using apply_reply_failed [OF assms] by blast

definition lost_page :: transaction_list where
  "lost_page = \<lparr>tl_added = repeated_page, tl_modified = [], tl_removed = [], tl_cursor = ''c2'', tl_more = False,
     tl_accounts = []\<rparr>"

theorem cursor_passes_failed_inserts_witness:
  "get_cursor ''a1'' (snd (apply_reply reference_libs (surroundings 2000 1)
      (reference_world\<lparr>pw_insert_ok := (\<lambda>_. False)\<rparr>) ''a1'' lost_page small_db)) = Some ''c2'' \<and>
   tx_id ` set (transactions (snd (apply_reply reference_libs (surroundings 2000 1)
      (reference_world\<lparr>pw_insert_ok := (\<lambda>_. False)\<rparr>) ''a1'' lost_page small_db))) \<subseteq> tx_id ` set (transactions small_db)"
  using cursor_passes_failed_inserts [of "reference_world\<lparr>pw_insert_ok := (\<lambda>_. False)\<rparr>" lost_page "''a1''"
      reference_libs "surroundings 2000 1" small_db]
  by (simp add: lost_page_def nul_free_def nul_def)

text \<open>C21. The worker sleeps a whole interval before every pass, and returns at the first reading of the stop
  flag that is set, having slept at most one second since the reading before.\<close>

theorem worker_paces_and_stops:
  assumes "\<And>i. i < k \<Longrightarrow> \<not> stop i" "stop k" "k < fuel"
  shows "worker_thread fuel stop interval =
    Some (take k (replicate (nat interval) Sleep @
      concat (replicate k (Sync_pass # replicate (nat interval) Sleep))))"
  using worker_wait_schedule [of k stop 0 fuel "nat interval" "nat interval"] assms
  by (simp add: worker_thread_def schedule_periodic)

theorem worker_paces_and_stops_witness:
  "worker_thread 6 (\<lambda>i. i = 5) 2 = Some [Sleep, Sleep, Sync_pass, Sleep, Sleep]"
  using worker_paces_and_stops [of 5 "\<lambda>i. i = 5" 6 2] by (simp add: numeral_eq_Suc)

section \<open>The v3 routes\<close>

text \<open>A slug is lower-case letters and digits in runs separated by single dashes, with none at either
  end, and the slug of a slug is itself.\<close>

theorem slug_normal_form: "slug_form False (slug s) \<and> slug (slug s) = slug s"
  by (rule slug_idem)

text \<open>The lookup of a relationship that no row matches exactly answers the first row with the best
  score, and 404 when every row scores nothing.\<close>

theorem relationship_best_match:
  assumes "require_session L E req d = (Some uid, d1)"
    and "exact_relationship (path_param req ''id'') (relationships d1) = None"
  shows "fst (handle_get_relationship L E req d) =
    Inr (case first_best (path_param req ''id'') (relationships d1) of
           None \<Rightarrow> err 404 ''not_found''
         | Some r \<Rightarrow> Resp 200 (relationship_row_to_json r))"
proof -
  obtain b m where bm: "best_match (path_param req ''id'') None 0 (relationships d1) = (b, m)" by fastforce
  note b = best_match_first [OF bm]
  show ?thesis
  proof (cases b)
    case None
    then have "first_best (path_param req ''id'') (relationships d1) = None" using b by simp
    then show ?thesis using assms bm None by (simp add: handle_get_relationship_def reading_def Let_def)
  next
    case (Some r)
    then have "first_best (path_param req ''id'') (relationships d1) = Some r" "0 < m" using b by simp_all
    then show ?thesis using assms bm Some by (simp add: handle_get_relationship_def reading_def Let_def)
  qed
qed

definition contacts_db :: db where
  "contacts_db = small_db\<lparr>relationships :=
     [\<lparr>rel_id = ''r1'', rel_name = ''Ann Lee'', rel_kind = ''pro'', rel_email = None, rel_phone = None,
       rel_contact = None, rel_notes = [], rel_created = 0, rel_updated = 0\<rparr>]\<rparr>"

lemma contacts_session: "require_session reference_libs (surroundings 2000 7) ((bearer_request 1)\<lparr>path_param := (\<lambda>_. ''lee'')\<rparr>) contacts_db =
    (Some ''u1'', contacts_db\<lparr>sessions := [touch 2000 (session_of ''u1'' 1 1000)]\<rparr>)"
proof -
  have "require_session L E (req\<lparr>path_param := f\<rparr>) d = require_session L E req d" for L E req f d
    by (simp add: require_session_def extract_bearer_def)
  then show ?thesis
    by (simp add: contacts_db_def require_session_def validate_and_touch_session_def surroundings_def Let_def
      small_db_def session_of_def kSessionAbsoluteTimeoutSeconds_def kSessionIdleTimeoutSeconds_def
      upd_by_def nul_free_def nul_def)
qed

theorem relationship_best_match_witness:
  "fst (handle_get_relationship reference_libs (surroundings 2000 7) ((bearer_request 1)\<lparr>path_param := (\<lambda>_. ''lee'')\<rparr>) contacts_db) =
   Inr (Resp 200 (relationship_row_to_json (hd (relationships contacts_db))))"
proof -
  have "exact_relationship ''lee'' (relationships contacts_db) = None"
    "first_best ''lee'' (relationships contacts_db) = Some (hd (relationships contacts_db))"
    by (code_simp, code_simp)
  then show ?thesis
    using relationship_best_match [OF contacts_session] by simp
qed

end
