(* ===== verification/Migrations_Model.thy ===== *)
theory Migrations_Model
  imports Greylock_Prelude "HOL-Library.Multiset"
begin

text \<open>
  The schema and its migrations (\<open>server/db/Migrations.cpp\<close>, \<open>Migrations.h\<close> and
  \<open>open_db_with_migrations\<close> of \<open>server/main.cpp\<close>).  A migration is the list of the DDL statements
  its \<open>up\<close> function executes; \<open>exec_ddl\<close> is SQLite on the statement forms the code uses, failing
  where SQLite does.  \<open>schema\<close> is what the catalogue holds, \<open>sch_applied\<close> the rows of
  \<open>schema_migrations\<close> (\<open>None\<close> before that table exists).

  The lemmas show that the registered list is sorted and does not depend on the order of
  registration, that an upgrade can be cut into steps or interrupted by a failure and resumed,
  that running it again changes nothing, and that the nine migrations of the program run on an
  empty file and leave a catalogue without dangling references.
\<close>

section \<open>Statements\<close>

datatype sql_type = Text | Integer | Blob

datatype sql_value = Text_Value string | Int_Value int

datatype col_flag = Primary_Key | Autoincrement | Not_Null | Unique | Default sql_value | Check_In "string list"

type_synonym column = "string \<times> sql_type \<times> col_flag list"

datatype table_constraint = Table_Key "string list" | Foreign_Key string string string

datatype where_clause = Equals string string | Is_Null string | Is_Not_Null string

datatype ddl =
    Create_Table string "column list" "table_constraint list"
  | Create_Index string string "string list" "where_clause option"
  | Add_Column string column

record table_def =
  tab_name :: string
  tab_cols :: "column list"
  tab_cons :: "table_constraint list"

record index_def =
  idx_name :: string
  idx_table :: string
  idx_cols :: "string list"
  idx_where :: "where_clause option"

record migration_row =
  mig_version :: int
  mig_name :: string
  mig_at :: int

record schema =
  sch_tables :: "table_def list"
  sch_indexes :: "index_def list"
  sch_applied :: "migration_row list option"

definition empty_schema :: schema where
  "empty_schema = \<lparr>sch_tables = [], sch_indexes = [], sch_applied = None\<rparr>"

definition object_names :: "schema \<Rightarrow> string list" where
  "object_names d = map tab_name (sch_tables d) @ map idx_name (sch_indexes d)"

definition column_names :: "table_def \<Rightarrow> string list" where
  "column_names t = map fst (tab_cols t)"

definition has_default :: "column \<Rightarrow> bool" where
  "has_default c \<longleftrightarrow> list_ex (\<lambda>f. case f of Default _ \<Rightarrow> True | _ \<Rightarrow> False) (snd (snd c))"

text \<open>
  The errors of \<open>sqlite3_exec\<close>: a name that is taken, a table or column that is not there, a column
  added twice, and a \<open>NOT NULL\<close> column added without a default.
\<close>

fun exec_ddl :: "ddl \<Rightarrow> schema \<Rightarrow> string + schema" where
  "exec_ddl (Create_Table t cols cons) d =
     (if t \<in> set (object_names d) then Inl ''Database::exec failed: table already exists''
      else Inr (d\<lparr>sch_tables := sch_tables d @ [\<lparr>tab_name = t, tab_cols = cols, tab_cons = cons\<rparr>]\<rparr>))"
| "exec_ddl (Create_Index i t cols cond) d =
     (if i \<in> set (object_names d) then Inl ''Database::exec failed: index already exists''
      else (case sel_by tab_name t (sch_tables d) of
              None \<Rightarrow> Inl ''Database::exec failed: no such table''
            | Some tab \<Rightarrow>
                if \<not> set cols \<subseteq> set (column_names tab) then Inl ''Database::exec failed: no such column''
                else Inr (d\<lparr>sch_indexes := sch_indexes d @
                       [\<lparr>idx_name = i, idx_table = t, idx_cols = cols, idx_where = cond\<rparr>]\<rparr>)))"
| "exec_ddl (Add_Column t c) d =
     (case sel_by tab_name t (sch_tables d) of
        None \<Rightarrow> Inl ''Database::exec failed: no such table''
      | Some tab \<Rightarrow>
          if fst c \<in> set (column_names tab) then Inl ''Database::exec failed: duplicate column name''
          else if Not_Null \<in> set (snd (snd c)) \<and> \<not> has_default c
          then Inl ''Database::exec failed: Cannot add a NOT NULL column with default value NULL''
          else Inr (d\<lparr>sch_tables := upd_by tab_name t (\<lambda>tab. tab\<lparr>tab_cols := tab_cols tab @ [c]\<rparr>) (sch_tables d)\<rparr>))"

text \<open>An \<open>up\<close> function: one \<open>db.exec\<close> after the other, the first that throws ends it.\<close>

fun exec_all_ddl :: "ddl list \<Rightarrow> schema \<Rightarrow> string + schema" where
  "exec_all_ddl [] d = Inr d"
| "exec_all_ddl (s # ss) d = (case exec_ddl s d of Inl what \<Rightarrow> Inl what | Inr d' \<Rightarrow> exec_all_ddl ss d')"

section \<open>The runner\<close>

record migration =
  version :: int
  mname :: string
  up :: "ddl list"

definition ensure_migrations_table :: "schema \<Rightarrow> schema" where
  "ensure_migrations_table d =
     (case sch_applied d of None \<Rightarrow> d\<lparr>sch_applied := Some []\<rparr> | Some _ \<Rightarrow> d)"

definition register_migration :: "migration \<Rightarrow> migration list \<Rightarrow> string + migration list" where
  "register_migration m migrations =
     (if version m \<in> set (map version migrations)
      then Inl (''Migrations::register_migration: duplicate version '' @ int_to_string (version m))
      else Inr (sort_key version (migrations @ [m])))"

text \<open>\<open>SELECT COALESCE(MAX(version), 0)\<close>.\<close>

definition max_version :: "migration_row list \<Rightarrow> int" where
  "max_version rows = (case rows of [] \<Rightarrow> 0 | r # rs \<Rightarrow> fold max (map mig_version rs) (mig_version r))"

definition applied_rows :: "schema \<Rightarrow> migration_row list" where
  "applied_rows d = (case sch_applied d of None \<Rightarrow> [] | Some rows \<Rightarrow> rows)"

definition current_version :: "schema \<Rightarrow> int \<times> schema" where
  "current_version d =
     (let d' = ensure_migrations_table d in (max_version (applied_rows d'), d'))"

text \<open>
  One migration inside its transaction: on any failure the transaction is rolled back, which
  restores the catalogue, and the exception leaves \<open>apply_pending\<close>.  \<open>now v\<close> is the clock when
  version \<open>v\<close> is recorded.
\<close>

definition run_migration :: "(int \<Rightarrow> int) \<Rightarrow> migration \<Rightarrow> schema \<Rightarrow> string + schema" where
  "run_migration now m d =
     (case exec_all_ddl (up m) d of
        Inl what \<Rightarrow> Inl what
      | Inr d' \<Rightarrow>
          (case ins_by mig_version \<lparr>mig_version = version m, mig_name = mname m, mig_at = now (version m)\<rparr>
                  (applied_rows d') of
             None \<Rightarrow> Inl (''Migrations::apply_pending: INSERT into schema_migrations failed for version '' @
                         int_to_string (version m))
           | Some rows \<Rightarrow> Inr (d'\<lparr>sch_applied := Some rows\<rparr>)))"

fun apply_from :: "(int \<Rightarrow> int) \<Rightarrow> int \<Rightarrow> migration list \<Rightarrow> schema \<Rightarrow> (string + unit) \<times> schema" where
  "apply_from now current [] d = (Inr (), d)"
| "apply_from now current (m # ms) d =
     (if version m \<le> current then apply_from now current ms d
      else (case run_migration now m d of
              Inl what \<Rightarrow> (Inl what, d)
            | Inr d' \<Rightarrow> apply_from now current ms d'))"

definition apply_pending :: "(int \<Rightarrow> int) \<Rightarrow> migration list \<Rightarrow> schema \<Rightarrow> (string + unit) \<times> schema" where
  "apply_pending now migrations d =
     (let (current, d') = current_version (ensure_migrations_table d)
      in apply_from now current migrations d')"

section \<open>The migrations of the program\<close>

definition M001_initial_schema_up :: "ddl list" where
  "M001_initial_schema_up =
     [Create_Table ''users''
        [(''id'', Text, [Primary_Key]),
         (''email'', Text, [Not_Null, Unique]),
         (''created_at_unix'', Integer, [Not_Null]),
         (''passphrase_hash'', Blob, [Not_Null]),
         (''totp_secret'', Blob, [])]
        [],
      Create_Table ''entities''
        [(''id'', Text, [Primary_Key]),
         (''name'', Text, [Not_Null]),
         (''kind'', Text, [Not_Null, Check_In [''Individual'', ''LLC'', ''Corporation'', ''Partnership'', ''Trust'', ''Other'']]),
         (''created_at_unix'', Integer, [Not_Null])]
        [],
      Create_Table ''entity_memberships''
        [(''user_id'', Text, [Not_Null]),
         (''entity_id'', Text, [Not_Null]),
         (''role'', Text, [Not_Null])]
        [Table_Key [''user_id'', ''entity_id''],
         Foreign_Key ''user_id'' ''users'' ''id'',
         Foreign_Key ''entity_id'' ''entities'' ''id''],
      Create_Table ''accounts''
        [(''id'', Text, [Primary_Key]),
         (''entity_id'', Text, [Not_Null]),
         (''name'', Text, [Not_Null]),
         (''kind'', Text, [Not_Null]),
         (''balance_cents'', Integer, [Not_Null, Default (Int_Value 0)]),
         (''plaid_item_id'', Text, []),
         (''plaid_account_id'', Text, []),
         (''encrypted_token'', Blob, []),
         (''is_plaid_linked'', Integer, [Not_Null, Default (Int_Value 0)]),
         (''created_at_unix'', Integer, [Not_Null])]
        [Foreign_Key ''entity_id'' ''entities'' ''id''],
      Create_Table ''transactions''
        [(''id'', Text, [Primary_Key]),
         (''account_id'', Text, [Not_Null]),
         (''plaid_transaction_id'', Text, []),
         (''posted_at_unix'', Integer, [Not_Null]),
         (''amount_cents'', Integer, [Not_Null]),
         (''description_encrypted'', Blob, []),
         (''category'', Text, []),
         (''created_at_unix'', Integer, [Not_Null])]
        [Foreign_Key ''account_id'' ''accounts'' ''id''],
      Create_Index ''idx_transactions_account_posted'' ''transactions'' [''account_id'', ''posted_at_unix''] None,
      Create_Table ''audit_log''
        [(''seq'', Integer, [Primary_Key, Autoincrement]),
         (''ts_unix_nanos'', Integer, [Not_Null]),
         (''actor_user_id'', Text, []),
         (''actor_kind'', Text, [Not_Null]),
         (''domain'', Text, []),
         (''subject_id'', Text, []),
         (''subject_kind'', Text, []),
         (''action'', Text, [Not_Null]),
         (''outcome'', Text, [Not_Null]),
         (''details_json'', Blob, []),
         (''prev_hash'', Blob, [Not_Null]),
         (''entry_hash'', Blob, [Not_Null])]
        [],
      Create_Table ''sessions''
        [(''id'', Text, [Primary_Key]),
         (''user_id'', Text, [Not_Null]),
         (''created_at_unix'', Integer, [Not_Null]),
         (''last_seen_unix'', Integer, [Not_Null]),
         (''expires_at_unix'', Integer, [Not_Null]),
         (''revoked'', Integer, [Not_Null, Default (Int_Value 0)])]
        [Foreign_Key ''user_id'' ''users'' ''id''],
      Create_Table ''enrollment_tokens''
        [(''token_hash'', Blob, [Primary_Key]),
         (''email'', Text, [Not_Null]),
         (''created_at_unix'', Integer, [Not_Null]),
         (''expires_at_unix'', Integer, [Not_Null]),
         (''consumed_at_unix'', Integer, [])]
        []]"

definition M002_categories_table_up :: "ddl list" where
  "M002_categories_table_up =
     [Create_Table ''categories''
        [(''id'', Text, [Not_Null, Primary_Key]),
         (''entity_id'', Text, [Not_Null]),
         (''name'', Text, [Not_Null]),
         (''kind'', Text, [Not_Null])]
        [Foreign_Key ''entity_id'' ''entities'' ''id'']]"

definition M003_budgets_table_up :: "ddl list" where
  "M003_budgets_table_up =
     [Create_Table ''budgets''
        [(''id'', Text, [Not_Null, Primary_Key]),
         (''entity_id'', Text, [Not_Null]),
         (''category_id'', Text, []),
         (''amount_cents'', Integer, [Not_Null, Default (Int_Value 0)]),
         (''period_start_unix'', Integer, [Not_Null]),
         (''period_end_unix'', Integer, [Not_Null])]
        [Foreign_Key ''entity_id'' ''entities'' ''id'']]"

definition M004_plaid_sync_state_up :: "ddl list" where
  "M004_plaid_sync_state_up =
     [Create_Table ''plaid_sync_state''
        [(''account_id'', Text, [Not_Null, Primary_Key]),
         (''cursor'', Text, [Not_Null, Default (Text_Value [])]),
         (''last_sync_unix'', Integer, [Not_Null, Default (Int_Value 0)])]
        []]"

definition M005_plaid_pending_links_up :: "ddl list" where
  "M005_plaid_pending_links_up =
     [Create_Table ''plaid_pending_links''
        [(''link_token_hash'', Blob, [Not_Null, Primary_Key]),
         (''account_id'', Text, [Not_Null]),
         (''user_id'', Text, [Not_Null]),
         (''expires_at_unix'', Integer, [Not_Null])]
        [],
      Create_Index ''idx_plaid_pending_links_expires'' ''plaid_pending_links'' [''expires_at_unix''] None]"

definition M006_account_institution_up :: "ddl list" where
  "M006_account_institution_up =
     [Add_Column ''accounts'' (''institution'', Text, [Not_Null, Default (Text_Value [])])]"

definition M007_reimbursements_up :: "ddl list" where
  "M007_reimbursements_up =
     [Create_Table ''reimbursements''
        [(''id'', Text, [Not_Null, Primary_Key]),
         (''source_tx_id'', Text, [Not_Null]),
         (''owed_by_entity_id'', Text, [Not_Null]),
         (''owed_to_entity_id'', Text, [Not_Null]),
         (''amount_cents'', Integer, [Not_Null]),
         (''status'', Text, [Not_Null, Default (Text_Value ''pending'')]),
         (''note'', Text, [Not_Null, Default (Text_Value [])]),
         (''created_at_unix'', Integer, [Not_Null]),
         (''resolved_at_unix'', Integer, [])]
        [Foreign_Key ''source_tx_id'' ''transactions'' ''id'',
         Foreign_Key ''owed_by_entity_id'' ''entities'' ''id'',
         Foreign_Key ''owed_to_entity_id'' ''entities'' ''id''],
      Create_Index ''idx_reimbursements_status'' ''reimbursements'' [''status''] (Some (Equals ''status'' ''pending'')),
      Create_Index ''idx_reimbursements_source_tx'' ''reimbursements'' [''source_tx_id''] None]"

definition M008_v3_workflow_up :: "ddl list" where
  "M008_v3_workflow_up =
     [Create_Table ''actions''
        [(''id'', Text, [Primary_Key]),
         (''action_type'', Text, [Not_Null]),
         (''actor_user_id'', Text, [Not_Null]),
         (''entity_scope'', Text, []),
         (''payload_json'', Text, [Not_Null]),
         (''result_json'', Text, []),
         (''status'', Text, [Not_Null, Default (Text_Value ''pending'')]),
         (''applied_at_unix'', Integer, []),
         (''created_at_unix'', Integer, [Not_Null]),
         (''proposed_by_inference_id'', Text, [])]
        [],
      Create_Index ''idx_actions_status_created'' ''actions'' [''status'', ''created_at_unix''] None,
      Create_Table ''edges''
        [(''id'', Text, [Primary_Key]),
         (''from_id'', Text, [Not_Null]),
         (''to_id'', Text, [Not_Null]),
         (''edge_type'', Text, [Not_Null]),
         (''props_json'', Text, []),
         (''valid_from_unix'', Integer, [Not_Null]),
         (''valid_to_unix'', Integer, []),
         (''recorded_at_unix'', Integer, [Not_Null]),
         (''superseded_at_unix'', Integer, []),
         (''recorded_by_user_id'', Text, [Not_Null])]
        [],
      Create_Index ''idx_edges_from'' ''edges'' [''from_id'', ''edge_type''] (Some (Is_Null ''superseded_at_unix'')),
      Create_Index ''idx_edges_to'' ''edges'' [''to_id'', ''edge_type''] (Some (Is_Null ''superseded_at_unix'')),
      Create_Table ''notes''
        [(''id'', Text, [Primary_Key]),
         (''path'', Text, [Unique, Not_Null]),
         (''title'', Text, []),
         (''kind'', Text, [Not_Null]),
         (''author_user_id'', Text, [Not_Null]),
         (''entity_scope'', Text, [Not_Null]),
         (''body_hash_sha256'', Text, [Not_Null]),
         (''commit_sha'', Text, []),
         (''word_count'', Integer, []),
         (''last_indexed_at_unix'', Integer, []),
         (''created_at_unix'', Integer, [Not_Null]),
         (''updated_at_unix'', Integer, [Not_Null])]
        [],
      Create_Index ''idx_notes_kind'' ''notes'' [''kind''] None,
      Create_Index ''idx_notes_scope'' ''notes'' [''entity_scope''] None,
      Create_Table ''note_tags''
        [(''note_id'', Text, [Not_Null]),
         (''tag'', Text, [Not_Null])]
        [Table_Key [''note_id'', ''tag'']],
      Create_Index ''idx_note_tags_tag'' ''note_tags'' [''tag''] None,
      Create_Table ''note_links''
        [(''note_id'', Text, [Not_Null]),
         (''to_object_id'', Text, []),
         (''raw_target'', Text, [Not_Null])]
        [Table_Key [''note_id'', ''raw_target'']],
      Create_Index ''idx_note_links_to'' ''note_links'' [''to_object_id''] (Some (Is_Not_Null ''to_object_id'')),
      Create_Table ''decisions''
        [(''id'', Text, [Primary_Key]),
         (''title'', Text, [Not_Null]),
         (''body_md'', Text, [Not_Null, Default (Text_Value [])]),
         (''entity_scope'', Text, [Not_Null]),
         (''status'', Text, [Not_Null, Default (Text_Value ''open'')]),
         (''outcome'', Text, []),
         (''decided_by_user_id'', Text, []),
         (''decided_at_unix'', Integer, []),
         (''outcome_due_unix'', Integer, []),
         (''source_note_id'', Text, []),
         (''created_at_unix'', Integer, [Not_Null])]
        [],
      Create_Index ''idx_decisions_status_created'' ''decisions'' [''status'', ''created_at_unix''] None,
      Create_Table ''tasks''
        [(''id'', Text, [Primary_Key]),
         (''title'', Text, [Not_Null]),
         (''body_md'', Text, [Not_Null, Default (Text_Value [])]),
         (''entity_scope'', Text, [Not_Null]),
         (''status'', Text, [Not_Null, Default (Text_Value ''open'')]),
         (''assignee_user_id'', Text, []),
         (''due_unix'', Integer, []),
         (''completed_at_unix'', Integer, []),
         (''source_note_id'', Text, []),
         (''created_at_unix'', Integer, [Not_Null])]
        [],
      Create_Index ''idx_tasks_status_due'' ''tasks'' [''status'', ''due_unix''] None,
      Create_Table ''events''
        [(''id'', Text, [Primary_Key]),
         (''title'', Text, [Not_Null]),
         (''body_md'', Text, [Not_Null, Default (Text_Value [])]),
         (''entity_scope'', Text, [Not_Null]),
         (''starts_at_unix'', Integer, [Not_Null]),
         (''ends_at_unix'', Integer, []),
         (''location'', Text, []),
         (''source_note_id'', Text, []),
         (''created_at_unix'', Integer, [Not_Null])]
        [],
      Create_Index ''idx_events_starts'' ''events'' [''starts_at_unix''] None]"

definition M009_v4_intelligence_up :: "ddl list" where
  "M009_v4_intelligence_up =
     [Create_Table ''embeddings''
        [(''id'', Text, [Primary_Key]),
         (''source_kind'', Text, [Not_Null]),
         (''source_id'', Text, [Not_Null]),
         (''chunk_index'', Integer, [Not_Null]),
         (''chunk_text'', Text, [Not_Null]),
         (''vector'', Blob, [Not_Null]),
         (''model_id'', Text, [Not_Null]),
         (''entity_scope'', Text, [Not_Null]),
         (''created_at_unix'', Integer, [Not_Null])]
        [],
      Create_Index ''idx_embeddings_scope_kind'' ''embeddings'' [''entity_scope'', ''source_kind''] None,
      Create_Index ''idx_embeddings_source'' ''embeddings'' [''source_kind'', ''source_id''] None,
      Create_Table ''inferences''
        [(''id'', Text, [Primary_Key]),
         (''asker_user_id'', Text, [Not_Null]),
         (''prompt'', Text, [Not_Null]),
         (''prompt_hash'', Text, [Not_Null]),
         (''retrieved_refs_json'', Text, [Not_Null]),
         (''model_id'', Text, [Not_Null]),
         (''model_location'', Text, [Not_Null]),
         (''redaction_tier'', Text, [Not_Null]),
         (''response'', Text, [Not_Null]),
         (''feedback_score'', Integer, []),
         (''created_at_unix'', Integer, [Not_Null])]
        [],
      Create_Index ''idx_inferences_asker_created'' ''inferences'' [''asker_user_id'', ''created_at_unix''] None,
      Create_Table ''pending_extractions''
        [(''id'', Text, [Primary_Key]),
         (''source_note_id'', Text, [Not_Null]),
         (''inference_id'', Text, [Not_Null]),
         (''proposed_type'', Text, [Not_Null]),
         (''proposed_payload_json'', Text, [Not_Null]),
         (''status'', Text, [Not_Null, Default (Text_Value ''pending'')]),
         (''resolved_by_user_id'', Text, []),
         (''resolved_at_unix'', Integer, []),
         (''resulting_object_id'', Text, []),
         (''created_at_unix'', Integer, [Not_Null])]
        [],
      Create_Index ''idx_pending_extractions_status'' ''pending_extractions'' [''status'', ''created_at_unix''] None,
      Create_Table ''targets''
        [(''id'', Text, [Primary_Key]),
         (''name'', Text, [Not_Null]),
         (''entity_scope'', Text, [Not_Null, Default (Text_Value ''pcc'')]),
         (''stage'', Text, [Not_Null, Default (Text_Value ''lead'')]),
         (''thesis_md'', Text, [Not_Null, Default (Text_Value [])]),
         (''size_cents'', Integer, []),
         (''source_note_id'', Text, []),
         (''created_at_unix'', Integer, [Not_Null]),
         (''updated_at_unix'', Integer, [Not_Null])]
        [],
      Create_Index ''idx_targets_stage_updated'' ''targets'' [''stage'', ''updated_at_unix''] None,
      Create_Table ''relationships''
        [(''id'', Text, [Primary_Key]),
         (''display_name'', Text, [Not_Null]),
         (''kind'', Text, [Not_Null]),
         (''primary_email'', Text, []),
         (''primary_phone'', Text, []),
         (''last_contact_unix'', Integer, []),
         (''notes_md'', Text, [Not_Null, Default (Text_Value [])]),
         (''created_at_unix'', Integer, [Not_Null]),
         (''updated_at_unix'', Integer, [Not_Null])]
        [],
      Create_Index ''idx_relationships_kind'' ''relationships'' [''kind''] None,
      Create_Table ''real_estate''
        [(''id'', Text, [Primary_Key]),
         (''label'', Text, [Not_Null]),
         (''address'', Text, []),
         (''entity_scope'', Text, [Not_Null]),
         (''status'', Text, [Not_Null, Default (Text_Value ''owned'')]),
         (''acquired_at_unix'', Integer, []),
         (''cost_basis_cents'', Integer, []),
         (''current_value_cents'', Integer, []),
         (''notes_md'', Text, [Not_Null, Default (Text_Value [])]),
         (''created_at_unix'', Integer, [Not_Null]),
         (''updated_at_unix'', Integer, [Not_Null])]
        [],
      Create_Index ''idx_real_estate_status'' ''real_estate'' [''status''] None]"

definition greylock_migrations :: "migration list" where
  "greylock_migrations =
     [\<lparr>version = 1, mname = ''M001_initial_schema'', up = M001_initial_schema_up\<rparr>,
      \<lparr>version = 2, mname = ''M002_categories_table'', up = M002_categories_table_up\<rparr>,
      \<lparr>version = 3, mname = ''M003_budgets_table'', up = M003_budgets_table_up\<rparr>,
      \<lparr>version = 4, mname = ''M004_plaid_sync_state'', up = M004_plaid_sync_state_up\<rparr>,
      \<lparr>version = 5, mname = ''M005_plaid_pending_links'', up = M005_plaid_pending_links_up\<rparr>,
      \<lparr>version = 6, mname = ''M006_account_institution'', up = M006_account_institution_up\<rparr>,
      \<lparr>version = 7, mname = ''M007_reimbursements'', up = M007_reimbursements_up\<rparr>,
      \<lparr>version = 8, mname = ''M008_v3_workflow'', up = M008_v3_workflow_up\<rparr>,
      \<lparr>version = 9, mname = ''M009_v4_intelligence'', up = M009_v4_intelligence_up\<rparr>]"

fun register_all :: "migration list \<Rightarrow> migration list \<Rightarrow> string + migration list" where
  "register_all [] acc = Inr acc"
| "register_all (m # ms) acc =
     (case register_migration m acc of Inl what \<Rightarrow> Inl what | Inr acc' \<Rightarrow> register_all ms acc')"

text \<open>\<open>open_db_with_migrations\<close> on an opened database.\<close>

definition open_db_with_migrations :: "(int \<Rightarrow> int) \<Rightarrow> schema \<Rightarrow> (string + unit) \<times> schema" where
  "open_db_with_migrations now d =
     (case register_all greylock_migrations [] of
        Inl what \<Rightarrow> (Inl what, d)
      | Inr ms \<Rightarrow> apply_pending now ms d)"

section \<open>The registered list\<close>

lemma register_all_list:
  assumes "distinct (map version (acc @ ms))" and "sorted (map version acc)"
  shows "\<exists>r. register_all ms acc = Inr r \<and> set r = set (acc @ ms) \<and> sorted (map version r) \<and>
    distinct (map version r)"
  using assms
proof (induction ms arbitrary: acc)
  case (Cons m ms)
  let ?acc = "sort_key version (acc @ [m])"
  have mset: "mset (map version ?acc) = mset (map version (acc @ [m]))" by simp
  have "distinct (map version ?acc)"
    using Cons.prems(1) mset_eq_imp_distinct_iff [OF mset] by simp
  then have "distinct (map version (?acc @ ms))" "sorted (map version ?acc)"
    using Cons.prems(1) by auto
  then obtain r where "register_all ms ?acc = Inr r" "set r = set (?acc @ ms)" "sorted (map version r)"
    "distinct (map version r)"
    using Cons.IH by blast
  moreover have "register_migration m acc = Inr ?acc"
    using Cons.prems(1) by (auto simp: register_migration_def)
  ultimately show ?case by auto
qed simp

text \<open>Whatever the order of registration, the list is the one sorted by version.\<close>

lemma registration_order:
  assumes "distinct (map version ms)" and "mset ms' = mset ms"
  shows "register_all ms' [] = Inr (sort_key version ms)"
proof -
  have "mset (map version ms') = mset (map version ms)"
    using assms(2) by (simp only: mset_map)
  then have ms': "distinct (map version ms')" "set ms' = set ms"
    using assms(1) mset_eq_imp_distinct_iff mset_eq_setD [OF assms(2)] by blast+
  then obtain r where r: "register_all ms' [] = Inr r" "set r = set ms" "sorted (map version r)"
    "distinct (map version r)"
    using register_all_list [of "[]" ms'] by auto
  have "mset (map version (sort_key version ms)) = mset (map version ms)" by simp
  then have "distinct (map version (sort_key version ms))"
    using assms(1) mset_eq_imp_distinct_iff by blast
  moreover have "inj_on version (set r \<union> set (sort_key version ms))"
    using assms(1) r(2) by (simp add: distinct_map)
  ultimately have "r = sort_key version ms"
    using r(2-4) by (intro map_sorted_distinct_set_unique) simp_all
  with r(1) show ?thesis by simp
qed

section \<open>Upgrades in steps\<close>

lemma exec_ddl_applied: "exec_ddl s d = Inr d' \<Longrightarrow> sch_applied d' = sch_applied d"
  by (cases s) (auto split: if_splits option.splits)

lemma exec_all_ddl_applied: "exec_all_ddl ss d = Inr d' \<Longrightarrow> sch_applied d' = sch_applied d"
  by (induction ss arbitrary: d) (auto dest: exec_ddl_applied split: sum.splits)

lemma max_version_snoc:
  "max_version (rows @ [r]) = (if rows = [] then mig_version r else max (max_version rows) (mig_version r))"
  by (cases rows) (simp_all add: max_version_def max.commute)

lemma max_version_Nil: "max_version [] = 0"
  by (simp add: max_version_def)

lemma max_version_single: "max_version [r] = mig_version r"
  by (simp add: max_version_def)

text \<open>The highest applied version, and the same after one more migration has run.\<close>

definition top_version :: "schema \<Rightarrow> int" where
  "top_version d = max_version (applied_rows d)"

lemma run_migration_top:
  assumes "run_migration now m d = Inr d'" and "top_version d < version m"
  shows "top_version d' = version m \<and> sch_applied d' \<noteq> None"
  using assms
  by (auto simp: run_migration_def top_version_def applied_rows_def max_version_snoc max_version_Nil max_version_single ins_by_def
      dest!: exec_all_ddl_applied split: sum.splits option.splits if_splits)

lemma apply_from_cong:
  assumes "\<forall>m \<in> set ms. version m \<le> c \<longleftrightarrow> version m \<le> c'"
  shows "apply_from now c ms d = apply_from now c' ms d"
  using assms by (induction ms arbitrary: d) (auto split: sum.splits)

lemma apply_from_append:
  "apply_from now c (ms @ ms') d =
     (case apply_from now c ms d of (Inl what, d') \<Rightarrow> (Inl what, d') | (Inr _, d') \<Rightarrow> apply_from now c ms' d')"
  by (induction ms arbitrary: d) (simp_all split: sum.splits prod.splits)

text \<open>\<open>current\<close> is what \<open>apply_pending\<close> read at its start; the versions still to come are above the top.\<close>

definition in_order :: "int \<Rightarrow> migration list \<Rightarrow> schema \<Rightarrow> bool" where
  "in_order current ms d \<longleftrightarrow> sorted_wrt (<) (map version ms) \<and> current \<le> top_version d \<and> sch_applied d \<noteq> None \<and>
     (\<forall>m \<in> set ms. version m \<le> current \<or> top_version d < version m)"

lemma apply_from_in_order:
  assumes "in_order c ms d" and "apply_from now c ms d = (r, d')"
  shows "c \<le> top_version d' \<and> sch_applied d' \<noteq> None \<and> (\<forall>m \<in> set ms. r = Inr () \<longrightarrow> version m \<le> top_version d') \<and>
    (top_version d' = top_version d \<or> top_version d' \<in> version ` set ms) \<and>
    (\<forall>what. r = Inl what \<longrightarrow> (\<exists>pre m post. ms = pre @ m # post \<and> apply_from now c pre d = (Inr (), d') \<and>
       c < version m \<and> run_migration now m d' = Inl what))"
  using assms
proof (induction ms arbitrary: d)
  case (Cons m ms)
  show ?case
  proof (cases "version m \<le> c")
    case True
    with Cons.prems have "in_order c ms d" "apply_from now c ms d = (r, d')"
      by (auto simp: in_order_def)
    note IH = Cons.IH [OF this]
    moreover have "version m \<le> top_version d'" using True IH by simp
    moreover have "\<exists>pre m' post. m # ms = pre @ m' # post \<and> apply_from now c pre d = (Inr (), d') \<and>
        c < version m' \<and> run_migration now m' d' = Inl what"
      if "r = Inl what" for what
    proof -
      from IH that obtain pre m' post where "ms = pre @ m' # post" "apply_from now c pre d = (Inr (), d')"
        "c < version m'" "run_migration now m' d' = Inl what" by blast
      then show ?thesis using True by (intro exI [of _ "m # pre"] exI [of _ m'] exI [of _ post]) simp
    qed
    ultimately show ?thesis by auto
  next
    case False
    with Cons.prems have lt: "top_version d < version m" by (auto simp: in_order_def)
    show ?thesis
    proof (cases "run_migration now m d")
      case (Inl what)
      with Cons.prems False have "r = Inl what" "d' = d" by auto
      with Inl False Cons.prems show ?thesis
        by (auto simp: in_order_def intro!: exI [of _ "[]"])
    next
      case (Inr d1)
      note top1 = run_migration_top [OF Inr lt]
      have "in_order c ms d1"
        using Cons.prems(1) top1 lt by (force simp: in_order_def)
      moreover have "apply_from now c ms d1 = (r, d')"
        using Cons.prems(2) False Inr by simp
      ultimately have IH: "c \<le> top_version d' \<and> sch_applied d' \<noteq> None \<and> (\<forall>m \<in> set ms. r = Inr () \<longrightarrow> version m \<le> top_version d') \<and>
        (top_version d' = top_version d1 \<or> top_version d' \<in> version ` set ms) \<and>
        (\<forall>what. r = Inl what \<longrightarrow> (\<exists>pre m post. ms = pre @ m # post \<and> apply_from now c pre d1 = (Inr (), d') \<and>
           c < version m \<and> run_migration now m d' = Inl what))"
        by (rule Cons.IH)
      moreover have "version m \<le> top_version d'"
      proof -
        have "sorted_wrt (<) (map version (m # ms))" using Cons.prems(1) by (simp add: in_order_def)
        then show ?thesis using IH top1 by (auto intro: less_imp_le)
      qed
      moreover have "\<exists>pre m' post. m # ms = pre @ m' # post \<and> apply_from now c pre d = (Inr (), d') \<and>
          c < version m' \<and> run_migration now m' d' = Inl what"
        if "r = Inl what" for what
      proof -
        from IH that obtain pre m' post where "ms = pre @ m' # post" "apply_from now c pre d1 = (Inr (), d')"
          "c < version m'" "run_migration now m' d' = Inl what" by blast
        then show ?thesis using False Inr by (intro exI [of _ "m # pre"] exI [of _ m'] exI [of _ post]) simp
      qed
      ultimately show ?thesis using top1 by auto
    qed
  qed
qed (auto simp: in_order_def)

lemma apply_pending_eq:
  "apply_pending now ms d = apply_from now (top_version (ensure_migrations_table d)) ms (ensure_migrations_table d)"
proof -
  have "ensure_migrations_table (ensure_migrations_table d) = ensure_migrations_table d"
    by (simp add: ensure_migrations_table_def split: option.splits)
  then show ?thesis by (simp add: apply_pending_def current_version_def Let_def top_version_def)
qed

lemma ensure_Some: "sch_applied d \<noteq> None \<Longrightarrow> ensure_migrations_table d = d"
  by (auto simp: ensure_migrations_table_def)

lemma pending_in_order:
  assumes "sorted_wrt (<) (map version ms)"
  shows "in_order (top_version (ensure_migrations_table d)) ms (ensure_migrations_table d)"
  using assms by (auto simp: in_order_def ensure_migrations_table_def split: option.splits)

lemma apply_pending_in_order:
  assumes "sorted_wrt (<) (map version ms)" and "apply_pending now ms d = (r, d1)"
  shows "ensure_migrations_table d1 = d1"
    and "r = Inr () \<Longrightarrow> m \<in> set ms \<Longrightarrow> version m \<le> top_version d1"
    and "top_version (ensure_migrations_table d) \<le> top_version d1"
    and "top_version d1 = top_version (ensure_migrations_table d) \<or> top_version d1 \<in> version ` set ms"
  using apply_from_in_order [OF pending_in_order [OF assms(1)] assms(2) [unfolded apply_pending_eq]]
  by (auto simp: ensure_Some)

lemma steps:
  assumes "sorted_wrt (<) (map version (ms @ ms'))" and "apply_pending now ms d = (Inr (), d1)"
  shows "apply_pending now (ms @ ms') d = apply_pending now ms' d1"
proof -
  let ?c = "top_version (ensure_migrations_table d)"
  have s: "sorted_wrt (<) (map version ms)" using assms(1) by (simp add: sorted_wrt_append)
  note f = apply_pending_in_order [OF s assms(2)]
  have "apply_pending now (ms @ ms') d = apply_from now ?c ms' d1"
    using assms(2) by (simp add: apply_pending_eq apply_from_append)
  also have "\<dots> = apply_from now (top_version d1) ms' d1"
  proof (rule apply_from_cong, rule ballI)
    fix m assume m: "m \<in> set ms'"
    show "version m \<le> ?c \<longleftrightarrow> version m \<le> top_version d1"
    proof (cases "top_version d1 = ?c")
      case False
      then obtain k where "k \<in> set ms" "top_version d1 = version k" using f(4) by blast
      then have "top_version d1 < version m" using m assms(1) by (auto simp: sorted_wrt_append)
      with f(3) show ?thesis by simp
    qed simp
  qed
  also have "\<dots> = apply_pending now ms' d1" by (simp add: apply_pending_eq f(1))
  finally show ?thesis .
qed

lemma apply_from_done: "(\<And>m. m \<in> set ms \<Longrightarrow> version m \<le> c) \<Longrightarrow> apply_from now c ms d = (Inr (), d)"
  by (induction ms) simp_all

text \<open>C22. Upgrading is resumable: once some of the migrations have been applied, running the whole list
  applies exactly the rest, and running what has been applied again changes nothing, whenever that
  happens.\<close>

theorem upgrade_resumes:
  assumes "sorted_wrt (<) (map version (ms @ ms'))" and "apply_pending now ms d = (Inr (), d1)"
  shows "apply_pending now (ms @ ms') d = apply_pending now ms' d1 \<and>
    apply_pending now' ms d1 = (Inr (), d1)"
proof -
  have s: "sorted_wrt (<) (map version ms)" using assms(1) by (simp add: sorted_wrt_append)
  note f = apply_pending_in_order [OF s assms(2)]
  have "apply_pending now' ms d1 = (Inr (), d1)"
    using f(1,2) by (simp add: apply_pending_eq apply_from_done)
  with steps [OF assms] show ?thesis by simp
qed

definition categories_only :: "migration list" where
  "categories_only = [\<lparr>version = 2, mname = ''M002_categories_table'', up = M002_categories_table_up\<rparr>]"

definition budgets_next :: "migration list" where
  "budgets_next = [\<lparr>version = 3, mname = ''M003_budgets_table'', up = M003_budgets_table_up\<rparr>]"

theorem upgrade_resumes_witness:
  "apply_pending (\<lambda>_. 5) (categories_only @ budgets_next) empty_schema =
     apply_pending (\<lambda>_. 5) budgets_next (snd (apply_pending (\<lambda>_. 5) categories_only empty_schema)) \<and>
   apply_pending (\<lambda>_. 9) categories_only (snd (apply_pending (\<lambda>_. 5) categories_only empty_schema)) =
     (Inr (), snd (apply_pending (\<lambda>_. 5) categories_only empty_schema))"
proof (rule upgrade_resumes)
  show "sorted_wrt (<) (map version (categories_only @ budgets_next))"
    by (simp add: categories_only_def budgets_next_def)
  have "fst (apply_pending (\<lambda>_. 5) categories_only empty_schema) = Inr ()" by code_simp
  then show "apply_pending (\<lambda>_. 5) categories_only empty_schema =
      (Inr (), snd (apply_pending (\<lambda>_. 5) categories_only empty_schema))"
    by (metis prod.collapse)
qed

text \<open>An upgrade that fails has applied exactly the migrations before the failing one and nothing of
  that one: its transaction is rolled back, and trying again fails at the same place without
  changing the database.\<close>

theorem failed_upgrade:
  assumes "sorted_wrt (<) (map version ms)" and "apply_pending now ms d = (Inl what, d1)"
  shows "\<exists>pre m post. ms = pre @ m # post \<and> apply_pending now pre d = (Inr (), d1) \<and>
    run_migration now m d1 = Inl what \<and> apply_pending now ms d1 = (Inl what, d1)"
proof -
  let ?c = "top_version (ensure_migrations_table d)"
  from apply_from_in_order [OF pending_in_order [OF assms(1)] assms(2) [unfolded apply_pending_eq]]
  obtain pre m post where ms: "ms = pre @ m # post" and c: "?c < version m"
    and pre: "apply_from now ?c pre (ensure_migrations_table d) = (Inr (), d1)"
    and m: "run_migration now m d1 = Inl what"
    by blast
  have s: "sorted_wrt (<) (map version pre)" "sorted_wrt (<) (map version (pre @ [m]))"
    using assms(1) ms by (simp_all add: sorted_wrt_append)
  have ok: "apply_pending now pre d = (Inr (), d1)" using pre by (simp add: apply_pending_eq)
  note f = apply_pending_in_order [OF s(1) ok]
  have "top_version d1 < version m"
    using f(4) c s(2) by (auto simp: sorted_wrt_append)
  then have "apply_pending now (m # post) d1 = (Inl what, d1)"
    using m by (simp add: apply_pending_eq f(1))
  moreover have "apply_pending now pre d1 = (Inr (), d1)"
    using f(1,2) by (simp add: apply_pending_eq apply_from_done)
  moreover have "sorted_wrt (<) (map version (pre @ m # post))" using assms(1) ms by simp
  ultimately have "apply_pending now ms d1 = (Inl what, d1)"
    unfolding ms using steps [of pre "m # post" now d1 d1] by simp
  with ms ok m show ?thesis by blast
qed

text \<open>A list that adds a column to a table nobody has created.\<close>

definition column_too_early :: "migration list" where
  "column_too_early = categories_only @
     [\<lparr>version = 6, mname = ''M006_account_institution'', up = M006_account_institution_up\<rparr>]"

theorem failed_upgrade_witness:
  "\<exists>what d1. apply_pending (\<lambda>_. 5) column_too_early empty_schema = (Inl what, d1) \<and>
     apply_pending (\<lambda>_. 5) column_too_early d1 = (Inl what, d1)"
proof -
  have s: "sorted_wrt (<) (map version column_too_early)"
    by (simp add: column_too_early_def categories_only_def)
  have "(case fst (apply_pending (\<lambda>_. 5) column_too_early empty_schema) of Inl _ \<Rightarrow> True | Inr _ \<Rightarrow> False)"
    by code_simp
  then obtain what d1 where r: "apply_pending (\<lambda>_. 5) column_too_early empty_schema = (Inl what, d1)"
    by (cases "apply_pending (\<lambda>_. 5) column_too_early empty_schema") (auto split: sum.splits)
  from r failed_upgrade [OF s r] show ?thesis by blast
qed

section \<open>The catalogue of the program\<close>

definition key_columns :: "table_def \<Rightarrow> string list" where
  "key_columns t =
     map fst (filter (\<lambda>c. Primary_Key \<in> set (snd (snd c))) (tab_cols t)) @
     concat (map (\<lambda>k. case k of Table_Key cols \<Rightarrow> cols | Foreign_Key _ _ _ \<Rightarrow> []) (tab_cons t))"

text \<open>A foreign key refers to a column of its own table and to the primary key of one that exists.\<close>

definition constraint_ok :: "schema \<Rightarrow> table_def \<Rightarrow> table_constraint \<Rightarrow> bool" where
  "constraint_ok d t k =
     (case k of
        Table_Key cols \<Rightarrow> list_all (\<lambda>c. c \<in> set (column_names t)) cols
      | Foreign_Key col parent pcol \<Rightarrow>
          col \<in> set (column_names t) \<and>
          (case sel_by tab_name parent (sch_tables d) of
             None \<Rightarrow> False
           | Some p \<Rightarrow> key_columns p = [pcol]))"

definition catalogue_ok :: "schema \<Rightarrow> bool" where
  "catalogue_ok d \<longleftrightarrow> distinct (object_names d) \<and>
     list_all (\<lambda>t. distinct (column_names t) \<and> key_columns t \<noteq> [] \<and>
       list_all (constraint_ok d t) (tab_cons t)) (sch_tables d)"

definition table_names :: "schema \<Rightarrow> string list" where
  "table_names d = map tab_name (sch_tables d)"

definition inspect :: "(string + unit) \<times> schema \<Rightarrow> bool \<times> int \<times> bool \<times> nat" where
  "inspect x =
     (case x of (r, d) \<Rightarrow> (r = Inr (), fst (current_version d), catalogue_ok d, length (table_names d)))"

text \<open>The nine migrations of the program run on an empty file without an error and leave a catalogue at
  version 9 with 27 tables, in which every name is unique, every table has a primary key, and every
  foreign key refers to the primary key of a table that exists.\<close>

theorem schema_from_scratch: "inspect (open_db_with_migrations now empty_schema) = (True, 9, True, 27)"
  by code_simp

end
