(* ===== verification/Data_Store.thy ===== *)
theory Data_Store
  imports Client_Models Civil_Date Sanitizer_Model
    "HOL-Library.Char_ord" "HOL-Library.List_Lexorder"
begin

text \<open>The in-memory store of the client (src/src/models/DataStore.cpp): the five collections and the last
  error, with the counter of generated identifiers, one for all stores of a process. A pointer the code returns is the record it
  points at; the storage service is an interface of two functions on its own state.
  \<^verbatim>\<open>std::sort\<close> is an argument: the order of equal elements is the library's choice.
  What is shown: where an account without its entity comes from, over all operations of any number of
  stores; generated identifiers are distinct in the process; the sums over accounts and months, exact for
  whole amounts; what recomputing the spent amounts leaves in the budgets.\<close>

section \<open>State\<close>

record collections =
  ds_entities :: "entity list"
  ds_accounts :: "account list"
  ds_transactions :: "transaction list"
  ds_categories :: "category list"
  ds_budgets :: "budget list"

record data_store = collections +
  ds_error :: string

definition empty_collections :: collections where
  "empty_collections = \<lparr>ds_entities = [], ds_accounts = [], ds_transactions = [],
     ds_categories = [], ds_budgets = []\<rparr>"

definition init_default_categories :: "data_store \<Rightarrow> data_store" where
  "init_default_categories d = d\<lparr>ds_categories := DEFAULT_CATEGORIES\<rparr>"

definition new_data_store :: data_store where
  "new_data_store = init_default_categories (collections.extend empty_collections
     (data_store.fields []))"

text \<open>\<^verbatim>\<open>generate_id\<close>: its \<^verbatim>\<open>static int\<close> counter, which every store of the process shares, and the
  clock. The counter is passed in and out; incrementing it past the largest \<^verbatim>\<open>int\<close> is undefined in C++
  and wraps here.\<close>

definition generate_id :: "int \<Rightarrow> 32 word \<Rightarrow> string \<times> 32 word" where
  "generate_id now n =
     (''id_'' @ int_to_string (sint (n + 1)) @ ''_'' @ int_to_string now, n + 1)"

definition or_generated :: "int \<Rightarrow> string \<Rightarrow> 32 word \<Rightarrow> string \<times> 32 word" where
  "or_generated now i n = (if i = [] then generate_id now n else (i, n))"

section \<open>Entities\<close>

definition add_entity :: "int \<Rightarrow> entity \<Rightarrow> 32 word \<Rightarrow> data_store \<Rightarrow> 32 word \<times> data_store" where
  "add_entity now e n d =
     (let (i, n1) = or_generated now (e_id e) n
      in (n1, d\<lparr>ds_entities := ds_entities d @ [e\<lparr>e_id := i\<rparr>]\<rparr>))"

definition remove_entity :: "string \<Rightarrow> data_store \<Rightarrow> data_store" where
  "remove_entity i d = d\<lparr>ds_entities := filter (\<lambda>e. e_id e \<noteq> i) (ds_entities d)\<rparr>"

definition get_entity :: "string \<Rightarrow> data_store \<Rightarrow> entity option" where
  "get_entity i d = find (\<lambda>e. e_id e = i) (ds_entities d)"

definition get_all_entities :: "data_store \<Rightarrow> entity list" where
  "get_all_entities d = filter e_active (ds_entities d)"

section \<open>Accounts\<close>

definition add_account :: "int \<Rightarrow> account \<Rightarrow> 32 word \<Rightarrow> data_store \<Rightarrow> 32 word \<times> data_store" where
  "add_account now a n d =
     (let (i, n1) = or_generated now (a_id a) n; a1 = a\<lparr>a_id := i\<rparr> in
      if a_entity a1 \<noteq> [] \<and> \<not> list_ex (\<lambda>e. e_id e = a_entity a1) (ds_entities d)
      then (n1, d\<lparr>ds_error := ''Cannot add account: entity_id '' @ [CHR 0x27] @ a_entity a1 @ [CHR 0x27] @
                '' does not exist'',
              ds_accounts := ds_accounts d @ [a1\<lparr>a_entity := []\<rparr>]\<rparr>)
      else (n1, d\<lparr>ds_accounts := ds_accounts d @ [a1]\<rparr>))"

definition remove_account :: "string \<Rightarrow> data_store \<Rightarrow> data_store" where
  "remove_account i d = d\<lparr>ds_accounts := filter (\<lambda>a. a_id a \<noteq> i) (ds_accounts d)\<rparr>"

definition get_account :: "string \<Rightarrow> data_store \<Rightarrow> account option" where
  "get_account i d = find (\<lambda>a. a_id a = i) (ds_accounts d)"

definition get_accounts_by_type :: "account_type \<Rightarrow> data_store \<Rightarrow> account list" where
  "get_accounts_by_type ty d = filter (\<lambda>a. a_type a = ty \<and> a_active a) (ds_accounts d)"

definition get_accounts_for_entity :: "string \<Rightarrow> data_store \<Rightarrow> account list" where
  "get_accounts_for_entity i d = filter (\<lambda>a. a_entity a = i \<and> a_active a) (ds_accounts d)"

section \<open>Transactions\<close>

text \<open>The date check of the store. A date that fails it, or an unknown account, is only noted in the
  last error: the transaction is stored.\<close>

definition date_shape :: "string \<Rightarrow> bool" where
  "date_shape s \<longleftrightarrow> length s = 10 \<and> list_all (\<lambda>i. is_digit (s ! i)) [0, 1, 2, 3, 5, 6, 8, 9] \<and>
     s ! 4 = CHR ''-'' \<and> s ! 7 = CHR ''-''"

definition store_valid_date :: "string \<Rightarrow> bool" where
  "store_valid_date date =
     (if date = [] then True
      else if \<not> date_shape date then False
      else let year = digits_value (substr 0 4 date); month = digits_value (substr 5 2 date);
               day = digits_value (substr 8 2 date)
           in 1 \<le> month \<and> month \<le> 12 \<and> 1 \<le> day \<and> day \<le> 31 \<and> 1900 \<le> year \<and> year \<le> 2100)"

definition note_error :: "bool \<Rightarrow> string \<Rightarrow> data_store \<Rightarrow> data_store" where
  "note_error bad msg d = (if bad then d\<lparr>ds_error := msg\<rparr> else d)"

definition add_transaction ::
  "int \<Rightarrow> transaction \<Rightarrow> 32 word \<Rightarrow> data_store \<Rightarrow> 32 word \<times> data_store" where
  "add_transaction now t n d =
     (let (i, n1) = or_generated now (t_id t) n;
          d2 = note_error (\<not> store_valid_date (t_date t))
                 (''Invalid date format: '' @ [CHR 0x27] @ t_date t @ [CHR 0x27] @
                  '' (expected YYYY-MM-DD)'') d;
          d3 = note_error (\<not> list_ex (\<lambda>a. a_id a = t_account t) (ds_accounts d2) \<and> t_account t \<noteq> [])
                 ''Warning: transaction references non-existent account'' d2
      in (n1, d3\<lparr>ds_transactions := ds_transactions d3 @ [t\<lparr>t_id := i\<rparr>]\<rparr>))"

definition remove_transaction :: "string \<Rightarrow> data_store \<Rightarrow> data_store" where
  "remove_transaction i d = d\<lparr>ds_transactions := filter (\<lambda>t. t_id t \<noteq> i) (ds_transactions d)\<rparr>"

definition get_transaction :: "string \<Rightarrow> data_store \<Rightarrow> transaction option" where
  "get_transaction i d = find (\<lambda>t. t_id t = i) (ds_transactions d)"

type_synonym sorter = "(transaction \<Rightarrow> transaction \<Rightarrow> bool) \<Rightarrow> transaction list \<Rightarrow> transaction list"

definition later :: "transaction \<Rightarrow> transaction \<Rightarrow> bool" where
  "later a b \<longleftrightarrow> t_date b < t_date a"

definition get_transactions_for_account :: "sorter \<Rightarrow> string \<Rightarrow> data_store \<Rightarrow> transaction list" where
  "get_transactions_for_account std_sort i d =
     std_sort later (filter (\<lambda>t. t_account t = i) (ds_transactions d))"

definition get_transactions_for_entity :: "sorter \<Rightarrow> string \<Rightarrow> data_store \<Rightarrow> transaction list" where
  "get_transactions_for_entity std_sort i d =
     std_sort later (concat (map (\<lambda>a. filter (\<lambda>t. t_account t = a_id a) (ds_transactions d))
       (filter (\<lambda>a. a_entity a = i) (ds_accounts d))))"

definition matches_filter :: "transaction_filter \<Rightarrow> transaction \<Rightarrow> bool" where
  "matches_filter f t \<longleftrightarrow>
     \<not> (f_account f \<noteq> [] \<and> t_account t \<noteq> f_account f) \<and>
     \<not> (f_category f \<noteq> [] \<and> t_category t \<noteq> f_category f) \<and>
     \<not> (f_start f \<noteq> [] \<and> t_date t < f_start f) \<and>
     \<not> (f_end f \<noteq> [] \<and> f_end f < t_date t) \<and>
     \<not> (f_min f \<noteq> 0 \<and> f_min f < t_amount t) \<and>
     \<not> (f_max f \<noteq> 0 \<and> t_amount t < f_max f) \<and>
     \<not> (f_pending_only f \<and> \<not> t_pending t) \<and>
     \<not> (f_expenses_only f \<and> \<not> is_expense t) \<and>
     \<not> (f_income_only f \<and> \<not> is_income t) \<and>
     \<not> (f_search f \<noteq> [] \<and> \<not> contains_sub (f_search f) (t_description t))"

definition filter_transactions :: "transaction_filter \<Rightarrow> data_store \<Rightarrow> transaction list" where
  "filter_transactions f d = filter (matches_filter f) (ds_transactions d)"

text \<open>Only the first transaction with the identifier is changed.\<close>

fun recategorize :: "string \<Rightarrow> string \<Rightarrow> transaction list \<Rightarrow> transaction list" where
  "recategorize i c [] = []"
| "recategorize i c (t # ts) =
     (if t_id t = i then t\<lparr>t_category := c\<rparr> # ts else t # recategorize i c ts)"

definition update_transaction_category :: "string \<Rightarrow> string \<Rightarrow> data_store \<Rightarrow> data_store" where
  "update_transaction_category i c d =
     d\<lparr>ds_transactions := recategorize i c (ds_transactions d)\<rparr>"

section \<open>Categories and budgets\<close>

definition get_category :: "string \<Rightarrow> data_store \<Rightarrow> category option" where
  "get_category i d = find (\<lambda>c. c_id c = i) (ds_categories d)"

definition get_expense_categories :: "data_store \<Rightarrow> category list" where
  "get_expense_categories d = filter (\<lambda>c. c_type c = Expense \<and> c_parent c = []) (ds_categories d)"

definition get_income_categories :: "data_store \<Rightarrow> category list" where
  "get_income_categories d = filter (\<lambda>c. c_type c = Income \<and> c_parent c = []) (ds_categories d)"

definition add_category :: "int \<Rightarrow> category \<Rightarrow> 32 word \<Rightarrow> data_store \<Rightarrow> 32 word \<times> data_store" where
  "add_category now c n d =
     (let (i, n1) = or_generated now (c_id c) n
      in (n1, d\<lparr>ds_categories := ds_categories d @ [c\<lparr>c_id := i, c_system := False\<rparr>]\<rparr>))"

definition add_budget :: "int \<Rightarrow> budget \<Rightarrow> 32 word \<Rightarrow> data_store \<Rightarrow> 32 word \<times> data_store" where
  "add_budget now b n d =
     (let (i, n1) = or_generated now (b_id b) n
      in (n1, d\<lparr>ds_budgets := ds_budgets d @ [b\<lparr>b_id := i\<rparr>]\<rparr>))"

definition get_budget :: "string \<Rightarrow> string \<Rightarrow> data_store \<Rightarrow> budget option" where
  "get_budget c mon d = find (\<lambda>b. b_category b = c \<and> b_month b = mon) (ds_budgets d)"

definition get_budgets_for_month :: "string \<Rightarrow> data_store \<Rightarrow> budget list" where
  "get_budgets_for_month mon d = filter (\<lambda>b. b_month b = mon) (ds_budgets d)"

definition get_budgets_for_entity_month :: "string \<Rightarrow> string \<Rightarrow> data_store \<Rightarrow> budget list" where
  "get_budgets_for_entity_month i mon d =
     filter (\<lambda>b. b_entity b = i \<and> b_month b = mon) (ds_budgets d)"

section \<open>Sums\<close>

definition in_month :: "string \<Rightarrow> transaction \<Rightarrow> bool" where
  "in_month mon t \<longleftrightarrow> substr 0 7 (t_date t) = mon"

text \<open>The loops that add doubles.\<close>

definition total :: "rat list \<Rightarrow> rat" where
  "total = foldl dadd 0"

definition spent_on :: "string \<Rightarrow> string \<Rightarrow> data_store \<Rightarrow> rat" where
  "spent_on mon c d = total (map (\<lambda>t. \<bar>t_amount t\<bar>)
     (filter (\<lambda>t. in_month mon t \<and> t_category t = c \<and> is_expense t) (ds_transactions d)))"

definition calculate_spent_amounts :: "string \<Rightarrow> data_store \<Rightarrow> data_store" where
  "calculate_spent_amounts mon d =
     d\<lparr>ds_budgets := map (\<lambda>b. if b_month b = mon then b\<lparr>b_spent := spent_on mon (b_category b) d\<rparr> else b)
         (ds_budgets d)\<rparr>"

definition add_balance :: "rat \<Rightarrow> account \<Rightarrow> rat" where
  "add_balance s a = (if a_type a = CreditCard then dsub s (a_balance a) else dadd s (a_balance a))"

definition get_total_net_worth :: "data_store \<Rightarrow> rat" where
  "get_total_net_worth d = foldl add_balance 0 (filter a_active (ds_accounts d))"

definition get_total_net_worth_for_entity :: "string \<Rightarrow> data_store \<Rightarrow> rat" where
  "get_total_net_worth_for_entity i d =
     foldl add_balance 0 (filter (\<lambda>a. a_entity a = i \<and> a_active a) (ds_accounts d))"

definition get_total_balance_by_type :: "account_type \<Rightarrow> data_store \<Rightarrow> rat" where
  "get_total_balance_by_type ty d = total (map a_balance (get_accounts_by_type ty d))"

definition get_spending_for_month :: "string \<Rightarrow> data_store \<Rightarrow> rat" where
  "get_spending_for_month mon d =
     total (map (\<lambda>t. \<bar>t_amount t\<bar>) (filter (\<lambda>t. in_month mon t \<and> is_expense t) (ds_transactions d)))"

definition get_income_for_month :: "string \<Rightarrow> data_store \<Rightarrow> rat" where
  "get_income_for_month mon d =
     total (map t_amount (filter (\<lambda>t. in_month mon t \<and> is_income t) (ds_transactions d)))"

section \<open>Persistence\<close>

text \<open>The storage service: loading overwrites the collections it is given, also when it fails half
  way or throws (\<^verbatim>\<open>Inl\<close>); no service is the null pointer.\<close>

record 's storage_service =
  op_load :: "collections \<Rightarrow> 's \<Rightarrow> (string + bool) \<times> collections \<times> 's"
  op_save :: "collections \<Rightarrow> 's \<Rightarrow> bool \<times> 's"
  op_error :: "'s \<Rightarrow> string"

definition with_collections :: "collections \<Rightarrow> data_store \<Rightarrow> data_store" where
  "with_collections c d = collections.extend c (data_store.fields (ds_error d))"

definition store_load ::
    "'s storage_service option \<Rightarrow> data_store \<Rightarrow> 's \<Rightarrow> (string + bool) \<times> data_store \<times> 's" where
  "store_load svc d s = (case svc of
     None \<Rightarrow> (Inr False, d\<lparr>ds_error := ''No storage service configured''\<rparr>, s)
   | Some v \<Rightarrow>
       (let (ok, c, s1) = op_load v (collections.truncate d) s; d1 = with_collections c d
        in (ok, if ok = Inr False then d1\<lparr>ds_error := op_error v s1\<rparr> else d1, s1)))"

definition store_save :: "'s storage_service option \<Rightarrow> data_store \<Rightarrow> 's \<Rightarrow> bool \<times> data_store \<times> 's" where
  "store_save svc d s = (case svc of
     None \<Rightarrow> (False, d\<lparr>ds_error := ''No storage service configured''\<rparr>, s)
   | Some v \<Rightarrow>
       (let (ok, s1) = op_save v (collections.truncate d) s
        in (ok, if ok then d else d\<lparr>ds_error := op_error v s1\<rparr>, s1)))"

definition store_last_error :: "'s storage_service option \<Rightarrow> data_store \<Rightarrow> 's \<Rightarrow> string" where
  "store_last_error svc d s = (case svc of Some v \<Rightarrow> op_error v s | None \<Rightarrow> ds_error d)"

section \<open>Sums of whole amounts\<close>

text \<open>Whole amounts whose absolute values add up to at most 2 to the 53 are added without rounding.\<close>

definition whole :: "rat \<Rightarrow> bool" where
  "whole q \<longleftrightarrow> (\<exists>n. q = of_int n)"

definition exact_sum :: "rat list \<Rightarrow> bool" where
  "exact_sum qs \<longleftrightarrow> list_all whole qs \<and> sum_list (map abs qs) \<le> 2 ^ 53"

lemma whole_add: "whole x \<Longrightarrow> whole y \<Longrightarrow> whole (x + y)"
  unfolding whole_def by (metis of_int_add)

lemma whole_double: "whole q \<Longrightarrow> \<bar>q\<bar> \<le> 2 ^ 53 \<Longrightarrow> is_double q"
proof -
  assume "whole q" and q: "\<bar>q\<bar> \<le> 2 ^ 53"
  then obtain n where n: "q = of_int n" unfolding whole_def by blast
  have "(of_int \<bar>n\<bar> :: rat) \<le> of_int (2 ^ 53)" using q by (simp add: n)
  then have "\<bar>n\<bar> \<le> 2 ^ 53" unfolding of_int_le_iff .
  then show "is_double q" unfolding n by (rule double_int)
qed

lemma foldl_dadd_exact:
  "whole s \<Longrightarrow> list_all whole qs \<Longrightarrow> \<bar>s\<bar> + sum_list (map abs qs) \<le> 2 ^ 53 \<Longrightarrow>
     foldl dadd s qs = s + sum_list qs"
proof (induction qs arbitrary: s)
  case (Cons q qs)
  have nonneg: "0 \<le> sum_list (map abs qs)" by (rule sum_list_nonneg) auto
  have bound: "\<bar>s + q\<bar> + sum_list (map abs qs) \<le> 2 ^ 53"
    using Cons.prems(3) abs_triangle_ineq [of s q] by simp
  have "dadd s q = s + q"
    using Cons.prems bound nonneg by (intro dadd_exact whole_double whole_add) auto
  then show ?case
    using Cons.IH [of "s + q"] Cons.prems bound by (simp add: whole_add add.assoc)
qed simp

lemma total_exact: "exact_sum qs \<Longrightarrow> total qs = sum_list qs"
  using foldl_dadd_exact [of 0 qs] by (simp add: total_def exact_sum_def whole_def)

lemma exact_sum_filter: "exact_sum (map f xs) \<Longrightarrow> exact_sum (map f (filter P xs))"
proof (induction xs)
  case (Cons x xs)
  then have "exact_sum (map f xs)" by (auto simp: exact_sum_def)
  moreover have "sum_list (map abs (map f (filter P xs))) \<le> sum_list (map abs (map f xs))"
    by (induction xs) auto
  ultimately show ?case using Cons by (auto simp: exact_sum_def)
qed simp

lemma exact_sum_signs:
  assumes "exact_sum (map f xs)" and "\<And>x. g x = f x \<or> g x = - f x"
  shows "exact_sum (map g xs)"
proof -
  have minus: "whole (- q) \<longleftrightarrow> whole q" for q unfolding whole_def by (metis minus_minus of_int_minus)
  have "\<bar>g x\<bar> = \<bar>f x\<bar>" for x using assms(2) [of x] by auto
  then have abs_eq: "map abs (map g xs) = map abs (map f xs)" by simp
  have "whole (g x) \<longleftrightarrow> whole (f x)" for x using assms(2) [of x] minus by metis
  then have "list_all whole (map g xs) = list_all whole (map f xs)" by (simp add: list.pred_map comp_def)
  then show ?thesis using assms(1) unfolding exact_sum_def abs_eq by blast
qed

text \<open>The net worth is a sum of signed balances.\<close>

definition signed_balance :: "account \<Rightarrow> rat" where
  "signed_balance a = (if a_type a = CreditCard then - a_balance a else a_balance a)"

lemma add_balance_dadd: "add_balance s a = dadd s (signed_balance a)"
  by (simp add: add_balance_def signed_balance_def dadd_def dsub_def)

lemma foldl_add_balance: "foldl add_balance s as = foldl dadd s (map signed_balance as)"
  by (induction as arbitrary: s) (simp_all add: add_balance_dadd)

lemma exact_signed: "exact_sum (map a_balance as) \<Longrightarrow> exact_sum (map signed_balance as)"
  by (erule exact_sum_signs) (auto simp: signed_balance_def)

lemma sum_by_type:
  "sum_list (map signed_balance as) =
     (\<Sum>ty \<leftarrow> [Checking, Savings, Investment, Cash, OtherAccount].
        sum_list (map a_balance (filter (\<lambda>a. a_type a = ty) as)))
     - sum_list (map a_balance (filter (\<lambda>a. a_type a = CreditCard) as))"
proof (induction as)
  case (Cons a as)
  then show ?case by (cases "a_type a") (simp_all add: signed_balance_def)
qed simp

lemma by_type_filter:
  "get_accounts_by_type ty d = filter (\<lambda>a. a_type a = ty) (filter a_active (ds_accounts d))"
  by (simp add: get_accounts_by_type_def conj_commute)

text \<open>The net worth agrees with the balances by type: it is what the account types other than credit
  cards add up to, less the credit card balances. For whole amounts of at most 2 to the 53 in all the
  doubles are exact.\<close>

theorem net_worth_by_type:
  assumes "exact_sum (map a_balance (ds_accounts d))"
  shows "get_total_net_worth d =
    (\<Sum>ty \<leftarrow> [Checking, Savings, Investment, Cash, OtherAccount]. get_total_balance_by_type ty d)
      - get_total_balance_by_type CreditCard d"
proof -
  let ?as = "filter a_active (ds_accounts d)"
  have active: "exact_sum (map a_balance ?as)" using assms by (rule exact_sum_filter)
  have by_type: "sum_list (map a_balance (filter (\<lambda>a. a_type a = ty) ?as)) = get_total_balance_by_type ty d" for ty
    unfolding get_total_balance_by_type_def by_type_filter
    by (rule total_exact [OF exact_sum_filter [OF active], symmetric])
  have "get_total_net_worth d = total (map signed_balance ?as)"
    by (simp add: get_total_net_worth_def foldl_add_balance total_def)
  also have "\<dots> = sum_list (map signed_balance ?as)"
    by (rule total_exact [OF exact_signed [OF active]])
  also have "\<dots> = (\<Sum>ty \<leftarrow> [Checking, Savings, Investment, Cash, OtherAccount].
        sum_list (map a_balance (filter (\<lambda>a. a_type a = ty) ?as)))
     - sum_list (map a_balance (filter (\<lambda>a. a_type a = CreditCard) ?as))"
    by (rule sum_by_type)
  finally show ?thesis by (simp only: by_type)
qed

definition plain_account :: "string \<Rightarrow> account_type \<Rightarrow> rat \<Rightarrow> account" where
  "plain_account i ty bal = \<lparr>a_id = i, a_name = i, a_entity = [], a_type = ty, a_balance = bal,
     a_institution = [], a_item = [], a_linked = False, a_active = True\<rparr>"

definition two_accounts :: data_store where
  "two_accounts = new_data_store\<lparr>ds_accounts :=
     [plain_account ''a'' Checking 300, plain_account ''b'' CreditCard 120]\<rparr>"

theorem net_worth_by_type_witness:
  "get_total_net_worth two_accounts =
    (\<Sum>ty \<leftarrow> [Checking, Savings, Investment, Cash, OtherAccount].
       get_total_balance_by_type ty two_accounts) - get_total_balance_by_type CreditCard two_accounts"
proof (rule net_worth_by_type)
  have "whole 300" "whole 120" unfolding whole_def by (metis of_int_numeral)+
  then show "exact_sum (map a_balance (ds_accounts two_accounts))"
    by (simp add: exact_sum_def two_accounts_def plain_account_def)
qed

section \<open>References and identifiers\<close>

text \<open>Every account belongs to a stored entity or to none.\<close>

definition refs_ok :: "data_store \<Rightarrow> bool" where
  "refs_ok d \<longleftrightarrow> list_all (\<lambda>a. a_entity a = [] \<or> a_entity a \<in> e_id ` set (ds_entities d)) (ds_accounts d)"

lemma note_error_frame [simp]:
  "ds_accounts (note_error b m d) = ds_accounts d" "ds_entities (note_error b m d) = ds_entities d"
  "ds_transactions (note_error b m d) = ds_transactions d"
  by (simp_all add: note_error_def)

text \<open>The operations of one store with the counter of the process. An event says what an operation
  brought in or took away: an identifier it generated, collections it loaded, an entity it removed.
  A load installs whatever the storage service hands over.\<close>

datatype store_event = Generated string | Loaded collections | Removed string

definition generated :: "int \<Rightarrow> string \<Rightarrow> 32 word \<Rightarrow> store_event list" where
  "generated now i n = (if i = [] then [Generated (fst (or_generated now i n))] else [])"

inductive store_step :: "32 word \<times> data_store \<Rightarrow> store_event list \<Rightarrow> 32 word \<times> data_store \<Rightarrow> bool" where
  entity: "store_step (n, d) (generated now (e_id e) n) (add_entity now e n d)"
| no_entity: "store_step (n, d) [Removed i] (n, remove_entity i d)"
| account: "store_step (n, d) (generated now (a_id a) n) (add_account now a n d)"
| no_account: "store_step (n, d) [] (n, remove_account i d)"
| transaction: "store_step (n, d) (generated now (t_id t) n) (add_transaction now t n d)"
| no_transaction: "store_step (n, d) [] (n, remove_transaction i d)"
| recategorized: "store_step (n, d) [] (n, update_transaction_category i c d)"
| category: "store_step (n, d) (generated now (c_id c) n) (add_category now c n d)"
| budget: "store_step (n, d) (generated now (b_id b) n) (add_budget now b n d)"
| spent: "store_step (n, d) [] (n, calculate_spent_amounts mon d)"
| defaults: "store_step (n, d) [] (n, init_default_categories d)"
| loaded: "store_step (n, d) [Loaded c] (n, (with_collections c d)\<lparr>ds_error := e\<rparr>)"
| noted: "store_step (n, d) [] (n, d\<lparr>ds_error := e\<rparr>)"

text \<open>Loading and saving with any storage service are steps: the collections a load installs are those
  the service returned.\<close>

lemma with_collections_fields [simp]:
  "ds_accounts (with_collections c d) = ds_accounts c" "ds_entities (with_collections c d) = ds_entities c"
  "ds_error (with_collections c d) = ds_error d"
  by (simp_all add: with_collections_def collections.defs data_store.defs)

lemma load_is_step:
  "store_load svc d s = (res, d', s') \<Longrightarrow> \<exists>evs. store_step (n, d) evs (n, d')"
proof (cases svc)
  case None
  assume "store_load svc d s = (res, d', s')"
  with None have "d' = d\<lparr>ds_error := ''No storage service configured''\<rparr>" by (simp add: store_load_def)
  then show ?thesis using store_step.noted [of n d] by blast
next
  case (Some v)
  obtain ok c s1 where l: "op_load v (collections.truncate d) s = (ok, c, s1)" by (metis prod_cases3)
  assume "store_load svc d s = (res, d', s')"
  then have "d' = (with_collections c d)\<lparr>ds_error := if ok = Inr False then op_error v s1 else ds_error (with_collections c d)\<rparr>"
    by (auto simp: store_load_def Some l)
  then show ?thesis using store_step.loaded [of n d c] by blast
qed

lemma save_is_step:
  "store_save svc d s = (ok, d', s') \<Longrightarrow> \<exists>evs. store_step (n, d) evs (n, d')"
proof -
  assume "store_save svc d s = (ok, d', s')"
  then have "d' = d \<or> (\<exists>e. d' = d\<lparr>ds_error := e\<rparr>)"
    by (auto simp: store_save_def Let_def split: option.splits prod.splits if_splits)
  moreover have "d = d\<lparr>ds_error := ds_error d\<rparr>" by simp
  ultimately obtain e where "d' = d\<lparr>ds_error := e\<rparr>" by blast
  then show ?thesis using store_step.noted [of n d] by blast
qed

text \<open>A process: its counter and the stores it has made, each operation on one of them.\<close>

record store_process =
  sp_counter :: "32 word"
  sp_stores :: "data_store list"

inductive process_run :: "store_event list \<Rightarrow> store_process \<Rightarrow> bool" where
  started: "process_run [] \<lparr>sp_counter = 0, sp_stores = []\<rparr>"
| made: "process_run evs p \<Longrightarrow> process_run evs (p\<lparr>sp_stores := sp_stores p @ [new_data_store]\<rparr>)"
| operated: "process_run evs p \<Longrightarrow> k < length (sp_stores p) \<Longrightarrow>
    store_step (sp_counter p, sp_stores p ! k) new (n, d) \<Longrightarrow>
    process_run (evs @ new) \<lparr>sp_counter = n, sp_stores = (sp_stores p)[k := d]\<rparr>"

text \<open>An account whose entity is not there. The store refuses none, but it can only come in with a load
  or by removing its entity.\<close>

definition dangling :: "data_store \<Rightarrow> account \<Rightarrow> bool" where
  "dangling d a \<longleftrightarrow> a \<in> set (ds_accounts d) \<and> a_entity a \<noteq> [] \<and> a_entity a \<notin> e_id ` set (ds_entities d)"

lemma refs_ok_dangling: "refs_ok d \<longleftrightarrow> (\<forall>a. \<not> dangling d a)"
  by (auto simp: refs_ok_def dangling_def list_all_iff)

lemma dangling_step:
  assumes "store_step (n, d) evs (n', d')" and "dangling d' a"
  shows "dangling d a \<or> (\<exists>c. Loaded c \<in> set evs \<and> a \<in> set (ds_accounts c)) \<or> Removed (a_entity a) \<in> set evs"
  using assms
proof (cases rule: store_step.cases)
  case (account now b)
  with assms(2) show ?thesis
    by (auto simp: dangling_def add_account_def Let_def list_ex_iff image_iff split: prod.splits if_splits)
qed (use assms(2) in \<open>auto simp: dangling_def add_entity_def remove_entity_def remove_account_def
    add_transaction_def remove_transaction_def update_transaction_category_def add_category_def
    add_budget_def calculate_spent_amounts_def init_default_categories_def Let_def split: prod.splits\<close>)

lemma no_dangling_new: "\<not> dangling new_data_store a"
  by (simp add: dangling_def new_data_store_def init_default_categories_def empty_collections_def
      collections.defs data_store.defs)

lemma process_dangling:
  "process_run evs p \<Longrightarrow> d \<in> set (sp_stores p) \<Longrightarrow> dangling d a \<Longrightarrow>
     (\<exists>c. Loaded c \<in> set evs \<and> a \<in> set (ds_accounts c)) \<or> Removed (a_entity a) \<in> set evs"
proof (induction arbitrary: d rule: process_run.induct)
  case (made evs p)
  then show ?case by (auto simp: no_dangling_new)
next
  case (operated evs p k new n d')
  show ?case
  proof (cases "d \<in> set (sp_stores p)")
    case True
    with operated show ?thesis by auto
  next
    case False
    then have "d = d'" using operated.prems(1) by (auto dest!: set_update_subset_insert [THEN subsetD])
    with operated dangling_step [OF operated.hyps(3)] show ?thesis by (metis Un_iff nth_mem set_append)
  qed
qed simp

text \<open>The identifiers a process generates: the one at position \<open>j\<close> carries the counter's \<open>j + 1\<close>.\<close>

fun ids_of :: "store_event list \<Rightarrow> string list" where
  "ids_of [] = []"
| "ids_of (Generated i # evs) = i # ids_of evs"
| "ids_of (_ # evs) = ids_of evs"

lemma ids_of_append [simp]: "ids_of (xs @ ys) = ids_of xs @ ids_of ys"
  by (induction xs rule: ids_of.induct) auto

lemma generated_counts:
  "snd (or_generated now i n) = n + of_nat (length (ids_of (generated now i n)))"
  "ids_of (generated now i n) = [] \<or> ids_of (generated now i n) = [fst (generate_id now n)]"
  by (simp_all add: or_generated_def generated_def generate_id_def)

lemma fst_adds [simp]:
  "fst (add_entity now e n d) = snd (or_generated now (e_id e) n)"
  "fst (add_account now a n d) = snd (or_generated now (a_id a) n)"
  "fst (add_transaction now t n d) = snd (or_generated now (t_id t) n)"
  "fst (add_category now c n d) = snd (or_generated now (c_id c) n)"
  "fst (add_budget now b n d) = snd (or_generated now (b_id b) n)"
  by (simp_all add: add_entity_def add_account_def add_transaction_def add_category_def add_budget_def
      Let_def split_def)

lemma step_counts:
  assumes "store_step (n, d) evs (n', d')"
  shows "n' = n + of_nat (length (ids_of evs)) \<and> (\<exists>now. ids_of evs = [] \<or> ids_of evs = [fst (generate_id now n)])"
proof -
  have none: "n' = n \<and> ids_of evs = [] \<or> (\<exists>now i. n' = snd (or_generated now i n) \<and> evs = generated now i n)"
    using assms
    by (cases rule: store_step.cases) (simp_all, (metis fst_adds fst_conv)+)
  show ?thesis
  proof (cases "n' = n \<and> ids_of evs = []")
    case False
    with none obtain now i where "n' = snd (or_generated now i n)" "evs = generated now i n" by blast
    then show ?thesis using generated_counts [of now i n] by auto
  qed simp
qed

lemma process_counts:
  "process_run evs p \<Longrightarrow> sp_counter p = of_nat (length (ids_of evs)) \<and>
     (\<forall>j < length (ids_of evs). \<exists>now. ids_of evs ! j = fst (generate_id now (of_nat j)))"
proof (induction rule: process_run.induct)
  case (operated evs p k new n d)
  from step_counts [OF operated.hyps(3)] obtain now where
    new: "n = sp_counter p + of_nat (length (ids_of new))"
      "ids_of new = [] \<or> ids_of new = [fst (generate_id now (sp_counter p))]" by blast
  with operated.IH show ?case by (auto simp: nth_append less_Suc_eq)
qed simp_all

lemma separator_free: "CHR ''_'' \<notin> set (int_to_string i)"
proof -
  have "CHR ''_'' \<notin> set (nat_to_string k)" for k
    using nat_to_string_digits(1) [of k] by (auto simp: list_all_iff is_digit_def)
  then show ?thesis by (auto simp: int_to_string_def)
qed

lemma generated_ids_differ:
  assumes "fst (generate_id now n) = fst (generate_id now' n')" shows "n = n'"
proof -
  have cut: "takeWhile (\<lambda>c. c \<noteq> CHR ''_'') (int_to_string i @ CHR ''_'' # z) = int_to_string i" for i z
    using separator_free [of i] by (subst takeWhile_append2) auto
  have "int_to_string (sint (n + 1)) @ CHR ''_'' # int_to_string now =
      int_to_string (sint (n' + 1)) @ CHR ''_'' # int_to_string now'"
    using assms by (simp add: generate_id_def)
  then have "int_to_string (sint (n + 1)) = int_to_string (sint (n' + 1))" by (metis cut)
  then have "sint (n + 1) = sint (n' + 1)" by (metis option.inject read_to_string)
  then have "n + 1 = n' + 1" by (rule signed_word_eqI)
  then show ?thesis by simp
qed

lemma process_ids_distinct:
  assumes "process_run evs p" "length (ids_of evs) < 2 ^ 32" shows "distinct (ids_of evs)"
  unfolding distinct_conv_nth
proof (intro allI impI notI)
  fix i j
  assume ij: "i < length (ids_of evs)" "j < length (ids_of evs)" "i \<noteq> j" "ids_of evs ! i = ids_of evs ! j"
  with process_counts [OF assms(1)] have "(of_nat i :: 32 word) = of_nat j" by (metis generated_ids_differ)
  then have "unat (of_nat i :: 32 word) = unat (of_nat j :: 32 word)" by simp
  then have "i mod 2 ^ 32 = j mod 2 ^ 32" by (simp add: unsigned_of_nat take_bit_eq_mod)
  with ij assms(2) show False by simp
qed

text \<open>C33. A process makes any number of stores and applies any operations to them, loads from a storage
  service included. An account whose entity is not stored can be there for two reasons only: a load brought
  in this very account, or its entity was removed, which does not look at the accounts; adding an
  account never leaves one. Where nothing was loaded or removed every account belongs to a stored entity
  or to none. All identifiers the stores generate are pairwise different, whatever the clock did, up to the
  2147483647 increments the counter allows.\<close>

theorem store_references:
  assumes "process_run evs p"
  shows "(\<forall>d \<in> set (sp_stores p). \<forall>a. dangling d a \<longrightarrow>
       (\<exists>c. Loaded c \<in> set evs \<and> a \<in> set (ds_accounts c)) \<or> Removed (a_entity a) \<in> set evs) \<and>
    ((\<forall>c. Loaded c \<notin> set evs) \<and> (\<forall>i. Removed i \<notin> set evs) \<longrightarrow> list_all refs_ok (sp_stores p)) \<and>
    (length (ids_of evs) < 2 ^ 31 \<longrightarrow> distinct (ids_of evs))"
proof (intro conjI impI ballI allI)
  show "(\<exists>c. Loaded c \<in> set evs \<and> a \<in> set (ds_accounts c)) \<or> Removed (a_entity a) \<in> set evs"
    if "d \<in> set (sp_stores p)" "dangling d a" for d a
    using process_dangling [OF assms that] .
  then show "list_all refs_ok (sp_stores p)" if "(\<forall>c. Loaded c \<notin> set evs) \<and> (\<forall>i. Removed i \<notin> set evs)"
    using that by (auto simp: list_all_iff refs_ok_dangling)
  show "distinct (ids_of evs)" if "length (ids_of evs) < 2 ^ 31"
    using process_ids_distinct [OF assms] that by simp
qed

definition small_entity :: entity where
  "small_entity = \<lparr>e_id = ''e'', e_name = ''E'', e_type = Trust, e_tax_id = [], e_active = True,
     e_created_at = []\<rparr>"

text \<open>Two stores of one process, an entity without an identifier added to each.\<close>

definition unnamed_entity :: entity where
  "unnamed_entity = small_entity\<lparr>e_id := []\<rparr>"

lemma two_ids:
  "generated 7 (e_id unnamed_entity) 0 = [Generated ''id_1_7'']" "generated 7 (e_id unnamed_entity) 1 = [Generated ''id_2_7'']"
  "fst (add_entity 7 unnamed_entity 0 d) = 1" "fst (add_entity 7 unnamed_entity 1 d) = 2"
  by (code_simp, code_simp, (simp add: unnamed_entity_def or_generated_def generate_id_def)+)

theorem store_references_witness:
  "\<exists>evs p. process_run evs p \<and> ids_of evs = [''id_1_7'', ''id_2_7''] \<and> length (sp_stores p) = 2 \<and>
     distinct (ids_of evs) \<and> list_all refs_ok (sp_stores p)"
proof -
  let ?d = "snd (add_entity 7 unnamed_entity 0 new_data_store)"
    and ?d' = "snd (add_entity 7 unnamed_entity 1 new_data_store)"
  have step: "store_step (n, d) (generated 7 (e_id unnamed_entity) n)
      (fst (add_entity 7 unnamed_entity n d), snd (add_entity 7 unnamed_entity n d))" for n d
    unfolding prod.collapse by (rule store_step.entity)
  have "process_run [] \<lparr>sp_counter = 0, sp_stores = [new_data_store, new_data_store]\<rparr>"
    using process_run.made [OF process_run.made [OF process_run.started]] by simp
  from process_run.operated [OF this _ step, of 0]
  have "process_run [Generated ''id_1_7''] \<lparr>sp_counter = 1, sp_stores = [?d, new_data_store]\<rparr>"
    by (simp add: two_ids del: fst_adds)
  from process_run.operated [OF this _ step, of 1]
  have run: "process_run [Generated ''id_1_7'', Generated ''id_2_7''] \<lparr>sp_counter = 2, sp_stores = [?d, ?d']\<rparr>"
    by (simp add: two_ids del: fst_adds)
  from store_references [OF this] show ?thesis
    by (intro exI [of _ "[Generated ''id_1_7'', Generated ''id_2_7'']"] exI [of _ "\<lparr>sp_counter = 2, sp_stores = [?d, ?d']\<rparr>"])
      (simp add: run)
qed

section \<open>Spent amounts\<close>

lemma sum_by_category:
  assumes "distinct cs"
  shows "(\<Sum>c \<leftarrow> cs. sum_list (map f (filter (\<lambda>t. t_category t = c) ts))) =
    (sum_list (map f (filter (\<lambda>t. t_category t \<in> set cs) ts)) :: rat)"
  using assms
proof (induction cs)
  case (Cons c cs)
  have "sum_list (map f (filter (\<lambda>t. t_category t \<in> set (c # cs)) ts)) =
      sum_list (map f (filter (\<lambda>t. t_category t = c) ts)) +
      sum_list (map f (filter (\<lambda>t. t_category t \<in> set cs) ts))"
    using Cons.prems by (induction ts) auto
  then show ?case using Cons by simp
qed simp

lemma sum_filter_le:
  "(\<And>t. P t \<Longrightarrow> Q t) \<Longrightarrow> (\<And>t. 0 \<le> f t) \<Longrightarrow>
     sum_list (map f (filter P ts)) \<le> (sum_list (map f (filter Q ts)) :: rat)"
  by (induction ts) (auto intro: add_increasing)

lemma spent_on_exact:
  assumes "exact_sum (map t_amount (ds_transactions d))"
  shows "spent_on mon c d = sum_list (map (\<lambda>t. \<bar>t_amount t\<bar>)
    (filter (\<lambda>t. t_category t = c) (filter (\<lambda>t. in_month mon t \<and> is_expense t) (ds_transactions d))))"
proof -
  have "exact_sum (map (\<lambda>t. \<bar>t_amount t\<bar>) (filter P (ds_transactions d)))" for P
    by (rule exact_sum_signs [OF exact_sum_filter [OF assms]]) auto
  then show ?thesis
    unfolding spent_on_def by (subst total_exact) (auto intro!: arg_cong [where f = sum_list] simp: filter_filter conj_ac)
qed

lemma spending_exact:
  assumes "exact_sum (map t_amount (ds_transactions d))"
  shows "get_spending_for_month mon d = sum_list (map (\<lambda>t. \<bar>t_amount t\<bar>)
    (filter (\<lambda>t. in_month mon t \<and> is_expense t) (ds_transactions d)))"
proof -
  have "exact_sum (map (\<lambda>t. \<bar>t_amount t\<bar>) (filter P (ds_transactions d)))" for P
    by (rule exact_sum_signs [OF exact_sum_filter [OF assms]]) auto
  then show ?thesis unfolding get_spending_for_month_def by (rule total_exact)
qed

lemma budgets_after:
  "map b_spent (get_budgets_for_month mon (calculate_spent_amounts mon d)) =
     map (\<lambda>b. spent_on mon (b_category b) d) (get_budgets_for_month mon d)"
proof -
  have "map b_spent (filter (\<lambda>b. b_month b = mon)
      (map (\<lambda>b. if b_month b = mon then b\<lparr>b_spent := g b\<rparr> else b) bs)) =
    map g (filter (\<lambda>b. b_month b = mon) bs)" for g bs
    by (induction bs) auto
  then show ?thesis by (simp add: get_budgets_for_month_def calculate_spent_amounts_def)
qed

text \<open>C34. Recomputing the spent amounts of a month changes nothing but the spent amounts of that month's
  budgets: the store is the same but for its budgets, each budget is the same but for its spent amount, and
  budgets of other months are the same altogether. A second run changes nothing more. When the budgets of the month have distinct
  categories, they add up to at most the month's spending, and to exactly the spending when every
  expense of the month is in a budgeted category (whole amounts, so that the doubles are exact).\<close>

theorem spent_amounts_partition:
  "(\<exists>bs. calculate_spent_amounts mon d = d\<lparr>ds_budgets := bs\<rparr> \<and>
       list_all2 (\<lambda>b b'. b'\<lparr>b_spent := b_spent b\<rparr> = b \<and> (b_month b = mon \<or> b' = b)) (ds_budgets d) bs) \<and>
    calculate_spent_amounts mon (calculate_spent_amounts mon d) = calculate_spent_amounts mon d \<and>
    (exact_sum (map t_amount (ds_transactions d)) \<and> distinct (map b_category (get_budgets_for_month mon d)) \<longrightarrow>
     sum_list (map b_spent (get_budgets_for_month mon (calculate_spent_amounts mon d)))
      \<le> get_spending_for_month mon d \<and>
     (list_all (\<lambda>t. in_month mon t \<and> is_expense t \<longrightarrow>
         t_category t \<in> b_category ` set (get_budgets_for_month mon d)) (ds_transactions d) \<longrightarrow>
      sum_list (map b_spent (get_budgets_for_month mon (calculate_spent_amounts mon d)))
        = get_spending_for_month mon d))"
proof (intro conjI impI)
  let ?ts = "filter (\<lambda>t. in_month mon t \<and> is_expense t) (ds_transactions d)"
  let ?cs = "map b_category (get_budgets_for_month mon d)"
  have frame: "spent_on mon c (calculate_spent_amounts mon d) = spent_on mon c d" for c
    by (simp add: spent_on_def calculate_spent_amounts_def)
  show "\<exists>bs. calculate_spent_amounts mon d = d\<lparr>ds_budgets := bs\<rparr> \<and>
       list_all2 (\<lambda>b b'. b'\<lparr>b_spent := b_spent b\<rparr> = b \<and> (b_month b = mon \<or> b' = b)) (ds_budgets d) bs"
    by (rule exI [of _ "ds_budgets (calculate_spent_amounts mon d)"])
      (simp add: calculate_spent_amounts_def list_all2_conv_all_nth)
  show "calculate_spent_amounts mon (calculate_spent_amounts mon d) = calculate_spent_amounts mon d"
    using frame by (simp add: calculate_spent_amounts_def [of mon "calculate_spent_amounts mon d"])
      (simp add: calculate_spent_amounts_def)
  assume a: "exact_sum (map t_amount (ds_transactions d)) \<and> distinct (map b_category (get_budgets_for_month mon d))"
  note assms = a [THEN conjunct1] a [THEN conjunct2]
  have "map b_spent (get_budgets_for_month mon (calculate_spent_amounts mon d)) =
      map (\<lambda>c. spent_on mon c d) ?cs"
    by (simp add: budgets_after)
  then have sum: "sum_list (map b_spent (get_budgets_for_month mon (calculate_spent_amounts mon d))) =
      sum_list (map (\<lambda>t. \<bar>t_amount t\<bar>) (filter (\<lambda>t. t_category t \<in> set ?cs) ?ts))"
    using sum_by_category [OF assms(2), of "\<lambda>t. \<bar>t_amount t\<bar>" ?ts] by (simp add: spent_on_exact [OF assms(1)])
  show "sum_list (map b_spent (get_budgets_for_month mon (calculate_spent_amounts mon d)))
           \<le> get_spending_for_month mon d"
    unfolding sum spending_exact [OF assms(1)]
    using sum_filter_le [of "\<lambda>t. t_category t \<in> set ?cs" "\<lambda>t. True" "\<lambda>t. \<bar>t_amount t\<bar>" ?ts] by simp
  show "sum_list (map b_spent (get_budgets_for_month mon (calculate_spent_amounts mon d)))
           = get_spending_for_month mon d"
    if "list_all (\<lambda>t. in_month mon t \<and> is_expense t \<longrightarrow>
          t_category t \<in> b_category ` set (get_budgets_for_month mon d)) (ds_transactions d)"
  proof -
    have "filter (\<lambda>t. t_category t \<in> set ?cs) ?ts = ?ts"
      using that by (auto simp: list_all_iff intro!: filter_cong)
    then show ?thesis unfolding sum spending_exact [OF assms(1)] by simp
  qed
qed

definition lunch :: transaction where
  "lunch = \<lparr>t_id = ''t'', t_account = ''a'', t_date = ''2026-05-04'', t_amount = -12,
     t_description = ''lunch'', t_category = ''cat_food'', t_pending = False, t_plaid_id = [],
     t_notes = [], t_check = []\<rparr>"

definition may_store :: data_store where
  "may_store = new_data_store\<lparr>ds_transactions := [lunch],
     ds_budgets := [\<lparr>b_id = ''b'', b_entity = ''e'', b_category = ''cat_food'', b_month = ''2026-05'',
       b_limit = 100, b_spent = 0\<rparr>]\<rparr>"

theorem spent_amounts_partition_witness:
  "sum_list (map b_spent (get_budgets_for_month ''2026-05'' (calculate_spent_amounts ''2026-05'' may_store)))
     = get_spending_for_month ''2026-05'' may_store"
proof (rule spent_amounts_partition [THEN conjunct2, THEN conjunct2, THEN mp, THEN conjunct2, THEN mp])
  have "whole (- 12)" unfolding whole_def by (metis of_int_neg_numeral)
  then show "exact_sum (map t_amount (ds_transactions may_store)) \<and>
      distinct (map b_category (get_budgets_for_month ''2026-05'' may_store))"
    by (simp add: exact_sum_def may_store_def lunch_def get_budgets_for_month_def)
qed (simp_all add: may_store_def get_budgets_for_month_def lunch_def)

end
