(* ===== verification/Local_Storage.thy ===== *)
theory Local_Storage
  imports Data_Store
begin

text \<open>The JSON file of the client (src/src/services/StorageService.cpp). Parsing and printing JSON text
  are functions of nlohmann::json, an argument with the documented law that printed values parse back.
  A disk maps paths to contents and says which of them may be opened and how much of a write reaches
  them: the code never looks at the stream after writing. A file that could be opened is read whole. The worker thread of
  \<^verbatim>\<open>std::async\<close> is awaited at once, so an operation is one step.
  What is shown: loading what was saved gives the same collections, except that budgets lose their
  entity; a failed save has already emptied the file; a failed load leaves the collections it did
  not reach, and a copy of the file.\<close>

section \<open>JSON text and the disk\<close>

record json_text =
  dump2 :: "json \<Rightarrow> string + string"
  parse_text :: "string \<Rightarrow> (bool \<times> string) + json"

text \<open>Values with doubles in every number that is not an integer and object members as
  \<^verbatim>\<open>std::map\<close> keeps them.\<close>

fun json_ok :: "json \<Rightarrow> bool" where
  "json_ok (JFloat None) \<longleftrightarrow> False"
| "json_ok (JFloat (Some q)) \<longleftrightarrow> is_double q"
| "json_ok (JArr vs) \<longleftrightarrow> list_all json_ok vs"
| "json_ok (JObj kvs) \<longleftrightarrow> sorted_wrt (<) (map fst kvs) \<and> list_all (\<lambda>kv. json_ok (snd kv)) kvs"
| "json_ok _ \<longleftrightarrow> True"

definition json_text_spec :: "json_text \<Rightarrow> bool" where
  "json_text_spec T \<longleftrightarrow> (\<forall>j s. dump2 T j = Inr s \<and> json_ok j \<longrightarrow> parse_text T s = Inr j)"

record disk =
  files :: "string \<Rightarrow> string option"
  readable :: "string \<Rightarrow> bool"
  writable :: "string \<Rightarrow> bool"
  room :: "string \<Rightarrow> nat option"

text \<open>\<^verbatim>\<open>room\<close> is how many bytes of a write reach the file before the device fails, if it does.\<close>

definition reaching :: "string \<Rightarrow> disk \<Rightarrow> string \<Rightarrow> string" where
  "reaching p k s = (case room k p of None \<Rightarrow> s | Some n \<Rightarrow> take n s)"

definition open_read :: "string \<Rightarrow> disk \<Rightarrow> string option" where
  "open_read p k = (if readable k p then files k p else None)"

definition write_file :: "string \<Rightarrow> string \<Rightarrow> disk \<Rightarrow> disk" where
  "write_file p s k = k\<lparr>files := (files k)(p := Some (reaching p k s))\<rparr>"

record json_storage =
  js_path :: string
  js_error :: string
  js_disk :: disk

definition create_backup :: "string \<Rightarrow> disk \<Rightarrow> disk" where
  "create_backup p k = (case open_read p k of
     None \<Rightarrow> k
   | Some bytes \<Rightarrow>
       if writable k (p @ ''.backup'') then write_file (p @ ''.backup'') bytes k else k)"

section \<open>Reading the collections\<close>

text \<open>A loop that appends what it reads: what it had appended when the exception was thrown stays.\<close>

fun append_parsed :: "(json \<Rightarrow> string + 'a) \<Rightarrow> json list \<Rightarrow> 'a list \<times> string option" where
  "append_parsed f [] = ([], None)"
| "append_parsed f (v # vs) = (case f v of
     Inl what \<Rightarrow> ([], Some what)
   | Inr x \<Rightarrow> (let (xs, ex) = append_parsed f vs in (x # xs, ex)))"

definition parse_collection ::
    "string \<Rightarrow> (json \<Rightarrow> string + 'a) \<Rightarrow> json \<Rightarrow> 'a list \<times> string option" where
  "parse_collection key f j = (case json_at j key of
     None \<Rightarrow> ([], None)
   | Some v \<Rightarrow> append_parsed f (loop_elements v))"

definition parse_entity :: "json \<Rightarrow> string + entity" where
  "parse_entity e =
     bind_sum (value_or as_string e ''id'' []) (\<lambda>i.
     bind_sum (value_or as_string e ''name'' []) (\<lambda>n.
     bind_sum (value_or as_string e ''type'' []) (\<lambda>ty.
     bind_sum (value_or as_string e ''tax_id'' []) (\<lambda>tax.
     bind_sum (value_or as_bool e ''is_active'' True) (\<lambda>act.
     bind_sum (value_or as_string e ''created_at'' []) (\<lambda>cr.
     Inr \<lparr>e_id = i, e_name = n, e_type = entity_type_from_string ty, e_tax_id = tax,
          e_active = act, e_created_at = cr\<rparr>))))))"

definition parse_account :: "json \<Rightarrow> string + account" where
  "parse_account a =
     bind_sum (value_or as_string a ''id'' []) (\<lambda>i.
     bind_sum (value_or as_string a ''name'' []) (\<lambda>n.
     bind_sum (value_or as_string a ''entity_id'' []) (\<lambda>e.
     bind_sum (value_or as_string a ''type'' []) (\<lambda>ty.
     bind_sum (value_or as_double a ''balance'' 0) (\<lambda>bal.
     bind_sum (value_or as_string a ''institution'' []) (\<lambda>inst.
     bind_sum (value_or as_string a ''plaid_item_id'' []) (\<lambda>item.
     bind_sum (value_or as_bool a ''is_plaid_linked'' False) (\<lambda>link.
     bind_sum (value_or as_bool a ''is_active'' True) (\<lambda>act.
     Inr \<lparr>a_id = i, a_name = n, a_entity = e, a_type = account_type_from_string ty, a_balance = bal,
          a_institution = inst, a_item = item, a_linked = link, a_active = act\<rparr>)))))))))"

definition parse_transaction_row :: "json \<Rightarrow> string + transaction" where
  "parse_transaction_row t =
     bind_sum (value_or as_string t ''id'' []) (\<lambda>i.
     bind_sum (value_or as_string t ''account_id'' []) (\<lambda>acc.
     bind_sum (value_or as_string t ''date'' []) (\<lambda>date.
     bind_sum (value_or as_double t ''amount'' 0) (\<lambda>amount.
     bind_sum (value_or as_string t ''description'' []) (\<lambda>desc.
     bind_sum (value_or as_string t ''category_id'' []) (\<lambda>cat.
     bind_sum (value_or as_bool t ''pending'' False) (\<lambda>pend.
     bind_sum (value_or as_string t ''plaid_transaction_id'' []) (\<lambda>pid.
     bind_sum (value_or as_string t ''notes'' []) (\<lambda>notes.
     bind_sum (value_or as_string t ''check_number'' []) (\<lambda>chk.
     Inr \<lparr>t_id = i, t_account = acc, t_date = date, t_amount = amount, t_description = desc,
          t_category = cat, t_pending = pend, t_plaid_id = pid, t_notes = notes, t_check = chk\<rparr>))))))))))"

definition category_type_of :: "string \<Rightarrow> category_type" where
  "category_type_of s = (if s = ''income'' then Income else if s = ''transfer'' then Transfer else Expense)"

definition parse_category :: "json \<Rightarrow> string + category" where
  "parse_category c =
     bind_sum (value_or as_string c ''id'' []) (\<lambda>i.
     bind_sum (value_or as_string c ''name'' []) (\<lambda>n.
     bind_sum (value_or as_string c ''type'' ''expense'') (\<lambda>ty.
     bind_sum (value_or as_string c ''emoji'' []) (\<lambda>em.
     bind_sum (value_or as_string c ''parent_id'' []) (\<lambda>par.
     bind_sum (value_or as_bool c ''is_system'' False) (\<lambda>sys.
     Inr \<lparr>c_id = i, c_name = n, c_type = category_type_of ty, c_emoji = em, c_parent = par,
          c_system = sys\<rparr>))))))"

text \<open>The entity of a budget is not read.\<close>

definition parse_budget :: "json \<Rightarrow> string + budget" where
  "parse_budget b =
     bind_sum (value_or as_string b ''id'' []) (\<lambda>i.
     bind_sum (value_or as_string b ''category_id'' []) (\<lambda>cat.
     bind_sum (value_or as_string b ''month'' []) (\<lambda>mon.
     bind_sum (value_or as_double b ''limit_amount'' 0) (\<lambda>lim.
     bind_sum (value_or as_double b ''spent_amount'' 0) (\<lambda>spent.
     Inr \<lparr>b_id = i, b_entity = [], b_category = cat, b_month = mon, b_limit = lim, b_spent = spent\<rparr>)))))"

text \<open>The five collections in order; an exception ends the reading.\<close>

definition parse_stage ::
    "(json \<Rightarrow> 'a list \<times> string option) \<Rightarrow> ('a list \<Rightarrow> collections \<Rightarrow> collections) \<Rightarrow> json \<Rightarrow>
       collections \<times> string option \<Rightarrow> collections \<times> string option" where
  "parse_stage p put j = (\<lambda>(c, ex). case ex of
     Some what \<Rightarrow> (c, Some what)
   | None \<Rightarrow> (let (xs, ex1) = p j in (put xs c, ex1)))"

definition parse_all :: "json \<Rightarrow> collections \<Rightarrow> collections \<times> string option" where
  "parse_all j c =
     parse_stage (parse_collection ''budgets'' parse_budget) (\<lambda>xs. ds_budgets_update (\<lambda>_. xs)) j
     (parse_stage (parse_collection ''categories'' parse_category) (\<lambda>xs. ds_categories_update (\<lambda>_. xs)) j
     (parse_stage (parse_collection ''transactions'' parse_transaction_row)
        (\<lambda>xs. ds_transactions_update (\<lambda>_. xs)) j
     (parse_stage (parse_collection ''accounts'' parse_account) (\<lambda>xs. ds_accounts_update (\<lambda>_. xs)) j
     (parse_stage (parse_collection ''entities'' parse_entity) (\<lambda>xs. ds_entities_update (\<lambda>_. xs)) j
        (c, None)))))"

definition failed_load :: "string \<Rightarrow> json_storage \<Rightarrow> json_storage" where
  "failed_load msg s = s\<lparr>js_error := msg @ '' (backup created)'',
     js_disk := create_backup (js_path s) (js_disk s)\<rparr>"

definition json_load :: "json_text \<Rightarrow> collections \<Rightarrow> json_storage \<Rightarrow> bool \<times> collections \<times> json_storage" where
  "json_load T c s = (case open_read (js_path s) (js_disk s) of
     None \<Rightarrow> (False, c, s\<lparr>js_error := ''Could not open file: '' @ js_path s\<rparr>)
   | Some bytes \<Rightarrow> (case parse_text T bytes of
       Inl (syntax, what) \<Rightarrow>
         (False, c, failed_load ((if syntax then ''JSON parse error: '' else ''Parse error: '') @ what) s)
     | Inr j \<Rightarrow> (case parse_all j c of
         (c1, None) \<Rightarrow> (True, c1, s)
       | (c1, Some what) \<Rightarrow> (False, c1, failed_load (''Parse error: '' @ what) s))))"

section \<open>Writing the collections\<close>

definition entity_to_json :: "entity \<Rightarrow> json" where
  "entity_to_json e = JObj [(''created_at'', JStr (e_created_at e)), (''id'', JStr (e_id e)),
     (''is_active'', JBool (e_active e)), (''name'', JStr (e_name e)), (''tax_id'', JStr (e_tax_id e)),
     (''type'', JStr (entity_type_to_string (e_type e)))]"

definition account_to_json :: "account \<Rightarrow> json" where
  "account_to_json a = JObj [(''balance'', JFloat (Some (a_balance a))), (''entity_id'', JStr (a_entity a)),
     (''id'', JStr (a_id a)), (''institution'', JStr (a_institution a)), (''is_active'', JBool (a_active a)),
     (''is_plaid_linked'', JBool (a_linked a)), (''name'', JStr (a_name a)),
     (''plaid_item_id'', JStr (a_item a)), (''type'', JStr (account_type_to_string (a_type a)))]"

definition transaction_to_json :: "transaction \<Rightarrow> json" where
  "transaction_to_json t = JObj [(''account_id'', JStr (t_account t)),
     (''amount'', JFloat (Some (t_amount t))), (''category_id'', JStr (t_category t)),
     (''check_number'', JStr (t_check t)), (''date'', JStr (t_date t)),
     (''description'', JStr (t_description t)), (''id'', JStr (t_id t)), (''notes'', JStr (t_notes t)),
     (''pending'', JBool (t_pending t)), (''plaid_transaction_id'', JStr (t_plaid_id t))]"

definition category_type_string :: "category_type \<Rightarrow> string" where
  "category_type_string ty = (if ty = Income then ''income'' else if ty = Transfer then ''transfer'' else ''expense'')"

definition category_to_json :: "category \<Rightarrow> json" where
  "category_to_json c = JObj [(''emoji'', JStr (c_emoji c)), (''id'', JStr (c_id c)),
     (''is_system'', JBool (c_system c)), (''name'', JStr (c_name c)), (''parent_id'', JStr (c_parent c)),
     (''type'', JStr (category_type_string (c_type c)))]"

definition budget_to_json :: "budget \<Rightarrow> json" where
  "budget_to_json b = JObj [(''category_id'', JStr (b_category b)), (''entity_id'', JStr (b_entity b)),
     (''id'', JStr (b_id b)), (''limit_amount'', JFloat (Some (b_limit b))), (''month'', JStr (b_month b)),
     (''spent_amount'', JFloat (Some (b_spent b)))]"

definition collections_to_json :: "collections \<Rightarrow> json" where
  "collections_to_json c = JObj [
     (''accounts'', JArr (map account_to_json (ds_accounts c))),
     (''budgets'', JArr (map budget_to_json (ds_budgets c))),
     (''categories'', JArr (map category_to_json (ds_categories c))),
     (''entities'', JArr (map entity_to_json (ds_entities c))),
     (''transactions'', JArr (map transaction_to_json (ds_transactions c)))]"

text \<open>Opening the file for writing empties it before anything is printed. After \<^verbatim>\<open>file << j.dump(2)\<close> the save
  reports success, whatever became of the write.\<close>

definition json_save :: "json_text \<Rightarrow> collections \<Rightarrow> json_storage \<Rightarrow> bool \<times> json_storage" where
  "json_save T c s =
     (if \<not> writable (js_disk s) (js_path s)
      then (False, s\<lparr>js_error := ''Could not open file for writing: '' @ js_path s\<rparr>)
      else let s1 = s\<lparr>js_disk := write_file (js_path s) [] (js_disk s)\<rparr>
           in case dump2 T (collections_to_json c) of
                Inl what \<Rightarrow> (False, s1\<lparr>js_error := ''Write error: '' @ what\<rparr>)
              | Inr out \<Rightarrow> (True, s1\<lparr>js_disk := write_file (js_path s) out (js_disk s1)\<rparr>))"

definition json_service :: "json_text \<Rightarrow> json_storage storage_service" where
  "json_service T = \<lparr>op_load = \<lambda>c s. (case json_load T c s of (ok, r) \<Rightarrow> (Inr ok, r)), op_save = json_save T, op_error = js_error\<rparr>"

section \<open>What is written reads back\<close>

lemma as_simps [simp]: "as_string (JStr s) = Inr s" "as_double (JFloat (Some q)) = Inr q"
  by (simp_all add: as_string_def as_double_def)

lemma parse_entity_back [simp]: "parse_entity (entity_to_json e) = Inr e"
  by (simp add: parse_entity_def entity_to_json_def value_or_def)

lemma parse_account_back [simp]: "parse_account (account_to_json a) = Inr a"
  by (simp add: parse_account_def account_to_json_def value_or_def)

lemma parse_transaction_back [simp]: "parse_transaction_row (transaction_to_json t) = Inr t"
  by (simp add: parse_transaction_row_def transaction_to_json_def value_or_def)

lemma category_type_back [simp]: "category_type_of (category_type_string ty) = ty"
  by (cases ty) (simp_all add: category_type_of_def category_type_string_def)

lemma parse_category_back [simp]: "parse_category (category_to_json c) = Inr c"
  by (simp add: parse_category_def category_to_json_def value_or_def)

lemma parse_budget_back [simp]: "parse_budget (budget_to_json b) = Inr (b\<lparr>b_entity := []\<rparr>)"
  by (simp add: parse_budget_def budget_to_json_def value_or_def)

lemma append_parsed_back:
  "(\<And>x. f (g x) = Inr (h x)) \<Longrightarrow> append_parsed f (map g xs) = (map h xs, None)"
  by (induction xs) simp_all

text \<open>The collections as a reload sees them: the budgets have lost their entity.\<close>

definition reloaded :: "collections \<Rightarrow> collections" where
  "reloaded c = c\<lparr>ds_budgets := map (\<lambda>b. b\<lparr>b_entity := []\<rparr>) (ds_budgets c)\<rparr>"

lemma parse_all_back: "parse_all (collections_to_json c) c0 = (reloaded c, None)"
  by (simp add: parse_all_def parse_stage_def parse_collection_def collections_to_json_def reloaded_def
      append_parsed_back [where h = "\<lambda>x. x"] append_parsed_back [where h = "\<lambda>b. b\<lparr>b_entity := []\<rparr>"])

definition amounts_ok :: "collections \<Rightarrow> bool" where
  "amounts_ok c \<longleftrightarrow> list_all (\<lambda>a. is_double (a_balance a)) (ds_accounts c) \<and>
     list_all (\<lambda>t. is_double (t_amount t)) (ds_transactions c) \<and>
     list_all (\<lambda>b. is_double (b_limit b) \<and> is_double (b_spent b)) (ds_budgets c)"

lemma json_ok_collections: "amounts_ok c \<Longrightarrow> json_ok (collections_to_json c)"
  by (simp add: amounts_ok_def collections_to_json_def list.pred_map comp_def
      entity_to_json_def account_to_json_def transaction_to_json_def category_to_json_def
      budget_to_json_def less_list_code less_char_def list_all_iff)

section \<open>The contract of a storage service\<close>

text \<open>What the data store relies on: after a save that succeeds, loading succeeds and yields the saved
  collections as the service represents them. The client's lemma is the round trip of the store.\<close>

locale persistent_storage =
  fixes svc :: "'s storage_service" and ok :: "collections \<Rightarrow> 's \<Rightarrow> bool"
    and norm :: "collections \<Rightarrow> collections"
  assumes load_saved: "ok c s \<Longrightarrow> op_save svc c s = (True, s') \<Longrightarrow>
      \<exists>s''. op_load svc c0 s' = (Inr True, norm c, s'')"
begin

lemma reopened:
  assumes "ok (collections.truncate d) s" and "store_save (Some svc) d s = (True, d', s')"
  shows "fst (store_load (Some svc) e s') = Inr True \<and>
    collections.truncate (fst (snd (store_load (Some svc) e s'))) = norm (collections.truncate d)"
proof -
  have "op_save svc (collections.truncate d) s = (True, s')"
    using assms(2) by (auto simp: store_save_def Let_def split: prod.splits if_splits)
  then obtain s'' where "op_load svc (collections.truncate e) s' = (Inr True, norm (collections.truncate d), s'')"
    using load_saved [OF assms(1)] by blast
  then show ?thesis by (simp add: store_load_def with_collections_def collections.defs)
qed

lemma same_again:
  assumes "ok c s" and "op_save svc c s = (True, s')" and "norm c = c"
  shows "\<exists>s''. op_load svc c0 s' = (Inr True, c, s'')"
  using load_saved [OF assms(1,2), of c0] assms(3) by simp

end

text \<open>The JSON file keeps the contract when it may be read and written, no write to it stops short and the
  amounts are doubles.\<close>

definition file_ok :: "json_text \<Rightarrow> collections \<Rightarrow> json_storage \<Rightarrow> bool" where
  "file_ok T c s \<longleftrightarrow> json_text_spec T \<and> readable (js_disk s) (js_path s) \<and>
     room (js_disk s) (js_path s) = None \<and> amounts_ok c"

lemma json_load_saved:
  assumes "file_ok T c s" and "json_save T c s = (True, s')"
  shows "json_load T c0 s' = (True, reloaded c, s')"
proof -
  obtain out where printed: "dump2 T (collections_to_json c) = Inr out"
    and s': "s' = s\<lparr>js_disk := write_file (js_path s) out (write_file (js_path s) [] (js_disk s))\<rparr>"
    using assms(2) by (auto simp: json_save_def Let_def split: if_splits sum.splits)
  have "parse_text T out = Inr (collections_to_json c)"
    using assms(1) printed json_ok_collections by (auto simp: file_ok_def json_text_spec_def)
  then show ?thesis
    using assms(1)
    by (simp add: json_load_def s' open_read_def write_file_def reaching_def file_ok_def parse_all_back)
qed

interpretation json_file: persistent_storage "json_service T" "file_ok T" reloaded for T
  by unfold_locales (auto simp: json_service_def json_load_saved)

section \<open>Properties\<close>

text \<open>Saving the store and loading it again, into whatever was in memory, gives the saved collections
  with one exception: the entity of every budget is lost. With budgets that have no entity the round
  trip is exact.\<close>

theorem saved_store_reloads:
  assumes "file_ok T (collections.truncate d) s"
    and "store_save (Some (json_service T)) d s = (True, d', s')"
  shows "fst (store_load (Some (json_service T)) e s') = Inr True \<and>
    collections.truncate (fst (snd (store_load (Some (json_service T)) e s'))) =
      reloaded (collections.truncate d) \<and>
    (reloaded (collections.truncate d) = collections.truncate d) =
      list_all (\<lambda>b. b_entity b = []) (ds_budgets d)"
proof -
  have "map (\<lambda>b. b\<lparr>b_entity := []\<rparr>) bs = bs \<longleftrightarrow> list_all (\<lambda>b. b_entity b = []) bs" for bs :: "budget list"
    by (induction bs) (auto, metis budget.select_convs(2) budget.surjective budget.update_convs(2))
  then have "(reloaded (collections.truncate d) = collections.truncate d) =
      list_all (\<lambda>b. b_entity b = []) (ds_budgets d)"
    by (simp add: reloaded_def collections.defs)
  then show ?thesis using json_file.reopened [OF assms] by blast
qed

text \<open>A printer and parser that know one document, for the witnesses.\<close>

definition one_document :: "json \<Rightarrow> json_text" where
  "one_document j0 = \<lparr>dump2 = \<lambda>j. if j = j0 then Inr ''doc'' else Inl ''invalid UTF-8 byte'',
     parse_text = \<lambda>s. if s = ''doc'' then Inr j0 else Inl (True, ''unexpected end of input'')\<rparr>"

lemma one_document_spec: "json_text_spec (one_document j)"
  by (simp add: json_text_spec_def one_document_def)

definition open_disk :: "(string \<Rightarrow> string option) \<Rightarrow> disk" where
  "open_disk m = \<lparr>files = m, readable = \<lambda>_. True, writable = \<lambda>_. True, room = \<lambda>_. None\<rparr>"

definition data_json :: "(string \<Rightarrow> string option) \<Rightarrow> json_storage" where
  "data_json m = \<lparr>js_path = ''data.json'', js_error = [], js_disk = open_disk m\<rparr>"

lemma may_store_amounts: "amounts_ok (collections.truncate may_store)"
proof -
  have "is_double (- 12)" "is_double 100" using double_int [of "- 12"] double_int [of 100] by simp_all
  then show ?thesis
    by (simp add: amounts_ok_def may_store_def new_data_store_def init_default_categories_def
        empty_collections_def lunch_def collections.defs data_store.defs)
qed

theorem saved_store_reloads_witness:
  "let T = one_document (collections_to_json (collections.truncate may_store)) in
   collections.truncate (fst (snd (store_load (Some (json_service T)) new_data_store
     (snd (snd (store_save (Some (json_service T)) may_store (data_json Map.empty))))))) =
   reloaded (collections.truncate may_store)"
proof -
  let ?T = "one_document (collections_to_json (collections.truncate may_store))"
  let ?r = "store_save (Some (json_service ?T)) may_store (data_json Map.empty)"
  have ok: "file_ok ?T (collections.truncate may_store) (data_json Map.empty)"
    by (simp add: file_ok_def one_document_spec may_store_amounts data_json_def open_disk_def)
  have "?r = (True, may_store, snd (snd ?r))"
    by (simp add: store_save_def json_service_def json_save_def data_json_def open_disk_def
        one_document_def write_file_def)
  from saved_store_reloads [OF ok this, of new_data_store] show ?thesis unfolding Let_def by blast
qed

text \<open>A save that cannot print the collections, as for a byte that is not UTF-8, reports the failure but has
  emptied the file: what it held is gone, and the next start cannot load it. A load that cannot parse
  the file leaves the collections and the file alone and copies its bytes to the backup, as far as they
  reach it.\<close>

theorem storage_failures:
  assumes "writable (js_disk s) (js_path s)" and "dump2 T (collections_to_json c) = Inl what"
    and "readable (js_disk s) (js_path s)" and "files (js_disk s) (js_path s) = Some bytes"
    and "parse_text T bytes = Inl (syn, msg)" and "writable (js_disk s) (js_path s @ ''.backup'')"
  shows "(let (ok, s') = json_save T c s
          in \<not> ok \<and> files (js_disk s') (js_path s) = Some [] \<and> js_error s' = ''Write error: '' @ what) \<and>
    (let (ok, c', s') = json_load T c s
     in \<not> ok \<and> c' = c \<and> files (js_disk s') (js_path s) = Some bytes \<and>
        files (js_disk s') (js_path s @ ''.backup'') =
          Some (reaching (js_path s @ ''.backup'') (js_disk s) bytes))"
  using assms
  by (simp add: json_save_def json_load_def open_read_def write_file_def reaching_def failed_load_def
      create_backup_def split: option.split)

theorem storage_failures_witness:
  "let (ok, s') = json_save (one_document JNull) empty_collections (data_json (Map.empty(''data.json'' \<mapsto> ''{'')))
   in \<not> ok \<and> files (js_disk s') ''data.json'' = Some []"
  using storage_failures [where s = "data_json (Map.empty(''data.json'' \<mapsto> ''{''))" and T = "one_document JNull"
      and c = empty_collections and what = "''invalid UTF-8 byte''" and bytes = "''{''" and syn = True
      and msg = "''unexpected end of input''"]
  by (simp add: data_json_def open_disk_def one_document_def collections_to_json_def split_def Let_def)

text \<open>What a failed parse of one element leaves behind: the collections before it are those of the file,
  its own holds the elements before it, and the later ones are those of memory.\<close>

lemma partial_load:
  assumes "parse_collection ''entities'' parse_entity j = (es, None)"
    and "parse_collection ''accounts'' parse_account j = (as, Some what)"
  shows "parse_all j c = (c\<lparr>ds_entities := es, ds_accounts := as\<rparr>, Some what)"
  using assms by (simp add: parse_all_def parse_stage_def)

text \<open>A save never notices a short write: it reports success whenever the file could be opened and the
  collections printed, and the file then holds what reached it.\<close>

theorem save_trusts_the_stream:
  assumes "dump2 T (collections_to_json c) = Inr out"
  shows "fst (json_save T c s) = writable (js_disk s) (js_path s) \<and>
    (fst (json_save T c s) \<longrightarrow>
       files (js_disk (snd (json_save T c s))) (js_path s) = Some (reaching (js_path s) (js_disk s) out) \<and>
       js_error (snd (json_save T c s)) = js_error s)"
  using assms by (simp add: json_save_def write_file_def reaching_def split: option.split)

theorem save_trusts_the_stream_witness:
  "let s = data_json Map.empty; s1 = s\<lparr>js_disk := (js_disk s)\<lparr>room := \<lambda>_. Some 1\<rparr>\<rparr>;
     (ok, s2) = json_save (one_document (collections_to_json empty_collections)) empty_collections s1
   in ok \<and> files (js_disk s2) ''data.json'' = Some ''d''"
  using save_trusts_the_stream [of "one_document (collections_to_json empty_collections)" empty_collections "''doc''"
      "data_json Map.empty\<lparr>js_disk := (js_disk (data_json Map.empty))\<lparr>room := \<lambda>_. Some 1\<rparr>\<rparr>"]
  by (simp add: one_document_def data_json_def open_disk_def reaching_def split_def Let_def)

end
