(* ===== verification/Backend_Client.thy ===== *)
theory Backend_Client
  imports Json_Reading Sanitizer_Model
begin

text \<open>The client's HTTP wrapper (src/src/services/BackendClient.cpp). The network (\<^verbatim>\<open>IHttpClient::send\<close>) is
  a function on the state of the world behind it; parsing and printing JSON text are functions of
  nlohmann::json, printing may throw. A call yields \<^verbatim>\<open>Inl what\<close> for an exception, otherwise
  the error or the parsed body.
  What is shown: which answers become which error, that nothing is sent to a URL that is not HTTPS, and
  that the token is sent exactly when given one.\<close>

section \<open>Errors\<close>

datatype error_kind =
  Transport | BadResponse | ServerError | Unauthorized | NotFound | Conflict | RateLimited

record backend_error =
  be_kind :: error_kind
  be_status :: int
  be_code :: string
  be_message :: string

definition backend_error :: "error_kind \<Rightarrow> int \<Rightarrow> string \<Rightarrow> string \<Rightarrow> backend_error" where
  "backend_error k st c msg = \<lparr>be_kind = k, be_status = st, be_code = c, be_message = msg\<rparr>"

record 'w backend =
  bc_send :: "http_request \<Rightarrow> 'w \<Rightarrow> http_response option \<times> 'w"
  bc_base :: string
  bc_parse :: "string \<Rightarrow> json option"
  bc_dump :: "json \<Rightarrow> string + string"

text \<open>The constructor refuses every base URL that does not start with \<^verbatim>\<open>https://\<close>.\<close>

definition make_backend ::
    "(http_request \<Rightarrow> 'w \<Rightarrow> http_response option \<times> 'w) \<Rightarrow> (string \<Rightarrow> json option) \<Rightarrow>
       (json \<Rightarrow> string + string) \<Rightarrow> string \<Rightarrow> string + 'w backend" where
  "make_backend http parse pr base_url =
     (if \<not> starts_with ''https://'' base_url
      then Inl (''BackendClient: base_url must start with '' @ [CHR 0x22] @ ''https://'' @ [CHR 0x22] @
                ''. Got: '' @ [CHR 0x22] @ base_url @ [CHR 0x22])
      else Inr \<lparr>bc_send = http, bc_base = base_url, bc_parse = parse, bc_dump = pr\<rparr>)"

section \<open>Answers\<close>

text \<open>The code and the message of an error body, when they are strings.\<close>

definition error_text :: "json option \<Rightarrow> string \<Rightarrow> string \<Rightarrow> string" where
  "error_text b k fallback = (case b of
     None \<Rightarrow> fallback
   | Some j \<Rightarrow> (case opt_string j k of None \<Rightarrow> fallback | Some s \<Rightarrow> s))"

definition error_of_body :: "'w backend \<Rightarrow> error_kind \<Rightarrow> http_response \<Rightarrow> string \<Rightarrow> string \<Rightarrow> backend_error" where
  "error_of_body C k resp code msg =
     (let b = bc_parse C (rs_body resp)
      in backend_error k (rs_status resp) (error_text b ''code'' code) (error_text b ''message'' msg))"

definition map_response :: "'w backend \<Rightarrow> http_response \<Rightarrow> backend_error + json" where
  "map_response C resp =
     (let st = rs_status resp in
      if 200 \<le> st \<and> st < 300 then
        (case bc_parse C (rs_body resp) of
           None \<Rightarrow> Inl (backend_error BadResponse st ''invalid_json''
             (''2xx response body is not valid JSON ('' @ nat_to_string (length (rs_body resp)) @
              '' bytes) [REDACTED]''))
         | Some j \<Rightarrow> Inr j)
      else if st = 401 then Inl (backend_error Unauthorized st ''unauthorized'' ''unauthorized'')
      else if st = 404 then Inl (backend_error NotFound st ''not_found'' ''not found'')
      else if st = 409 then Inl (backend_error Conflict st ''conflict'' ''conflict'')
      else if st = 429 then Inl (backend_error RateLimited st ''rate_limited'' ''rate limited'')
      else if 500 \<le> st \<and> st < 600
        then Inl (error_of_body C ServerError resp ''server_error'' ''server error'')
      else Inl (error_of_body C BadResponse resp ''bad_request'' ''bad request''))"

section \<open>Requests\<close>

text \<open>Headers in the order of \<^verbatim>\<open>std::map\<close>; the timeout is the default of the request.\<close>

definition build_request :: "'w backend \<Rightarrow> string \<Rightarrow> string \<Rightarrow> string option \<Rightarrow> string option \<Rightarrow> http_request" where
  "build_request C meth path body_json token =
     \<lparr>rq_method = meth, rq_url = bc_base C @ path,
      rq_headers = (case token of None \<Rightarrow> [] | Some t \<Rightarrow> [(''Authorization'', ''Bearer '' @ t)]) @
        [(''Content-Type'', ''application/json'')],
      rq_body = body_json, rq_timeout = 30000\<rparr>"

type_synonym ('a, 'w) call = "'w \<Rightarrow> (backend_error + 'a) \<times> 'w"

definition send_request ::
    "'w backend \<Rightarrow> string \<Rightarrow> string \<Rightarrow> string option \<Rightarrow> string option \<Rightarrow> (json, 'w) call" where
  "send_request C meth path body_json token w =
     (case bc_send C (build_request C meth path body_json token) w of
        (None, w1) \<Rightarrow>
          (Inl (backend_error Transport 0 ''transport_failure'' ''request did not complete''), w1)
      | (Some resp, w1) \<Rightarrow> (map_response C resp, w1))"

definition backend_get :: "'w backend \<Rightarrow> string \<Rightarrow> string option \<Rightarrow> (json, 'w) call" where
  "backend_get C path token = send_request C ''GET'' path None token"

definition backend_post ::
    "'w backend \<Rightarrow> string \<Rightarrow> json \<Rightarrow> string option \<Rightarrow> 'w \<Rightarrow> (string + (backend_error + json)) \<times> 'w" where
  "backend_post C path j token w =
     (case bc_dump C j of
        Inl what \<Rightarrow> (Inl what, w)
      | Inr b \<Rightarrow> (case send_request C ''POST'' path (Some b) token w of (r, w1) \<Rightarrow> (Inr r, w1)))"

definition healthz :: "'w backend \<Rightarrow> (bool, 'w) call" where
  "healthz C w = (case backend_get C ''/healthz'' None w of
     (Inr _, w1) \<Rightarrow> (Inr True, w1) | (Inl e, w1) \<Rightarrow> (Inl e, w1))"

section \<open>Sync status\<close>

record sync_status_item =
  si_institution :: string
  si_item :: string
  si_last_success :: int
  si_last_attempt :: int
  si_last_error :: string
  si_accounts :: "string list"

definition string_member :: "json \<Rightarrow> string \<Rightarrow> string" where
  "string_member j k = (case opt_string j k of None \<Rightarrow> [] | Some s \<Rightarrow> s)"

definition int_member :: "json \<Rightarrow> string \<Rightarrow> int" where
  "int_member j k = (case opt_int64 j k of None \<Rightarrow> 0 | Some n \<Rightarrow> n)"

definition read_sync_item :: "json \<Rightarrow> sync_status_item" where
  "read_sync_item it = \<lparr>si_institution = string_member it ''institution'',
     si_item = string_member it ''item_id'',
     si_last_success = int_member it ''last_success_unix'',
     si_last_attempt = int_member it ''last_attempt_unix'',
     si_last_error = string_member it ''last_error_code'',
     si_accounts = concat (map (\<lambda>a. case get_string a of None \<Rightarrow> [] | Some s \<Rightarrow> [s])
       (elements_of it ''account_ids''))\<rparr>"

text \<open>Missing endpoint: no value; any other failure is passed on.\<close>

definition get_sync_status :: "'w backend \<Rightarrow> string option \<Rightarrow> (sync_status_item list option, 'w) call" where
  "get_sync_status C token w =
     (case backend_get C ''/sync-status'' token w of
        (Inl e, w1) \<Rightarrow> (if be_kind e = NotFound then Inr None else Inl e, w1)
      | (Inr b, w1) \<Rightarrow> (Inr (Some (map read_sync_item (elements_of b ''items''))), w1))"

section \<open>Properties\<close>

lemma request_token:
  "map_of (rq_headers (build_request C meth path b token)) ''Authorization'' =
     map_option ((@) ''Bearer '') token"
  by (simp add: build_request_def split: option.split)

lemma starts_with_append: "starts_with p s \<Longrightarrow> starts_with p (s @ t)"
  by (induction p s rule: starts_with.induct) auto

text \<open>Everything a client that was constructed sends goes to an HTTPS URL, and carries the session token
  exactly when it was given one.\<close>

lemma requests_are_https:
  assumes "make_backend http parse pr base = Inr C"
  shows "starts_with ''https://'' (rq_url (build_request C meth path b token))"
  using assms starts_with_append [of "''https://''" base path]
  by (auto simp: make_backend_def build_request_def split: if_splits)

text \<open>The kinds of error classify the answers: which status gives which kind, that only a network
  failure is a transport error, and that a result means a 2xx status with a body that parses.\<close>

theorem response_kinds:
  shows "(case map_response C resp of
     Inr j \<Rightarrow> rs_status resp \<in> {200..<300} \<and> bc_parse C (rs_body resp) = Some j
   | Inl e \<Rightarrow> be_status e = rs_status resp \<and> be_kind e =
       (if rs_status resp = 401 then Unauthorized
        else if rs_status resp = 404 then NotFound
        else if rs_status resp = 409 then Conflict
        else if rs_status resp = 429 then RateLimited
        else if rs_status resp \<in> {500..<600} then ServerError else BadResponse))"
  by (simp add: map_response_def backend_error_def error_of_body_def Let_def split: option.split)

end
