(* ===== verification/Auth_Client.thy ===== *)
theory Auth_Client
  imports Backend_Client Reference_Instance
begin

text \<open>The client's session: the store of secrets (src/src/services/ISecretStore.h with the file store of
  src/src/services/secret_store/FileSecretStore.cpp) and the authentication service that caches the
  session token in it (src/src/services/AuthService.cpp). Zeroing memory is not modelled.
  The contract of a secret store is the locale \<^verbatim>\<open>secret_store\<close>; the file store keeps it, also when a
  write fails half way. What is shown of the service: when a token is cached, when it is cleared and
  when the network is left alone.\<close>

section \<open>Secret stores\<close>

record 's secrets =
  sec_put :: "string \<Rightarrow> byte list \<Rightarrow> 's \<Rightarrow> bool \<times> 's"
  sec_get :: "string \<Rightarrow> 's \<Rightarrow> byte list option"
  sec_remove :: "string \<Rightarrow> 's \<Rightarrow> bool \<times> 's"

text \<open>What the clients of a store rely on. \<^verbatim>\<open>apart\<close> says that two keys do not share a place,
  \<^verbatim>\<open>healthy\<close> that what is stored can be read.\<close>

locale secret_store =
  fixes S :: "'s secrets" and apart :: "string \<Rightarrow> string \<Rightarrow> bool" and healthy :: "'s \<Rightarrow> bool"
  assumes get_put: "healthy s \<Longrightarrow> sec_put S k v s = (True, s') \<Longrightarrow> sec_get S k s' = Some v"
    and get_failed_put: "sec_put S k v s = (False, s') \<Longrightarrow> sec_get S j s' = sec_get S j s"
    and get_other: "apart j k \<Longrightarrow> sec_get S j (snd (sec_put S k v s)) = sec_get S j s"
    and get_removed: "sec_remove S k s = (True, s') \<Longrightarrow> sec_get S k s' = None"
    and remove_other: "apart j k \<Longrightarrow> sec_get S j (snd (sec_remove S k s)) = sec_get S j s"
begin

lemma replaced:
  assumes "healthy s" and "sec_put S k v s = (True, s')" and "apart j k"
  shows "sec_get S k s' = Some v \<and> sec_get S j s' = sec_get S j s"
  using get_put [OF assms(1,2)] get_other [OF assms(3), of v s] assms(2) by simp

lemma put_all_or_nothing:
  assumes "healthy s"
  shows "sec_get S k (snd (sec_put S k v s)) \<in> {Some v, sec_get S k s}"
proof (cases "sec_put S k v s")
  case (Pair b s')
  then show ?thesis using get_put [OF assms] get_failed_put by (cases b) auto
qed

end

section \<open>The file store\<close>

text \<open>A directory of files, and how the system calls of the next operation end: opening and writing the
  temporary file (\<^verbatim>\<open>sd_part\<close> bytes reach it when writing fails), tightening its mode, renaming, removing
  the temporary file after a failure, reading, removing. Each operation makes each of these calls at most
  once; the outcomes of the next operation may be others.\<close>

record secret_dir =
  sd_files :: "string \<Rightarrow> byte list option"
  sd_open :: bool
  sd_write :: bool
  sd_chmod :: bool
  sd_rename :: bool
  sd_part :: nat
  sd_clean :: bool
  sd_read :: bool
  sd_remove :: bool

definition key_to_filename :: "third_party \<Rightarrow> string \<Rightarrow> string" where
  "key_to_filename L key = bytes_to_hex (generichash L (bytes_of key)) @ ''.bin''"

text \<open>The temporary file is the target with \<^verbatim>\<open>.tmp\<close> appended; every failure tries to remove it, whatever
  comes of that.\<close>

definition file_put :: "third_party \<Rightarrow> string \<Rightarrow> byte list \<Rightarrow> secret_dir \<Rightarrow> bool \<times> secret_dir" where
  "file_put L key v d =
     (let target = key_to_filename L key; tmp = target @ ''.tmp'';
          written = (if sd_write d then v else take (sd_part d) v);
          failed = d\<lparr>sd_files := (sd_files d)(tmp := if sd_clean d then None else Some written)\<rparr> in
      if \<not> sd_open d then (False, d)
      else if \<not> sd_write d then (False, failed)
      else if \<not> sd_chmod d then (False, failed)
      else if \<not> sd_rename d then (False, failed)
      else (True, d\<lparr>sd_files := (sd_files d)(tmp := None, target := Some v)\<rparr>))"

definition file_get :: "third_party \<Rightarrow> string \<Rightarrow> secret_dir \<Rightarrow> byte list option" where
  "file_get L key d = (if sd_read d then sd_files d (key_to_filename L key) else None)"

definition file_remove :: "third_party \<Rightarrow> string \<Rightarrow> secret_dir \<Rightarrow> bool \<times> secret_dir" where
  "file_remove L key d =
     (let target = key_to_filename L key in
      if sd_files d target = None then (True, d)
      else if sd_remove d then (True, d\<lparr>sd_files := (sd_files d)(target := None)\<rparr>)
      else (False, d))"

definition file_secrets :: "third_party \<Rightarrow> secret_dir secrets" where
  "file_secrets L = \<lparr>sec_put = file_put L, sec_get = file_get L, sec_remove = file_remove L\<rparr>"

lemma tmp_is_no_target: "key_to_filename L j \<noteq> key_to_filename L k @ ''.tmp''"
proof
  assume "key_to_filename L j = key_to_filename L k @ ''.tmp''"
  then have "last (key_to_filename L j) = last (key_to_filename L k @ ''.tmp'')" by simp
  then show False by (simp add: key_to_filename_def)
qed

text \<open>Two keys are apart when their hashes differ.\<close>

definition hashes_differ :: "third_party \<Rightarrow> string \<Rightarrow> string \<Rightarrow> bool" where
  "hashes_differ L j k \<longleftrightarrow> key_to_filename L j \<noteq> key_to_filename L k"

interpretation file_store: secret_store "file_secrets L" "hashes_differ L" sd_read for L
proof
  show "sec_get (file_secrets L) k s' = Some v"
    if "sd_read s" "sec_put (file_secrets L) k v s = (True, s')" for k v s s'
    using that by (auto simp: file_secrets_def file_put_def file_get_def Let_def split: if_splits)
  show "sec_get (file_secrets L) j s' = sec_get (file_secrets L) j s"
    if "sec_put (file_secrets L) k v s = (False, s')" for j k v s s'
    using that tmp_is_no_target [of L j k]
    by (auto simp: file_secrets_def file_put_def file_get_def Let_def split: if_splits)
  show "sec_get (file_secrets L) j (snd (sec_put (file_secrets L) k v s)) = sec_get (file_secrets L) j s"
    if "hashes_differ L j k" for j k v s
    using that tmp_is_no_target [of L j k]
    by (auto simp: file_secrets_def file_put_def file_get_def hashes_differ_def Let_def)
  show "sec_get (file_secrets L) k s' = None" if "sec_remove (file_secrets L) k s = (True, s')" for k s s'
    using that by (auto simp: file_secrets_def file_remove_def file_get_def Let_def split: if_splits)
  show "sec_get (file_secrets L) j (snd (sec_remove (file_secrets L) k s)) = sec_get (file_secrets L) j s"
    if "hashes_differ L j k" for j k s
    using that by (auto simp: file_secrets_def file_remove_def file_get_def hashes_differ_def Let_def)
qed

section \<open>The file store refines a finite map\<close>

datatype secret_op = Put string "byte list" | Remove string

fun op_key :: "secret_op \<Rightarrow> string" where
  "op_key (Put k v) = k"
| "op_key (Remove k) = k"

fun file_op :: "third_party \<Rightarrow> secret_op \<Rightarrow> secret_dir \<Rightarrow> bool \<times> secret_dir" where
  "file_op L (Put k v) d = file_put L k v d"
| "file_op L (Remove k) d = file_remove L k d"

fun map_op :: "secret_op \<Rightarrow> (string \<Rightarrow> byte list option) \<Rightarrow> string \<Rightarrow> byte list option" where
  "map_op (Put k v) m = m(k := Some v)"
| "map_op (Remove k) m = m(k := None)"

text \<open>A sequence of operations on the files, with those that reported success. Each operation comes with
  the outcomes of its own system calls: the fields of a directory other than its files.\<close>

definition on_files :: "secret_dir \<Rightarrow> (string \<Rightarrow> byte list option) \<Rightarrow> secret_dir" where
  "on_files e fs = e\<lparr>sd_files := fs\<rparr>"

fun run_ops :: "third_party \<Rightarrow> (secret_dir \<times> secret_op) list \<Rightarrow> (string \<Rightarrow> byte list option) \<Rightarrow>
    secret_op list \<times> (string \<Rightarrow> byte list option)" where
  "run_ops L [] fs = ([], fs)"
| "run_ops L ((e, x) # xs) fs =
     (case file_op L x (on_files e fs) of (ok, d1) \<Rightarrow> case run_ops L xs (sd_files d1) of (done_ops, fs2) \<Rightarrow>
        (if ok then (x # done_ops, fs2) else (done_ops, fs2)))"

text \<open>What the files hold for a key.\<close>

definition stored :: "third_party \<Rightarrow> (string \<Rightarrow> byte list option) \<Rightarrow> string \<Rightarrow> byte list option" where
  "stored L fs k = fs (key_to_filename L k)"

lemma stored_read: "file_get L k (on_files e fs) = (if sd_read e then stored L fs k else None)"
  by (simp add: file_get_def on_files_def stored_def)

text \<open>One operation on a key with its own file: it takes effect on the map when it reports success.\<close>

lemma file_op_other:
  assumes "hashes_differ L k (op_key x)" and "file_op L x d = (ok, d')"
  shows "stored L (sd_files d') k = stored L (sd_files d) k"
  using assms tmp_is_no_target [of L k "op_key x"]
  by (cases x) (auto simp: stored_def hashes_differ_def file_put_def file_remove_def Let_def split: if_splits)

lemma file_op_same:
  assumes "file_op L x d = (ok, d')"
  shows "stored L (sd_files d') (op_key x) =
    (if ok then map_op x (stored L (sd_files d)) (op_key x) else stored L (sd_files d) (op_key x))"
  using assms tmp_is_no_target [of L "op_key x" "op_key x"]
  by (cases x) (auto simp: stored_def file_put_def file_remove_def Let_def split: if_splits)

lemma file_op_refines:
  assumes "inj_on (key_to_filename L) K" and "op_key x \<in> K" and "k \<in> K" and "file_op L x d = (ok, d')"
  shows "stored L (sd_files d') k =
    (if ok then map_op x (stored L (sd_files d)) else stored L (sd_files d)) k"
proof (cases "k = op_key x")
  case True
  then show ?thesis using file_op_same [OF assms(4)] by simp
next
  case False
  then have "hashes_differ L k (op_key x)" using assms(1-3) by (auto simp: hashes_differ_def dest: inj_onD)
  then have "stored L (sd_files d') k = stored L (sd_files d) k" using assms(4) by (rule file_op_other)
  then show ?thesis using False by (cases x) auto
qed

lemma fold_map_op_at: "m k = m' k \<Longrightarrow> fold map_op xs m k = fold map_op xs m' k"
proof (induction xs arbitrary: m m')
  case (Cons x xs)
  have "map_op x m k = map_op x m' k" using Cons.prems by (cases x) simp_all
  then have "fold map_op xs (map_op x m) k = fold map_op xs (map_op x m') k" by (rule Cons.IH)
  then show ?case by simp
qed simp

text \<open>C25. The file store refines a finite map: whatever the outcome of every single system call of every
  operation in a sequence (an open, a write that stops half way, a chmod, a rename, the removal of what is
  left over), the files hold for a key what the operations that reported success make of the map, and
  reading the key returns just that, or nothing when the reading itself fails. Assumed is that the keys in
  use have different file names, which are the hex of a 32-byte hash of the key.\<close>

theorem file_store_refines_map:
  assumes "inj_on (key_to_filename L) K" and "(op_key \<circ> snd) ` set xs \<subseteq> K" and "k \<in> K"
    and "run_ops L xs fs = (done_ops, fs')"
  shows "stored L fs' k = fold map_op done_ops (stored L fs) k \<and>
    file_get L k (on_files e fs') = (if sd_read e then fold map_op done_ops (stored L fs) k else None)"
proof -
  have "stored L fs' k = fold map_op done_ops (stored L fs) k"
    using assms(2,4)
  proof (induction xs arbitrary: fs done_ops)
    case (Cons y xs)
    obtain e x where y: "y = (e, x)" by fastforce
    obtain ok d1 where step: "file_op L x (on_files e fs) = (ok, d1)" by fastforce
    obtain ops2 where rest: "run_ops L xs (sd_files d1) = (ops2, fs')"
      and ops: "done_ops = (if ok then x # ops2 else ops2)"
      using Cons.prems(2) step y by (auto split: prod.splits if_splits)
    have "stored L fs' k = fold map_op ops2 (stored L (sd_files d1)) k" using Cons.IH rest Cons.prems(1) by simp
    moreover have "fold map_op ops2 (stored L (sd_files d1)) k =
        fold map_op ops2 (if ok then map_op x (stored L fs) else stored L fs) k"
      using file_op_refines [OF assms(1) _ assms(3) step] Cons.prems(1) y
      by (intro fold_map_op_at) (simp add: on_files_def)
    ultimately show ?case using ops by simp
  qed simp
  then show ?thesis by (simp add: stored_read)
qed

section \<open>The authentication service\<close>

record login_request =
  lr_email :: string
  lr_passphrase :: string
  lr_totp :: string

record enroll_request =
  er_token :: string
  er_email :: string
  er_passphrase :: string
  er_totp_secret :: "byte list option"

record enroll_result =
  en_user :: string
  en_uri :: string

record login_result =
  lo_user :: string
  lo_token :: string
  lo_expires :: int

text \<open>A service on the state of the network and the store of secrets.\<close>

record ('w, 's) auth_service =
  au_backend :: "'w backend"
  au_secrets :: "'s secrets"
  au_email :: string

type_synonym ('a, 'w, 's) auth_call = "'w \<times> 's \<Rightarrow> (string + 'a) \<times> ('w \<times> 's)"

definition cache_key :: "('w, 's) auth_service \<Rightarrow> string" where
  "cache_key A = ''tf-session-'' @ au_email A"

definition read_cached_token :: "('w, 's) auth_service \<Rightarrow> 's \<Rightarrow> string option" where
  "read_cached_token A k = map_option (map char_of_byte) (sec_get (au_secrets A) (cache_key A) k)"

definition has_cached_session :: "('w, 's) auth_service \<Rightarrow> 's \<Rightarrow> bool" where
  "has_cached_session A k \<longleftrightarrow> sec_get (au_secrets A) (cache_key A) k \<noteq> None"

definition cache_token :: "('w, 's) auth_service \<Rightarrow> string \<Rightarrow> 's \<Rightarrow> 's" where
  "cache_token A tok k = snd (sec_put (au_secrets A) (cache_key A) (bytes_of tok) k)"

definition clear_cached_token :: "('w, 's) auth_service \<Rightarrow> 's \<Rightarrow> 's" where
  "clear_cached_token A k = snd (sec_remove (au_secrets A) (cache_key A) k)"

definition as_int64 :: "json \<Rightarrow> string + int" where
  "as_int64 j = (case get_int64 j of None \<Rightarrow> Inl (type_error_302 ''number'' j) | Some n \<Rightarrow> Inr n)"

definition member :: "(json \<Rightarrow> string + 'v) \<Rightarrow> json \<Rightarrow> string \<Rightarrow> string + 'v" where
  "member get j k = (case json_at j k of None \<Rightarrow> get JNull | Some v \<Rightarrow> get v)"

definition contains_all :: "json \<Rightarrow> string list \<Rightarrow> bool" where
  "contains_all j ks \<longleftrightarrow> list_all (\<lambda>k. json_at j k \<noteq> None) ks"

definition missing_fields :: "string \<Rightarrow> backend_error" where
  "missing_fields what = backend_error BadResponse 200 ''missing_fields''
     (what @ '' response missing required fields'')"

definition login_body :: "login_request \<Rightarrow> int \<Rightarrow> json" where
  "login_body req totp = JObj [(''email'', JStr (lr_email req)),
     (''passphrase'', JStr (lr_passphrase req)), (''totp_code'', JInt totp)]"

definition read_login :: "json \<Rightarrow> string + login_result" where
  "read_login j = bind_sum (member as_string j ''session_token'') (\<lambda>tok.
     bind_sum (member as_string j ''user_id'') (\<lambda>uid.
     bind_sum (member as_int64 j ''expires_at_unix'') (\<lambda>ex.
     Inr \<lparr>lo_user = uid, lo_token = tok, lo_expires = ex\<rparr>)))"

definition client_login ::
    "('w, 's) auth_service \<Rightarrow> login_request \<Rightarrow> (backend_error + login_result, 'w, 's) auth_call" where
  "client_login A req = (\<lambda>(w, k). case stoi (lr_totp req) of
     None \<Rightarrow> (Inr (Inl (backend_error BadResponse 0 ''bad_totp'' ''totp_code must be a 6-digit integer'')), (w, k))
   | Some totp \<Rightarrow>
       (case backend_post (au_backend A) ''/auth/login'' (login_body req totp) None w of
          (Inl what, w1) \<Rightarrow> (Inl what, (w1, k))
        | (Inr (Inl e), w1) \<Rightarrow> (Inr (Inl e), (w1, k))
        | (Inr (Inr j), w1) \<Rightarrow>
            if \<not> contains_all j [''session_token'', ''user_id'', ''expires_at_unix'']
            then (Inr (Inl (missing_fields ''login'')), (w1, k))
            else (case read_login j of
                Inl what \<Rightarrow> (Inl what, (w1, k))
              | Inr lr \<Rightarrow> (Inr (Inr lr), (w1, cache_token A (lo_token lr) k)))))"

definition enroll_body :: "enroll_request \<Rightarrow> json" where
  "enroll_body req = JObj ([(''email'', JStr (er_email req)), (''passphrase'', JStr (er_passphrase req)),
     (''token'', JStr (er_token req))] @
     (case er_totp_secret req of None \<Rightarrow> [] | Some bs \<Rightarrow> [(''totp_secret_hex'', JStr (bytes_to_hex bs))]))"

definition read_enroll :: "json \<Rightarrow> string + enroll_result" where
  "read_enroll j = bind_sum (member as_string j ''user_id'') (\<lambda>uid.
     bind_sum (member as_string j ''totp_provisioning_uri'') (\<lambda>uri. Inr \<lparr>en_user = uid, en_uri = uri\<rparr>))"

definition client_enroll ::
    "('w, 's) auth_service \<Rightarrow> enroll_request \<Rightarrow> (backend_error + enroll_result, 'w, 's) auth_call" where
  "client_enroll A req = (\<lambda>(w, k).
     (case backend_post (au_backend A) ''/auth/enroll'' (enroll_body req) None w of
        (Inl what, w1) \<Rightarrow> (Inl what, (w1, k))
      | (Inr (Inl e), w1) \<Rightarrow> (Inr (Inl e), (w1, k))
      | (Inr (Inr j), w1) \<Rightarrow>
          (if \<not> contains_all j [''user_id'', ''totp_provisioning_uri'']
           then Inr (Inl (missing_fields ''enroll''))
           else map_sum id Inr (read_enroll j), (w1, k))))"

definition client_logout :: "('w, 's) auth_service \<Rightarrow> (bool, 'w, 's) auth_call" where
  "client_logout A = (\<lambda>(w, k). case read_cached_token A k of
     None \<Rightarrow> (Inr True, (w, k))
   | Some tok \<Rightarrow>
       (case backend_post (au_backend A) ''/auth/logout'' (JObj []) (Some tok) w of
          (Inl what, w1) \<Rightarrow> (Inl what, (w1, k))
        | (Inr (Inl e), w1) \<Rightarrow>
            (Inr False, (w1, if be_kind e = Transport then k else clear_cached_token A k))
        | (Inr (Inr j), w1) \<Rightarrow> (Inr True, (w1, clear_cached_token A k))))"

definition current_user_id :: "('w, 's) auth_service \<Rightarrow> (string option, 'w, 's) auth_call" where
  "current_user_id A = (\<lambda>(w, k). case read_cached_token A k of
     None \<Rightarrow> (Inr None, (w, k))
   | Some tok \<Rightarrow>
       (case backend_get (au_backend A) ''/auth/whoami'' (Some tok) w of
          (Inl e, w1) \<Rightarrow> (Inr None, (w1, if be_kind e = Unauthorized then clear_cached_token A k else k))
        | (Inr j, w1) \<Rightarrow>
            (if json_at j ''user_id'' = None then Inr None
             else map_sum id Some (member as_string j ''user_id''), (w1, k))))"

section \<open>Properties\<close>

lemma char_bytes [simp]: "map char_of_byte (bytes_of s) = s"
  by (simp add: bytes_of_def comp_def)

lemma cached_after_put:
  assumes "au_secrets A = file_secrets L" and "sd_read k"
    and "fst (sec_put (au_secrets A) (cache_key A) (bytes_of tok) k)"
  shows "read_cached_token A (cache_token A tok k) = Some tok"
proof -
  obtain k' where "sec_put (file_secrets L) (cache_key A) (bytes_of tok) k = (True, k')"
    using assms(1,3) by (metis prod.collapse)
  then show ?thesis
    using file_store.get_put [OF assms(2)] assms(1) by (simp add: read_cached_token_def cache_token_def)
qed

lemma cleared:
  assumes "au_secrets A = file_secrets L" and "sd_remove k"
  shows "\<not> has_cached_session A (clear_cached_token A k)"
proof -
  have "fst (sec_remove (file_secrets L) (cache_key A) k)"
    using assms(2) by (simp add: file_secrets_def file_remove_def Let_def)
  then obtain k' where "sec_remove (file_secrets L) (cache_key A) k = (True, k')" by (metis prod.collapse)
  then show ?thesis
    using file_store.get_removed [of L "cache_key A" k k'] assms(1)
    by (simp add: has_cached_session_def clear_cached_token_def)
qed

lemma read_has: "read_cached_token A k = None \<longleftrightarrow> \<not> has_cached_session A k"
  by (simp add: read_cached_token_def has_cached_session_def)

text \<open>A login changes the store of secrets only when it succeeds, and then the cached token is the one the
  server returned, if the store could write it.\<close>

theorem login_caches_token:
  assumes "au_secrets A = file_secrets L" and "sd_read k"
  shows "(case client_login A req (w, k) of
     (Inr (Inr lr), (w', k')) \<Rightarrow> k' = cache_token A (lo_token lr) k \<and>
       (read_cached_token A k' = Some (lo_token lr) \<or>
        \<not> fst (sec_put (au_secrets A) (cache_key A) (bytes_of (lo_token lr)) k))
   | (_, (w', k')) \<Rightarrow> k' = k)"
  using cached_after_put [OF assms]
  by (auto simp: client_login_def split: option.split sum.split prod.split)

text \<open>Logging out: without a cached token nothing is sent; success means that no token is cached any more;
  after a failure the token is still cached only when the network failed, in which case the store is
  unchanged.\<close>

theorem logout_outcomes:
  assumes "au_secrets A = file_secrets L" and "sd_remove k"
    and "client_logout A (w, k) = (Inr b, (w', k'))"
  shows "(\<not> has_cached_session A k \<longrightarrow> b \<and> w' = w \<and> k' = k) \<and> (b \<longrightarrow> \<not> has_cached_session A k') \<and>
    (has_cached_session A k' \<longrightarrow> k' = k \<and> \<not> b)"
  using assms(3) cleared [OF assms(1,2)] read_has [of A k]
  by (auto simp: client_logout_def split: option.splits sum.splits prod.splits if_splits)

text \<open>Asking who is logged in: a user is named only with a cached token and a 2xx answer, the token is
  dropped when and only when the server refuses it, and without a token nothing is sent.\<close>

theorem whoami_drops_stale:
  assumes "au_secrets A = file_secrets L" and "sd_remove k"
    and "current_user_id A (w, k) = (Inr u, (w', k'))"
  shows "(u \<noteq> None \<longrightarrow> has_cached_session A k \<and> k' = k) \<and> (\<not> has_cached_session A k \<longrightarrow> w' = w \<and> k' = k) \<and>
    (k' = k \<or> (\<not> has_cached_session A k' \<and>
       (\<exists>tok e. read_cached_token A k = Some tok \<and> be_kind e = Unauthorized \<and>
          backend_get (au_backend A) ''/auth/whoami'' (Some tok) w = (Inl e, w'))))"
  using assms(3) cleared [OF assms(1,2)] read_has [of A k]
  by (auto simp: current_user_id_def split: option.splits sum.splits prod.splits if_splits)

text \<open>A world for the witnesses: the network always gives one answer, the directory is empty and works.\<close>

definition constant_backend :: "http_response option \<Rightarrow> unit backend" where
  "constant_backend r = \<lparr>bc_send = \<lambda>_ w. (r, w), bc_base = ''https://localhost:8443'',
     bc_parse = \<lambda>s. if s = ''{}'' then Some (JObj []) else None, bc_dump = \<lambda>_. Inr ''{}''\<rparr>"

definition working_dir :: "(string \<Rightarrow> byte list option) \<Rightarrow> secret_dir" where
  "working_dir m = \<lparr>sd_files = m, sd_open = True, sd_write = True, sd_chmod = True, sd_rename = True, sd_part = 0,
     sd_clean = True, sd_read = True, sd_remove = True\<rparr>"

text \<open>A second write that stops after a byte and cannot even remove what it wrote.\<close>

theorem file_store_refines_map_witness:
  "file_get reference_libs ''k'' (on_files (working_dir Map.empty) (snd (run_ops reference_libs
     [(working_dir Map.empty, Put ''k'' [1]),
      (working_dir Map.empty\<lparr>sd_write := False, sd_part := 1, sd_clean := False\<rparr>, Put ''k'' [2, 3])] Map.empty)))
    = Some [1]"
proof -
  let ?ops = "[(working_dir Map.empty, Put ''k'' [1]),
      (working_dir Map.empty\<lparr>sd_write := False, sd_part := 1, sd_clean := False\<rparr>, Put ''k'' [2, 3])]"
  have "fst (run_ops reference_libs ?ops Map.empty) = [Put ''k'' [1]]"
    by (simp add: file_put_def on_files_def working_dir_def Let_def)
  then have r: "run_ops reference_libs ?ops Map.empty =
      ([Put ''k'' [1]], snd (run_ops reference_libs ?ops Map.empty))"
    by (simp only: prod_eq_iff fst_conv snd_conv)
  have "sd_read (working_dir Map.empty)" by (simp add: working_dir_def)
  then show ?thesis
    using file_store_refines_map [OF _ _ _ r, of "{''k''}" "''k''" "working_dir Map.empty"] by simp
qed

definition constant_service :: "unit backend \<Rightarrow> (unit, secret_dir) auth_service" where
  "constant_service C = \<lparr>au_backend = C, au_secrets = file_secrets reference_libs, au_email = ''a@b''\<rparr>"

text \<open>A server that answers a login.\<close>

definition login_backend :: "unit backend" where
  "login_backend = (constant_backend (Some \<lparr>rs_status = 200, rs_headers = [], rs_body = ''{}''\<rparr>))
     \<lparr>bc_parse := \<lambda>_. Some (JObj [(''expires_at_unix'', JInt 5), (''session_token'', JStr ''tok''),
                                  (''user_id'', JStr ''u'')])\<rparr>"

theorem login_caches_token_witness:
  "read_cached_token (constant_service login_backend) (snd (snd (client_login (constant_service login_backend)
     \<lparr>lr_email = ''a@b'', lr_passphrase = ''p'', lr_totp = ''123456''\<rparr> ((), working_dir Map.empty)))) = Some ''tok''"
proof -
  let ?A = "constant_service login_backend" and ?k = "working_dir Map.empty"
    and ?q = "\<lparr>lr_email = ''a@b'', lr_passphrase = ''p'', lr_totp = ''123456''\<rparr>"
  let ?lr = "\<lparr>lo_user = ''u'', lo_token = ''tok'', lo_expires = 5\<rparr>"
  have "stoi ''123456'' = Some 123456" by code_simp
  moreover have "to_i64 5 = 5" by code_simp
  ultimately have r: "client_login ?A ?q ((), ?k) = (Inr (Inr ?lr), ((), cache_token ?A ''tok'' ?k))"
    by (simp add: client_login_def constant_service_def backend_post_def send_request_def login_backend_def
        constant_backend_def map_response_def contains_all_def read_login_def member_def
        as_string_def as_int64_def)
  have "fst (sec_put (au_secrets ?A) (cache_key ?A) (bytes_of ''tok'') ?k)"
    by (simp add: constant_service_def file_secrets_def file_put_def working_dir_def Let_def)
  then show ?thesis
    using login_caches_token [of ?A reference_libs ?k ?q "()"]
    unfolding r by (simp add: constant_service_def working_dir_def)
qed

theorem logout_outcomes_witness:
  "has_cached_session (constant_service (constant_backend None)) (snd (snd (client_logout (constant_service (constant_backend None))
     ((), cache_token (constant_service (constant_backend None)) ''tok'' (working_dir Map.empty))))) \<longrightarrow>
   snd (snd (client_logout (constant_service (constant_backend None))
     ((), cache_token (constant_service (constant_backend None)) ''tok'' (working_dir Map.empty)))) =
   cache_token (constant_service (constant_backend None)) ''tok'' (working_dir Map.empty)"
proof -
  let ?A = "constant_service (constant_backend None)" and ?k = "cache_token (constant_service (constant_backend None)) ''tok'' (working_dir Map.empty)"
  have k: "sd_remove ?k"
    by (simp add: cache_token_def constant_service_def file_secrets_def file_put_def working_dir_def Let_def)
  have "read_cached_token ?A ?k = Some ''tok''"
    by (rule cached_after_put) (simp_all add: constant_service_def working_dir_def file_secrets_def file_put_def Let_def)
  then have "client_logout ?A ((), ?k) = (Inr False, ((), snd (snd (client_logout ?A ((), ?k)))))"
    by (simp add: client_logout_def constant_service_def backend_post_def send_request_def
        constant_backend_def split: option.splits)
  from logout_outcomes [OF _ k this, of reference_libs] show ?thesis by (simp add: constant_service_def)
qed

theorem whoami_drops_stale_witness:
  "snd (current_user_id (constant_service (constant_backend None)) ((), working_dir Map.empty)) = ((), working_dir Map.empty)"
proof -
  let ?A = "constant_service (constant_backend None)" and ?k = "working_dir Map.empty"
  have none: "\<not> has_cached_session ?A ?k"
    by (simp add: has_cached_session_def constant_service_def file_secrets_def file_get_def working_dir_def)
  then have "current_user_id ?A ((), ?k) = (Inr None, ((), ?k))"
    using read_has [of ?A ?k] by (simp add: current_user_id_def)
  from whoami_drops_stale [OF _ _ this, of reference_libs] none show ?thesis
    by (simp add: constant_service_def working_dir_def) (simp add: current_user_id_def read_cached_token_def
        file_secrets_def file_get_def)
qed

end
