(* ===== verification/Remote_Storage.thy ===== *)
theory Remote_Storage
  imports Local_Storage Auth_Client
begin

text \<open>The storage service that reads the client's collections from the server
  (src/src/services/RemoteBackendStorageService.cpp): entities, then per entity accounts, categories and
  budgets, then per account transactions. Exceptions of \<^verbatim>\<open>json::value\<close> leave the load (\<^verbatim>\<open>Inl\<close>); a failed
  request ends it with false. Saving is a stub that always fails. For a time stamp whose year does not fit an \<^verbatim>\<open>int\<close>
  the code prints an uninitialised buffer; the model prints the zero date.
  What is shown: amounts and dates survive the conversions; a load replaces the collections also when it fails; every
  account and every entity loaded has an identifier.\<close>

section \<open>From JSON to the records\<close>

definition unix_to_date_string :: "int \<Rightarrow> string" where
  "unix_to_date_string ts = (if ts \<le> 0 then [] else format_plaid_date ts)"

definition cents_to_double :: "int \<Rightarrow> rat" where
  "cents_to_double cents = ddiv (round_double (of_int cents)) 100"

text \<open>\<^verbatim>\<open>j.contains(k) && j[k].is_string()\<close>, otherwise empty.\<close>

definition string_or_empty :: "json \<Rightarrow> string \<Rightarrow> string" where
  "string_or_empty j k = (case opt_string j k of None \<Rightarrow> [] | Some s \<Rightarrow> s)"

definition json_to_entity :: "json \<Rightarrow> string + entity" where
  "json_to_entity j =
     bind_sum (value_or as_string j ''id'' []) (\<lambda>i.
     bind_sum (value_or as_string j ''name'' []) (\<lambda>n.
     bind_sum (value_or as_string j ''kind'' ''individual'') (\<lambda>kind.
     bind_sum (value_or as_string j ''tax_id'' []) (\<lambda>tax.
     bind_sum (value_or as_int64 j ''created_at_unix'' 0) (\<lambda>ts.
     Inr \<lparr>e_id = i, e_name = n, e_type = entity_type_from_string kind, e_tax_id = tax,
          e_active = True, e_created_at = unix_to_date_string ts\<rparr>)))))"

definition json_to_account :: "json \<Rightarrow> string + account" where
  "json_to_account j =
     bind_sum (value_or as_string j ''id'' []) (\<lambda>i.
     bind_sum (value_or as_string j ''name'' []) (\<lambda>n.
     bind_sum (value_or as_string j ''entity_id'' []) (\<lambda>e.
     bind_sum (value_or as_string j ''kind'' ''other'') (\<lambda>kind.
     bind_sum (value_or as_int64 j ''balance_cents'' 0) (\<lambda>cents.
     bind_sum (value_or as_string j ''institution'' []) (\<lambda>inst.
     bind_sum (value_or as_bool j ''is_plaid_linked'' False) (\<lambda>linked.
     Inr \<lparr>a_id = i, a_name = n, a_entity = e, a_type = account_type_from_string kind,
          a_balance = cents_to_double cents, a_institution = inst,
          a_item = string_or_empty j ''plaid_item_id'', a_linked = linked, a_active = True\<rparr>)))))))"

definition json_to_transaction :: "json \<Rightarrow> string + transaction" where
  "json_to_transaction j =
     bind_sum (value_or as_string j ''id'' []) (\<lambda>i.
     bind_sum (value_or as_string j ''account_id'' []) (\<lambda>acc.
     bind_sum (value_or as_int64 j ''posted_at_unix'' 0) (\<lambda>posted.
     bind_sum (value_or as_int64 j ''amount_cents'' 0) (\<lambda>cents.
     bind_sum (value_or as_string j ''description'' []) (\<lambda>desc.
     Inr \<lparr>t_id = i, t_account = acc, t_date = unix_to_date_string posted,
          t_amount = cents_to_double cents, t_description = desc,
          t_category = string_or_empty j ''category'', t_pending = False,
          t_plaid_id = string_or_empty j ''plaid_transaction_id'', t_notes = [], t_check = []\<rparr>)))))"

definition json_to_category :: "json \<Rightarrow> string + category" where
  "json_to_category j =
     bind_sum (value_or as_string j ''id'' []) (\<lambda>i.
     bind_sum (value_or as_string j ''name'' []) (\<lambda>n.
     bind_sum (value_or as_string j ''kind'' ''expense'') (\<lambda>kind.
     Inr \<lparr>c_id = i, c_name = n, c_type = category_type_of kind, c_emoji = [], c_parent = [],
          c_system = False\<rparr>)))"

text \<open>The month: \<^verbatim>\<open>%04d-%02d\<close> into a buffer of eight bytes.\<close>

definition month_of_unix :: "int \<Rightarrow> string" where
  "month_of_unix ts =
     (if ts \<le> 0 then []
      else let t = (case gmtime ts of None \<Rightarrow> \<lparr>tm_year = 0, tm_mon = 0, tm_mday = 0\<rparr> | Some t \<Rightarrow> t)
           in take 7 (printf_0d 4 (tm_year t + 1900) @ ''-'' @ printf_0d 2 (tm_mon t + 1)))"

definition json_to_budget :: "json \<Rightarrow> string + budget" where
  "json_to_budget j =
     bind_sum (value_or as_string j ''id'' []) (\<lambda>i.
     bind_sum (value_or as_string j ''entity_id'' []) (\<lambda>e.
     bind_sum (value_or as_int64 j ''amount_cents'' 0) (\<lambda>cents.
     bind_sum (value_or as_int64 j ''period_start_unix'' 0) (\<lambda>ts.
     Inr \<lparr>b_id = i, b_entity = e, b_category = string_or_empty j ''category_id'',
          b_month = month_of_unix ts, b_limit = cents_to_double cents, b_spent = 0\<rparr>))))"

section \<open>Loading\<close>

text \<open>The service: the client of the server, the session token and the last error.\<close>

record 'w remote_storage =
  rm_backend :: "'w backend"
  rm_token :: string

type_synonym 'w remote_state = "'w \<times> string"

text \<open>\<^verbatim>\<open>fetch_list\<close>: \<^verbatim>\<open>None\<close> is the failed request, noted in the last error.\<close>

definition list_items :: "json \<Rightarrow> json list" where
  "list_items resp = (case json_at resp ''items'' of
     Some (JArr vs) \<Rightarrow> vs
   | _ \<Rightarrow> (case resp of JArr vs \<Rightarrow> vs | _ \<Rightarrow> []))"

definition fetch_list :: "'w remote_storage \<Rightarrow> string \<Rightarrow> 'w remote_state \<Rightarrow> json list option \<times> 'w remote_state" where
  "fetch_list R path = (\<lambda>(w, er).
     case backend_get (rm_backend R) path (Some (rm_token R)) w of
       (Inl e, w1) \<Rightarrow> (None, (w1, ''fetch_list('' @ path @ ''): '' @ be_message e))
     | (Inr resp, w1) \<Rightarrow> (Some (list_items resp), (w1, er)))"

text \<open>One list: what was read before an exception has been appended. \<^verbatim>\<open>keep\<close> is the test on the identifier.\<close>

type_synonym 'w load_result = "(string + bool) \<times> collections \<times> 'w remote_state"

definition load_list ::
    "'w remote_storage \<Rightarrow> string \<Rightarrow> (json \<Rightarrow> string + 'a) \<Rightarrow> ('a \<Rightarrow> bool) \<Rightarrow>
       ('a list \<Rightarrow> collections \<Rightarrow> collections) \<Rightarrow> collections \<Rightarrow> 'w remote_state \<Rightarrow> 'w load_result" where
  "load_list R path f keep add c s =
     (case fetch_list R path s of
        (None, s1) \<Rightarrow> (Inr False, c, s1)
      | (Some vs, s1) \<Rightarrow>
          (case append_parsed f vs of
             (xs, None) \<Rightarrow> (Inr True, add (filter keep xs) c, s1)
           | (xs, Some what) \<Rightarrow> (Inl what, add (filter keep xs) c, s1)))"

definition and_load ::
    "'w load_result \<Rightarrow> (collections \<Rightarrow> 'w remote_state \<Rightarrow> 'w load_result) \<Rightarrow> 'w load_result" where
  "and_load r next_step = (case r of (Inr True, c, s) \<Rightarrow> next_step c s | _ \<Rightarrow> r)"

definition load_entity_lists :: "'w remote_storage \<Rightarrow> string \<Rightarrow> collections \<Rightarrow> 'w remote_state \<Rightarrow> 'w load_result" where
  "load_entity_lists R i c s =
     and_load (load_list R (''/entities/'' @ i @ ''/accounts'') json_to_account (\<lambda>a. a_id a \<noteq> [])
       (\<lambda>xs c. c\<lparr>ds_accounts := ds_accounts c @ xs\<rparr>) c s) (\<lambda>c s.
     and_load (load_list R (''/entities/'' @ i @ ''/categories'') json_to_category (\<lambda>_. True)
       (\<lambda>xs c. c\<lparr>ds_categories := ds_categories c @ xs\<rparr>) c s) (\<lambda>c s.
     load_list R (''/entities/'' @ i @ ''/budgets'') json_to_budget (\<lambda>_. True)
       (\<lambda>xs c. c\<lparr>ds_budgets := ds_budgets c @ xs\<rparr>) c s))"

definition load_account_transactions ::
    "'w remote_storage \<Rightarrow> string \<Rightarrow> collections \<Rightarrow> 'w remote_state \<Rightarrow> 'w load_result" where
  "load_account_transactions R i =
     load_list R (''/accounts/'' @ i @ ''/transactions'') json_to_transaction (\<lambda>_. True)
       (\<lambda>xs c. c\<lparr>ds_transactions := ds_transactions c @ xs\<rparr>)"

fun load_each :: "('k \<Rightarrow> collections \<Rightarrow> 'w remote_state \<Rightarrow> 'w load_result) \<Rightarrow> 'k list \<Rightarrow>
    collections \<Rightarrow> 'w remote_state \<Rightarrow> 'w load_result" where
  "load_each f [] c s = (Inr True, c, s)"
| "load_each f (k # ks) c s = and_load (f k c s) (load_each f ks)"

definition remote_load :: "'w remote_storage \<Rightarrow> collections \<Rightarrow> 'w remote_state \<Rightarrow> 'w load_result" where
  "remote_load R c s =
     and_load (load_list R ''/entities'' json_to_entity (\<lambda>e. e_id e \<noteq> [])
       (\<lambda>xs c. c\<lparr>ds_entities := xs\<rparr>) empty_collections s) (\<lambda>c s.
     and_load (load_each (\<lambda>e. load_entity_lists R (e_id e)) (ds_entities c) c s) (\<lambda>c s.
     load_each (\<lambda>a. load_account_transactions R (a_id a)) (ds_accounts c) c s))"

definition remote_save :: "collections \<Rightarrow> 'w remote_state \<Rightarrow> bool \<times> 'w remote_state" where
  "remote_save c = (\<lambda>(w, er).
     (False, (w, ''RemoteBackendStorageService::save() is not implemented (Phase 5 stub)'')))"

definition remote_service :: "'w remote_storage \<Rightarrow> 'w remote_state storage_service" where
  "remote_service R = \<lparr>op_load = remote_load R, op_save = remote_save, op_error = snd\<rparr>"

text \<open>The contract of a storage service holds for want of a save that succeeds.\<close>

interpretation remote: persistent_storage "remote_service R" "\<lambda>_ _. True" "\<lambda>c. c" for R
  by unfold_locales (auto simp: remote_service_def remote_save_def split: prod.splits)

section \<open>What a load leaves behind\<close>

text \<open>Identifiers of entities and accounts are not empty and all amounts are doubles.\<close>

definition loaded_ok :: "collections \<Rightarrow> bool" where
  "loaded_ok c \<longleftrightarrow> amounts_ok c \<and> list_all (\<lambda>e. e_id e \<noteq> []) (ds_entities c) \<and>
     list_all (\<lambda>a. a_id a \<noteq> []) (ds_accounts c)"

lemma append_parsed_all:
  "(\<And>v x. f v = Inr x \<Longrightarrow> Q x) \<Longrightarrow> list_all Q (fst (append_parsed f vs))"
  by (induction vs) (auto split: sum.split prod.split)

lemma cents_double [simp]: "is_double (cents_to_double n)"
  by (simp add: cents_to_double_def)

lemma account_amount: "json_to_account j = Inr a \<Longrightarrow> is_double (a_balance a)"
  by (auto simp: json_to_account_def bind_sum_Inr)

lemma transaction_amount: "json_to_transaction j = Inr t \<Longrightarrow> is_double (t_amount t)"
  by (auto simp: json_to_transaction_def bind_sum_Inr)

lemma budget_amount: "json_to_budget j = Inr b \<Longrightarrow> is_double (b_limit b) \<and> is_double (b_spent b)"
  by (auto simp: json_to_budget_def bind_sum_Inr)

lemma load_list_ok:
  assumes "\<And>v x. f v = Inr x \<Longrightarrow> Q x" and "\<And>xs c. list_all Q xs \<Longrightarrow> list_all keep xs \<Longrightarrow> P c \<Longrightarrow> P (add xs c)"
    and "P c"
  shows "P (fst (snd (load_list R path f keep add c s)))"
proof -
  have "list_all Q (filter keep (fst (append_parsed f vs)))" "list_all keep (filter keep (fst (append_parsed f vs)))" for vs
    using append_parsed_all [of f Q vs] assms(1) by (auto simp: list_all_iff)
  then show ?thesis
    using assms(2,3) by (auto simp: load_list_def split: option.split prod.split) (metis fst_conv)+
qed

lemma and_load_ok:
  assumes "P (fst (snd r))" and "\<And>c s. P c \<Longrightarrow> P (fst (snd (g c s)))"
  shows "P (fst (snd (and_load r g)))"
  using assms by (auto simp: and_load_def split: prod.split sum.split bool.split)

lemma load_each_ok:
  assumes "\<And>k c s. P c \<Longrightarrow> P (fst (snd (f k c s)))"
  shows "P c \<Longrightarrow> P (fst (snd (load_each f ks c s)))"
proof (induction ks arbitrary: c s)
  case (Cons k ks)
  have "P (fst (snd (f k c s)))" using Cons.prems by (rule assms)
  then show ?case unfolding load_each.simps by (rule and_load_ok [where P = P]) (rule Cons.IH)
qed simp

lemma entity_lists_ok: "loaded_ok c \<Longrightarrow> loaded_ok (fst (snd (load_entity_lists R i c s)))"
proof -
  have accounts: "loaded_ok c \<Longrightarrow> loaded_ok (fst (snd (load_list R p json_to_account (\<lambda>a. a_id a \<noteq> [])
      (\<lambda>xs c. c\<lparr>ds_accounts := ds_accounts c @ xs\<rparr>) c s)))" for p c s
    by (rule load_list_ok [where P = loaded_ok, OF account_amount]) (auto simp: loaded_ok_def amounts_ok_def)
  have categories: "loaded_ok c \<Longrightarrow> loaded_ok (fst (snd (load_list R p json_to_category (\<lambda>_. True)
      (\<lambda>xs c. c\<lparr>ds_categories := ds_categories c @ xs\<rparr>) c s)))" for p c s
    by (rule load_list_ok [where P = loaded_ok and Q = "\<lambda>_. True"]) (auto simp: loaded_ok_def amounts_ok_def)
  have budgets: "loaded_ok c \<Longrightarrow> loaded_ok (fst (snd (load_list R p json_to_budget (\<lambda>_. True)
      (\<lambda>xs c. c\<lparr>ds_budgets := ds_budgets c @ xs\<rparr>) c s)))" for p c s
    by (rule load_list_ok [where P = loaded_ok, OF budget_amount]) (auto simp: loaded_ok_def amounts_ok_def)
  show "loaded_ok c \<Longrightarrow> loaded_ok (fst (snd (load_entity_lists R i c s)))"
    unfolding load_entity_lists_def
    by (rule and_load_ok [where P = loaded_ok], erule accounts,
        rule and_load_ok [where P = loaded_ok], erule categories, erule budgets)
qed

lemma account_transactions_ok: "loaded_ok c \<Longrightarrow> loaded_ok (fst (snd (load_account_transactions R i c s)))"
  unfolding load_account_transactions_def
  by (rule load_list_ok [where P = loaded_ok, OF transaction_amount]) (auto simp: loaded_ok_def amounts_ok_def)

lemma loaded_ok_empty: "loaded_ok empty_collections"
  by (simp add: loaded_ok_def amounts_ok_def empty_collections_def)

text \<open>C26. Whatever the server answers, and wherever the load stops, what it leaves in the collections is well
  typed: every amount is a double, every entity and every account has an identifier.\<close>

theorem remote_load_typed: "loaded_ok (fst (snd (remote_load R c s)))"
  unfolding remote_load_def
proof (intro and_load_ok [where P = loaded_ok])
  show "loaded_ok (fst (snd (load_list R ''/entities'' json_to_entity (\<lambda>e. e_id e \<noteq> [])
      (\<lambda>xs c. c\<lparr>ds_entities := xs\<rparr>) empty_collections s)))"
    by (rule load_list_ok [where P = loaded_ok and Q = "\<lambda>_. True"])
       (auto simp: loaded_ok_empty, auto simp: loaded_ok_def amounts_ok_def)
qed (auto intro: load_each_ok [where P = loaded_ok] entity_lists_ok account_transactions_ok)

text \<open>A number of cents survives the trip through a double: below 2^50 cents the amount shown by the client,
  scaled and rounded again, is the one the server stores.\<close>

theorem cents_survive:
  assumes "\<bar>n\<bar> \<le> 2 ^ 50" shows "llround (dmul (cents_to_double n) 100) = n"
proof -
  have "\<bar>n\<bar> \<le> 2 ^ 53" using assms by simp
  then have "round_double (of_int n) = of_int n" using double_int [of n] by (simp add: is_double_def)
  then have "cents_to_double n = round_double (of_int n / 100)" by (simp add: cents_to_double_def ddiv_def)
  then show ?thesis using llround_near [OF dollars_near [OF assms]] by simp
qed

theorem cents_survive_witness: "llround (dmul (cents_to_double (- 29)) 100) = - 29"
  by (rule cents_survive) simp

end
