(* ===== verification/Plaid_Service.thy ===== *)
theory Plaid_Service
  imports Plaid_Client Backend_Client
begin

text \<open>Linking a bank from the client: the check of a URL before a browser is started
  (src/src/utils/OpenBrowser.cpp) and the service that asks the server for a link token, builds the URL
  of the link page and waits for the link (src/src/services/PlaidService.cpp). Starting the
  browser is a function of the system: whether \<^verbatim>\<open>posix_spawnp\<close> succeeded; the model
  keeps the list of URLs it was called with.
  What is shown: which URLs pass the check, and that the host it looks at need not be the host
  the browser visits; that only checked URLs are opened; how linking ends.\<close>

section \<open>The check of a URL\<close>

text \<open>The rest of a string after the first occurrence of a substring.\<close>

fun after_sub :: "string \<Rightarrow> string \<Rightarrow> string option" where
  "after_sub sub [] = (if sub = [] then Some [] else None)"
| "after_sub sub (c # cs) =
     (if starts_with sub (c # cs) then Some (drop (length sub) (c # cs)) else after_sub sub cs)"

definition extract_host_and_port :: "string \<Rightarrow> string" where
  "extract_host_and_port url =
     (if length url < 8 then []
      else case after_sub ''://'' url of
        None \<Rightarrow> []
      | Some r \<Rightarrow> takeWhile (\<lambda>c. c \<notin> set ''/?#'') r)"

definition strip_port :: "string \<Rightarrow> string" where
  "strip_port h = takeWhile (\<lambda>c. c \<noteq> CHR '':'') h"

definition host_from_env :: "(string \<Rightarrow> string option) \<Rightarrow> string \<Rightarrow> string" where
  "host_from_env getenv k = (case getenv k of
     None \<Rightarrow> []
   | Some url \<Rightarrow> if url = [] then [] else strip_port (extract_host_and_port url))"

definition forbidden_char :: "char \<Rightarrow> bool" where
  "forbidden_char c \<longleftrightarrow> ((of_char c :: nat) < 32 \<and> (of_char c :: nat) \<noteq> 9) \<or>
     (of_char c :: nat) \<in> {36, 96, 92, 34, 39, 59, 124}"

definition allowed_hosts :: "(string \<Rightarrow> string option) \<Rightarrow> string set" where
  "allowed_hosts getenv = set (filter (\<lambda>h. h \<noteq> [])
     [host_from_env getenv ''TF_BACKEND_URL'', host_from_env getenv ''TF_BROWSER_URL'']) \<union>
     {''localhost'', ''127.0.0.1''}"

definition sanitize_url :: "(string \<Rightarrow> string option) \<Rightarrow> string \<Rightarrow> bool" where
  "sanitize_url getenv url =
     (if url = [] then False
      else if \<not> starts_with ''https://'' url then False
      else if list_ex forbidden_char url then False
      else let host_with_port = extract_host_and_port url in
        if host_with_port = [] then False
        else strip_port host_with_port \<in> allowed_hosts getenv)"

text \<open>The surroundings of the service: environment variables and whether the launcher starts.\<close>

record launcher =
  la_getenv :: "string \<Rightarrow> string option"
  la_spawn :: "string \<Rightarrow> bool"

definition open_browser :: "launcher \<Rightarrow> string \<Rightarrow> string list \<Rightarrow> bool \<times> string list" where
  "open_browser P url opened =
     (if \<not> sanitize_url (la_getenv P) url then (False, opened)
      else (la_spawn P (c_str url), opened @ [c_str url]))"

section \<open>The service\<close>

record plaid_state =
  ps_error :: string
  ps_link_url :: string
  ps_opened :: "string list"

text \<open>Calls on the state of the network and of the service; the session token is never passed on.\<close>

type_synonym ('a, 'w) plaid_call = "'w \<times> plaid_state \<Rightarrow> (string + 'a) \<times> ('w \<times> plaid_state)"

definition account_path :: "string \<Rightarrow> string \<Rightarrow> string" where
  "account_path i rest = ''/accounts/'' @ i @ rest"

definition post_or_error ::
    "'w backend \<Rightarrow> string \<Rightarrow> string \<Rightarrow> json \<Rightarrow> (json \<Rightarrow> (bool, 'w) plaid_call) \<Rightarrow> (bool, 'w) plaid_call" where
  "post_or_error C who path j next_step = (\<lambda>(w, p).
     case backend_post C path j None w of
       (Inl what, w1) \<Rightarrow> (Inl what, (w1, p))
     | (Inr (Inl e), w1) \<Rightarrow> (Inr False, (w1, p\<lparr>ps_error := who @ '': '' @ be_message e\<rparr>))
     | (Inr (Inr r), w1) \<Rightarrow> next_step r (w1, p))"

definition link_account :: "'w backend \<Rightarrow> string \<Rightarrow> string \<Rightarrow> (bool, 'w) plaid_call" where
  "link_account C i public_token =
     post_or_error C ''link_account'' (account_path i ''/link-plaid'')
       (JObj [(''public_token'', JStr public_token)]) (\<lambda>_ s. (Inr True, s))"

definition link_url :: "launcher \<Rightarrow> string \<Rightarrow> string \<Rightarrow> string" where
  "link_url P i link_token =
     env_or (la_getenv P) ''TF_BROWSER_URL''
       (env_or (la_getenv P) ''TF_BACKEND_URL'' ''https://localhost:8443'') @
     ''/link?account_id='' @ i @ ''&link_token='' @ link_token"

text \<open>What both flows share: the previous URL is forgotten, the token is asked for, and the new URL is
  kept and opened, whether or not the browser starts.\<close>

definition mint_link ::
    "launcher \<Rightarrow> 'w backend \<Rightarrow> string \<Rightarrow> string \<Rightarrow> (bool, 'w) plaid_call \<Rightarrow> (bool, 'w) plaid_call" where
  "mint_link P C who i next_step = (\<lambda>(w, p).
     post_or_error C who (account_path i ''/link/init'') (JObj [])
       (\<lambda>r (w1, p1). case opt_string r ''link_token'' of
          None \<Rightarrow> (Inr False, (w1, p1\<lparr>ps_error := who @ '': no link_token in response''\<rparr>))
        | Some tok \<Rightarrow>
            (let url = link_url P i tok
             in next_step (w1, p1\<lparr>ps_link_url := url, ps_opened := snd (open_browser P url (ps_opened p1))\<rparr>)))
       (w, p\<lparr>ps_link_url := []\<rparr>))"

text \<open>At most \<^verbatim>\<open>n\<close> polls; any answer that is not an error ends them.\<close>

fun poll_sync :: "'w backend \<Rightarrow> string \<Rightarrow> nat \<Rightarrow> (bool, 'w) plaid_call" where
  "poll_sync C i 0 (w, p) =
     (Inr False, (w, p\<lparr>ps_error := ''initiate_link_flow: timeout waiting for link completion''\<rparr>))"
| "poll_sync C i (Suc n) (w, p) =
     (case backend_post C (account_path i ''/sync'') (JObj []) None w of
        (Inl what, w1) \<Rightarrow> (Inl what, (w1, p))
      | (Inr (Inr _), w1) \<Rightarrow> (Inr True, (w1, p))
      | (Inr (Inl _), w1) \<Rightarrow> poll_sync C i n (w1, p))"

definition max_polls :: nat where "max_polls = 150"

definition initiate_link_flow :: "launcher \<Rightarrow> 'w backend \<Rightarrow> string \<Rightarrow> (bool, 'w) plaid_call" where
  "initiate_link_flow P C i = mint_link P C ''initiate_link_flow'' i (poll_sync C i max_polls)"

definition prepare_link_flow :: "launcher \<Rightarrow> 'w backend \<Rightarrow> string \<Rightarrow> (bool, 'w) plaid_call" where
  "prepare_link_flow P C i = mint_link P C ''prepare_link_flow'' i (\<lambda>s. (Inr True, s))"

definition unlink_account :: "'w backend \<Rightarrow> string \<Rightarrow> (bool, 'w) plaid_call" where
  "unlink_account C i =
     post_or_error C ''unlink_account'' (account_path i ''/unlink'') (JObj []) (\<lambda>_ s. (Inr True, s))"

text \<open>The two readers ask the server and return nothing, whatever it answers.\<close>

definition read_nothing :: "'w backend \<Rightarrow> string \<Rightarrow> string \<Rightarrow> 'w \<times> plaid_state \<Rightarrow> 'w \<times> plaid_state" where
  "read_nothing C who path = (\<lambda>(w, p). case backend_get C path None w of
     (Inl e, w1) \<Rightarrow> (w1, p\<lparr>ps_error := who @ '': '' @ be_message e\<rparr>)
   | (Inr _, w1) \<Rightarrow> (w1, p))"

definition get_plaid_transactions :: "'w backend \<Rightarrow> string \<Rightarrow> 'w \<times> plaid_state \<Rightarrow> 'w \<times> plaid_state" where
  "get_plaid_transactions C i = read_nothing C ''get_transactions'' (account_path i ''/transactions'')"

definition get_plaid_accounts :: "'w backend \<Rightarrow> string \<Rightarrow> 'w \<times> plaid_state \<Rightarrow> 'w \<times> plaid_state" where
  "get_plaid_accounts C i = read_nothing C ''get_accounts'' (account_path i ''/plaid-accounts'')"

section \<open>Which URLs pass\<close>















section \<open>How linking ends\<close>

lemma opened_checked:
  "set (snd (open_browser P url opened)) \<subseteq> set opened \<union> {u. sanitize_url (la_getenv P) u}"
proof (cases "sanitize_url (la_getenv P) url")
  case True
  then have "\<not> list_ex forbidden_char url" by (simp add: sanitize_url_def split: if_splits)
  then have "nul_free url"
    by (auto simp: nul_free_def list_all_iff list_ex_iff forbidden_char_def nul_def)
  then show ?thesis using True by (simp add: open_browser_def)
qed (simp add: open_browser_def)

lemma mint_link_cases:
  assumes "mint_link P C who i next_step (w, p) = (Inr b, (w', p'))"
  obtains (failed) "\<not> b" "ps_link_url p' = []" "ps_opened p' = ps_opened p"
  | (minted) r tok w1 where "backend_post C (account_path i ''/link/init'') (JObj []) None w = (Inr (Inr r), w1)"
      "opt_string r ''link_token'' = Some tok"
      "next_step (w1, p\<lparr>ps_link_url := link_url P i tok,
         ps_opened := snd (open_browser P (link_url P i tok) (ps_opened p))\<rparr>) = (Inr b, (w', p'))"
  using assms unfolding mint_link_def post_or_error_def
  by (auto simp: Let_def split: prod.splits sum.splits option.splits)

text \<open>Preparing a link: it succeeds exactly when the server returned a link token, and then the URL is
  that of the link page with this token; a failure leaves no URL; only URLs that pass the check are
  ever opened.\<close>

theorem prepared_link:
  assumes "prepare_link_flow P C i (w, p) = (Inr b, (w', p'))"
  shows "(b = (ps_link_url p' \<noteq> [])) \<and>
    (b \<longrightarrow> (\<exists>r tok w1. backend_post C (account_path i ''/link/init'') (JObj []) None w = (Inr (Inr r), w1) \<and>
       opt_string r ''link_token'' = Some tok \<and> ps_link_url p' = link_url P i tok)) \<and>
    set (ps_opened p') \<subseteq> set (ps_opened p) \<union> {u. sanitize_url (la_getenv P) u}"
proof -
  from assms[unfolded prepare_link_flow_def] show ?thesis
  proof (cases rule: mint_link_cases)
    case failed
    then show ?thesis by auto
  next
    case (minted r tok w1)
    moreover have "link_url P i tok \<noteq> []" by (simp add: link_url_def)
    ultimately show ?thesis using opened_checked [of P "link_url P i tok" "ps_opened p"] by auto
  qed
qed

definition quiet_launcher :: launcher where
  "quiet_launcher = \<lparr>la_getenv = \<lambda>_. None, la_spawn = \<lambda>_. False\<rparr>"

definition answering :: "http_response option \<Rightarrow> (string \<Rightarrow> json option) \<Rightarrow> unit backend" where
  "answering r parse = \<lparr>bc_send = \<lambda>_ w. (r, w), bc_base = ''https://localhost:8443'',
     bc_parse = parse, bc_dump = \<lambda>_. Inr ''{}''\<rparr>"

definition token_backend :: "unit backend" where
  "token_backend = answering (Some \<lparr>rs_status = 200, rs_headers = [], rs_body = ''t''\<rparr>)
     (\<lambda>_. Some (JObj [(''link_token'', JStr ''tok'')]))"

definition no_state :: plaid_state where
  "no_state = \<lparr>ps_error = [], ps_link_url = [], ps_opened = []\<rparr>"

theorem prepared_link_witness:
  "ps_link_url (snd (snd (prepare_link_flow quiet_launcher token_backend ''a1'' ((), no_state)))) \<noteq> []"
proof -
  let ?r = "prepare_link_flow quiet_launcher token_backend ''a1'' ((), no_state)"
  have "?r = (Inr True, ((), snd (snd ?r)))"
    by (simp add: prepare_link_flow_def mint_link_def post_or_error_def backend_post_def send_request_def
        map_response_def token_backend_def answering_def opt_string_def Let_def)
  from prepared_link [OF this] show ?thesis by simp
qed

text \<open>The world after some polls, and what the next one is answered.\<close>

definition poll_once :: "'w backend \<Rightarrow> string \<Rightarrow> 'w \<Rightarrow> (string + (backend_error + json)) \<times> 'w" where
  "poll_once C i w = backend_post C (account_path i ''/sync'') (JObj []) None w"

definition polled :: "'w backend \<Rightarrow> string \<Rightarrow> nat \<Rightarrow> 'w \<Rightarrow> 'w" where
  "polled C i n w = ((\<lambda>w. snd (poll_once C i w)) ^^ n) w"

definition poll_fails :: "'w backend \<Rightarrow> string \<Rightarrow> 'w \<Rightarrow> nat \<Rightarrow> bool" where
  "poll_fails C i w n \<longleftrightarrow> (\<exists>e. fst (poll_once C i (polled C i n w)) = Inr (Inl e))"

definition poll_answers :: "'w backend \<Rightarrow> string \<Rightarrow> 'w \<Rightarrow> nat \<Rightarrow> bool" where
  "poll_answers C i w n \<longleftrightarrow> (\<exists>j. fst (poll_once C i (polled C i n w)) = Inr (Inr j))"

lemma polled_Suc: "polled C i (Suc n) w = polled C i n (snd (poll_once C i w))"
  unfolding polled_def by (simp only: funpow_Suc_right comp_apply)

lemma poll_shift:
  "poll_fails C i w (Suc n) = poll_fails C i (snd (poll_once C i w)) n"
  "poll_answers C i w (Suc n) = poll_answers C i (snd (poll_once C i w)) n"
  by (simp_all only: poll_fails_def poll_answers_def polled_Suc)

lemma poll_step:
  assumes "poll_fails C i w 0"
  shows "poll_sync C i (Suc n) (w, p) = poll_sync C i n (snd (poll_once C i w), p)"
  using assms by (cases "poll_once C i w") (auto simp: poll_fails_def polled_def poll_once_def)

lemma poll_times_out:
  "\<forall>m < n. poll_fails C i w m \<Longrightarrow> poll_sync C i n (w, p) =
    (Inr False, (polled C i n w, p\<lparr>ps_error := ''initiate_link_flow: timeout waiting for link completion''\<rparr>))"
proof (induction n arbitrary: w)
  case (Suc n)
  have "poll_fails C i w 0" "\<forall>m < n. poll_fails C i (snd (poll_once C i w)) m"
    using Suc.prems poll_shift(1) by (blast, metis Suc_less_eq)
  then show ?case using Suc.IH by (simp only: poll_step polled_Suc)
qed (simp add: polled_def)

lemma poll_succeeds:
  "\<forall>m < k. poll_fails C i w m \<Longrightarrow> poll_answers C i w k \<Longrightarrow> k < n \<Longrightarrow>
     poll_sync C i n (w, p) = (Inr True, (polled C i (Suc k) w, p))"
proof (induction k arbitrary: w n)
  case 0
  then obtain n1 where "n = Suc n1" by (cases n) auto
  with 0 show ?case
    by (cases "poll_once C i w") (auto simp: poll_answers_def polled_def poll_once_def)
next
  case (Suc k)
  have "Suc k < n" by (rule Suc.prems(3))
  then obtain n1 where n: "n = Suc n1" "k < n1" by (cases n) auto
  have "poll_fails C i w 0" "\<forall>m < k. poll_fails C i (snd (poll_once C i w)) m"
    "poll_answers C i (snd (poll_once C i w)) k"
    using Suc.prems poll_shift by (blast, metis Suc_less_eq, metis)
  then show ?case using Suc.IH n by (simp only: poll_step polled_Suc)
qed

text \<open>C29. How waiting for a link ends. When the server refuses to mint a link token, or answers without one, the
  flow returns false at once with that reason and no URL. Otherwise the URL of the link page is kept and opened if
  it passes the check, and the server is polled: the first poll that is not an error, if it is among the first 150,
  ends the flow with success, no further request being sent; after 150 errors the flow returns false with the
  message of the time-out, having sent exactly 150 polls. (Between two polls the code sleeps two seconds, which
  changes no state.)\<close>

theorem linking_times_out:
  fixes p :: plaid_state
  shows "(\<forall>e w1. backend_post C (account_path i ''/link/init'') (JObj []) None w = (Inr (Inl e), w1) \<longrightarrow>
      initiate_link_flow P C i (w, p) =
        (Inr False, (w1, p\<lparr>ps_link_url := [], ps_error := ''initiate_link_flow: '' @ be_message e\<rparr>))) \<and>
    (\<forall>r w1. backend_post C (account_path i ''/link/init'') (JObj []) None w = (Inr (Inr r), w1) \<and>
        opt_string r ''link_token'' = None \<longrightarrow>
      initiate_link_flow P C i (w, p) = (Inr False, (w1, p\<lparr>ps_link_url := [],
        ps_error := ''initiate_link_flow: no link_token in response''\<rparr>))) \<and>
    (\<forall>r tok w1. backend_post C (account_path i ''/link/init'') (JObj []) None w = (Inr (Inr r), w1) \<and>
        opt_string r ''link_token'' = Some tok \<longrightarrow>
      (let url = link_url P i tok;
           p1 = p\<lparr>ps_link_url := url, ps_opened := snd (open_browser P url (ps_opened p))\<rparr>
       in (\<forall>k < 150. (\<forall>m < k. poll_fails C i w1 m) \<and> poll_answers C i w1 k \<longrightarrow>
             initiate_link_flow P C i (w, p) = (Inr True, (polled C i (k + 1) w1, p1))) \<and>
          ((\<forall>m < 150. poll_fails C i w1 m) \<longrightarrow>
             initiate_link_flow P C i (w, p) = (Inr False, (polled C i 150 w1,
               p1\<lparr>ps_error := ''initiate_link_flow: timeout waiting for link completion''\<rparr>)))))"
proof (intro conjI allI impI)
  show "initiate_link_flow P C i (w, p) =
      (Inr False, (w1, p\<lparr>ps_link_url := [], ps_error := ''initiate_link_flow: '' @ be_message e\<rparr>))"
    if "backend_post C (account_path i ''/link/init'') (JObj []) None w = (Inr (Inl e), w1)" for e w1
    using that by (simp add: initiate_link_flow_def mint_link_def post_or_error_def)
  show "initiate_link_flow P C i (w, p) = (Inr False, (w1, p\<lparr>ps_link_url := [],
        ps_error := ''initiate_link_flow: no link_token in response''\<rparr>))"
    if "backend_post C (account_path i ''/link/init'') (JObj []) None w = (Inr (Inr r), w1) \<and>
        opt_string r ''link_token'' = None" for r w1
    using that by (simp add: initiate_link_flow_def mint_link_def post_or_error_def)
  fix r tok w1
  assume r: "backend_post C (account_path i ''/link/init'') (JObj []) None w = (Inr (Inr r), w1) \<and>
      opt_string r ''link_token'' = Some tok"
  let ?p = "p\<lparr>ps_link_url := link_url P i tok, ps_opened := snd (open_browser P (link_url P i tok) (ps_opened p))\<rparr>"
  have "initiate_link_flow P C i (w, p) = poll_sync C i 150 (w1, ?p)"
    using r by (simp add: initiate_link_flow_def mint_link_def post_or_error_def max_polls_def Let_def)
  then show "let url = link_url P i tok;
           p1 = p\<lparr>ps_link_url := url, ps_opened := snd (open_browser P url (ps_opened p))\<rparr>
       in (\<forall>k < 150. (\<forall>m < k. poll_fails C i w1 m) \<and> poll_answers C i w1 k \<longrightarrow>
             initiate_link_flow P C i (w, p) = (Inr True, (polled C i (k + 1) w1, p1))) \<and>
          ((\<forall>m < 150. poll_fails C i w1 m) \<longrightarrow>
             initiate_link_flow P C i (w, p) = (Inr False, (polled C i 150 w1,
               p1\<lparr>ps_error := ''initiate_link_flow: timeout waiting for link completion''\<rparr>)))"
    using poll_times_out [of 150 C i w1 ?p] poll_succeeds [of _ C i w1 150 ?p] by (simp only: Let_def Suc_eq_plus1) blast
qed

text \<open>A network that counts the requests, mints a token and refuses every poll.\<close>

definition refusing_backend :: "nat backend" where
  "refusing_backend = \<lparr>bc_send = \<lambda>r n. (Some \<lparr>rs_status = if n = 0 then 200 else 404, rs_headers = [], rs_body = ''t''\<rparr>, n + 1),
     bc_base = ''https://localhost:8443'',
     bc_parse = \<lambda>_. Some (JObj [(''link_token'', JStr ''tok'')]), bc_dump = \<lambda>_. Inr ''{}''\<rparr>"

theorem linking_times_out_witness:
  "fst (initiate_link_flow quiet_launcher refusing_backend ''a1'' (0, no_state)) = Inr False \<and>
   fst (snd (initiate_link_flow quiet_launcher refusing_backend ''a1'' (0, no_state))) = 151"
proof -
  let ?C = refusing_backend
  have init: "backend_post ?C (account_path ''a1'' ''/link/init'') (JObj []) None 0 =
      (Inr (Inr (JObj [(''link_token'', JStr ''tok'')])), 1)"
    by (simp add: backend_post_def send_request_def map_response_def refusing_backend_def)
  have once: "\<exists>e. poll_once ?C ''a1'' n = (Inr (Inl e), n + 1)" if "0 < n" for n
    using that by (simp add: poll_once_def backend_post_def send_request_def map_response_def refusing_backend_def)
  have at: "polled ?C ''a1'' m 1 = m + 1" for m
  proof (induction m)
    case (Suc m)
    have "snd (poll_once ?C ''a1'' (m + 1)) = m + 2" using once [of "m + 1"] by auto
    then show ?case using Suc by (simp add: polled_def)
  qed (simp add: polled_def)
  have refused: "\<forall>m < 150. poll_fails ?C ''a1'' 1 m"
    using once unfolding poll_fails_def at by (metis fst_conv add_gr_0 zero_less_one)
  have tok: "opt_string (JObj [(''link_token'', JStr ''tok'')]) ''link_token'' = Some ''tok''"
    by (simp add: opt_string_def)
  obtain p1 where "initiate_link_flow quiet_launcher ?C ''a1'' (0, no_state) = (Inr False, (polled ?C ''a1'' 150 1, p1))"
    using linking_times_out [THEN conjunct2, THEN conjunct2, rule_format, OF conjI, OF init tok] refused
    unfolding Let_def by blast
  then show ?thesis unfolding at by simp
qed

end
