(* ===== verification/V01_Migrator.thy ===== *)
theory V01_Migrator
  imports Local_Storage Auth_Client
begin

text \<open>The one-shot upload of a v0.1 data file to the server (src/src/migration/V01Migrator.cpp). Each
  row of a collection becomes one POST; a conflict counts as skipped, any other error is recorded and
  the upload goes on; a member of the wrong type throws out of the upload and the report is lost
  (\<^verbatim>\<open>Inl\<close>). Progress output is not modelled.
  What is shown: every row is accounted for, and no request carries the v0.1 access token.\<close>

section \<open>Report and requests\<close>

record migration_report =
  mr_entities :: "nat \<times> nat"
  mr_accounts :: "nat \<times> nat"
  mr_transactions :: "nat \<times> nat"
  mr_categories :: "nat \<times> nat"
  mr_budgets :: "nat \<times> nat"
  mr_errors :: nat
  mr_messages :: "string list"

definition empty_report :: migration_report where
  "empty_report = \<lparr>mr_entities = (0, 0), mr_accounts = (0, 0), mr_transactions = (0, 0),
     mr_categories = (0, 0), mr_budgets = (0, 0), mr_errors = 0, mr_messages = []\<rparr>"

text \<open>The adapter has no kind for a rate limit.\<close>

definition migration_kind :: "error_kind \<Rightarrow> error_kind" where
  "migration_kind k = (if k = RateLimited then BadResponse else k)"

definition post_migration ::
    "'w backend \<Rightarrow> string \<Rightarrow> string \<Rightarrow> json \<Rightarrow> 'w \<Rightarrow> (string + (backend_error + json)) \<times> 'w" where
  "post_migration C tok path j w = (case backend_post C path j (Some tok) w of
     (Inr (Inl e), w1) \<Rightarrow> (Inr (Inl (e\<lparr>be_kind := migration_kind (be_kind e)\<rparr>)), w1)
   | r \<Rightarrow> r)"

text \<open>A row as it is sent: path, body and how messages name it.\<close>

record migration_row =
  ro_path :: string
  ro_body :: json
  ro_name :: string

definition entity_row :: "json \<Rightarrow> string + migration_row" where
  "entity_row e =
     bind_sum (value_or as_string e ''id'' []) (\<lambda>i.
     bind_sum (value_or as_string e ''name'' []) (\<lambda>n.
     bind_sum (value_or as_string e ''type'' ''other'') (\<lambda>ty.
     bind_sum (value_or as_string e ''tax_id'' []) (\<lambda>tax.
     bind_sum (value_or as_bool e ''is_active'' True) (\<lambda>act.
     bind_sum (value_or as_string e ''created_at'' []) (\<lambda>cr.
     Inr \<lparr>ro_path = ''/entities'', ro_body = JObj [(''created_at'', JStr cr), (''id'', JStr i),
            (''is_active'', JBool act), (''kind'', JStr ty), (''name'', JStr n), (''tax_id'', JStr tax)],
          ro_name = i\<rparr>))))))"

definition account_row :: "json \<Rightarrow> string + migration_row" where
  "account_row a =
     bind_sum (value_or as_string a ''id'' []) (\<lambda>i.
     bind_sum (value_or as_string a ''entity_id'' []) (\<lambda>e.
     bind_sum (value_or as_string a ''name'' []) (\<lambda>n.
     bind_sum (value_or as_string a ''type'' ''other'') (\<lambda>ty.
     bind_sum (value_or as_string a ''institution'' []) (\<lambda>inst.
     bind_sum (value_or as_string a ''plaid_item_id'' []) (\<lambda>item.
     bind_sum (value_or as_bool a ''is_active'' True) (\<lambda>act.
     Inr \<lparr>ro_path = ''/entities/'' @ e @ ''/accounts'', ro_body = JObj [(''id'', JStr i),
            (''institution'', JStr inst), (''is_active'', JBool act), (''name'', JStr n),
            (''plaid_item_id'', JStr item), (''type'', JStr ty)],
          ro_name = i\<rparr>)))))))"

definition transaction_row :: "json \<Rightarrow> string + migration_row" where
  "transaction_row t =
     bind_sum (value_or as_string t ''id'' []) (\<lambda>i.
     bind_sum (value_or as_string t ''account_id'' []) (\<lambda>acc.
     bind_sum (value_or as_string t ''date'' []) (\<lambda>date.
     bind_sum (value_or as_double t ''amount'' 0) (\<lambda>amount.
     bind_sum (value_or as_string t ''description'' []) (\<lambda>desc.
     bind_sum (value_or as_string t ''category_id'' []) (\<lambda>cat.
     bind_sum (value_or as_bool t ''pending'' False) (\<lambda>pend.
     bind_sum (value_or as_string t ''plaid_transaction_id'' []) (\<lambda>pid.
     bind_sum (value_or as_string t ''notes'' []) (\<lambda>notes.
     bind_sum (value_or as_string t ''check_number'' []) (\<lambda>chk.
     Inr \<lparr>ro_path = ''/accounts/'' @ acc @ ''/transactions'', ro_body = JObj [
            (''amount'', JFloat (Some amount)), (''category_id'', JStr cat), (''check_number'', JStr chk),
            (''date'', JStr date), (''description'', JStr desc), (''id'', JStr i), (''notes'', JStr notes),
            (''pending'', JBool pend), (''plaid_transaction_id'', JStr pid)],
          ro_name = i @ '' (account='' @ acc @ '')''\<rparr>))))))))))"

definition category_row :: "json \<Rightarrow> string + migration_row" where
  "category_row c =
     bind_sum (value_or as_string c ''id'' []) (\<lambda>i.
     bind_sum (value_or as_string c ''name'' []) (\<lambda>n.
     bind_sum (value_or as_string c ''type'' ''expense'') (\<lambda>ty.
     bind_sum (value_or as_string c ''emoji'' []) (\<lambda>em.
     bind_sum (value_or as_string c ''parent_id'' []) (\<lambda>par.
     bind_sum (value_or as_bool c ''is_system'' False) (\<lambda>sys.
     Inr \<lparr>ro_path = ''/categories'', ro_body = JObj [(''emoji'', JStr em), (''id'', JStr i),
            (''is_system'', JBool sys), (''name'', JStr n), (''parent_id'', JStr par), (''type'', JStr ty)],
          ro_name = i\<rparr>))))))"

definition budget_row :: "json \<Rightarrow> string + migration_row" where
  "budget_row b =
     bind_sum (value_or as_string b ''id'' []) (\<lambda>i.
     bind_sum (value_or as_string b ''entity_id'' []) (\<lambda>e.
     bind_sum (value_or as_string b ''category_id'' []) (\<lambda>cat.
     bind_sum (value_or as_string b ''month'' []) (\<lambda>mon.
     bind_sum (value_or as_double b ''limit_amount'' 0) (\<lambda>lim.
     Inr \<lparr>ro_path = ''/budgets'', ro_body = JObj [(''category_id'', JStr cat), (''entity_id'', JStr e),
            (''id'', JStr i), (''limit_amount'', JFloat (Some lim)), (''month'', JStr mon)],
          ro_name = i\<rparr>)))))"

section \<open>The upload\<close>

text \<open>What one answer adds to the created rows, the skipped rows and the messages.\<close>

type_synonym tally = "nat \<times> nat \<times> string list"

definition error_message :: "string \<Rightarrow> string \<Rightarrow> backend_error \<Rightarrow> string" where
  "error_message kind name e = kind @ '' '' @ name @ '': HTTP '' @ int_to_string (be_status e) @
     '' ['' @ be_code e @ ''] '' @ be_message e"

definition handle_post_result :: "string \<Rightarrow> string \<Rightarrow> backend_error + json \<Rightarrow> tally \<Rightarrow> tally" where
  "handle_post_result kind name r = (\<lambda>(created, skipped, msgs). case r of
     Inr _ \<Rightarrow> (created + 1, skipped, msgs)
   | Inl e \<Rightarrow> if be_kind e = Conflict then (created, skipped + 1, msgs)
             else (created, skipped, msgs @ [error_message kind name e]))"

fun migrate_rows ::
    "'w backend \<Rightarrow> string \<Rightarrow> string \<Rightarrow> (json \<Rightarrow> string + migration_row) \<Rightarrow> json list \<Rightarrow> tally \<Rightarrow> 'w \<Rightarrow>
       (string + tally) \<times> 'w" where
  "migrate_rows C tok kind f [] t w = (Inr t, w)"
| "migrate_rows C tok kind f (v # vs) t w =
     (case f v of
        Inl what \<Rightarrow> (Inl what, w)
      | Inr row \<Rightarrow>
          (case post_migration C tok (ro_path row) (ro_body row) w of
             (Inl what, w1) \<Rightarrow> (Inl what, w1)
           | (Inr r, w1) \<Rightarrow> migrate_rows C tok kind f vs (handle_post_result kind (ro_name row) r t) w1))"

definition migrate_collection ::
    "'w backend \<Rightarrow> string \<Rightarrow> json \<Rightarrow> string \<Rightarrow> string \<Rightarrow> (json \<Rightarrow> string + migration_row) \<Rightarrow>
       (nat \<times> nat \<Rightarrow> migration_report \<Rightarrow> migration_report) \<Rightarrow>
       (string + migration_report) \<times> 'w \<Rightarrow> (string + migration_report) \<times> 'w" where
  "migrate_collection C tok j key kind f put = (\<lambda>(r, w). case r of
     Inl what \<Rightarrow> (Inl what, w)
   | Inr rep \<Rightarrow>
       (case migrate_rows C tok kind f (elements_of j key) (0, 0, mr_messages rep) w of
          (Inl what, w1) \<Rightarrow> (Inl what, w1)
        | (Inr (created, skipped, msgs), w1) \<Rightarrow>
            (Inr (put (created, skipped) (rep\<lparr>mr_errors := length msgs, mr_messages := msgs\<rparr>)), w1)))"

definition migrate_all ::
    "'w backend \<Rightarrow> string \<Rightarrow> json \<Rightarrow> 'w \<Rightarrow> (string + migration_report) \<times> 'w" where
  "migrate_all C tok j w =
     migrate_collection C tok j ''budgets'' ''budget'' budget_row (\<lambda>n. mr_budgets_update (\<lambda>_. n))
     (migrate_collection C tok j ''categories'' ''category'' category_row (\<lambda>n. mr_categories_update (\<lambda>_. n))
     (migrate_collection C tok j ''transactions'' ''transaction'' transaction_row
        (\<lambda>n. mr_transactions_update (\<lambda>_. n))
     (migrate_collection C tok j ''accounts'' ''account'' account_row (\<lambda>n. mr_accounts_update (\<lambda>_. n))
     (migrate_collection C tok j ''entities'' ''entity'' entity_row (\<lambda>n. mr_entities_update (\<lambda>_. n))
        (Inr empty_report, w)))))"

text \<open>\<^verbatim>\<open>migrate\<close>: a file that cannot be opened or parsed is an error in the report; any other exception
  of the parser leaves the upload.\<close>

definition failed_report :: "string \<Rightarrow> migration_report" where
  "failed_report msg = empty_report\<lparr>mr_errors := 1, mr_messages := [msg]\<rparr>"

definition migrate ::
    "json_text \<Rightarrow> disk \<Rightarrow> 'w backend \<Rightarrow> string \<Rightarrow> string \<Rightarrow> 'w \<Rightarrow> (string + migration_report) \<times> 'w" where
  "migrate T k C tok path w = (case open_read path k of
     None \<Rightarrow> (Inr (failed_report (''Cannot open file: '' @ path)), w)
   | Some bytes \<Rightarrow> (case parse_text T bytes of
       Inl (True, what) \<Rightarrow> (Inr (failed_report (''JSON parse error: '' @ what)), w)
     | Inl (False, what) \<Rightarrow> (Inl what, w)
     | Inr j \<Rightarrow> migrate_all C tok j w))"

section \<open>Every row is accounted for\<close>

definition tally_size :: "tally \<Rightarrow> nat" where
  "tally_size t = (case t of (created, skipped, msgs) \<Rightarrow> created + skipped + length msgs)"

lemma handle_post_size: "tally_size (handle_post_result kind name r t) = Suc (tally_size t)"
  by (cases t) (auto simp: tally_size_def handle_post_result_def split: sum.split)

lemma migrate_rows_size:
  "migrate_rows C tok kind f vs t w = (Inr t', w') \<Longrightarrow> tally_size t' = tally_size t + length vs"
  by (induction vs arbitrary: t w)
     (auto simp: handle_post_size split: sum.splits prod.splits)

definition report_size :: "migration_report \<Rightarrow> nat" where
  "report_size r = sum_list (map (\<lambda>(c, s). c + s)
     [mr_entities r, mr_accounts r, mr_transactions r, mr_categories r, mr_budgets r]) + mr_errors r"

text \<open>Which collections a report has counted.\<close>

lemma migrate_collection_size:
  assumes "migrate_collection C tok j key kind f put (Inr rep, w) = (Inr rep', w')"
    and "mr_errors rep = length (mr_messages rep)"
  shows "\<exists>n msgs. rep' = put n (rep\<lparr>mr_errors := length msgs, mr_messages := msgs\<rparr>) \<and>
    fst n + snd n + length msgs = length (mr_messages rep) + length (elements_of j key)"
proof -
  obtain created skipped msgs where
    rows: "migrate_rows C tok kind f (elements_of j key) (0, 0, mr_messages rep) w = (Inr (created, skipped, msgs), w')"
    and "rep' = put (created, skipped) (rep\<lparr>mr_errors := length msgs, mr_messages := msgs\<rparr>)"
    using assms(1) by (auto simp: migrate_collection_def split: sum.splits prod.splits)
  then show ?thesis using migrate_rows_size [OF rows] by (force simp: tally_size_def)
qed

lemma migrate_collection_Inr:
  assumes "migrate_collection C tok j key kind f put x = (Inr rep', w')"
  obtains rep w where "x = (Inr rep, w)"
  using assms by (cases x) (auto simp: migrate_collection_def split: sum.splits)

definition row_count :: "json \<Rightarrow> nat" where
  "row_count j = sum_list (map (\<lambda>k. length (elements_of j k))
     [''entities'', ''accounts'', ''transactions'', ''categories'', ''budgets''])"

text \<open>An upload that finishes has counted every row of the five collections exactly once, as created, as
  skipped or as an error with its message.\<close>

theorem migration_counts_rows:
  assumes "migrate_all C tok j w = (Inr rep, w')"
  shows "report_size rep = row_count j \<and> mr_errors rep = length (mr_messages rep)"
proof -
  let ?e = "migrate_collection C tok j ''entities'' ''entity'' entity_row (\<lambda>n. mr_entities_update (\<lambda>_. n)) (Inr empty_report, w)"
  let ?a = "migrate_collection C tok j ''accounts'' ''account'' account_row (\<lambda>n. mr_accounts_update (\<lambda>_. n)) ?e"
  let ?t = "migrate_collection C tok j ''transactions'' ''transaction'' transaction_row (\<lambda>n. mr_transactions_update (\<lambda>_. n)) ?a"
  let ?c = "migrate_collection C tok j ''categories'' ''category'' category_row (\<lambda>n. mr_categories_update (\<lambda>_. n)) ?t"
  have b: "migrate_collection C tok j ''budgets'' ''budget'' budget_row (\<lambda>n. mr_budgets_update (\<lambda>_. n)) ?c = (Inr rep, w')"
    using assms by (simp add: migrate_all_def)
  obtain r4 w4 where c: "?c = (Inr r4, w4)" using b by (rule migrate_collection_Inr)
  obtain r3 w3 where t: "?t = (Inr r3, w3)" using c by (rule migrate_collection_Inr)
  obtain r2 w2 where a: "?a = (Inr r2, w2)" using t by (rule migrate_collection_Inr)
  obtain r1 w1 where e: "?e = (Inr r1, w1)" using a by (rule migrate_collection_Inr)
  obtain n1 m1 where 1: "r1 = empty_report\<lparr>mr_errors := length m1, mr_messages := m1, mr_entities := n1\<rparr>"
    "fst n1 + snd n1 + length m1 = length (elements_of j ''entities'')"
    using migrate_collection_size [OF e] by (auto simp: empty_report_def)
  obtain n2 m2 where 2: "r2 = r1\<lparr>mr_errors := length m2, mr_messages := m2, mr_accounts := n2\<rparr>"
    "fst n2 + snd n2 + length m2 = length m1 + length (elements_of j ''accounts'')"
    using migrate_collection_size [OF a [unfolded e]] by (auto simp: 1)
  obtain n3 m3 where 3: "r3 = r2\<lparr>mr_errors := length m3, mr_messages := m3, mr_transactions := n3\<rparr>"
    "fst n3 + snd n3 + length m3 = length m2 + length (elements_of j ''transactions'')"
    using migrate_collection_size [OF t [unfolded a]] by (auto simp: 2)
  obtain n4 m4 where 4: "r4 = r3\<lparr>mr_errors := length m4, mr_messages := m4, mr_categories := n4\<rparr>"
    "fst n4 + snd n4 + length m4 = length m3 + length (elements_of j ''categories'')"
    using migrate_collection_size [OF c [unfolded t]] by (auto simp: 3)
  obtain n5 m5 where 5: "rep = r4\<lparr>mr_errors := length m5, mr_messages := m5, mr_budgets := n5\<rparr>"
    "fst n5 + snd n5 + length m5 = length m4 + length (elements_of j ''budgets'')"
    using migrate_collection_size [OF b [unfolded c]] by (auto simp: 4)
  have "report_size rep = fst n1 + snd n1 + (fst n2 + snd n2) + (fst n3 + snd n3) + (fst n4 + snd n4) +
      (fst n5 + snd n5) + length m5"
    by (simp add: report_size_def 1(1) 2(1) 3(1) 4(1) 5(1) split_def)
  then show ?thesis using 1(2) 2(2) 3(2) 4(2) 5(2) by (simp add: row_count_def 5(1))
qed

theorem migration_counts_rows_witness:
  "(case migrate_all (constant_backend None) ''tok'' (JObj [(''entities'', JArr [JObj []])]) () of
     (Inr rep, _) \<Rightarrow> report_size rep = 1 | _ \<Rightarrow> False)"
proof -
  let ?j = "JObj [(''entities'', JArr [JObj []])]"
  let ?r = "migrate_all (constant_backend None) ''tok'' ?j ()"
  have "\<exists>rep. ?r = (Inr rep, ())"
    by (simp add: migrate_all_def migrate_collection_def elements_of_def entity_row_def value_or_def
        post_migration_def backend_post_def send_request_def constant_backend_def handle_post_result_def
        backend_error_def migration_kind_def)
  then obtain rep where "?r = (Inr rep, ())" by blast
  from migration_counts_rows [OF this] this show ?thesis
    by (simp add: row_count_def elements_of_def report_size_def)
qed

text \<open>No row that is sent has the access token of the v0.1 file, nor the balance of an account.\<close>

definition row_ok :: "(json \<Rightarrow> string + migration_row) \<Rightarrow> bool" where
  "row_ok f \<longleftrightarrow> (\<forall>v row. f v = Inr row \<longrightarrow> json_at (ro_body row) ''plaid_access_token'' = None \<and>
     json_at (ro_body row) ''balance'' = None)"

theorem migration_sends_no_token:
  "row_ok entity_row \<and> row_ok account_row \<and> row_ok transaction_row \<and> row_ok category_row \<and> row_ok budget_row"
  by (auto simp: row_ok_def entity_row_def account_row_def transaction_row_def category_row_def
      budget_row_def bind_sum_Inr)

end
