(* ===== verification/Client_Server.thy ===== *)
theory Client_Server
  imports Remote_Storage Plaid_Service V01_Migrator
begin

text \<open>The client's services talking to the server's routes. Between them is the wire: JSON is printed and
  parsed, the method and the path are matched against the registered patterns (by the HTTP library, a
  parameter), the handler runs behind the exception boundary and its answer is what the client's
  \<open>map_response\<close> sees. A request may fail to reach the server, and an answer may be lost after the server
  has acted.
  What is shown: what the client reads from the rows the server prints, what becomes of linking a bank
  without a session token, and what the server makes of an uploaded v0.1 file.\<close>

section \<open>The wire\<close>

text \<open>\<open>web_match\<close> is what the library finds for a method and a path: the registered pattern, the path
  parameters and the query; \<open>web_env\<close> the surroundings of a request; \<open>web_delivery\<close> what the network does with
  it.\<close>

datatype delivery = Delivered | Unreached | Answer_lost

record web =
  web_match :: "string \<Rightarrow> string \<Rightarrow> (string \<times> (string \<Rightarrow> string) \<times> (string \<Rightarrow> string option)) option"
  web_env :: "http_request \<Rightarrow> server_state \<Rightarrow> env"
  web_plaid :: "plaid_world option"
  web_delivery :: "http_request \<Rightarrow> server_state \<Rightarrow> delivery"
  web_text :: json_text

fun method_name :: "http_method \<Rightarrow> string" where
  "method_name GET = ''GET''"
| "method_name POST = ''POST''"
| "method_name PUT = ''PUT''"
| "method_name DELETE = ''DELETE''"

definition parsed :: "json_text \<Rightarrow> string \<Rightarrow> json option" where
  "parsed T s = (case parse_text T s of Inl _ \<Rightarrow> None | Inr j \<Rightarrow> Some j)"

text \<open>The request a handler sees: the header, the matched parameters and the body, if it parses.\<close>

definition request_of ::
    "web \<Rightarrow> (string \<Rightarrow> string) \<Rightarrow> (string \<Rightarrow> string option) \<Rightarrow> http_request \<Rightarrow> request" where
  "request_of W params q rq =
     \<lparr>authorization = map_of (rq_headers rq) ''Authorization'', path_param = params, query = q,
      body = Option.bind (rq_body rq) (parsed (web_text W))\<rparr>"

definition route_for ::
    "third_party \<Rightarrow> web \<Rightarrow> string \<Rightarrow> http_request \<Rightarrow> server_state \<Rightarrow>
       ((request \<Rightarrow> server_state \<Rightarrow> server_state outcome) \<times> request) option" where
  "route_for L W base rq s =
     (case web_match W (rq_method rq) (drop (length base) (rq_url rq)) of
        None \<Rightarrow> None
      | Some (p, params, q) \<Rightarrow>
          (case find (\<lambda>(m, p', h). method_name m = rq_method rq \<and> p' = p)
                  (server_routes L (web_env W rq s) (web_plaid W)) of
             None \<Rightarrow> None
           | Some (m, p', h) \<Rightarrow> Some (h, request_of W params q rq)))"

text \<open>A path without a route is answered 404; a body that cannot be printed 500.\<close>

definition http_answer :: "web \<Rightarrow> response \<Rightarrow> http_response" where
  "http_answer W r = (case dump2 (web_text W) (content r) of
     Inl _ \<Rightarrow> \<lparr>rs_status = 500, rs_headers = [], rs_body = []\<rparr>
   | Inr b \<Rightarrow> \<lparr>rs_status = int (status r), rs_headers = [], rs_body = b\<rparr>)"

definition answered ::
    "third_party \<Rightarrow> web \<Rightarrow> string \<Rightarrow> http_request \<Rightarrow> server_state \<Rightarrow> http_response \<times> server_state" where
  "answered L W base rq s = (case route_for L W base rq s of
     None \<Rightarrow> (\<lparr>rs_status = 404, rs_headers = [], rs_body = []\<rparr>, s)
   | Some (h, req) \<Rightarrow> (case guarded (h req s) of (r, s') \<Rightarrow> (http_answer W r, s')))"

definition serve ::
    "third_party \<Rightarrow> web \<Rightarrow> string \<Rightarrow> http_request \<Rightarrow> server_state \<Rightarrow> http_response option \<times> server_state" where
  "serve L W base rq s = (case web_delivery W rq s of
     Unreached \<Rightarrow> (None, s)
   | Answer_lost \<Rightarrow> (None, snd (answered L W base rq s))
   | Delivered \<Rightarrow> (case answered L W base rq s of (r, s') \<Rightarrow> (Some r, s')))"

definition client_of :: "third_party \<Rightarrow> web \<Rightarrow> string \<Rightarrow> server_state backend" where
  "client_of L W base = \<lparr>bc_send = serve L W base, bc_base = base, bc_parse = parsed (web_text W),
     bc_dump = (\<lambda>j. dump2 (web_text W) j)\<rparr>"

abbreviation accepted :: "response \<Rightarrow> bool" where
  "accepted r \<equiv> 200 \<le> status r \<and> status r < 300"

lemma mapped_answer:
  "map_response (client_of L W base) (http_answer W r) = Inr j \<Longrightarrow> accepted r"
  by (auto simp: map_response_def http_answer_def Let_def split: if_splits sum.splits)

lemma find_route:
  "find (\<lambda>(m, p, h). Q m p) rs = Some (m, p, h) \<Longrightarrow> Q m p \<and> (m, p, h) \<in> set rs"
  by (induction rs) (auto split: if_splits prod.splits)

text \<open>A request of the client ends in an error with nothing changed, or a registered handler has run, and the
  client sees its answer or an error.\<close>

lemma served:
  assumes "send_request (client_of L W base) meth path bt token s = (r, s')"
  obtains (unrouted) e where "r = Inl e" "s' = s"
  | (routed) m p h params q resp where
      "web_match W meth path = Some (p, params, q)" "method_name m = meth"
      "(m, p, h) \<in> set (server_routes L (web_env W (build_request (client_of L W base) meth path bt token) s) (web_plaid W))"
      "guarded (h (request_of W params q (build_request (client_of L W base) meth path bt token)) s) = (resp, s')"
      "r = map_response (client_of L W base) (http_answer W resp) \<or> (\<exists>e. r = Inl e)"
proof -
  let ?rq = "build_request (client_of L W base) meth path bt token"
  have rq: "rq_method ?rq = meth" "drop (length base) (rq_url ?rq) = path"
    by (simp_all add: build_request_def client_of_def)
  consider (unreached) "r = Inl (backend_error Transport 0 ''transport_failure'' ''request did not complete'')" "s' = s"
    | (acted) "s' = snd (answered L W base ?rq s)"
        "r = map_response (client_of L W base) (fst (answered L W base ?rq s)) \<or> (\<exists>e. r = Inl e)"
    using assms by (cases "web_delivery W ?rq s") (auto simp: send_request_def client_of_def serve_def split: prod.splits)
  then show thesis
  proof cases
    case unreached
    then show thesis by (rule that(1))
  next
    case acted
    show thesis
  proof (cases "route_for L W base ?rq s")
    case None
    then have "answered L W base ?rq s = (\<lparr>rs_status = 404, rs_headers = [], rs_body = []\<rparr>, s)"
      by (simp add: answered_def)
    then have "s' = s" "\<exists>e. r = Inl e" using acted by (auto simp: map_response_def)
    then show thesis using that(1) by blast
  next
    case (Some hr)
    obtain h req where hr: "hr = (h, req)" by fastforce
    obtain p params q m p' where
      found: "web_match W meth path = Some (p, params, q)"
      "find (\<lambda>(m, p', h). method_name m = meth \<and> p' = p) (server_routes L (web_env W ?rq s) (web_plaid W)) = Some (m, p', h)"
      "req = request_of W params q ?rq"
      using Some unfolding hr route_for_def rq by (simp split: option.splits prod.splits)
    then have m: "method_name m = meth" "p' = p" "(m, p, h) \<in> set (server_routes L (web_env W ?rq s) (web_plaid W))"
      using find_route [OF found(2)] by auto
    obtain resp s2 where g: "guarded (h req s) = (resp, s2)" by fastforce
    have "answered L W base ?rq s = (http_answer W resp, s2)"
      using Some g by (simp add: answered_def hr)
    then have "r = map_response (client_of L W base) (http_answer W resp) \<or> (\<exists>e. r = Inl e)" "s2 = s'"
      using acted by simp_all
    then show thesis using that(2) [OF found(1) m(1,3)] g found(3) by simp
  qed
  qed
qed

section \<open>Requests without a session token\<close>

text \<open>A body without the fields of a login, an enrolment or a pending link.\<close>

definition anonymous :: "request \<Rightarrow> bool" where
  "anonymous req \<longleftrightarrow> authorization req = None \<and>
     (case body req of None \<Rightarrow> True | Some j \<Rightarrow> json_at j ''link_token'' = None \<and> json_at j ''email'' = None)"

lemma anonymous_no_session: "anonymous req \<Longrightarrow> require_session L E req d = (None, d)"
  by (simp add: anonymous_def require_session_def extract_bearer_def)

lemma anonymous_link:
  assumes "anonymous req"
  shows "\<exists>r. handle_link_plaid L E W req d = (Inr r, d) \<and> \<not> accepted r"
proof (cases "body req")
  case (Some j)
  have "link_principal L E req j d = ((None, False), d)"
    using assms Some anonymous_no_session [OF assms]
    by (simp add: link_principal_def opt_string_def anonymous_def)
  then show ?thesis using Some by (cases "at_string j ''public_token''") (simp_all add: handle_link_plaid_def)
qed (simp add: handle_link_plaid_def)

text \<open>Such a request gets no success from any route, and changes nothing.\<close>

lemma anonymous_refused:
  assumes "bin2hex_spec (bin2hex L)" and "anonymous req" and "(m, p, h) \<in> set (server_routes L E plaid)"
  shows "\<exists>resp. guarded (h req s) = (resp, s) \<and> \<not> accepted resp"
proof -
  note none = anonymous_no_session [OF assms(2)]
  have refused: "\<exists>resp. guarded (on_db g req s) = (resp, s) \<and> \<not> accepted resp"
    if "g req (sv_db s) = (Inr r, sv_db s)" "\<not> accepted r" for g r
    using that by (simp add: on_db_def guarded_def)
  consider (auth) "(m, p, h) \<in> set (register_auth_handlers L E)"
    | (data) g where "h = on_db g" "(m, p, g) \<in> set (data_routes L E)"
    | (plaid) g where "h = on_db g" "(m, p, g) \<in> set (register_plaid_routes L E plaid)"
    using assms(3) by (auto simp: server_routes_def)
  then show ?thesis
  proof cases
    case auth
    have b: "extract_bearer req = None" "authorization req = None" using assms(2)
      by (simp_all add: anonymous_def extract_bearer_def)
    have "\<not> accepted (err 400 ''invalid_json'')" "\<not> accepted (err 401 ''missing_token'')"
      "\<not> accepted (err_msg 400 ''missing_fields'' t)" for t by simp_all
    have enroll: "\<exists>r. handle_enroll L E req (sv_db s) = (Inr r, sv_db s) \<and> \<not> accepted r"
      using assms(2) by (auto simp: handle_enroll_def anonymous_def at_string_def split: option.splits)
    have login: "\<exists>r. handle_login L E req s = (Inr r, s) \<and> \<not> accepted r"
      using assms(2) by (auto simp: handle_login_def anonymous_def at_string_def split: option.splits)
    have others: "handle_logout L E req (sv_db s) = (Inr (err 401 ''missing_token''), sv_db s)"
      "handle_whoami L E req (sv_db s) = (Inr (err 401 ''missing_token''), sv_db s)"
      by (simp_all add: handle_logout_def handle_whoami_def b)
    have "h = on_db (handle_enroll L E) \<or> h = handle_login L E \<or> h = on_db (handle_logout L E) \<or>
        h = on_db (handle_whoami L E)"
      using auth by (auto simp: register_auth_handlers_def)
    moreover have "\<exists>resp. guarded (handle_login L E req s) = (resp, s) \<and> \<not> accepted resp"
      using login by (auto simp: guarded_def)
    moreover have "\<exists>resp. guarded (on_db (handle_enroll L E) req s) = (resp, s) \<and> \<not> accepted resp"
      using enroll refused by blast
    moreover have "\<exists>resp. guarded (on_db (handle_logout L E) req s) = (resp, s) \<and> \<not> accepted resp"
      "\<exists>resp. guarded (on_db (handle_whoami L E) req s) = (resp, s) \<and> \<not> accepted resp"
      by (rule refused [of "handle_logout L E", OF others(1)], simp)
         (rule refused [of "handle_whoami L E", OF others(2)], simp)
    ultimately show ?thesis by blast
  next
    case data
    have "g req (sv_db s) = (Inr (err 401 ''unauthorized''), sv_db s)"
      using data_route.rejects [OF data_routes_contract [OF assms(1) data(2)] none] .
    then show ?thesis using refused data(1) by simp
  next
    case plaid
    have guard: "entity_guard L E ok sc act req (sv_db s) = (Inr (err 401 ''unauthorized''), sv_db s)" for ok sc act
      by (simp add: entity_guard_def none)
    have sync: "\<exists>r. handle_sync_account L E W req (sv_db s) = (Inr r, sv_db s) \<and> \<not> accepted r"
      and init: "\<exists>r. handle_link_init L E W req (sv_db s) = (Inr r, sv_db s) \<and> \<not> accepted r" for W
      unfolding handle_sync_account_def handle_link_init_def guard by simp_all
    have "\<exists>r. g req (sv_db s) = (Inr r, sv_db s) \<and> \<not> accepted r"
    proof (cases plaid)
      case None
      then show ?thesis using plaid(2) by (simp add: register_plaid_routes_def handle_sync_unavailable_def)
    next
      case (Some W)
      then have "g = handle_sync_account L E W \<or> g = handle_link_init L E W \<or> g = handle_link_plaid L E W"
        using plaid(2) by (auto simp: register_plaid_routes_def)
      then show ?thesis using sync [of W] init [of W] anonymous_link [OF assms(2), of L E W "sv_db s"] by blast
    qed
    then show ?thesis using refused plaid(1) by blast
  qed
qed

lemma unauthenticated_post:
  assumes "bin2hex_spec (bin2hex L)" and "json_text_spec (web_text W)"
    and "json_ok j" and "json_at j ''link_token'' = None" and "json_at j ''email'' = None"
    and "backend_post (client_of L W base) path j None s = (r, s')"
  shows "s' = s \<and> (\<forall>j'. r \<noteq> Inr (Inr j'))"
proof (cases "dump2 (web_text W) j")
  case (Inl what)
  then show ?thesis using assms(6) by (auto simp: backend_post_def client_of_def)
next
  case (Inr b)
  obtain r1 where sent: "send_request (client_of L W base) ''POST'' path (Some b) None s = (r1, s')" and r: "r = Inr r1"
    using assms(6) Inr by (auto simp: backend_post_def client_of_def split: prod.splits)
  have b: "parsed (web_text W) b = Some j"
    using assms(2,3) Inr by (simp add: parsed_def json_text_spec_def)
  show ?thesis using sent
  proof (cases rule: served)
    case (unrouted e)
    then show ?thesis using r by simp
  next
    case (routed m p h params q resp)
    let ?rq = "build_request (client_of L W base) ''POST'' path (Some b) None"
    have "anonymous (request_of W params q ?rq)"
      by (simp add: anonymous_def request_of_def build_request_def b assms(4,5))
    from anonymous_refused [OF assms(1) this routed(3), of s] routed(4)
    have "s' = s" "\<not> accepted resp" by simp_all
    moreover from this have "r1 \<noteq> Inr j'" for j' using mapped_answer [of L W base resp j'] routed(5) by auto
    ultimately show ?thesis using r by simp
  qed
qed

section \<open>Linking a bank\<close>

text \<open>C15. The client asks for a link without a session token. The server refuses, whatever account is named
  and whatever state it is in: none of the calls succeeds, no browser is opened, and nothing changes on
  the server.\<close>

theorem linking_lacks_session:
  assumes "bin2hex_spec (bin2hex L)" and "json_text_spec (web_text W)"
    and "call \<in> {prepare_link_flow P (client_of L W base) i, initiate_link_flow P (client_of L W base) i,
           link_account (client_of L W base) i public_token, unlink_account (client_of L W base) i}"
    and "call (s, p) = (r, (s', p'))"
  shows "r \<noteq> Inr True \<and> s' = s \<and> ps_opened p' = ps_opened p"
proof -
  let ?C = "client_of L W base"
  have post: "r \<noteq> Inr True \<and> s' = s \<and> ps_opened p' = ps_opened p"
    if "post_or_error ?C who path j k (s, p1) = (r, (s', p'))" "ps_opened p1 = ps_opened p"
      "json_ok j" "json_at j ''link_token'' = None" "json_at j ''email'' = None" for who path j k p1
  proof -
    obtain r1 s1 where b: "backend_post ?C path j None s = (r1, s1)" by fastforce
    from unauthenticated_post [OF assms(1,2) that(3-5) b] that(1,2) b
    show ?thesis by (auto simp: post_or_error_def split: sum.splits)
  qed
  have ok: "json_ok (JObj [])" "json_ok (JObj [(''public_token'', JStr public_token)])" by simp_all
  from assms(3) consider "call = prepare_link_flow P ?C i" | "call = initiate_link_flow P ?C i"
    | "call = link_account ?C i public_token" | "call = unlink_account ?C i" by blast
  then show ?thesis
  proof cases
    case 1
    show ?thesis
      using assms(4) unfolding 1 prepare_link_flow_def mint_link_def prod.case
      by (rule post) (simp_all add: ok)
  next
    case 2
    show ?thesis
      using assms(4) unfolding 2 initiate_link_flow_def mint_link_def prod.case
      by (rule post) (simp_all add: ok)
  next
    case 3
    show ?thesis using assms(4) unfolding 3 link_account_def by (rule post) (simp_all add: ok)
  next
    case 4
    show ?thesis using assms(4) unfolding 4 unlink_account_def by (rule post) (simp_all add: ok)
  qed
qed

text \<open>A web on which the link routes are found, over the small database.\<close>

definition small_web :: "json_text \<Rightarrow> int \<Rightarrow> (string \<times> (string \<Rightarrow> string)) option \<Rightarrow> web" where
  "small_web T t hit = \<lparr>web_match = (\<lambda>_ _. map_option (\<lambda>(p, params). (p, params, \<lambda>_. None)) hit),
     web_env = (\<lambda>_ _. surroundings t 7), web_plaid = None, web_delivery = (\<lambda>_ _. Delivered), web_text = T\<rparr>"

definition small_server_state :: server_state where
  "small_server_state = \<lparr>sv_db = small_db, sv_rate = []\<rparr>"

theorem linking_lacks_session_witness:
  "fst (prepare_link_flow quiet_launcher (client_of reference_libs
     (small_web (one_document (JObj [])) 2000 (Some (''/accounts/:id/sync'', \<lambda>_. ''a1''))) ''https://h'') ''a1''
     (small_server_state, no_state)) \<noteq> Inr True"
proof -
  let ?W = "small_web (one_document (JObj [])) 2000 (Some (''/accounts/:id/sync'', \<lambda>_. ''a1''))"
  let ?r = "prepare_link_flow quiet_launcher (client_of reference_libs ?W ''https://h'') ''a1''
     (small_server_state, no_state)"
  have spec: "json_text_spec (web_text ?W)" by (simp add: small_web_def one_document_spec)
  have "?r = (fst ?r, (fst (snd ?r), snd (snd ?r)))" by simp
  from linking_lacks_session [OF reference_bin2hex spec insertI1 this] show ?thesis by simp
qed

section \<open>Reading the rows of the server\<close>

text \<open>What the client makes of a row.\<close>

definition entity_seen :: "entity_row \<Rightarrow> entity" where
  "entity_seen r = \<lparr>e_id = c_str (ent_id r), e_name = c_str (ent_name r),
     e_type = entity_type_from_string (c_str (ent_kind r)), e_tax_id = [], e_active = True,
     e_created_at = unix_to_date_string (to_i64 (ent_created r))\<rparr>"

definition account_seen :: "account_row \<Rightarrow> account" where
  "account_seen r = \<lparr>a_id = c_str (acc_id r), a_name = c_str (acc_name r), a_entity = c_str (acc_entity r),
     a_type = account_type_from_string (c_str (acc_kind r)),
     a_balance = cents_to_double (to_i64 (acc_balance r)), a_institution = c_str (acc_institution r),
     a_item = (case acc_item r of None \<Rightarrow> [] | Some s \<Rightarrow> c_str s), a_linked = (to_i32 (acc_linked r) \<noteq> 0),
     a_active = True\<rparr>"

definition transaction_seen :: "tx_row \<Rightarrow> transaction" where
  "transaction_seen r = \<lparr>t_id = c_str (tx_id r), t_account = c_str (tx_account r),
     t_date = unix_to_date_string (to_i64 (tx_posted r)), t_amount = cents_to_double (to_i64 (tx_amount r)),
     t_description = deserialize_description (tx_description r),
     t_category = (case tx_category r of None \<Rightarrow> [] | Some s \<Rightarrow> c_str s), t_pending = False,
     t_plaid_id = (case tx_plaid r of None \<Rightarrow> [] | Some s \<Rightarrow> c_str s), t_notes = [], t_check = []\<rparr>"

lemma nullable_text [simp]:
  "(case Option.bind (Some (json_nullable x)) get_string of None \<Rightarrow> [] | Some s \<Rightarrow> s) =
     (case x of None \<Rightarrow> [] | Some s \<Rightarrow> s)"
  by (cases x) (simp_all add: json_nullable_def)

lemma entity_read: "json_to_entity (entity_row_to_json r) = Inr (entity_seen r)"
  by (simp add: json_to_entity_def entity_row_to_json_def entity_seen_def value_or_def as_string_def as_int64_def)

lemma account_read: "json_to_account (account_row_to_json r) = Inr (account_seen r)"
  by (simp add: json_to_account_def account_row_to_json_def account_seen_def value_or_def as_string_def
      as_int64_def string_or_empty_def opt_string_def json_nullable_def split: option.split)

lemma transaction_read: "json_to_transaction (tx_row_to_json r) = Inr (transaction_seen r)"
  by (simp add: json_to_transaction_def tx_row_to_json_def transaction_seen_def value_or_def as_string_def
      as_int64_def string_or_empty_def opt_string_def json_nullable_def split: option.split)

lemma append_parsed_map:
  assumes "\<And>r. f (g r) = Inr (h r)"
  shows "append_parsed f (map g rs) = (map h rs, None)"
  by (induction rs) (simp_all add: assms)

lemmas route_tables = server_routes_def register_auth_handlers_def data_routes_def
  register_entities_handlers_def register_accounts_handlers_def register_transactions_handlers_def
  register_categories_handlers_def register_budgets_handlers_def register_v3_objects_handlers_def

lemma list_routes:
  "find (\<lambda>(m, p, h). method_name m = ''GET'' \<and> p = ''/entities/:entity_id/accounts'') (server_routes L E plaid) =
     Some (GET, ''/entities/:entity_id/accounts'', on_db (handle_list_accounts L E))"
  "find (\<lambda>(m, p, h). method_name m = ''GET'' \<and> p = ''/accounts/:account_id/transactions'') (server_routes L E plaid) =
     Some (GET, ''/accounts/:account_id/transactions'', on_db (handle_list_transactions L E))"
  by (simp_all add: route_tables)

text \<open>The GET request of a list with a session token, and what the client gets back when its handler
  answers with a list of rows: the rows, or an error when the network drops the request or the answer.\<close>

definition lost_message :: "string \<Rightarrow> string" where
  "lost_message path = ''fetch_list('' @ path @ ''): request did not complete''"

definition list_request :: "third_party \<Rightarrow> web \<Rightarrow> string \<Rightarrow> string \<Rightarrow> string \<Rightarrow> http_request" where
  "list_request L W base tok path = build_request (client_of L W base) ''GET'' path None (Some tok)"

lemma rows_fetched:
  assumes "json_text_spec (web_text W)" and "dump2 (web_text W) answer = Inr b" and "json_ok answer"
    and "web_match W ''GET'' path = Some (p, params, q)"
    and "find (\<lambda>(m, p', h). method_name m = ''GET'' \<and> p' = p)
           (server_routes L (web_env W (list_request L W base tok path) s) (web_plaid W)) = Some (GET, p, on_db g)"
    and "g (request_of W params q (list_request L W base tok path)) (sv_db s) = (Inr (Resp 200 answer), d1)"
  shows "fetch_list \<lparr>rm_backend = client_of L W base, rm_token = tok\<rparr> path (s, er) =
    (case web_delivery W (list_request L W base tok path) s of
       Delivered \<Rightarrow> (Some (list_items answer), (s\<lparr>sv_db := d1\<rparr>, er))
     | Answer_lost \<Rightarrow> (None, (s\<lparr>sv_db := d1\<rparr>, lost_message path))
     | Unreached \<Rightarrow> (None, (s, lost_message path)))"
proof -
  let ?C = "client_of L W base" and ?rq = "list_request L W base tok path"
  have b: "parsed (web_text W) b = Some answer"
    using assms(1-3) by (simp add: parsed_def json_text_spec_def)
  have "rq_method ?rq = ''GET''" "drop (length base) (rq_url ?rq) = path"
    by (simp_all add: list_request_def build_request_def client_of_def)
  then have "route_for L W base ?rq s = Some (on_db g, request_of W params q ?rq)"
    using assms(4,5) by (simp add: route_for_def)
  then have a: "answered L W base ?rq s = (\<lparr>rs_status = 200, rs_headers = [], rs_body = b\<rparr>, s\<lparr>sv_db := d1\<rparr>)"
    using assms(2,6) by (simp add: answered_def on_db_def guarded_def http_answer_def)
  have "bc_send ?C ?rq s = serve L W base ?rq s" by (simp add: client_of_def)
  moreover have "map_response ?C \<lparr>rs_status = 200, rs_headers = [], rs_body = b\<rparr> = Inr answer"
    using b by (simp add: map_response_def client_of_def)
  ultimately have "backend_get ?C path (Some tok) s = (case web_delivery W ?rq s of
       Delivered \<Rightarrow> (Inr answer, s\<lparr>sv_db := d1\<rparr>)
     | Answer_lost \<Rightarrow> (Inl (backend_error Transport 0 ''transport_failure'' ''request did not complete''), s\<lparr>sv_db := d1\<rparr>)
     | Unreached \<Rightarrow> (Inl (backend_error Transport 0 ''transport_failure'' ''request did not complete''), s))"
    unfolding backend_get_def send_request_def list_request_def [symmetric]
    by (simp add: serve_def a split: delivery.split)
  then show ?thesis by (simp add: fetch_list_def lost_message_def backend_error_def split: delivery.split)
qed

lemma bearer_of_list: "tok \<noteq> [] \<Longrightarrow> extract_bearer (request_of W params q (list_request L W base tok path)) = Some tok"
  by (simp add: extract_bearer_header request_of_def list_request_def build_request_def)

text \<open>The rows of the list, in the order of the query.\<close>

definition accounts_listed :: "string \<Rightarrow> db \<Rightarrow> account_row list" where
  "accounts_listed e d = sort_key acc_created (filter (\<lambda>r. acc_entity r = e) (accounts d))"

lemma json_ok_nullable [simp]: "json_ok (json_nullable x)"
  by (cases x) (simp_all add: json_nullable_def)

lemma json_ok_account: "json_ok (account_row_to_json r)"
  by (simp add: account_row_to_json_def less_list_code less_char_def)

lemma json_ok_transaction: "json_ok (tx_row_to_json r)"
  by (simp add: tx_row_to_json_def less_list_code less_char_def)

lemma json_ok_page:
  assumes "\<And>r. json_ok (g r)" and "json_ok cursor"
  shows "json_ok (JObj [(''items'', JArr (map g rs)), (''next_cursor'', cursor)])"
  using assms by (simp add: less_list_code less_char_def list.pred_map comp_def list_all_iff)

definition put_accounts :: "account list \<Rightarrow> collections \<Rightarrow> collections" where
  "put_accounts xs c = c\<lparr>ds_accounts := ds_accounts c @ xs\<rparr>"

definition put_transactions :: "transaction list \<Rightarrow> collections \<Rightarrow> collections" where
  "put_transactions xs c = c\<lparr>ds_transactions := ds_transactions c @ xs\<rparr>"

text \<open>C13. The accounts of an entity, end to end: a client with a live session of a member gets exactly the
  server's accounts of the entity, in the server's order, as the client represents them; only the
  session is touched. When the answer is lost on the way, or the request never arrives, the load reports failure
  and leaves the client's collections as they were. (The body must be JSON the library can print, and the
  library must match the path.)\<close>

theorem client_sees_accounts:
  assumes "path = ''/entities/'' @ e @ ''/accounts''" and "json_text_spec (web_text W)" and "dump2 (web_text W)
        (JObj [(''items'', JArr (map account_row_to_json (accounts_listed e (sv_db s)))), (''next_cursor'', JNull)]) = Inr b"
    and "web_match W ''GET'' path =
           Some (''/entities/:entity_id/accounts'', params, q)" and "params ''entity_id'' = e"
    and "tok \<noteq> []" and "validate_and_touch_session L tok
           (clock (web_env W (list_request L W base tok path) s) 0) (sv_db s) = (Some uid, d1)"
    and "user_has_access_to_entity (sv_db s) uid e"
  shows "load_list \<lparr>rm_backend = client_of L W base, rm_token = tok\<rparr> path
           json_to_account (\<lambda>a. a_id a \<noteq> []) put_accounts c (s, er) =
    (case web_delivery W (list_request L W base tok path) s of
       Delivered \<Rightarrow>
         (Inr True, put_accounts (filter (\<lambda>a. a_id a \<noteq> []) (map account_seen (accounts_listed e (sv_db s)))) c,
          (s\<lparr>sv_db := d1\<rparr>, er))
     | Answer_lost \<Rightarrow> (Inr False, c, (s\<lparr>sv_db := d1\<rparr>, ''fetch_list('' @ path @ ''): request did not complete''))
     | Unreached \<Rightarrow> (Inr False, c, (s, ''fetch_list('' @ path @ ''): request did not complete'')))"
proof -
  let ?rq = "list_request L W base tok path"
  let ?req = "request_of W params q ?rq"
  let ?E = "web_env W ?rq s"
  have session: "require_session L ?E ?req (sv_db s) = (Some uid, d1)"
    using assms(7) by (simp add: require_session_def bearer_of_list [OF assms(6)])
  have same: "accounts d1 = accounts (sv_db s)" "memberships d1 = memberships (sv_db s)"
    using data_of_cong [OF require_data [of L ?E ?req "sv_db s"]] session by simp_all
  have access: "user_has_access_to_entity d1 uid e"
    using assms(8) same(2) by (simp add: user_has_access_to_entity_def)
  have "path_param ?req ''entity_id'' = e" by (simp add: request_of_def assms(5))
  then have answer: "handle_list_accounts L ?E ?req (sv_db s) =
      (Inr (Resp 200 (JObj [(''items'', JArr (map account_row_to_json (accounts_listed e (sv_db s)))),
         (''next_cursor'', JNull)])), d1)"
    by (simp add: handle_list_accounts_def entity_guard_def session path_scope_def access accounts_listed_def same(1))
  have "json_ok (JObj [(''items'', JArr (map account_row_to_json (accounts_listed e (sv_db s)))), (''next_cursor'', JNull)])"
    by (rule json_ok_page) (simp_all add: json_ok_account)
  from rows_fetched [OF assms(2,3) this assms(4) list_routes(1) answer, of er]
  show ?thesis
    unfolding load_list_def lost_message_def
    by (simp add: list_items_def append_parsed_map [of json_to_account account_row_to_json account_seen, OF account_read]
        split: delivery.split)
qed

definition small_accounts :: json where
  "small_accounts = JObj [(''items'', JArr (map account_row_to_json (accounts_listed ''e1'' small_db))), (''next_cursor'', JNull)]"

theorem client_sees_accounts_witness:
  "fst (snd (load_list \<lparr>rm_backend = client_of reference_libs (small_web (one_document small_accounts) 2000
       (Some (''/entities/:entity_id/accounts'', \<lambda>_. ''e1''))) ''https://h'', rm_token = bytes_to_hex (replicate 32 1)\<rparr>
     ''/entities/e1/accounts'' json_to_account (\<lambda>a. a_id a \<noteq> []) put_accounts empty_collections (small_server_state, []))) =
   empty_collections\<lparr>ds_accounts := [account_seen (account_of ''a1'' ''e1'')]\<rparr>"
proof -
  let ?W = "small_web (one_document small_accounts) 2000 (Some (''/entities/:entity_id/accounts'', \<lambda>_. ''e1''))"
    and ?tok = "bytes_to_hex (replicate 32 (1 :: byte))"
  have listed: "accounts_listed ''e1'' small_db = [account_of ''a1'' ''e1'']"
    by (simp add: accounts_listed_def small_db_def account_of_def)
  have tok: "?tok \<noteq> []"
    by (metis length_bytes_to_hex length_replicate list.size(3) mult_is_0 zero_neq_numeral)
  have doc: "dump2 (web_text ?W) (JObj [(''items'', JArr (map account_row_to_json (accounts_listed ''e1'' (sv_db small_server_state)))),
      (''next_cursor'', JNull)]) = Inr ''doc''"
    by (simp add: small_web_def one_document_def small_accounts_def small_server_state_def)
  have session: "validate_and_touch_session reference_libs ?tok
      (clock (web_env ?W (list_request reference_libs ?W ''https://h'' ?tok ''/entities/e1/accounts'') small_server_state) 0)
      (sv_db small_server_state) = (Some ''u1'', small_db\<lparr>sessions := [touch 2000 (session_of ''u1'' 1 1000)]\<rparr>)"
    using owner_session [of 7] by (simp add: require_session_def small_web_def small_server_state_def surroundings_def)
  have access: "user_has_access_to_entity (sv_db small_server_state) ''u1'' ''e1''"
    by (simp add: user_has_access_to_entity_def small_server_state_def small_db_def)
  have delivered: "web_delivery ?W rq w = Delivered" for rq w by (simp add: small_web_def)
  have spec: "json_text_spec (web_text ?W)"
    and m: "web_match ?W ''GET'' ''/entities/e1/accounts'' = Some (''/entities/:entity_id/accounts'', \<lambda>_. ''e1'', \<lambda>_. None)"
    by (simp_all add: small_web_def one_document_spec)
  have path: "''/entities/e1/accounts'' = ''/entities/'' @ ''e1'' @ ''/accounts''" by simp
  have "load_list \<lparr>rm_backend = client_of reference_libs ?W ''https://h'', rm_token = ?tok\<rparr> ''/entities/e1/accounts''
      json_to_account (\<lambda>a. a_id a \<noteq> []) put_accounts empty_collections (small_server_state, []) =
      (Inr True, put_accounts (filter (\<lambda>a. a_id a \<noteq> []) (map account_seen (accounts_listed ''e1'' (sv_db small_server_state))))
         empty_collections, (small_server_state\<lparr>sv_db := small_db\<lparr>sessions := [touch 2000 (session_of ''u1'' 1 1000)]\<rparr>\<rparr>, []))"
    using client_sees_accounts [OF path spec doc m refl tok session access, of empty_collections "[]"]
    unfolding delivered delivery.case .
  moreover have "c_str ''a1'' = ''a1''" by code_simp
  then have "a_id (account_seen (account_of ''a1'' ''e1'')) \<noteq> []" by (simp add: account_seen_def account_of_def)
  moreover have "ds_accounts empty_collections = []" by (simp add: empty_collections_def)
  ultimately show ?thesis by (simp add: listed small_server_state_def put_accounts_def)
qed

text \<open>The transactions of an account, when the answer arrives: the client asks without a query, so it gets the
  first hundred of the server's list and no more, however many there are.\<close>

theorem client_sees_first_page:
  assumes "path = ''/accounts/'' @ i @ ''/transactions''" and "json_text_spec (web_text W)"
    and "rows = take 100 (select_transactions (sv_db s) i 0 (2 ^ 63 - 1))"
    and "dump2 (web_text W) (JObj [(''items'', JArr (map tx_row_to_json rows)), (''next_cursor'', next_cursor 100 0 rows)]) = Inr b"
    and "web_match W ''GET'' path = Some (''/accounts/:account_id/transactions'', params, \<lambda>_. None)"
    and "params ''account_id'' = i" and "tok \<noteq> []" and "validate_and_touch_session L tok
           (clock (web_env W (list_request L W base tok path) s) 0) (sv_db s) = (Some uid, d1)"
    and "get_tx_account_entity_id (sv_db s) i = e" and "e \<noteq> []" and "user_has_access_to_entity (sv_db s) uid e"
    and "web_delivery W (list_request L W base tok path) s = Delivered"
  shows "load_list \<lparr>rm_backend = client_of L W base, rm_token = tok\<rparr> path json_to_transaction (\<lambda>_. True)
           put_transactions c (s, er) =
         (Inr True, put_transactions (map transaction_seen rows) c, (s\<lparr>sv_db := d1\<rparr>, er)) \<and> length rows \<le> 100"
proof
  let ?rq = "list_request L W base tok path"
  let ?req = "request_of W params (\<lambda>_. None) ?rq"
  let ?E = "web_env W ?rq s"
  have session: "require_session L ?E ?req (sv_db s) = (Some uid, d1)"
    using assms(8) by (simp add: require_session_def bearer_of_list [OF assms(7)])
  have same: "accounts d1 = accounts (sv_db s)" "memberships d1 = memberships (sv_db s)"
    "transactions d1 = transactions (sv_db s)"
    using data_of_cong [OF require_data [of L ?E ?req "sv_db s"]] session by simp_all
  have access: "user_has_access_to_entity d1 uid e"
    using assms(11) same(2) by (simp add: user_has_access_to_entity_def)
  have req: "path_param ?req ''account_id'' = i" "query ?req k = None" for k
    by (simp_all add: request_of_def assms(6))
  have params: "parse_qparam_int ?req k n = n" for k n by (simp add: parse_qparam_int_def req)
  have page_of: "page_limit ?req = 100" "page_offset ?req = 0"
    by (simp_all add: page_limit_def page_offset_def params kDefaultLimit_def kMaxLimit_def)
  have scope: "lookup_scope ''account_id'' get_tx_account_entity_id ?req d1 = Some e"
    using assms(9,10) by (simp add: lookup_scope_def req get_tx_account_entity_id_def same(1) Let_def)
  have rows: "page 100 0 (select_transactions d1 i 0 9223372036854775807) = rows"
    using assms(3) by (simp add: page_def select_transactions_def same(3))
  have answer: "handle_list_transactions L ?E ?req (sv_db s) =
      (Inr (Resp 200 (JObj [(''items'', JArr (map tx_row_to_json rows)), (''next_cursor'', next_cursor 100 0 rows)])), d1)"
    unfolding handle_list_transactions_def entity_guard_def session prod.case option.case scope
    using access by (simp add: page_of params req(1) rows Let_def)
  have ok: "json_ok (JObj [(''items'', JArr (map tx_row_to_json rows)), (''next_cursor'', next_cursor 100 0 rows)])"
    by (rule json_ok_page) (simp_all add: json_ok_transaction next_cursor_def)
  from rows_fetched [OF assms(2,4) ok assms(5) list_routes(2) answer, of er]
  show "load_list \<lparr>rm_backend = client_of L W base, rm_token = tok\<rparr> path json_to_transaction (\<lambda>_. True)
      put_transactions c (s, er) =
      (Inr True, put_transactions (map transaction_seen rows) c, (s\<lparr>sv_db := d1\<rparr>, er))"
    by (simp add: load_list_def list_items_def assms(12)
        append_parsed_map [of json_to_transaction tx_row_to_json transaction_seen, OF transaction_read])
  show "length rows \<le> 100" using assms(3) by simp
qed

definition coffee :: tx_row where
  "coffee = \<lparr>tx_id = ''t1'', tx_account = ''a1'', tx_plaid = None, tx_posted = 86400, tx_amount = - 350,
     tx_description = Some ''coffee'', tx_category = None, tx_created = 86400\<rparr>"

definition coffee_state :: server_state where
  "coffee_state = \<lparr>sv_db = small_db\<lparr>transactions := [coffee]\<rparr>, sv_rate = []\<rparr>"

definition coffee_page :: json where
  "coffee_page = JObj [(''items'', JArr (map tx_row_to_json [coffee])), (''next_cursor'', next_cursor 100 0 [coffee])]"

theorem client_sees_first_page_witness:
  "fst (load_list \<lparr>rm_backend = client_of reference_libs (small_web (one_document coffee_page) 2000
       (Some (''/accounts/:account_id/transactions'', \<lambda>_. ''a1''))) ''https://h'', rm_token = bytes_to_hex (replicate 32 1)\<rparr>
     ''/accounts/a1/transactions'' json_to_transaction (\<lambda>_. True) put_transactions empty_collections (coffee_state, [])) =
   Inr True"
proof -
  let ?W = "small_web (one_document coffee_page) 2000 (Some (''/accounts/:account_id/transactions'', \<lambda>_. ''a1''))"
    and ?tok = "bytes_to_hex (replicate 32 (1 :: byte))"
  have tok: "?tok \<noteq> []"
    by (metis length_bytes_to_hex length_replicate list.size(3) mult_is_0 zero_neq_numeral)
  have rows: "[coffee] = take 100 (select_transactions (sv_db coffee_state) ''a1'' 0 (2 ^ 63 - 1))"
    by (simp add: select_transactions_def coffee_state_def coffee_def)
  have doc: "dump2 (web_text ?W) (JObj [(''items'', JArr (map tx_row_to_json [coffee])), (''next_cursor'', next_cursor 100 0 [coffee])]) = Inr ''doc''"
    by (simp add: small_web_def one_document_def coffee_page_def)
  have session: "validate_and_touch_session reference_libs ?tok
      (clock (web_env ?W (list_request reference_libs ?W ''https://h'' ?tok ''/accounts/a1/transactions'') coffee_state) 0)
      (sv_db coffee_state) = (Some ''u1'', sv_db coffee_state\<lparr>sessions := [touch 2000 (session_of ''u1'' 1 1000)]\<rparr>)"
    by (simp add: validate_and_touch_session_def surroundings_def Let_def coffee_state_def small_web_def
      small_db_def session_of_def kSessionAbsoluteTimeoutSeconds_def kSessionIdleTimeoutSeconds_def
      upd_by_def nul_free_def nul_def)
  have entity: "get_tx_account_entity_id (sv_db coffee_state) ''a1'' = ''e1''"
    by (simp add: get_tx_account_entity_id_def text_of_key_def coffee_state_def small_db_def account_of_def
        nul_free_def nul_def)
  have access: "user_has_access_to_entity (sv_db coffee_state) ''u1'' ''e1''"
    by (simp add: user_has_access_to_entity_def coffee_state_def small_db_def)
  have m: "web_match ?W ''GET'' ''/accounts/a1/transactions'' = Some (''/accounts/:account_id/transactions'', \<lambda>_. ''a1'', \<lambda>_. None)"
    and spec: "json_text_spec (web_text ?W)" and delivered: "web_delivery ?W rq w = Delivered" for rq w
    by (simp_all add: small_web_def one_document_spec)
  have path: "''/accounts/a1/transactions'' = ''/accounts/'' @ ''a1'' @ ''/transactions''" by simp
  from client_sees_first_page [OF path spec rows doc m refl tok session entity _ access delivered, of empty_collections "[]"]
  show ?thesis by simp
qed

section \<open>Uploading a v0.1 file\<close>

text \<open>The names of the kinds of an entity: none the client writes is accepted by the server, and every one
  the server accepts is read by the client as the fallback.\<close>

theorem entity_kinds_disagree:
  assumes "valid_entity_kind kind"
  shows "entity_type_from_string kind = OtherEntity \<and> kind \<notin> range entity_type_to_string"
proof -
  have "kind \<noteq> entity_type_to_string ty" for ty
    using assms unfolding valid_entity_kind_def by (cases ty) (elim disjE; simp)+
  moreover have "entity_type_from_string kind = OtherEntity"
    using assms unfolding valid_entity_kind_def by (elim disjE) (simp_all add: entity_type_from_string_def)
  ultimately show ?thesis by blast
qed

theorem entity_kinds_disagree_witness:
  "entity_type_from_string ''LLC'' = OtherEntity \<and> ''LLC'' \<notin> range entity_type_to_string"
  by (rule entity_kinds_disagree) (simp add: valid_entity_kind_def)

text \<open>What is relied on of the matching of paths: a pattern has the first segment of the path, and its last
  segment too unless that is a parameter. Nothing is relied on but for plain paths, of letters, digits, dashes,
  underscores and slashes: in others libcurl cuts off a query or a fragment and resolves dot segments.\<close>

definition plain_char :: "char \<Rightarrow> bool" where
  "plain_char c \<longleftrightarrow> in_range (CHR ''a'') (CHR ''z'') c \<or> in_range (CHR ''A'') (CHR ''Z'') c \<or>
     in_range (CHR ''0'') (CHR ''9'') c \<or> c = CHR ''-'' \<or> c = CHR ''_''"

definition plain_path :: "string \<Rightarrow> bool" where
  "plain_path path \<longleftrightarrow> list_all (\<lambda>c. plain_char c \<or> c = CHR ''/'') path"

definition first_segment :: "string \<Rightarrow> string" where
  "first_segment s = takeWhile (\<lambda>c. c \<noteq> CHR ''/'' \<and> c \<noteq> CHR ''?'') (drop 1 s)"

definition last_segment :: "string \<Rightarrow> string" where
  "last_segment s = rev (takeWhile (\<lambda>c. c \<noteq> CHR ''/'') (rev (takeWhile (\<lambda>c. c \<noteq> CHR ''?'') s)))"

definition match_spec :: "web \<Rightarrow> bool" where
  "match_spec W \<longleftrightarrow> (\<forall>m path p params q. plain_path path \<and> web_match W m path = Some (p, params, q) \<longrightarrow>
     first_segment p = first_segment path \<and>
     (take 1 (last_segment p) = '':'' \<or> last_segment p = last_segment path))"

text \<open>The tables that hold the users' data.\<close>

definition ledger :: "server_state \<Rightarrow> _" where
  "ledger s = (let d = sv_db s in
     (entities d, memberships d, accounts d, transactions d, categories d, budgets d))"

text \<open>A body no route that creates a row of an entity takes: without an amount in cents, and without a kind
  or with one that is none of an entity.\<close>

definition unusable :: "string \<Rightarrow> request \<Rightarrow> bool" where
  "unusable p req \<longleftrightarrow> (case body req of None \<Rightarrow> True | Some j \<Rightarrow> json_at j ''amount_cents'' = None \<and>
     (case json_at j ''kind'' of None \<Rightarrow> True
      | Some (JStr kind) \<Rightarrow> p = ''/entities'' \<and> \<not> valid_entity_kind kind | Some _ \<Rightarrow> False))"

lemma ledger_of_data: "data_of d1 = data_of (sv_db s) \<Longrightarrow> ledger (s\<lparr>sv_db := d1\<rparr>) = ledger s"
  using data_of_cong [of d1 "sv_db s"] by (simp add: ledger_def Let_def)

definition turned_down :: "(request \<Rightarrow> db \<Rightarrow> db outcome) \<Rightarrow> request \<Rightarrow> bool" where
  "turned_down h req \<longleftrightarrow> (\<forall>d. \<exists>r d1. h req d = (Inr r, d1) \<and> \<not> accepted r \<and> data_of d1 = data_of d)"

lemma guard_turned_down:
  assumes "\<And>uid e d. \<exists>r. act req uid e d = (Inr r, d) \<and> \<not> accepted r"
  shows "turned_down (entity_guard L E ok sc act) req"
proof -
  have "\<exists>r d1. entity_guard L E ok sc act req d = (Inr r, d1) \<and> \<not> accepted r \<and> data_of d1 = data_of d" for d
  proof (cases "require_session L E req d")
    case (Pair who d1)
    have same: "data_of d1 = data_of d" using require_data [of L E req d] Pair by simp
    show ?thesis
    proof (cases who)
      case None
      then show ?thesis using Pair same by (simp add: entity_guard_def)
    next
      case (Some uid)
      have act: "\<exists>r d1'. act req uid e d1 = (Inr r, d1') \<and> \<not> accepted r \<and> data_of d1' = data_of d" for e
        using assms [of uid e d1] same by auto
      show ?thesis
        using Pair same Some act by (cases "sc req d1") (simp_all add: entity_guard_def)
    qed
  qed
  then show ?thesis by (simp add: turned_down_def)
qed

lemma creations_turned_down:
  assumes "unusable p req"
  shows "p \<noteq> ''/entities'' \<Longrightarrow> turned_down (handle_create_account L E) req"
    "p \<noteq> ''/entities'' \<Longrightarrow> turned_down (handle_create_category L E) req"
    "turned_down (handle_create_budget L E) req" "turned_down (handle_create_transaction L E) req"
  unfolding handle_create_account_def handle_create_category_def handle_create_budget_def
    handle_create_transaction_def
  using assms
  by (auto intro!: guard_turned_down simp: unusable_def at_string_def at_int64_def
      split: option.splits json.splits)

lemma create_entity_turned_down:
  assumes "unusable p req"
  shows "turned_down (handle_create_entity L E) req"
proof -
  have "\<exists>r d1. handle_create_entity L E req d = (Inr r, d1) \<and> \<not> accepted r \<and> data_of d1 = data_of d" for d
  proof (cases "require_session L E req d")
    case (Pair who d1)
    have same: "data_of d1 = data_of d" using require_data [of L E req d] Pair by simp
    show ?thesis
    proof (cases who)
      case (Some uid)
      then show ?thesis
        using assms Pair same
        by (cases "body req"; cases "json_at (the (body req)) ''kind''")
           (auto simp: handle_create_entity_def unusable_def at_string_def split: option.splits json.splits)
    qed (use Pair same in \<open>simp add: handle_create_entity_def\<close>)
  qed
  then show ?thesis by (simp add: turned_down_def)
qed

text \<open>A POST of the upload: the path starts with one of its four words, and the body is unusable.\<close>

definition upload_path :: "string \<Rightarrow> bool" where
  "upload_path path \<longleftrightarrow> first_segment path \<in> {''entities'', ''categories'', ''budgets''} \<or>
     (first_segment path = ''accounts'' \<and> last_segment path = ''transactions'')"

lemma post_routes:
  "filter (\<lambda>(m, p, h). m = POST) (server_routes L E plaid) =
     [(POST, ''/auth/enroll'', on_db (handle_enroll L E)), (POST, ''/auth/login'', handle_login L E),
      (POST, ''/auth/logout'', on_db (handle_logout L E)), (POST, ''/entities'', on_db (handle_create_entity L E)),
      (POST, ''/entities/:entity_id/accounts'', on_db (handle_create_account L E)),
      (POST, ''/accounts/:account_id/transactions'', on_db (handle_create_transaction L E)),
      (POST, ''/entities/:entity_id/categories'', on_db (handle_create_category L E)),
      (POST, ''/entities/:entity_id/budgets'', on_db (handle_create_budget L E))] @
     map (\<lambda>(m, p, h). (m, p, on_db h)) (register_plaid_routes L E plaid)"
  by (simp add: route_tables register_plaid_routes_def split: option.split)

lemma plaid_patterns:
  "(m, p, h) \<in> set (register_plaid_routes L E plaid) \<Longrightarrow>
     first_segment p = ''accounts'' \<and> last_segment p \<in> {''sync'', ''init'', ''link-plaid''}"
proof -
  have segs: "first_segment ''/accounts/:id/sync'' = ''accounts''" "last_segment ''/accounts/:id/sync'' = ''sync''"
    "first_segment ''/accounts/:id/link/init'' = ''accounts''" "last_segment ''/accounts/:id/link/init'' = ''init''"
    "first_segment ''/accounts/:id/link-plaid'' = ''accounts''" "last_segment ''/accounts/:id/link-plaid'' = ''link-plaid''"
    by code_simp+
  assume "(m, p, h) \<in> set (register_plaid_routes L E plaid)"
  then have "p = ''/accounts/:id/sync'' \<or> p = ''/accounts/:id/link/init'' \<or> p = ''/accounts/:id/link-plaid''"
    by (cases plaid) (simp_all add: register_plaid_routes_def, blast)
  then show ?thesis by (elim disjE) (simp_all add: segs)
qed

text \<open>The routes that an upload can reach.\<close>

definition creates :: "third_party \<Rightarrow> env \<Rightarrow> string \<Rightarrow> (request \<Rightarrow> server_state \<Rightarrow> server_state outcome) \<Rightarrow> bool" where
  "creates L E p h \<longleftrightarrow> (p = ''/entities'' \<and> h = on_db (handle_create_entity L E)) \<or>
     (p \<noteq> ''/entities'' \<and> (h = on_db (handle_create_account L E) \<or> h = on_db (handle_create_category L E) \<or>
        h = on_db (handle_create_budget L E) \<or> h = on_db (handle_create_transaction L E)))"

lemma upload_routes:
  assumes "(POST, p, h) \<in> set (server_routes L E plaid)" and "first_segment p = first_segment path"
    and "take 1 (last_segment p) = '':'' \<or> last_segment p = last_segment path" and "upload_path path"
  shows "creates L E p h"
proof -
  have auth: "first_segment ''/auth/enroll'' = ''auth''" "first_segment ''/auth/login'' = ''auth''"
    "first_segment ''/auth/logout'' = ''auth''"
    by code_simp+
  have created: "creates L E ''/entities'' (on_db (handle_create_entity L E))"
    "creates L E ''/entities/:entity_id/accounts'' (on_db (handle_create_account L E))"
    "creates L E ''/accounts/:account_id/transactions'' (on_db (handle_create_transaction L E))"
    "creates L E ''/entities/:entity_id/categories'' (on_db (handle_create_category L E))"
    "creates L E ''/entities/:entity_id/budgets'' (on_db (handle_create_budget L E))"
    by (simp_all add: creates_def)
  have "\<forall>(m, p, h) \<in> set (filter (\<lambda>(m, p, h). m = POST) (server_routes L E plaid)).
      first_segment p = ''auth'' \<or> creates L E p h \<or> (\<exists>g. (m, p, g) \<in> set (register_plaid_routes L E plaid))"
    unfolding post_routes set_append ball_Un
    by (simp only: list.set ball_simps prod.case auth created simp_thms) (auto simp only: set_map prod.case split: prod.splits)
  then have "first_segment p = ''auth'' \<or> creates L E p h \<or> (\<exists>g. (POST, p, g) \<in> set (register_plaid_routes L E plaid))"
    using assms(1) by fastforce
  then consider "first_segment p = ''auth''" | "creates L E p h"
    | "first_segment p = ''accounts''" "last_segment p \<in> {''sync'', ''init'', ''link-plaid''}"
    using plaid_patterns by blast
  then show ?thesis
  proof cases
    case 1
    then show ?thesis using assms(2,4) by (simp add: upload_path_def)
  next
    case 3
    then have "last_segment path = ''transactions''" using assms(2,4) by (simp add: upload_path_def)
    then show ?thesis using 3(2) assms(3) by (elim insertE emptyE) simp_all
  qed
qed

lemma matched_entities:
  assumes "(POST, p, h) \<in> set (server_routes L E plaid)" and "first_segment p = first_segment ''/entities''"
    and "take 1 (last_segment p) = '':'' \<or> last_segment p = last_segment ''/entities''"
  shows "p = ''/entities''"
proof -
  have segs: "first_segment ''/auth/enroll'' = ''auth''" "first_segment ''/auth/login'' = ''auth''"
    "first_segment ''/auth/logout'' = ''auth''" "first_segment ''/entities'' = ''entities''"
    "last_segment ''/entities'' = ''entities''" "last_segment ''/entities/:entity_id/accounts'' = ''accounts''"
    "last_segment ''/entities/:entity_id/categories'' = ''categories''"
    "last_segment ''/entities/:entity_id/budgets'' = ''budgets''"
    "first_segment ''/accounts/:account_id/transactions'' = ''accounts''"
    by code_simp+
  have "\<forall>(m, p, h) \<in> set (filter (\<lambda>(m, p, h). m = POST) (server_routes L E plaid)).
      p = ''/entities'' \<or> first_segment p \<noteq> ''entities'' \<or> last_segment p \<in> {''accounts'', ''categories'', ''budgets''}"
    unfolding post_routes set_append ball_Un
  proof (intro conjI, goal_cases)
    case 2
    then show ?case using plaid_patterns [of _ _ _ L E plaid] by fastforce
  qed (simp only: list.set ball_simps prod.case segs, simp)
  then have "p = ''/entities'' \<or> first_segment p \<noteq> ''entities'' \<or> last_segment p \<in> {''accounts'', ''categories'', ''budgets''}"
    using assms(1) by fastforce
  then show ?thesis using assms(2,3) by (auto simp: segs)
qed

lemma unusable_refused:
  assumes "creates L E p h" and "unusable p req"
  shows "\<exists>resp s'. guarded (h req s) = (resp, s') \<and> \<not> accepted resp \<and> ledger s' = ledger s"
proof -
  have "\<exists>resp s'. guarded (on_db g req s) = (resp, s') \<and> \<not> accepted resp \<and> ledger s' = ledger s"
    if down: "turned_down g req" for g
  proof -
    obtain r d1 where "g req (sv_db s) = (Inr r, d1)" "\<not> accepted r" "data_of d1 = data_of (sv_db s)"
      using down unfolding turned_down_def by blast
    then show ?thesis using ledger_of_data [of d1 s] by (simp add: on_db_def guarded_def)
  qed
  then show ?thesis
    using assms(1) create_entity_turned_down [OF assms(2)] creations_turned_down [OF assms(2)]
    unfolding creates_def by blast
qed

text \<open>What one POST of the upload does.\<close>

lemma upload_post:
  assumes "json_text_spec (web_text W)" and "match_spec W" and "upload_path path \<and> plain_path path" and "json_ok j"
    and "json_at j ''amount_cents'' = None"
    and "json_at j ''kind'' = None \<or> (path = ''/entities'' \<and>
           (\<exists>kind. json_at j ''kind'' = Some (JStr kind) \<and> \<not> valid_entity_kind kind))"
    and "post_migration (client_of L W base) tok path j s = (r, s')"
  shows "ledger s' = ledger s \<and> (\<forall>j'. r \<noteq> Inr (Inr j'))"
proof -
  let ?C = "client_of L W base"
  obtain r0 where post: "backend_post ?C path j (Some tok) s = (r0, s')"
    and r0: "(\<exists>j'. r = Inr (Inr j')) \<longleftrightarrow> (\<exists>j'. r0 = Inr (Inr j'))"
    using assms(7) by (auto simp: post_migration_def split: prod.splits sum.splits)
  have "ledger s' = ledger s \<and> (\<forall>j'. r0 \<noteq> Inr (Inr j'))"
  proof (cases "dump2 (web_text W) j")
    case (Inl what)
    then show ?thesis using post by (auto simp: backend_post_def client_of_def)
  next
    case (Inr b)
    obtain r1 where sent: "send_request ?C ''POST'' path (Some b) (Some tok) s = (r1, s')" and r1: "r0 = Inr r1"
      using post Inr by (auto simp: backend_post_def client_of_def split: prod.splits)
    have b: "parsed (web_text W) b = Some j"
      using assms(1,4) Inr by (simp add: parsed_def json_text_spec_def)
    show ?thesis using sent
    proof (cases rule: served)
      case (unrouted e)
      then show ?thesis using r1 by simp
    next
      case (routed m p h params q resp)
      let ?rq = "build_request ?C ''POST'' path (Some b) (Some tok)"
      let ?E = "web_env W ?rq s"
      have post: "m = POST" using routed(2) by (cases m) simp_all
      have fits: "first_segment p = first_segment path"
        "take 1 (last_segment p) = '':'' \<or> last_segment p = last_segment path"
        using assms(2,3) routed(1) unfolding match_spec_def by blast+
      have c: "creates L ?E p h"
        by (rule upload_routes [OF routed(3) [unfolded post] fits conjunct1 [OF assms(3)]])
      have "p = ''/entities''" if "path = ''/entities''"
      proof (rule ccontr)
        assume "p \<noteq> ''/entities''"
        then show False using fits that matched_entities [OF routed(3) [unfolded post]] by simp
      qed
      then have "unusable p (request_of W params q ?rq)"
        using assms(5,6) by (auto simp: unusable_def request_of_def build_request_def b)
      from unusable_refused [OF c this, of s] routed(4)
      have "ledger s' = ledger s" "\<not> accepted resp" by simp_all
      moreover from this have "r1 \<noteq> Inr j'" for j' using mapped_answer [of L W base resp j'] routed(5) by auto
      ultimately show ?thesis using r1 by simp
    qed
  qed
  then show ?thesis using r0 by blast
qed

text \<open>A collection whose every POST fails.\<close>

definition rejected_row :: "third_party \<Rightarrow> web \<Rightarrow> string \<Rightarrow> string \<Rightarrow> migration_row \<Rightarrow> bool" where
  "rejected_row L W base tok row \<longleftrightarrow> (\<forall>s r s'.
     post_migration (client_of L W base) tok (ro_path row) (ro_body row) s = (r, s') \<longrightarrow>
       ledger s' = ledger s \<and> (\<forall>j'. r \<noteq> Inr (Inr j')))"

lemma rows_rejected:
  assumes "migrate_rows (client_of L W base) tok kind f vs (0, sk, msgs) s = (res, s')"
    and "\<And>v row. v \<in> set vs \<Longrightarrow> f v = Inr row \<Longrightarrow> rejected_row L W base tok row"
  shows "ledger s' = ledger s \<and> (\<forall>t. res = Inr t \<longrightarrow> fst t = 0)"
  using assms
proof (induction vs arbitrary: sk msgs s)
  case (Cons v vs)
  show ?case
  proof (cases "f v")
    case (Inl what)
    then show ?thesis using Cons.prems(1) by auto
  next
    case (Inr row)
    obtain r s1 where post: "post_migration (client_of L W base) tok (ro_path row) (ro_body row) s = (r, s1)" by fastforce
    have "rejected_row L W base tok row" by (rule Cons.prems(2) [OF _ Inr]) simp
    then have one: "ledger s1 = ledger s" "\<forall>j'. r \<noteq> Inr (Inr j')"
      using post unfolding rejected_row_def by blast+
    show ?thesis
    proof (cases r)
      case (Inl what)
      then show ?thesis using Cons.prems(1) one(1) post \<open>f v = Inr row\<close> by auto
    next
      case (Inr e)
      then obtain err where e: "r = Inr (Inl err)" using one(2) by (cases e) auto
      have "\<exists>sk2 msgs2. handle_post_result kind (ro_name row) (Inl err) (0, sk, msgs) = (0, sk2, msgs2)"
        by (simp add: handle_post_result_def)
      then obtain sk2 msgs2 where t: "handle_post_result kind (ro_name row) (Inl err) (0, sk, msgs) = (0, sk2, msgs2)"
        by blast
      have "migrate_rows (client_of L W base) tok kind f vs (0, sk2, msgs2) s1 = (res, s')"
        using Cons.prems(1) post \<open>f v = Inr row\<close> by (simp add: e t)
      then have "ledger s' = ledger s1 \<and> (\<forall>t. res = Inr t \<longrightarrow> fst t = 0)"
        by (rule Cons.IH) (rule Cons.prems(2), simp_all)
      then show ?thesis using one(1) by simp
    qed
  qed
qed auto

definition none_created :: "migration_report \<Rightarrow> bool" where
  "none_created rep \<longleftrightarrow> fst (mr_entities rep) = 0 \<and> fst (mr_accounts rep) = 0 \<and> fst (mr_transactions rep) = 0 \<and>
     fst (mr_categories rep) = 0 \<and> fst (mr_budgets rep) = 0"

lemma collection_rejected:
  assumes "ledger (snd x) = ledger s" and "\<forall>rep. fst x = Inr rep \<longrightarrow> none_created rep"
    and "\<And>v row. v \<in> set (elements_of j key) \<Longrightarrow> f v = Inr row \<Longrightarrow> rejected_row L W base tok row"
    and "\<And>n rep k ms. none_created rep \<Longrightarrow> fst n = 0 \<Longrightarrow> none_created (put n (rep\<lparr>mr_errors := k, mr_messages := ms\<rparr>))"
  shows "ledger (snd (migrate_collection (client_of L W base) tok j key kind f put x)) = ledger s \<and>
    (\<forall>rep. fst (migrate_collection (client_of L W base) tok j key kind f put x) = Inr rep \<longrightarrow> none_created rep)"
proof (cases x)
  case (Pair r s1)
  show ?thesis
  proof (cases r)
    case (Inl what)
    then show ?thesis using Pair assms(1) by (simp add: migrate_collection_def)
  next
    case (Inr rep)
    obtain res s2 where rows: "migrate_rows (client_of L W base) tok kind f (elements_of j key) (0, 0, mr_messages rep) s1 = (res, s2)"
      by fastforce
    have "ledger s2 = ledger s1 \<and> (\<forall>t. res = Inr t \<longrightarrow> fst t = 0)"
      using rows_rejected [OF rows] assms(3) by blast
    moreover have "none_created rep" using assms(2) Pair Inr by simp
    ultimately show ?thesis
      using assms(1,4) Pair Inr rows
      by (auto simp: migrate_collection_def split: sum.splits prod.splits)
  qed
qed

text \<open>The rows of a saved store: none has an amount in cents, only those of entities have a kind.\<close>

definition plain_id :: "string \<Rightarrow> bool" where
  "plain_id i \<longleftrightarrow> list_all plain_char i"

lemma plain_words:
  "plain_path ''/entities''" "plain_path ''/categories''" "plain_path ''/budgets''" "plain_path ''/entities/''"
  "plain_path ''/accounts''" "plain_path ''/accounts/''" "plain_path ''/transactions''"
  by code_simp+

lemma plain_append: "plain_path (xs @ ys) \<longleftrightarrow> plain_path xs \<and> plain_path ys"
  by (simp add: plain_path_def)

lemma plain_id_path: "plain_id i \<Longrightarrow> plain_path i"
  by (auto simp: plain_id_def plain_path_def list_all_iff)

lemma upload_paths:
  "upload_path ''/entities'' \<and> plain_path ''/entities''"
  "plain_id e \<Longrightarrow> upload_path (''/entities/'' @ e @ ''/accounts'') \<and> plain_path (''/entities/'' @ e @ ''/accounts'')"
  "upload_path ''/categories'' \<and> plain_path ''/categories''" "upload_path ''/budgets'' \<and> plain_path ''/budgets''"
  unfolding plain_append using plain_words plain_id_path by (auto simp: upload_path_def first_segment_def)

lemma transactions_path:
  assumes "plain_id i"
  shows "upload_path (''/accounts/'' @ i @ ''/transactions'') \<and> plain_path (''/accounts/'' @ i @ ''/transactions'')"
proof -
  have "CHR ''?'' \<notin> set i" using assms by (auto simp: plain_id_def list_all_iff plain_char_def in_range_def)
  then have "takeWhile (\<lambda>c. c \<noteq> CHR ''?'') (''/accounts/'' @ i @ ''/transactions'') = ''/accounts/'' @ i @ ''/transactions''"
    by (subst takeWhile_eq_all_conv) auto
  then have "upload_path (''/accounts/'' @ i @ ''/transactions'')"
    by (simp add: upload_path_def first_segment_def last_segment_def)
  then show ?thesis unfolding plain_append using plain_words plain_id_path [OF assms] by blast
qed

lemma rejectedI:
  assumes "json_text_spec (web_text W)" and "match_spec W" and "upload_path (ro_path row) \<and> plain_path (ro_path row)"
    and "json_ok (ro_body row)"
    and "json_at (ro_body row) ''amount_cents'' = None"
    and "json_at (ro_body row) ''kind'' = None \<or> (ro_path row = ''/entities'' \<and>
           (\<exists>kind. json_at (ro_body row) ''kind'' = Some (JStr kind) \<and> \<not> valid_entity_kind kind))"
  shows "rejected_row L W base tok row"
  unfolding rejected_row_def using upload_post [OF assms] by blast

lemma client_kind_invalid: "\<not> valid_entity_kind (entity_type_to_string ty)"
  by (cases ty) (simp_all add: valid_entity_kind_def)

lemma entity_rejected:
  assumes "json_text_spec (web_text W)" and "match_spec W" and "entity_row (entity_to_json e) = Inr row"
  shows "rejected_row L W base tok row"
  using assms(3)
  by (intro rejectedI [OF assms(1,2)])
     (auto simp: entity_row_def entity_to_json_def value_or_def upload_paths client_kind_invalid less_list_code less_char_def)

lemma account_rejected:
  assumes "json_text_spec (web_text W)" and "match_spec W" and "plain_id (a_entity a)"
    and "account_row (account_to_json a) = Inr row"
  shows "rejected_row L W base tok row"
  using assms(4) upload_paths(2) [OF assms(3), unfolded append.simps]
  by (intro rejectedI [OF assms(1,2)])
     (auto simp: account_row_def account_to_json_def value_or_def less_list_code less_char_def)

lemma category_rejected:
  assumes "json_text_spec (web_text W)" and "match_spec W" and "category_row v = Inr row"
  shows "rejected_row L W base tok row"
  using assms(3)
  by (intro rejectedI [OF assms(1,2)])
     (auto simp: category_row_def bind_sum_Inr upload_paths less_list_code less_char_def)

lemma budget_rejected:
  assumes "json_text_spec (web_text W)" and "match_spec W" and "is_double (b_limit b)"
    and "budget_row (budget_to_json b) = Inr row"
  shows "rejected_row L W base tok row"
  using assms(3,4)
  by (intro rejectedI [OF assms(1,2)])
     (auto simp: budget_row_def budget_to_json_def value_or_def upload_paths less_list_code less_char_def)

lemma transaction_rejected:
  assumes "json_text_spec (web_text W)" and "match_spec W" and "is_double (t_amount t)"
    and "plain_id (t_account t)" and "transaction_row (transaction_to_json t) = Inr row"
  shows "rejected_row L W base tok row"
  using assms(3,5) transactions_path [OF assms(4), unfolded append.simps]
  by (intro rejectedI [OF assms(1,2)])
     (auto simp: transaction_row_def transaction_to_json_def value_or_def less_list_code less_char_def)

lemma saved_elements:
  "elements_of (collections_to_json c) ''entities'' = map entity_to_json (ds_entities c)"
  "elements_of (collections_to_json c) ''accounts'' = map account_to_json (ds_accounts c)"
  "elements_of (collections_to_json c) ''transactions'' = map transaction_to_json (ds_transactions c)"
  "elements_of (collections_to_json c) ''budgets'' = map budget_to_json (ds_budgets c)"
  by (simp_all add: elements_of_def collections_to_json_def)

text \<open>C16. Uploading a file the client has saved creates nothing, when its amounts are finite doubles and the
  identifiers that end up in paths (the entities of its accounts, the accounts of its transactions) consist of
  letters, digits, dashes and underscores, as those of both programs do: whoever uploads it, every count of created
  rows is zero, and the tables of the server stay as they were. The server has
  no route for categories and budgets, wants a kind where accounts carry a type, an amount in cents where
  transactions carry an amount, and other spellings of the kinds of entities. (The upload does not encode
  identifiers, so others can reach other routes, which is not covered.)\<close>

theorem upload_creates_nothing:
  assumes "json_text_spec (web_text W)" and "match_spec W" and "amounts_ok c"
    and "list_all (\<lambda>a. plain_id (a_entity a)) (ds_accounts c)"
    and "list_all (\<lambda>t. plain_id (t_account t)) (ds_transactions c)"
    and "migrate_all (client_of L W base) tok (collections_to_json c) s = (res, s')"
  shows "ledger s' = ledger s \<and> (\<forall>rep. res = Inr rep \<longrightarrow> none_created rep)"
proof -
  let ?j = "collections_to_json c" and ?C = "client_of L W base"
  let ?ok = "\<lambda>x. ledger (snd x) = ledger s \<and> (\<forall>rep. fst x = Inr rep \<longrightarrow> none_created rep)"
  let ?x0 = "(Inr empty_report, s) :: (string + migration_report) \<times> server_state"
  let ?x1 = "migrate_collection ?C tok ?j ''entities'' ''entity'' entity_row (\<lambda>n. mr_entities_update (\<lambda>_. n)) ?x0"
  let ?x2 = "migrate_collection ?C tok ?j ''accounts'' ''account'' account_row (\<lambda>n. mr_accounts_update (\<lambda>_. n)) ?x1"
  let ?x3 = "migrate_collection ?C tok ?j ''transactions'' ''transaction'' transaction_row (\<lambda>n. mr_transactions_update (\<lambda>_. n)) ?x2"
  let ?x4 = "migrate_collection ?C tok ?j ''categories'' ''category'' category_row (\<lambda>n. mr_categories_update (\<lambda>_. n)) ?x3"
  let ?x5 = "migrate_collection ?C tok ?j ''budgets'' ''budget'' budget_row (\<lambda>n. mr_budgets_update (\<lambda>_. n)) ?x4"
  have doubles: "is_double (t_amount t)" "plain_id (t_account t)" if "t \<in> set (ds_transactions c)" for t
    using assms(3,5) that by (auto simp: amounts_ok_def list_all_iff)
  have limits: "is_double (b_limit b)" if "b \<in> set (ds_budgets c)" for b
    using assms(3) that by (auto simp: amounts_ok_def list_all_iff)
  have transactions: "rejected_row L W base tok row"
    if "v \<in> set (elements_of ?j ''transactions'')" "transaction_row v = Inr row" for v row
    using that transaction_rejected [OF assms(1,2) doubles] by (auto simp: saved_elements)
  have accounts: "rejected_row L W base tok row"
    if "v \<in> set (elements_of ?j ''accounts'')" "account_row v = Inr row" for v row
    using that assms(4) account_rejected [OF assms(1,2)] by (auto simp: saved_elements list_all_iff)
  have budgets: "rejected_row L W base tok row"
    if "v \<in> set (elements_of ?j ''budgets'')" "budget_row v = Inr row" for v row
    using that budget_rejected [OF assms(1,2) limits] by (auto simp: saved_elements)
  have "?ok ?x0" by (simp add: none_created_def empty_report_def)
  then have "?ok ?x1"
    by (intro collection_rejected)
       (auto simp: none_created_def saved_elements intro: entity_rejected [OF assms(1,2)])
  then have "?ok ?x2"
    by (intro collection_rejected) (auto simp: none_created_def intro: accounts)
  then have "?ok ?x3"
    by (intro collection_rejected) (auto simp: none_created_def intro: transactions)
  then have "?ok ?x4"
    by (intro collection_rejected) (auto simp: none_created_def intro: category_rejected [OF assms(1,2)])
  then have "?ok ?x5"
    by (intro collection_rejected) (auto simp: none_created_def intro: budgets)
  then show ?thesis using assms(6) by (simp add: migrate_all_def)
qed

definition entities_web :: web where
  "entities_web = (small_web (one_document (ro_body (projr (entity_row (entity_to_json small_entity))))) 2000 None)
     \<lparr>web_match := (\<lambda>_ path. if path = ''/entities'' then Some (path, \<lambda>_. [], \<lambda>_. None) else None)\<rparr>"

theorem upload_creates_nothing_witness:
  "ledger (snd (migrate_all (client_of reference_libs entities_web ''https://h'') (bytes_to_hex (replicate 32 1))
     (collections_to_json (empty_collections\<lparr>ds_entities := [small_entity]\<rparr>)) small_server_state)) =
   ledger small_server_state"
proof -
  let ?r = "migrate_all (client_of reference_libs entities_web ''https://h'') (bytes_to_hex (replicate 32 1))
     (collections_to_json (empty_collections\<lparr>ds_entities := [small_entity]\<rparr>)) small_server_state"
  have spec: "json_text_spec (web_text entities_web)" "match_spec entities_web"
    by (simp_all add: entities_web_def small_web_def one_document_spec match_spec_def)
  have c: "amounts_ok (empty_collections\<lparr>ds_entities := [small_entity]\<rparr>)"
    "list_all (\<lambda>a. plain_id (a_entity a)) (ds_accounts (empty_collections\<lparr>ds_entities := [small_entity]\<rparr>))"
    "list_all (\<lambda>t. plain_id (t_account t)) (ds_transactions (empty_collections\<lparr>ds_entities := [small_entity]\<rparr>))"
    by (simp_all add: amounts_ok_def empty_collections_def)
  have "?r = (fst ?r, snd ?r)" by simp
  from upload_creates_nothing [OF spec c this] show ?thesis by simp
qed

section \<open>Logging out\<close>

text \<open>The three things that can become of a request.\<close>

lemma sent_cases:
  assumes "send_request (client_of L W base) m path txt tok s = (r, s')"
  shows "(web_delivery W (build_request (client_of L W base) m path txt tok) s = Unreached \<and>
       r = Inl (backend_error Transport 0 ''transport_failure'' ''request did not complete'') \<and> s' = s) \<or>
    (web_delivery W (build_request (client_of L W base) m path txt tok) s = Answer_lost \<and>
       r = Inl (backend_error Transport 0 ''transport_failure'' ''request did not complete'') \<and>
       s' = snd (answered L W base (build_request (client_of L W base) m path txt tok) s)) \<or>
    (web_delivery W (build_request (client_of L W base) m path txt tok) s = Delivered \<and>
       r = map_response (client_of L W base)
         (fst (answered L W base (build_request (client_of L W base) m path txt tok) s)) \<and>
       s' = snd (answered L W base (build_request (client_of L W base) m path txt tok) s))"
proof -
  have "bc_send (client_of L W base) q s = serve L W base q s" for q by (simp add: client_of_def)
  then show ?thesis
    using assms unfolding send_request_def serve_def
    by (cases "web_delivery W (build_request (client_of L W base) m path txt tok) s") (auto split: prod.splits)
qed

lemma cleared_iff:
  assumes "au_secrets A = file_secrets L" "read_cached_token A k = Some tok"
  shows "has_cached_session A (clear_cached_token A k) \<longleftrightarrow> \<not> sd_remove k"
proof (cases "sd_remove k")
  case True
  then show ?thesis using cleared [OF assms(1)] by blast
next
  case False
  then have "clear_cached_token A k = k"
    using assms(1) by (simp add: clear_cached_token_def file_secrets_def file_remove_def Let_def)
  then show ?thesis using assms(2) False by (auto simp: read_cached_token_def has_cached_session_def)
qed

text \<open>C14. What a logout ends, whatever becomes of the request. Once it has reached the server the session is revoked,
  so the token authenticates nothing any more, also when the server answers with an error after revoking or its
  answer is lost. When the answer arrives, the client clears the cached token, whatever the answer; that fails
  only if the file of the token cannot be removed. When no answer arrives, because the request never reached the server
  or the answer was lost, the logout reports failure and the token stays cached. (The session must be on record and
  the cached token non-empty, and the library must match the path and print the empty object.)\<close>

theorem logout_ends_both:
  assumes "json_text_spec (web_text W)"
    and "au_backend A = client_of L W base" and "au_secrets A = file_secrets L"
    and "read_cached_token A k = Some tok" and "tok \<noteq> []"
    and "web_match W ''POST'' ''/auth/logout'' = Some (''/auth/logout'', params, q)"
    and "length (base64url_decode L tok) = 32"
    and "sel_by ses_id (session_key L (base64url_decode L tok)) (sessions (sv_db s)) = Some row"
    and "dump2 (web_text W) (JObj []) = Inr bt"
    and "how = web_delivery W (build_request (client_of L W base) ''POST'' ''/auth/logout'' (Some bt) (Some tok)) s"
    and "client_logout A (s, k) = (Inr b, (s', k'))"
  shows "(how \<noteq> Unreached \<longrightarrow> session_revoked (session_key L (base64url_decode L tok)) (sv_db s') \<and>
       (\<forall>E req. extract_bearer req = Some tok \<longrightarrow> require_session L E req (sv_db s') = (None, sv_db s'))) \<and>
    (how = Unreached \<longrightarrow> s' = s) \<and>
    (how = Delivered \<longrightarrow> k' = clear_cached_token A k \<and> (has_cached_session A k' \<longleftrightarrow> \<not> sd_remove k)) \<and>
    (how \<noteq> Delivered \<longrightarrow> \<not> b \<and> k' = k \<and> read_cached_token A k' = Some tok)"
proof -
  let ?C = "client_of L W base" and ?key = "session_key L (base64url_decode L tok)"
  let ?rq = "build_request ?C ''POST'' ''/auth/logout'' (Some bt) (Some tok)"
  let ?req = "request_of W params q ?rq"
  let ?lost = "backend_error Transport 0 ''transport_failure'' ''request did not complete''"
  obtain r where post: "backend_post ?C ''/auth/logout'' (JObj []) (Some tok) s = (Inr r, s')"
    and cache: "k' = (case r of Inl e \<Rightarrow> if be_kind e = Transport then k else clear_cached_token A k | Inr _ \<Rightarrow> clear_cached_token A k)"
    and b: "b \<longleftrightarrow> (\<exists>j. r = Inr j)"
    using assms(2,4,11) by (auto simp: client_logout_def split: prod.splits sum.splits)
  then have sent: "send_request ?C ''POST'' ''/auth/logout'' (Some bt) (Some tok) s = (r, s')"
    using assms(9) by (auto simp: backend_post_def client_of_def split: sum.splits prod.splits)
  note cases3 = sent_cases [OF sent, folded assms(10)]
  have "find (\<lambda>(m, p', h). method_name m = ''POST'' \<and> p' = ''/auth/logout'')
      (server_routes L (web_env W ?rq s) (web_plaid W)) =
      Some (POST, ''/auth/logout'', on_db (handle_logout L (web_env W ?rq s)))"
    by (simp add: route_tables)
  then have route: "route_for L W base ?rq s = Some (on_db (handle_logout L (web_env W ?rq s)), ?req)"
    using assms(6) by (simp add: route_for_def build_request_def client_of_def)
  obtain resp s2 where g: "guarded (on_db (handle_logout L (web_env W ?rq s)) ?req s) = (resp, s2)" by fastforce
  have a: "answered L W base ?rq s = (http_answer W resp, s2)" by (simp add: answered_def route g)
  have tok: "extract_bearer ?req = Some tok"
    using assms(5) by (simp add: extract_bearer_header request_of_def build_request_def)
  have "session_revoked ?key (snd (revoke_session L tok (sv_db s)))"
    using revoke_selects [OF assms(7), of "sv_db s"] assms(8) by (simp add: session_revoked_def)
  then have revoked: "session_revoked ?key (sv_db s2)"
    using arg_cong [OF g, of snd] tok by (auto simp: handle_logout_def Let_def split_def)
  have refused: "require_session L E req (sv_db s2) = (None, sv_db s2)" if "extract_bearer req = Some tok" for E req
    using revoked revoked_never_valid [of L tok "sv_db s2"] that
    by (auto simp: session_revoked_def require_session_def split: option.splits)
  have answer: "\<forall>e. map_response ?C (http_answer W resp) = Inl e \<longrightarrow> be_kind e \<noteq> Transport"
    by (auto simp: map_response_def error_of_body_def backend_error_def Let_def split: sum.splits if_splits option.splits)
  note stays = cleared_iff [OF assms(3,4)]
  show ?thesis
    using cases3 cache b answer refused revoked stays assms(4) unfolding a fst_conv snd_conv
    by (elim disjE conjE) (auto simp: backend_error_def split: sum.splits)
qed

definition logout_web :: web where
  "logout_web = small_web (one_document (JObj [])) 1500 (Some (''/auth/logout'', \<lambda>_. []))"

definition logout_service :: "(server_state, secret_dir) auth_service" where
  "logout_service = \<lparr>au_backend = client_of reference_libs logout_web ''https://h'',
     au_secrets = file_secrets reference_libs, au_email = ''a@b''\<rparr>"

theorem logout_ends_both_witness:
  "let r = client_logout logout_service (small_server_state,
     cache_token logout_service (bytes_to_hex (replicate 32 1)) (working_dir Map.empty))
   in \<not> has_cached_session logout_service (snd (snd r)) \<and>
      session_revoked (session_key reference_libs (replicate 32 1)) (sv_db (fst (snd r)))"
proof -
  let ?tok = "bytes_to_hex (replicate 32 (1 :: byte))"
  let ?k = "cache_token logout_service ?tok (working_dir Map.empty)"
  let ?r = "client_logout logout_service (small_server_state, ?k)"
  have tok: "?tok \<noteq> []"
    by (metis length_bytes_to_hex length_replicate list.size(3) mult_is_0 zero_neq_numeral)
  have spec: "json_text_spec (web_text logout_web)" and matched:
    "web_match logout_web ''POST'' ''/auth/logout'' = Some (''/auth/logout'', \<lambda>_. [], \<lambda>_. None)"
    and delivered: "Delivered = web_delivery logout_web rq w" for rq w
    by (simp_all add: logout_web_def small_web_def one_document_spec)
  have service: "au_backend logout_service = client_of reference_libs logout_web ''https://h''"
    "au_secrets logout_service = file_secrets reference_libs"
    by (simp_all add: logout_service_def)
  have disk: "sd_remove ?k"
    by (simp add: cache_token_def service file_secrets_def file_put_def working_dir_def Let_def)
  have cached: "read_cached_token logout_service ?k = Some ?tok"
    by (rule cached_after_put [OF service(2)]) (simp_all add: service working_dir_def file_secrets_def file_put_def Let_def)
  have len: "length (base64url_decode reference_libs ?tok) = 32" by (simp add: bearer_decodes)
  have row: "sel_by ses_id (session_key reference_libs (base64url_decode reference_libs ?tok)) (sessions (sv_db small_server_state)) =
      Some (session_of ''u1'' 1 1000)"
    by (simp add: bearer_decodes small_server_state_def small_db_def session_of_def)
  have doc: "dump2 (web_text logout_web) (JObj []) = Inr ''doc''" by (simp add: logout_web_def small_web_def one_document_def)
  then have "\<exists>b. fst ?r = Inr b"
    using cached by (auto simp: client_logout_def service backend_post_def client_of_def split: prod.splits sum.splits)
  then obtain b where "?r = (Inr b, (fst (snd ?r), snd (snd ?r)))" by (metis prod.collapse)
  from logout_ends_both [OF spec service cached tok matched len row doc delivered this] disk
  show ?thesis unfolding Let_def bearer_decodes by blast
qed

end
