(* ===== verification/Fuzzy_Match.thy ===== *)
theory Fuzzy_Match
  imports Sanitizer_Model "HOL-Library.Sublist" "HOL-Library.Product_Lexorder"
begin

text \<open>The scored subsequence search behind the command palette (src/src/utils/fuzzy_match.h). The
  recursive worker is one function with its loop: at each matching character it first explores the
  paths that skip the character, then takes it; one counter, shared by all calls, bounds the number
  of calls. A path is the list of the positions taken, in place of the arrays of the code. 
  What is shown: a score returned is the score of a real alignment of the pattern in the text; it
  is at least the score of the leftmost alignment; and a match is found exactly when the boolean
  filter, a case-insensitive subsequence test, accepts and the pattern has at most 256 characters. The
  worker assumes strings without a NUL.\<close>

section \<open>The boolean filter\<close>

fun fuzzy_match_simple :: "string \<Rightarrow> string \<Rightarrow> bool" where
  "fuzzy_match_simple [] s \<longleftrightarrow> True"
| "fuzzy_match_simple (p # ps) [] \<longleftrightarrow> False"
| "fuzzy_match_simple (p # ps) (c # s) \<longleftrightarrow>
     (if tolower p = tolower c then fuzzy_match_simple ps s else fuzzy_match_simple (p # ps) s)"

section \<open>Scores\<close>

definition kSequentialBonus :: int where "kSequentialBonus = 15"
definition kSeparatorBonus :: int where "kSeparatorBonus = 30"
definition kCamelBonus :: int where "kCamelBonus = 30"
definition kFirstLetterBonus :: int where "kFirstLetterBonus = 15"
definition kLeadingLetterPenalty :: int where "kLeadingLetterPenalty = - 5"
definition kMaxLeadingPenalty :: int where "kMaxLeadingPenalty = - 15"
definition kUnmatchedPenalty :: int where "kUnmatchedPenalty = - 1"
definition kRecursionLimit :: nat where "kRecursionLimit = 10"
definition kMaxMatches :: nat where "kMaxMatches = 256"

definition islower :: "char \<Rightarrow> bool" where
  "islower c \<longleftrightarrow> in_range (CHR ''a'') (CHR ''z'') c"

definition isupper :: "char \<Rightarrow> bool" where
  "isupper c \<longleftrightarrow> in_range (CHR ''A'') (CHR ''Z'') c"

text \<open>The bonuses of the \<^term>\<open>i\<close>-th position of a path.\<close>

definition match_bonus :: "string \<Rightarrow> nat list \<Rightarrow> nat \<Rightarrow> int" where
  "match_bonus str ms i =
     (let idx = ms ! i in
      (if 0 < i \<and> idx = ms ! (i - 1) + 1 then kSequentialBonus else 0) +
      (if 0 < idx then
         (if islower (str ! (idx - 1)) \<and> isupper (str ! idx) then kCamelBonus else 0) +
         (if str ! (idx - 1) \<in> set '' _-'' then kSeparatorBonus else 0)
       else kFirstLetterBonus))"

definition path_score :: "string \<Rightarrow> nat \<Rightarrow> nat list \<Rightarrow> int" where
  "path_score str str_len ms =
     100 + max (kLeadingLetterPenalty * int (ms ! 0)) kMaxLeadingPenalty
     + kUnmatchedPenalty * max 0 (int str_len - int (length ms))
     + sum_list (map (match_bonus str ms) [0..<length ms])"

section \<open>The worker\<close>

text \<open>A result is a score with its path. \<^verbatim>\<open>better\<close> keeps the best of the skipping paths,
  \<^verbatim>\<open>finish\<close> is what the code does when its loop ends.\<close>

type_synonym path = "int \<times> nat list"

definition better :: "path option \<Rightarrow> path option \<Rightarrow> path option" where
  "better best r = (case r of
     None \<Rightarrow> best
   | Some (s, m) \<Rightarrow> (case best of None \<Rightarrow> r | Some (bs, bm) \<Rightarrow> if bs < s then r else best))"

definition finish :: "string \<Rightarrow> nat \<Rightarrow> string \<Rightarrow> nat list \<Rightarrow> path option \<Rightarrow> path option" where
  "finish str n pat ms best = (case best of
     None \<Rightarrow> if pat = [] then Some (path_score str n ms, ms) else None
   | Some (bs, bm) \<Rightarrow>
       if pat \<noteq> [] \<or> path_score str n ms < bs then best else Some (path_score str n ms, ms))"

text \<open>\<^verbatim>\<open>fuzzy_match_recursive\<close> and its loop \<^verbatim>\<open>walk\<close>. Arguments: the text and its length, the
  rest of the pattern, the rest of the text and its position, the path so far, the best skipping
  path (of the loop) and the call counter, which is returned as the code updates it by reference.\<close>

function fuzzy_match_recursive ::
    "string \<Rightarrow> nat \<Rightarrow> string \<Rightarrow> string \<Rightarrow> nat \<Rightarrow> nat list \<Rightarrow> nat \<Rightarrow> path option \<times> nat"
  and walk ::
    "string \<Rightarrow> nat \<Rightarrow> string \<Rightarrow> string \<Rightarrow> nat \<Rightarrow> nat list \<Rightarrow> path option \<Rightarrow> nat \<Rightarrow> path option \<times> nat"
where
  "fuzzy_match_recursive str n pat rest i ms count =
     (if kRecursionLimit \<le> Suc count then (None, Suc count)
      else if pat = [] \<or> rest = [] then (None, Suc count)
      else walk str n pat rest i ms None (Suc count))"
| "walk str n [] rest i ms best count = (finish str n [] ms best, count)"
| "walk str n (p # ps) [] i ms best count = (finish str n (p # ps) ms best, count)"
| "walk str n (p # ps) (c # rest) i ms best count =
     (if tolower p = tolower c then
        (if kMaxMatches \<le> length ms then (None, count)
         else (let (r, count') = fuzzy_match_recursive str n (p # ps) rest (Suc i) ms count
               in walk str n ps rest (Suc i) (ms @ [i]) (better best r) count'))
      else walk str n (p # ps) rest (Suc i) ms best count)"
  by pat_completeness auto

termination
  by (relation "measure (\<lambda>x. case x of
        Inl (_, _, _, rest, _) \<Rightarrow> 2 * length rest + 1 | Inr (_, _, _, rest, _) \<Rightarrow> 2 * length rest)")
     auto

declare fuzzy_match_recursive.simps [simp del] walk.simps [simp del]

definition fuzzy_match :: "string \<Rightarrow> string \<Rightarrow> int option" where
  "fuzzy_match pattern str =
     (if pattern = [] then Some 0
      else if str = [] then None
      else map_option fst (fst
        (fuzzy_match_recursive (c_str str) (length str) (c_str pattern) (c_str str) 0 [] 0)))"

section \<open>Alignments\<close>

text \<open>A path aligns a pattern in a text: its positions increase, and each holds the pattern's
  character, in either case.\<close>

definition aligned :: "string \<Rightarrow> string \<Rightarrow> nat list \<Rightarrow> bool" where
  "aligned str pat ms \<longleftrightarrow>
     list_all2 (\<lambda>p j. j < length str \<and> tolower (str ! j) = tolower p) pat ms \<and> sorted_wrt (<) ms"

lemma aligned_Nil [simp]: "aligned str [] []"
  by (simp add: aligned_def)

lemma aligned_snoc:
  assumes "aligned str pat ms" and "\<forall>j \<in> set ms. j < i" and "i < length str"
    and "tolower p = tolower (str ! i)"
  shows "aligned str (pat @ [p]) (ms @ [i])"
  using assms by (auto simp: aligned_def list_all2_appendI sorted_wrt_append)

lemma finish_cases:
  assumes "finish str n pat ms best = Some r"
  obtains (skipped) "best = Some r" | (taken) "pat = []" "r = (path_score str n ms, ms)"
  using assms by (auto simp: finish_def split: option.splits if_splits)

lemma better_cases:
  assumes "better best r = Some q" obtains "best = Some q" | "r = Some q"
  using assms by (auto simp: better_def split: option.splits if_splits)

text \<open>What every path of the search keeps: a result is an alignment of the whole pattern with its
  own score.\<close>

definition scored :: "string \<Rightarrow> nat \<Rightarrow> string \<Rightarrow> path option \<Rightarrow> bool" where
  "scored str n pat r \<longleftrightarrow> (\<forall>s m. r = Some (s, m) \<longrightarrow> aligned str pat m \<and> s = path_score str n m)"

lemma scored_None [simp]: "scored str n pat None"
  by (simp add: scored_def)

lemma scored_better: "scored str n pat best \<Longrightarrow> scored str n pat r \<Longrightarrow> scored str n pat (better best r)"
  by (auto simp: scored_def elim: better_cases)

lemma search_scored:
  "rest = drop i str \<Longrightarrow> aligned str pre ms \<Longrightarrow> \<forall>j \<in> set ms. j < i \<Longrightarrow>
     scored str n (pre @ pat) (fst (fuzzy_match_recursive str n pat rest i ms count))"
  "rest = drop i str \<Longrightarrow> aligned str pre ms \<Longrightarrow> \<forall>j \<in> set ms. j < i \<Longrightarrow> scored str n (pre @ pat) best \<Longrightarrow>
     scored str n (pre @ pat) (fst (walk str n pat rest i ms best count))"
proof (induction str n pat rest i ms count and str n pat rest i ms best count
    arbitrary: pre and pre rule: fuzzy_match_recursive_walk.induct)
  case (1 str n pat rest i ms count)
  then show ?case by (simp add: fuzzy_match_recursive.simps)
next
  case (2 str n rest i ms best count)
  then show ?case by (auto simp: walk.simps scored_def elim: finish_cases)
next
  case (3 str n p ps i ms best count)
  then show ?case by (auto simp: walk.simps scored_def elim: finish_cases)
next
  case (4 str n p ps c rest i ms best count)
  have i: "i < length str" and c: "str ! i = c" and rest: "rest = drop (Suc i) str"
    using "4.prems"(1) by (metis drop_all list.distinct(1) not_less,
        metis drop_all list.distinct(1) not_less nth_via_drop,
        metis drop_Suc list.sel(3) tl_drop)
  show ?case
  proof (cases "tolower p = tolower c \<and> length ms < kMaxMatches")
    case False
    then show ?thesis
      using "4.IH"(3) [OF _ rest "4.prems"(2) _ "4.prems"(4)] "4.prems"(3)
      by (auto simp: walk.simps less_Suc_eq)
  next
    case True
    obtain r count' where r: "fuzzy_match_recursive str n (p # ps) rest (Suc i) ms count = (r, count')"
      by fastforce
    have "scored str n (pre @ p # ps) r"
      using "4.IH"(1) [OF _ _ rest "4.prems"(2)] True "4.prems"(3) r by (fastforce simp: less_Suc_eq)
    moreover have "aligned str (pre @ [p]) (ms @ [i])"
      using aligned_snoc [OF "4.prems"(2,3) i] True c by simp
    ultimately have "scored str n ((pre @ [p]) @ ps)
        (fst (walk str n ps rest (Suc i) (ms @ [i]) (better best r) count'))"
      using "4.IH"(2) [OF _ _ r [symmetric] refl rest, of "pre @ [p]"] True "4.prems"(3,4)
      by (force simp: less_Suc_eq intro: scored_better)
    then show ?thesis using True r by (simp add: walk.simps)
  qed
qed

section \<open>The leftmost alignment\<close>

fun leftmost :: "string \<Rightarrow> string \<Rightarrow> nat \<Rightarrow> nat list option" where
  "leftmost [] s i = Some []"
| "leftmost (p # ps) [] i = None"
| "leftmost (p # ps) (c # s) i =
     (if tolower p = tolower c then map_option ((#) i) (leftmost ps s (Suc i))
      else leftmost (p # ps) s (Suc i))"

lemma leftmost_simple: "leftmost pat s i = None \<longleftrightarrow> \<not> fuzzy_match_simple pat s"
  by (induction pat s i rule: leftmost.induct) auto

lemma finish_Nil: "\<exists>s m. finish str n [] ms best = Some (s, m) \<and> path_score str n ms \<le> s"
  by (auto simp: finish_def split: option.split)

text \<open>The loop takes the leftmost alignment and only replaces it by a better path.\<close>

lemma walk_leftmost:
  "leftmost pat rest i = Some l \<Longrightarrow> length ms + length pat \<le> kMaxMatches \<Longrightarrow>
     \<exists>s m. fst (walk str n pat rest i ms best count) = Some (s, m) \<and> path_score str n (ms @ l) \<le> s"
proof (induction pat rest i arbitrary: l ms best count rule: leftmost.induct)
  case (1 s i)
  then show ?case using finish_Nil by (simp add: walk.simps)
next
  case (2 p ps i)
  then show ?case by simp
next
  case (3 p ps c s i)
  show ?case
  proof (cases "tolower p = tolower c")
    case True
    then obtain l' where l: "l = i # l'" "leftmost ps s (Suc i) = Some l'"
      using "3.prems"(1) by auto
    obtain r count' where r: "fuzzy_match_recursive str n (p # ps) s (Suc i) ms count = (r, count')"
      by fastforce
    have "\<exists>q m. fst (walk str n ps s (Suc i) (ms @ [i]) (better best r) count') = Some (q, m) \<and>
        path_score str n ((ms @ [i]) @ l') \<le> q"
      using "3.IH"(1) [OF True l(2), where ms = "ms @ [i]"] "3.prems"(2) by simp
    then show ?thesis using True r l(1) "3.prems"(2) by (simp add: walk.simps)
  next
    case False
    then show ?thesis using "3.IH"(2) [OF False] "3.prems" by (simp add: walk.simps)
  qed
qed

text \<open>The filter is the subsequence test on lower-case strings.\<close>

lemma simple_subseq: "fuzzy_match_simple pat s \<longleftrightarrow> subseq (map tolower pat) (map tolower s)"
  by (induction pat s rule: fuzzy_match_simple.induct) auto

lemma increasing_subseq:
  "sorted_wrt (<) ms \<Longrightarrow> \<forall>j \<in> set ms. i \<le> j \<and> j < length s \<Longrightarrow> subseq (map ((!) s) ms) (drop i s)"
proof (induction ms arbitrary: i)
  case Nil
  then show ?case by simp
next
  case (Cons j ms)
  have "subseq (map ((!) s) ms) (drop (Suc j) s)" using Cons by (auto simp: Suc_le_eq)
  then have "subseq (map ((!) s) (j # ms)) (drop j s)"
    using Cons.prems(2) by (simp add: Cons_nth_drop_Suc [symmetric])
  moreover have "suffix (drop j s) (drop i s)"
    using Cons.prems(2) suffix_drop [of "j - i" "drop i s"] by simp
  ultimately show ?case by (meson suffix_imp_subseq subseq_order.order_trans)
qed

lemma aligned_simple:
  assumes "aligned str pat ms" shows "fuzzy_match_simple pat str"
proof -
  have chars: "map tolower pat = map tolower (map ((!) str) ms)"
    using assms by (auto simp: aligned_def list_all2_conv_all_nth intro!: nth_equalityI)
  have "\<forall>j \<in> set ms. 0 \<le> j \<and> j < length str"
    using assms by (auto simp: aligned_def list_all2_conv_all_nth set_conv_nth)
  then have "subseq (map ((!) str) ms) str"
    using increasing_subseq [of ms 0 str] assms by (simp add: aligned_def)
  then show ?thesis unfolding simple_subseq chars by (rule subseq_map)
qed

section \<open>Properties\<close>

lemma fuzzy_match_search:
  assumes "pattern \<noteq> []" "str \<noteq> []" "nul_free pattern" "nul_free str"
  shows "fuzzy_match pattern str =
    map_option fst (fst (walk str (length str) pattern str 0 [] None 1))"
  using assms by (simp add: fuzzy_match_def fuzzy_match_recursive.simps kRecursionLimit_def)

text \<open>A path never gets longer than its array.\<close>

definition fits :: "path option \<Rightarrow> bool" where
  "fits r \<longleftrightarrow> (\<forall>s m. r = Some (s, m) \<longrightarrow> length m \<le> kMaxMatches)"

lemma search_fits:
  "length ms \<le> kMaxMatches \<Longrightarrow> fits (fst (fuzzy_match_recursive str n pat rest i ms count))"
  "length ms \<le> kMaxMatches \<Longrightarrow> fits best \<Longrightarrow> fits (fst (walk str n pat rest i ms best count))"
proof (induction str n pat rest i ms count and str n pat rest i ms best count
    rule: fuzzy_match_recursive_walk.induct)
  case (1 str n pat rest i ms count)
  then show ?case by (simp add: fuzzy_match_recursive.simps fits_def)
next
  case (2 str n rest i ms best count)
  then show ?case by (auto simp: walk.simps fits_def elim: finish_cases)
next
  case (3 str n p ps i ms best count)
  then show ?case by (auto simp: walk.simps fits_def elim: finish_cases)
next
  case (4 str n p ps c rest i ms best count)
  show ?case
  proof (cases "tolower p = tolower c \<and> length ms < kMaxMatches")
    case False
    then show ?thesis using "4.IH"(3) "4.prems" by (auto simp: walk.simps fits_def)
  next
    case True
    obtain r count' where r: "fuzzy_match_recursive str n (p # ps) rest (Suc i) ms count = (r, count')"
      by fastforce
    have "fits r" using "4.IH"(1) True "4.prems"(1) r by fastforce
    then have "fits (better best r)" using "4.prems"(2) by (auto simp: fits_def elim: better_cases)
    then show ?thesis
      using "4.IH"(2) [OF _ _ r [symmetric] refl] True r "4.prems"(1) by (simp add: walk.simps)
  qed
qed

text \<open>C31. The scored match on strings without a NUL: it succeeds exactly when the boolean filter does, that is
  when the pattern is a subsequence of the text up to case, and the pattern has at most 256 characters; a longer
  one passes the filter and is never matched. The cap on the recursion cuts off no match. The score is that of an
  alignment of the pattern in the text, and no worse than the score of the leftmost one.\<close>

theorem fuzzy_match_exact:
  assumes "nul_free pattern" and "nul_free str"
  shows "(fuzzy_match pattern str \<noteq> None) =
      (length pattern \<le> 256 \<and> subseq (map tolower pattern) (map tolower str)) \<and>
    (pattern = [] \<or> fuzzy_match pattern str = None \<or>
      (\<exists>ms. aligned str pattern ms \<and> fuzzy_match pattern str = Some (path_score str (length str) ms))) \<and>
    (pattern = [] \<or> fuzzy_match pattern str = None \<or> leftmost pattern str 0 = None \<or>
      path_score str (length str) (the (leftmost pattern str 0)) \<le> the (fuzzy_match pattern str))"
proof (cases "pattern = [] \<or> str = []")
  case True
  then show ?thesis by (cases pattern) (auto simp: fuzzy_match_def)
next
  case False
  then have eq: "fuzzy_match pattern str =
      map_option fst (fst (walk str (length str) pattern str 0 [] None 1))"
    using assms by (intro fuzzy_match_search) auto
  have sound: "scored str (length str) pattern (fst (walk str (length str) pattern str 0 [] None 1))"
    using search_scored(2) [of str 0 str "[]" "[]"] by simp
  have complete: "\<exists>s. fuzzy_match pattern str = Some s \<and> path_score str (length str) l \<le> s"
    if "leftmost pattern str 0 = Some l" "length pattern \<le> 256" for l
    using walk_leftmost [OF that(1), of "[]"] that(2) eq by (fastforce simp: kMaxMatches_def)
  have fit: "fits (fst (walk str (length str) pattern str 0 [] None 1))"
    by (rule search_fits(2)) (simp_all add: fits_def)
  have path: "\<exists>ms. aligned str pattern ms \<and> s = path_score str (length str) ms \<and> length pattern \<le> 256"
    if s: "fuzzy_match pattern str = Some s" for s
  proof -
    obtain ms where "fst (walk str (length str) pattern str 0 [] None 1) = Some (s, ms)" using s eq by auto
    then have "aligned str pattern ms" "s = path_score str (length str) ms" "length ms \<le> 256"
      using sound fit by (auto simp: scored_def fits_def kMaxMatches_def)
    moreover have "length pattern = length ms"
      using \<open>aligned str pattern ms\<close> by (auto simp: aligned_def dest: list_all2_lengthD)
    ultimately show ?thesis by auto
  qed
  show ?thesis
    using complete path leftmost_simple [of pattern str 0] aligned_simple
    unfolding simple_subseq [symmetric] by (metis not_None_eq option.sel)
qed

theorem fuzzy_match_exact_witness:
  "(fuzzy_match ''nw'' ''Net Worth'' \<noteq> None) = subseq (map tolower ''nw'') (map tolower ''Net Worth'') \<and>
   fuzzy_match (replicate 257 (CHR ''a'')) (replicate 257 (CHR ''a'')) = None"
proof -
  have "nul_free ''nw''" "nul_free ''Net Worth''" "nul_free (replicate 257 (CHR ''a''))"
    by (simp_all add: nul_free_def nul_def list_all_iff)
  then show ?thesis
    using fuzzy_match_exact [of "''nw''" "''Net Worth''"]
      fuzzy_match_exact [of "replicate 257 (CHR ''a'')" "replicate 257 (CHR ''a'')"] by simp
qed

text \<open>The score of a prompt like the ones users type: \<^verbatim>\<open>N\<close> as the first letter, \<^verbatim>\<open>W\<close> after a
  separator, seven letters unmatched.\<close>

lemma fuzzy_match_net_worth: "fuzzy_match ''nw'' ''Net Worth'' = Some 138"
  by code_simp

end
