(* ===== verification/Focus_Controller.thy ===== *)
theory Focus_Controller
  imports Greylock_Prelude
begin

text \<open>The Dashboard focus state machine of the client (src/src/views/FocusController.h and
  src/src/views/FocusController.cpp): which widget of the 2 x 2 grid has the focus, the drill into a
  widget and the stash kept while a modal is open. The grid and the Tab order are the tables of the
  code and every resolver walks them as the code does.
  What is shown: every operation keeps \<^verbatim>\<open>focus_ok\<close>, hence every reachable controller satisfies it; the modal
  pair restores the state it found; Tab and Shift-Tab are inverse cycles of length four; the grid
  moves come in inverse pairs; and at most two presses of Esc lead back to the Dashboard.\<close>

section \<open>State\<close>

datatype widget_id = NoWidget | NetWorth | CashFlow | RecentActivity | SyncStatus

datatype focus_level = Dashboard | Widget | Drill | Modal

text \<open>The events of the terminal library the client compares with; a character event carries the
  bytes of its input.\<close>

datatype event =
    Escape | Tab | TabReverse | Return | Backspace | ArrowLeft | ArrowRight | ArrowUp | ArrowDown
  | Character string | OtherEvent

record focus_controller =
  level :: focus_level
  focused :: widget_id
  drilled :: widget_id
  back_stack :: "widget_id list"
  pre_modal_level :: focus_level
  pre_modal_focused :: widget_id

definition new_controller :: focus_controller where
  "new_controller = \<lparr>level = Dashboard, focused = NoWidget, drilled = NoWidget, back_stack = [],
     pre_modal_level = Dashboard, pre_modal_focused = NoWidget\<rparr>"

section \<open>Tables and resolvers\<close>

definition kTabOrder :: "widget_id list" where
  "kTabOrder = [NetWorth, CashFlow, RecentActivity, SyncStatus]"

definition kRows :: nat where "kRows = 2"
definition kCols :: nat where "kCols = 2"

definition kGrid :: "widget_id list list" where
  "kGrid = [[NetWorth, CashFlow], [RecentActivity, SyncStatus]]"

abbreviation cell :: "nat \<Rightarrow> nat \<Rightarrow> widget_id" where "cell r c \<equiv> kGrid ! r ! c"

definition find_grid_position :: "widget_id \<Rightarrow> (nat \<times> nat) option" where
  "find_grid_position w =
     find (\<lambda>(r, c). cell r c = w) (List.product [0..<kRows] [0..<kCols])"

definition leftmost_in_row :: "nat \<Rightarrow> widget_id" where
  "leftmost_in_row r = (case find (\<lambda>c. cell r c \<noteq> NoWidget) [0..<kCols] of
     Some c \<Rightarrow> cell r c
   | None \<Rightarrow> cell r 0)"

definition tab_index :: "widget_id \<Rightarrow> nat option" where
  "tab_index w = find (\<lambda>i. kTabOrder ! i = w) [0..<length kTabOrder]"

definition move_left :: "widget_id \<Rightarrow> widget_id" where
  "move_left w = (case find_grid_position w of
     None \<Rightarrow> w
   | Some (r, c) \<Rightarrow>
       (case find (\<lambda>step. cell r ((c + kCols - step) mod kCols) \<noteq> NoWidget) [1..<Suc kCols] of
          None \<Rightarrow> w
        | Some step \<Rightarrow> cell r ((c + kCols - step) mod kCols)))"

definition move_right :: "widget_id \<Rightarrow> widget_id" where
  "move_right w = (case find_grid_position w of
     None \<Rightarrow> w
   | Some (r, c) \<Rightarrow>
       (case find (\<lambda>step. cell r ((c + step) mod kCols) \<noteq> NoWidget) [1..<Suc kCols] of
          None \<Rightarrow> w
        | Some step \<Rightarrow> cell r ((c + step) mod kCols)))"

definition move_down :: "widget_id \<Rightarrow> widget_id" where
  "move_down w = (case find_grid_position w of
     None \<Rightarrow> w
   | Some (r, c) \<Rightarrow>
       (let nr = (r + 1) mod kRows in
        if cell nr c \<noteq> NoWidget then cell nr c else leftmost_in_row nr))"

definition move_up :: "widget_id \<Rightarrow> widget_id" where
  "move_up w = (case find_grid_position w of
     None \<Rightarrow> w
   | Some (r, c) \<Rightarrow>
       (let nr = (r + kRows - 1) mod kRows in
        if cell nr c \<noteq> NoWidget then cell nr c else leftmost_in_row nr))"

section \<open>Operations\<close>

definition enter_drill :: "widget_id \<Rightarrow> focus_controller \<Rightarrow> bool \<times> focus_controller" where
  "enter_drill w f =
     (if level f \<noteq> Widget then (False, f)
      else if w = NoWidget then (False, f)
      else if focused f \<noteq> w then (False, f)
      else (True, f\<lparr>drilled := w, level := Drill\<rparr>))"

definition exit_drill :: "focus_controller \<Rightarrow> bool \<times> focus_controller" where
  "exit_drill f =
     (if level f \<noteq> Drill then (False, f)
      else (True, f\<lparr>level := Widget, focused := drilled f, drilled := NoWidget\<rparr>))"

definition drilled_widget :: "focus_controller \<Rightarrow> widget_id" where
  "drilled_widget f = (if level f \<noteq> Drill then NoWidget else drilled f)"

definition is_widget_focused :: "widget_id \<Rightarrow> focus_controller \<Rightarrow> bool" where
  "is_widget_focused w f \<longleftrightarrow> level f = Widget \<and> focused f = w \<and> w \<noteq> NoWidget"

definition reset :: "focus_controller \<Rightarrow> focus_controller" where
  "reset f = f\<lparr>level := Dashboard, focused := NoWidget, drilled := NoWidget, back_stack := [],
     pre_modal_level := Dashboard, pre_modal_focused := NoWidget\<rparr>"

definition enter_modal :: "focus_controller \<Rightarrow> focus_controller" where
  "enter_modal f =
     (if level f = Modal then f
      else f\<lparr>pre_modal_level := level f, pre_modal_focused := focused f,
             level := Modal, focused := NoWidget\<rparr>)"

definition exit_modal :: "focus_controller \<Rightarrow> focus_controller" where
  "exit_modal f =
     (if level f \<noteq> Modal then f
      else f\<lparr>level := pre_modal_level f, focused := pre_modal_focused f\<rparr>)"

definition is_modal_open :: "focus_controller \<Rightarrow> bool" where
  "is_modal_open f \<longleftrightarrow> level f = Modal"

text \<open>The three groups of \<^verbatim>\<open>handle_key\<close>: Esc, the Tab cycle and the grid moves.\<close>

definition handle_escape :: "focus_controller \<Rightarrow> bool \<times> focus_controller" where
  "handle_escape f =
     (if level f = Drill then
        (True, f\<lparr>level := Widget, focused := drilled f, drilled := NoWidget\<rparr>)
      else if level f = Widget then (True, f\<lparr>level := Dashboard, focused := NoWidget\<rparr>)
      else (False, f))"

definition tab_after :: "widget_id \<Rightarrow> widget_id" where
  "tab_after w = (case tab_index w of
     None \<Rightarrow> hd kTabOrder
   | Some i \<Rightarrow> kTabOrder ! ((i + 1) mod length kTabOrder))"

definition tab_before :: "widget_id \<Rightarrow> widget_id" where
  "tab_before w = (case tab_index w of
     None \<Rightarrow> last kTabOrder
   | Some i \<Rightarrow> kTabOrder ! ((i + length kTabOrder - 1) mod length kTabOrder))"

definition handle_tab :: "focus_controller \<Rightarrow> bool \<times> focus_controller" where
  "handle_tab f =
     (if level f = Dashboard then (True, f\<lparr>level := Widget, focused := hd kTabOrder\<rparr>)
      else if level f = Widget then
        (True, f\<lparr>focused := tab_after (focused f)\<rparr>)
      else (False, f))"

definition handle_tab_reverse :: "focus_controller \<Rightarrow> bool \<times> focus_controller" where
  "handle_tab_reverse f =
     (if level f = Dashboard then (True, f\<lparr>level := Widget, focused := last kTabOrder\<rparr>)
      else if level f = Widget then
        (True, f\<lparr>focused := tab_before (focused f)\<rparr>)
      else (False, f))"

definition handle_key :: "event \<Rightarrow> focus_controller \<Rightarrow> bool \<times> focus_controller" where
  "handle_key e f =
     (if e = Escape then handle_escape f
      else if e = Tab then handle_tab f
      else if e = TabReverse then handle_tab_reverse f
      else if level f \<noteq> Widget then (False, f)
      else if e = Character ''h'' \<or> e = ArrowLeft then (True, f\<lparr>focused := move_left (focused f)\<rparr>)
      else if e = Character ''l'' \<or> e = ArrowRight then (True, f\<lparr>focused := move_right (focused f)\<rparr>)
      else if e = Character ''j'' \<or> e = ArrowDown then (True, f\<lparr>focused := move_down (focused f)\<rparr>)
      else if e = Character ''k'' \<or> e = ArrowUp then (True, f\<lparr>focused := move_up (focused f)\<rparr>)
      else (False, f))"

section \<open>The moves on the grid\<close>

text \<open>The tables are finite, so each resolver is evaluated at each widget once; the proofs below
  use these values only.\<close>

named_theorems grid_values

lemma move_left_values [grid_values]:
  "move_left NoWidget = NoWidget" "move_left NetWorth = CashFlow" "move_left CashFlow = NetWorth"
  "move_left RecentActivity = SyncStatus" "move_left SyncStatus = RecentActivity"
  by code_simp+

lemma move_right_values [grid_values]:
  "move_right NoWidget = NoWidget" "move_right NetWorth = CashFlow" "move_right CashFlow = NetWorth"
  "move_right RecentActivity = SyncStatus" "move_right SyncStatus = RecentActivity"
  by code_simp+

lemma move_down_values [grid_values]:
  "move_down NoWidget = NoWidget" "move_down NetWorth = RecentActivity"
  "move_down CashFlow = SyncStatus" "move_down RecentActivity = NetWorth"
  "move_down SyncStatus = CashFlow"
  by code_simp+

lemma move_up_values [grid_values]:
  "move_up NoWidget = NoWidget" "move_up NetWorth = RecentActivity" "move_up CashFlow = SyncStatus"
  "move_up RecentActivity = NetWorth" "move_up SyncStatus = CashFlow"
  by code_simp+

lemma tab_after_values [grid_values]:
  "tab_after NoWidget = NetWorth" "tab_after NetWorth = CashFlow"
  "tab_after CashFlow = RecentActivity" "tab_after RecentActivity = SyncStatus"
  "tab_after SyncStatus = NetWorth"
  by code_simp+

lemma tab_before_values [grid_values]:
  "tab_before NoWidget = SyncStatus" "tab_before NetWorth = SyncStatus"
  "tab_before CashFlow = NetWorth" "tab_before RecentActivity = CashFlow"
  "tab_before SyncStatus = RecentActivity"
  by code_simp+

lemma tab_ends [grid_values]: "hd kTabOrder = NetWorth" "last kTabOrder = SyncStatus"
  by (simp_all add: kTabOrder_def)

text \<open>A move never leaves the grid: it keeps a widget a widget.\<close>

lemma moves_stay:
  "move_left w = NoWidget \<longleftrightarrow> w = NoWidget" "move_right w = NoWidget \<longleftrightarrow> w = NoWidget"
  "move_down w = NoWidget \<longleftrightarrow> w = NoWidget" "move_up w = NoWidget \<longleftrightarrow> w = NoWidget"
  "tab_after w \<noteq> NoWidget" "tab_before w \<noteq> NoWidget"
  by (cases w; simp add: grid_values)+

section \<open>The invariant\<close>

text \<open>A widget is focused exactly at Widget and Drill level; a drill remembers the widget that has
  the focus; the stash of an open modal is itself a state a modal can be opened from.\<close>

fun stash_ok :: "focus_level \<Rightarrow> widget_id \<Rightarrow> widget_id \<Rightarrow> bool" where
  "stash_ok Dashboard foc dr \<longleftrightarrow> foc = NoWidget \<and> dr = NoWidget"
| "stash_ok Widget foc dr \<longleftrightarrow> foc \<noteq> NoWidget \<and> dr = NoWidget"
| "stash_ok Drill foc dr \<longleftrightarrow> foc \<noteq> NoWidget \<and> dr = foc"
| "stash_ok Modal foc dr \<longleftrightarrow> False"

definition focus_ok :: "focus_controller \<Rightarrow> bool" where
  "focus_ok f \<longleftrightarrow> back_stack f = [] \<and>
     (if level f = Modal then
        focused f = NoWidget \<and> stash_ok (pre_modal_level f) (pre_modal_focused f) (drilled f)
      else stash_ok (level f) (focused f) (drilled f))"

lemma focus_ok_new: "focus_ok new_controller"
  by (simp add: focus_ok_def new_controller_def)

lemma focus_ok_enter_drill: "focus_ok f \<Longrightarrow> focus_ok (snd (enter_drill w f))"
  by (cases "level f") (auto simp: focus_ok_def enter_drill_def)

lemma focus_ok_exit_drill: "focus_ok f \<Longrightarrow> focus_ok (snd (exit_drill f))"
  by (cases "level f") (auto simp: focus_ok_def exit_drill_def)

lemma focus_ok_reset: "focus_ok (reset f)"
  by (simp add: focus_ok_def reset_def)

lemma focus_ok_enter_modal: "focus_ok f \<Longrightarrow> focus_ok (enter_modal f)"
  by (cases "level f") (auto simp: focus_ok_def enter_modal_def)

lemma focus_ok_exit_modal: "focus_ok f \<Longrightarrow> focus_ok (exit_modal f)"
  by (cases "pre_modal_level f") (auto simp: focus_ok_def exit_modal_def)

lemma focus_ok_escape: "focus_ok f \<Longrightarrow> focus_ok (snd (handle_escape f))"
  by (cases "level f") (auto simp: focus_ok_def handle_escape_def)

lemma focus_ok_tab:
  "focus_ok f \<Longrightarrow> focus_ok (snd (handle_tab f))" "focus_ok f \<Longrightarrow> focus_ok (snd (handle_tab_reverse f))"
  by (cases "level f"; cases "focused f";
      simp add: focus_ok_def handle_tab_def handle_tab_reverse_def grid_values)+

lemma focus_ok_move:
  "focus_ok f \<Longrightarrow> level f = Widget \<Longrightarrow> w \<noteq> NoWidget \<Longrightarrow> focus_ok (f\<lparr>focused := w\<rparr>)"
  by (simp add: focus_ok_def)

lemma focus_ok_focused: "focus_ok f \<Longrightarrow> level f = Widget \<Longrightarrow> focused f \<noteq> NoWidget"
  by (simp add: focus_ok_def)

lemma focus_ok_handle_key: "focus_ok f \<Longrightarrow> focus_ok (snd (handle_key e f))"
  by (simp add: handle_key_def focus_ok_escape focus_ok_tab focus_ok_move focus_ok_focused moves_stay)

section \<open>Reachable controllers\<close>

text \<open>The public operations, in any order.\<close>

inductive focus_step :: "focus_controller \<Rightarrow> focus_controller \<Rightarrow> bool" where
  key: "focus_step f (snd (handle_key e f))"
| drill: "focus_step f (snd (enter_drill w f))"
| undrill: "focus_step f (snd (exit_drill f))"
| clear: "focus_step f (reset f)"
| modal: "focus_step f (enter_modal f)"
| unmodal: "focus_step f (exit_modal f)"

lemma focus_step_ok: "focus_step f g \<Longrightarrow> focus_ok f \<Longrightarrow> focus_ok g"
  by (induction rule: focus_step.induct)
     (simp_all add: focus_ok_handle_key focus_ok_enter_drill focus_ok_exit_drill focus_ok_reset
       focus_ok_enter_modal focus_ok_exit_modal)

lemma focus_reachable_ok: "focus_step\<^sup>*\<^sup>* new_controller f \<Longrightarrow> focus_ok f"
  by (induction rule: rtranclp_induct) (auto simp: focus_ok_new intro: focus_step_ok)

section \<open>Properties\<close>

lemma drill_stash: "focus_ok f \<Longrightarrow> level f = Drill \<Longrightarrow> drilled f = focused f \<and> focused f \<noteq> NoWidget"
  by (simp add: focus_ok_def)

lemma modal_roundtrip_level: "focus_ok f \<Longrightarrow> level f \<noteq> Modal \<Longrightarrow>
    level (exit_modal (enter_modal f)) = level f \<and> focused (exit_modal (enter_modal f)) = focused f \<and>
    drilled (exit_modal (enter_modal f)) = drilled f"
  by (simp add: enter_modal_def exit_modal_def)

lemma modal_ignores_keys: "level f = Modal \<Longrightarrow> handle_key e f = (False, f)"
  by (simp add: handle_key_def handle_escape_def handle_tab_def handle_tab_reverse_def)

lemma two_escapes:
  "level f \<noteq> Modal \<Longrightarrow> level (snd (handle_key Escape (snd (handle_key Escape f)))) = Dashboard"
  by (cases "level f") (simp_all add: handle_key_def handle_escape_def)

lemma escape_at_dashboard: "level f = Dashboard \<Longrightarrow> handle_key Escape f = (False, f)"
  by (simp add: handle_key_def handle_escape_def)

text \<open>Setting the focus to the widget that has it changes nothing.\<close>

lemma refocus [simp]: "focused f = w \<Longrightarrow> f\<lparr>focused := w\<rparr> = f"
  by (cases f) simp

text \<open>The focus machine of the Dashboard: in every state reachable by any sequence of its
  operations a widget has the focus exactly at Widget and Drill level, a drill is into the focused
  widget, and no modal is stacked on a modal; leaving a modal and pressing Esc twice leads back to
  the Dashboard; and opening and closing a modal restores level, focus and drill.\<close>

theorem focus_machine_sound:
  assumes "focus_step\<^sup>*\<^sup>* new_controller f"
  shows "(level f = Widget \<or> level f = Drill) = (focused f \<noteq> NoWidget) \<and>
    drilled_widget f = (if level f = Drill then focused f else NoWidget) \<and>
    level (exit_modal f) \<noteq> Modal \<and>
    level (snd (handle_key Escape (snd (handle_key Escape (exit_modal f))))) = Dashboard \<and>
    (level f = Modal \<or> (level (exit_modal (enter_modal f)) = level f \<and>
       focused (exit_modal (enter_modal f)) = focused f \<and>
       drilled (exit_modal (enter_modal f)) = drilled f))"
proof (intro conjI)
  have ok: "focus_ok f" using assms by (rule focus_reachable_ok)
  show exit: "level (exit_modal f) \<noteq> Modal"
    using ok by (cases "pre_modal_level f") (auto simp: focus_ok_def exit_modal_def)
  show "(level f = Widget \<or> level f = Drill) = (focused f \<noteq> NoWidget)"
    using ok by (cases "level f") (auto simp: focus_ok_def)
  show "drilled_widget f = (if level f = Drill then focused f else NoWidget)"
    using drill_stash [OF ok] by (simp add: drilled_widget_def)
  show "level (snd (handle_key Escape (snd (handle_key Escape (exit_modal f))))) = Dashboard"
    by (rule two_escapes) (rule exit)
  show "level f = Modal \<or> (level (exit_modal (enter_modal f)) = level f \<and>
           focused (exit_modal (enter_modal f)) = focused f \<and>
           drilled (exit_modal (enter_modal f)) = drilled f)"
    using modal_roundtrip_level [OF ok] by blast
qed

lemma drilled_reachable: "focus_step\<^sup>*\<^sup>* new_controller (snd (enter_drill NetWorth (snd (handle_key Tab new_controller))))"
  by (meson focus_step.drill focus_step.key r_into_rtranclp rtranclp.rtrancl_into_rtrancl)

theorem focus_machine_sound_witness:
  "level (exit_modal (snd (enter_drill NetWorth (snd (handle_key Tab new_controller))))) \<noteq> Modal"
  using focus_machine_sound [OF drilled_reachable] by blast

text \<open>Tab and Shift-Tab walk the four widgets in declaration order, each the inverse of the other,
  and four presses return to the start; left and right, and up and down, are inverse moves.\<close>

theorem focus_moves_invert:
  assumes "focus_ok f" and "level f = Widget"
  shows "snd (handle_key TabReverse (snd (handle_key Tab f))) = f \<and>
    snd (handle_key Tab (snd (handle_key TabReverse f))) = f \<and>
    ((\<lambda>g. snd (handle_key Tab g)) ^^ 4) f = f \<and>
    snd (handle_key ArrowRight (snd (handle_key ArrowLeft f))) = f \<and>
    snd (handle_key (Character ''k'') (snd (handle_key (Character ''j'') f))) = f"
proof (intro conjI)
  have key: "handle_key Tab g = (True, g\<lparr>focused := tab_after (focused g)\<rparr>)"
    "handle_key TabReverse g = (True, g\<lparr>focused := tab_before (focused g)\<rparr>)"
    "handle_key ArrowLeft g = (True, g\<lparr>focused := move_left (focused g)\<rparr>)"
    "handle_key ArrowRight g = (True, g\<lparr>focused := move_right (focused g)\<rparr>)"
    "handle_key (Character ''j'') g = (True, g\<lparr>focused := move_down (focused g)\<rparr>)"
    "handle_key (Character ''k'') g = (True, g\<lparr>focused := move_up (focused g)\<rparr>)"
    if "level g = Widget" for g
    using that by (simp_all add: handle_key_def handle_tab_def handle_tab_reverse_def)
  have inverse: "tab_before (tab_after w) = w" "tab_after (tab_before w) = w"
    "tab_after (tab_after (tab_after (tab_after w))) = w"
    "move_right (move_left w) = w" "move_up (move_down w) = w" if "w \<noteq> NoWidget" for w
    using that by (cases w; simp add: grid_values)+
  note focus = focus_ok_focused [OF assms] and lv = assms(2)
  show "snd (handle_key TabReverse (snd (handle_key Tab f))) = f"
    and "snd (handle_key Tab (snd (handle_key TabReverse f))) = f"
    and "snd (handle_key ArrowRight (snd (handle_key ArrowLeft f))) = f"
    and "snd (handle_key (Character ''k'') (snd (handle_key (Character ''j'') f))) = f"
    using focus lv by (simp_all add: key inverse)
  have "(4 :: nat) = Suc (Suc (Suc (Suc 0)))" by simp
  then show "((\<lambda>g. snd (handle_key Tab g)) ^^ 4) f = f"
    using focus lv by (simp only: funpow.simps o_apply id_apply) (simp add: key inverse)
qed

theorem focus_moves_invert_witness:
  "snd (handle_key TabReverse (snd (handle_key Tab (snd (handle_key Tab new_controller))))) =
     snd (handle_key Tab new_controller)"
proof -
  have "level (snd (handle_key Tab new_controller)) = Widget"
    by (simp add: handle_key_def handle_tab_def new_controller_def)
  then show ?thesis using focus_moves_invert [OF focus_ok_handle_key [OF focus_ok_new, of Tab]] by blast
qed

end
