(* ===== verification/Command_Palette.thy ===== *)
theory Command_Palette
  imports Fuzzy_Match Focus_Controller
begin

text \<open>The command table and its ranked lookup (src/src/utils/CommandRegistry.h,
  src/src/utils/CommandRegistry.cpp), the command palette that is driven by it
  (src/src/views/CommandPalette.cpp) and the help overlay (src/src/views/HelpOverlay.cpp), less what
  they render. A dispatch is returned to the caller as the identifier of the command.
  What is shown: a lookup returns the best ranked matching commands, each once and none left out
  that ranks before one returned; and in every palette reached by any keys the selected row exists,
  so Enter never reads outside the results.\<close>

section \<open>The registry\<close>

datatype command_id =
    SwitchView_Dashboard | SwitchView_Accounts | SwitchView_Transactions
  | SwitchView_Budget | SwitchEntity_Personal | SwitchEntity_Business
  | LinkPlaid | LinkPlaidTest | OpenConfig
  | Quit | DrillInto_NetWorth | DrillInto_SyncStatus
  | DrillInto_CategoryTrends | Help | Logout
  | Whoami | Refresh | Search_Transactions
  | SwitchView_Categories | SwitchView_Notes | SwitchView_Decisions
  | SwitchView_Tasks | SwitchView_Events | SwitchView_Proposals
  | SwitchView_Targets | SwitchView_Relationships | SwitchView_RealEstate
  | SwitchView_Snapshot

datatype command =
  Command (cmd_id: command_id) (cmd_name: string) (cmd_alias: string) (cmd_shortcut: string)

definition kCommands :: "command list" where
  "kCommands = [
     Command SwitchView_Dashboard ''Switch view: Dashboard'' ''dashboard'' ''Tab'',
     Command SwitchView_Accounts ''Switch view: Accounts'' ''accounts'' ''Tab'',
     Command SwitchView_Transactions ''Switch view: Transactions'' ''tx'' ''Tab'',
     Command SwitchView_Budget ''Switch view: Budget'' ''budget'' ''Tab'',
     Command SwitchEntity_Personal ''Switch entity: Personal'' ''personal'' ''1'',
     Command SwitchEntity_Business ''Switch entity: Business'' ''business'' ''2'',
     Command LinkPlaid ''Link Plaid account'' ''plaid-link'' '''',
     Command LinkPlaidTest ''Link Plaid sandbox (test)'' ''plaid-test'' '''',
     Command OpenConfig ''Open config'' ''config'' '''',
     Command Quit ''Quit (save and exit)'' ''quit'' ''q'',
     Command DrillInto_NetWorth ''Drill into: Net Worth'' ''net-worth'' '''',
     Command DrillInto_SyncStatus ''Drill into: Sync Status'' ''sync-status'' '''',
     Command DrillInto_CategoryTrends ''Drill into: Category Trends'' ''trends'' '''',
     Command Help ''Show keybindings (help)'' ''help'' ''?'',
     Command Logout ''Logout (clear session)'' ''logout'' '''',
     Command Whoami ''Show current user (whoami)'' ''whoami'' '''',
     Command Refresh ''Refresh data from backend'' ''refresh'' ''r'',
     Command Search_Transactions ''Search transactions'' ''search'' ''/'',
     Command SwitchView_Categories ''Switch view: Categories'' ''categories'' ''g c'',
     Command SwitchView_Notes ''Switch view: Notes'' ''notes'' ''g n'',
     Command SwitchView_Decisions ''Switch view: Decisions'' ''decisions'' ''g D'',
     Command SwitchView_Tasks ''Switch view: Tasks'' ''tasks'' ''g k'',
     Command SwitchView_Events ''Switch view: Events'' ''events'' ''g e'',
     Command SwitchView_Proposals ''Switch view: Proposals inbox'' ''proposals'' ''g p'',
     Command SwitchView_Targets ''Switch view: Targets'' ''targets'' ''g T'',
     Command SwitchView_Relationships ''Switch view: Relationships'' ''relationships'' ''g R'',
     Command SwitchView_RealEstate ''Switch view: Real Estate'' ''real-estate'' ''g r'',
     Command SwitchView_Snapshot ''Switch view: Snapshot (widgets)'' ''snapshot'' ''g s'']"

definition kCommandCount :: nat where "kCommandCount = 28"

lemma length_kCommands: "length kCommands = kCommandCount"
  by (simp add: kCommands_def kCommandCount_def)

text \<open>A command's score is the better one of its name and its alias; no score when neither matches.\<close>

definition command_score :: "string \<Rightarrow> command \<Rightarrow> int option" where
  "command_score q cmd =
     (case (fuzzy_match q (cmd_name cmd), fuzzy_match q (cmd_alias cmd)) of
        (None, None) \<Rightarrow> None
      | (Some s, None) \<Rightarrow> Some s
      | (None, Some s) \<Rightarrow> Some s
      | (Some s, Some t) \<Rightarrow> Some (max s t))"

definition hits :: "string \<Rightarrow> (int \<times> nat) list" where
  "hits q = concat (map (\<lambda>i. case command_score q (kCommands ! i) of
       None \<Rightarrow> [] | Some s \<Rightarrow> [(s, i)]) [0..<kCommandCount])"

text \<open>The order of the results: score descending, then index ascending. \<^verbatim>\<open>std::sort\<close> with a total
  order has one result.\<close>

definition hit_rank :: "int \<times> nat \<Rightarrow> int \<times> nat" where
  "hit_rank h = (- fst h, snd h)"

definition fuzzy_find :: "string \<Rightarrow> int \<Rightarrow> nat list" where
  "fuzzy_find q max_results =
     (if max_results \<le> 0 then []
      else if q = [] then [0..<min (nat max_results) kCommandCount]
      else map snd (take (nat max_results) (sort_key hit_rank (hits q))))"

section \<open>The lookup returns the best commands\<close>

lemma hits_mem: "(s, i) \<in> set (hits q) \<longleftrightarrow> i < kCommandCount \<and> command_score q (kCommands ! i) = Some s"
  by (auto simp: hits_def split: option.splits)

lemma hits_indices: "map snd (hits q) =
    filter (\<lambda>i. command_score q (kCommands ! i) \<noteq> None) [0..<kCommandCount]"
proof -
  have "map snd (concat (map (\<lambda>i. case command_score q (kCommands ! i) of
      None \<Rightarrow> [] | Some s \<Rightarrow> [(s, i)]) is)) = filter (\<lambda>i. command_score q (kCommands ! i) \<noteq> None) is" for "is"
    by (induction "is") (auto split: option.split)
  then show ?thesis unfolding hits_def .
qed

lemma distinct_hits: "distinct (map snd (hits q))"
  by (simp add: hits_indices)

text \<open>The commands a query matches, and the order among them.\<close>

definition matching :: "string \<Rightarrow> nat set" where
  "matching q = {i. i < kCommandCount \<and> command_score q (kCommands ! i) \<noteq> None}"

definition ranks_before :: "string \<Rightarrow> nat \<Rightarrow> nat \<Rightarrow> bool" where
  "ranks_before q i j \<longleftrightarrow>
     (let s = the (command_score q (kCommands ! i)); t = the (command_score q (kCommands ! j))
      in t < s \<or> (s = t \<and> i < j))"

lemma set_hits: "snd ` set (hits q) = matching q"
proof -
  have "set (map snd (hits q)) = matching q" unfolding hits_indices by (auto simp: matching_def)
  then show ?thesis by simp
qed

lemma hit_rank_less:
  "h \<in> set (hits q) \<Longrightarrow> k \<in> set (hits q) \<Longrightarrow> hit_rank h < hit_rank k \<longleftrightarrow> ranks_before q (snd h) (snd k)"
  by (cases h; cases k) (auto simp: hit_rank_def ranks_before_def hits_mem)

lemma inj_hit_rank: "inj_on hit_rank (set (hits q))"
  by (auto simp: hit_rank_def inj_on_def)

lemma ranking_sorted: "sorted_wrt (\<lambda>h k. hit_rank h < hit_rank k) (sort_key hit_rank (hits q))"
proof -
  have "distinct (hits q)" using distinct_hits [of q] by (simp add: distinct_map)
  then have "sorted_wrt (<) (map hit_rank (sort_key hit_rank (hits q)))"
    using inj_hit_rank by (simp add: strict_sorted_iff distinct_map)
  then show ?thesis by (simp add: sorted_wrt_map)
qed

lemma ranking_order:
  "sorted_wrt (ranks_before q) (map snd (sort_key hit_rank (hits q)))"
proof -
  have "sorted_wrt (\<lambda>h k. ranks_before q (snd h) (snd k)) (sort_key hit_rank (hits q))"
    by (rule sorted_wrt_mono_rel [OF _ ranking_sorted]) (simp add: hit_rank_less)
  then show ?thesis by (simp add: sorted_wrt_map)
qed

lemma ranking_set: "set (map snd (sort_key hit_rank (hits q))) = matching q"
  by (simp add: set_hits)

lemma fuzzy_find_ranking:
  assumes "q \<noteq> []" and "0 < n"
  shows "fuzzy_find q n = take (nat n) (map snd (sort_key hit_rank (hits q)))"
  using assms by (simp add: fuzzy_find_def take_map)

lemma sorted_wrt_take_drop:
  assumes "sorted_wrt R xs" and "x \<in> set (take n xs)" and "y \<in> set xs" and "y \<notin> set (take n xs)"
  shows "R x y"
proof -
  have "y \<in> set (drop n xs)" using assms(3,4) by (metis append_take_drop_id set_append UnE)
  then show ?thesis using assms(1,2) by (metis append_take_drop_id sorted_wrt_append)
qed

lemma card_matching: "length (hits q) = card (matching q)"
  using distinct_hits [of q] set_hits [of q] by (metis distinct_card length_map list.set_map)

text \<open>The palette's lookup returns for a query exactly the best commands it matches: at most as
  many as asked for and no fewer than there are, each once, in descending rank, and every matching
  command left out ranks after every one returned.\<close>

theorem fuzzy_find_best:
  assumes "q \<noteq> []" and "0 < n"
  shows "distinct (fuzzy_find q n) \<and> set (fuzzy_find q n) \<subseteq> matching q \<and>
    length (fuzzy_find q n) = min (nat n) (card (matching q)) \<and>
    sorted_wrt (ranks_before q) (fuzzy_find q n) \<and>
    (\<forall>i j. i \<in> set (fuzzy_find q n) \<longrightarrow> j \<in> matching q - set (fuzzy_find q n) \<longrightarrow> ranks_before q i j)"
proof (intro conjI allI impI)
  note eq = fuzzy_find_ranking [OF assms]
  have "distinct (map snd (sort_key hit_rank (hits q)))"
    using distinct_hits [of q] by (simp add: distinct_map)
  then show "distinct (fuzzy_find q n)" unfolding eq by (rule distinct_take)
  show "set (fuzzy_find q n) \<subseteq> matching q"
    unfolding eq using ranking_set [of q] set_take_subset by fast
  show "length (fuzzy_find q n) = min (nat n) (card (matching q))"
    by (simp add: eq card_matching min.commute)
  show "sorted_wrt (ranks_before q) (fuzzy_find q n)"
    unfolding eq by (rule sorted_wrt_take) (rule ranking_order)
  show "ranks_before q i j"
    if "i \<in> set (fuzzy_find q n)" "j \<in> matching q - set (fuzzy_find q n)" for i j
    using that sorted_wrt_take_drop [OF ranking_order, of i "nat n" q j] ranking_set [of q]
    unfolding eq by simp
qed

theorem fuzzy_find_best_witness:
  "distinct (fuzzy_find ''tx'' 3) \<and> length (fuzzy_find ''tx'' 3) = min (nat 3) (card (matching ''tx''))"
  using fuzzy_find_best [of "''tx''" 3] by simp

section \<open>The palette\<close>

definition kMaxVisibleResults :: int where "kMaxVisibleResults = 8"

record palette =
  is_open :: bool
  typed :: string
  selected :: nat
  results :: "nat list"
  has_dispatcher :: bool

definition new_palette :: palette where
  "new_palette = \<lparr>is_open = False, typed = [], selected = 0, results = [], has_dispatcher = False\<rparr>"

definition set_dispatcher :: "palette \<Rightarrow> palette" where
  "set_dispatcher pal = pal\<lparr>has_dispatcher := True\<rparr>"

definition recompute_results :: "palette \<Rightarrow> palette" where
  "recompute_results pal = pal\<lparr>results := fuzzy_find (typed pal) kMaxVisibleResults, selected := 0\<rparr>"

definition open_pal :: "palette \<Rightarrow> palette" where
  "open_pal pal =
     (if is_open pal then pal
      else recompute_results (pal\<lparr>is_open := True, typed := [], selected := 0\<rparr>))"

definition close_pal :: "palette \<Rightarrow> palette" where
  "close_pal pal = pal\<lparr>is_open := False, typed := [], selected := 0, results := []\<rparr>"

definition printable :: "char \<Rightarrow> bool" where
  "printable c \<longleftrightarrow> 32 \<le> (of_char c :: nat) \<and> (of_char c :: nat) \<noteq> 127"

text \<open>A key yields whether it was consumed, the command to dispatch (the palette is closed before the
  dispatcher runs) and the palette.\<close>

definition type_char :: "string \<Rightarrow> palette \<Rightarrow> palette" where
  "type_char s pal = (case s of
     [] \<Rightarrow> pal
   | c # _ \<Rightarrow> if printable c then recompute_results (pal\<lparr>typed := typed pal @ [c]\<rparr>) else pal)"

definition palette_key :: "event \<Rightarrow> palette \<Rightarrow> bool \<times> command_id option \<times> palette" where
  "palette_key e pal =
     (if \<not> is_open pal then (False, None, pal)
      else case e of
        Escape \<Rightarrow> (True, None, close_pal pal)
      | Return \<Rightarrow>
          if results pal \<noteq> [] \<and> has_dispatcher pal
          then (True, Some (cmd_id (kCommands ! (results pal ! selected pal))), close_pal pal)
          else (True, None, close_pal pal)
      | ArrowDown \<Rightarrow>
          (True, None, if results pal \<noteq> []
             then pal\<lparr>selected := (selected pal + 1) mod length (results pal)\<rparr> else pal)
      | ArrowUp \<Rightarrow>
          (True, None, if results pal \<noteq> []
             then pal\<lparr>selected := (selected pal + length (results pal) - 1) mod length (results pal)\<rparr>
             else pal)
      | Backspace \<Rightarrow>
          (True, None, if typed pal \<noteq> []
             then recompute_results (pal\<lparr>typed := butlast (typed pal)\<rparr>) else pal)
      | Character s \<Rightarrow> (True, None, type_char s pal)
      | _ \<Rightarrow> (False, None, pal))"

text \<open>The help overlay is one flag; while open it consumes every key, and Esc closes it.\<close>

definition help_key :: "event \<Rightarrow> bool \<Rightarrow> bool \<times> bool" where
  "help_key e help = (if \<not> help then (False, help) else if e = Escape then (True, False) else (True, help))"

section \<open>The invariant of the palette\<close>

definition palette_ok :: "palette \<Rightarrow> bool" where
  "palette_ok pal \<longleftrightarrow>
     (if is_open pal
      then results pal = fuzzy_find (typed pal) kMaxVisibleResults \<and>
        (results pal = [] \<and> selected pal = 0 \<or> selected pal < length (results pal))
      else typed pal = [] \<and> results pal = [] \<and> selected pal = 0)"

lemma palette_ok_recompute: "is_open pal \<Longrightarrow> palette_ok (recompute_results pal)"
  by (auto simp: palette_ok_def recompute_results_def)

lemma palette_ok_open: "palette_ok pal \<Longrightarrow> palette_ok (open_pal pal)"
  by (simp add: open_pal_def palette_ok_recompute)

lemma palette_ok_close: "palette_ok (close_pal pal)"
  by (simp add: palette_ok_def close_pal_def)

lemma palette_ok_type: "palette_ok pal \<Longrightarrow> is_open pal \<Longrightarrow> palette_ok (type_char s pal)"
  by (auto simp: type_char_def palette_ok_recompute split: list.split)

lemma palette_ok_select:
  "palette_ok pal \<Longrightarrow> is_open pal \<Longrightarrow> results pal \<noteq> [] \<Longrightarrow>
     palette_ok (pal\<lparr>selected := k mod length (results pal)\<rparr>)"
  by (simp add: palette_ok_def)

lemma palette_ok_key: "palette_ok pal \<Longrightarrow> palette_ok (snd (snd (palette_key e pal)))"
  by (cases e) (simp_all add: palette_key_def palette_ok_close palette_ok_type palette_ok_select
      palette_ok_recompute)

lemma palette_ok_wire: "palette_ok pal \<Longrightarrow> palette_ok (set_dispatcher pal)"
  by (auto simp: palette_ok_def set_dispatcher_def split: if_splits)

lemma palette_ok_new: "palette_ok new_palette"
  by (simp add: palette_ok_def new_palette_def)

inductive palette_step :: "palette \<Rightarrow> palette \<Rightarrow> bool" where
  key: "palette_step pal (snd (snd (palette_key e pal)))"
| opened: "palette_step pal (open_pal pal)"
| closed: "palette_step pal (close_pal pal)"
| wired: "palette_step pal (set_dispatcher pal)"

lemma palette_step_ok: "palette_step pal pal' \<Longrightarrow> palette_ok pal \<Longrightarrow> palette_ok pal'"
  by (induction rule: palette_step.induct)
     (auto simp: palette_ok_key palette_ok_open palette_ok_close palette_ok_wire)

lemma palette_reachable_ok: "palette_step\<^sup>*\<^sup>* new_palette pal \<Longrightarrow> palette_ok pal"
  by (induction rule: rtranclp_induct)
     (auto simp: palette_ok_new intro: palette_step_ok)

text \<open>Every index the lookup returns names a command.\<close>

lemma fuzzy_find_bounded: "i \<in> set (fuzzy_find q n) \<Longrightarrow> i < kCommandCount"
  using set_hits [of q] set_take_subset [of "nat n" "sort_key hit_rank (hits q)"]
  by (fastforce simp: fuzzy_find_def matching_def split: if_splits)

text \<open>Whatever keys led to it, the palette never reads outside its results or outside the command
  table, and Enter dispatches the selected one of the best commands for the text typed.\<close>

theorem palette_selects_result:
  assumes "palette_step\<^sup>*\<^sup>* new_palette pal" and "fst (snd (palette_key e pal)) = Some c"
  shows "selected pal < length (fuzzy_find (typed pal) 8) \<and>
    fuzzy_find (typed pal) 8 ! selected pal < length kCommands \<and>
    c = cmd_id (kCommands ! (fuzzy_find (typed pal) 8 ! selected pal))"
proof (intro conjI)
  have ok: "palette_ok pal" using assms(1) by (rule palette_reachable_ok)
  have "is_open pal" "e = Return" "results pal \<noteq> []"
    and c: "c = cmd_id (kCommands ! (results pal ! selected pal))"
    using assms(2) by (auto simp: palette_key_def split: event.splits if_splits)
  then have res: "results pal = fuzzy_find (typed pal) 8" and sel: "selected pal < length (results pal)"
    using ok by (auto simp: palette_ok_def kMaxVisibleResults_def)
  show "selected pal < length (fuzzy_find (typed pal) 8)" using res sel by simp
  then have "fuzzy_find (typed pal) 8 ! selected pal \<in> set (fuzzy_find (typed pal) 8)" by simp
  then show "fuzzy_find (typed pal) 8 ! selected pal < length kCommands"
    unfolding length_kCommands by (rule fuzzy_find_bounded)
  show "c = cmd_id (kCommands ! (fuzzy_find (typed pal) 8 ! selected pal))" using c res by simp
qed

lemma open_dispatching: "palette_step\<^sup>*\<^sup>* new_palette (open_pal (set_dispatcher new_palette))"
  by (meson palette_step.opened palette_step.wired r_into_rtranclp rtranclp.rtrancl_into_rtrancl)

theorem palette_selects_result_witness:
  "fuzzy_find (typed (open_pal (set_dispatcher new_palette))) 8 !
     selected (open_pal (set_dispatcher new_palette)) < length kCommands"
  by (rule palette_selects_result [OF open_dispatching, where e = Return, THEN conjunct2, THEN conjunct1])
     (simp add: palette_key_def open_pal_def set_dispatcher_def new_palette_def recompute_results_def
        fuzzy_find_def kMaxVisibleResults_def kCommandCount_def)

end
