(* ===== verification/Config_Manager.thy ===== *)
theory Config_Manager
  imports Plaid_Client
begin

text \<open>The client's configuration (src/src/utils/ConfigManager.cpp): four environment variables, then the
  lines of a \<open>.env\<close> file, later lines over earlier ones and over the environment; the Plaid settings fall
  back to the environment as it is when they are asked for.
  What is shown: what a file of \<open>key=value\<close> lines sets, and that nothing else is changed.\<close>

section \<open>Lines\<close>

text \<open>\<open>std::getline\<close> until it fails: a last line without a newline counts, nothing after a final one does.\<close>

function getlines :: "string \<Rightarrow> string list" where
  "getlines s = (if s = [] then []
     else takeWhile (\<lambda>c. c \<noteq> CHR 0x0A) s # getlines (drop 1 (dropWhile (\<lambda>c. c \<noteq> CHR 0x0A) s)))"
  by auto

termination
proof (relation "measure length")
  fix s :: string
  assume "s \<noteq> []"
  moreover have "length (dropWhile (\<lambda>c. c \<noteq> CHR 0x0A) s) \<le> length s" by (rule length_dropWhile_le)
  ultimately show "(drop 1 (dropWhile (\<lambda>c. c \<noteq> CHR 0x0A) s), s) \<in> measure length" by (cases s) auto
qed simp

declare getlines.simps [simp del]

definition strip_line_end :: "string \<Rightarrow> string" where
  "strip_line_end v = rev (dropWhile (\<lambda>c. c = CHR 0x0D \<or> c = CHR 0x0A) (rev v))"

definition unquote :: "string \<Rightarrow> string" where
  "unquote v = (if v \<noteq> [] \<and> hd v = CHR 0x22 \<and> last v = CHR 0x22 then take (length v - 2) (drop 1 v) else v)"

text \<open>The key and the value of a line; comments, empty lines and lines without \<open>=\<close> have none.\<close>

definition config_line :: "string \<Rightarrow> (string \<times> string) option" where
  "config_line line =
     (if line = [] \<or> hd line = CHR ''#'' then None
      else if CHR ''='' \<notin> set line then None
      else Some (takeWhile (\<lambda>c. c \<noteq> CHR ''='') line,
                 unquote (strip_line_end (drop 1 (dropWhile (\<lambda>c. c \<noteq> CHR ''='') line)))))"

section \<open>Loading\<close>

record config =
  cf_map :: "string \<Rightarrow> string option"
  cf_path :: string
  cf_configured :: bool

definition set_config :: "string \<times> string \<Rightarrow> config \<Rightarrow> config" where
  "set_config kv cf = (let cf1 = cf\<lparr>cf_map := (cf_map cf)(fst kv := Some (snd kv))\<rparr>
     in if fst kv = ''STORAGE_PATH'' then cf1\<lparr>cf_path := snd kv\<rparr> else cf1)"

definition env_vars :: "string list" where
  "env_vars = [''PLAID_CLIENT_ID'', ''PLAID_SECRET'', ''PLAID_ENVIRONMENT'', ''STORAGE_PATH'']"

definition load_from_environment :: "(string \<Rightarrow> string option) \<Rightarrow> config \<Rightarrow> bool \<times> config" where
  "load_from_environment getenv cf =
     (let found = filter (\<lambda>v. getenv v \<noteq> None) env_vars
      in (found \<noteq> [], fold (\<lambda>v. set_config (v, the (getenv v))) found cf))"

definition load_env_file :: "(string \<Rightarrow> string option) \<Rightarrow> string option \<Rightarrow> config \<Rightarrow> bool \<times> config" where
  "load_env_file getenv file cf =
     (let cf1 = snd (load_from_environment getenv (cf\<lparr>cf_map := Map.empty, cf_path := ''data.json''\<rparr>)) in
      case file of
        None \<Rightarrow> (let b = cf_map cf1 \<noteq> Map.empty in (b, cf1\<lparr>cf_configured := b\<rparr>))
      | Some bytes \<Rightarrow>
          (True, (fold set_config (List.map_filter config_line (getlines bytes)) cf1)\<lparr>cf_configured := True\<rparr>))"

section \<open>Reading\<close>

definition get_config :: "config \<Rightarrow> string \<Rightarrow> string option" where
  "get_config cf key = cf_map cf key"

definition get_plaid_setting :: "(string \<Rightarrow> string option) \<Rightarrow> config \<Rightarrow> string \<Rightarrow> string option" where
  "get_plaid_setting getenv cf key = (case cf_map cf key of Some v \<Rightarrow> Some v | None \<Rightarrow> getenv key)"

definition get_plaid_client_id :: "(string \<Rightarrow> string option) \<Rightarrow> config \<Rightarrow> string option" where
  "get_plaid_client_id getenv cf = get_plaid_setting getenv cf ''PLAID_CLIENT_ID''"

definition get_plaid_secret :: "(string \<Rightarrow> string option) \<Rightarrow> config \<Rightarrow> string option" where
  "get_plaid_secret getenv cf = get_plaid_setting getenv cf ''PLAID_SECRET''"

definition get_plaid_environment :: "(string \<Rightarrow> string option) \<Rightarrow> config \<Rightarrow> string option" where
  "get_plaid_environment getenv cf = get_plaid_setting getenv cf ''PLAID_ENVIRONMENT''"

definition has_plaid_credentials :: "(string \<Rightarrow> string option) \<Rightarrow> config \<Rightarrow> bool" where
  "has_plaid_credentials getenv cf \<longleftrightarrow> get_plaid_client_id getenv cf \<noteq> None \<and> get_plaid_secret getenv cf \<noteq> None"

definition get_storage_path :: "config \<Rightarrow> string" where
  "get_storage_path cf = (if cf_path cf = [] then ''data.json'' else cf_path cf)"

section \<open>What a file sets\<close>

text \<open>A file written as one line per entry, each ended by a newline.\<close>

definition entry_line :: "string \<times> string \<Rightarrow> string" where
  "entry_line kv = fst kv @ CHR ''='' # snd kv"

definition plain_entry :: "string \<times> string \<Rightarrow> bool" where
  "plain_entry kv \<longleftrightarrow> (fst kv = [] \<or> hd (fst kv) \<noteq> CHR ''#'') \<and> CHR ''='' \<notin> set (fst kv) \<and>
     CHR 0x0A \<notin> set (fst kv) \<and> CHR 0x0A \<notin> set (snd kv) \<and> CHR 0x0D \<notin> set (snd kv) \<and> CHR 0x22 \<notin> set (snd kv)"

lemma getlines_line:
  assumes "CHR 0x0A \<notin> set line"
  shows "getlines (line @ CHR 0x0A # rest) = line # getlines rest"
proof -
  have "takeWhile (\<lambda>c. c \<noteq> CHR 0x0A) (line @ CHR 0x0A # rest) = line"
    "dropWhile (\<lambda>c. c \<noteq> CHR 0x0A) (line @ CHR 0x0A # rest) = CHR 0x0A # rest"
    using assms by (auto simp: takeWhile_tail dropWhile_append3 takeWhile_append dropWhile_append)
  then show ?thesis by (subst getlines.simps) simp
qed

lemma getlines_lines:
  "(\<forall>line \<in> set ls. CHR 0x0A \<notin> set line) \<Longrightarrow> getlines (concat (map (\<lambda>l. l @ [CHR 0x0A]) ls)) = ls"
  by (induction ls) (simp_all add: getlines_line, simp add: getlines.simps)

lemma strip_plain: "CHR 0x0A \<notin> set v \<Longrightarrow> CHR 0x0D \<notin> set v \<Longrightarrow> strip_line_end v = v"
  by (cases v rule: rev_cases) (auto simp: strip_line_end_def)

lemma unquote_plain: "CHR 0x22 \<notin> set v \<Longrightarrow> unquote v = v"
  by (cases v) (auto simp: unquote_def)

lemma config_line_entry:
  assumes "plain_entry kv" shows "config_line (entry_line kv) = Some kv"
proof -
  have "takeWhile (\<lambda>c. c \<noteq> CHR ''='') (entry_line kv) = fst kv"
    "dropWhile (\<lambda>c. c \<noteq> CHR ''='') (entry_line kv) = CHR ''='' # snd kv"
    using assms by (auto simp: entry_line_def plain_entry_def takeWhile_append dropWhile_append)
  moreover have "entry_line kv \<noteq> []" "CHR ''='' \<in> set (entry_line kv)" by (auto simp: entry_line_def)
  moreover have "hd (entry_line kv) \<noteq> CHR ''#''"
    using assms by (cases "fst kv") (auto simp: entry_line_def plain_entry_def)
  ultimately show ?thesis
    using assms by (simp add: config_line_def plain_entry_def strip_plain unquote_plain)
qed

lemma fold_set_config:
  "cf_map (fold set_config kvs cf) = cf_map cf ++ map_of (rev kvs)"
  by (induction kvs arbitrary: cf) (auto simp: set_config_def Let_def map_add_def fun_eq_iff split: option.split)

text \<open>A file of plain entries sets exactly its keys, the last line of a key counting, over what the
  environment gives for the four variables the client looks at; every other key stays unset.\<close>

theorem env_file_over_environment:
  assumes "list_all plain_entry kvs"
  shows "get_config (snd (load_env_file getenv (Some (concat (map (\<lambda>kv. entry_line kv @ [CHR 0x0A]) kvs))) cf)) key =
    (case map_of (rev kvs) key of Some v \<Rightarrow> Some v
     | None \<Rightarrow> if key \<in> set env_vars then getenv key else None)"
proof -
  have "getlines (concat (map (\<lambda>kv. entry_line kv @ [CHR 0x0A]) kvs)) = map entry_line kvs"
    using getlines_lines [of "map entry_line kvs"] assms
    by (force simp: comp_def list_all_iff plain_entry_def entry_line_def)
  moreover have "List.map_filter config_line (map entry_line kvs) = kvs"
    using assms by (induction kvs) (simp_all add: map_filter_simps config_line_entry)
  moreover have environment: "cf_map (snd (load_from_environment getenv (cf\<lparr>cf_map := Map.empty, cf_path := ''data.json''\<rparr>))) key =
      (if key \<in> set env_vars then getenv key else None)"
    by (auto simp: load_from_environment_def env_vars_def set_config_def Let_def)
  ultimately show ?thesis
    by (simp add: load_env_file_def get_config_def fold_set_config map_add_def Let_def split: option.split)
qed

theorem env_file_over_environment_witness:
  "get_config (snd (load_env_file (\<lambda>_. Some ''x'') (Some (''PLAID_SECRET=s'' @ [CHR 0x0A] @ ''PLAID_SECRET=t'' @ [CHR 0x0A]))
     \<lparr>cf_map = Map.empty, cf_path = [], cf_configured = False\<rparr>)) ''PLAID_SECRET'' = Some ''t''"
proof -
  have "list_all plain_entry [(''PLAID_SECRET'', ''s''), (''PLAID_SECRET'', ''t'')]"
    by (simp add: plain_entry_def)
  from env_file_over_environment [OF this, of "\<lambda>_. Some ''x''"
      "\<lparr>cf_map = Map.empty, cf_path = [], cf_configured = False\<rparr>" "''PLAID_SECRET''"]
  show ?thesis by (simp add: entry_line_def)
qed

end
