(* ===== verification/Number_Format.thy ===== *)
theory Number_Format
  imports Client_Models Civil_Date
begin

text \<open>How the client prints amounts and percentages: a stream with \<^verbatim>\<open>std::fixed\<close> and a precision, which
  rounds the exact value of the double half to even, and \<^verbatim>\<open>std::round\<close>, halves away from zero. The sign of a zero is
  not modelled: a negative zero prints as zero.\<close>

definition fixed_text :: "nat \<Rightarrow> rat \<Rightarrow> string" where
  "fixed_text p q =
     (let n = nat (round_even (\<bar>q\<bar> * 10 ^ p)) in
      (if q < 0 then ''-'' else []) @ nat_to_string (n div 10 ^ p) @
      (if p = 0 then [] else CHR ''.'' # zero_pad p (n mod 10 ^ p)))"

definition d_round :: "rat \<Rightarrow> int" where
  "d_round = llround"

text \<open>A dollar amount as the views write it: the sign before the dollar.\<close>

definition dollars :: "nat \<Rightarrow> rat \<Rightarrow> string" where
  "dollars p v = (if v < 0 then ''-$'' @ fixed_text p (- v) else ''$'' @ fixed_text p v)"

text \<open>Padding of table columns.\<close>

definition pad_right :: "nat \<Rightarrow> string \<Rightarrow> string" where
  "pad_right width s = (if width \<le> length s then s else s @ replicate (width - length s) (CHR '' ''))"

lemma length_pad_right: "length (pad_right w s) = max w (length s)"
  by (simp add: pad_right_def)

end
