(* ===== verification/View_Elements.thy ===== *)
theory View_Elements
  imports Data_Store Number_Format
begin

text \<open>What the client's views return (src/src/views/ViewCommon.h): the terms built from the constructors of the
  terminal library, not what the library draws. A decoration is the term it is applied to, tagged; the
  colours are the palette's names. Characters outside ASCII are their UTF-8 bytes.
  The lemmas are about the texts of a term, in the order they are written.\<close>

section \<open>Terms\<close>

datatype colour =
    FocusColour | FgDefault | FgDim | FgEmphasized | AccentPositive | AccentNegative | AccentWarning
  | AccentInfo | ThesisUp | LedBlue | LedBlueDim | PlainGreen | PlainRed | Black

datatype decoration =
    Bold | Dim | Blink | Flex | Center | Border | BorderRounded | Coloured colour | Background colour | Width nat

datatype element =
    Txt string
  | Paragraph string
  | HBox "element list"
  | VBox "element list"
  | DBox "element list"
  | Sep
  | Filler
  | Gauge rat
  | Deco decoration element

definition styled :: "decoration list \<Rightarrow> element \<Rightarrow> element" where
  "styled ds e = foldl (\<lambda>e d. Deco d e) e ds"

lemma styled_simps [simp]: "styled [] e = e" "styled (d # ds) e = styled ds (Deco d e)"
  by (simp_all add: styled_def)

text \<open>The texts of a term, left to right and top to bottom.\<close>

fun texts :: "element \<Rightarrow> string list" where
  "texts (Txt s) = [s]"
| "texts (Paragraph s) = [s]"
| "texts (HBox es) = concat (map texts es)"
| "texts (VBox es) = concat (map texts es)"
| "texts (DBox es) = concat (map texts es)"
| "texts (Deco d e) = texts e"
| "texts _ = []"

lemma texts_styled [simp]: "texts (styled ds e) = texts e"
  by (induction ds arbitrary: e) simp_all

section \<open>Glyphs\<close>

definition em_dash :: string where "em_dash = [CHR 0xE2, CHR 0x80, CHR 0x94]"
definition middle_dot :: string where "middle_dot = [CHR 0xC2, CHR 0xB7]"
definition dot :: string where "dot = '' '' @ middle_dot @ '' ''"
definition light_rule :: string where "light_rule = [CHR 0xE2, CHR 0x94, CHR 0x80]"
definition branch :: string where "branch = [CHR 0xE2, CHR 0x94, CHR 0x9C] @ light_rule @ light_rule @ '' ''"
definition last_branch :: string where "last_branch = [CHR 0xE2, CHR 0x95, CHR 0xB0] @ light_rule @ light_rule @ '' ''"
definition trunk :: string where "trunk = [CHR 0xE2, CHR 0x94, CHR 0x82]"
definition block_glyph :: "nat \<Rightarrow> string" where "block_glyph n = [CHR 0xE2, CHR 0x96, char_of (0x80 + n)]"

section \<open>Amounts\<close>

definition format_currency :: "rat \<Rightarrow> string" where
  "format_currency = dollars 2"

definition decorate_amount :: "rat \<Rightarrow> element" where
  "decorate_amount v = styled [Coloured (if v \<ge> 0 then PlainGreen else PlainRed), Bold] (Txt (format_currency v))"

definition blue_dim :: "string \<Rightarrow> element" where
  "blue_dim s = styled [Coloured LedBlueDim] (Txt s)"

definition blue_bold :: "string \<Rightarrow> element" where
  "blue_bold s = styled [Bold, Coloured LedBlue] (Txt s)"

text \<open>A count with its noun.\<close>

definition plural :: "nat \<Rightarrow> string \<Rightarrow> string" where
  "plural n noun = nat_to_string n @ '' '' @ noun @ (if n = 1 then [] else ''s'')"

lemma texts_amount [simp]: "texts (decorate_amount v) = [format_currency v]"
  by (simp add: decorate_amount_def)

lemma texts_blue [simp]: "texts (blue_dim s) = [s]" "texts (blue_bold s) = [s]"
  by (simp_all add: blue_dim_def blue_bold_def)

end
