(* ===== verification/Client_App.thy ===== *)
theory Client_App
  imports Command_Palette Remote_Storage Plaid_Service Config_Manager View_Elements
begin

text \<open>The client's application object (src/src/main.cpp, \<open>App\<close>): the data store with its services, the
  views' selections, the focus controller, the palette and the help overlay, the commands of the palette,
  the typed verbs and the keys. All services act on one world; an uncaught exception, and reading past the
  end of the list of entities, leave the handler as \<open>Inl\<close>. Drawing is not modelled, but for which view is
  drawn and under which name. The characters that are not ASCII are their UTF-8 bytes.
  What is shown: the invariant of the reachable states, what the keys do, and when the index of the entity
  leaves the list.\<close>

section \<open>State\<close>

text \<open>The services of the container; without a backend the Plaid service is the stub.\<close>

record 'w services =
  sv_storage :: "'w storage_service option"
  sv_backend :: "'w backend option"
  sv_secrets :: "'w secrets option"
  sv_launcher :: launcher
  sv_config :: config

record view_state =
  vs_dashboard :: string
  vs_accounts :: string
  vs_tx_entity :: string
  vs_tx_account :: string
  vs_budget :: string
  vs_categories :: string
  vs_sel_accounts :: int
  vs_sel_tx :: int
  vs_sel_budget :: int

record graph_view =
  gv_depth :: int
  gv_decisions :: "nat \<times> string list"
  gv_relationships :: "nat \<times> string list"
  gv_targets :: "nat \<times> string list"

record decision_view =
  dv_id :: string
  dv_title :: string
  dv_body :: string
  dv_deciders :: string
  dv_status :: string
  dv_scope :: string
  dv_source :: string
  dv_outcome :: string
  dv_decided_at :: string

record relationship_view =
  rv_name :: string
  rv_role :: string
  rv_kind :: string
  rv_cadence :: string
  rv_working_on :: string
  rv_last_conversation :: string
  rv_last_text :: string

record 'w app =
  ap_store :: data_store
  ap_world :: 'w
  ap_plaid :: plaid_state
  ap_views :: view_state
  ap_graph :: graph_view
  ap_ask :: "string option"
  ap_decision :: "decision_view option"
  ap_relationship :: "relationship_view option"
  ap_last_ask :: string
  ap_last_open :: string
  ap_last_graph :: string
  ap_entity :: nat
  ap_tab :: nat
  ap_status :: string
  ap_g_pending :: bool
  ap_focus :: focus_controller
  ap_palette :: palette
  ap_help :: bool
  ap_exited :: bool

type_synonym ('a, 'w) act = "'w app \<Rightarrow> (string + 'a) \<times> 'w app"

definition set_depth :: "int \<Rightarrow> graph_view \<Rightarrow> graph_view" where
  "set_depth d g = g\<lparr>gv_depth := (if d < 1 then 1 else if d > 5 then 5 else d)\<rparr>"

text \<open>A view by its number, with the focus at its start.\<close>

definition goto :: "nat \<Rightarrow> 'w app \<Rightarrow> 'w app" where
  "goto tab a = a\<lparr>ap_tab := tab, ap_focus := reset (ap_focus a)\<rparr>"

definition say :: "string \<Rightarrow> 'w app \<Rightarrow> 'w app" where
  "say s a = a\<lparr>ap_status := s\<rparr>"

section \<open>Entities and saving\<close>

definition out_of_range :: string where
  "out_of_range = ''entities[current_entity] out of range''"

text \<open>The transactions view keeps its account when the entity has none.\<close>

definition show_entity :: "string \<Rightarrow> data_store \<Rightarrow> view_state \<Rightarrow> view_state" where
  "show_entity i d v = (let v1 = v\<lparr>vs_dashboard := i, vs_accounts := i, vs_tx_entity := i, vs_budget := i, vs_categories := i\<rparr>
     in case get_accounts_for_entity i d of
          [] \<Rightarrow> v1
        | acc # _ \<Rightarrow> v1\<lparr>vs_tx_account := a_id acc\<rparr>)"

definition update_views_for_entity :: "(unit, 'w) act" where
  "update_views_for_entity a =
     (let es = ds_entities (ap_store a) in
      if es = [] then (Inr (), a)
      else if ap_entity a \<ge> length es then (Inl out_of_range, a)
      else (Inr (), a\<lparr>ap_views := show_entity (e_id (es ! ap_entity a)) (ap_store a) (ap_views a)\<rparr>))"

definition save_app :: "'w services \<Rightarrow> 'w app \<Rightarrow> 'w app" where
  "save_app S a = (case store_save (sv_storage S) (ap_store a) (ap_world a) of
     (_, d, w) \<Rightarrow> a\<lparr>ap_store := d, ap_world := w\<rparr>)"

section \<open>Asking the server\<close>

definition user_email :: "'w services \<Rightarrow> string" where
  "user_email S = (case la_getenv (sv_launcher S) ''TF_USER_EMAIL'' of None \<Rightarrow> [] | Some e \<Rightarrow> e)"

definition cached_session :: "'w services \<Rightarrow> 'w app \<Rightarrow> string option" where
  "cached_session S a = (case sv_secrets S of
     None \<Rightarrow> None
   | Some k \<Rightarrow> map_option (map char_of_byte) (sec_get k (''tf-session-'' @ user_email S) (ap_world a)))"

text \<open>The rows of a list that have the member, and how many rows there are.\<close>

definition names_of :: "string \<Rightarrow> json \<Rightarrow> nat \<times> string list" where
  "names_of key j = (case json_at j ''items'' of
     Some (JArr vs) \<Rightarrow> (length vs, List.map_filter (\<lambda>v. opt_string v key) vs)
   | _ \<Rightarrow> (0, []))"

definition fetch_names :: "'w backend \<Rightarrow> string \<Rightarrow> string \<Rightarrow> string \<Rightarrow> 'w \<Rightarrow> (nat \<times> string list) \<times> 'w" where
  "fetch_names C tok path key w = (case backend_get C path (Some tok) w of
     (Inl _, w1) \<Rightarrow> ((0, []), w1)
   | (Inr j, w1) \<Rightarrow> (names_of key j, w1))"

definition refresh_graph_counts :: "'w services \<Rightarrow> 'w app \<Rightarrow> 'w app" where
  "refresh_graph_counts S a = (case (sv_backend S, cached_session S a) of
     (Some C, Some tok) \<Rightarrow>
       (let (ds, w1) = fetch_names C tok ''/decisions'' ''title'' (ap_world a);
            (rs, w2) = fetch_names C tok ''/relationships'' ''display_name'' w1;
            (ts, w3) = fetch_names C tok ''/targets'' ''name'' w2
        in a\<lparr>ap_world := w3, ap_graph := (ap_graph a)\<lparr>gv_decisions := ds, gv_relationships := rs, gv_targets := ts\<rparr>\<rparr>)
   | _ \<Rightarrow> a)"

definition hex_upper :: "nat \<Rightarrow> char" where
  "hex_upper n = ''0123456789ABCDEF'' ! n"

definition app_url_encode :: "string \<Rightarrow> string" where
  "app_url_encode s = concat (map (\<lambda>c.
     if is_alnum c \<or> c = CHR ''-'' \<or> c = CHR ''_'' \<or> c = CHR ''.'' \<or> c = CHR ''~'' then [c]
     else [CHR ''%'', hex_upper (of_char c div 16), hex_upper (of_char c mod 16)]) s)"

text \<open>\<open>gmtime_r\<close> into a zeroed \<open>tm\<close>, then \<open>strftime\<close> with \<open>%Y-%m-%d\<close>; a year of ten digits, which does
  not fit the buffer, is not modelled apart.\<close>

definition strftime_date :: "int \<Rightarrow> string" where
  "strftime_date ts =
     (let t = (case gmtime ts of None \<Rightarrow> \<lparr>tm_year = 0, tm_mon = 0, tm_mday = 0\<rparr> | Some t \<Rightarrow> t)
      in int_to_string (tm_year t + 1900) @ ''-'' @ printf_0d 2 (tm_mon t + 1) @ ''-'' @ printf_0d 2 (tm_mday t))"

definition date_member :: "json \<Rightarrow> string \<Rightarrow> string \<Rightarrow> string" where
  "date_member j k fallback = (case opt_int64 j k of None \<Rightarrow> fallback | Some ts \<Rightarrow> strftime_date ts)"

definition read_decision :: "string \<Rightarrow> json \<Rightarrow> string + decision_view" where
  "read_decision i j =
     bind_sum (value_or as_string j ''id'' []) (\<lambda>i'.
     bind_sum (value_or as_string j ''title'' i) (\<lambda>ti.
     bind_sum (value_or as_string j ''body_md'' []) (\<lambda>bo.
     bind_sum (value_or as_string j ''decided_by_user_id'' em_dash) (\<lambda>de.
     bind_sum (value_or as_string j ''status'' []) (\<lambda>st.
     bind_sum (value_or as_string j ''entity_scope'' []) (\<lambda>sc.
     bind_sum (value_or as_string j ''source_note_id'' []) (\<lambda>src.
     bind_sum (value_or as_string j ''outcome'' ''not yet logged'') (\<lambda>ou.
     Inr \<lparr>dv_id = i', dv_title = ti, dv_body = bo, dv_deciders = de, dv_status = st, dv_scope = sc,
          dv_source = (if src = [] then ''(ingested via SQL seed)'' else src), dv_outcome = ou,
          dv_decided_at = date_member j ''decided_at_unix'' []\<rparr>))))))))"

definition read_target :: "string \<Rightarrow> json \<Rightarrow> string + relationship_view" where
  "read_target i j =
     bind_sum (value_or as_string j ''name'' i) (\<lambda>n.
     bind_sum (value_or as_string j ''stage'' ''lead'') (\<lambda>st.
     bind_sum (value_or as_string j ''thesis_md'' em_dash) (\<lambda>th.
     Inr \<lparr>rv_name = n, rv_role = ''target '' @ middle_dot @ '' stage: '' @ st, rv_kind = ''pcc pipeline'',
          rv_cadence = em_dash, rv_working_on = th, rv_last_conversation = em_dash, rv_last_text = em_dash\<rparr>)))"

definition read_relationship :: "string \<Rightarrow> json \<Rightarrow> string + relationship_view" where
  "read_relationship i j =
     bind_sum (value_or as_string j ''display_name'' i) (\<lambda>n.
     bind_sum (value_or as_string j ''notes_md'' ''(no role recorded)'') (\<lambda>ro.
     bind_sum (value_or as_string j ''kind'' []) (\<lambda>ki.
     Inr \<lparr>rv_name = n, rv_role = ro, rv_kind = ki, rv_cadence = em_dash, rv_working_on = em_dash,
          rv_last_conversation = date_member j ''last_contact_unix'' em_dash, rv_last_text = em_dash\<rparr>)))"

text \<open>One object asked for, read and shown; an error of the request becomes the status line, an exception
  of the reader leaves the handler.\<close>

definition open_object ::
    "'w backend \<Rightarrow> string \<Rightarrow> string \<Rightarrow> string \<Rightarrow> (json \<Rightarrow> string + 'v) \<Rightarrow> ('v \<Rightarrow> 'w app \<Rightarrow> 'w app) \<Rightarrow> nat \<Rightarrow> (unit, 'w) act" where
  "open_object C tok path who read put tab a =
     (case backend_get C path (Some tok) (ap_world a) of
        (Inl e, w1) \<Rightarrow> (Inr (), say (who @ '': '' @ be_message e) (a\<lparr>ap_world := w1\<rparr>))
      | (Inr j, w1) \<Rightarrow>
          (case read j of
             Inl what \<Rightarrow> (Inl what, a\<lparr>ap_world := w1\<rparr>)
           | Inr v \<Rightarrow> (Inr (), goto tab (put v (a\<lparr>ap_world := w1\<rparr>)))))"

definition put_relationship :: "relationship_view \<Rightarrow> 'w app \<Rightarrow> 'w app" where
  "put_relationship r a = a\<lparr>ap_relationship := Some r\<rparr>"

text \<open>The text before the first space, and after it.\<close>

definition split_space :: "string \<Rightarrow> (string \<times> string) option" where
  "split_space s = (if CHR '' '' \<in> set s
     then Some (takeWhile (\<lambda>c. c \<noteq> CHR '' '') s, drop 1 (dropWhile (\<lambda>c. c \<noteq> CHR '' '') s)) else None)"

definition handle_open_command :: "'w services \<Rightarrow> string \<Rightarrow> (unit, 'w) act" where
  "handle_open_command S args a0 =
     (let a = a0\<lparr>ap_last_open := args\<rparr>;
          (type, i) = (case split_space args of None \<Rightarrow> (''auto'', args) | Some x \<Rightarrow> x) in
      case (sv_backend S, sv_secrets S) of
        (Some C, Some k) \<Rightarrow>
          (let tok = (case cached_session S a of None \<Rightarrow> [] | Some t \<Rightarrow> t) in
           if tok = [] then (Inr (), say ''open: no cached session; run --login'' a)
           else if type = ''decision'' then
             open_object C tok (''/decisions/'' @ app_url_encode i) ''open decision'' (read_decision i)
               (\<lambda>d a. a\<lparr>ap_decision := Some d\<rparr>) 6 a
           else if type = ''target'' then
             open_object C tok (''/targets/'' @ app_url_encode i) ''open target'' (read_target i) put_relationship 11 a
           else
             open_object C tok (''/relationships/'' @ app_url_encode i) ''open'' (read_relationship i) put_relationship 11 a)
      | _ \<Rightarrow> (Inr (), say ''open: backend not configured'' a))"

section \<open>Modals and commands\<close>

definition open_palette :: "'w app \<Rightarrow> 'w app" where
  "open_palette a = (if is_open (ap_palette a) \<or> ap_help a then a
     else a\<lparr>ap_palette := open_pal (ap_palette a), ap_focus := enter_modal (ap_focus a)\<rparr>)"

definition open_help :: "'w app \<Rightarrow> 'w app" where
  "open_help a = (if is_open (ap_palette a) \<or> ap_help a then a
     else a\<lparr>ap_help := True, ap_focus := enter_modal (ap_focus a)\<rparr>)"

definition close_modals :: "'w app \<Rightarrow> 'w app" where
  "close_modals a = (let was_open = is_open (ap_palette a) \<or> ap_help a;
       b = a\<lparr>ap_palette := close_pal (ap_palette a), ap_help := False\<rparr>
     in if was_open then b\<lparr>ap_focus := exit_modal (ap_focus b)\<rparr> else b)"

text \<open>A call of the Plaid service on the application's world; the stub says yes to everything.\<close>

definition with_plaid ::
    "'w services \<Rightarrow> ('w backend \<Rightarrow> (bool, 'w) plaid_call) \<Rightarrow> (bool \<Rightarrow> 'w app \<Rightarrow> 'w app) \<Rightarrow> (unit, 'w) act" where
  "with_plaid S call k a = (case sv_backend S of
     None \<Rightarrow> (Inr (), k True a)
   | Some C \<Rightarrow> (case call C (ap_world a, ap_plaid a) of
       (Inl what, (w, p)) \<Rightarrow> (Inl what, a\<lparr>ap_world := w, ap_plaid := p\<rparr>)
     | (Inr ok, (w, p)) \<Rightarrow> (Inr (), k ok (a\<lparr>ap_world := w, ap_plaid := p\<rparr>))))"

definition select_entity :: "nat \<Rightarrow> (unit, 'w) act" where
  "select_entity n a = (if length (ds_entities (ap_store a)) \<ge> n + 1
     then update_views_for_entity (a\<lparr>ap_entity := n\<rparr>) else (Inr (), a))"

definition config_status :: "'w services \<Rightarrow> string" where
  "config_status S = (let shown = (\<lambda>v. if v = None then ''NOT SET'' else ''SET'') in
     ''Config: ClientID=['' @ shown (get_plaid_client_id (la_getenv (sv_launcher S)) (sv_config S)) @
     ''] Secret=['' @ shown (get_plaid_secret (la_getenv (sv_launcher S)) (sv_config S)) @
     ''] - Edit .env to configure'')"

definition refresh_app :: "'w services \<Rightarrow> (unit, 'w) act" where
  "refresh_app S a = (case store_load (sv_storage S) (ap_store a) (ap_world a) of
     (Inl what, d, w) \<Rightarrow> (Inl what, a\<lparr>ap_store := d, ap_world := w\<rparr>)
   | (Inr ok, d, w) \<Rightarrow>
       (let b = a\<lparr>ap_store := d, ap_world := w\<rparr> in
        update_views_for_entity (say (if ok then ''Refreshed from backend.''
          else ''Refresh failed: '' @ store_last_error (sv_storage S) d w) b)))"

fun tabs_pressed :: "nat \<Rightarrow> focus_controller \<Rightarrow> focus_controller" where
  "tabs_pressed 0 f = f"
| "tabs_pressed (Suc n) f = tabs_pressed n (snd (handle_key Tab f))"

definition drill_to :: "nat \<Rightarrow> 'w app \<Rightarrow> 'w app" where
  "drill_to steps a = (let b = goto 0 a in b\<lparr>ap_focus := tabs_pressed steps (ap_focus b)\<rparr>)"

definition link_test :: "'w services \<Rightarrow> (unit, 'w) act" where
  "link_test S a = (case (ds_entities (ap_store a), ds_accounts (ap_store a)) of
     (_ # _, acc # _) \<Rightarrow> with_plaid S (\<lambda>C. link_account C (a_id acc) ''public-sandbox-test'')
       (\<lambda>ok b. say (if ok then ''Account linked via server.''
          else ''Link failed: '' @ ps_error (ap_plaid b)) b) a
   | _ \<Rightarrow> (Inr (), say ''No accounts to link.'' a))"

fun dispatch :: "'w services \<Rightarrow> command_id \<Rightarrow> (unit, 'w) act" where
  "dispatch S SwitchView_Dashboard a = (Inr (), goto 0 a)"
| "dispatch S SwitchView_Accounts a = (Inr (), goto 1 a)"
| "dispatch S SwitchView_Transactions a = (Inr (), goto 2 a)"
| "dispatch S SwitchView_Budget a = (Inr (), goto 3 a)"
| "dispatch S SwitchView_Categories a = (Inr (), goto 4 a)"
| "dispatch S SwitchView_Notes a = (Inr (), goto 5 a)"
| "dispatch S SwitchView_Decisions a = (Inr (), goto 6 a)"
| "dispatch S SwitchView_Tasks a = (Inr (), goto 7 a)"
| "dispatch S SwitchView_Events a = (Inr (), goto 8 a)"
| "dispatch S SwitchView_Proposals a = (Inr (), goto 9 a)"
| "dispatch S SwitchView_Targets a = (Inr (), goto 10 a)"
| "dispatch S SwitchView_Relationships a = (Inr (), goto 11 a)"
| "dispatch S SwitchView_RealEstate a = (Inr (), goto 12 a)"
| "dispatch S SwitchView_Snapshot a = (Inr (), goto 13 a)"
| "dispatch S SwitchEntity_Personal a = select_entity 0 a"
| "dispatch S SwitchEntity_Business a = select_entity 1 a"
| "dispatch S LinkPlaid a =
     (Inr (), say (''Plaid: Use '' @ [CHR 0x27, CHR ''L'', CHR 0x27] @ '' to link an account via the server endpoint.'') a)"
| "dispatch S LinkPlaidTest a = link_test S a"
| "dispatch S OpenConfig a = (Inr (), say (config_status S) a)"
| "dispatch S Quit a = (Inr (), (save_app S a)\<lparr>ap_exited := True\<rparr>)"
| "dispatch S DrillInto_NetWorth a = (Inr (), drill_to 1 a)"
| "dispatch S DrillInto_SyncStatus a = (Inr (), drill_to 2 a)"
| "dispatch S DrillInto_CategoryTrends a = (Inr (), drill_to 3 a)"
| "dispatch S Help a = (Inr (), open_help a)"
| "dispatch S Logout a = (Inr (), say ''Logout: run greylock --logout from CLI.'' a)"
| "dispatch S Whoami a = (Inr (), say ''Whoami: run greylock --whoami from CLI.'' a)"
| "dispatch S Refresh a = refresh_app S a"
| "dispatch S Search_Transactions a = (Inr (), say
     ''Search transactions: type in the Transactions view (search box: v0.3+).'' (goto 2 a))"

section \<open>Typed verbs\<close>

text \<open>Enter in the palette first looks at the first word of what was typed.\<close>

definition trim_left :: "string \<Rightarrow> string" where
  "trim_left s = dropWhile (\<lambda>c. c = CHR '' '' \<or> c = CHR 0x09) s"

definition verb_of :: "string \<Rightarrow> string \<times> string" where
  "verb_of raw =
     (let t = trim_left raw;
          (verb, args) = (case split_space t of None \<Rightarrow> (t, []) | Some x \<Rightarrow> x)
      in (if verb \<noteq> [] \<and> hd verb = CHR '':'' then tl verb else verb, args))"

definition close_palette :: "'w app \<Rightarrow> 'w app" where
  "close_palette a = a\<lparr>ap_palette := close_pal (ap_palette a), ap_focus := exit_modal (ap_focus a)\<rparr>"

definition depth_of :: "string \<Rightarrow> int" where
  "depth_of args =
     (let rest = (if starts_with ''--depth'' args
          then (case split_space args of None \<Rightarrow> [] | Some (_, r) \<Rightarrow> r) else args)
      in if rest = [] then 2 else case stoi rest of None \<Rightarrow> 2 | Some n \<Rightarrow> n)"

definition graph_command :: "'w services \<Rightarrow> int \<Rightarrow> 'w app \<Rightarrow> 'w app" where
  "graph_command S d a = goto 14 (refresh_graph_counts S
     (a\<lparr>ap_graph := set_depth d (ap_graph a), ap_last_graph := ''graph --depth '' @ int_to_string d\<rparr>))"

text \<open>\<open>None\<close> when the word is no verb, and the palette takes the key.\<close>

definition run_verb :: "'w services \<Rightarrow> string \<Rightarrow> 'w app \<Rightarrow> ((string + unit) \<times> 'w app) option" where
  "run_verb S raw a = (case verb_of raw of (verb, args) \<Rightarrow>
     (if verb = ''open'' \<and> args \<noteq> [] then
        Some (case handle_open_command S args a of
          (Inl what, a1) \<Rightarrow> (Inl what, a1) | (Inr _, a1) \<Rightarrow> (Inr (), close_palette a1))
      else if verb = ''graph'' then Some (Inr (), close_palette (graph_command S (depth_of args) a))
      else if verb = ''ask'' then
        Some (Inr (), close_palette (goto 15 (a\<lparr>ap_ask := Some args, ap_last_ask := args\<rparr>)))
      else if verb = ''reimb'' then
        Some (Inr (), close_palette (say ''reimb: reimbursements UI not built yet (M007 schema is live).'' a))
      else None))"

section \<open>Keys\<close>

text \<open>The handlers answer \<open>None\<close> when the key is not theirs and the next one sees it.\<close>

type_synonym 'w key_handler = "event \<Rightarrow> 'w app \<Rightarrow> ((string + unit) \<times> 'w app) option"

definition palette_layer :: "'w services \<Rightarrow> event \<Rightarrow> 'w app \<Rightarrow> ((string + unit) \<times> 'w app) option \<times> 'w app" where
  "palette_layer S e a =
     (if \<not> is_open (ap_palette a) then (None, a)
      else case (if e = Return then run_verb S (typed (ap_palette a)) a else None) of
        Some r \<Rightarrow> (Some r, a)
      | None \<Rightarrow>
          (case palette_key e (ap_palette a) of
             (consumed, cmd, pal) \<Rightarrow>
               (let b = a\<lparr>ap_palette := pal\<rparr> in
                case (case cmd of None \<Rightarrow> (Inr (), b) | Some c \<Rightarrow> dispatch S c b) of
                  (Inl what, b1) \<Rightarrow> (Some (Inl what, b1), b1)
                | (Inr _, b1) \<Rightarrow>
                    (let b2 = (if is_open (ap_palette b1) then b1 else b1\<lparr>ap_focus := exit_modal (ap_focus b1)\<rparr>)
                     in if consumed then (Some (Inr (), b2), b2) else (None, b2)))))"

definition help_layer :: "event \<Rightarrow> 'w app \<Rightarrow> ((string + unit) \<times> 'w app) option \<times> 'w app" where
  "help_layer e a =
     (if \<not> ap_help a then (None, a)
      else case help_key e (ap_help a) of
        (consumed, h) \<Rightarrow>
          (let b = a\<lparr>ap_help := h\<rparr>; b1 = (if h then b else b\<lparr>ap_focus := exit_modal (ap_focus b)\<rparr>)
           in if consumed then (Some (Inr (), b1), b1) else (None, b1)))"

definition hotkeys :: "'w key_handler" where
  "hotkeys e a =
     (if e = Character '':'' then Some (Inr (), open_palette a)
      else if e = Character ''?'' then Some (Inr (), open_help a)
      else None)"

definition dashboard_keys :: "event \<Rightarrow> 'w app \<Rightarrow> bool \<times> 'w app" where
  "dashboard_keys e a =
     (if ap_tab a \<noteq> 0 then (False, a)
      else if e = Return \<and> level (ap_focus a) = Widget then
        (True, if focused (ap_focus a) = NetWorth
               then a\<lparr>ap_focus := snd (enter_drill NetWorth (ap_focus a))\<rparr> else a)
      else (case handle_key e (ap_focus a) of (consumed, f) \<Rightarrow> (consumed, a\<lparr>ap_focus := f\<rparr>)))"

definition exit_and_entity_keys :: "'w key_handler" where
  "exit_and_entity_keys e a =
     (if e = Escape then Some (Inr (), a\<lparr>ap_exited := True\<rparr>)
      else if e = Character ''1'' \<and> length (ds_entities (ap_store a)) \<ge> 1 then Some (select_entity 0 a)
      else if e = Character ''2'' \<and> length (ds_entities (ap_store a)) \<ge> 2 then Some (select_entity 1 a)
      else None)"

definition g_table :: "(string \<times> nat) list" where
  "g_table = [(''d'', 0), (''a'', 1), (''t'', 2), (''b'', 3), (''c'', 4), (''n'', 5), (''D'', 6), (''k'', 7),
     (''e'', 8), (''p'', 9), (''T'', 10), (''R'', 11), (''r'', 12), (''s'', 13)]"

text \<open>The second key after \<open>g\<close>; the flag is cleared in every case.\<close>

definition g_follow_up :: "event \<Rightarrow> 'w app \<Rightarrow> 'w app option" where
  "g_follow_up e a = (case e of
     Character s \<Rightarrow>
       (if s = ''G'' then Some (goto 14 (a\<lparr>ap_last_graph := ''graph --depth '' @ int_to_string (gv_depth (ap_graph a))\<rparr>))
        else map_option (\<lambda>tab. goto tab a) (map_of g_table s))
   | _ \<Rightarrow> None)"

definition g_keys :: "event \<Rightarrow> 'w app \<Rightarrow> bool \<times> 'w app" where
  "g_keys e a =
     (let b = a\<lparr>ap_g_pending := False\<rparr> in
      case (if ap_g_pending a then g_follow_up e b else None) of
        Some c \<Rightarrow> (True, c)
      | None \<Rightarrow>
          if e = Character ''g'' then (True, say ''g- pending (d/a/t/b)'' (b\<lparr>ap_g_pending := True\<rparr>)) else (False, b))"

definition move_selection :: "(int \<Rightarrow> int) \<Rightarrow> 'w app \<Rightarrow> 'w app" where
  "move_selection f a = a\<lparr>ap_views :=
     (let v = ap_views a in
      if ap_tab a = 1 then v\<lparr>vs_sel_accounts := f (vs_sel_accounts v)\<rparr>
      else if ap_tab a = 2 then v\<lparr>vs_sel_tx := f (vs_sel_tx v)\<rparr>
      else if ap_tab a = 3 then v\<lparr>vs_sel_budget := f (vs_sel_budget v)\<rparr>
      else v)\<rparr>"

definition link_selected :: "'w services \<Rightarrow> (unit, 'w) act" where
  "link_selected S a =
     (if ap_tab a \<noteq> 1 then (Inr (), say ''Switch to Accounts (g a) to link an account.'' a)
      else let es = ds_entities (ap_store a); sel = vs_sel_accounts (ap_views a) in
        if es \<noteq> [] \<and> ap_entity a \<ge> length es then (Inl out_of_range, a)
        else let accs = get_accounts_for_entity (if es = [] then [] else e_id (es ! ap_entity a)) (ap_store a) in
          if 0 \<le> sel \<and> sel < int (length accs)
          then let acc = accs ! nat sel in
            with_plaid S (\<lambda>C. prepare_link_flow (sv_launcher S) C (a_id acc))
              (\<lambda>ok b. say (if ok
                 then ''Open in your browser to link '' @ [CHR 0x27] @ a_name acc @ [CHR 0x27] @ '':  '' @
                   (if sv_backend S = None then [] else ps_link_url (ap_plaid b)) @
                   ''    (after linking, type :refresh to pick up the new account)''
                 else ''Link prepare failed: '' @ ps_error (ap_plaid b)) b) a
          else (Inr (), say ''No account selected.'' a))"

definition last_keys :: "'w services \<Rightarrow> 'w key_handler" where
  "last_keys S e a =
     (if e = ArrowUp then Some (Inr (), move_selection (\<lambda>n. if n > 0 then n - 1 else 0) a)
      else if e = ArrowDown then Some (Inr (), move_selection (\<lambda>n. n + 1) a)
      else if e = Character ''q'' \<or> e = Character ''Q'' then Some (Inr (), (save_app S a)\<lparr>ap_exited := True\<rparr>)
      else if e = Character ''s'' \<or> e = Character ''S'' then Some (Inr (), save_app S a)
      else if e = Character ''l'' \<or> e = Character ''L'' then Some (link_selected S a)
      else if e = Character ''c'' \<or> e = Character ''C'' then Some (Inr (), say (config_status S) a)
      else None)"

text \<open>The event handler: each layer in turn, until one consumes the event.\<close>

definition on_event :: "'w services \<Rightarrow> event \<Rightarrow> (bool, 'w) act" where
  "on_event S e a0 =
     (let answer = (\<lambda>r. (map_sum id (\<lambda>_. True) (fst r), snd r)) in
      case palette_layer S e a0 of
        (Some r, _) \<Rightarrow> answer r
      | (None, a1) \<Rightarrow>
     (case help_layer e a1 of
        (Some r, _) \<Rightarrow> answer r
      | (None, a2) \<Rightarrow>
     (case hotkeys e a2 of
        Some r \<Rightarrow> answer r
      | None \<Rightarrow>
     (case dashboard_keys e a2 of
        (True, a3) \<Rightarrow> (Inr True, a3)
      | (False, a3) \<Rightarrow>
     (case exit_and_entity_keys e a3 of
        Some r \<Rightarrow> answer r
      | None \<Rightarrow>
     (case g_keys e a3 of
        (True, a4) \<Rightarrow> (Inr True, a4)
      | (False, a4) \<Rightarrow>
     (case last_keys S e a4 of
        Some r \<Rightarrow> answer r
      | None \<Rightarrow> (Inr False, a4))))))))"

section \<open>The start\<close>

text \<open>The members before the constructor, and its end: the data is loaded, the views are set to the first
  entity, the data is saved again and the palette gets its dispatcher.\<close>

definition fresh_app :: "'w \<Rightarrow> 'w app" where
  "fresh_app w = \<lparr>ap_store = new_data_store, ap_world = w,
     ap_plaid = \<lparr>ps_error = [], ps_link_url = [], ps_opened = []\<rparr>,
     ap_views = \<lparr>vs_dashboard = [], vs_accounts = [], vs_tx_entity = [], vs_tx_account = [], vs_budget = [],
       vs_categories = [], vs_sel_accounts = 0, vs_sel_tx = 0, vs_sel_budget = 0\<rparr>,
     ap_graph = \<lparr>gv_depth = 2, gv_decisions = (0, []), gv_relationships = (0, []), gv_targets = (0, [])\<rparr>,
     ap_ask = None, ap_decision = None, ap_relationship = None, ap_last_ask = [], ap_last_open = [],
     ap_last_graph = [], ap_entity = 0, ap_tab = 0, ap_status = [], ap_g_pending = False,
     ap_focus = new_controller, ap_palette = new_palette, ap_help = False, ap_exited = False\<rparr>"

definition create_app :: "'w services \<Rightarrow> 'w \<Rightarrow> string + 'w app" where
  "create_app S w =
     (case store_load (sv_storage S) (ap_store (fresh_app w)) w of
        (Inl what, _, _) \<Rightarrow> Inl what
      | (Inr _, d, w1) \<Rightarrow>
          (case update_views_for_entity ((fresh_app w)\<lparr>ap_store := d, ap_world := w1\<rparr>) of
             (Inl what, _) \<Rightarrow> Inl what
           | (Inr _, a) \<Rightarrow> Inr ((save_app S a)\<lparr>ap_palette := set_dispatcher (ap_palette a)\<rparr>)))"

text \<open>The session: events, each handled without an exception, until the application exits.\<close>

inductive app_step :: "'w services \<Rightarrow> 'w app \<Rightarrow> 'w app \<Rightarrow> bool" for S where
  event: "\<not> ap_exited a \<Longrightarrow> on_event S e a = (Inr b, a') \<Longrightarrow> app_step S a a'"

section \<open>The invariant\<close>

text \<open>The parts of the state that belong to the window: at most one overlay; the focus controller is at
  Modal level only under an overlay and always under the palette.\<close>

definition shell_ok :: "focus_controller \<Rightarrow> palette \<Rightarrow> bool \<Rightarrow> bool" where
  "shell_ok f p h \<longleftrightarrow> focus_ok f \<and> palette_ok p \<and> \<not> (is_open p \<and> h) \<and>
     (level f = Modal \<longrightarrow> is_open p \<or> h) \<and> (is_open p \<longrightarrow> level f = Modal)"

definition app_ok :: "'w app \<Rightarrow> bool" where
  "app_ok a \<longleftrightarrow> shell_ok (ap_focus a) (ap_palette a) (ap_help a) \<and> ap_tab a \<le> 15 \<and>
     gv_depth (ap_graph a) \<in> {1..5} \<and> vs_sel_accounts (ap_views a) \<ge> 0"

text \<open>The same without the overlays, which their callers close; and what most commands leave alone.\<close>

definition calm :: "'w app \<Rightarrow> bool" where
  "calm a \<longleftrightarrow> focus_ok (ap_focus a) \<and> palette_ok (ap_palette a) \<and> ap_tab a \<le> 15 \<and>
     gv_depth (ap_graph a) \<in> {1..5} \<and> vs_sel_accounts (ap_views a) \<ge> 0"

definition window :: "'w app \<Rightarrow> (palette \<times> bool) \<times> focus_controller \<times> nat \<times> int \<times> int" where
  "window a = ((ap_palette a, ap_help a), ap_focus a, ap_tab a, gv_depth (ap_graph a), vs_sel_accounts (ap_views a))"

lemma calm_window: "calm a \<Longrightarrow> window b = window a \<Longrightarrow> calm b"
  by (simp add: calm_def window_def)

lemma window_say [simp]: "window (say m a) = window a"
  by (simp add: window_def say_def)

lemma window_world [simp]: "window (a\<lparr>ap_world := w\<rparr>) = window a" "window (a\<lparr>ap_world := w, ap_plaid := p\<rparr>) = window a"
  "window (a\<lparr>ap_store := d\<rparr>) = window a" "window (a\<lparr>ap_entity := n\<rparr>) = window a"
  "window (a\<lparr>ap_exited := x\<rparr>) = window a" "window (a\<lparr>ap_g_pending := g\<rparr>) = window a"
  "window (a\<lparr>ap_decision := dv\<rparr>) = window a" "window (put_relationship r a) = window a"
  "window (a\<lparr>ap_last_open := o1\<rparr>) = window a" "window (a\<lparr>ap_ask := q, ap_last_ask := q1\<rparr>) = window a"
  by (simp_all add: window_def put_relationship_def)

lemma calm_say [simp]: "calm (say m a) = calm a"
  by (simp add: calm_def say_def)

lemma window_save [simp]: "window (save_app S a) = window a"
  by (simp add: save_app_def split: prod.split)

lemma window_update [simp]: "window (snd (update_views_for_entity a)) = window a"
  by (simp add: update_views_for_entity_def window_def show_entity_def Let_def split: list.split)

lemma window_select [simp]: "window (snd (select_entity n a)) = window a"
  by (simp add: select_entity_def)

lemma window_plaid: "(\<And>ok b. window (k ok b) = window b) \<Longrightarrow> window (snd (with_plaid S call k a)) = window a"
  by (simp add: with_plaid_def split: option.split sum.split prod.split)

lemma window_link_test [simp]: "window (snd (link_test S a)) = window a"
  by (simp add: link_test_def window_plaid split: list.split)

lemma window_link_selected [simp]: "window (snd (link_selected S a)) = window a"
  by (simp add: link_selected_def window_plaid Let_def)

lemma window_refresh [simp]: "window (snd (refresh_app S a)) = window a"
  by (simp add: refresh_app_def Let_def split: prod.split sum.split)

lemma calm_goto: "calm a \<Longrightarrow> tab \<le> 15 \<Longrightarrow> calm (goto tab a)"
  by (simp add: calm_def goto_def focus_ok_reset)

lemma goto_shell [simp]: "ap_palette (goto tab a) = ap_palette a" "ap_help (goto tab a) = ap_help a"
  "level (ap_focus (goto tab a)) = Dashboard"
  by (simp_all add: goto_def reset_def)

lemma say_shell [simp]: "ap_palette (say m a) = ap_palette a" "ap_help (say m a) = ap_help a"
  "ap_focus (say m a) = ap_focus a"
  by (simp_all add: say_def)

lemma focus_ok_tabs: "focus_ok f \<Longrightarrow> focus_ok (tabs_pressed n f)"
  by (induction n arbitrary: f) (simp_all add: focus_ok_handle_key)

lemma calm_focus: "calm a \<Longrightarrow> focus_ok f \<Longrightarrow> calm (a\<lparr>ap_focus := f\<rparr>)"
  by (simp add: calm_def)

lemma calm_drill: "calm a \<Longrightarrow> calm (drill_to n a)"
  unfolding drill_to_def Let_def
  by (rule calm_focus [OF calm_goto focus_ok_tabs]) (simp_all add: goto_def focus_ok_reset)

lemma window_fields:
  assumes "window b = window a"
  shows "ap_palette b = ap_palette a" "ap_help b = ap_help a" "ap_focus b = ap_focus a"
  using assms by (simp_all add: window_def)

text \<open>A dispatched command leaves a calm state calm and never opens the palette.\<close>

lemma quiet_calm:
  "calm a \<Longrightarrow> window b = window a \<Longrightarrow> calm b \<and> ap_palette b = ap_palette a"
  using calm_window window_fields(1) by blast

lemma dispatch_calm:
  assumes "calm a" shows "calm (snd (dispatch S c a)) \<and> ap_palette (snd (dispatch S c a)) = ap_palette a"
proof (cases c)
  case Quit
  show ?thesis by (rule quiet_calm [OF assms]) (simp add: Quit)
next
  case Help
  then show ?thesis using assms by (auto simp: open_help_def calm_def focus_ok_enter_modal)
next
  case Search_Transactions
  then show ?thesis using assms by (simp add: calm_goto)
next
  case SwitchEntity_Personal
  show ?thesis by (rule quiet_calm [OF assms]) (simp add: SwitchEntity_Personal)
next
  case SwitchEntity_Business
  show ?thesis by (rule quiet_calm [OF assms]) (simp add: SwitchEntity_Business)
next
  case LinkPlaidTest
  show ?thesis by (rule quiet_calm [OF assms]) (simp add: LinkPlaidTest)
next
  case Refresh
  show ?thesis by (rule quiet_calm [OF assms]) (simp add: Refresh)
qed (use assms calm_drill [of a] in \<open>simp_all add: calm_goto, simp_all add: drill_to_def Let_def\<close>)

text \<open>Typed verbs: as commands, and they close the palette themselves.\<close>

lemma set_depth_range: "gv_depth (set_depth d g) \<in> {1..5}"
  by (simp add: set_depth_def)

lemma calm_graph: "calm a \<Longrightarrow> calm (graph_command S d a)"
proof -
  assume a: "calm a"
  have "gv_depth (ap_graph (refresh_graph_counts S b)) = gv_depth (ap_graph b) \<and>
      ap_focus (refresh_graph_counts S b) = ap_focus b \<and> ap_palette (refresh_graph_counts S b) = ap_palette b \<and>
      ap_views (refresh_graph_counts S b) = ap_views b \<and> ap_tab (refresh_graph_counts S b) = ap_tab b" for b
    by (simp add: refresh_graph_counts_def Let_def split: option.split prod.split)
  then show ?thesis using a set_depth_range [of d "ap_graph a"]
    by (simp add: graph_command_def calm_def goto_def focus_ok_reset)
qed

lemma calm_put: "calm a \<Longrightarrow> calm (put_relationship r a)" "calm a \<Longrightarrow> calm (a\<lparr>ap_decision := v\<rparr>)"
  "calm a \<Longrightarrow> calm (a\<lparr>ap_world := w\<rparr>)" "calm a \<Longrightarrow> calm (a\<lparr>ap_last_open := o1\<rparr>)"
  by (simp_all add: calm_def put_relationship_def)

lemma calm_open_object:
  "calm a \<Longrightarrow> tab \<le> 15 \<Longrightarrow> (\<And>v b. calm b \<Longrightarrow> calm (put v b)) \<Longrightarrow>
     calm (snd (open_object C tok path who read put tab a))"
  by (simp add: open_object_def calm_goto calm_put split: sum.split prod.split)

lemma calm_open: "calm a \<Longrightarrow> calm (snd (handle_open_command S args a))"
  by (simp add: handle_open_command_def Let_def calm_open_object calm_put split: prod.split option.split)

lemma calm_close: "calm a \<Longrightarrow> calm (close_palette a)"
  by (simp add: close_palette_def calm_def focus_ok_exit_modal palette_ok_close)

lemma exit_modal_level: "focus_ok f \<Longrightarrow> level (exit_modal f) \<noteq> Modal"
  by (cases "pre_modal_level f") (auto simp: focus_ok_def exit_modal_def)

lemma shut_ok:
  "calm a \<Longrightarrow> \<not> is_open (ap_palette a) \<Longrightarrow> app_ok (a\<lparr>ap_focus := exit_modal (ap_focus a)\<rparr>)"
  by (simp add: app_ok_def shell_ok_def calm_def focus_ok_exit_modal exit_modal_level)

lemma close_palette_ok: "calm a \<Longrightarrow> app_ok (close_palette a)"
  by (simp add: app_ok_def shell_ok_def calm_def close_palette_def focus_ok_exit_modal exit_modal_level
      palette_ok_close) (simp add: close_pal_def)

lemma app_ok_calm: "app_ok a \<Longrightarrow> calm a"
  by (simp add: app_ok_def shell_ok_def calm_def)

lemma run_verb_ok:
  assumes "calm a" and "run_verb S raw a = Some (Inr u, a')" shows "app_ok a'"
proof -
  have ask: "calm (goto 15 (a\<lparr>ap_ask := Some q, ap_last_ask := q\<rparr>))" for q
    by (rule calm_goto [OF calm_window [OF assms(1)]]) simp_all
  show ?thesis
    using assms(2) close_palette_ok calm_open [OF assms(1), of S "snd (verb_of raw)"] calm_graph [OF assms(1)] ask assms(1)
    by (auto simp: run_verb_def split: prod.splits if_splits sum.splits)
qed

subsection \<open>The overlays\<close>

lemma consumed_keys:
  "is_open p \<Longrightarrow> e \<notin> {Tab, TabReverse, ArrowLeft, ArrowRight, OtherEvent} \<Longrightarrow> fst (palette_key e p)"
  "is_open p \<Longrightarrow> e \<in> {Tab, TabReverse, ArrowLeft, ArrowRight, OtherEvent} \<Longrightarrow> palette_key e p = (False, None, p)"
  by (cases e; simp add: palette_key_def)+

lemma dispatched_shut: "palette_key e p = (b, Some c, p') \<Longrightarrow> \<not> is_open p'"
  by (auto simp: palette_key_def close_pal_def split: event.splits if_splits)

lemma app_ok_modal: "app_ok a \<Longrightarrow> is_open (ap_palette a) \<Longrightarrow> level (ap_focus a) = Modal \<and> \<not> ap_help a"
  by (simp add: app_ok_def shell_ok_def)

text \<open>While the palette is open a key is handled by it, or it is one that no layer handles then.\<close>

lemma palette_consumes:
  assumes "app_ok a" and "is_open (ap_palette a)" and "palette_layer S e a = (Some (Inr u, a'), a1)"
  shows "app_ok a'"
proof (cases "if e = Return then run_verb S (typed (ap_palette a)) a else None")
  case (Some r)
  then have "run_verb S (typed (ap_palette a)) a = Some (Inr u, a')"
    using assms(2,3) by (auto simp: palette_layer_def split: if_splits)
  then show ?thesis by (rule run_verb_ok [OF app_ok_calm [OF assms(1)]])
next
  case None
  obtain consumed cmd pal where key: "palette_key e (ap_palette a) = (consumed, cmd, pal)"
    by (metis prod.collapse)
  let ?b = "a\<lparr>ap_palette := pal\<rparr>"
  have pal_ok: "palette_ok pal"
    using palette_ok_key [of "ap_palette a" e] assms(1) by (simp add: key app_ok_def shell_ok_def)
  have calm: "calm ?b" using app_ok_calm [OF assms(1)] pal_ok by (simp add: calm_def)
  show ?thesis
  proof (cases cmd)
    case None
    then have r: "a' = (if is_open pal then ?b else ?b\<lparr>ap_focus := exit_modal (ap_focus a)\<rparr>)"
      using assms(2,3) \<open>(if e = Return then _ else None) = None\<close>
      by (auto simp: palette_layer_def key Let_def split: if_splits)
    show ?thesis
    proof (cases "is_open pal")
      case True
      then show ?thesis using r assms(1,2) pal_ok by (simp add: app_ok_def shell_ok_def)
    next
      case False
      then show ?thesis using r shut_ok [OF calm] by simp
    qed
  next
    case (Some c)
    have closed: "\<not> is_open pal" using dispatched_shut key Some by blast
    obtain x b1 where d: "dispatch S c ?b = (x, b1)" by (metis prod.collapse)
    have b1: "calm b1" "\<not> is_open (ap_palette b1)"
      using dispatch_calm [OF calm, of S c] closed by (simp_all add: d)
    then have "a' = b1\<lparr>ap_focus := exit_modal (ap_focus b1)\<rparr>"
      using assms(2,3) \<open>(if e = Return then _ else None) = None\<close>
      by (auto simp: palette_layer_def key Some d Let_def split: if_splits sum.splits)
    then show ?thesis using shut_ok [OF b1] by simp
  qed
qed

lemma palette_passes:
  assumes "is_open (ap_palette a)" and "palette_layer S e a = (None, a1)"
  shows "e \<in> {Tab, TabReverse, ArrowLeft, ArrowRight, OtherEvent} \<and> a1 = a"
proof -
  have "e \<noteq> Return" if "fst (palette_key e (ap_palette a)) = False"
    using that consumed_keys(1) [OF assms(1), of e] by auto
  moreover have e: "e \<in> {Tab, TabReverse, ArrowLeft, ArrowRight, OtherEvent}"
  proof (rule ccontr)
    assume "e \<notin> {Tab, TabReverse, ArrowLeft, ArrowRight, OtherEvent}"
    then have "fst (palette_key e (ap_palette a))" using consumed_keys(1) assms(1) by blast
    then show False
      using assms by (auto simp: palette_layer_def Let_def split: if_splits option.splits prod.splits sum.splits)
  qed
  ultimately show ?thesis using assms consumed_keys(2) [OF assms(1) e]
    by (auto simp: palette_layer_def Let_def split: if_splits)
qed

lemma on_event_passed:
  assumes "app_ok a" and "is_open (ap_palette a)" and "e \<in> {Tab, TabReverse, ArrowLeft, ArrowRight, OtherEvent}"
  shows "palette_layer S e a = (None, a)" and "on_event S e a = (Inr False, a\<lparr>ap_g_pending := False\<rparr>)"
proof -
  show p: "palette_layer S e a = (None, a)"
    using assms(2,3) consumed_keys(2) [OF assms(2,3)] by (auto simp: palette_layer_def Let_def)
  have l: "level (ap_focus a) = Modal" "\<not> ap_help a" using app_ok_modal [OF assms(1,2)] by simp_all
  have d: "dashboard_keys e a = (False, a)"
    using modal_ignores_keys [OF l(1)] l(1) by (simp add: dashboard_keys_def)
  have "hotkeys e a = None" "exit_and_entity_keys e a = None" "last_keys S e b = None" for b
    using assms(3) by (auto simp: hotkeys_def exit_and_entity_keys_def last_keys_def)
  moreover have "g_keys e a = (False, a\<lparr>ap_g_pending := False\<rparr>)"
    using assms(3) by (auto simp: g_keys_def g_follow_up_def Let_def)
  ultimately show "on_event S e a = (Inr False, a\<lparr>ap_g_pending := False\<rparr>)"
    using l(2) by (simp only: on_event_def p help_layer_def Let_def) (simp add: d)
qed

subsection \<open>Without an overlay\<close>

definition bare :: "'w app \<Rightarrow> bool" where
  "bare a \<longleftrightarrow> calm a \<and> \<not> is_open (ap_palette a) \<and> \<not> ap_help a \<and> level (ap_focus a) \<noteq> Modal"

lemma bare_ok: "bare a \<Longrightarrow> app_ok a"
  by (simp add: bare_def app_ok_def shell_ok_def calm_def)

lemma ok_bare: "app_ok a \<Longrightarrow> \<not> is_open (ap_palette a) \<Longrightarrow> \<not> ap_help a \<Longrightarrow> bare a"
  by (auto simp: bare_def app_ok_def shell_ok_def calm_def)

lemma bare_window: "bare a \<Longrightarrow> window b = window a \<Longrightarrow> bare b"
  by (simp add: bare_def calm_def window_def)

lemma bare_goto: "bare a \<Longrightarrow> tab \<le> 15 \<Longrightarrow> bare (goto tab a)"
  by (simp add: bare_def calm_goto)

lemma handle_key_modal: "level f \<noteq> Modal \<Longrightarrow> level (snd (handle_key e f)) \<noteq> Modal"
  by (cases "level f") (simp_all add: handle_key_def handle_escape_def handle_tab_def handle_tab_reverse_def)

lemma bare_focus: "bare a \<Longrightarrow> focus_ok f \<Longrightarrow> level f \<noteq> Modal \<Longrightarrow> bare (a\<lparr>ap_focus := f\<rparr>)"
  by (simp add: bare_def calm_def)

lemma bare_dashboard: "bare a \<Longrightarrow> bare (snd (dashboard_keys e a))"
proof -
  assume a: "bare a"
  then have f: "focus_ok (ap_focus a)" "level (ap_focus a) \<noteq> Modal" by (simp_all add: bare_def calm_def)
  have "bare (a\<lparr>ap_focus := snd (enter_drill NetWorth (ap_focus a))\<rparr>)"
    by (rule bare_focus [OF a focus_ok_enter_drill [OF f(1)]]) (use f(2) in \<open>simp add: enter_drill_def\<close>)
  moreover have "bare (a\<lparr>ap_focus := snd (handle_key e (ap_focus a))\<rparr>)"
    by (rule bare_focus [OF a focus_ok_handle_key [OF f(1)] handle_key_modal [OF f(2)]])
  ultimately show ?thesis using a by (simp add: dashboard_keys_def split: prod.split) force
qed

lemma hotkeys_ok: "bare a \<Longrightarrow> hotkeys e a = Some r \<Longrightarrow> app_ok (snd r)"
  by (auto simp: hotkeys_def open_palette_def open_help_def bare_def app_ok_def shell_ok_def calm_def
      palette_ok_open focus_ok_enter_modal split: if_splits)
     (simp_all add: enter_modal_def open_pal_def recompute_results_def)

lemma bare_exit_keys: "bare a \<Longrightarrow> exit_and_entity_keys e a = Some r \<Longrightarrow> bare (snd r)"
  by (auto simp: exit_and_entity_keys_def split: if_splits intro: bare_window)

lemma g_table_tabs: "map_of g_table s = Some tab \<Longrightarrow> tab \<le> 13"
  by (auto simp: g_table_def split: if_splits)

lemma bare_g_follow_up: "bare a \<Longrightarrow> g_follow_up e a = Some b \<Longrightarrow> bare b"
  by (auto simp: g_follow_up_def split: event.splits if_splits dest!: g_table_tabs
      intro!: bare_goto) (rule bare_window, assumption, simp add: window_def)

lemma bare_g_keys:
  assumes "bare a" shows "bare (snd (g_keys e a))"
proof -
  have b: "bare (a\<lparr>ap_g_pending := False\<rparr>)" by (rule bare_window [OF assms]) simp
  have g: "bare (a\<lparr>ap_g_pending := True\<rparr>)" by (rule bare_window [OF assms]) simp
  have s: "bare (say m c) = bare c" for m and c :: "'a app" by (simp add: bare_def)
  show ?thesis
    using bare_g_follow_up [OF b] b g by (auto simp: g_keys_def Let_def s split: option.split)
qed

lemma first_answer:
  "(if c then Some x else rest) = Some r \<Longrightarrow> P x \<Longrightarrow> (rest = Some r \<Longrightarrow> P r) \<Longrightarrow> P r"
  by (auto split: if_splits)

lemma bare_last_keys:
  assumes "bare a" and "last_keys S e a = Some r" shows "bare (snd r)"
proof -
  have "bare (move_selection f a)" if "\<And>n. n \<ge> 0 \<Longrightarrow> f n \<ge> 0" for f
    using assms(1) that by (simp add: move_selection_def bare_def calm_def Let_def)
  then have moves: "bare (move_selection (\<lambda>n. if n > 0 then n - 1 else 0) a)" "bare (move_selection (\<lambda>n. n + 1) a)"
    by simp_all
  have quiet: "bare (save_app S a)" "bare ((save_app S a)\<lparr>ap_exited := True\<rparr>)" "bare (snd (link_selected S a))"
    "bare (say m a)" for m
    by (rule bare_window [OF assms(1)]; simp)+
  show ?thesis using assms(2) unfolding last_keys_def
    by (elim first_answer) (simp_all add: moves quiet)
qed

subsection \<open>Every reachable state\<close>

lemma help_layer_ok:
  assumes "app_ok a" and "ap_help a"
  shows "\<exists>a'. on_event S e a = (Inr True, a') \<and> app_ok a'"
proof -
  have "\<not> is_open (ap_palette a)" using assms by (simp add: app_ok_def shell_ok_def)
  moreover from this have "app_ok (a\<lparr>ap_help := False, ap_focus := exit_modal (ap_focus a)\<rparr>)"
    using assms(1) by (simp add: app_ok_def shell_ok_def focus_ok_exit_modal exit_modal_level)
  moreover have "app_ok (a\<lparr>ap_help := True\<rparr>)" using assms by (simp add: app_ok_def shell_ok_def)
  ultimately show ?thesis using assms
    by (cases "e = Escape") (simp_all add: on_event_def palette_layer_def help_layer_def help_key_def Let_def)
qed

lemma answered: "map_sum id (\<lambda>_. True) x = Inr b \<Longrightarrow> \<exists>u. x = Inr u"
  by (cases x) simp_all

lemma bare_event:
  assumes "bare a" and "on_event S e a = (Inr b, a')" shows "app_ok a'"
proof -
  have "palette_layer S e a = (None, a)" "help_layer e a = (None, a)"
    using assms(1) by (simp_all add: bare_def palette_layer_def help_layer_def)
  note step = assms(2) [unfolded on_event_def Let_def this prod.case option.case]
  show ?thesis
  proof (cases "hotkeys e a")
    case (Some r)
    then show ?thesis using hotkeys_ok [OF assms(1) Some] step by simp
  next
    case no_hotkey: None
    obtain d a3 where dash: "dashboard_keys e a = (d, a3)" by (metis prod.collapse)
    have a3: "bare a3" using bare_dashboard [OF assms(1), of e] by (simp add: dash)
    show ?thesis
    proof (cases d)
      case True
      then show ?thesis using step bare_ok [OF a3] by (simp add: no_hotkey dash)
    next
      case no_dash: False
      show ?thesis
      proof (cases "exit_and_entity_keys e a3")
        case (Some r)
        then show ?thesis using bare_ok [OF bare_exit_keys [OF a3 Some]] step by (simp add: no_hotkey dash no_dash)
      next
        case no_exit: None
        obtain g a4 where gk: "g_keys e a3 = (g, a4)" by (metis prod.collapse)
        have a4: "bare a4" using bare_g_keys [OF a3, of e] by (simp add: gk)
        show ?thesis
        proof (cases "last_keys S e a4")
          case None
          then show ?thesis using step bare_ok [OF a4]
            by (cases g) (simp_all add: no_hotkey dash no_dash no_exit gk)
        next
          case (Some r)
          then show ?thesis using step bare_ok [OF a4] bare_ok [OF bare_last_keys [OF a4 Some]]
            by (cases g) (simp_all add: no_hotkey dash no_dash no_exit gk)
        qed
      qed
    qed
  qed
qed

lemma on_event_ok:
  assumes "app_ok a" and "on_event S e a = (Inr b, a')" shows "app_ok a'"
proof (cases "is_open (ap_palette a)")
  case open_pal: True
  obtain x a1 where layer: "palette_layer S e a = (x, a1)" by (metis prod.collapse)
  show ?thesis
  proof (cases x)
    case None
    then have e: "e \<in> {Tab, TabReverse, ArrowLeft, ArrowRight, OtherEvent}"
      using palette_passes [OF open_pal] layer by blast
    have "app_ok (a\<lparr>ap_g_pending := False\<rparr>)" using assms(1) by (simp add: app_ok_def)
    then show ?thesis using on_event_passed(2) [OF assms(1) open_pal e] assms(2) by simp
  next
    case (Some r)
    then have "map_sum id (\<lambda>_. True) (fst r) = Inr b" "snd r = a'"
      using assms(2) layer by (simp_all add: on_event_def)
    then obtain u where "r = (Inr u, a')" using answered by (metis prod.collapse)
    then show ?thesis using palette_consumes [OF assms(1) open_pal] layer Some by blast
  qed
next
  case no_pal: False
  show ?thesis
  proof (cases "ap_help a")
    case True
    then show ?thesis using help_layer_ok [OF assms(1) True] assms(2) by (metis prod.inject)
  next
    case False
    then show ?thesis using bare_event [OF ok_bare [OF assms(1) no_pal False] assms(2)] by simp
  qed
qed

lemma create_ok:
  assumes "create_app S w = Inr a" shows "app_ok a"
proof -
  have fresh: "app_ok ((fresh_app w)\<lparr>ap_store := d, ap_world := w1\<rparr>)" for d w1
    by (simp add: app_ok_def shell_ok_def fresh_app_def focus_ok_new palette_ok_new)
       (simp add: new_controller_def new_palette_def)
  have win: "app_ok c \<Longrightarrow> window b = window c \<Longrightarrow> app_ok (b\<lparr>ap_palette := set_dispatcher (ap_palette b)\<rparr>)" for b c :: "'a app"
    by (simp add: app_ok_def shell_ok_def window_def palette_ok_wire) (simp add: set_dispatcher_def)
  obtain d w1 a1 where a: "update_views_for_entity ((fresh_app w)\<lparr>ap_store := d, ap_world := w1\<rparr>) = (Inr (), a1)"
    "a = (save_app S a1)\<lparr>ap_palette := set_dispatcher (ap_palette a1)\<rparr>"
    using assms by (auto simp: create_app_def split: sum.splits prod.splits)
  have "window a1 = window ((fresh_app w)\<lparr>ap_store := d, ap_world := w1\<rparr>)"
    using window_update [of "(fresh_app w)\<lparr>ap_store := d, ap_world := w1\<rparr>"] by (simp add: a)
  moreover have "window (save_app S a1) = window a1" by simp
  ultimately have "window (save_app S a1) = window ((fresh_app w)\<lparr>ap_store := d, ap_world := w1\<rparr>)" by simp
  from win [OF fresh this] window_fields(1) [OF window_save, of S a1] show ?thesis by (simp add: a)
qed

lemma reachable_app_ok:
  assumes "create_app S w = Inr a0" and "(app_step S)\<^sup>*\<^sup>* a0 a" shows "app_ok a"
  using assms(2,1)
  by (induction rule: rtranclp_induct) (auto simp: create_ok elim!: app_step.cases intro: on_event_ok)

section \<open>Properties\<close>

text \<open>C40. The window of the client in every state it can reach from its start by any keys: the palette and
  the help overlay are never open together; the focus controller is at Modal level only under an
  overlay and always under the palette; an open palette shows the matches of what is typed with an
  existing row selected; the view is one of the sixteen and the graph's depth one of five; at Widget and
  Drill level exactly, a widget has the focus.\<close>

theorem window_invariant:
  assumes "create_app S w = Inr a0" and "(app_step S)\<^sup>*\<^sup>* a0 a"
  shows "\<not> (is_open (ap_palette a) \<and> ap_help a) \<and>
    (level (ap_focus a) = Modal \<longrightarrow> is_open (ap_palette a) \<or> ap_help a) \<and>
    (is_open (ap_palette a) \<longrightarrow> level (ap_focus a) = Modal \<and>
       results (ap_palette a) = fuzzy_find (typed (ap_palette a)) 8 \<and>
       (results (ap_palette a) \<noteq> [] \<longrightarrow> selected (ap_palette a) < length (results (ap_palette a)))) \<and>
    ap_tab a \<le> 15 \<and> gv_depth (ap_graph a) \<in> {1..5} \<and>
    (level (ap_focus a) \<in> {Widget, Drill} \<longleftrightarrow> focused (ap_focus a) \<noteq> NoWidget)"
proof -
  have ok: "app_ok a" using reachable_app_ok [OF assms] .
  then have "level (ap_focus a) \<in> {Widget, Drill} \<longleftrightarrow> focused (ap_focus a) \<noteq> NoWidget"
    by (cases "level (ap_focus a)") (auto simp: app_ok_def shell_ok_def focus_ok_def)
  with ok show ?thesis
    by (auto simp: app_ok_def shell_ok_def palette_ok_def kMaxVisibleResults_def)
qed

definition no_services :: "'w services" where
  "no_services = \<lparr>sv_storage = None, sv_backend = None, sv_secrets = None,
     sv_launcher = \<lparr>la_getenv = (\<lambda>_. None), la_spawn = (\<lambda>_. False)\<rparr>,
     sv_config = \<lparr>cf_map = Map.empty, cf_path = [], cf_configured = False\<rparr>\<rparr>"

definition started :: "unit app" where
  "started = (fresh_app ())\<lparr>ap_palette := set_dispatcher new_palette,
     ap_store := new_data_store\<lparr>ds_error := ''No storage service configured''\<rparr>\<rparr>"

lemma no_entities [simp]: "ds_entities new_data_store = []"
  by (simp add: new_data_store_def init_default_categories_def empty_collections_def collections.defs)

lemma create_started: "create_app no_services () = Inr started"
  by (simp add: create_app_def no_services_def store_load_def fresh_app_def update_views_for_entity_def
      save_app_def store_save_def started_def)

lemma colon_opens: "on_event no_services (Character '':'') started = (Inr True, open_palette started)"
  by (simp add: on_event_def palette_layer_def help_layer_def hotkeys_def started_def fresh_app_def
      set_dispatcher_def new_palette_def)

lemma started_bare: "\<not> ap_exited started \<and> \<not> is_open (ap_palette started) \<and> \<not> ap_help started"
  by (simp add: started_def fresh_app_def set_dispatcher_def new_palette_def)

theorem window_invariant_witness:
  "level (ap_focus (open_palette started)) = Modal \<and> \<not> ap_help (open_palette started)"
proof -
  have "app_step no_services started (open_palette started)"
    by (rule app_step.event [OF _ colon_opens]) (simp add: started_bare)
  then have "(app_step no_services)\<^sup>*\<^sup>* started (open_palette started)" ..
  from window_invariant [OF create_started this] show ?thesis
    using started_bare by (simp add: open_palette_def open_pal_def recompute_results_def)
qed

text \<open>A key of letters away from the overlays: the layers that are passed by.\<close>

lemma plain_event:
  assumes "\<not> is_open (ap_palette a)" and "\<not> ap_help a" and "hotkeys e a = None"
    and "dashboard_keys e a = (False, a)" and "exit_and_entity_keys e a = None"
  shows "on_event S e a = (case g_keys e a of
      (True, a4) \<Rightarrow> (Inr True, a4)
    | (False, a4) \<Rightarrow> (case last_keys S e a4 of
        Some r \<Rightarrow> (map_sum id (\<lambda>_. True) (fst r), snd r) | None \<Rightarrow> (Inr False, a4)))"
proof -
  have "palette_layer S e a = (None, a)" "help_layer e a = (None, a)"
    using assms(1,2) by (simp_all add: palette_layer_def help_layer_def)
  then show ?thesis by (simp add: on_event_def assms(3-5))
qed

lemma letter_passes:
  "s \<notin> {''h'', ''j'', ''k'', ''l''} \<or> level f \<noteq> Widget \<Longrightarrow> handle_key (Character s) f = (False, f)"
  by (auto simp: handle_key_def)

definition letter :: "string \<Rightarrow> bool" where
  "letter s \<longleftrightarrow> s \<notin> {'':'', ''?'', ''1'', ''2''}"

lemma letter_layers:
  assumes "letter s" and "ap_tab a = 0 \<and> level (ap_focus a) = Widget \<longrightarrow> s \<notin> {''h'', ''j'', ''k'', ''l''}"
  shows "hotkeys (Character s) a = None" "dashboard_keys (Character s) a = (False, a)"
    "exit_and_entity_keys (Character s) a = None"
proof -
  show "hotkeys (Character s) a = None" "exit_and_entity_keys (Character s) a = None"
    using assms(1) by (simp_all add: letter_def hotkeys_def exit_and_entity_keys_def)
  show "dashboard_keys (Character s) a = (False, a)"
  proof (cases "ap_tab a = 0")
    case True
    then have "handle_key (Character s) (ap_focus a) = (False, ap_focus a)"
      using assms(2) by (intro letter_passes) blast
    then show ?thesis by (simp add: dashboard_keys_def)
  qed (simp add: dashboard_keys_def)
qed

lemma g_table_letters: "(s, tab) \<in> set g_table \<Longrightarrow> letter s \<and> s \<noteq> ''G'' \<and> map_of g_table s = Some tab"
proof -
  have "list_all (\<lambda>(s, tab). letter s \<and> s \<noteq> ''G'' \<and> map_of g_table s = Some tab) g_table" by code_simp
  then show "(s, tab) \<in> set g_table \<Longrightarrow> ?thesis" by (auto simp: list_all_iff)
qed

text \<open>Pressing g and then a letter of the key map, with no overlay open, shows the view of that letter with the
  focus at its start, and changes nothing else but the status line; the one exception is k in the
  Home view while a widget has the focus, where k moves the focus instead.\<close>

theorem g_letter_navigates:
  assumes "\<not> is_open (ap_palette a)" and "\<not> ap_help a" and "\<not> ap_g_pending a" and "(s, tab) \<in> set g_table"
    and "\<not> (s = ''k'' \<and> ap_tab a = 0 \<and> level (ap_focus a) = Widget)"
  shows "(case on_event S (Character ''g'') a of (r1, a1) \<Rightarrow>
     r1 = Inr True \<and> on_event S (Character s) a1 =
       (Inr True, goto tab (a\<lparr>ap_status := ''g- pending (d/a/t/b)''\<rparr>)))"
proof -
  let ?p = "a\<lparr>ap_status := ''g- pending (d/a/t/b)''\<rparr>"
  let ?g = "?p\<lparr>ap_g_pending := True\<rparr>"
  have idle: "?p\<lparr>ap_g_pending := False\<rparr> = ?p" using assms(3) by (cases a) simp
  have "letter ''g''" by (simp add: letter_def)
  from letter_layers [OF this, of a] assms(1-3)
  have first_key: "on_event S (Character ''g'') a = (Inr True, ?g)"
    by (subst plain_event) (simp_all add: g_keys_def Let_def say_def)
  have s: "letter s" "s \<noteq> ''G''" "map_of g_table s = Some tab"
    using g_table_letters [OF assms(4)] by simp_all
  have "ap_tab ?g = 0 \<and> level (ap_focus ?g) = Widget \<longrightarrow> s \<notin> {''h'', ''j'', ''k'', ''l''}"
    using assms(4,5) by (auto simp: g_table_def)
  from letter_layers [OF s(1) this] assms(1,2)
  have "on_event S (Character s) ?g = (Inr True, goto tab (?g\<lparr>ap_g_pending := False\<rparr>))"
    by (subst plain_event) (simp_all add: g_keys_def g_follow_up_def s Let_def)
  moreover have "?g\<lparr>ap_g_pending := False\<rparr> = ?p" using idle by simp
  ultimately show ?thesis by (simp only: first_key prod.case)
qed

theorem g_letter_navigates_witness:
  "(case on_event no_services (Character ''g'') started of (r1, a1) \<Rightarrow>
     r1 = Inr True \<and> on_event no_services (Character ''D'') a1 =
       (Inr True, goto 6 (started\<lparr>ap_status := ''g- pending (d/a/t/b)''\<rparr>)))"
  by (rule g_letter_navigates) (use started_bare in \<open>simp_all add: g_table_def started_def fresh_app_def\<close>)

text \<open>Leaving the application: q stores the data first, Escape outside the overlays and the widgets does not
  touch the world at all.\<close>

theorem leaving:
  assumes "\<not> is_open (ap_palette a)" and "\<not> ap_help a" and "\<not> ap_g_pending a"
    and "ap_tab a = 0 \<longrightarrow> level (ap_focus a) = Dashboard"
  shows "on_event S (Character ''q'') a = (Inr True, (save_app S a)\<lparr>ap_exited := True\<rparr>) \<and>
    on_event S Escape a = (Inr True, a\<lparr>ap_exited := True\<rparr>)"
proof
  have "letter ''q''" by (simp add: letter_def)
  from letter_layers [OF this, of a] assms
  have "on_event S (Character ''q'') a = (Inr True, (save_app S (a\<lparr>ap_g_pending := False\<rparr>))\<lparr>ap_exited := True\<rparr>)"
    by (subst plain_event) (simp_all add: g_keys_def last_keys_def Let_def)
  moreover have "a\<lparr>ap_g_pending := False\<rparr> = a" using assms(3) by (cases a) simp
  ultimately show "on_event S (Character ''q'') a = (Inr True, (save_app S a)\<lparr>ap_exited := True\<rparr>)" by simp
  have "dashboard_keys Escape a = (False, a)"
    using assms(4) escape_at_dashboard [of "ap_focus a"] by (auto simp: dashboard_keys_def)
  then show "on_event S Escape a = (Inr True, a\<lparr>ap_exited := True\<rparr>)"
    using assms(1,2) by (simp add: on_event_def palette_layer_def help_layer_def hotkeys_def exit_and_entity_keys_def)
qed

theorem leaving_witness:
  "on_event no_services Escape started = (Inr True, started\<lparr>ap_exited := True\<rparr>)"
  by (rule leaving [THEN conjunct2]) (use started_bare in \<open>simp_all add: started_def fresh_app_def new_controller_def\<close>)

text \<open>Refreshing keeps the index of the entity: with the index past the end of the list that was read
  the views would be set from memory outside the list, in every other case the answer tells whether
  the load succeeded.\<close>

theorem refresh_outcome:
  assumes "store_load (sv_storage S) (ap_store a) (ap_world a) = (Inr ok, d, w)"
  shows "fst (dispatch S Refresh a) =
      (if ds_entities d \<noteq> [] \<and> length (ds_entities d) \<le> ap_entity a then Inl out_of_range else Inr ()) \<and>
    ap_entity (snd (dispatch S Refresh a)) = ap_entity a \<and> ap_store (snd (dispatch S Refresh a)) = d \<and>
    (ok \<longleftrightarrow> ap_status (snd (dispatch S Refresh a)) = ''Refreshed from backend.'')"
proof -
  have "''Refresh failed: '' @ m \<noteq> ''Refreshed from backend.''" for m by simp
  then show ?thesis
    by (simp add: refresh_app_def assms Let_def update_views_for_entity_def say_def)
qed

text \<open>A service that finds one entity, then none of the ones before it: after 2 selected the second of two
  entities, a refresh that finds one reads outside the list.\<close>

definition shrinking_storage :: "unit storage_service" where
  "shrinking_storage = \<lparr>op_load = \<lambda>c s. (Inr True, c\<lparr>ds_entities :=
       [\<lparr>e_id = ''e'', e_name = [], e_type = Individual, e_tax_id = [], e_active = True, e_created_at = []\<rparr>]\<rparr>, s),
     op_save = \<lambda>c s. (True, s), op_error = \<lambda>_. []\<rparr>"

definition second_selected :: "unit app" where
  "second_selected = started\<lparr>ap_entity := 1\<rparr>"

theorem refresh_outcome_witness:
  "fst (dispatch (no_services\<lparr>sv_storage := Some shrinking_storage\<rparr>) Refresh second_selected) = Inl out_of_range"
proof -
  let ?S = "no_services\<lparr>sv_storage := Some shrinking_storage\<rparr>"
  let ?e = "\<lparr>e_id = ''e'', e_name = [], e_type = Individual, e_tax_id = [], e_active = True, e_created_at = []\<rparr>"
  have l: "store_load (sv_storage ?S) (ap_store second_selected) (ap_world second_selected) =
      (Inr True, with_collections (collections.truncate (ap_store second_selected)\<lparr>ds_entities := [?e]\<rparr>) (ap_store second_selected), ())"
    by (simp add: store_load_def shrinking_storage_def Let_def)
  show ?thesis
    by (subst refresh_outcome [OF l, THEN conjunct1])
       (simp add: with_collections_def collections.defs second_selected_def)
qed

text \<open>Selecting an entity that has no account leaves the transactions view on the account it showed
  before, whatever entity that account belongs to.\<close>

theorem entity_without_accounts:
  assumes "n < length (ds_entities (ap_store a))"
    and "get_accounts_for_entity (e_id (ds_entities (ap_store a) ! n)) (ap_store a) = []"
  shows "fst (select_entity n a) = Inr () \<and> ap_entity (snd (select_entity n a)) = n \<and>
    vs_tx_entity (ap_views (snd (select_entity n a))) = e_id (ds_entities (ap_store a) ! n) \<and>
    vs_tx_account (ap_views (snd (select_entity n a))) = vs_tx_account (ap_views a)"
proof -
  have "ds_entities (ap_store a) \<noteq> []" using assms(1) by auto
  then show ?thesis using assms
    by (simp add: select_entity_def update_views_for_entity_def show_entity_def Let_def)
qed

definition two_entities :: "unit app" where
  "two_entities = started\<lparr>ap_store := (ap_store started)\<lparr>ds_entities :=
     [\<lparr>e_id = ''e'', e_name = [], e_type = Individual, e_tax_id = [], e_active = True, e_created_at = []\<rparr>,
      \<lparr>e_id = ''f'', e_name = [], e_type = Individual, e_tax_id = [], e_active = True, e_created_at = []\<rparr>]\<rparr>\<rparr>
     \<lparr>ap_views := (ap_views started)\<lparr>vs_tx_account := ''account of e''\<rparr>\<rparr>"

theorem entity_without_accounts_witness:
  "vs_tx_account (ap_views (snd (select_entity 1 two_entities))) = ''account of e''"
proof -
  have "ds_accounts (ap_store two_entities) = []"
    by (simp add: two_entities_def started_def new_data_store_def init_default_categories_def
        empty_collections_def collections.defs)
  then have "get_accounts_for_entity x (ap_store two_entities) = []" for x
    by (simp add: get_accounts_for_entity_def)
  moreover have "1 < length (ds_entities (ap_store two_entities))" by (simp add: two_entities_def)
  ultimately show ?thesis
    using entity_without_accounts [of 1 two_entities] by (simp add: two_entities_def)
qed

end
