(* ===== verification/Std_Map.thy ===== *)
theory Std_Map
  imports Main "HOL-Library.Multiset" "HOL-Library.Char_ord" "HOL-Library.List_Lexorder"
begin

text \<open>The ordered map of the C++ library as the client's code uses it: a list of keys and values in the order
  of the keys, with lookup, assignment, \<^verbatim>\<open>operator[]\<close> followed by a change of the cell, and iteration.
  The lemmas: assignment keeps the keys in order, and a lookup sees exactly the last assignment.\<close>

type_synonym ('k, 'v) std_map = "('k \<times> 'v) list"

fun map_set :: "'k::linorder \<Rightarrow> 'v \<Rightarrow> ('k, 'v) std_map \<Rightarrow> ('k, 'v) std_map" where
  "map_set k v [] = [(k, v)]"
| "map_set k v ((j, u) # m) =
     (if k < j then (k, v) # (j, u) # m else if k = j then (k, v) # m else (j, u) # map_set k v m)"

definition map_cell :: "'v \<Rightarrow> 'k \<Rightarrow> ('k, 'v) std_map \<Rightarrow> 'v" where
  "map_cell d k m = (case map_of m k of None \<Rightarrow> d | Some v \<Rightarrow> v)"

text \<open>\<^verbatim>\<open>m[k]\<close>, which creates the cell with its default, changed by a function.\<close>

definition map_change :: "'v \<Rightarrow> 'k::linorder \<Rightarrow> ('v \<Rightarrow> 'v) \<Rightarrow> ('k, 'v) std_map \<Rightarrow> ('k, 'v) std_map" where
  "map_change d k f m = map_set k (f (map_cell d k m)) m"

definition map_ok :: "('k::linorder, 'v) std_map \<Rightarrow> bool" where
  "map_ok m \<longleftrightarrow> sorted_wrt (<) (map fst m)"

named_theorems std_map

lemma map_of_set [std_map]: "map_of (map_set k v m) = (map_of m)(k \<mapsto> v)" if "map_ok m"
  using that by (induction m) (auto simp: map_ok_def fun_eq_iff dest: order.strict_trans)

lemma keys_set [std_map]: "fst ` set (map_set k v m) = insert k (fst ` set m)"
proof (induction m)
  case (Cons x m)
  then show ?case by (cases x) (simp add: insert_commute)
qed simp

lemma map_ok_set [std_map]: "map_ok m \<Longrightarrow> map_ok (map_set k v m)"
proof (induction m)
  case (Cons x m)
  obtain j u where x: "x = (j, u)" by (cases x)
  have "\<forall>i \<in> fst ` set (map_set k v m). j < i" if "j < k"
    unfolding keys_set using that Cons.prems by (auto simp: map_ok_def x)
  then show ?case using Cons by (auto simp: map_ok_def x dest: order.strict_trans)
qed (simp add: map_ok_def)

lemma map_ok_Nil [std_map, simp]: "map_ok []"
  by (simp add: map_ok_def)

lemma map_ok_distinct: "map_ok m \<Longrightarrow> distinct (map fst m)"
  by (simp add: map_ok_def strict_sorted_iff)

lemma map_ok_change [std_map]: "map_ok m \<Longrightarrow> map_ok (map_change d k f m)"
  by (simp add: map_change_def map_ok_set)

lemma cell_change [std_map]:
  "map_ok m \<Longrightarrow> map_cell d j (map_change d k f m) = (if j = k then f (map_cell d k m) else map_cell d j m)"
  by (simp add: map_change_def map_cell_def map_of_set)

lemma keys_change [std_map]: "fst ` set (map_change d k f m) = insert k (fst ` set m)"
  by (simp add: map_change_def keys_set)

text \<open>A loop that changes the cell of every element's key gathers, key by key, the changes of its elements.\<close>

definition gather :: "'v \<Rightarrow> ('a \<Rightarrow> 'k::linorder) \<Rightarrow> ('a \<Rightarrow> 'v \<Rightarrow> 'v) \<Rightarrow> 'a list \<Rightarrow> ('k, 'v) std_map \<Rightarrow> ('k, 'v) std_map" where
  "gather d key f xs m = foldl (\<lambda>m x. map_change d (key x) (f x) m) m xs"

lemma gather_ok [std_map]: "map_ok m \<Longrightarrow> map_ok (gather d key f xs m)"
  by (induction xs arbitrary: m) (simp_all add: gather_def map_ok_change)

lemma gather_keys [std_map]: "fst ` set (gather d key f xs m) = fst ` set m \<union> key ` set xs"
  by (induction xs arbitrary: m) (auto simp: gather_def keys_change)

lemma gather_cell [std_map]:
  "map_ok m \<Longrightarrow> map_cell d k (gather d key f xs m) =
     foldl (\<lambda>v x. f x v) (map_cell d k m) (filter (\<lambda>x. key x = k) xs)"
  by (induction xs arbitrary: m) (simp_all add: gather_def map_ok_change cell_change)

lemma cell_mem: "map_ok m \<Longrightarrow> (k, v) \<in> set m \<Longrightarrow> map_cell d k m = v"
  using map_ok_distinct [of m] by (simp add: map_cell_def)

text \<open>Grouping a list by a key: every element is in the group of its key, in the order of the list, once.\<close>

lemma mset_groups:
  "distinct ks \<Longrightarrow> key ` set xs \<subseteq> set ks \<Longrightarrow> mset (concat (map (\<lambda>k. filter (\<lambda>x. key x = k) xs) ks)) = mset xs"
proof (induction ks arbitrary: xs)
  case (Cons k ks)
  let ?rest = "filter (\<lambda>x. key x \<noteq> k) xs"
  have "filter (\<lambda>x. key x = j) xs = filter (\<lambda>x. key x = j) ?rest" if "j \<in> set ks" for j
    using that Cons.prems(1) by (auto intro: filter_cong)
  then have "map (\<lambda>j. filter (\<lambda>x. key x = j) xs) ks = map (\<lambda>j. filter (\<lambda>x. key x = j) ?rest) ks" by simp
  moreover have "mset (concat (map (\<lambda>j. filter (\<lambda>x. key x = j) ?rest) ks)) = mset ?rest"
    by (rule Cons.IH) (use Cons.prems in auto)
  ultimately show ?case by (simp only: list.map concat.simps mset_append mset_filter) simp
qed simp

lemma fold_snoc: "foldl (\<lambda>v x. v @ [x]) ys xs = ys @ xs"
  by (induction xs arbitrary: ys) simp_all

definition group_by :: "('a \<Rightarrow> 'k::linorder) \<Rightarrow> 'a list \<Rightarrow> ('k, 'a list) std_map" where
  "group_by key xs = gather [] key (\<lambda>x g. g @ [x]) xs []"

lemma group_by_ok: "map_ok (group_by key xs)"
  by (simp add: group_by_def gather_ok)

lemma group_by_cell: "map_cell [] k (group_by key xs) = filter (\<lambda>x. key x = k) xs"
  by (simp add: group_by_def gather_cell fold_snoc) (simp add: map_cell_def)

lemma group_by_mem: "(k, g) \<in> set (group_by key xs) \<Longrightarrow> g = filter (\<lambda>x. key x = k) xs"
  using cell_mem [OF group_by_ok] group_by_cell by metis

lemma group_by_mset: "mset (concat (map snd (group_by key xs))) = mset xs"
proof -
  have snd_fst: "map snd (group_by key xs) = map (\<lambda>k. filter (\<lambda>x. key x = k) xs) (map fst (group_by key xs))"
    using group_by_mem [of _ _ key xs] by (auto simp: map_eq_conv)
  have "key ` set xs \<subseteq> set (map fst (group_by key xs))"
    by (simp add: group_by_def gather_keys)
  then show ?thesis
    unfolding snd_fst by (intro mset_groups map_ok_distinct group_by_ok)
qed

end
