(* ===== verification/Consolidation_Service.thy ===== *)
theory Consolidation_Service
  imports Data_Store Number_Format Std_Map
begin

text \<open>Merging what Plaid returns into the client's data (src/src/services/ConsolidationService.cpp):
  transactions are recognised by the text of identifier, amount and date, then by the identifier
  alone; accounts by the identifier made from Plaid's; and the sums over the kinds of account.
  What is shown: every incoming transaction is counted once and merging the same batch again adds
  nothing; what a merge of accounts keeps; the net worth of the sums is their total.\<close>

section \<open>Transactions\<close>

record plaid_transaction =
  pt_id :: string
  pt_account :: string
  pt_date :: string
  pt_amount :: rat
  pt_description :: string
  pt_category :: string
  pt_pending :: bool

record plaid_account =
  pa_id :: string
  pa_name :: string
  pa_type :: string
  pa_subtype :: string
  pa_balance :: rat

definition transaction_hash :: "string \<Rightarrow> rat \<Rightarrow> string \<Rightarrow> string" where
  "transaction_hash i amount date = i @ ''|'' @ fixed_text 2 amount @ ''|'' @ date"

definition plaid_hash :: "plaid_transaction \<Rightarrow> string" where
  "plaid_hash t = transaction_hash (pt_id t) (pt_amount t) (pt_date t)"

definition stored_hash :: "transaction \<Rightarrow> string" where
  "stored_hash t = transaction_hash (t_plaid_id t) (t_amount t) (t_date t)"

definition category_words :: "((string \<times> string) \<times> string) list" where
  "category_words = [((''food'', ''restaurant''), ''cat_food''), ((''travel'', ''transport''), ''cat_transport''),
     ((''shop'', ''merchandise''), ''cat_shopping''), ((''util'', ''electric''), ''cat_utilities''),
     ((''enter'', ''recreation''), ''cat_entertainment''), ((''health'', ''medical''), ''cat_health''),
     ((''transfer'', ''transfer''), ''cat_transfer''), ((''deposit'', ''payroll''), ''cat_salary'')]"

definition map_category :: "string \<Rightarrow> string" where
  "map_category plaid_category =
     (let low = to_lower plaid_category in
      case find (\<lambda>((u, v), _). contains_sub u low \<or> contains_sub v low) category_words of
        Some (_, c) \<Rightarrow> c | None \<Rightarrow> ''cat_other_expense'')"

text \<open>The sign is turned: Plaid counts what leaves an account as positive.\<close>

definition normalize :: "string \<Rightarrow> plaid_transaction \<Rightarrow> transaction" where
  "normalize account_id pt = \<lparr>t_id = ''tx_'' @ pt_id pt, t_account = account_id, t_date = pt_date pt,
     t_amount = - pt_amount pt, t_description = pt_description pt,
     t_category = (if pt_category pt = [] then ''cat_other_expense'' else map_category (pt_category pt)),
     t_pending = pt_pending pt, t_plaid_id = pt_id pt, t_notes = [], t_check = []\<rparr>"

definition normalize_transactions :: "plaid_transaction list \<Rightarrow> string \<Rightarrow> transaction list" where
  "normalize_transactions pts account_id = map (normalize account_id) pts"

record dedup_result =
  dr_new :: nat
  dr_duplicate :: nat
  dr_updated :: nat

definition same_plaid :: "transaction \<Rightarrow> transaction \<Rightarrow> bool" where
  "same_plaid inc t \<longleftrightarrow> t_plaid_id t = t_plaid_id inc \<and> t_plaid_id t \<noteq> []"

definition refresh_from :: "transaction \<Rightarrow> transaction \<Rightarrow> transaction" where
  "refresh_from inc t = t\<lparr>t_notes := (if t_notes t = [] \<and> t_notes inc \<noteq> [] then t_notes inc else t_notes t),
     t_category := (if t_category t = [] \<and> t_category inc \<noteq> [] then t_category inc else t_category t),
     t_pending := t_pending inc\<rparr>"

fun change_first :: "('a \<Rightarrow> bool) \<Rightarrow> ('a \<Rightarrow> 'a) \<Rightarrow> 'a list \<Rightarrow> 'a list" where
  "change_first P f [] = []"
| "change_first P f (x # xs) = (if P x then f x # xs else x # change_first P f xs)"

type_synonym merging = "transaction list \<times> string set \<times> dedup_result"

definition merge_one :: "merging \<Rightarrow> transaction \<Rightarrow> merging" where
  "merge_one s inc = (case s of (ex, hs, r) \<Rightarrow>
     (if stored_hash inc \<in> hs then (ex, hs, r\<lparr>dr_duplicate := dr_duplicate r + 1\<rparr>)
      else if list_ex (same_plaid inc) ex
      then (change_first (same_plaid inc) (refresh_from inc) ex, hs, r\<lparr>dr_updated := dr_updated r + 1\<rparr>)
      else (ex @ [inc], insert (stored_hash inc) hs, r\<lparr>dr_new := dr_new r + 1\<rparr>)))"

definition existing_hashes :: "transaction list \<Rightarrow> string set" where
  "existing_hashes ex = set (map stored_hash (filter (\<lambda>t. t_plaid_id t \<noteq> []) ex))"

definition merge_transactions :: "transaction list \<Rightarrow> transaction list \<Rightarrow> dedup_result \<times> transaction list" where
  "merge_transactions ex inc =
     (case foldl merge_one (ex, existing_hashes ex, \<lparr>dr_new = 0, dr_duplicate = 0, dr_updated = 0\<rparr>) inc of
        (ex1, _, r) \<Rightarrow> (r, ex1))"

section \<open>Accounts\<close>

definition plaid_account_type :: "plaid_account \<Rightarrow> account_type" where
  "plaid_account_type pa =
     (if pa_type pa = ''depository'' then (if pa_subtype pa = ''savings'' then Savings else Checking)
      else if pa_type pa = ''credit'' then CreditCard
      else if pa_type pa = ''investment'' then Investment
      else OtherAccount)"

definition plaid_account_id :: "plaid_account \<Rightarrow> string" where
  "plaid_account_id pa = ''acc_plaid_'' @ pa_id pa"

definition new_plaid_account :: "string \<Rightarrow> plaid_account \<Rightarrow> account" where
  "new_plaid_account entity_id pa = \<lparr>a_id = plaid_account_id pa, a_name = pa_name pa, a_entity = entity_id,
     a_type = plaid_account_type pa, a_balance = pa_balance pa, a_institution = [], a_item = pa_id pa,
     a_linked = False, a_active = True\<rparr>"

definition merge_account :: "string \<Rightarrow> (string, account) std_map \<Rightarrow> plaid_account \<Rightarrow> (string, account) std_map" where
  "merge_account entity_id m pa =
     map_set (plaid_account_id pa)
       (case map_of m (plaid_account_id pa) of
          Some acc \<Rightarrow> acc\<lparr>a_balance := pa_balance pa, a_name := pa_name pa, a_active := True\<rparr>
        | None \<Rightarrow> new_plaid_account entity_id pa) m"

definition merge_accounts :: "account list \<Rightarrow> plaid_account list \<Rightarrow> string \<Rightarrow> account list" where
  "merge_accounts ex pas entity_id =
     map snd (foldl (merge_account entity_id) (foldl (\<lambda>m acc. map_set (a_id acc) acc m) [] ex) pas)"

section \<open>Liquidity\<close>

record liquidity =
  lq_checking :: rat
  lq_savings :: rat
  lq_credit :: rat
  lq_investment :: rat
  lq_total :: rat
  lq_net_worth :: rat

definition add_liquidity :: "liquidity \<Rightarrow> account \<Rightarrow> liquidity" where
  "add_liquidity l acc =
     (if \<not> a_active acc then l
      else let b = a_balance acc;
               both = l\<lparr>lq_total := dadd (lq_total l) b, lq_net_worth := dadd (lq_net_worth l) b\<rparr> in
        case a_type acc of
          Checking \<Rightarrow> both\<lparr>lq_checking := dadd (lq_checking l) b\<rparr>
        | Savings \<Rightarrow> both\<lparr>lq_savings := dadd (lq_savings l) b\<rparr>
        | CreditCard \<Rightarrow> both\<lparr>lq_credit := dadd (lq_credit l) b\<rparr>
        | Investment \<Rightarrow> both\<lparr>lq_investment := dadd (lq_investment l) b\<rparr>
        | _ \<Rightarrow> l)"

definition calculate_liquidity :: "account list \<Rightarrow> liquidity" where
  "calculate_liquidity accs = foldl add_liquidity
     \<lparr>lq_checking = 0, lq_savings = 0, lq_credit = 0, lq_investment = 0, lq_total = 0, lq_net_worth = 0\<rparr> accs"

section \<open>Merging transactions\<close>

lemma change_first_map:
  "(\<And>x. g (f x) = g x) \<Longrightarrow> map g (change_first P f xs) = map g xs"
  by (induction xs) simp_all

lemma length_change_first [simp]: "length (change_first P f xs) = length xs"
  by (induction xs) simp_all

text \<open>The part of a transaction a merge never changes.\<close>

definition fixed_part :: "transaction \<Rightarrow> transaction" where
  "fixed_part t = t\<lparr>t_notes := [], t_category := [], t_pending := False\<rparr>"

lemma fixed_part_refresh [simp]: "fixed_part (refresh_from inc t) = fixed_part t"
  by (simp add: fixed_part_def refresh_from_def)

lemma fixed_part_hash: "stored_hash (fixed_part t) = stored_hash t" "t_plaid_id (fixed_part t) = t_plaid_id t"
  by (simp_all add: fixed_part_def stored_hash_def)

definition tally :: "dedup_result \<Rightarrow> nat" where
  "tally r = dr_new r + dr_duplicate r + dr_updated r"

lemma merge_one_shape:
  assumes "merge_one (ex, hs, r) inc = (ex', hs', r')"
  shows "tally r' = Suc (tally r)" "hs \<subseteq> hs'"
    "\<exists>extra. map fixed_part ex' = map fixed_part ex @ extra \<and> length extra = dr_new r' - dr_new r"
    "dr_new r \<le> dr_new r'"
  using assms by (auto simp: merge_one_def tally_def change_first_map [of fixed_part] split: if_splits)

lemma merge_all_shape:
  assumes "foldl merge_one (ex, hs, r) inc = (ex', hs', r')"
  shows "tally r' = tally r + length inc \<and> dr_new r \<le> dr_new r' \<and>
    (\<exists>extra. map fixed_part ex' = map fixed_part ex @ extra \<and> length extra = dr_new r' - dr_new r)"
  using assms
proof (induction inc arbitrary: ex hs r)
  case (Cons t inc)
  obtain ex1 hs1 r1 where one: "merge_one (ex, hs, r) t = (ex1, hs1, r1)" by (metis prod.collapse)
  then have rest: "foldl merge_one (ex1, hs1, r1) inc = (ex', hs', r')" using Cons.prems by simp
  from Cons.IH [OF rest] merge_one_shape [OF one] obtain m1 m2 where
    "map fixed_part ex1 = map fixed_part ex @ m1" "length m1 = dr_new r1 - dr_new r" "dr_new r \<le> dr_new r1"
    "map fixed_part ex' = map fixed_part ex1 @ m2" "length m2 = dr_new r' - dr_new r1" "dr_new r1 \<le> dr_new r'"
    "tally r' = tally r1 + length inc" "tally r1 = Suc (tally r)" by blast
  then show ?case by (intro conjI exI [of _ "m1 @ m2"]) simp_all
qed simp

text \<open>A transaction is known to a list that has its hash or its identifier; a known one is not added.\<close>

definition known :: "transaction list \<Rightarrow> transaction \<Rightarrow> bool" where
  "known ex t \<longleftrightarrow> stored_hash t \<in> existing_hashes ex \<or> list_ex (same_plaid t) ex"

lemma hashes_fixed: "existing_hashes (map fixed_part ex) = existing_hashes ex"
  by (force simp: existing_hashes_def fixed_part_hash image_iff)

lemma known_fixed: "known (map fixed_part ex) t = known ex t"
  by (simp add: known_def hashes_fixed list_ex_iff same_plaid_def fixed_part_hash)

lemma known_append: "known ex t \<Longrightarrow> known (ex @ extra) t"
  by (auto simp: known_def existing_hashes_def)

lemma known_cong: "map fixed_part ex = map fixed_part ex' \<Longrightarrow> known ex t = known ex' t"
  by (metis known_fixed)

lemma known_grows: "map fixed_part ex' = map fixed_part ex @ extra \<Longrightarrow> known ex t \<Longrightarrow> known ex' t"
  by (metis known_append known_fixed)

lemma hashes_grow: "map fixed_part ex' = map fixed_part ex @ extra \<Longrightarrow> existing_hashes ex \<subseteq> existing_hashes ex'"
  by (metis hashes_fixed existing_hashes_def filter_append map_append set_append Un_upper1)

lemma merge_one_known:
  assumes "hs \<subseteq> existing_hashes ex" and "t_plaid_id t \<noteq> []" and "merge_one (ex, hs, r) t = (ex', hs', r')"
  shows "known ex' t \<and> hs' \<subseteq> existing_hashes ex'"
proof -
  have upd: "known (change_first P (refresh_from t) ex) u = known ex u"
    "existing_hashes (change_first P (refresh_from t) ex) = existing_hashes ex" for P u
    using known_cong [OF change_first_map [of fixed_part "refresh_from t" P ex]]
      hashes_fixed [of "change_first P (refresh_from t) ex"] hashes_fixed [of ex]
    by (simp_all add: change_first_map)
  show ?thesis
    using assms unfolding merge_one_def
    by (auto simp: upd split: if_splits) (auto simp: known_def existing_hashes_def same_plaid_def)
qed

lemma merge_all_known:
  assumes "hs \<subseteq> existing_hashes ex" and "list_all (\<lambda>t. t_plaid_id t \<noteq> []) inc"
    and "foldl merge_one (ex, hs, r) inc = (ex', hs', r')"
  shows "list_all (known ex') inc"
  using assms
proof (induction inc arbitrary: ex hs r)
  case (Cons t inc)
  obtain ex1 hs1 r1 where one: "merge_one (ex, hs, r) t = (ex1, hs1, r1)" by (metis prod.collapse)
  then have rest: "foldl merge_one (ex1, hs1, r1) inc = (ex', hs', r')" using Cons.prems by simp
  have k: "known ex1 t" "hs1 \<subseteq> existing_hashes ex1"
    using merge_one_known [OF Cons.prems(1) _ one] Cons.prems(2) by simp_all
  obtain extra where "map fixed_part ex' = map fixed_part ex1 @ extra" using merge_all_shape [OF rest] by blast
  then have "known ex' t" using known_grows k(1) by blast
  then show ?case using Cons.IH [OF k(2) _ rest] Cons.prems(2) by simp
qed simp

lemma remerge_known:
  assumes "list_all (known ex) inc" and "foldl merge_one (ex, existing_hashes ex, r) inc = (ex', hs', r')"
  shows "dr_new r' = dr_new r \<and> map fixed_part ex' = map fixed_part ex"
  using assms
proof (induction inc arbitrary: ex r)
  case (Cons t inc)
  obtain ex1 hs1 r1 where one: "merge_one (ex, existing_hashes ex, r) t = (ex1, hs1, r1)" by (metis prod.collapse)
  then have rest: "foldl merge_one (ex1, hs1, r1) inc = (ex', hs', r')" using Cons.prems by simp
  have k: "stored_hash t \<in> existing_hashes ex \<or> list_ex (same_plaid t) ex"
    using Cons.prems(1) by (simp add: known_def)
  then have same: "dr_new r1 = dr_new r" "map fixed_part ex1 = map fixed_part ex" "hs1 = existing_hashes ex"
    using one by (auto simp: merge_one_def change_first_map [of fixed_part] split: if_splits)
  then have "hs1 = existing_hashes ex1" by (metis hashes_fixed)
  moreover have "known ex1 = known ex" using known_cong [OF same(2)] by (intro ext)
  then have "list_all (known ex1) inc" using Cons.prems(1) by simp
  ultimately show ?case using Cons.IH [of ex1 r1] rest same by simp
qed simp

text \<open>C32. Merging a batch in which every transaction has Plaid's identifier: each one is counted as new, duplicate
  or updated exactly once, the list grows by the new ones and keeps the identity, amount and date of
  the rest; and merging the same batch again adds nothing.\<close>

theorem remerge_adds_nothing:
  assumes "list_all (\<lambda>t. t_plaid_id t \<noteq> []) inc"
    and "merge_transactions ex inc = (r, ex1)" and "merge_transactions ex1 inc = (r2, ex2)"
  shows "dr_new r + dr_duplicate r + dr_updated r = length inc \<and> length ex1 = length ex + dr_new r \<and>
    map fixed_part (take (length ex) ex1) = map fixed_part ex \<and>
    dr_new r2 = 0 \<and> map fixed_part ex2 = map fixed_part ex1"
proof -
  let ?r0 = "\<lparr>dr_new = 0, dr_duplicate = 0, dr_updated = 0\<rparr>"
  obtain hs1 where one: "foldl merge_one (ex, existing_hashes ex, ?r0) inc = (ex1, hs1, r)"
    using assms(2) by (auto simp: merge_transactions_def split: prod.splits)
  obtain hs2 where two: "foldl merge_one (ex1, existing_hashes ex1, ?r0) inc = (ex2, hs2, r2)"
    using assms(3) by (auto simp: merge_transactions_def split: prod.splits)
  from merge_all_shape [OF one] obtain extra where
    m: "tally r = length inc" "map fixed_part ex1 = map fixed_part ex @ extra" "length extra = dr_new r"
    by (auto simp: tally_def)
  have "length (map fixed_part ex1) = length (map fixed_part ex @ extra)" by (simp only: m(2))
  moreover have "map fixed_part (take (length ex) ex1) = map fixed_part ex"
    by (simp add: m(2) flip: take_map)
  ultimately show ?thesis
    using remerge_known [OF merge_all_known [OF _ assms(1) one] two] m(1,3) by (simp add: tally_def)
qed

definition coffee :: "string \<Rightarrow> rat \<Rightarrow> transaction" where
  "coffee i amount = \<lparr>t_id = ''tx_'' @ i, t_account = ''a'', t_date = ''2026-04-01'', t_amount = amount,
     t_description = ''Coffee'', t_category = ''cat_food'', t_pending = False, t_plaid_id = i, t_notes = [], t_check = []\<rparr>"

theorem remerge_adds_nothing_witness:
  "dr_new (fst (merge_transactions (snd (merge_transactions [] [coffee ''p'' (- 4), coffee ''q'' (- 5)]))
     [coffee ''p'' (- 4), coffee ''q'' (- 5)])) = 0"
proof -
  let ?inc = "[coffee ''p'' (- 4), coffee ''q'' (- 5)]"
  have ids: "list_all (\<lambda>t. t_plaid_id t \<noteq> []) ?inc" by (simp add: coffee_def)
  obtain r ex1 where one: "merge_transactions [] ?inc = (r, ex1)" by (metis prod.collapse)
  obtain r2 ex2 where two: "merge_transactions ex1 ?inc = (r2, ex2)" by (metis prod.collapse)
  from remerge_adds_nothing [OF ids one two] show ?thesis by (simp only: one two fst_conv snd_conv)
qed

text \<open>Without an identifier a transaction is never recognised: it is added again by every merge.\<close>

lemma nameless_added_again:
  assumes "t_plaid_id t = []" and "stored_hash t \<notin> existing_hashes ex"
  shows "merge_transactions ex [t] = (\<lparr>dr_new = 1, dr_duplicate = 0, dr_updated = 0\<rparr>, ex @ [t])"
  using assms by (simp add: merge_transactions_def merge_one_def list_ex_iff same_plaid_def)

section \<open>Merging accounts and liquidity\<close>

text \<open>A map of accounts by their identifier.\<close>

definition by_id :: "(string, account) std_map \<Rightarrow> bool" where
  "by_id m \<longleftrightarrow> map_ok m \<and> (\<forall>k a. map_of m k = Some a \<longrightarrow> a_id a = k)"

lemma by_id_set: "by_id m \<Longrightarrow> a_id a = k \<Longrightarrow> by_id (map_set k a m)"
  by (auto simp: by_id_def map_ok_set map_of_set)

lemma by_id_existing: "by_id m \<Longrightarrow> by_id (foldl (\<lambda>m acc. map_set (a_id acc) acc m) m xs)"
  by (induction xs arbitrary: m) (simp_all add: by_id_set)

lemma by_id_merge: "by_id m \<Longrightarrow> by_id (merge_account e m pa)"
  unfolding merge_account_def
  by (rule by_id_set) (auto simp: by_id_def new_plaid_account_def split: option.split)

lemma by_id_merge_all: "by_id m \<Longrightarrow> by_id (foldl (merge_account e) m pas)"
  by (induction pas arbitrary: m) (simp_all add: by_id_merge)

lemma by_id_ids:
  assumes "by_id m" shows "map a_id (map snd m) = map fst m"
proof -
  have "a_id (snd x) = fst x" if "x \<in> set m" for x
    using assms map_ok_distinct [of m] that map_of_eq_Some_iff [of m "fst x" "snd x"] by (simp add: by_id_def)
  then show ?thesis unfolding map_map by (intro map_cong) simp_all
qed

text \<open>The merged accounts have distinct identifiers in ascending order, whatever the lists held.\<close>

theorem merged_accounts_distinct:
  "sorted_wrt (<) (map a_id (merge_accounts ex pas e))"
proof -
  have "by_id []" by (simp add: by_id_def)
  then have m: "by_id (foldl (merge_account e) (foldl (\<lambda>m acc. map_set (a_id acc) acc m) [] ex) pas)"
    by (intro by_id_merge_all by_id_existing)
  show ?thesis
    using m unfolding merge_accounts_def by_id_ids [OF m] by_id_def map_ok_def by blast
qed

text \<open>The net worth of the sums is their total: what a credit card owes is not subtracted.\<close>

theorem net_worth_is_total:
  "lq_net_worth (calculate_liquidity accs) = lq_total (calculate_liquidity accs)"
proof -
  have "lq_net_worth (foldl add_liquidity l accs) = lq_total (foldl add_liquidity l accs)"
    if "lq_net_worth l = lq_total l" for l
    using that by (induction accs arbitrary: l) (simp_all add: add_liquidity_def Let_def split: account_type.split)
  then show ?thesis by (simp add: calculate_liquidity_def)
qed

end
