(* ===== verification/Object_Views.thy ===== *)
theory Object_Views
  imports Client_App
begin

text \<open>The views over the server's objects (src/src/views): the graph with its counts, a decision, a
  relationship, the pieces the detail views share, and the status bar. The fields that the application
  never fills are in the extended records.
  What is shown: the rows of the graph; what its counts of nodes and edges are, which are not
  those of a tree.\<close>

section \<open>The graph\<close>

definition entity_kind_label :: "entity \<Rightarrow> string" where
  "entity_kind_label e = (case e_type e of LLC \<Rightarrow> ''llc'' | Corporation \<Rightarrow> ''corporation'' | Trust \<Rightarrow> ''trust''
     | Individual \<Rightarrow> ''individual'' | _ \<Rightarrow> ''entity'')"

definition owned_accounts_text :: "account list \<Rightarrow> string" where
  "owned_accounts_text accs =
     foldl (\<lambda>s a. (if s = [] then [] else s @ '', '') @ (if a_institution a = [] then a_name a else a_institution a))
       [] (take 4 accs) @
     (if length accs > 4 then '', +'' @ nat_to_string (length accs - 4) @ '' more'' else [])"

text \<open>The rows so far with the two counts.\<close>

type_synonym drawing = "element list \<times> nat \<times> nat"

definition draw :: "element list \<Rightarrow> nat \<Rightarrow> nat \<Rightarrow> drawing \<Rightarrow> drawing" where
  "draw es n k g = (case g of (rows, nodes, edges) \<Rightarrow> (rows @ es, nodes + n, edges + k))"

definition plain_row :: "string \<Rightarrow> element" where
  "plain_row s = styled [Coloured FgDefault] (Txt s)"

definition dim_row :: "string \<Rightarrow> element" where
  "dim_row s = styled [Coloured FgDim] (Txt s)"

definition inner :: string where "inner = ''  '' @ trunk @ ''   ''"

definition indexed_transactions :: "account list \<Rightarrow> data_store \<Rightarrow> nat" where
  "indexed_transactions accs d =
     length (filter (\<lambda>t. list_ex (\<lambda>a. t_account t = a_id a) accs) (ds_transactions d))"

definition draw_entity :: "nat \<Rightarrow> data_store \<Rightarrow> drawing \<Rightarrow> entity \<Rightarrow> drawing" where
  "draw_entity depth d g e =
     (let g1 = draw [plain_row (''  '' @ branch @ ''owns'' @ dot @ e_name e @ dot @ entity_kind_label e)] 1 1 g;
          accs = get_accounts_for_entity (e_id e) d; n = indexed_transactions accs d in
      if depth < 2 then g1
      else
        let g2 = (if accs = [] then g1
              else draw [plain_row (inner @ branch @ ''holds'' @ dot @ plural (length accs) ''account'' @ dot @
                       owned_accounts_text accs)] (length accs) (length accs) g1)
        in if n > 0 then draw [dim_row (inner @ last_branch @ plural n ''transaction'' @ '' indexed'')] 0 0 g2 else g2)"

definition max_show :: "nat \<Rightarrow> string list \<Rightarrow> nat" where
  "max_show depth names = min (length names) (depth + 1)"

definition name_rows :: "string \<Rightarrow> nat \<Rightarrow> string list \<Rightarrow> element list" where
  "name_rows margin depth names =
     map (\<lambda>(i, s). plain_row (margin @ (if i + 1 = max_show depth names then last_branch else branch) @ s))
       (enumerate 0 (take (max_show depth names) names))"

definition draw_targets :: "nat \<Rightarrow> nat \<times> string list \<Rightarrow> drawing \<Rightarrow> drawing" where
  "draw_targets depth = (\<lambda>(n, names) g.
     (if n = 0 then g
      else let k = max_show depth names in
        draw ([plain_row (''  '' @ branch @ ''targets'' @ dot @ nat_to_string n @ '' in pipeline'')] @
              name_rows inner depth names @
              (if length names > k
               then [dim_row (inner @ ''    + '' @ nat_to_string (length names - k) @ '' more'')] else [])) k k g))"

definition draw_relationships :: "nat \<Rightarrow> nat \<times> string list \<Rightarrow> drawing \<Rightarrow> drawing" where
  "draw_relationships depth = (\<lambda>(n, names) g.
     (if n = 0 then draw [dim_row (''  '' @ branch @ ''knows'' @ dot @ ''0 people indexed'')] 0 0 g
      else let k = max_show depth names in
        draw ([plain_row (''  '' @ branch @ ''knows'' @ dot @ nat_to_string n @ '' '' @
                 (if n = 1 then ''person'' else ''people'') @ '' indexed'')] @ name_rows inner depth names) k k g))"

definition draw_decisions :: "nat \<Rightarrow> nat \<times> string list \<Rightarrow> drawing \<Rightarrow> drawing" where
  "draw_decisions depth = (\<lambda>(n, names) g.
     (if n = 0 then draw [dim_row (''  '' @ last_branch @ ''decisions'' @ dot @ ''0 logged'')] 0 0 g
      else let k = max_show depth names in
        draw ([plain_row (''  '' @ last_branch @ ''decisions'' @ dot @ nat_to_string n @ '' logged'')] @
              name_rows ''      '' depth names) k 0 g))"

definition draw_graph :: "string \<Rightarrow> graph_view \<Rightarrow> data_store \<Rightarrow> drawing" where
  "draw_graph who v d =
     (let depth = nat (gv_depth v);
          g = ([styled [Coloured FgEmphasized] (Txt (''  you'' @ dot @ who))], 1, 0);
          g1 = foldl (draw_entity depth d) g (ds_entities d);
          g2 = draw_decisions depth (gv_decisions v)
                 (draw_relationships depth (gv_relationships v) (draw_targets depth (gv_targets v) g1))
      in draw [] (fst (gv_targets v) + fst (gv_relationships v) + fst (gv_decisions v)) 0 g2)"

definition graph_view_element :: "string \<Rightarrow> graph_view \<Rightarrow> data_store \<Rightarrow> element" where
  "graph_view_element who v d =
     (case draw_graph who v d of (rows, nodes, edges) \<Rightarrow>
        styled [Flex] (VBox [Txt [], VBox rows, Filler, styled [Coloured FgDim] Sep,
          HBox [dim_row (''  depth '' @ int_to_string (gv_depth v) @ dot @ nat_to_string nodes @ '' nodes'' @ dot @
            nat_to_string edges @ '' edges'' @ dot @ ''filter: f'' @ dot @ ''expand: enter'')]]))"

section \<open>Pieces of the detail views\<close>

definition maybe_text :: "string \<Rightarrow> string" where
  "maybe_text s = (if s = [] then em_dash else s)"

definition header_strip :: "string \<Rightarrow> string \<Rightarrow> string \<Rightarrow> element" where
  "header_strip subtitle title stamp = HBox [dim_row subtitle, dim_row dot,
     styled [Coloured FgEmphasized, Bold] (Txt title), dim_row dot, dim_row stamp]"

definition label_row :: "nat \<Rightarrow> string \<Rightarrow> string \<Rightarrow> element" where
  "label_row width label v = HBox [styled [Coloured FgDim, Width width] (Txt (''  '' @ label)),
     styled [Coloured FgDefault] (Txt (maybe_text v))]"

definition heading :: "string \<Rightarrow> element" where
  "heading title = styled [Coloured FgEmphasized, Bold] (Txt (''  '' @ title))"

definition body_paragraph :: "string \<Rightarrow> element" where
  "body_paragraph md = styled [Coloured FgDefault] (Paragraph (maybe_text md))"

definition bulleted_list :: "string \<Rightarrow> string list \<Rightarrow> element" where
  "bulleted_list empty_message xs =
     (if xs = [] then dim_row (''  '' @ empty_message)
      else VBox (map (\<lambda>s. plain_row ('' '' @ dot @ s)) xs))"

definition tag_chips :: "string list \<Rightarrow> element" where
  "tag_chips tags =
     (if tags = [] then dim_row em_dash
      else HBox (concat (map (\<lambda>(i, s). styled [Coloured AccentPositive] (Txt s) #
             (if i + 1 < length tags then [dim_row ''  ''] else [])) (enumerate 0 tags))))"

section \<open>A decision\<close>

record decision_page = decision_view +
  dv_alternatives :: "string list"
  dv_confidence :: string
  dv_touches :: "string list"
  dv_commit :: string
  dv_prompt :: string

definition decision_element :: "decision_page option \<Rightarrow> element" where
  "decision_element shown = (case shown of
     None \<Rightarrow> styled [Flex] (VBox [Txt [], styled [Coloured FgEmphasized] (Txt (''  decision'' @ dot @ ''(no decision opened)'')),
       Txt [], dim_row ''  Use `:open decision <id>` to open one.''])
   | Some v \<Rightarrow>
       styled [Flex] (VBox [Txt [], header_strip ''decision'' (dv_title v) (maybe_text (dv_decided_at v)),
         styled [Coloured FgDim] Sep,
         HBox [styled [Flex] (VBox [label_row 18 ''deciders'' (dv_deciders v), label_row 18 ''status'' (dv_status v),
                 label_row 18 ''entity scope'' (dv_scope v), label_row 18 ''confidence'' (dv_confidence v)]),
               styled [Coloured FgDim] Sep,
               styled [Flex] (VBox [
                 HBox [styled [Coloured FgDim, Width 12] (Txt ''  touches''), tag_chips (dv_touches v)],
                 label_row 12 ''source'' (dv_source v), label_row 12 ''commit'' (dv_commit v),
                 label_row 12 ''outcome'' (dv_outcome v),
                 (if dv_prompt v = [] then Txt []
                  else HBox [styled [Width 12] (Txt ''  ''), styled [Coloured AccentWarning] (Txt (dv_prompt v))])])],
         Txt [], heading ''rationale'', body_paragraph (dv_body v), Txt [],
         heading ''alternatives considered'', bulleted_list ''no alternatives recorded'' (dv_alternatives v)]))"

section \<open>A relationship\<close>

record relationship_page = relationship_view +
  rv_cadence_ok :: bool
  rv_he_owes :: "string list"
  rv_you_owe :: "string list"
  rv_decisions :: "string list"
  rv_interactions :: "int list"

definition spark_glyph :: "int \<Rightarrow> string" where
  "spark_glyph v = (let k = nat (if v < 0 then 0 else if v > 8 then 8 else v) in if k = 0 then '' '' else block_glyph k)"

definition sparkline :: "int list \<Rightarrow> string" where
  "sparkline samples = (if samples = [] then em_dash else concat (map spark_glyph samples))"

definition relationship_element :: "relationship_page option \<Rightarrow> element" where
  "relationship_element shown = (case shown of
     None \<Rightarrow> styled [Flex] (VBox [Txt [], styled [Coloured FgEmphasized] (Txt (''  person'' @ dot @ ''(no person opened)'')),
       Txt [], dim_row ''  Use `:open <name>` to open a relationship.''])
   | Some v \<Rightarrow>
       styled [Flex] (VBox [Txt [], HBox [styled [Coloured FgEmphasized, Bold] (Txt (rv_name v))],
         styled [Coloured FgDim] Sep,
         styled [Flex] (HBox [
           styled [Flex] (VBox [label_row 18 ''role'' (rv_role v), label_row 18 ''relationship'' (rv_kind v),
             HBox [styled [Coloured FgDim, Width 18] (Txt ''  cadence''),
               styled [Coloured (if rv_cadence_ok v then AccentPositive else AccentWarning)]
                 (Txt (maybe_text (rv_cadence v)))],
             Txt [], label_row 18 ''working on'' (rv_working_on v), Txt [],
             label_row 18 ''last real'' (rv_last_conversation v), label_row 18 ''last text'' (rv_last_text v)]),
           styled [Coloured FgDim] Sep,
           styled [Flex] (VBox [styled [Coloured AccentNegative] (heading ''he owes you''),
             bulleted_list ''nothing outstanding'' (rv_he_owes v), Txt [],
             styled [Coloured AccentWarning] (heading ''you owe him''),
             bulleted_list ''nothing outstanding'' (rv_you_owe v), Txt [],
             heading ''relevant decisions'', bulleted_list em_dash (rv_decisions v), Txt [],
             heading (''interaction frequency'' @ dot @ ''last 90 days''),
             styled [Coloured ThesisUp] (Txt (''  '' @ sparkline (rv_interactions v)))])])]))"

section \<open>The status bar\<close>

definition join_hints :: "string list \<Rightarrow> string" where
  "join_hints hints = concat (map (\<lambda>(i, s). (if i > 0 then ''  '' else []) @ s) (enumerate (0 :: nat) hints))"

definition global_hint_line :: string where
  "global_hint_line = ''  [:] Commands  [?] Help  [1-2] Entity  [Tab] View  [P] Link  [Q] Quit''"

definition status_bar :: "string list \<Rightarrow> element" where
  "status_bar hints = VBox [(if hints = [] then Txt [] else styled [Dim] (Txt (''  '' @ join_hints hints))),
     styled [Dim] (Txt global_hint_line)]"

section \<open>The counts of the graph\<close>

definition nodes :: "drawing \<Rightarrow> nat" where "nodes g = fst (snd g)"
definition edges :: "drawing \<Rightarrow> nat" where "edges g = snd (snd g)"

lemma draw_counts [simp]: "nodes (draw es n k g) = nodes g + n" "edges (draw es n k g) = edges g + k"
  by (simp_all add: draw_def nodes_def edges_def split: prod.split)

definition below :: "nat \<Rightarrow> data_store \<Rightarrow> entity \<Rightarrow> nat" where
  "below depth d e = 1 + (if depth < 2 then 0 else length (get_accounts_for_entity (e_id e) d))"

lemma draw_entity_counts:
  "nodes (draw_entity depth d g e) = nodes g + below depth d e"
  "edges (draw_entity depth d g e) = edges g + below depth d e"
  by (simp_all add: draw_entity_def Let_def below_def)

lemma draw_entities_counts:
  "nodes (foldl (draw_entity depth d) g es) = nodes g + sum_list (map (below depth d) es)"
  "edges (foldl (draw_entity depth d) g es) = edges g + sum_list (map (below depth d) es)"
  by (induction es arbitrary: g) (simp_all add: draw_entity_counts)

definition shown_names :: "nat \<Rightarrow> nat \<times> string list \<Rightarrow> nat" where
  "shown_names depth = (\<lambda>(n, names). if n = 0 then 0 else max_show depth names)"

lemma draw_list_counts:
  "nodes (draw_targets depth t g) = nodes g + shown_names depth t"
  "edges (draw_targets depth t g) = edges g + shown_names depth t"
  "nodes (draw_relationships depth t g) = nodes g + shown_names depth t"
  "edges (draw_relationships depth t g) = edges g + shown_names depth t"
  "nodes (draw_decisions depth t g) = nodes g + shown_names depth t"
  "edges (draw_decisions depth t g) = edges g"
  by (simp_all add: draw_targets_def draw_relationships_def draw_decisions_def shown_names_def Let_def split: prod.split)

text \<open>The counts under the graph: an edge for each entity, account, shown target and shown relationship, and none
  for a decision; a node for each edge, for the root, for each shown decision, and once more for every
  target, relationship and decision the server has, shown or not. So the counts are those of a tree,
  one node more than edges, only when the server has none of the three.\<close>

theorem graph_counts:
  assumes "draw_graph who v d = (rows, n, k)"
  shows "k = (\<Sum>e \<leftarrow> ds_entities d. below (nat (gv_depth v)) d e) + shown_names (nat (gv_depth v)) (gv_targets v) +
      shown_names (nat (gv_depth v)) (gv_relationships v) \<and>
    n = 1 + k + shown_names (nat (gv_depth v)) (gv_decisions v) +
      fst (gv_targets v) + fst (gv_relationships v) + fst (gv_decisions v) \<and>
    (n = k + 1 \<longleftrightarrow> fst (gv_targets v) = 0 \<and> fst (gv_relationships v) = 0 \<and> fst (gv_decisions v) = 0)"
proof -
  have "n = nodes (draw_graph who v d)" "k = edges (draw_graph who v d)"
    by (simp_all add: assms nodes_def edges_def)
  then have k: "k = (\<Sum>e \<leftarrow> ds_entities d. below (nat (gv_depth v)) d e) + shown_names (nat (gv_depth v)) (gv_targets v) +
      shown_names (nat (gv_depth v)) (gv_relationships v)"
    and n: "n = 1 + k + shown_names (nat (gv_depth v)) (gv_decisions v) +
      fst (gv_targets v) + fst (gv_relationships v) + fst (gv_decisions v)"
    unfolding draw_graph_def Let_def draw_counts draw_list_counts draw_entities_counts
    by (simp_all add: nodes_def edges_def)
  have "n = k + 1 \<longleftrightarrow> fst (gv_targets v) = 0 \<and> fst (gv_relationships v) = 0 \<and> fst (gv_decisions v) = 0"
    unfolding n by (auto simp: shown_names_def split: prod.splits)
  with k n show ?thesis by blast
qed

definition one_target :: graph_view where
  "one_target = \<lparr>gv_depth = 2, gv_decisions = (0, []), gv_relationships = (0, []), gv_targets = (1, [''acme''])\<rparr>"

theorem graph_counts_witness: "snd (draw_graph ''you'' one_target new_data_store) = (3, 1)"
proof -
  obtain rows n k where g: "draw_graph ''you'' one_target new_data_store = (rows, n, k)" by (metis prod.collapse)
  from graph_counts [OF this] have "k = 1 \<and> n = 3"
    by (simp add: one_target_def shown_names_def max_show_def)
  then show ?thesis by (simp add: g)
qed

end
