(* ===== verification/List_Views.thy ===== *)
theory List_Views
  imports View_Elements
begin

text \<open>The table views of the client (src/src/views): accounts, transactions, budgets, categories and the
  placeholder. Each builds its rows in a loop with a running index; the row at the selected index is
  highlighted. The width of the terminal and the sort of the library are arguments.
  What is shown: every account in scope has one row, with its amount, and the total under them; and
  drawing the budgets is what recomputes the spent amounts.\<close>

section \<open>Rows\<close>

definition bar :: element where "bar = Txt '' | ''"

text \<open>Cells with a separator between them.\<close>

fun cells :: "element list \<Rightarrow> element list" where
  "cells [] = []"
| "cells [e] = [e]"
| "cells (e # es) = e # bar # cells es"

definition table_row :: "int \<Rightarrow> nat \<Rightarrow> element list \<Rightarrow> element" where
  "table_row sel idx es =
     styled (if int idx = sel then [Bold, Coloured LedBlue] else [Coloured LedBlueDim]) (HBox (cells es))"

definition number_cell :: "nat \<Rightarrow> element" where
  "number_cell idx = Txt (''  '' @ nat_to_string (idx + 1))"

text \<open>The loop over the rows: \<^verbatim>\<open>f\<close> gives the cells of the row with an index.\<close>

definition table_rows :: "int \<Rightarrow> (nat \<Rightarrow> 'a \<Rightarrow> element list) \<Rightarrow> 'a list \<Rightarrow> element list" where
  "table_rows sel f xs = map (\<lambda>(idx, x). table_row sel idx (f idx x)) (enumerate 0 xs)"

section \<open>Accounts\<close>

definition account_kind_text :: "account_type \<Rightarrow> string" where
  "account_kind_text ty = (case ty of Checking \<Rightarrow> ''Checking'' | Savings \<Rightarrow> ''Savings'' | CreditCard \<Rightarrow> ''Credit''
     | Investment \<Rightarrow> ''Invest'' | Cash \<Rightarrow> ''Cash'' | _ \<Rightarrow> ''Other'')"

definition accounts_in_scope :: "string \<Rightarrow> data_store \<Rightarrow> account list" where
  "accounts_in_scope eid d = (if eid \<noteq> [] then get_accounts_for_entity eid d else ds_accounts d)"

definition account_cells :: "nat \<Rightarrow> account \<Rightarrow> element list" where
  "account_cells idx acc = [number_cell idx, Txt (a_name acc), Txt (account_kind_text (a_type acc)),
     decorate_amount (a_balance acc)]"

definition accounts_view :: "string \<Rightarrow> int \<Rightarrow> data_store \<Rightarrow> element" where
  "accounts_view eid sel d =
     (let accs = accounts_in_scope eid d in
      styled [Flex] (VBox (
        [HBox (cells [blue_dim ''  #'', blue_dim ''Name'', blue_dim ''Type'', blue_dim ''Balance''])] @
        table_rows sel account_cells accs @
        (if accs = [] then [styled [Dim] (Txt ''  No accounts. Press [L] to link via Plaid.'')]
         else [Sep, HBox [blue_bold ''  Total Balance:  '',
                 styled [Bold] (decorate_amount (total (map a_balance accs)))]]) @
        [Txt [], styled [Dim] (Txt ''  [L] Link Plaid  [S] Save  [Q] Quit'')])))"

section \<open>Transactions\<close>

definition shortened :: "nat \<Rightarrow> string \<Rightarrow> string" where
  "shortened w s = take w s @ (if w < length s then ''...'' else [])"

definition transaction_cells :: "nat \<Rightarrow> nat \<Rightarrow> transaction \<Rightarrow> element list" where
  "transaction_cells w idx t = [number_cell idx, Txt (t_date t), Txt (shortened w (t_description t)),
     decorate_amount (t_amount t)]"

definition transactions_view :: "sorter \<Rightarrow> int \<Rightarrow> string \<Rightarrow> int \<Rightarrow> data_store \<Rightarrow> element" where
  "transactions_view std_sort term_width acc_id sel d =
     (let ts = get_transactions_for_account std_sort acc_id d; w = nat (max 20 (term_width - 45)) in
      styled [Flex] (VBox (
        [HBox (cells [blue_dim ''  #'', blue_dim ''Date'', blue_dim ''Description'', blue_dim ''Amount''])] @
        table_rows sel (transaction_cells w) ts @
        (if ts = [] then [styled [Dim] (Txt ''  No transactions - link account via Plaid to sync.'')] else []) @
        [Txt [], styled [Dim] (Txt ''  [P] Link Plaid Account  [L] Sync Latest  [Q] Quit'')])))"

section \<open>Budgets\<close>

text \<open>The share is rounded to a \<^verbatim>\<open>float\<close>, 24 significant bits.\<close>

definition round_float :: "rat \<Rightarrow> rat" where
  "round_float q =
     (if q = 0 then 0
      else let e = exponent \<bar>q\<bar> - 23 in sgn q * (of_int (round_even (\<bar>q\<bar> * 2 powi (- e))) * 2 powi e))"

definition budget_ratio :: "budget \<Rightarrow> rat" where
  "budget_ratio b = (if b_limit b > 0 then round_float (ddiv (b_spent b) (b_limit b)) else 0)"

definition category_name_of :: "data_store \<Rightarrow> string \<Rightarrow> string" where
  "category_name_of d cid = (case get_category cid d of Some c \<Rightarrow> c_name c | None \<Rightarrow> cid)"

definition budget_cells :: "data_store \<Rightarrow> nat \<Rightarrow> budget \<Rightarrow> element list" where
  "budget_cells d idx b =
     (let r = budget_ratio b in
      [Txt (''  '' @ category_name_of d (b_category b)), Txt (format_currency (b_limit b)),
       Txt (format_currency (b_spent b)), Txt (format_currency (dsub (b_limit b) (b_spent b))),
       styled [Coloured (if r > 1 then PlainRed else PlainGreen), Flex] (Gauge (min r 1))])"

definition budgets_in_scope :: "string \<Rightarrow> string \<Rightarrow> data_store \<Rightarrow> budget list" where
  "budgets_in_scope eid mon d =
     (if eid \<noteq> [] then get_budgets_for_entity_month eid mon d else get_budgets_for_month mon d)"

definition budget_view :: "string \<Rightarrow> int \<Rightarrow> string \<Rightarrow> data_store \<Rightarrow> element \<times> data_store" where
  "budget_view eid sel mon d =
     (let d1 = calculate_spent_amounts mon d in
      (styled [Flex] (VBox (
        [HBox (cells [blue_dim ''  Category'', blue_dim ''Budget'', blue_dim ''Spent'', blue_dim ''Left'',
           blue_dim ''Progress''])] @
        table_rows sel (budget_cells d1) (budgets_in_scope eid mon d1) @
        [Txt [], blue_dim ''  [B] Add Budget  [Q] Quit''])), d1))"

section \<open>Categories and the placeholder\<close>

definition category_kind_text :: "category_type \<Rightarrow> string" where
  "category_kind_text ty = (case ty of Income \<Rightarrow> ''Income'' | Transfer \<Rightarrow> ''Transfer'' | _ \<Rightarrow> ''Expense'')"

definition category_cells :: "nat \<Rightarrow> category \<Rightarrow> element list" where
  "category_cells idx c = [number_cell idx, Txt (c_name c), Txt (category_kind_text (c_type c))]"

definition categories_view :: "int \<Rightarrow> data_store \<Rightarrow> element" where
  "categories_view sel d =
     styled [Flex] (VBox (
       [HBox (cells [blue_dim ''  #'', blue_dim ''Name'', blue_dim ''Type''])] @
       table_rows sel category_cells (ds_categories d) @
       (if ds_categories d = [] then
          [styled [Dim] (Txt ''  No categories yet.''),
           styled [Coloured FgDim] (Txt ''  v2: add/edit/auto-rules come from the backend.'')] else []) @
       [Txt [], styled [Dim] (Txt ''  [g t] back to Transactions  [Q] Quit'')]))"

definition placeholder_view :: "string \<Rightarrow> string \<Rightarrow> string \<Rightarrow> element" where
  "placeholder_view title subtitle note =
     styled [Flex] (VBox [Txt [], styled [Bold, Coloured LedBlue] (Txt (''  '' @ title)), Txt [],
       styled [Coloured FgDefault] (Txt (''  '' @ subtitle)), Txt [],
       styled [Coloured FgDim] (Txt (''  '' @ note)), Txt [],
       styled [Dim] (Txt ''  Press ? for the keymap, : for the palette.'')])"

section \<open>What the tables show\<close>

lemma texts_row: "texts (table_row sel idx es) = concat (map texts (cells es))"
  by (simp add: table_row_def)

lemma length_rows [simp]: "length (table_rows sel f xs) = length xs"
  by (simp add: table_rows_def)

lemma nth_rows: "i < length xs \<Longrightarrow> table_rows sel f xs ! i = table_row sel i (f i (xs ! i))"
  by (simp add: table_rows_def nth_enumerate_eq)

text \<open>The accounts table has one row for each account in scope, in their order, that names it and shows its
  balance; a row is bold exactly at the selected index; and the last row shows the sum of the rows'
  balances.\<close>

theorem accounts_table:
  assumes "i < length (accounts_in_scope eid d)"
  shows "\<exists>rows. accounts_view eid sel d = Deco Flex (VBox rows) \<and>
    length rows = length (accounts_in_scope eid d) + 5 \<and>
    texts (rows ! (i + 1)) = [''  '' @ nat_to_string (i + 1), '' | '', a_name (accounts_in_scope eid d ! i), '' | '',
      account_kind_text (a_type (accounts_in_scope eid d ! i)), '' | '',
      format_currency (a_balance (accounts_in_scope eid d ! i))] \<and>
    ((\<exists>e. rows ! (i + 1) = Deco (Coloured LedBlue) (Deco Bold e)) \<longleftrightarrow> int i = sel) \<and>
    texts (rows ! (length (accounts_in_scope eid d) + 2)) =
      [''  Total Balance:  '', format_currency (total (map a_balance (accounts_in_scope eid d)))]"
proof -
  let ?accs = "accounts_in_scope eid d"
  have ne: "?accs \<noteq> []" using assms by auto
  let ?rows = "HBox (cells [blue_dim ''  #'', blue_dim ''Name'', blue_dim ''Type'', blue_dim ''Balance'']) #
    table_rows sel account_cells ?accs @ [Sep, HBox [blue_bold ''  Total Balance:  '',
                 styled [Bold] (decorate_amount (total (map a_balance ?accs)))],
      Txt [], styled [Dim] (Txt ''  [L] Link Plaid  [S] Save  [Q] Quit'')]"
  have row: "?rows ! (i + 1) = table_row sel i (account_cells i (?accs ! i))"
    using assms by (simp add: nth_append nth_rows)
  have "accounts_view eid sel d = Deco Flex (VBox ?rows)"
    using ne by (simp add: accounts_view_def Let_def)
  moreover have "texts (?rows ! (i + 1)) = [''  '' @ nat_to_string (i + 1), '' | '', a_name (?accs ! i), '' | '',
      account_kind_text (a_type (?accs ! i)), '' | '', format_currency (a_balance (?accs ! i))]"
    unfolding row by (simp add: texts_row account_cells_def number_cell_def bar_def)
  moreover have "(\<exists>e. ?rows ! (i + 1) = Deco (Coloured LedBlue) (Deco Bold e)) \<longleftrightarrow> int i = sel"
    unfolding row by (simp add: table_row_def)
  moreover have "?rows ! (length ?accs + 2) = HBox [blue_bold ''  Total Balance:  '',
                 styled [Bold] (decorate_amount (total (map a_balance ?accs)))]"
    by (simp add: nth_append)
  ultimately show ?thesis by (intro exI [of _ ?rows]) simp
qed

text \<open>Drawing the budget view stores the spent amounts it shows: of every budget of the month, what was spent
  in its category, and nothing else changes.\<close>

lemma budget_view_stores:
  "snd (budget_view eid sel mon d) = d\<lparr>ds_budgets := map (\<lambda>b. if b_month b = mon
      then b\<lparr>b_spent := spent_on mon (b_category b) d\<rparr> else b) (ds_budgets d)\<rparr>"
  by (simp add: budget_view_def Let_def calculate_spent_amounts_def)

end
