(* ===== verification/Drill_Views.thy ===== *)
theory Drill_Views
  imports View_Elements Std_Map Backend_Client
begin

text \<open>The two full-screen drills of the client (src/src/views/drills): the net worth with its accounts and the
  share of every kind, and the state of the bank connections, from the server's answer or, without
  one, from the local data. The ordered maps of the code are those of \<^verbatim>\<open>Std_Map\<close>.
  What is shown: an allocation bar has its width whatever the percentage; the amounts by kind add up to
  the total; without the server every account of a bank is listed once, under its bank.\<close>

section \<open>Kinds of account in order\<close>

definition type_index :: "account_type \<Rightarrow> nat" where
  "type_index ty = (case ty of Checking \<Rightarrow> 0 | Savings \<Rightarrow> 1 | CreditCard \<Rightarrow> 2 | Investment \<Rightarrow> 3 | Cash \<Rightarrow> 4 | OtherAccount \<Rightarrow> 5)"

lemma type_index_inject: "type_index s = type_index t \<Longrightarrow> s = t"
  by (cases s; cases t) (simp_all add: type_index_def)

instantiation account_type :: linorder
begin

definition less_eq_account_type :: "account_type \<Rightarrow> account_type \<Rightarrow> bool" where
  "less_eq_account_type s t \<longleftrightarrow> type_index s \<le> type_index t"

definition less_account_type :: "account_type \<Rightarrow> account_type \<Rightarrow> bool" where
  "less_account_type s t \<longleftrightarrow> type_index s < type_index t"

instance
  by standard (auto simp: less_eq_account_type_def less_account_type_def type_index_inject)

end

section \<open>Shared pieces\<close>

definition newer :: "string \<Rightarrow> string \<Rightarrow> string" where
  "newer date cell = (if cell < date then date else cell)"

definition newest_date :: "transaction list \<Rightarrow> string" where
  "newest_date ts = foldl (\<lambda>cell t. newer (t_date t) cell) [] ts"

definition mask_id :: "string \<Rightarrow> string" where
  "mask_id i = ''****'' @ (if length i \<le> 4 then i else drop (length i - 4) i)"

definition breadcrumb :: "string \<Rightarrow> element" where
  "breadcrumb place = HBox [styled [Dim] (Txt ''Dashboard''), styled [Coloured AccentInfo] (Txt '' > ''),
     styled [Bold, Coloured FgEmphasized] (Txt place)]"

definition panel :: "string \<Rightarrow> element \<Rightarrow> string \<Rightarrow> element" where
  "panel place main hint = styled [Border, Flex] (VBox [HBox [Txt ''  '', breadcrumb place], Sep, main, Sep,
     styled [Dim] (Txt hint)])"

section \<open>The net worth drill\<close>

definition ascii_bar :: "rat \<Rightarrow> nat \<Rightarrow> string" where
  "ascii_bar pct width =
     (let p = (if pct < 0 then 0 else if pct > 100 then 100 else pct);
          full = nat (d_round (dmul (ddiv p 100) (of_nat width)))
      in replicate full (CHR ''#'') @ replicate (width - full) (CHR ''-''))"

definition drill_accounts :: "string \<Rightarrow> data_store \<Rightarrow> account list" where
  "drill_accounts eid d = (if eid = [] then ds_accounts d else get_accounts_for_entity eid d)"

definition balances_by_type :: "account list \<Rightarrow> (account_type, rat) std_map" where
  "balances_by_type accs = gather 0 a_type (\<lambda>a v. dadd v (a_balance a)) accs []"

definition alloc_base :: "account list \<Rightarrow> rat" where
  "alloc_base accs = total (map a_balance (filter (\<lambda>a. a_balance a > 0) accs))"

definition last_syncs :: "data_store \<Rightarrow> (string, string) std_map" where
  "last_syncs d = gather [] t_account (\<lambda>t cell. newer (t_date t) cell) (ds_transactions d) []"

definition dominant_pct :: "account list \<Rightarrow> rat" where
  "dominant_pct accs =
     (if alloc_base accs > 0
      then dmul (ddiv (foldl (\<lambda>dm (_, v). if v > dm then v else dm) 0 (balances_by_type accs)) (alloc_base accs)) 100
      else 0)"

definition drill_account_row :: "(string, string) std_map \<Rightarrow> account \<Rightarrow> element" where
  "drill_account_row syncs a =
     (let cell = map_cell [] (a_id a) syncs in
      HBox [Txt ''  '', Txt (pad_right 22 (a_name a)), styled [Dim] (Txt (pad_right 12 (mask_id (a_id a)))),
        styled [Coloured (if a_balance a < 0 then AccentNegative else FgDefault)]
          (Txt (pad_right 14 (dollars 2 (a_balance a)))),
        styled [Dim] (Txt (pad_right 24 (''Last sync: '' @ (if cell \<noteq> [] then cell else em_dash)))),
        styled [Dim] (Txt (a_institution a))])"

definition type_label :: "account_type \<Rightarrow> string" where
  "type_label ty = (case ty of Checking \<Rightarrow> ''Checking'' | Savings \<Rightarrow> ''Savings'' | CreditCard \<Rightarrow> ''Credit''
     | Investment \<Rightarrow> ''Investment'' | Cash \<Rightarrow> ''Cash'' | _ \<Rightarrow> ''Other'')"

definition kTypeOrder :: "account_type list" where
  "kTypeOrder = [Checking, Savings, CreditCard, Investment, Cash, OtherAccount]"

definition type_pct :: "rat \<Rightarrow> rat \<Rightarrow> rat" where
  "type_pct base v = (if base > 0 \<and> v > 0 then dmul (ddiv v base) 100 else 0)"

definition drill_type_row :: "rat \<Rightarrow> account_type \<Rightarrow> rat \<Rightarrow> element" where
  "drill_type_row base ty v =
     (let label = Txt (pad_right 12 (type_label ty)); amount = pad_right 14 (dollars 2 v); pct = type_pct base v in
      if ty = CreditCard \<and> v < 0
      then HBox [Txt ''  '', label, styled [Coloured AccentNegative] (Txt amount), Txt ''  '',
             styled [Dim] (Txt (replicate 20 (CHR ''-''))), styled [Dim] (Txt ''  (debit)'')]
      else HBox [Txt ''  '', label, Txt amount, Txt ''  '', styled [Dim] (Txt (ascii_bar pct 20)),
             styled [Dim] (Txt ''  (''), Txt (fixed_text 1 pct @ ''%''), styled [Dim] (Txt '')'')])"

definition drill_type_rows :: "account list \<Rightarrow> element list" where
  "drill_type_rows accs = List.map_filter
     (\<lambda>ty. map_option (drill_type_row (alloc_base accs) ty) (map_of (balances_by_type accs) ty)) kTypeOrder"

definition rule_row :: element where
  "rule_row = HBox [Txt ''  '', styled [Dim] (Txt (replicate 70 (CHR ''-'')))]"

definition drill_net_worth :: "string \<Rightarrow> data_store \<Rightarrow> element" where
  "drill_net_worth eid d =
     (let accs = drill_accounts eid d; hint = ''  [Esc] Back   [j/k] Scroll''; sum = total (map a_balance accs) in
      if accs = []
      then panel ''Net Worth'' (VBox [Txt [], styled [Dim] (Txt ''  No accounts linked.''), Filler]) hint
      else panel ''Net Worth'' (VBox (
        [Txt [],
         HBox [styled [Dim] (Txt ''  Total:  ''),
           styled [Bold, Coloured (if sum \<ge> 0 then AccentPositive else AccentNegative)] (Txt (dollars 2 sum))],
         HBox [Txt ''  '', styled [Dim] (Txt (ascii_bar (dominant_pct accs) 60))],
         Txt [], styled [Bold] (Txt ''  Per account''), styled [Dim] (Txt ''  ''), rule_row] @
        map (drill_account_row (last_syncs d)) accs @
        [Txt [], styled [Bold] (Txt ''  By type''), rule_row] @
        drill_type_rows accs @ [Filler])) hint)"

section \<open>The sync status drill\<close>

definition last_tx_for_account :: "string \<Rightarrow> data_store \<Rightarrow> string" where
  "last_tx_for_account i d = (let n = newest_date (filter (\<lambda>t. t_account t = i) (ds_transactions d))
     in if n = [] then em_dash else n)"

definition account_subrow :: "data_store \<Rightarrow> account \<Rightarrow> element" where
  "account_subrow d a = HBox [styled [Dim] (Txt ''  |  +- ''), Txt (pad_right 22 (a_name a)),
     styled [Dim] (Txt (pad_right 12 (mask_id (a_id a)))), styled [Dim] (Txt ''Last tx: ''),
     Txt (last_tx_for_account (a_id a) d)]"

definition accounts_header :: "nat \<Rightarrow> element" where
  "accounts_header n = styled [Dim] (Txt (''  +- Accounts ('' @ nat_to_string n @ ''):''))"

definition server_block :: "data_store \<Rightarrow> sync_status_item \<Rightarrow> element list" where
  "server_block d it =
     (let err = si_last_error it;
          by_id = foldl (\<lambda>m a. map_set (a_id a) a m) [] (ds_accounts d) in
      [HBox [Txt ''  '', styled [Bold] (Txt (si_institution it))],
       HBox [styled [Dim] (Txt (''  +- Item id: '' @ si_item it @ ''  Last sync (unix): '' @
               int_to_string (si_last_success it) @ ''  Status: '')),
             styled [Coloured (if err \<noteq> [] then AccentNegative else AccentPositive)]
               (Txt (if err = [] then ''OK'' else err))]] @
      (if err \<noteq> [] then
         [HBox [styled [Dim] (Txt ''  |  ''), styled [Coloured AccentNegative] (Txt ''Error: ''),
           styled [Dim] (Txt err), styled [Dim] (Txt ''  -- press [R] to re-auth.'')]] else []) @
      [accounts_header (length (si_accounts it))] @
      List.map_filter (\<lambda>i. map_option (account_subrow d) (map_of by_id i)) (si_accounts it) @ [Txt []])"

text \<open>The accounts of each bank, and the newest date of each bank's transactions.\<close>

definition banked :: "account list \<Rightarrow> account list" where
  "banked accs = filter (\<lambda>a. a_institution a \<noteq> []) accs"

definition accounts_by_bank :: "account list \<Rightarrow> (string, account list) std_map" where
  "accounts_by_bank accs = group_by a_institution (banked accs)"

definition bank_of_account :: "account list \<Rightarrow> (string, string) std_map" where
  "bank_of_account accs = foldl (\<lambda>m a. map_set (a_id a) (a_institution a) m) [] (banked accs)"

definition bank_newest :: "data_store \<Rightarrow> (string, string) std_map" where
  "bank_newest d =
     (let banks = bank_of_account (ds_accounts d) in
      gather [] (\<lambda>t. the (map_of banks (t_account t))) (\<lambda>t cell. newer (t_date t) cell)
        (filter (\<lambda>t. map_of banks (t_account t) \<noteq> None) (ds_transactions d)) [])"

definition local_block :: "data_store \<Rightarrow> string \<times> account list \<Rightarrow> element list" where
  "local_block d = (\<lambda>(bank, accs).
     (let newest = map_cell [] bank (bank_newest d); has_tx = (newest \<noteq> []) in
      [HBox [Txt ''  '', styled [Bold] (Txt bank)],
       HBox [styled [Dim] (Txt ''  +- Item id: ''), styled [Dim] (Txt ''(local cache)''),
         styled [Dim] (Txt ''  Last sync: ''), Txt (if has_tx then newest else ''never''),
         styled [Dim] (Txt ''  Status: ''),
         styled [Coloured (if has_tx then AccentPositive else AccentWarning)] (Txt (if has_tx then ''OK'' else ''NO DATA''))],
       accounts_header (length accs)] @ map (account_subrow d) accs @ [Txt []]))"

definition drill_sync_status :: "sync_status_item list option \<Rightarrow> data_store \<Rightarrow> element" where
  "drill_sync_status server_items d =
     (let local_blocks = (let by_inst = accounts_by_bank (ds_accounts d) in
            (if by_inst = [] then [styled [Dim] (Txt ''  No institutions linked.'')] else []) @
            concat (map (local_block d) by_inst));
          rows = [Txt []] @
            (if server_items = None then
               [HBox [Txt ''  '', styled [Coloured AccentWarning]
                  (Txt ''[Server endpoint not yet available; showing local cache.]'')], Txt []] else []) @
            (case server_items of
               Some (it # its) \<Rightarrow> concat (map (server_block d) (it # its))
             | _ \<Rightarrow> local_blocks) @ [Filler]
      in panel ''Sync Status'' (VBox rows)
           (if server_items \<noteq> None then ''  [Esc] Back   [j/k] Scroll   [r] Refresh   [R] Re-auth''
            else ''  [Esc] Back   [j/k] Scroll   [r] Refresh   [R] Re-auth (coming v0.4)''))"

section \<open>What the drills show\<close>

lemma ddiv_share:
  assumes "0 \<le> p" "p \<le> 100" shows "0 \<le> ddiv p 100" "ddiv p 100 \<le> 1 + 1 / 2 ^ 53"
proof -
  have e: "\<bar>ddiv p 100 - p / 100\<bar> \<le> \<bar>p / 100\<bar> / 2 ^ 53" unfolding ddiv_def by (rule round_double_error)
  have "\<bar>p / 100\<bar> = p / 100" using assms(1) by simp
  moreover have "p / 100 / 2 ^ 53 \<le> p / 100" "p / 100 / 2 ^ 53 \<le> 1 / 2 ^ 53" using assms by simp_all
  ultimately show "0 \<le> ddiv p 100" "ddiv p 100 \<le> 1 + 1 / 2 ^ 53" using e assms(2) by linarith+
qed

lemma share_cells:
  assumes "0 \<le> p" "p \<le> 100" "w \<le> 2 ^ 40"
  shows "nat (d_round (dmul (ddiv p 100) (of_nat w))) \<le> w"
proof -
  let ?x = "ddiv p 100" and ?w = "of_nat w :: rat"
  let ?y = "dmul ?x ?w"
  note x = ddiv_share [OF assms(1,2)]
  have w: "0 \<le> ?w" "?w \<le> 2 ^ 40"
    using assms(3) of_nat_le_iff [of w "2 ^ 40", where 'a = rat] by simp_all
  have xw: "0 \<le> ?x * ?w" "?x * ?w \<le> ?w + 1 / 8"
  proof -
    show "0 \<le> ?x * ?w" using x(1) w(1) by simp
    have "?x * ?w \<le> (1 + 1 / 2 ^ 53) * ?w" using x(2) w(1) by (intro mult_right_mono)
    also have "\<dots> = ?w + ?w / 2 ^ 53" by (simp add: field_simps)
    also have "\<dots> \<le> ?w + 1 / 8" using w(2) by simp
    finally show "?x * ?w \<le> ?w + 1 / 8" .
  qed
  have "\<bar>?y - ?x * ?w\<bar> \<le> \<bar>?x * ?w\<bar> / 2 ^ 53" unfolding dmul_def by (rule round_double_error)
  moreover have "z / 2 ^ 53 \<le> 1 / 8" "z / 2 ^ 53 \<le> z" if "0 \<le> z" "z \<le> 2 ^ 41" for z :: rat
    using that by simp_all
  note this [of "?x * ?w"]
  moreover have "?x * ?w \<le> 2 ^ 41" using xw(2) w(2) by simp
  moreover have "\<bar>?x * ?w\<bar> = ?x * ?w" using xw(1) by simp
  ultimately have "0 \<le> ?y" "?y + 1 / 2 < ?w + 1" using xw by linarith+
  then have "d_round ?y = floor (?y + 1 / 2)" "floor (?y + 1 / 2) < int w + 1"
    unfolding floor_less_iff by (simp_all add: d_round_def llround_def)
  then show ?thesis by simp
qed

text \<open>An allocation bar is as wide as asked for, whatever the percentage: negative ones and those above a
  hundred are cut, and the two roundings of the product never add a cell.\<close>

theorem ascii_bar_width:
  assumes "w \<le> 2 ^ 40" shows "length (ascii_bar pct w) = w"
proof -
  have "nat (d_round (dmul (ddiv (if pct < 0 then 0 else if pct > 100 then 100 else pct) 100) (of_nat w))) \<le> w"
    by (rule share_cells [OF _ _ assms]) simp_all
  then show ?thesis by (simp add: ascii_bar_def Let_def)
qed

theorem ascii_bar_width_witness: "length (ascii_bar 250 60) = 60"
  using ascii_bar_width [of 60 250] by simp

lemma balances_cell:
  "map_cell 0 ty (balances_by_type accs) = total (map a_balance (filter (\<lambda>a. a_type a = ty) accs))"
proof -
  have "foldl (\<lambda>v a. dadd v (a_balance a)) s xs = foldl dadd s (map a_balance xs)" for s xs
    by (induction xs arbitrary: s) simp_all
  then show ?thesis
    by (simp add: balances_by_type_def gather_cell total_def) (simp add: map_cell_def)
qed

lemma sum_types:
  "(\<Sum>ty \<leftarrow> kTypeOrder. sum_list (map a_balance (filter (\<lambda>a. a_type a = ty) accs))) = sum_list (map a_balance accs)"
proof (induction accs)
  case (Cons a accs)
  then show ?case by (cases "a_type a") (simp_all add: kTypeOrder_def)
qed (simp add: kTypeOrder_def)

text \<open>The drill into the net worth has a row for exactly the kinds of account in scope, and for whole amounts
  the balances of the kinds add up to the total in the headline.\<close>

theorem drill_by_type:
  assumes "exact_sum (map a_balance accs)"
  shows "(\<Sum>ty \<leftarrow> kTypeOrder. map_cell 0 ty (balances_by_type accs)) = total (map a_balance accs) \<and>
    set (map fst (balances_by_type accs)) = a_type ` set accs \<and>
    length (drill_type_rows accs) = card (a_type ` set accs)"
proof (intro conjI)
  have "map_cell 0 ty (balances_by_type accs) = sum_list (map a_balance (filter (\<lambda>a. a_type a = ty) accs))" for ty
    unfolding balances_cell by (rule total_exact [OF exact_sum_filter [OF assms]])
  then show "(\<Sum>ty \<leftarrow> kTypeOrder. map_cell 0 ty (balances_by_type accs)) = total (map a_balance accs)"
    by (simp only: sum_types total_exact [OF assms])
  show keys: "set (map fst (balances_by_type accs)) = a_type ` set accs"
    by (simp add: balances_by_type_def gather_keys)
  have some: "map_of (balances_by_type accs) ty \<noteq> None \<longleftrightarrow> ty \<in> a_type ` set accs" for ty
    using keys by (simp add: map_of_eq_None_iff)
  have "length (List.map_filter (\<lambda>ty. map_option (f ty) (m ty)) tys) = length (filter (\<lambda>ty. m ty \<noteq> None) tys)" for f m tys
    by (induction tys) (auto simp: List.map_filter_simps split: option.split)
  then have "length (drill_type_rows accs) = length (filter (\<lambda>ty. ty \<in> a_type ` set accs) kTypeOrder)"
    unfolding drill_type_rows_def some [symmetric] .
  also have "\<dots> = card (set (filter (\<lambda>ty. ty \<in> a_type ` set accs) kTypeOrder))"
    by (rule distinct_card [symmetric]) (simp add: kTypeOrder_def)
  also have "set (filter (\<lambda>ty. ty \<in> a_type ` set accs) kTypeOrder) = a_type ` set accs"
  proof -
    have "ty \<in> set kTypeOrder" for ty by (cases ty) (simp_all add: kTypeOrder_def)
    then show ?thesis by auto
  qed
  finally show "length (drill_type_rows accs) = card (a_type ` set accs)" .
qed

theorem drill_by_type_witness:
  "length (drill_type_rows (ds_accounts two_accounts)) = card (a_type ` set (ds_accounts two_accounts))"
proof -
  have "whole 300" "whole 120" unfolding whole_def by (metis of_int_numeral)+
  then have "exact_sum (map a_balance (ds_accounts two_accounts))"
    by (simp add: exact_sum_def two_accounts_def plain_account_def)
  from drill_by_type [OF this] show ?thesis by blast
qed

text \<open>Without the server's answer the drill groups the accounts by bank: every account that has a bank is in
  exactly one group, the one of its bank, in the order of the store, and the banks are ascending.\<close>

theorem local_sync_groups:
  "mset (concat (map snd (accounts_by_bank accs))) = mset (banked accs) \<and>
   (\<forall>(bank, as) \<in> set (accounts_by_bank accs). as = filter (\<lambda>a. a_institution a = bank) (banked accs)) \<and>
   sorted_wrt (<) (map fst (accounts_by_bank accs))"
proof (intro conjI)
  show "mset (concat (map snd (accounts_by_bank accs))) = mset (banked accs)"
    by (simp only: accounts_by_bank_def group_by_mset)
  show "\<forall>(bank, as) \<in> set (accounts_by_bank accs). as = filter (\<lambda>a. a_institution a = bank) (banked accs)"
    unfolding accounts_by_bank_def using group_by_mem by fast
  show "sorted_wrt (<) (map fst (accounts_by_bank accs))"
    using group_by_ok [of a_institution "banked accs"] by (simp add: accounts_by_bank_def map_ok_def)
qed

end
