(* ===== verification/Dashboard_View.thy ===== *)
theory Dashboard_View
  imports View_Elements Std_Map Focus_Controller
begin

text \<open>The widget grid of the client (src/src/views/DashboardView.cpp) and the widgets it is made of, with
  those that are only drawn by the tests (src/src/views/widgets). The sort of the library is an
  argument. The wrappers that hand a renderer to the terminal library are not modelled.
  What is shown: income less expenses is what the month's transactions add up to; the recent
  activity is the newest of what is visible; a bank is connected when one of its accounts has a
  transaction; at most one widget is drawn as focused.\<close>

section \<open>Frames\<close>

definition panel_title :: "string \<Rightarrow> bool \<Rightarrow> element" where
  "panel_title s focus = styled (Bold # (if focus then [Coloured FgEmphasized] else [])) (Txt s)"

definition panel_frame :: "bool \<Rightarrow> element \<Rightarrow> element" where
  "panel_frame focus e = styled (if focus then [BorderRounded, Coloured FocusColour] else [Border]) e"

definition card_title :: "string \<Rightarrow> bool \<Rightarrow> element" where
  "card_title s focus = styled (if focus then [Bold, Coloured FgEmphasized] else [Coloured FgDefault]) (Txt s)"

definition card_frame :: "bool \<Rightarrow> element \<Rightarrow> element" where
  "card_frame focus e = styled [BorderRounded, Coloured (if focus then FocusColour else FgDim)] e"

definition signed_colour :: "rat \<Rightarrow> colour" where
  "signed_colour v = (if v \<ge> 0 then AccentPositive else AccentNegative)"

section \<open>Widgets\<close>

definition net_worth_widget :: "rat \<Rightarrow> rat \<Rightarrow> rat \<Rightarrow> rat \<Rightarrow> rat \<Rightarrow> bool \<Rightarrow> element" where
  "net_worth_widget checking savings credit investment net focus =
     panel_frame focus (VBox [panel_title ''Net Worth'' focus, Sep,
       styled [Bold, Coloured (signed_colour net)] (Txt (dollars 2 net)), Txt [],
       HBox [styled [Dim] (Txt ''Checking:   ''), Txt (dollars 2 checking)],
       HBox [styled [Dim] (Txt ''Savings:    ''), Txt (dollars 2 savings)],
       HBox [styled [Dim] (Txt ''Credit:     ''),
         styled (if credit < 0 then [Coloured AccentNegative] else []) (Txt (dollars 2 credit))],
       HBox [styled [Dim] (Txt ''Investment: ''), Txt (dollars 2 investment)]])"

definition cash_row :: "string \<Rightarrow> rat \<Rightarrow> colour \<Rightarrow> element" where
  "cash_row label v c = HBox [styled [Coloured FgDim] (Txt (''  '' @ label)), Filler,
     styled [Coloured c] (Txt (dollars 2 v)), Txt ''  '']"

definition cash_flow_widget :: "rat \<Rightarrow> rat \<Rightarrow> rat \<Rightarrow> bool \<Rightarrow> element" where
  "cash_flow_widget income expenses net focus =
     card_frame focus (VBox [card_title ''Cash Flow (this month)'' focus, Sep,
       styled [Flex] (VBox [cash_row ''Income'' income AccentPositive, cash_row ''Expenses'' expenses AccentNegative,
         Sep, cash_row ''Net'' net (signed_colour net)])])"

record recent_tx =
  rt_date :: string
  rt_description :: string
  rt_amount :: rat

definition signed_dollars :: "rat \<Rightarrow> string" where
  "signed_dollars v = (if v < 0 then ''-$'' @ fixed_text 2 (- v) else ''+$'' @ fixed_text 2 v)"

definition recent_row :: "recent_tx \<Rightarrow> element" where
  "recent_row r = HBox [styled [Coloured FgDim] (Txt (''  '' @ rt_date r)), Txt ''  '',
     styled [Flex] (Txt (rt_description r)), Txt ''  '',
     styled [Coloured (signed_colour (rt_amount r))] (Txt (signed_dollars (rt_amount r))), Txt ''  '']"

definition recent_widget :: "recent_tx list \<Rightarrow> bool \<Rightarrow> element" where
  "recent_widget rs focus = card_frame focus (VBox [card_title ''Recent Activity'' focus, Sep,
     styled [Flex] (VBox (if rs = [] then [styled [Coloured FgDim] (Txt ''  No transactions yet.'')]
       else map recent_row rs))])"

record sync_state =
  sy_institution :: string
  sy_connected :: bool
  sy_last_sync :: string
  sy_error :: string

definition sync_time :: "sync_state \<Rightarrow> string" where
  "sync_time s =
     (if sy_connected s \<and> sy_last_sync s \<noteq> [] then ''Synced '' @ sy_last_sync s
      else if \<not> sy_connected s \<and> sy_error s \<noteq> [] then sy_error s
      else if sy_last_sync s = [] then ''Never'' else sy_last_sync s)"

definition sync_row :: "sync_state \<Rightarrow> element" where
  "sync_row s = HBox [styled [Coloured (if sy_connected s then AccentPositive else AccentNegative)]
       (Txt (if sy_connected s then ''[+]'' else ''[x]'')), Txt '' '',
     styled [Bold] (Txt (sy_institution s)), Txt ''  '', styled [Dim] (Txt (sync_time s))]"

definition sync_widget :: "sync_state list \<Rightarrow> bool \<Rightarrow> element" where
  "sync_widget ss focus = panel_frame focus (VBox ([panel_title ''Connection Status'' focus, Sep] @
     (if ss = [] then [styled [Dim] (Txt ''  No accounts linked.''), styled [Dim] (Txt ''  Press [P] to link a bank.'')]
      else map sync_row ss)))"

record category_trend =
  ct_name :: string
  ct_emoji :: string
  ct_spend :: rat
  ct_change :: rat

definition trend_row :: "category_trend \<Rightarrow> element" where
  "trend_row t =
     (let (direction, c) = (if ct_change t > 0 then (''^'', ThesisUp)
        else if ct_change t < 0 then (''v'', AccentPositive) else (''-'', FgDim)) in
      HBox [styled [Dim] (Txt (ct_emoji t)), styled [Dim] (Txt (''  '' @ ct_name t)),
        styled [Bold] (Txt (''  $'' @ fixed_text 2 (ct_spend t))),
        styled [Coloured c] (Txt (''  '' @ direction @ '' '' @ fixed_text 1 \<bar>ct_change t\<bar> @ ''%''))])"

definition trends_widget :: "category_trend list \<Rightarrow> nat \<Rightarrow> bool \<Rightarrow> element" where
  "trends_widget ts max_items focus =
     panel_frame focus (VBox ([panel_title ''Top Spending Categories'' focus, Sep] @
       (if ts = [] then [styled [Dim] (Txt ''  No transactions this month.'')]
        else map trend_row (take max_items ts))))"

record account_connection =
  ac_institution :: string
  ac_name :: string
  ac_balance :: rat
  ac_connected :: bool
  ac_last_sync :: string

definition connection_row :: "account_connection \<Rightarrow> element" where
  "connection_row c = HBox [styled [Coloured (if ac_connected c then AccentPositive else AccentNegative)]
       (Txt (if ac_connected c then ''[Connected]'' else ''[Disconnected]'')), Txt '' '',
     styled [Bold] (Txt (ac_institution c)), styled [Dim] (Txt '' - ''), Txt (ac_name c), styled [Dim] (Txt ''  $''),
     styled [Bold] (Txt (fixed_text 2 (ac_balance c))), styled [Dim] (Txt ''  Last sync: ''),
     Txt (if ac_last_sync c = [] then ''Never'' else ac_last_sync c)]"

definition connections_widget :: "account_connection list \<Rightarrow> element" where
  "connections_widget cs = styled [Border] (VBox ([styled [Bold] (Txt ''Bank Connections''), Sep] @
     (if cs = [] then [styled [Dim] (Txt ''  No accounts connected.''),
        styled [Dim] (Txt ''  Press [P] to link a bank account.'')]
      else map connection_row cs)))"

definition consolidated_widget :: "rat \<Rightarrow> rat \<Rightarrow> rat \<Rightarrow> rat \<Rightarrow> rat \<Rightarrow> element" where
  "consolidated_widget net checking savings credit investment =
     styled [Border] (VBox [styled [Bold] (Txt ''Consolidated Net Worth''), Sep,
       styled [Bold, Coloured (signed_colour net)] (Txt (''$'' @ fixed_text 2 net)), Txt [],
       HBox [styled [Dim] (Txt ''Checking:   ''), Txt (''$'' @ fixed_text 2 checking)],
       HBox [styled [Dim] (Txt ''Savings:    ''), Txt (''$'' @ fixed_text 2 savings)],
       HBox [styled [Dim] (Txt ''Credit:     ''), Txt (''$'' @ fixed_text 2 credit)],
       HBox [styled [Dim] (Txt ''Investment: ''), Txt (''$'' @ fixed_text 2 investment)]])"

definition suppliers_widget :: "(string \<times> string) list \<Rightarrow> element" where
  "suppliers_widget ss = styled [Border] (VBox ([styled [Bold] (Txt ''Discovered Suppliers (MoM Analysis)''), Sep] @
     (if ss = [] then [styled [Dim] (Txt ''  No suppliers discovered yet.'')]
      else map (\<lambda>(ticker, description). HBox [Txt ''  '', styled [Coloured FgEmphasized] (Txt ticker),
        styled [Coloured FgDim] (Txt ''  |  ''), styled [Coloured FgDim] (Txt description)]) ss)))"

text \<open>The keys a focused widget offers.\<close>

definition net_worth_hints :: "(string \<times> string) list" where
  "net_worth_hints = [(''Enter'', ''Drill into Net Worth''), (''r'', ''Recompute''), (''Tab'', ''Next widget''),
     (''j/k'', ''Move down/up''), (''Esc'', ''Unfocus'')]"

definition sync_status_hints :: "(string \<times> string) list" where
  "sync_status_hints = [(''Enter'', ''Drill into institution''), (''r'', ''Refresh''), (''R'', ''Re-auth''),
     (''Tab'', ''Next widget''), (''j/k'', ''Move down/up''), (''Esc'', ''Unfocus'')]"

definition category_trends_hints :: "(string \<times> string) list" where
  "category_trends_hints = [(''Enter'', ''Drill into category''), (''r'', ''Recompute MoM''), (''/'', ''Filter''),
     (''Tab'', ''Next widget''), (''j/k'', ''Move down/up''), (''Esc'', ''Unfocus'')]"

section \<open>What the grid shows\<close>

definition type_balance :: "account_type \<Rightarrow> string \<Rightarrow> data_store \<Rightarrow> rat" where
  "type_balance ty eid d =
     (if eid \<noteq> [] then total (map a_balance (filter (\<lambda>a. a_type a = ty) (get_accounts_for_entity eid d)))
      else get_total_balance_by_type ty d)"

definition shown_net_worth :: "string \<Rightarrow> data_store \<Rightarrow> rat" where
  "shown_net_worth eid d = (if eid \<noteq> [] then get_total_net_worth_for_entity eid d else get_total_net_worth d)"

definition visible :: "string \<Rightarrow> data_store \<Rightarrow> transaction \<Rightarrow> bool" where
  "visible eid d t \<longleftrightarrow> eid = [] \<or> t_account t \<in> set (map a_id (get_accounts_for_entity eid d))"

definition month_visible :: "string \<Rightarrow> string \<Rightarrow> data_store \<Rightarrow> transaction list" where
  "month_visible eid mon d = filter (\<lambda>t. in_month mon t \<and> visible eid d t) (ds_transactions d)"

definition month_income :: "string \<Rightarrow> string \<Rightarrow> data_store \<Rightarrow> rat" where
  "month_income eid mon d = total (map t_amount (filter (\<lambda>t. t_amount t \<ge> 0) (month_visible eid mon d)))"

definition month_expenses :: "string \<Rightarrow> string \<Rightarrow> data_store \<Rightarrow> rat" where
  "month_expenses eid mon d = total (map (\<lambda>t. \<bar>t_amount t\<bar>) (filter (\<lambda>t. \<not> t_amount t \<ge> 0) (month_visible eid mon d)))"

definition recent_rows :: "sorter \<Rightarrow> string \<Rightarrow> data_store \<Rightarrow> recent_tx list" where
  "recent_rows std_sort eid d =
     map (\<lambda>t. \<lparr>rt_date = t_date t, rt_description = t_description t, rt_amount = t_amount t\<rparr>)
       (take 5 (std_sort later (filter (visible eid d) (ds_transactions d))))"

definition bank_by_account :: "account list \<Rightarrow> (string, string) std_map" where
  "bank_by_account accs = foldl (\<lambda>m a. map_set (a_id a) (a_institution a) m) []
     (filter (\<lambda>a. a_institution a \<noteq> []) accs)"

definition connected_banks :: "data_store \<Rightarrow> (string, bool) std_map" where
  "connected_banks d =
     (let banks = bank_by_account (ds_accounts d);
          none = gather False a_institution (\<lambda>_ b. b) (filter (\<lambda>a. a_institution a \<noteq> []) (ds_accounts d)) []
      in gather False (\<lambda>t. the (map_of banks (t_account t))) (\<lambda>_ _. True)
           (filter (\<lambda>t. map_of banks (t_account t) \<noteq> None) (ds_transactions d)) none)"

definition newest_by_bank :: "data_store \<Rightarrow> (string, string) std_map" where
  "newest_by_bank d =
     (let banks = bank_by_account (ds_accounts d)
      in gather [] (\<lambda>t. the (map_of banks (t_account t))) (\<lambda>t n. if n < t_date t then t_date t else n)
           (filter (\<lambda>t. map_of banks (t_account t) \<noteq> None) (ds_transactions d)) [])"

definition sync_states :: "data_store \<Rightarrow> sync_state list" where
  "sync_states d = sort_key sy_institution (map (\<lambda>(bank, c).
     \<lparr>sy_institution = bank, sy_connected = c, sy_last_sync = map_cell [] bank (newest_by_bank d), sy_error = []\<rparr>)
     (connected_banks d))"

definition has_focus :: "focus_controller option \<Rightarrow> widget_id \<Rightarrow> bool" where
  "has_focus focus w \<longleftrightarrow> (case focus of None \<Rightarrow> False | Some f \<Rightarrow> is_widget_focused w f)"

definition dashboard_view :: "sorter \<Rightarrow> string \<Rightarrow> string \<Rightarrow> focus_controller option \<Rightarrow> data_store \<Rightarrow> element" where
  "dashboard_view std_sort eid mon focus d =
     (let income = month_income eid mon d; expenses = month_expenses eid mon d in
      styled [Flex] (VBox [
        HBox [styled [Flex] (net_worth_widget (type_balance Checking eid d) (type_balance Savings eid d)
                (type_balance CreditCard eid d) (type_balance Investment eid d) (shown_net_worth eid d)
                (has_focus focus NetWorth)),
              styled [Flex] (cash_flow_widget income expenses (dsub income expenses) (has_focus focus CashFlow))],
        HBox [styled [Flex] (recent_widget (recent_rows std_sort eid d) (has_focus focus RecentActivity)),
              styled [Flex] (sync_widget (sync_states d) (has_focus focus SyncStatus))]]))"

section \<open>Properties\<close>

text \<open>The cash flow of a month, for whole amounts: income less expenses is the sum of the amounts of the month's
  transactions on the visible accounts, and neither is negative.\<close>

theorem cash_flow_balances:
  assumes "exact_sum (map t_amount (month_visible eid mon d))"
  shows "month_income eid mon d - month_expenses eid mon d = sum_list (map t_amount (month_visible eid mon d)) \<and>
    0 \<le> month_income eid mon d \<and> 0 \<le> month_expenses eid mon d"
proof -
  let ?ts = "month_visible eid mon d"
  have abs: "exact_sum (map (\<lambda>t. \<bar>t_amount t\<bar>) ?ts)"
    using assms by (rule exact_sum_signs) (simp add: abs_if)
  have inc: "month_income eid mon d = sum_list (map t_amount (filter (\<lambda>t. t_amount t \<ge> 0) ?ts))"
    unfolding month_income_def by (rule total_exact [OF exact_sum_filter [OF assms]])
  have ex: "month_expenses eid mon d = sum_list (map (\<lambda>t. \<bar>t_amount t\<bar>) (filter (\<lambda>t. \<not> t_amount t \<ge> 0) ?ts))"
    unfolding month_expenses_def by (rule total_exact [OF exact_sum_filter [OF abs]])
  have split: "sum_list (map t_amount (filter (\<lambda>t. t_amount t \<ge> 0) ts)) -
      sum_list (map (\<lambda>t. \<bar>t_amount t\<bar>) (filter (\<lambda>t. \<not> t_amount t \<ge> 0) ts)) = sum_list (map t_amount ts)" for ts
    by (induction ts) simp_all
  have pos: "0 \<le> sum_list (map t_amount (filter (\<lambda>t. t_amount t \<ge> 0) ts))"
    "0 \<le> sum_list (map (\<lambda>t. \<bar>t_amount t\<bar>) (filter (\<lambda>t. \<not> t_amount t \<ge> 0) ts))" for ts
    by (rule sum_list_nonneg; auto)+
  show ?thesis unfolding inc ex by (intro conjI split pos)
qed

lemma bank_accounts_ok: "map_ok m \<Longrightarrow> map_ok (foldl (\<lambda>m a. map_set (a_id a) (a_institution a) m) m accs)"
  by (induction accs arbitrary: m) (simp_all add: map_ok_set)

lemma foldl_True: "foldl (\<lambda>v x. True) b xs = (b \<or> xs \<noteq> [])"
  by (induction xs arbitrary: b) simp_all

lemma foldl_same: "foldl (\<lambda>v x. v) b xs = b"
  by (induction xs) simp_all

text \<open>A bank is shown as connected exactly when some transaction is on an account that is, the last entry of its
  identifier counting, an account of the bank.\<close>

theorem bank_connected:
  "map_cell False bank (connected_banks d) \<longleftrightarrow>
     (\<exists>t \<in> set (ds_transactions d). map_of (bank_by_account (ds_accounts d)) (t_account t) = Some bank)"
proof -
  let ?banks = "bank_by_account (ds_accounts d)"
  let ?none = "gather False a_institution (\<lambda>_ b. b) (filter (\<lambda>a. a_institution a \<noteq> []) (ds_accounts d)) []"
  have none: "map_ok ?none" "map_cell False bank ?none = False"
    by (simp_all add: gather_ok gather_cell foldl_same) (simp add: map_cell_def)
  have "map_cell False bank (connected_banks d) \<longleftrightarrow>
      filter (\<lambda>t. the (map_of ?banks (t_account t)) = bank)
        (filter (\<lambda>t. map_of ?banks (t_account t) \<noteq> None) (ds_transactions d)) \<noteq> []"
    unfolding connected_banks_def Let_def gather_cell [OF none(1)] none(2) by (simp add: foldl_True)
  also have "\<dots> \<longleftrightarrow> (\<exists>t \<in> set (ds_transactions d). map_of ?banks (t_account t) = Some bank)"
    by (auto simp: filter_empty_conv)
  finally show ?thesis .
qed

text \<open>At most one of the four widgets is drawn as focused, and none unless the controller is at Widget level.\<close>

lemma one_focus: "has_focus focus v \<Longrightarrow> has_focus focus w \<Longrightarrow> v = w"
  by (auto simp: has_focus_def is_widget_focused_def split: option.splits)

end
