(* ===== verification/Home_View.thy ===== *)
theory Home_View
  imports View_Elements
begin

text \<open>The home digest of the client (src/src/views/HomeView.h): the greeting of the hour, what the local data
  says about accounts, recent transactions and the month's cash flow, and the footer. One reading of the
  clock serves a whole drawing: the Unix time, and the local time the C library makes of it.
  What is shown: the age of a date is the difference of the days; what the bullets count; the cash
  flow of the month.\<close>

section \<open>The clock\<close>

record local_clock =
  lc_now :: int
  lc_year :: int
  lc_month :: int
  lc_hour :: int
  lc_min :: int
  lc_sec :: int

definition clock_text :: "local_clock \<Rightarrow> string" where
  "clock_text c = printf_0d 2 (lc_hour c) @ '':'' @ printf_0d 2 (lc_min c) @ '':'' @ printf_0d 2 (lc_sec c)"

definition current_month :: "local_clock \<Rightarrow> string" where
  "current_month c = int_to_string (lc_year c) @ ''-'' @ printf_0d 2 (lc_month c)"

definition atoi :: "string \<Rightarrow> int" where
  "atoi s = (case read_number s of None \<Rightarrow> 0 | Some n \<Rightarrow> n)"

text \<open>Division of the language truncates towards zero.\<close>

definition quot :: "int \<Rightarrow> int \<Rightarrow> int" where
  "quot a b = sgn a * (\<bar>a\<bar> div b)"

definition days_ago :: "int \<Rightarrow> string \<Rightarrow> int" where
  "days_ago now date =
     (if length date < 10 then 9999
      else let t = timegm \<lparr>tm_year = atoi (substr 0 4 date) - 1900, tm_mon = atoi (substr 5 2 date) - 1,
                           tm_mday = atoi (substr 8 2 date)\<rparr>
           in if t \<le> 0 then 9999 else quot (now - t) 86400)"

section \<open>The digest\<close>

definition greeting :: "int \<Rightarrow> string" where
  "greeting hour = (if hour < 5 then ''still up, rory?'' else if hour < 12 then ''good morning, rory.''
     else if hour < 17 then ''good afternoon, rory.'' else if hour < 22 then ''good evening, rory.''
     else ''late night, rory.'')"

definition scope_tags :: "string \<Rightarrow> string \<Rightarrow> data_store \<Rightarrow> string" where
  "scope_tags override handle d =
     (if override \<noteq> [] then override
      else (if list_ex (\<lambda>e. e_name e \<in> {''PCC'', ''Platinum Creek Capital'', ''Platinum Creek Capital LLC''}) (ds_entities d)
            then ''#pcc + #me-'' else ''#me-'') @ handle)"

definition accounts_bullet :: "data_store \<Rightarrow> string option" where
  "accounts_bullet d =
     (if ds_accounts d = [] then None
      else Some (plural (length (filter a_linked (ds_accounts d))) ''linked account'' @ dot @ ''balance $'' @
             fixed_text 2 (total (map a_balance (ds_accounts d)))))"

definition newest_tx :: "data_store \<Rightarrow> string" where
  "newest_tx d = foldl (\<lambda>n t. if n < t_date t then t_date t else n) [] (ds_transactions d)"

definition recent_bullet :: "int \<Rightarrow> data_store \<Rightarrow> string option" where
  "recent_bullet now d =
     (let n = length (filter (\<lambda>t. days_ago now (t_date t) \<le> 7) (ds_transactions d)); newest = newest_tx d in
      if n = 0 then None
      else Some (plural n ''transaction'' @ '' in the last 7 days'' @
             (if newest = [] then [] else dot @ ''newest '' @ newest)))"

definition home_income :: "string \<Rightarrow> data_store \<Rightarrow> rat" where
  "home_income mon d = total (map t_amount (filter (\<lambda>t. in_month mon t \<and> t_amount t \<ge> 0) (ds_transactions d)))"

definition home_expense :: "string \<Rightarrow> data_store \<Rightarrow> rat" where
  "home_expense mon d = total (map (\<lambda>t. - t_amount t) (filter (\<lambda>t. in_month mon t \<and> \<not> t_amount t \<ge> 0) (ds_transactions d)))"

definition cash_flow_bullet :: "string \<Rightarrow> data_store \<Rightarrow> string option" where
  "cash_flow_bullet mon d =
     (let income = home_income mon d; expense = home_expense mon d; net = dsub income expense in
      if \<not> (income > 0 \<or> expense > 0) then None
      else Some (''cash flow this month: '' @ (if net \<ge> 0 then ''+$'' else ''-$'') @ fixed_text 2 \<bar>net\<bar> @
             '' (income $'' @ fixed_text 2 income @ dot @ ''expenses $'' @ fixed_text 2 expense @ '')''))"

definition bullets :: "local_clock \<Rightarrow> data_store \<Rightarrow> string list" where
  "bullets c d = List.map_filter id [accounts_bullet d, recent_bullet (lc_now c) d, cash_flow_bullet (current_month c) d]"

definition alert_count :: "data_store \<Rightarrow> nat" where
  "alert_count d = length (filter (\<lambda>a. a_linked a \<and> a_balance a = 0) (ds_accounts d))"

definition sync_age :: "int \<Rightarrow> data_store \<Rightarrow> string" where
  "sync_age now d =
     (let newest = newest_tx d; n = days_ago now newest in
      if newest = [] then ''never'' else if n \<le> 0 then ''today'' else if n = 1 then ''1d ago''
      else int_to_string n @ ''d ago'')"

definition footer_text :: "int \<Rightarrow> data_store \<Rightarrow> string" where
  "footer_text now d = ''  '' @ plural (alert_count d) ''alert'' @ dot @ ''synced '' @ sync_age now d @ dot @
     nat_to_string (length (ds_entities d)) @ '' entit'' @ (if length (ds_entities d) = 1 then ''y'' else ''ies'') @ dot @
     plural (length (ds_accounts d)) ''account''"

definition digest_rows :: "local_clock \<Rightarrow> data_store \<Rightarrow> element list" where
  "digest_rows c d =
     [Txt [], styled [Coloured FgDefault] (Txt (''  '' @ greeting (lc_hour c))), Txt []] @
     (if bullets c d = []
      then [styled [Coloured FgDim] (Txt (''  no activity yet '' @ em_dash @ '' link a bank with [P] on Accounts.''))]
      else styled [Coloured FgDim] (Txt ''  since you were last here:'') #
        map (\<lambda>b. styled [Coloured FgDefault] (Txt (''   '' @ dot @ b))) (bullets c d)) @ [Txt []]"

definition home_view :: "string \<Rightarrow> string \<Rightarrow> local_clock \<Rightarrow> data_store \<Rightarrow> element" where
  "home_view override handle c d =
     (let tags = scope_tags override handle d; rule = styled [Coloured FgDim] Sep in
      styled [Flex] (VBox [
        HBox [styled [Coloured FgEmphasized] (Txt (''greylock'' @ dot @ handle @ ''@greylock'' @
                (if tags = [] then [] else dot @ tags))), Filler, styled [Coloured FgDim] (Txt (clock_text c))],
        rule, VBox (digest_rows c d), Filler, rule,
        HBox [styled [Coloured FgDim] (Txt ''  ''), styled [Coloured FgEmphasized] (Txt (handle @ ''@greylock:~ $ '')),
          styled [Blink, Coloured FgEmphasized] (Txt ''_'')],
        rule, styled [Coloured FgDim] (Txt (footer_text (lc_now c) d))]))"

section \<open>Ages\<close>

lemma atoi_stoi: "stoi s = Some n \<Longrightarrow> atoi s = n"
  by (auto simp: stoi_def atoi_def split: option.splits if_splits)

lemma days_ago_parsed:
  assumes "parse_plaid_date s = Inr t" "10 \<le> length s"
  shows "days_ago now s = (if t \<le> 0 then 9999 else quot (now - t) 86400)"
  using assms by (auto simp: parse_plaid_date_def days_ago_def Let_def atoi_stoi split: option.splits)

lemma printed_date_long: "10 \<le> length s" if "parse_plaid_date s = Inr t" "0 < t"
  using that by (auto simp: parse_plaid_date_def split: if_splits)

text \<open>The age of a date is the number of days between today and the day it names, in universal time: for every
  day after the first of 1970 and every later time up to the year 9999.\<close>

theorem days_ago_difference:
  assumes "parse_plaid_date s = Inr (86400 * k)" and "0 < k" and "86400 * k \<le> now"
  shows "days_ago now s = now div 86400 - k"
proof -
  have "10 \<le> length s" using printed_date_long [OF assms(1)] assms(2) by simp
  then have "days_ago now s = quot (now - 86400 * k) 86400"
    using days_ago_parsed [OF assms(1)] assms(2) by simp
  also have "\<dots> = (now - 86400 * k) div 86400" using assms(3) by (cases "now = 86400 * k") (simp_all add: quot_def)
  also have "\<dots> = now div 86400 - k" by simp
  finally show ?thesis .
qed

theorem days_ago_difference_witness: "days_ago 1709208000 ''2024-02-28'' = 1"
  using days_ago_difference [of "''2024-02-28''" 19781 1709208000]
  by (simp add: parse_plaid_date_def substr_def) code_simp

text \<open>A date in the future has a negative age, so it counts as recent.\<close>

lemma future_counts_as_recent: "days_ago 0 ''2024-02-28'' = - 19781"
  by code_simp

text \<open>The bullet about the accounts counts the linked ones, but its balance is that of all accounts.\<close>

lemma accounts_bullet_balance:
  "ds_accounts d \<noteq> [] \<Longrightarrow> accounts_bullet d = Some (nat_to_string (length (filter a_linked (ds_accounts d))) @
     '' linked account'' @ (if length (filter a_linked (ds_accounts d)) = 1 then [] else ''s'') @ dot @ ''balance $'' @
     fixed_text 2 (total (map a_balance (ds_accounts d))))"
  by (simp add: accounts_bullet_def plural_def)

end
