(* ===== verification/Ask_View.thy ===== *)
theory Ask_View
  imports View_Elements
begin

text \<open>The answer panel of the client (src/src/views/AskView.h): the query is normalised, the words it contains
  choose the answer and the entity it is about, and the balances of the accounts in scope are added up.
  Percentages that do not fit an int, which is undefined in the code, stay integers here.
  What is shown: white space and case of a query do not matter; the three buckets of the cash position
  add up to its total but for the accounts of no bucket.\<close>

section \<open>Queries\<close>

definition blank_char :: "char \<Rightarrow> bool" where
  "blank_char c \<longleftrightarrow> c = CHR '' '' \<or> c = CHR 0x09"

definition trim_blanks :: "string \<Rightarrow> string" where
  "trim_blanks s = rev (dropWhile blank_char (rev (dropWhile blank_char s)))"

definition extract_entity_scope :: "string \<Rightarrow> string" where
  "extract_entity_scope q = (if contains_sub ''pcc'' q then ''pcc'' else if contains_sub ''me'' q then ''me'' else [])"

section \<open>Scope\<close>

definition name_in_scope :: "string \<Rightarrow> string \<Rightarrow> bool" where
  "name_in_scope scope ename \<longleftrightarrow>
     scope = ''pcc'' \<and> (contains_sub ''pcc'' ename \<or> contains_sub ''platinum creek'' ename) \<or>
     scope = ''me'' \<and> (contains_sub ''personal'' ename \<or> contains_sub ''rory'' ename)"

definition account_in_scope :: "string \<Rightarrow> data_store \<Rightarrow> account \<Rightarrow> bool" where
  "account_in_scope scope d acc \<longleftrightarrow> scope = [] \<or>
     (case find (\<lambda>e. e_id e = a_entity acc) (ds_entities d) of
        None \<Rightarrow> False | Some e \<Rightarrow> name_in_scope scope (to_lower (e_name e)))"

definition scoped_accounts :: "string \<Rightarrow> data_store \<Rightarrow> account list" where
  "scoped_accounts scope d = filter (account_in_scope scope d) (ds_accounts d)"

section \<open>The cash position\<close>

record buckets =
  bk_total :: rat
  bk_operating :: rat
  bk_treasury :: rat
  bk_deployed :: rat

definition add_bucket :: "buckets \<Rightarrow> account \<Rightarrow> buckets" where
  "add_bucket b acc =
     (let v = a_balance acc; b1 = b\<lparr>bk_total := dadd (bk_total b) v\<rparr> in
      case a_type acc of
        Checking \<Rightarrow> b1\<lparr>bk_operating := dadd (bk_operating b) v\<rparr>
      | Savings \<Rightarrow> b1\<lparr>bk_treasury := dadd (bk_treasury b) v\<rparr>
      | Cash \<Rightarrow> b1\<lparr>bk_treasury := dadd (bk_treasury b) v\<rparr>
      | Investment \<Rightarrow> b1\<lparr>bk_deployed := dadd (bk_deployed b) v\<rparr>
      | CreditCard \<Rightarrow> b1\<lparr>bk_deployed := dadd (bk_deployed b) v\<rparr>
      | OtherAccount \<Rightarrow> b1)"

definition buckets_of :: "account list \<Rightarrow> buckets" where
  "buckets_of accs = foldl add_bucket \<lparr>bk_total = 0, bk_operating = 0, bk_treasury = 0, bk_deployed = 0\<rparr> accs"

definition share_of :: "rat \<Rightarrow> rat \<Rightarrow> rat" where
  "share_of base v = (if base \<noteq> 0 then dmul (ddiv v base) 100 else 0)"

definition block_bar :: "rat \<Rightarrow> element" where
  "block_bar pct =
     (let full = nat (max 0 (min 50 (d_round (dmul (ddiv pct 100) 50)))) in
      styled [Coloured AccentPositive] (Txt (concat (replicate full (block_glyph 8)))))"

definition bucket_row :: "rat \<Rightarrow> string \<Rightarrow> rat \<Rightarrow> element" where
  "bucket_row base label v = HBox [styled [Coloured FgDefault, Width 14] (Txt (''    '' @ label)),
     styled [Width 14] (Txt (dollars 2 v)), Txt ''  '',
     styled [Width 6, Coloured FgDim] (Txt (int_to_string (d_round (share_of base v)) @ ''%'')),
     block_bar (share_of base v)]"

definition newest_of :: "transaction list \<Rightarrow> string" where
  "newest_of ts = foldl (\<lambda>n t. if n < t_date t then t_date t else n) [] ts"

definition scope_title :: "string \<Rightarrow> string" where
  "scope_title scope = (if scope = [] then ''all entities''
     else if scope = ''pcc'' then ''pcc'' @ dot @ ''platinum creek capital'' else ''#me-'' @ scope)"

definition cash_position :: "string \<Rightarrow> data_store \<Rightarrow> element" where
  "cash_position scope d =
     (let accs = scoped_accounts scope d; b = buckets_of accs;
          linked = length (filter a_linked accs); newest = newest_of (ds_transactions d);
          row = bucket_row (bk_total b) in
      styled [Flex] (VBox [Txt [], HBox [styled [Coloured FgEmphasized, Bold] (Txt (scope_title scope))],
        styled [Coloured FgDim] Sep, Txt [],
        HBox [styled [Coloured FgDim, Width 14] (Txt ''  total''), Filler,
          styled [Coloured FgEmphasized, Bold] (Txt (dollars 2 (bk_total b))), Txt ''  ''],
        Txt [], row ''operating'' (bk_operating b), row ''treasury'' (bk_treasury b), row ''deployed'' (bk_deployed b),
        Txt [], styled [Coloured FgDim] (Txt ''  against framework''),
        styled [Coloured FgDim] (Txt (''    (no capital framework decision logged yet '' @ em_dash @
          '' see :open decision <id>)'')),
        Txt [],
        HBox [styled [Coloured FgDim] (Txt (''  source'' @ dot @ ''plaid'' @ dot @ plural linked ''account'' @ dot @
          ''newest tx '' @ (if newest = [] then ''never'' else newest)))]]))"

section \<open>The net worth and the rest\<close>

definition ask_net_worth :: "string \<Rightarrow> data_store \<Rightarrow> element" where
  "ask_net_worth scope d =
     (let sum = total (map a_balance (scoped_accounts scope d)) in
      styled [Flex] (VBox [Txt [],
        styled [Coloured FgEmphasized, Bold] (Txt (''net worth'' @ dot @
          (if scope = [] then ''all entities'' else if scope = ''pcc'' then ''pcc'' else ''#me''))),
        styled [Coloured FgDim] Sep, Txt [],
        styled [Coloured (if sum \<ge> 0 then AccentPositive else AccentNegative), Bold] (Txt (''  '' @ dollars 2 sum)),
        Txt [], styled [Coloured FgDim] (Txt (''  source'' @ dot @ ''plaid'' @ dot @ ''live account balances''))]))"

definition ask_unknown :: "string \<Rightarrow> element" where
  "ask_unknown q =
     styled [Flex] (VBox [Txt [], styled [Coloured AccentWarning] (Txt (''  no handler for: '' @ q)), Txt [],
       styled [Coloured FgDim] (Txt ''  known queries (no LLM required):''),
       styled [Coloured FgDefault] (Txt ''    :ask cash position [pcc | me]''),
       styled [Coloured FgDefault] (Txt ''    :ask net worth [pcc | me]''), Txt [],
       styled [Coloured FgDim] (Txt ''  open-ended `:ask` arrives once Q8 (embedding model)''),
       styled [Coloured FgDim] (Txt ''  and Q10 (privacy tiering) are answered.'')])"

definition ask_view :: "string option \<Rightarrow> data_store \<Rightarrow> element" where
  "ask_view asked d =
     (case asked of
        None \<Rightarrow> styled [Flex] (VBox [Txt [], styled [Coloured FgEmphasized] (Txt (''  ask'' @ dot @ ''(no query)'')), Txt [],
          styled [Coloured FgDim] (Txt ''  Use `:ask <question>` to query.'')])
      | Some q \<Rightarrow>
          (let n = to_lower (trim_blanks q) in
           if contains_sub ''cash position'' n \<or> contains_sub ''cash'' n then cash_position (extract_entity_scope n) d
           else if contains_sub ''net worth'' n \<or> contains_sub ''networth'' n
           then ask_net_worth (extract_entity_scope n) d
           else ask_unknown q))"

section \<open>Properties\<close>

lemma bucket_step:
  "bk_total (add_bucket b a) = dadd (bk_total b) (a_balance a)"
  "bk_operating (add_bucket b a) = (if a_type a = Checking then dadd (bk_operating b) (a_balance a) else bk_operating b)"
  "bk_treasury (add_bucket b a) =
     (if a_type a \<in> {Savings, Cash} then dadd (bk_treasury b) (a_balance a) else bk_treasury b)"
  "bk_deployed (add_bucket b a) =
     (if a_type a \<in> {Investment, CreditCard} then dadd (bk_deployed b) (a_balance a) else bk_deployed b)"
  by (cases "a_type a"; simp add: add_bucket_def Let_def)+

lemma buckets_fold:
  "bk_total (foldl add_bucket b accs) = foldl dadd (bk_total b) (map a_balance accs)"
  "bk_operating (foldl add_bucket b accs) =
     foldl dadd (bk_operating b) (map a_balance (filter (\<lambda>a. a_type a = Checking) accs))"
  "bk_treasury (foldl add_bucket b accs) =
     foldl dadd (bk_treasury b) (map a_balance (filter (\<lambda>a. a_type a \<in> {Savings, Cash}) accs))"
  "bk_deployed (foldl add_bucket b accs) =
     foldl dadd (bk_deployed b) (map a_balance (filter (\<lambda>a. a_type a \<in> {Investment, CreditCard}) accs))"
  by (induction accs arbitrary: b) (simp_all add: bucket_step)

lemma buckets_total:
  "bk_total (buckets_of accs) = total (map a_balance accs)"
  "bk_operating (buckets_of accs) = total (map a_balance (filter (\<lambda>a. a_type a = Checking) accs))"
  "bk_treasury (buckets_of accs) = total (map a_balance (filter (\<lambda>a. a_type a \<in> {Savings, Cash}) accs))"
  "bk_deployed (buckets_of accs) = total (map a_balance (filter (\<lambda>a. a_type a \<in> {Investment, CreditCard}) accs))"
  unfolding buckets_of_def buckets_fold by (simp_all add: total_def)

lemma sum_buckets:
  "sum_list (map a_balance (filter (\<lambda>a. a_type a = Checking) accs)) +
   sum_list (map a_balance (filter (\<lambda>a. a_type a \<in> {Savings, Cash}) accs)) +
   sum_list (map a_balance (filter (\<lambda>a. a_type a \<in> {Investment, CreditCard}) accs)) +
   sum_list (map a_balance (filter (\<lambda>a. a_type a = OtherAccount) accs)) = sum_list (map a_balance accs)"
proof (induction accs)
  case (Cons a accs)
  then show ?case by (cases "a_type a") simp_all
qed simp

text \<open>The three buckets of a cash position and the accounts of the kind Other, which is in none of them, add up
  to the total that is shown above them, for whole amounts.\<close>

theorem cash_position_buckets:
  assumes "exact_sum (map a_balance (scoped_accounts scope d))"
  shows "bk_operating (buckets_of (scoped_accounts scope d)) + bk_treasury (buckets_of (scoped_accounts scope d)) +
    bk_deployed (buckets_of (scoped_accounts scope d)) +
    sum_list (map a_balance (filter (\<lambda>a. a_type a = OtherAccount) (scoped_accounts scope d))) =
    bk_total (buckets_of (scoped_accounts scope d))"
  unfolding buckets_total total_exact [OF exact_sum_filter [OF assms]] total_exact [OF assms] by (rule sum_buckets)

theorem cash_position_buckets_witness:
  "bk_total (buckets_of (scoped_accounts [] two_accounts)) = 420"
proof -
  have "whole 300" "whole 120" unfolding whole_def by (metis of_int_numeral)+
  then have e: "exact_sum (map a_balance (scoped_accounts [] two_accounts))"
    by (simp add: exact_sum_def scoped_accounts_def account_in_scope_def two_accounts_def plain_account_def)
  show ?thesis using cash_position_buckets [OF e]
    unfolding buckets_total total_exact [OF exact_sum_filter [OF e]]
    by (simp add: scoped_accounts_def account_in_scope_def two_accounts_def plain_account_def)
qed

text \<open>Blanks around a query and the case of its letters do not change the answer; when the words are unknown
  the panel repeats the query as it was typed.\<close>

lemma trim_blanks_around: "list_all blank_char u \<Longrightarrow> list_all blank_char v \<Longrightarrow> trim_blanks (u @ q @ v) = trim_blanks q"
proof -
  assume u: "list_all blank_char u" and v: "list_all blank_char v"
  have "dropWhile blank_char (u @ s) = dropWhile blank_char s" for s
    using u by (induction u) simp_all
  moreover have "rev (dropWhile blank_char (rev (dropWhile blank_char (q @ v)))) =
      rev (dropWhile blank_char (rev (dropWhile blank_char q)))"
  proof (cases "list_all blank_char q")
    case True
    then have "dropWhile blank_char (q @ v) = []" "dropWhile blank_char q = []"
      using v by (simp_all add: list_all_iff)
    then show ?thesis by (simp only:)
  next
    case False
    then have "dropWhile blank_char (q @ v) = dropWhile blank_char q @ v"
      by (auto simp: list_all_iff dropWhile_append)
    moreover have "dropWhile blank_char (rev v @ s) = dropWhile blank_char s" for s
      using v by (intro dropWhile_append2) (simp add: list_all_iff)
    ultimately show ?thesis by simp
  qed
  ultimately show ?thesis by (simp add: trim_blanks_def)
qed

lemma blanks_ignored:
  assumes "list_all blank_char u" "list_all blank_char v"
  shows "ask_view (Some (u @ q @ v)) d = ask_view (Some q) d \<or>
    ask_view (Some (u @ q @ v)) d = ask_unknown (u @ q @ v) \<and> ask_view (Some q) d = ask_unknown q"
  unfolding ask_view_def option.case trim_blanks_around [OF assms] Let_def by simp

text \<open>The scope is looked for as a part of a word, not as a word.\<close>

lemma scope_is_a_substring: "extract_entity_scope ''cash for the same month'' = ''me''"
  by code_simp

end
