(* ===== verification/App_Screen.thy ===== *)
theory App_Screen
  imports Object_Views List_Views Drill_Views Dashboard_View Home_View Ask_View
begin

text \<open>What the client draws (src/src/main.cpp, \<open>App::render\<close>, src/src/views/CommandPalette.cpp and
  src/src/views/HelpOverlay.cpp): the strips of entities and views, the command line that stands for the view,
  the view itself, the status bar, and an overlay over all of it. Drawing the budget changes the store. An
  index of the entity past the list, which a drill reads, leaves as \<open>Inl\<close>.
  What is shown: when drawing fails and what it changes; that the overlay is drawn over the same screen;
  which view is named; and that the cash flows of the views agree with the store's.\<close>

section \<open>The overlays\<close>

definition kPaletteWidth :: nat where "kPaletteWidth = 67"

definition arrow_right :: string where "arrow_right = [CHR 0xE2, CHR 0x96, CHR 0xB8]"
definition arrows_updown :: string where
  "arrows_updown = [CHR 0xE2, CHR 0x86, CHR 0x91, CHR 0xE2, CHR 0x86, CHR 0x93]"

definition palette_row :: "nat \<Rightarrow> nat \<Rightarrow> command \<Rightarrow> element" where
  "palette_row sel i c =
     (let is_sel = (i = sel); fg = (if is_sel then FgEmphasized else FgDim) in
      HBox [styled [Flex] (HBox [styled [Coloured FocusColour] (Txt (if is_sel then arrow_right @ '' '' else ''  '')),
              styled (if is_sel then [Coloured fg, Bold] else [Coloured fg]) (Txt (cmd_name c))]),
            (if cmd_shortcut c \<noteq> [] then dim_row (''['' @ cmd_shortcut c @ '']'') else Txt [])])"

definition palette_rows :: "palette \<Rightarrow> element list" where
  "palette_rows p = map (\<lambda>(i, k). palette_row (selected p) i (kCommands ! k)) (enumerate 0 (results p))"

definition palette_element :: "palette \<Rightarrow> element" where
  "palette_element p =
     (if \<not> is_open p then Txt []
      else styled [Width kPaletteWidth] (VBox [
        styled [BorderRounded, Coloured FgEmphasized] (VBox [
          HBox [dim_row '': '', styled [Coloured FgEmphasized] (Txt (typed p)), dim_row ''_''],
          styled [Coloured FgDim] Sep,
          VBox (if results p = [] then [dim_row ''  (no matches)''] else palette_rows p)]),
        HBox [dim_row ''[Enter] Run   '', dim_row (''['' @ arrows_updown @ ''] Select   ''), dim_row ''[Esc] Cancel'']]))"

definition kBindings :: "(string \<times> string) list" where
  "kBindings = (let rule = light_rule @ light_rule @ '' '' in
     [([], rule @ ''Top-level navigation''), (''g d'', ''Home (morning digest)''), (''g s'', ''Snapshot (widget grid)''),
      (''g a'', ''Accounts''), (''g t'', ''Transactions''), (''g b'', ''Budget''), (''g c'', ''Categories''), ([], []),
      (''g n'', ''Notes (v3 scaffold)''), (''g D'', ''Decisions (v3 scaffold)''), (''g k'', ''Tasks (v3 scaffold)''),
      (''g e'', ''Events (v3 scaffold)''), (''g p'', ''Proposals inbox (v4 scaffold)''),
      (''g T'', ''Targets (v4 scaffold)''), (''g R'', ''Relationships (v4 scaffold)''),
      (''g r'', ''Real Estate (v4 scaffold)''), ([], []), (''1 / 2'', ''Switch entity (Personal/PCC)''),
      ('':'', ''Command palette (fallback)''), ([], []), ([], rule @ ''Within a view''),
      (''Tab / S-Tab'', ''Cycle focus''), (''h j k l'', ''Move focus L/D/U/R''), (''Enter'', ''Drill into focused widget''),
      (''Esc'', ''Back / close''), ([], []), ([], rule @ ''Global''), (''?'', ''This help''), (''q'', ''Quit'')])"

definition binding_row :: "string \<times> string \<Rightarrow> element" where
  "binding_row = (\<lambda>(key, description).
     HBox [styled [Coloured FgEmphasized, Width 14] (Txt (''  '' @ key)), plain_row description])"

definition help_element :: "bool \<Rightarrow> element" where
  "help_element h =
     (if \<not> h then Txt []
      else styled [BorderRounded, Coloured FgEmphasized, Width 56] (VBox [
        styled [Center, Coloured FgEmphasized, Bold] (Txt '' KEYBINDINGS ''), styled [Coloured FgDim] Sep,
        VBox ([Txt []] @ map binding_row kBindings @
              [Txt [], styled [Center, Coloured FgDim] (Txt ''[Esc] Close'')])]))"

section \<open>The strips\<close>

definition visible_tabs :: "string list" where
  "visible_tabs = [''Home'', ''Accounts'', ''Transactions'', ''Budget'', ''Categories'']"

definition kHiddenViewNames :: "string list" where
  "kHiddenViewNames = [''Notes'', ''Decisions'', ''Tasks'', ''Events'', ''Proposals'', ''Targets'', ''Relationships'',
     ''Real Estate'', ''Snapshot'', ''Graph'', ''Ask'']"

definition tab_chip :: "bool \<Rightarrow> string \<Rightarrow> element list" where
  "tab_chip here label =
     (if here then [styled [Coloured LedBlue] (Txt ''[x]''), styled [Coloured LedBlue, Bold] (Txt label)]
      else [blue_dim ''[ ]'', blue_dim label])"

definition entity_tabs :: "nat \<Rightarrow> data_store \<Rightarrow> element list" where
  "entity_tabs current d = concat (map (\<lambda>(i, e). tab_chip (i = current)
     ('' '' @ nat_to_string (i + 1) @ '':'' @ e_name e @ '' '')) (enumerate 0 (ds_entities d)))"

definition bullet_chip :: string where "bullet_chip = ''  ['' @ [CHR 0xE2, CHR 0x80, CHR 0xA2] @ '']''"

definition view_tabs :: "nat \<Rightarrow> element list" where
  "view_tabs tab =
     concat (map (\<lambda>(i, name). tab_chip (i = tab) ('' '' @ name @ '' '')) (enumerate 0 visible_tabs)) @
     (if length visible_tabs \<le> tab \<and> tab - length visible_tabs < length kHiddenViewNames
      then [styled [Coloured LedBlue] (Txt bullet_chip),
            styled [Coloured LedBlue, Bold] (Txt ('' '' @ kHiddenViewNames ! (tab - length visible_tabs) @ '' ''))]
      else [])"

definition current_view_name :: "nat \<Rightarrow> string" where
  "current_view_name tab =
     (if tab < length visible_tabs then visible_tabs ! tab
      else if tab - length visible_tabs < length kHiddenViewNames then kHiddenViewNames ! (tab - length visible_tabs)
      else ''Unknown'')"

definition user_handle :: "'w services \<Rightarrow> string" where
  "user_handle S = (let email = user_email S in if email = [] then ''rory'' else takeWhile (\<lambda>c. c \<noteq> CHR ''@'') email)"

definition cmd_for_tab :: "'w app \<Rightarrow> string" where
  "cmd_for_tab a =
     (if ap_tab a = 6 then (if ap_decision a \<noteq> None then ''open '' @ ap_last_open a else ''decisions'')
      else if ap_tab a = 11 then (if ap_relationship a \<noteq> None then ''open '' @ ap_last_open a else ''relationships'')
      else if ap_tab a = 14 then (if ap_last_graph a = [] then ''graph'' else ap_last_graph a)
      else if ap_tab a = 15 then (if ap_last_ask a = [] then ''ask'' else ''ask '' @ ap_last_ask a)
      else case map_of [(1, ''accounts''), (2, ''tx''), (3, ''budget''), (4, ''categories''), (5, ''notes''), (7, ''tasks''),
             (8, ''events''), (9, ''proposals''), (10, ''targets''), (12, ''real-estate''), (13, ''snapshot'')] (ap_tab a) of
             Some s \<Rightarrow> s | None \<Rightarrow> [])"

section \<open>The view\<close>

record surroundings =
  sr_sort :: sorter
  sr_width :: int
  sr_clock :: local_clock

definition placeholders :: "(nat \<times> element) list" where
  "placeholders =
     [(5, placeholder_view ''Notes'' ''The vault is the input pipe. Markdown files in ~/Greylock/vault/''
            ''v3: schema live (M008). Vault ingestion + auto-commit next.''),
      (6, placeholder_view ''Decisions'' ''Chronological feed; `:open decision <id>` jumps to full detail.''
            ''v3: decisions table live (M008). Per-row detail view ready (see g D again after `:open`).''),
      (7, placeholder_view ''Tasks'' ''Open / in-progress / done. `c` to complete; due-date sort.''
            ''v3: tasks table live (M008). CRUD + complete flow next.''),
      (8, placeholder_view ''Events'' ''Calendar-style list, attendees + linked notes per event.''
            ''v3: events table live (M008). Meeting workflow next.''),
      (9, placeholder_view ''Proposals inbox'' ''AI-proposed objects awaiting principal confirmation.''
            ''v4: pending_extractions table live (M009). Wired after Q8/Q10.''),
      (10, let arrow = [CHR 0x20, CHR 0xE2, CHR 0x86, CHR 0x92, CHR 0x20] in
           placeholder_view ''Targets'' (''PCC acquisition pipeline (lead'' @ arrow @ ''engaged'' @ arrow @ ''LOI'' @ arrow @
             ''diligence'' @ arrow @ ''closed).'') ''v4: targets table live (M009). Pipeline UX next.''),
      (11, placeholder_view ''Relationships'' ''People (family, friends, professionals, on-call) with last-contact decay.''
            ''v4: relationships table live (M009).''),
      (12, placeholder_view ''Real Estate'' ''Owned / under-contract / evaluated properties + cost basis tracking.''
            ''v4: real_estate table live (M009).'')]"

definition decision_as_page :: "decision_view \<Rightarrow> decision_page" where
  "decision_as_page v = decision_view.extend v
     (decision_page.fields [] [] [] [] [])"

definition relationship_as_page :: "relationship_view \<Rightarrow> relationship_page" where
  "relationship_as_page v = relationship_view.extend v (relationship_page.fields True [] [] [] [])"

definition placeholder_at :: "nat \<Rightarrow> element" where
  "placeholder_at tab = (case map_of placeholders tab of Some e \<Rightarrow> e | None \<Rightarrow> styled [Coloured LedBlue] (Txt ''Unknown''))"

definition tab_view :: "'w services \<Rightarrow> surroundings \<Rightarrow> 'w app \<Rightarrow> element \<times> data_store" where
  "tab_view S R a =
     (let d = ap_store a; v = ap_views a; mon = current_month (sr_clock R); just = (\<lambda>e. (e, d)) in
      if ap_tab a = 0 then just (home_view [] (user_handle S) (sr_clock R) d)
      else if ap_tab a = 1 then just (accounts_view (vs_accounts v) (vs_sel_accounts v) d)
      else if ap_tab a = 2 then just (transactions_view (sr_sort R) (sr_width R) (vs_tx_account v) (vs_sel_tx v) d)
      else if ap_tab a = 3 then budget_view (vs_budget v) (vs_sel_budget v) mon d
      else if ap_tab a = 4 then just (categories_view 0 d)
      else if ap_tab a = 6 \<and> ap_decision a \<noteq> None
        then just (decision_element (map_option decision_as_page (ap_decision a)))
      else if ap_tab a = 11 \<and> ap_relationship a \<noteq> None
        then just (relationship_element (map_option relationship_as_page (ap_relationship a)))
      else if ap_tab a = 13 then just (dashboard_view (sr_sort R) (vs_dashboard v) mon (Some (ap_focus a)) d)
      else if ap_tab a = 14 then just (graph_view_element (user_handle S @ '' loftus'') (ap_graph a) d)
      else if ap_tab a = 15 then just (ask_view (ap_ask a) d)
      else just (placeholder_at (ap_tab a)))"

text \<open>A drill is drawn at tab 0, and only that into the net worth.\<close>

definition tab_content :: "'w services \<Rightarrow> surroundings \<Rightarrow> 'w app \<Rightarrow> string + element \<times> data_store" where
  "tab_content S R a =
     (let es = ds_entities (ap_store a) in
      if ap_tab a = 0 \<and> level (ap_focus a) = Drill then
        (if es \<noteq> [] \<and> length es \<le> ap_entity a then Inl out_of_range
         else if drilled_widget (ap_focus a) = NetWorth
         then Inr (drill_net_worth (if es = [] then [] else e_id (es ! ap_entity a)) (ap_store a), ap_store a)
         else Inr (tab_view S R a))
      else Inr (tab_view S R a))"

definition background :: "'w services \<Rightarrow> 'w app \<Rightarrow> element \<Rightarrow> element" where
  "background S a shown =
     styled [Background Black, Coloured LedBlue] (VBox [styled [Background Black] (Txt []),
       styled [Coloured LedBlue, Background Black] (HBox (entity_tabs (ap_entity a) (ap_store a))),
       styled [Coloured LedBlue, Background Black] (HBox (view_tabs (ap_tab a))),
       styled [Coloured LedBlueDim] Sep,
       (if ap_tab a = 0 then Txt []
        else HBox [dim_row (''  '' @ user_handle S @ ''@greylock:~ $ ''), styled [Coloured FgEmphasized] (Txt (cmd_for_tab a))]),
       styled [Flex, Background Black] shown,
       styled [Coloured LedBlueDim] Sep,
       status_bar [],
       (if ap_status a = [] then Txt [] else styled [Coloured PlainGreen] (Txt (''  '' @ ap_status a)))])"

definition overlay :: "element \<Rightarrow> element \<Rightarrow> element" where
  "overlay screen e = DBox [screen, VBox [Filler, HBox [Filler, e, Filler], Filler]]"

definition render_app :: "'w services \<Rightarrow> surroundings \<Rightarrow> 'w app \<Rightarrow> string + element \<times> 'w app" where
  "render_app S R a =
     (case tab_content S R a of
        Inl what \<Rightarrow> Inl what
      | Inr (e, d) \<Rightarrow>
          (let screen = background S a e in
           Inr (if is_open (ap_palette a) then overlay screen (palette_element (ap_palette a))
                else if ap_help a then overlay screen (help_element True) else screen,
                a\<lparr>ap_store := d\<rparr>)))"

section \<open>Properties\<close>

lemma tab_view_store:
  "snd (tab_view S R a) =
     (if ap_tab a = 3 then calculate_spent_amounts (current_month (sr_clock R)) (ap_store a) else ap_store a)"
  by (simp add: tab_view_def Let_def budget_view_def)

lemma tab_content_store:
  "tab_content S R a = Inr (e, d) \<Longrightarrow>
     d = (if ap_tab a = 3 then calculate_spent_amounts (current_month (sr_clock R)) (ap_store a) else ap_store a)"
  using tab_view_store [of S R a] by (auto simp: tab_content_def Let_def split: if_splits)

lemma tab_content_fails:
  "tab_content S R a = Inl what \<longleftrightarrow> what = out_of_range \<and> ap_tab a = 0 \<and> level (ap_focus a) = Drill \<and>
     ds_entities (ap_store a) \<noteq> [] \<and> length (ds_entities (ap_store a)) \<le> ap_entity a"
  by (auto simp: tab_content_def Let_def)

text \<open>Drawing fails exactly for a drill whose entity is past the end of the list; otherwise it changes nothing of
  the application, but that the budget view stores the spent amounts of the month in its budgets.\<close>

theorem drawing_effect:
  "if ap_tab a = 0 \<and> level (ap_focus a) = Drill \<and> ds_entities (ap_store a) \<noteq> [] \<and>
      length (ds_entities (ap_store a)) \<le> ap_entity a
   then render_app S R a = Inl out_of_range
   else \<exists>e. render_app S R a = Inr (e,
     if ap_tab a = 3 then a\<lparr>ap_store := calculate_spent_amounts (current_month (sr_clock R)) (ap_store a)\<rparr> else a)"
proof (cases "tab_content S R a")
  case (Inl what)
  then show ?thesis using tab_content_fails [of S R a what] by (simp add: render_app_def)
next
  case (Inr x)
  obtain e d where x: "x = (e, d)" by (cases x)
  have "\<exists>e'. render_app S R a = Inr (e', a\<lparr>ap_store := d\<rparr>)" by (simp add: render_app_def Inr x Let_def)
  moreover have "a\<lparr>ap_store := ap_store a\<rparr> = a" by (cases a) simp
  moreover have "\<not> (ap_tab a = 0 \<and> level (ap_focus a) = Drill \<and> ds_entities (ap_store a) \<noteq> [] \<and>
      length (ds_entities (ap_store a)) \<le> ap_entity a)"
    using tab_content_fails [of S R a out_of_range] Inr by auto
  ultimately show ?thesis using tab_content_store [OF Inr [unfolded x]] by auto
qed

definition uncovered :: "'w app \<Rightarrow> 'w app" where
  "uncovered a = a\<lparr>ap_palette := (ap_palette a)\<lparr>is_open := False\<rparr>, ap_help := False\<rparr>"

lemma uncovered_fields [simp]:
  "ap_store (uncovered a) = ap_store a" "ap_tab (uncovered a) = ap_tab a" "ap_views (uncovered a) = ap_views a"
  "ap_focus (uncovered a) = ap_focus a" "ap_entity (uncovered a) = ap_entity a" "ap_status (uncovered a) = ap_status a"
  "ap_graph (uncovered a) = ap_graph a" "ap_ask (uncovered a) = ap_ask a" "ap_decision (uncovered a) = ap_decision a"
  "ap_relationship (uncovered a) = ap_relationship a" "ap_last_open (uncovered a) = ap_last_open a"
  "ap_last_graph (uncovered a) = ap_last_graph a" "ap_last_ask (uncovered a) = ap_last_ask a"
  "is_open (ap_palette (uncovered a)) = False" "ap_help (uncovered a) = False"
  by (simp_all add: uncovered_def)

lemma uncovered_parts: "tab_content S R (uncovered a) = tab_content S R a" "background S (uncovered a) e = background S a e"
  by (auto simp: tab_content_def tab_view_def background_def cmd_for_tab_def Let_def)

text \<open>What is under an overlay is the screen as it is without one, and of two overlays the palette is drawn.\<close>

lemma overlay_over_same_screen:
  assumes "render_app S R (uncovered a) = Inr (screen, b)"
  shows "map_sum id fst (render_app S R a) = Inr (
    if is_open (ap_palette a) then overlay screen (palette_element (ap_palette a))
    else if ap_help a then overlay screen (help_element True) else screen)"
  using assms by (auto simp: render_app_def uncovered_parts Let_def split: sum.splits)

text \<open>Every view the application can be at has a name of its own.\<close>

lemma view_names: "distinct (map current_view_name [0..<16])" "''Unknown'' \<notin> set (map current_view_name [0..<16])"
  by code_simp+

section \<open>One cash flow\<close>

lemma sum_nonneg_only: "sum_list (map t_amount (filter (\<lambda>t. P t \<and> t_amount t \<ge> 0) ts)) =
    sum_list (map t_amount (filter (\<lambda>t. P t \<and> 0 < t_amount t) ts))"
  by (induction ts) auto

lemma expenses_agree: "home_expense mon d = get_spending_for_month mon d"
    "month_expenses [] mon d = get_spending_for_month mon d"
  by (auto simp: home_expense_def month_expenses_def get_spending_for_month_def month_visible_def visible_def is_expense_def
      not_le intro!: arg_cong [of _ _ total])

text \<open>The cash flow of a month is computed in three places, the store, the home digest and the widget grid; with no
  entity selected and whole amounts they agree.\<close>

theorem cash_flows_agree:
  assumes "exact_sum (map t_amount (filter (in_month mon) (ds_transactions d)))"
  shows "home_income mon d = get_income_for_month mon d \<and> month_income [] mon d = get_income_for_month mon d \<and>
    home_expense mon d = get_spending_for_month mon d \<and> month_expenses [] mon d = get_spending_for_month mon d"
proof -
  let ?ts = "filter (in_month mon) (ds_transactions d)"
  have e: "total (map t_amount (filter (\<lambda>t. in_month mon t \<and> P t) (ds_transactions d))) =
      sum_list (map t_amount (filter (\<lambda>t. in_month mon t \<and> P t) (ds_transactions d)))" for P
    using total_exact [OF exact_sum_filter [OF assms, of P]] by (simp add: conj_commute)
  show ?thesis
    by (simp add: expenses_agree home_income_def month_income_def get_income_for_month_def month_visible_def visible_def
        is_income_def conj_commute e sum_nonneg_only)
qed

theorem cash_flows_agree_witness: "home_income ''2026-05'' may_store = get_income_for_month ''2026-05'' may_store"
proof -
  have "whole (- 12)" unfolding whole_def by (metis of_int_neg_numeral)
  then have "exact_sum (map t_amount (filter (in_month ''2026-05'') (ds_transactions may_store)))"
    by (simp add: exact_sum_def may_store_def lunch_def in_month_def substr_def)
  from cash_flows_agree [OF this] show ?thesis by blast
qed

end
