(* ===== verification/Client_Start.thy ===== *)
theory Client_Start
  imports Auth_Client V01_Migrator Config_Manager
begin

text \<open>The command line of the client (src/src/main.cpp): the flags, the prompts, what is printed, the exit codes,
  the check before the terminal interface starts, and the storage the application starts with. The
  console is a record of the lines to read and the pieces printed; the echo of the terminal, signals and
  the wiping of memory are not modelled. \<open>Inl\<close> is an exception that nothing catches.
  What is shown: when the interface starts; that a failed login and a mistyped passphrase change nothing;
  what a failed logout says and does; and when an upload ends with success.\<close>

section \<open>The console and the services\<close>

record ('w, 's) console =
  co_lines :: "string list"
  co_out :: "string list"
  co_err :: "string list"
  co_world :: 'w
  co_secrets :: 's

record ('w, 's) core_services =
  cs_backend :: "'w backend option"
  cs_secrets :: "'s secrets option"

record ('w, 's) process =
  pr_getenv :: "string \<Rightarrow> string option"
  pr_http :: "http_request \<Rightarrow> 'w \<Rightarrow> http_response option \<times> 'w"
  pr_parse :: "string \<Rightarrow> json option"
  pr_dump :: "json \<Rightarrow> string + string"
  pr_secrets :: "'s secrets option"
  pr_text :: json_text
  pr_disk :: disk
  pr_sodium :: bool

type_synonym ('a, 'w, 's) step = "('w, 's) console \<Rightarrow> (string + 'a) \<times> ('w, 's) console"

definition say_out :: "string list \<Rightarrow> ('w, 's) console \<Rightarrow> ('w, 's) console" where
  "say_out ls c = c\<lparr>co_out := co_out c @ ls\<rparr>"

definition say_err :: "string list \<Rightarrow> ('w, 's) console \<Rightarrow> ('w, 's) console" where
  "say_err ls c = c\<lparr>co_err := co_err c @ ls\<rparr>"

text \<open>At the end of the input the line is empty.\<close>

definition prompt_line :: "string \<Rightarrow> ('w, 's) console \<Rightarrow> string \<times> ('w, 's) console" where
  "prompt_line prompt c = (let c1 = say_out [prompt] c in
     case co_lines c of [] \<Rightarrow> ([], c1) | l # ls \<Rightarrow> (l, c1\<lparr>co_lines := ls\<rparr>))"

definition nonempty_env :: "(string \<Rightarrow> string option) \<Rightarrow> string \<Rightarrow> string" where
  "nonempty_env env k = (case env k of None \<Rightarrow> [] | Some v \<Rightarrow> v)"

definition backend_url :: "(string \<Rightarrow> string option) \<Rightarrow> string" where
  "backend_url env = (let u = nonempty_env env ''TF_BACKEND_URL'' in if u \<noteq> [] then u else ''https://localhost:8443'')"

definition build_core_services :: "('w, 's) process \<Rightarrow> ('w, 's) core_services" where
  "build_core_services P = \<lparr>cs_backend = (case make_backend (pr_http P) (pr_parse P) (pr_dump P) (backend_url (pr_getenv P)) of
       Inl _ \<Rightarrow> None | Inr C \<Rightarrow> Some C), cs_secrets = pr_secrets P\<rparr>"

definition make_auth_service ::
    "('w, 's) process \<Rightarrow> 'w backend \<Rightarrow> 's secrets \<Rightarrow> ('w, 's) console \<Rightarrow> ('w, 's) auth_service \<times> ('w, 's) console" where
  "make_auth_service P C K c =
     (let email = nonempty_env (pr_getenv P) ''TF_USER_EMAIL'';
          (e, c1) = (if email = [] then prompt_line ''Email: '' c else (email, c))
      in (\<lparr>au_backend = C, au_secrets = K, au_email = e\<rparr>, c1))"

text \<open>A call of the authentication service, on the part of the console that is the world.\<close>

definition auth_call :: "('a, 'w, 's) auth_call \<Rightarrow> ('a, 'w, 's) step" where
  "auth_call f c = (case f (co_world c, co_secrets c) of (r, (w, k)) \<Rightarrow> (r, c\<lparr>co_world := w, co_secrets := k\<rparr>))"

section \<open>Commands\<close>

definition error_line :: "string \<Rightarrow> backend_error \<Rightarrow> string" where
  "error_line what e = what @ '' failed: '' @ be_message e @ '' (code: '' @ be_code e @ '')''"

definition cmd_enroll :: "('w, 's) process \<Rightarrow> 'w backend \<Rightarrow> 's secrets \<Rightarrow> string \<Rightarrow> (int, 'w, 's) step" where
  "cmd_enroll P C K tok c =
     (let (A, c1) = make_auth_service P C K c;
          (pass, c2) = prompt_line ''Passphrase (new): '' c1;
          (again, c3) = prompt_line ''Passphrase (confirm): '' c2
      in if pass \<noteq> again then (Inr 1, say_err [''Error: passphrases do not match.''] c3)
         else case auth_call (client_enroll A
                \<lparr>er_token = tok, er_email = au_email A, er_passphrase = pass, er_totp_secret = None\<rparr>) c3 of
           (Inl what, c4) \<Rightarrow> (Inl what, c4)
         | (Inr (Inl e), c4) \<Rightarrow> (Inr 1, say_err [error_line ''Enrollment'' e] c4)
         | (Inr (Inr r), c4) \<Rightarrow> (Inr 0, say_out [''Enrollment successful. User ID: '' @ en_user r,
              ''TOTP provisioning URI (scan into your authenticator app):'', en_uri r,
              ''Run --login to authenticate and cache your session.''] c4))"

definition cmd_login :: "('w, 's) process \<Rightarrow> 'w backend \<Rightarrow> 's secrets \<Rightarrow> (int, 'w, 's) step" where
  "cmd_login P C K c =
     (let (A, c1) = make_auth_service P C K c;
          (pass, c2) = prompt_line ''Passphrase: '' c1;
          (totp, c3) = prompt_line ''TOTP code (6 digits): '' c2
      in case auth_call (client_login A \<lparr>lr_email = au_email A, lr_passphrase = pass, lr_totp = totp\<rparr>) c3 of
           (Inl what, c4) \<Rightarrow> (Inl what, c4)
         | (Inr (Inl e), c4) \<Rightarrow> (Inr 1, say_err [error_line ''Login'' e] c4)
         | (Inr (Inr r), c4) \<Rightarrow> (Inr 0, say_out [''Login successful. User ID: '' @ lo_user r,
              ''Session expires at (unix): '' @ int_to_string (lo_expires r)] c4))"

definition logout_failed :: string where
  "logout_failed = ''Logout failed (transport error). Session cache unchanged.''"

definition cmd_logout :: "('w, 's) process \<Rightarrow> 'w backend \<Rightarrow> 's secrets \<Rightarrow> (int, 'w, 's) step" where
  "cmd_logout P C K c =
     (let (A, c1) = make_auth_service P C K c in
      case auth_call (client_logout A) c1 of
        (Inl what, c2) \<Rightarrow> (Inl what, c2)
      | (Inr False, c2) \<Rightarrow> (Inr 1, say_err [logout_failed] c2)
      | (Inr True, c2) \<Rightarrow> (Inr 0, say_out [''Logged out successfully.''] c2))"

definition cmd_whoami :: "('w, 's) process \<Rightarrow> 'w backend \<Rightarrow> 's secrets \<Rightarrow> (int, 'w, 's) step" where
  "cmd_whoami P C K c =
     (let (A, c1) = make_auth_service P C K c in
      case auth_call (current_user_id A) c1 of
        (Inl what, c2) \<Rightarrow> (Inl what, c2)
      | (Inr None, c2) \<Rightarrow> (Inr 0, say_out [''Not logged in.''] c2)
      | (Inr (Some uid), c2) \<Rightarrow> (Inr 0, say_out [''Logged in as: '' @ uid] c2))"

definition report_line :: "string \<Rightarrow> nat \<times> nat \<Rightarrow> string" where
  "report_line label n = label @ nat_to_string (fst n) @ '' created, '' @ nat_to_string (snd n) @ '' skipped''"

definition report_lines :: "migration_report \<Rightarrow> string list" where
  "report_lines r = [[], ''--- Migration Report ---'', report_line ''Entities:     '' (mr_entities r),
     report_line ''Accounts:     '' (mr_accounts r), report_line ''Transactions: '' (mr_transactions r),
     report_line ''Categories:   '' (mr_categories r), report_line ''Budgets:      '' (mr_budgets r),
     ''Errors:       '' @ nat_to_string (mr_errors r)] @
     (if mr_messages r \<noteq> [] then [] # ''Error details:'' # map (\<lambda>m. ''  - '' @ m) (mr_messages r) else [])"

definition cmd_migrate_from_local :: "('w, 's) process \<Rightarrow> 'w backend \<Rightarrow> 's secrets \<Rightarrow> string \<Rightarrow> (int, 'w, 's) step" where
  "cmd_migrate_from_local P C K file c =
     (let email = nonempty_env (pr_getenv P) ''TF_USER_EMAIL'';
          A = \<lparr>au_backend = C, au_secrets = K, au_email = email\<rparr> in
      if email = [] then (Inr 1, say_err [''Error: TF_USER_EMAIL must be set for --migrate-from-local.''] c)
      else if \<not> has_cached_session A (co_secrets c) then (Inr 1, say_err [''Run --login first.''] c)
      else case auth_call (current_user_id A) c of
        (Inl what, c1) \<Rightarrow> (Inl what, c1)
      | (Inr None, c1) \<Rightarrow> (Inr 1, say_err [''Session expired or invalid. Run --login first.''] c1)
      | (Inr (Some uid), c1) \<Rightarrow>
          (case sec_get K (''tf-session-'' @ email) (co_secrets c1) of
             None \<Rightarrow> (Inr 1, say_err [''Could not read cached session token. Run --login first.''] c1)
           | Some bs \<Rightarrow>
               (let c2 = say_out [''Starting migration from: '' @ file] c1 in
                case migrate (pr_text P) (pr_disk P) C (map char_of_byte bs) file (co_world c2) of
                  (Inl what, w) \<Rightarrow> (Inl what, c2\<lparr>co_world := w\<rparr>)
                | (Inr r, w) \<Rightarrow> (Inr (if mr_errors r > 0 then 1 else 0), say_out (report_lines r) (c2\<lparr>co_world := w\<rparr>)))))"

section \<open>The flags and the start\<close>

datatype outcome = Exit int | Start_Interface

definition usage :: string where
  "usage = ''Usage: greylock [--enroll <token>|--login|--logout|--whoami|--migrate-from-local <path>]''"

definition with_services ::
    "('w, 's) core_services \<Rightarrow> ('w backend \<Rightarrow> 's secrets \<Rightarrow> (int, 'w, 's) step) \<Rightarrow> (outcome, 'w, 's) step" where
  "with_services S cmd c = (case cs_backend S of
       None \<Rightarrow> (Inr (Exit 1), say_err [''Error: BackendClient not initialized (bad TF_BACKEND_URL?)''] c)
     | Some C \<Rightarrow> (case cs_secrets S of
         None \<Rightarrow> (Inr (Exit 1), say_err [''Error: SecretStore not available on this platform.''] c)
       | Some K \<Rightarrow> (case cmd C K c of (r, c1) \<Rightarrow> (map_sum id Exit r, c1))))"

definition session_gate :: "('w, 's) process \<Rightarrow> ('w, 's) core_services \<Rightarrow> (outcome, 'w, 's) step" where
  "session_gate P S c = (case (cs_backend S, cs_secrets S) of
       (Some C, Some K) \<Rightarrow>
         (let email = nonempty_env (pr_getenv P) ''TF_USER_EMAIL'' in
          if email = [] then (Inr Start_Interface, c)
          else case auth_call (current_user_id \<lparr>au_backend = C, au_secrets = K, au_email = email\<rparr>) c of
            (Inl what, c1) \<Rightarrow> (Inl what, c1)
          | (Inr None, c1) \<Rightarrow> (Inr (Exit 1), say_err [''Please run with --login first.''] c1)
          | (Inr (Some uid), c1) \<Rightarrow> (Inr Start_Interface, c1))
     | _ \<Rightarrow> (Inr Start_Interface, c))"

definition with_argument ::
    "string \<Rightarrow> string list \<Rightarrow> (string \<Rightarrow> (outcome, 'w, 's) step) \<Rightarrow> (outcome, 'w, 's) step" where
  "with_argument what rest k c = (case rest of
     [] \<Rightarrow> (Inr (Exit 1), say_err [''Usage: greylock '' @ what] c) | x # _ \<Rightarrow> k x c)"

definition client_main :: "('w, 's) process \<Rightarrow> string list \<Rightarrow> (outcome, 'w, 's) step" where
  "client_main P args c =
     (let S = build_core_services P in
      if \<not> pr_sodium P then (Inr (Exit 1), say_err [''FATAL: sodium_init() failed; crypto unavailable''] c)
      else case args of
        [] \<Rightarrow> session_gate P S c
      | flag # rest \<Rightarrow>
          (if flag = ''--enroll''
           then with_argument ''--enroll <token>'' rest (\<lambda>x. with_services S (\<lambda>C K. cmd_enroll P C K x)) c
           else if flag = ''--login'' then with_services S (cmd_login P) c
           else if flag = ''--logout'' then with_services S (cmd_logout P) c
           else if flag = ''--whoami'' then with_services S (cmd_whoami P) c
           else if flag = ''--migrate-from-local''
           then with_argument ''--migrate-from-local <path-to-v0.1-json>'' rest
                  (\<lambda>x. with_services S (\<lambda>C K. cmd_migrate_from_local P C K x)) c
           else (Inr (Exit 1), say_err [''Unknown flag: '' @ flag, usage] c)))"

text \<open>The storage of the application: the server when a token is cached for the user, else the local file.\<close>

datatype storage_choice = Local_File string | Remote_Server string

definition effective_storage :: "('w, 's) process \<Rightarrow> config \<Rightarrow> 's \<Rightarrow> storage_choice" where
  "effective_storage P cfg k =
     (let email = nonempty_env (pr_getenv P) ''TF_USER_EMAIL''; S = build_core_services P in
      case (cs_secrets S, cs_backend S) of
        (Some K, Some C) \<Rightarrow>
          (case (if email = [] then None else sec_get K (''tf-session-'' @ email) k) of
             Some bs \<Rightarrow> Remote_Server (map char_of_byte bs) | None \<Rightarrow> Local_File (get_storage_path cfg))
      | _ \<Rightarrow> Local_File (get_storage_path cfg))"

section \<open>Properties\<close>

definition service_of :: "('w, 's) process \<Rightarrow> 'w backend \<Rightarrow> 's secrets \<Rightarrow> ('w, 's) auth_service" where
  "service_of P C K = \<lparr>au_backend = C, au_secrets = K, au_email = nonempty_env (pr_getenv P) ''TF_USER_EMAIL''\<rparr>"

definition user_set :: "('w, 's) process \<Rightarrow> bool" where
  "user_set P \<longleftrightarrow> nonempty_env (pr_getenv P) ''TF_USER_EMAIL'' \<noteq> []"

lemma make_service: "user_set P \<Longrightarrow> make_auth_service P C K c = (service_of P C K, c)"
  by (simp add: make_auth_service_def service_of_def user_set_def)

lemma say_fields [simp]:
  "co_world (say_out ls c) = co_world c" "co_secrets (say_out ls c) = co_secrets c" "co_err (say_out ls c) = co_err c"
  "co_world (say_err ls c) = co_world c" "co_secrets (say_err ls c) = co_secrets c" "co_err (say_err ls c) = co_err c @ ls"
  "co_lines (say_out ls c) = co_lines c"
  by (simp_all add: say_out_def say_err_def)

lemma prompt_fields [simp]:
  "co_world (snd (prompt_line m c)) = co_world c" "co_secrets (snd (prompt_line m c)) = co_secrets c"
  "co_err (snd (prompt_line m c)) = co_err c" "co_lines (snd (prompt_line m c)) = tl (co_lines c)"
  "fst (prompt_line m c) = (case co_lines c of [] \<Rightarrow> [] | l # _ \<Rightarrow> l)"
  by (simp_all add: prompt_line_def Let_def split: list.split)

text \<open>C30. With a user named in the environment, a server and a store of secrets, the terminal interface starts only
  when a token is cached for the user and the server has just answered for it with a user.\<close>

theorem interface_needs_session:
  assumes "cs_backend (build_core_services P) = Some C" and "cs_secrets (build_core_services P) = Some K"
    and "user_set P" and "client_main P [] c = (Inr Start_Interface, c1)"
  shows "\<exists>tok j. read_cached_token (service_of P C K) (co_secrets c) = Some tok \<and>
    backend_get C ''/auth/whoami'' (Some tok) (co_world c) = (Inr j, co_world c1) \<and> json_at j ''user_id'' \<noteq> None"
  using assms by (auto simp: client_main_def session_gate_def user_set_def service_of_def auth_call_def
      current_user_id_def Let_def split: if_splits option.splits sum.splits prod.splits)

text \<open>A process for the witnesses: a user in the environment, a server that always gives one answer.\<close>

definition asking_process :: "'s secrets \<Rightarrow> json option \<Rightarrow> (unit, 's) process" where
  "asking_process K answer = \<lparr>pr_getenv = [''TF_USER_EMAIL'' \<mapsto> ''a@b''],
     pr_http = \<lambda>_ w. (Some \<lparr>rs_status = 200, rs_headers = [], rs_body = []\<rparr>, w), pr_parse = \<lambda>_. answer,
     pr_dump = \<lambda>_. Inr [], pr_secrets = Some K,
     pr_text = \<lparr>dump2 = \<lambda>_. Inr [], parse_text = \<lambda>_. Inl (False, [])\<rparr>,
     pr_disk = \<lparr>files = Map.empty, readable = \<lambda>_. True, writable = \<lambda>_. True, room = \<lambda>_. None\<rparr>, pr_sodium = True\<rparr>"

definition full_store :: "unit secrets" where
  "full_store = \<lparr>sec_put = \<lambda>_ _ s. (True, s), sec_get = \<lambda>_ _. Some [1], sec_remove = \<lambda>_ s. (True, s)\<rparr>"

definition quiet_console :: "'s \<Rightarrow> (unit, 's) console" where
  "quiet_console k = \<lparr>co_lines = [], co_out = [], co_err = [], co_world = (), co_secrets = k\<rparr>"

definition asking_backend :: "json option \<Rightarrow> unit backend" where
  "asking_backend answer = \<lparr>bc_send = \<lambda>_ w. (Some \<lparr>rs_status = 200, rs_headers = [], rs_body = []\<rparr>, w),
     bc_base = ''https://localhost:8443'', bc_parse = \<lambda>_. answer, bc_dump = \<lambda>_. Inr []\<rparr>"

lemma asking_services:
  "build_core_services (asking_process K answer) = \<lparr>cs_backend = Some (asking_backend answer), cs_secrets = Some K\<rparr>"
  by (simp add: build_core_services_def asking_process_def make_backend_def backend_url_def nonempty_env_def
      asking_backend_def)

lemma asking_user: "user_set (asking_process K answer)"
  by (simp add: user_set_def nonempty_env_def asking_process_def)

theorem interface_needs_session_witness:
  "\<exists>tok. read_cached_token (service_of (asking_process full_store (Some (JObj [(''user_id'', JStr ''u'')])))
     (asking_backend (Some (JObj [(''user_id'', JStr ''u'')]))) full_store) () = Some tok"
proof -
  let ?j = "JObj [(''user_id'', JStr ''u'')]"
  let ?P = "asking_process full_store (Some ?j)" and ?c = "quiet_console ()"
  have "client_main ?P [] ?c = (Inr Start_Interface, ?c)"
    unfolding client_main_def asking_services Let_def
    by (simp add: session_gate_def auth_call_def current_user_id_def read_cached_token_def
        cache_key_def full_store_def quiet_console_def backend_get_def send_request_def map_response_def asking_backend_def
        member_def as_string_def nonempty_env_def asking_process_def)
  from interface_needs_session [OF _ _ asking_user this, of "asking_backend (Some ?j)" full_store]
  show ?thesis by (auto simp: asking_services quiet_console_def)
qed

text \<open>A login exits with 0 or 1, and with 1 the store of secrets is as before.\<close>

lemma login_exit:
  assumes "cmd_login P C K c = (Inr n, c1)"
  shows "n = 0 \<or> n = 1 \<and> co_secrets c1 = co_secrets c"
proof -
  obtain A c0 where m: "make_auth_service P C K c = (A, c0)" by (metis prod.collapse)
  then have k: "co_secrets c0 = co_secrets c"
    by (auto simp: make_auth_service_def Let_def split: if_splits prod.splits dest: arg_cong [of _ _ "\<lambda>x. co_secrets (snd x)"])
  show ?thesis using assms k
    by (auto simp: cmd_login_def m Let_def auth_call_def client_login_def split: prod.splits sum.splits option.splits if_splits
        dest!: arg_cong [of _ _ "\<lambda>x. co_secrets (snd x)"])
qed

text \<open>Two different passphrases end an enrolment with exit code 1 before anything is sent or stored.\<close>

lemma enroll_mismatch:
  assumes "user_set P" and "co_lines c = p1 # p2 # rest" and "p1 \<noteq> p2"
  shows "\<exists>c1. cmd_enroll P C K tok c = (Inr 1, c1) \<and> co_world c1 = co_world c \<and> co_secrets c1 = co_secrets c \<and>
    co_err c1 = co_err c @ [''Error: passphrases do not match.''] \<and> co_lines c1 = rest"
  using assms by (simp add: cmd_enroll_def make_service prompt_line_def Let_def say_out_def say_err_def)

text \<open>What a logout says and does: with 0 no token is cached any more; with 1 it always says that the network failed
  and the cache is unchanged, but when the server answered with an error the token has been removed.\<close>

theorem logout_exit:
  assumes "user_set P" and "K = file_secrets L" and "sd_remove (co_secrets c)" and "cmd_logout P C K c = (Inr n, c1)"
  shows "n = 0 \<and> \<not> has_cached_session (service_of P C K) (co_secrets c1) \<and> co_err c1 = co_err c \<or>
    n = 1 \<and> co_err c1 = co_err c @ [logout_failed] \<and>
    (\<exists>tok e. read_cached_token (service_of P C K) (co_secrets c) = Some tok \<and>
       backend_post C ''/auth/logout'' (JObj []) (Some tok) (co_world c) = (Inr (Inl e), co_world c1) \<and>
       co_secrets c1 = (if be_kind e = Transport then co_secrets c
         else clear_cached_token (service_of P C K) (co_secrets c)))"
proof -
  let ?A = "service_of P C K"
  have "au_secrets ?A = file_secrets L" "au_backend ?A = C" using assms(2) by (simp_all add: service_of_def)
  note facts = this cleared [OF this(1) assms(3)] read_has [of ?A "co_secrets c"]
  show ?thesis using assms(4) facts
    by (auto simp: cmd_logout_def make_service [OF assms(1)] auth_call_def client_logout_def say_out_def say_err_def
        split: option.splits sum.splits prod.splits bool.splits)
qed

theorem logout_exit_witness:
  "fst (cmd_logout (asking_process (file_secrets reference_libs) None) (asking_backend None) (file_secrets reference_libs)
     (quiet_console (working_dir Map.empty))) = Inr 0"
proof -
  let ?P = "asking_process (file_secrets reference_libs) None" and ?C = "asking_backend None"
    and ?K = "file_secrets reference_libs" and ?c = "quiet_console (working_dir Map.empty)"
  have none: "read_cached_token (service_of ?P ?C ?K) (co_secrets ?c) = None"
    by (simp add: read_cached_token_def service_of_def file_secrets_def file_get_def quiet_console_def working_dir_def)
  obtain n c1 where r: "cmd_logout ?P ?C ?K ?c = (Inr n, c1)"
    using none by (simp add: cmd_logout_def make_service [OF asking_user] auth_call_def client_logout_def)
  have "sd_remove (co_secrets ?c)" by (simp add: quiet_console_def working_dir_def)
  from logout_exit [OF asking_user refl this r] none r show ?thesis by simp
qed

text \<open>An upload ends with 0 only when a token was cached, the server had just confirmed it, and the report has no
  errors.\<close>

lemma migrate_exit:
  assumes "cmd_migrate_from_local P C K file c = (Inr 0, c1)"
  shows "\<exists>bs uid w r. user_set P \<and> has_cached_session (service_of P C K) (co_secrets c) \<and>
    fst (current_user_id (service_of P C K) (co_world c, co_secrets c)) = Inr (Some uid) \<and>
    migrate (pr_text P) (pr_disk P) C (map char_of_byte bs) file w = (Inr r, co_world c1) \<and> mr_errors r = 0"
  using assms unfolding cmd_migrate_from_local_def Let_def auth_call_def user_set_def service_of_def
  by (auto split: if_splits sum.splits option.splits prod.splits) blast

end
