(* ===== verification/Server_Boot.thy ===== *)
theory Server_Boot
  imports Server_Model Migrations_Model Number_Format
begin

text \<open>How the server starts (src/server/main.cpp, src/server/db/Database.h, src/server/http): its arguments and
  environment, the key of the database, the administrative commands, and which parts run. The file system, SQLite's
  opening of a file with a key, the certificate and the socket are fields of the process. A database is its
  catalogue and its rows. Of messages over several lines the first is kept, of the standard output the token, the
  users and the last line before listening. Signals and the accept loop are not modelled.
  What is shown: when a file is refused for want of a key, and that the commands do not ask; that a key
  the database accepts serves the token broker too; the port; and which routes are registered.\<close>

section \<open>The process\<close>

type_synonym opened = "schema \<times> db"

record server_process =
  sp_getenv :: "string \<Rightarrow> string option"
  sp_sodium :: bool
  sp_exists :: "string \<Rightarrow> bool"
  sp_first_bytes :: "string \<Rightarrow> string option"
  sp_create_parent :: "string \<Rightarrow> string option"
  sp_sqlite :: "string \<Rightarrow> string option \<Rightarrow> string + opened"
  sp_crypto :: crypto_libs
  sp_http :: "http_request \<Rightarrow> http_response option"
  sp_parse :: "string \<Rightarrow> json option"
  sp_cert :: "string \<Rightarrow> string \<Rightarrow> bool"
  sp_bind :: "string \<Rightarrow> nat \<Rightarrow> bool"
  sp_any_port :: "string \<Rightarrow> int"

definition server_env_or :: "(string \<Rightarrow> string option) \<Rightarrow> string \<Rightarrow> string \<Rightarrow> string" where
  "server_env_or env k fallback = (case env k of Some v \<Rightarrow> if v \<noteq> [] then v else fallback | None \<Rightarrow> fallback)"

text \<open>The port and the warning.\<close>

definition env_port :: "(string \<Rightarrow> string option) \<Rightarrow> string \<Rightarrow> nat \<Rightarrow> nat \<times> string list" where
  "env_port env k fallback =
     (case env k of
        None \<Rightarrow> (fallback, [])
      | Some v \<Rightarrow>
          (if v = [] then (fallback, [])
           else case stoll v of
             None \<Rightarrow> (fallback, [''Warning: '' @ k @ ''='' @ v @ '' is not a valid port; using default '' @
                        nat_to_string fallback])
           | Some p \<Rightarrow>
               (if p < 1 \<or> p > 65535
                then (fallback, [''Warning: '' @ k @ ''='' @ v @ '' out of valid port range [1,65535]; using default '' @
                        nat_to_string fallback])
                else (nat p, []))))"

definition server_master_key :: "(string \<Rightarrow> string option) \<Rightarrow> string option" where
  "server_master_key env = (case env ''TF_MASTER_KEY'' of Some v \<Rightarrow> if v = [] then None else Some v | None \<Rightarrow> None)"

section \<open>The database\<close>

definition hex_digit_char :: "char \<Rightarrow> bool" where
  "hex_digit_char c \<longleftrightarrow> (let n = of_char c :: nat in 48 \<le> n \<and> n \<le> 57 \<or> 97 \<le> n \<and> n \<le> 102 \<or> 65 \<le> n \<and> n \<le> 70)"

definition validate_key_hex :: "string \<Rightarrow> string option" where
  "validate_key_hex hex =
     (if length hex \<noteq> 64
      then Some (''Database: master_key_hex must be exactly 64 hex characters (32 bytes); got '' @
             nat_to_string (length hex) @ '' characters'')
      else if \<not> list_all hex_digit_char hex then Some ''Database: master_key_hex contains non-hex character''
      else None)"

definition open_database :: "server_process \<Rightarrow> string \<Rightarrow> string option \<Rightarrow> string + opened" where
  "open_database P path key =
     (case (case key of None \<Rightarrow> None | Some k \<Rightarrow> validate_key_hex k) of
        Some what \<Rightarrow> Inl what | None \<Rightarrow> sp_sqlite P path key)"

definition open_migrated :: "server_process \<Rightarrow> (int \<Rightarrow> int) \<Rightarrow> string \<Rightarrow> string option \<Rightarrow> string + opened" where
  "open_migrated P now path key =
     (case sp_create_parent P path of
        Some what \<Rightarrow> Inl what
      | None \<Rightarrow> (case open_database P path key of
          Inl what \<Rightarrow> Inl what
        | Inr (sc, d) \<Rightarrow> (case open_db_with_migrations now sc of
            (Inl what, _) \<Rightarrow> Inl what | (Inr _, sc1) \<Rightarrow> Inr (sc1, d))))"

section \<open>Arguments and commands\<close>

record server_args =
  sa_email :: string
  sa_ttl :: int
  sa_mint :: bool
  sa_list :: bool

definition default_args :: server_args where
  "default_args = \<lparr>sa_email = [], sa_ttl = 24 * 3600, sa_mint = False, sa_list = False\<rparr>"

definition ttl_error :: string where
  "ttl_error = ''ERROR: --ttl must be an integer number of seconds''"

fun read_args :: "string list \<Rightarrow> server_args \<Rightarrow> string + server_args" where
  "read_args [] a = Inr a"
| "read_args [x] a = Inr (if x = ''--list-users'' then a\<lparr>sa_list := True\<rparr> else a)"
| "read_args (x # y # r) a =
     (if x = ''--mint-enrollment-token'' then read_args r (a\<lparr>sa_mint := True, sa_email := y\<rparr>)
      else if x = ''--ttl'' then (case stoll y of None \<Rightarrow> Inl ttl_error | Some n \<Rightarrow> read_args r (a\<lparr>sa_ttl := n\<rparr>))
      else read_args (y # r) (if x = ''--list-users'' then a\<lparr>sa_list := True\<rparr> else a))"

definition user_line :: "user_row \<Rightarrow> string" where
  "user_line u = pad_right 36 (user_id u) @ ''  '' @ pad_right 40 (user_email u) @ ''  '' @ int_to_string (user_created u)"

definition print_users :: "db \<Rightarrow> string list" where
  "print_users d = [pad_right 36 ''ID'' @ ''  '' @ pad_right 40 ''EMAIL'' @ ''  '' @ ''CREATED_AT_UNIX'',
     replicate 90 (CHR ''-'')] @ map user_line (sort_key user_created (users d))"

datatype server_run = Exited int | Crashed string | Serving string nat "(plaid_client \<times> byte list) option"

record boot =
  bo_run :: server_run
  bo_out :: "string list"
  bo_err :: "string list"
  bo_db :: "opened option"

definition db_path :: "server_process \<Rightarrow> string" where
  "db_path P = server_env_or (sp_getenv P) ''TF_DB_PATH'' ''dev/terminalfinance.db''"

definition failed :: "string list \<Rightarrow> boot" where
  "failed errs = \<lparr>bo_run = Exited 1, bo_out = [], bo_err = errs, bo_db = None\<rparr>"

definition mint_command :: "server_process \<Rightarrow> third_party \<Rightarrow> env \<Rightarrow> (int \<Rightarrow> int) \<Rightarrow> server_args \<Rightarrow> boot" where
  "mint_command P L E now a =
     (if sa_email a = [] then failed [''ERROR: --mint-enrollment-token requires an email argument'']
      else case open_migrated P now (db_path P) (server_master_key (sp_getenv P)) of
        Inl what \<Rightarrow> failed [''ERROR: '' @ what]
      | Inr (sc, d) \<Rightarrow> (case mint_enrollment_command L E (sa_email a) (sa_ttl a) d of
          (Inl what, d1) \<Rightarrow> (failed [''ERROR: '' @ what])\<lparr>bo_db := Some (sc, d1)\<rparr>
        | (Inr raw, d1) \<Rightarrow> \<lparr>bo_run = Exited 0, bo_out = [raw], bo_err = [], bo_db = Some (sc, d1)\<rparr>))"

definition list_command :: "server_process \<Rightarrow> (int \<Rightarrow> int) \<Rightarrow> boot" where
  "list_command P now =
     (case open_migrated P now (db_path P) (server_master_key (sp_getenv P)) of
        Inl what \<Rightarrow> failed [''ERROR: '' @ what]
      | Inr (sc, d) \<Rightarrow> \<lparr>bo_run = Exited 0, bo_out = print_users d, bo_err = [], bo_db = Some (sc, d)\<rparr>)"

section \<open>The boot\<close>

text \<open>Without a key: a file that exists must begin like a plain SQLite file.\<close>

definition plain_sqlite :: "server_process \<Rightarrow> string \<Rightarrow> bool" where
  "plain_sqlite P path \<longleftrightarrow> (case sp_first_bytes P path of None \<Rightarrow> False | Some b \<Rightarrow> take 15 b = ''SQLite format 3'')"

definition dash :: string where "dash = [CHR 0x20, CHR 0xE2, CHR 0x80, CHR 0x94, CHR 0x20]"

definition key_policy :: "server_process \<Rightarrow> string \<Rightarrow> string option \<Rightarrow> bool \<times> string list" where
  "key_policy P path key =
     (if key \<noteq> None then (True, [])
      else if sp_exists P path then
        (if \<not> plain_sqlite P path
         then (False, [''ERROR: TF_MASTER_KEY is not set but database file '' @ [CHR 0x27] @ path @ [CHR 0x27] @
                '' already exists and does not appear to be a plain SQLite file.''])
         else (True, [''WARNING: TF_MASTER_KEY is not set'' @ dash @ ''opening existing unencrypted database at rest.'']))
      else (True, [''WARNING: TF_MASTER_KEY is not set'' @ dash @ ''database will be unencrypted at rest.'']))"

definition boot_broker :: "server_process \<Rightarrow> byte list option \<times> string list" where
  "boot_broker P =
     (case server_master_key (sp_getenv P) of
        None \<Rightarrow> (None, [])
      | Some _ \<Rightarrow> (case broker_of_env (sp_crypto P) (sp_getenv P ''TF_MASTER_KEY'') of
          Inl what \<Rightarrow> (None, [''WARNING: PlaidTokenBroker init failed: '' @ what])
        | Inr dek \<Rightarrow> (Some dek, [])))"

definition creds_present :: "server_process \<Rightarrow> bool" where
  "creds_present P \<longleftrightarrow> server_env_or (sp_getenv P) ''PLAID_CLIENT_ID'' [] \<noteq> [] \<and>
     server_env_or (sp_getenv P) ''PLAID_SECRET'' [] \<noteq> []"

text \<open>The client and the key of the Plaid parts, when they run.\<close>

definition boot_plaid :: "server_process \<Rightarrow> byte list option \<Rightarrow> (plaid_client \<times> byte list) option \<times> string list" where
  "boot_plaid P broker =
     (if \<not> creds_present P then (None, [''PlaidSyncScheduler: not started (PLAID_CLIENT_ID unset)''])
      else case broker of
        None \<Rightarrow> (None, [''PlaidSyncScheduler: not started (PlaidTokenBroker unavailable)''])
      | Some dek \<Rightarrow> (Some (make_plaid_client (sp_getenv P) (sp_http P), dek), []))"

text \<open>Binding: port 0 asks for any free port, which the boot never does.\<close>

definition start_server :: "server_process \<Rightarrow> string \<Rightarrow> nat \<Rightarrow> nat option" where
  "start_server P addr port =
     (if port = 0 then (let p = sp_any_port P addr in if p \<le> 0 then None else Some (nat p))
      else if sp_bind P addr port then Some port else None)"

definition serve :: "server_process \<Rightarrow> nat \<Rightarrow> opened \<Rightarrow> boot" where
  "serve P port od =
     (let env = sp_getenv P; cert = server_env_or env ''TF_SERVER_CERT_PATH'' ''dev/cert.pem'';
          key = server_env_or env ''TF_SERVER_KEY_PATH'' ''dev/key.pem'';
          addr = server_env_or env ''TF_SERVER_BIND_ADDR'' ''127.0.0.1'';
          (broker, w1) = boot_broker P; (plaid, w2) = boot_plaid P broker in
      if \<not> sp_cert P cert key
      then \<lparr>bo_run = Crashed (''Server: SSLServer is not valid'' @ dash @ ''check cert_path and key_path. cert_path='' @ cert @
              '' key_path='' @ key), bo_out = [], bo_err = w1 @ w2, bo_db = Some od\<rparr>
      else (let listening = [''Listening on https://'' @ addr @ '':'' @ nat_to_string port @ ''  (Ctrl-C to exit)''] in
        case start_server P addr port of
          None \<Rightarrow> \<lparr>bo_run = Exited 1, bo_out = listening, bo_err = w1 @ w2 @ [''ERROR: server failed to bind on '' @ addr @
             '':'' @ nat_to_string port @ dash @ ''check that the port is not already in use.''], bo_db = Some od\<rparr>
        | Some bound \<Rightarrow> \<lparr>bo_run = Serving addr bound plaid, bo_out = listening, bo_err = w1 @ w2, bo_db = Some od\<rparr>))"

definition boot_server :: "server_process \<Rightarrow> (int \<Rightarrow> int) \<Rightarrow> boot" where
  "boot_server P now =
     (let key = server_master_key (sp_getenv P);
          (port, w0) = env_port (sp_getenv P) ''TF_SERVER_PORT'' 8443;
          (allowed, w1) = key_policy P (db_path P) key in
      if \<not> allowed then failed (w0 @ w1)
      else case open_migrated P now (db_path P) key of
        Inl what \<Rightarrow> failed (w0 @ w1 @ [''ERROR: schema migration failed: '' @ what])
      | Inr od \<Rightarrow> (let b = serve P port od in b\<lparr>bo_err := w0 @ w1 @ bo_err b\<rparr>))"

definition server_main :: "server_process \<Rightarrow> third_party \<Rightarrow> env \<Rightarrow> (int \<Rightarrow> int) \<Rightarrow> string list \<Rightarrow> boot" where
  "server_main P L E now args =
     (if \<not> sp_sodium P then failed [''ERROR: sodium_init() failed'']
      else case read_args args default_args of
        Inl what \<Rightarrow> failed [what]
      | Inr a \<Rightarrow>
          (if sa_mint a then mint_command P L E now a
           else if sa_list a then list_command P now
           else boot_server P now))"

text \<open>The constant answer of the health check, and the routes of a serving process: the Plaid parts are there when a
  world with their client and key is.\<close>

definition world_of :: "server_process \<Rightarrow> (plaid_client \<times> byte list) option \<Rightarrow> plaid_world option \<Rightarrow> bool" where
  "world_of P parts W \<longleftrightarrow> (case (parts, W) of
     (None, None) \<Rightarrow> True
   | (Some (c, dek), Some w) \<Rightarrow> pw_client w = c \<and> pw_dek w = dek \<and> pw_crypto w = sp_crypto P \<and> pw_parse w = sp_parse P
   | _ \<Rightarrow> False)"

definition healthz_body :: string where
  "healthz_body = [CHR 0x7B, CHR 0x22] @ ''ok'' @ [CHR 0x22] @ '':true,'' @ [CHR 0x22] @ ''version'' @ [CHR 0x22, CHR 0x3A, CHR 0x22] @
     ''0.2'' @ [CHR 0x22, CHR 0x7D]"

definition booted_paths :: "third_party \<Rightarrow> env \<Rightarrow> plaid_world option \<Rightarrow> (http_method \<times> string) list" where
  "booted_paths L E plaid = (GET, ''/healthz'') # map (\<lambda>(m, p, _). (m, p)) (server_routes L E plaid) @
     (if plaid = None then [] else [(GET, ''/link'')])"

section \<open>Properties\<close>

lemma env_port_range: "1 \<le> fallback \<Longrightarrow> fallback \<le> 65535 \<Longrightarrow> fst (env_port env k fallback) \<in> {1..65535}"
  by (auto simp: env_port_def split: option.split)

lemma hex_digit_value: "hex_digit_char c \<Longrightarrow> hex_value c \<noteq> None"
  by (auto simp: hex_digit_char_def hex_value_def Let_def)

lemma decode_valid: "list_all hex_digit_char s \<Longrightarrow> even (length s) \<Longrightarrow> \<exists>bs. decode_hex_key s = Some bs \<and> length bs = length s div 2"
proof (induction s rule: decode_hex_key.induct)
  case (1 hi lo s)
  then show ?case using hex_digit_value [of hi] hex_digit_value [of lo] by fastforce
qed auto

text \<open>A key with which the database opens is one the token broker can read, 32 bytes; the broker also reads 32 raw
  bytes, with which the database does not open.\<close>

lemma key_for_both:
  assumes "validate_key_hex k = None"
  shows "\<exists>bs. read_master_key_env (Some k) = Inr bs \<and> length bs = 32"
proof -
  have "length k = 64" "list_all hex_digit_char k" using assms by (auto simp: validate_key_hex_def split: if_splits)
  then show ?thesis using decode_valid [of k] by (auto simp: read_master_key_env_def)
qed

lemma raw_key_refused: "length k = 32 \<Longrightarrow> validate_key_hex k \<noteq> None \<and> (\<exists>bs. read_master_key_env (Some k) = Inr bs)"
  by (auto simp: validate_key_hex_def read_master_key_env_def)

lemma serve_serving:
  "bo_run (serve P port od) = Serving addr p parts \<Longrightarrow> port \<noteq> 0 \<Longrightarrow> p = port \<and> bo_db (serve P port od) = Some od \<and>
     (parts \<noteq> None \<longleftrightarrow> creds_present P \<and> fst (boot_broker P) \<noteq> None)"
  by (auto simp: serve_def boot_plaid_def start_server_def Let_def split: if_splits prod.splits option.splits)

text \<open>C24. A server that listens does so on a port from 1 to 65535; with a key set, the key has 64 hexadecimal digits;
  without one, the database file did not exist before or begins like a plain SQLite file; its migrations
  have run; and the Plaid parts run exactly when the credentials and a key are set, if libsodium can
  derive the key of the tokens.\<close>

theorem serving_process:
  assumes "bo_run (server_main P L E now args) = Serving addr port parts"
    and "\<And>k. length k = 32 \<Longrightarrow> \<exists>dek. derive_dek (sp_crypto P) k = Inr dek" and "sodium_ready (sp_crypto P)"
  shows "port \<in> {1..65535} \<and>
    (case server_master_key (sp_getenv P) of
       Some k \<Rightarrow> validate_key_hex k = None
     | None \<Rightarrow> sp_exists P (db_path P) \<longrightarrow> plain_sqlite P (db_path P)) \<and>
    (\<exists>sc0 sc d. sp_sqlite P (db_path P) (server_master_key (sp_getenv P)) = Inr (sc0, d) \<and>
       open_db_with_migrations now sc0 = (Inr (), sc) \<and> bo_db (server_main P L E now args) = Some (sc, d)) \<and>
    (parts \<noteq> None \<longleftrightarrow> creds_present P \<and> server_master_key (sp_getenv P) \<noteq> None)"
proof -
  let ?key = "server_master_key (sp_getenv P)"
  obtain p w where port: "env_port (sp_getenv P) ''TF_SERVER_PORT'' 8443 = (p, w)" by (metis prod.collapse)
  obtain ok w1 where pol: "key_policy P (db_path P) ?key = (ok, w1)" by (metis prod.collapse)
  have main: "server_main P L E now args = boot_server P now"
    using assms(1) by (auto simp: server_main_def failed_def mint_command_def list_command_def
        split: if_splits sum.splits prod.splits)
  obtain od where od: "ok" "open_migrated P now (db_path P) ?key = Inr od"
    "bo_run (serve P p od) = Serving addr port parts" "bo_db (server_main P L E now args) = bo_db (serve P p od)"
    using assms(1) unfolding main boot_server_def Let_def port pol
    by (auto simp: failed_def split: if_splits sum.splits)
  have range: "p \<in> {1..65535}" using env_port_range [of 8443 "sp_getenv P" "''TF_SERVER_PORT''"] port by simp
  then have sv: "port = p \<and> bo_db (serve P p od) = Some od \<and> (parts \<noteq> None \<longleftrightarrow> creds_present P \<and> fst (boot_broker P) \<noteq> None)"
    using serve_serving [OF od(3)] by simp
  obtain sc0 sc d where o: "open_database P (db_path P) ?key = Inr (sc0, d)"
    "open_db_with_migrations now sc0 = (Inr (), sc)" "od = (sc, d)"
    using od(2) by (auto simp: open_migrated_def split: option.splits sum.splits prod.splits)
  have valid: "validate_key_hex k = None" if "?key = Some k" for k
    using o(1) that by (auto simp: open_database_def split: option.splits)
  have sq: "sp_sqlite P (db_path P) ?key = Inr (sc0, d)"
    using o(1) by (auto simp: open_database_def split: option.splits)
  have broker: "fst (boot_broker P) \<noteq> None \<longleftrightarrow> ?key \<noteq> None"
  proof (cases ?key)
    case (Some k)
    then have k: "sp_getenv P ''TF_MASTER_KEY'' = Some k"
      by (auto simp: server_master_key_def split: option.splits if_splits)
    obtain bs where "read_master_key_env (Some k) = Inr bs" "length bs = 32" using key_for_both [OF valid [OF Some]] by blast
    then show ?thesis using assms(2) [of bs] assms(3) by (auto simp: boot_broker_def Some k broker_of_env_def)
  qed (simp add: boot_broker_def)
  have "port \<in> {1..65535}" using range sv by simp
  moreover have "case ?key of Some k \<Rightarrow> validate_key_hex k = None | None \<Rightarrow> sp_exists P (db_path P) \<longrightarrow> plain_sqlite P (db_path P)"
    using valid pol od(1) by (auto simp: key_policy_def split: option.split if_splits)
  moreover have "bo_db (server_main P L E now args) = Some (sc, d)" using od(4) sv o(3) by simp
  ultimately show ?thesis using sv broker sq o(2) by blast
qed

definition test_process :: server_process where
  "test_process = \<lparr>sp_getenv = Map.empty, sp_sodium = True, sp_exists = \<lambda>_. False, sp_first_bytes = \<lambda>_. None,
     sp_create_parent = \<lambda>_. None, sp_sqlite = \<lambda>_ _. Inr (empty_schema, sv_db initial_state),
     sp_crypto = \<lparr>sodium_ready = True, aead_seal = \<lambda>_ _ _ _. None, aead_open = \<lambda>_ _ _ _. None,
       kdf_derive = \<lambda>_ _ k. Some k\<rparr>, sp_http = \<lambda>_. None, sp_parse = \<lambda>_. None, sp_cert = \<lambda>_ _. True, sp_bind = \<lambda>_ _. True,
     sp_any_port = \<lambda>_. 1\<rparr>"

lemma test_process_serves: "bo_run (server_main test_process L E now []) = Serving ''127.0.0.1'' 8443 None"
proof -
  obtain sc where sc: "open_db_with_migrations now empty_schema = (Inr (), sc)"
    using schema_from_scratch [of now] by (cases "open_db_with_migrations now empty_schema") (auto simp: inspect_def)
  then have "open_migrated test_process now (db_path test_process) None = Inr (sc, sv_db initial_state)"
    by (simp add: open_migrated_def open_database_def test_process_def)
  then show ?thesis
    by (simp add: server_main_def default_args_def boot_server_def server_master_key_def key_policy_def env_port_def
        serve_def boot_broker_def boot_plaid_def creds_present_def server_env_or_def) (simp add: test_process_def
        server_master_key_def env_port_def key_policy_def serve_def boot_broker_def boot_plaid_def creds_present_def
        server_env_or_def start_server_def Let_def)
qed

theorem serving_process_witness:
  "\<forall>L E now. \<exists>sc d. bo_db (server_main test_process L E now []) = Some (sc, d) \<and>
     \<not> sp_exists test_process (db_path test_process)"
proof (intro allI)
  fix L :: third_party and E :: env and now :: "int \<Rightarrow> int"
  have "\<exists>dek. derive_dek (sp_crypto test_process) k = Inr dek" if "length k = 32" for k
    using that by (simp add: derive_dek_def test_process_def)
  moreover have "sodium_ready (sp_crypto test_process)" "\<not> sp_exists test_process (db_path test_process)"
    by (simp_all add: test_process_def)
  ultimately show "\<exists>sc d. bo_db (server_main test_process L E now []) = Some (sc, d) \<and>
     \<not> sp_exists test_process (db_path test_process)"
    using serving_process [OF test_process_serves [of L E now]] by blast
qed

text \<open>The administrative commands open the file whatever it is; the policy is the boot's alone.\<close>

lemma listing_skips_policy:
  assumes "sp_sodium P" and "open_migrated P now (db_path P) (server_master_key (sp_getenv P)) = Inr (sc, d)"
  shows "bo_run (server_main P L E now [''--list-users'']) = Exited 0 \<and>
    bo_out (server_main P L E now [''--list-users'']) = print_users d"
  using assms by (simp add: server_main_def default_args_def list_command_def)

text \<open>The command for a token without an email is not recognised, and the server starts.\<close>

lemma mint_without_email: "sp_sodium P \<Longrightarrow> server_main P L E now [''--mint-enrollment-token''] = boot_server P now"
  by (simp add: server_main_def default_args_def)

lemma linking_routes:
  "world_of P parts W \<Longrightarrow> (POST, ''/accounts/:id/link/init'') \<in> set (booted_paths L E W) \<longleftrightarrow> parts \<noteq> None"
  by (cases W; cases parts) (auto simp: world_of_def booted_paths_def server_routes_def register_auth_handlers_def
      data_routes_def register_plaid_routes_def register_entities_handlers_def register_accounts_handlers_def
      register_transactions_handlers_def register_categories_handlers_def register_budgets_handlers_def
      register_v3_objects_handlers_def)

end
