(* ===== verification/Link_Page.thy ===== *)
theory Link_Page
  imports Server_Boot
begin

text \<open>The page that finishes a link in the browser (src/server/data/PlaidLinkHandler.cpp, \<open>handle_link_page\<close>): fixed
  text around the two parameters of the request, which arrive decoded. In the lines below a backquote stands for a single
  quote and a tilde for a double quote; the page has neither of the two. What is shown: the script reads the
  parameters it was given when they have no quote, backslash or line break, and any other text of the request's choice
  runs as script.\<close>

section \<open>The page\<close>

definition page_line :: "string \<Rightarrow> string" where
  "page_line = map (\<lambda>c. if c = CHR 0x60 then CHR 0x27 else if c = CHR 0x7E then CHR 0x22 else c)"

fun page_text :: "string list \<Rightarrow> string" where
  "page_text [] = []"
| "page_text [l] = page_line l"
| "page_text (l # ls) = page_line l @ CHR 0x0A # page_text ls"

definition page_head :: string where
  "page_head = page_text [
    ''<!DOCTYPE html>'',
    ''<html lang=~en~>'',
    ''<head>'',
    ''<meta charset=~UTF-8~>'',
    ''<meta name=~viewport~ content=~width=device-width, initial-scale=1.0~>'',
    ''<title>Link Bank Account - Greylock</title>'',
    ''<script src=~https://cdn.plaid.com/link/v2/stable/link-initialize.js~></script>'',
    ''<style>'',
    ''* { box-sizing: border-box; }'',
    ''body { font-family: -apple-system, BlinkMacSystemFont, ~Segoe UI~, Roboto, Helvetica, Arial, sans-serif; display: flex; justify-content: center; align-items: center; height: 100vh; margin: 0; background: #0a0a1a; color: #c8c8d0; }'',
    ''.card { background: #141428; padding: 2.5rem; border-radius: 12px; text-align: center; max-width: 420px; width: 100%; border: 1px solid #2a2a4a; }'',
    ''h1 { margin: 0 0 0.5rem; font-size: 1.4rem; font-weight: 600; color: #e8e8f0; }'',
    ''p { margin: 0 0 1.5rem; font-size: 0.9rem; color: #8888a0; }'',
    ''#status { margin: 1rem 0; font-size: 0.85rem; min-height: 1.2em; color: #8888a0; }'',
    ''.btn { display: inline-block; padding: 0.75rem 2rem; font-size: 1rem; border: none; border-radius: 6px; background: #2a2a6a; color: #e0e0f0; cursor: pointer; transition: background 0.2s; }'',
    ''.btn:hover { background: #3a3a8a; }'',
    ''.btn:disabled { opacity: 0.5; cursor: not-allowed; }'',
    ''.loader { display: inline-block; width: 16px; height: 16px; border: 2px solid #8888a0; border-top-color: #e0e0f0; border-radius: 50%; animation: spin 0.8s linear infinite; margin-right: 6px; vertical-align: middle; }'',
    ''@keyframes spin { to { transform: rotate(360deg); } }'',
    ''</style>'',
    ''</head>'',
    ''<body>'',
    ''<div class=~card~>'',
    ''<h1>Connect Your Bank</h1>'',
    ''<p>Securely link your financial institution to Greylock.</p>'',
    ''<div id=~status~></div>'',
    ''<button id=~link-btn~ class=~btn~>Open Plaid Link</button>'',
    ''</div>'',
    ''<script>'',
    ''var linkToken = ~'']"

definition page_middle :: string where
  "page_middle = page_text [
    ''~;'',
    ''var accountId = ~'']"

definition page_tail :: string where
  "page_tail = page_text [
    ''~;'',
    ''var statusEl = document.getElementById(`status`);'',
    ''var linkBtn = document.getElementById(`link-btn`);'',
    [],
    ''if (!linkToken || !accountId) {'',
    ''    statusEl.textContent = `Missing link token or account ID.`;'',
    ''    linkBtn.disabled = true;'',
    ''} else {'',
    ''    var handler = Plaid.create({'',
    ''        token: linkToken,'',
    ''        onSuccess: function(public_token, metadata) {'',
    ''            statusEl.innerHTML = `<span class=~loader~></span> Exchanging token...`;'',
    ''            linkBtn.disabled = true;'',
    ''            var xhr = new XMLHttpRequest();'',
    ''            xhr.open(`POST`, `/accounts/` + encodeURIComponent(accountId) + `/link-plaid`, true);'',
    ''            xhr.setRequestHeader(`Content-Type`, `application/json`);'',
    ''            xhr.onload = function() {'',
    ''                if (xhr.status === 200) {'',
    ''                    statusEl.innerHTML = `&#10003; Bank linked successfully! You can close this window.`;'',
    ''                    statusEl.style.color = `#70c070`;'',
    ''                } else {'',
    ''                    var msg = `Error`;'',
    ''                    try { var j = JSON.parse(xhr.responseText); if (j.error) msg = j.error; } catch(e) {}'',
    ''                    statusEl.textContent = `Error: ` + msg;'',
    ''                    statusEl.style.color = `#c07070`;'',
    ''                    linkBtn.disabled = false;'',
    ''                }'',
    ''            };'',
    ''            xhr.onerror = function() {'',
    ''                statusEl.textContent = `Network error. Please try again.`;'',
    ''                statusEl.style.color = `#c07070`;'',
    ''                linkBtn.disabled = false;'',
    ''            };'',
    ''            // Include link_token in the body so the server can authenticate'',
    ''            // this request via the plaid_pending_links mapping (the browser'',
    ''            // tab does not carry the session bearer).'',
    ''            // institution_name + institution_id come from Plaid`s onSuccess'',
    ''            // metadata so the server can persist them without an extra'',
    ''            // /institutions/get_by_id round-trip.'',
    ''            var instName = (metadata && metadata.institution && metadata.institution.name) || ``;'',
    ''            var instId   = (metadata && metadata.institution && metadata.institution.institution_id) || ``;'',
    ''            xhr.send(JSON.stringify({'',
    ''                public_token: public_token,'',
    ''                link_token: linkToken,'',
    ''                institution_name: instName,'',
    ''                institution_id: instId'',
    ''            }));'',
    ''        },'',
    ''        onExit: function(err, metadata) {'',
    ''            if (err != null) {'',
    ''                statusEl.textContent = `Error: ` + (err.error_message || err.error_type || `unknown`);'',
    ''                statusEl.style.color = `#c07070`;'',
    ''            } else {'',
    ''                statusEl.textContent = `Link flow exited. You can close this window.`;'',
    ''                statusEl.style.color = `#8888a0`;'',
    ''            }'',
    ''            linkBtn.disabled = false;'',
    ''        },'',
    ''        onEvent: function(eventName, metadata) {'',
    ''            console.log(`Plaid Link event:`, eventName);'',
    ''        }'',
    ''    });'',
    [],
    ''    linkBtn.addEventListener(`click`, function() {'',
    ''        statusEl.textContent = ``;'',
    ''        handler.open();'',
    ''    });'',
    ''}'',
    ''</script>'',
    ''</body>'',
    ''</html>'']"

definition param_value :: "request \<Rightarrow> string \<Rightarrow> string" where
  "param_value req k = (case query req k of None \<Rightarrow> [] | Some v \<Rightarrow> v)"

definition handle_link_page :: "request \<Rightarrow> string" where
  "handle_link_page req =
     (let account_id = param_value req ''account_id''; link_token = param_value req ''link_token''
      in page_head @ link_token @ page_middle @ account_id @ page_tail)"

section \<open>What the browser reads\<close>

text \<open>A string literal of JavaScript after its opening quote, without escapes: its value and what follows it; a
  line break or a backslash ends the reading.\<close>

fun js_literal :: "string \<Rightarrow> (string \<times> string) option" where
  "js_literal [] = None"
| "js_literal (c # s) =
     (if c = CHR 0x22 then Some ([], s)
      else if c = CHR 0x5C \<or> c = CHR 0x0A \<or> c = CHR 0x0D then None
      else map_option (\<lambda>(v, r). (c # v, r)) (js_literal s))"

definition js_plain :: "string \<Rightarrow> bool" where
  "js_plain s \<longleftrightarrow> CHR 0x22 \<notin> set s \<and> CHR 0x5C \<notin> set s \<and> CHR 0x0A \<notin> set s \<and> CHR 0x0D \<notin> set s"

lemma js_literal_plain: "js_plain v \<Longrightarrow> js_literal (v @ CHR 0x22 # r) = Some (v, r)"
  by (induction v) (auto simp: js_plain_def)

lemma js_literal_exact: "js_literal (v @ CHR 0x22 # r) = Some (v, r) \<Longrightarrow> js_plain v"
proof (induction v)
  case (Cons c v)
  then show ?case by (auto simp: js_plain_def split: if_splits)
qed (simp add: js_plain_def)

definition token_decl :: string where "token_decl = ''var linkToken = '' @ [CHR 0x22]"

definition account_decl :: string where "account_decl = ''var accountId = '' @ [CHR 0x22]"

definition closing :: string where "closing = [CHR 0x22, CHR '';'', CHR 0x0A]"

lemma page_parts:
  "\<exists>h. page_head = h @ token_decl" "page_middle = closing @ account_decl" "\<exists>t. page_tail = closing @ t"
  by (simp_all add: page_head_def page_middle_def page_tail_def page_line_def token_decl_def account_decl_def closing_def)

text \<open>The page declares the two parameters; each is read back as given exactly when it is plain.\<close>

lemma page_declares:
  "\<exists>h t. handle_link_page req = h @ token_decl @ param_value req ''link_token'' @ closing @ account_decl @
     param_value req ''account_id'' @ closing @ t"
proof -
  obtain h t where "page_head = h @ token_decl" "page_tail = closing @ t" using page_parts(1,3) by blast
  then have "handle_link_page req = h @ token_decl @ param_value req ''link_token'' @ closing @ account_decl @
      param_value req ''account_id'' @ closing @ t" by (simp add: handle_link_page_def page_parts(2))
  then show ?thesis by blast
qed

lemma page_reads_back: "js_literal (v @ closing @ r) = Some (v, CHR '';'' # CHR 0x0A # r) \<longleftrightarrow> js_plain v"
  using js_literal_plain [of v "CHR '';'' # CHR 0x0A # r"]
    js_literal_exact [of v "CHR '';'' # CHR 0x0A # r"] by (auto simp: closing_def)

text \<open>A request can put any line of script on the page: the link token ends the literal, brings its code, and comments
  out what is left of the line.\<close>

theorem link_page_runs_request:
  assumes "query req ''link_token'' = Some (CHR 0x22 # CHR '';'' # code @ ''//'')"
  shows "\<exists>h r rest. handle_link_page req = h @ token_decl @ r \<and>
    js_literal r = Some ([], CHR '';'' # code @ ''//'' @ closing @ rest)"
proof -
  have "param_value req ''link_token'' = CHR 0x22 # CHR '';'' # code @ ''//''" using assms by (simp add: param_value_def)
  then show ?thesis using page_declares [of req] by fastforce
qed

theorem link_page_runs_request_witness:
  "\<exists>h r rest. handle_link_page \<lparr>authorization = None, path_param = \<lambda>_. [],
      query = [''link_token'' \<mapsto> CHR 0x22 # CHR '';'' # ''alert(1)'' @ ''//''], body = None\<rparr> = h @ token_decl @ r \<and>
      js_literal r = Some ([], CHR '';'' # ''alert(1)'' @ ''//'' @ closing @ rest)"
  by (rule link_page_runs_request) simp

end
