(* ===== verification/Curl_Http_Client.thy ===== *)
theory Curl_Http_Client
  imports Backend_Client Std_Map
begin

text \<open>The HTTP client of both programs (src/src/services/http/CurlHttpClient.cpp): the options it sets for a
  transfer, the refusal of line breaks in request headers, and the reading of the response. The transfer itself,
  libcurl's, is an argument: from the options and the state of the world, nothing or what it received. The path of
  a CA bundle is an argument of its own; production code has none.
  What is shown: nothing but verified HTTPS without line breaks in the headers is asked of libcurl; the last of
  several response headers of a name counts; and a session token with a line break never leaves the client.\<close>

section \<open>A transfer\<close>

record curl_options =
  cu_verify_peer :: bool
  cu_verify_host :: nat
  cu_ca :: "string option"
  cu_connect_ms :: int
  cu_timeout_ms :: int
  cu_agent :: string
  cu_url :: string
  cu_follow :: bool
  cu_max_redirs :: nat
  cu_protocols :: string
  cu_redir_protocols :: string
  cu_headers :: "string list"
  cu_post :: bool
  cu_custom :: "string option"
  cu_fields :: "string option"

text \<open>What the callbacks are given: header lines with their ends, pieces of the body.\<close>

record transfer =
  tr_status :: int
  tr_lines :: "string list"
  tr_pieces :: "string list"

type_synonym 'w perform = "curl_options \<Rightarrow> 'w \<Rightarrow> transfer option \<times> 'w"

definition contains_crlf :: "string \<Rightarrow> bool" where
  "contains_crlf s \<longleftrightarrow> CHR 0x0D \<in> set s \<or> CHR 0x0A \<in> set s"

definition trim_line_end :: "string \<Rightarrow> string" where
  "trim_line_end l = rev (dropWhile (\<lambda>c. c = CHR 0x0D \<or> c = CHR 0x0A) (rev l))"

definition header_callback :: "(string, string) std_map \<Rightarrow> string \<Rightarrow> (string, string) std_map" where
  "header_callback headers raw =
     (let line = trim_line_end raw in
      if CHR '':'' \<notin> set line then headers
      else map_set (takeWhile (\<lambda>c. c \<noteq> CHR '':'') line)
             (dropWhile (\<lambda>c. c = CHR '' '') (drop 1 (dropWhile (\<lambda>c. c \<noteq> CHR '':'') line))) headers)"

definition body_fields :: "string \<Rightarrow> string option \<Rightarrow> string option" where
  "body_fields meth body_text =
     (if meth = ''POST'' then (case body_text of None \<Rightarrow> Some [] | Some b \<Rightarrow> Some b)
      else if meth = ''PUT'' \<or> meth = ''DELETE'' then body_text else None)"

definition options_of :: "string option \<Rightarrow> http_request \<Rightarrow> curl_options" where
  "options_of ca req =
     (let ms = int (rq_timeout req); meth = rq_method req in
      \<lparr>cu_verify_peer = True, cu_verify_host = 2, cu_ca = map_option c_str ca,
       cu_connect_ms = max 5000 (ms div 2), cu_timeout_ms = ms, cu_agent = ''Greylock/0.2'', cu_url = c_str (rq_url req),
       cu_follow = True, cu_max_redirs = 10, cu_protocols = ''https'', cu_redir_protocols = ''https'',
       cu_headers = map (\<lambda>(n, v). c_str (n @ '': '' @ v)) (rq_headers req),
       cu_post = (meth = ''POST''), cu_custom = (if meth = ''POST'' \<or> meth = ''GET'' then None else Some (c_str meth)),
       cu_fields = body_fields meth (rq_body req)\<rparr>)"

definition read_transfer :: "transfer \<Rightarrow> http_response" where
  "read_transfer t = \<lparr>rs_status = tr_status t, rs_headers = foldl header_callback [] (tr_lines t),
     rs_body = concat (tr_pieces t)\<rparr>"

definition curl_send :: "string option \<Rightarrow> 'w perform \<Rightarrow> http_request \<Rightarrow> 'w \<Rightarrow> http_response option \<times> 'w" where
  "curl_send ca perform req w =
     (if list_ex (\<lambda>(n, v). contains_crlf n \<or> contains_crlf v) (rq_headers req) then (None, w)
      else case perform (options_of ca req) w of (t, w1) \<Rightarrow> (map_option read_transfer t, w1))"

section \<open>Properties\<close>

lemma c_str_subset: "set (c_str s) \<subseteq> set s"
  by (auto simp: c_str_def dest: set_takeWhileD)

lemma header_line_clean: "contains_crlf (c_str (n @ '': '' @ v)) \<Longrightarrow> contains_crlf n \<or> contains_crlf v"
  using c_str_subset [of "n @ '': '' @ v"] by (auto simp: contains_crlf_def)

text \<open>Whatever is sent, either nothing is asked of libcurl, or exactly one transfer is, with verification of peer
  and host on, HTTPS as the only protocol also of redirects, a positive bound on the connection, and no line break in any
  header line.\<close>

theorem transfers_are_safe:
  "curl_send ca perform req w = (None, w) \<or>
   (\<exists>o1. curl_send ca perform req w = map_prod (map_option read_transfer) id (perform o1 w) \<and>
      cu_verify_peer o1 \<and> cu_verify_host o1 = 2 \<and> cu_protocols o1 = ''https'' \<and> cu_redir_protocols o1 = ''https'' \<and>
      5000 \<le> cu_connect_ms o1 \<and> list_all (\<lambda>l. \<not> contains_crlf l) (cu_headers o1))"
proof (cases "list_ex (\<lambda>(n, v). contains_crlf n \<or> contains_crlf v) (rq_headers req)")
  case False
  then have "list_all (\<lambda>l. \<not> contains_crlf l) (cu_headers (options_of ca req))"
    unfolding options_of_def Let_def curl_options.simps list_all_iff list_ex_iff
    by (auto simp: list_all_iff dest!: header_line_clean [simplified])
  moreover have "curl_send ca perform req w = map_prod (map_option read_transfer) id (perform (options_of ca req) w)"
    using False by (simp add: curl_send_def split: prod.split)
  ultimately show ?thesis
    by (intro disjI2 exI [of _ "options_of ca req"]) (simp add: options_of_def Let_def)
qed (simp add: curl_send_def)

text \<open>Reading the lines a server writes.\<close>

definition header_line :: "string \<times> string \<Rightarrow> string" where
  "header_line = (\<lambda>(n, v). n @ '': '' @ v @ [CHR 0x0D, CHR 0x0A])"

definition plain_header :: "string \<times> string \<Rightarrow> bool" where
  "plain_header = (\<lambda>(n, v). CHR '':'' \<notin> set n \<and> v \<noteq> [] \<and> hd v \<noteq> CHR '' '' \<and> \<not> contains_crlf v \<and> \<not> contains_crlf n)"

lemma trim_header: "plain_header (n, v) \<Longrightarrow> trim_line_end (header_line (n, v)) = n @ '': '' @ v"
  by (cases v rule: rev_cases) (auto simp: plain_header_def header_line_def trim_line_end_def contains_crlf_def)

lemma read_header:
  assumes "plain_header (n, v)" shows "header_callback m (header_line (n, v)) = map_set n v m"
proof -
  have "\<forall>c \<in> set n. c \<noteq> CHR '':''" using assms by (auto simp: plain_header_def)
  then have "takeWhile (\<lambda>c. c \<noteq> CHR '':'') (n @ '': '' @ v) = n" "dropWhile (\<lambda>c. c \<noteq> CHR '':'') (n @ '': '' @ v) = '': '' @ v"
    by (simp_all add: takeWhile_append2 dropWhile_append2)
  moreover have "dropWhile (\<lambda>c. c = CHR '' '') v = v" using assms by (cases v) (auto simp: plain_header_def)
  ultimately show ?thesis by (simp add: header_callback_def trim_header [OF assms] Let_def)
qed

text \<open>The headers of a response: the status line is skipped, and of several lines with the same name the last one
  counts.\<close>

theorem last_header_counts:
  assumes "list_all plain_header hs"
  shows "map_of (rs_headers (read_transfer (t\<lparr>tr_lines := ''HTTP/1.1 200 OK'' # map header_line hs\<rparr>))) = map_of (rev hs)"
proof -
  have "map_of (foldl header_callback m (map header_line hs)) = map_of m ++ map_of (rev hs) \<and>
      map_ok (foldl header_callback m (map header_line hs))" if "map_ok m" for m
    using assms that
  proof (induction hs arbitrary: m)
    case (Cons h hs)
    obtain n v where h: "h = (n, v)" by (cases h)
    then show ?case using Cons by (simp add: read_header map_ok_set map_of_set)
  qed simp
  then show ?thesis
    by (simp add: read_transfer_def header_callback_def trim_line_end_def Let_def)
qed

theorem last_header_counts_witness:
  "map_of (rs_headers (read_transfer \<lparr>tr_status = 200, tr_lines = ''HTTP/1.1 200 OK'' # map header_line [(''a'', ''1''), (''a'', ''2'')],
     tr_pieces = []\<rparr>)) ''a'' = Some ''2''"
  using last_header_counts [of "[(''a'', ''1''), (''a'', ''2'')]" "\<lparr>tr_status = 200, tr_lines = [], tr_pieces = []\<rparr>"]
  by (simp add: plain_header_def contains_crlf_def)

text \<open>A session token with a line break never leaves the client: the request fails like one the network lost, and the
  world is as before.\<close>

theorem broken_token_stays:
  assumes "contains_crlf tok" and "bc_send C = curl_send ca perform"
  shows "backend_get C path (Some tok) w =
    (Inl (backend_error Transport 0 ''transport_failure'' ''request did not complete''), w)"
  using assms by (simp add: backend_get_def send_request_def curl_send_def build_request_def contains_crlf_def)

theorem broken_token_stays_witness:
  "fst (backend_get \<lparr>bc_send = curl_send None (\<lambda>_ w. (None, w)), bc_base = ''https://localhost:8443'', bc_parse = \<lambda>_. None,
      bc_dump = \<lambda>_. Inr []\<rparr> ''/entities'' (Some [CHR 0x0A]) ()) =
   Inl (backend_error Transport 0 ''transport_failure'' ''request did not complete'')"
  by (subst broken_token_stays [of _ _ None "\<lambda>_ w. (None, w)"]) (simp_all add: contains_crlf_def)

end
