(* ===== verification/Data_Validator.thy ===== *)
theory Data_Validator
  imports Data_Store Std_Map
begin

text \<open>The checks of the client's data (src/src/utils/Validator.cpp) and the test data it is tried on
  (src/src/utils/SyntheticGenerator.cpp). The random numbers are arguments, one record of draws for each
  transaction; a range is handed to the library as it is written, and what the library makes of it is the
  argument \<open>real_draw\<close>.
  What is shown: what a date must be; that the date check of the validator is stricter than that of the store; when
  generated data is found valid; and that the ranges of the expenses are handed over upside down.\<close>

section \<open>Checks\<close>

record validation_result =
  vr_valid :: bool
  vr_message :: string
  vr_anomaly :: string

definition valid_result :: validation_result where
  "valid_result = \<lparr>vr_valid = True, vr_message = [], vr_anomaly = []\<rparr>"

definition anomaly :: "string \<Rightarrow> string \<Rightarrow> validation_result" where
  "anomaly msg kind = \<lparr>vr_valid = False, vr_message = msg, vr_anomaly = kind\<rparr>"

definition days_in_month :: "int list" where
  "days_in_month = [31, 28, 31, 30, 31, 30, 31, 31, 30, 31, 30, 31]"

definition is_valid_date :: "string \<Rightarrow> bool" where
  "is_valid_date date =
     (length date = 10 \<and> date ! 4 = CHR ''-'' \<and> date ! 7 = CHR ''-'' \<and>
      (case (stoi (substr 0 4 date), stoi (substr 5 2 date), stoi (substr 8 2 date)) of
         (Some year, Some month, Some day) \<Rightarrow>
           1900 \<le> year \<and> year \<le> 2100 \<and> 1 \<le> month \<and> month \<le> 12 \<and> 1 \<le> day \<and> day \<le> 31 \<and>
           day \<le> days_in_month ! nat (month - 1)
       | _ \<Rightarrow> False))"

definition is_valid_amount :: "rat \<Rightarrow> account_type \<Rightarrow> bool" where
  "is_valid_amount v ty = (case ty of CreditCard \<Rightarrow> True | Investment \<Rightarrow> True | Checking \<Rightarrow> v \<ge> 0 | Savings \<Rightarrow> v \<ge> 0
     | Cash \<Rightarrow> v \<ge> 0 | _ \<Rightarrow> True)"

definition validate_transaction :: "transaction \<Rightarrow> account \<Rightarrow> validation_result" where
  "validate_transaction t acc =
     (if t_id t = [] then anomaly ''Transaction ID is empty'' ''missing_id''
      else if \<not> is_valid_date (t_date t) then anomaly (''Invalid date format: '' @ t_date t) ''invalid_date''
      else if \<not> is_valid_amount (t_amount t) (a_type acc)
      then anomaly ''Invalid amount for account type: negative balance in non-credit account'' ''invalid_amount''
      else valid_result)"

definition validate_account :: "account \<Rightarrow> entity list \<Rightarrow> validation_result" where
  "validate_account acc es =
     (if a_id acc = [] then anomaly ''Account ID is empty'' ''missing_id''
      else if a_entity acc \<noteq> [] \<and> \<not> list_ex (\<lambda>e. e_id e = a_entity acc) es
      then anomaly (''Account references non-existent entity: '' @ a_entity acc) ''orphan_entity''
      else valid_result)"

definition validate_category :: "category \<Rightarrow> category list \<Rightarrow> validation_result" where
  "validate_category c cs =
     (if c_id c = [] then anomaly ''Category ID is empty'' ''missing_id''
      else if c_parent c \<noteq> [] \<and> \<not> list_ex (\<lambda>p. c_id p = c_parent c) cs
      then anomaly (''Category references non-existent parent: '' @ c_parent c) ''orphan_parent''
      else valid_result)"

definition validate_all_transactions :: "transaction list \<Rightarrow> account list \<Rightarrow> validation_result list" where
  "validate_all_transactions ts accs =
     (let m = foldl (\<lambda>m a. map_set (a_id a) a m) [] accs in
      map (\<lambda>t. case map_of m (t_account t) of
        Some acc \<Rightarrow> validate_transaction t acc
      | None \<Rightarrow> anomaly (''Transaction references non-existent account: '' @ t_account t) ''orphan_account'') ts)"

definition has_orphaned_categories :: "category list \<Rightarrow> transaction list \<Rightarrow> bool" where
  "has_orphaned_categories cs ts =
     (let used = set (filter (\<lambda>c. c \<noteq> []) (map t_category ts)) in
      list_ex (\<lambda>c. \<not> c_system c \<and> c_id c \<notin> used) cs)"

section \<open>Test data\<close>

definition merchant_categories :: "(string \<times> string) list" where
  "merchant_categories =
     [(''Amazon Web Services'', ''cat_subscriptions''), (''Whole Foods Market'', ''cat_groceries''),
      (''Starbucks Coffee'', ''cat_restaurants''), (''Shell Gas Station'', ''cat_gas''),
      (''Netflix Subscription'', ''cat_subscriptions''), (''Spotify Premium'', ''cat_subscriptions''),
      (''Uber Ride'', ''cat_transport''), (''DoorDash Delivery'', ''cat_restaurants''), (''Target'', ''cat_shopping''),
      (''Home Depot'', ''cat_housing''), (''Chipotle Mexican Grill'', ''cat_restaurants''),
      (''AT&T Wireless'', ''cat_utilities''), (''Comcast Xfinity'', ''cat_utilities''),
      (''Adobe Creative Cloud'', ''cat_subscriptions''), (''Google Cloud Platform'', ''cat_subscriptions''),
      (''Microsoft Azure'', ''cat_subscriptions''), (''Payroll Deposit - Acme Corp'', ''cat_salary''),
      (''Venmo Transfer'', ''cat_other_expense''), (''Mortgage Payment - Wells Fargo'', ''cat_rent''),
      (''Best Buy Electronics'', ''cat_shopping'')]"

definition amount_ranges :: "(rat \<times> rat) list" where
  "amount_ranges = [(- 5, - 50), (- 50, - 150), (- 150, - 500), (- 500, - 2000), (100, 5000)]"

record draws =
  dw_month :: int
  dw_day :: int
  dw_merchant :: nat
  dw_kind :: int

text \<open>The draws the distributions of the code may return.\<close>

definition draws_ok :: "draws \<Rightarrow> bool" where
  "draws_ok w \<longleftrightarrow> 1 \<le> dw_month w \<and> dw_month w \<le> 5 \<and> 1 \<le> dw_day w \<and> dw_day w \<le> 28 \<and> dw_merchant w < 20 \<and>
     0 \<le> dw_kind w \<and> dw_kind w \<le> 100"

definition range_for :: "int \<Rightarrow> rat \<times> rat" where
  "range_for k = amount_ranges ! (if k < 10 then 0 else if k < 30 then 1 else if k < 60 then 2 else if k < 85 then 3 else 4)"

definition to_cents :: "rat \<Rightarrow> rat" where
  "to_cents v = ddiv (of_int (llround (dmul v 100))) 100"

definition two_digits :: "int \<Rightarrow> string" where
  "two_digits n = (if n < 10 then ''0'' else []) @ int_to_string n"

definition generate_transaction :: "(rat \<times> rat \<Rightarrow> rat) \<Rightarrow> string \<Rightarrow> nat \<Rightarrow> draws \<Rightarrow> transaction" where
  "generate_transaction real_draw acc i w =
     (let (desc, cat) = merchant_categories ! dw_merchant w; v = to_cents (real_draw (range_for (dw_kind w))) in
      \<lparr>t_id = ''tx_synthetic_'' @ nat_to_string i, t_account = acc,
       t_date = ''2026-'' @ two_digits (dw_month w) @ ''-'' @ two_digits (dw_day w),
       t_amount = (if contains_sub ''Payroll'' desc \<or> contains_sub ''Deposit'' desc then \<bar>v\<bar> else v),
       t_description = desc, t_category = cat, t_pending = (i mod 20 = 0), t_plaid_id = [], t_notes = [], t_check = []\<rparr>)"

definition generate_transactions :: "(nat \<Rightarrow> rat \<times> rat \<Rightarrow> rat) \<Rightarrow> (nat \<Rightarrow> draws) \<Rightarrow> string \<Rightarrow> nat \<Rightarrow> transaction list" where
  "generate_transactions real_draw w acc n = map (\<lambda>i. generate_transaction (real_draw i) acc i (w i)) [0..<n]"

definition account_templates :: "(string \<times> account_type) list" where
  "account_templates = [(''Personal Checking'', Checking), (''Personal Savings'', Savings), (''Chase Credit Card'', CreditCard),
     (''Investment Portfolio'', Investment), (''Business Checking'', Checking), (''Business Savings'', Savings),
     (''Business Credit Card'', CreditCard)]"

definition generate_accounts :: "(nat \<Rightarrow> rat \<times> rat \<Rightarrow> rat) \<Rightarrow> nat \<Rightarrow> account list" where
  "generate_accounts real_draw n = map (\<lambda>i.
     let (name, ty) = account_templates ! (i mod 7) in
     \<lparr>a_id = ''acc_synthetic_'' @ nat_to_string i, a_name = name @ '' #'' @ nat_to_string (i + 1), a_entity = [],
      a_type = ty, a_balance = to_cents (real_draw i (- 5000, 50000)), a_institution = ''Test Bank'', a_item = [],
      a_linked = False, a_active = True\<rparr>) [0..<n]"

definition folder_emoji :: string where "folder_emoji = [CHR 0xF0, CHR 0x9F, CHR 0x93, CHR 0x81]"

definition generate_categories :: "nat \<Rightarrow> category list" where
  "generate_categories n = map (\<lambda>i. \<lparr>c_id = ''cat_custom_'' @ nat_to_string i,
     c_name = ''Custom Category '' @ nat_to_string i, c_type = Expense, c_emoji = folder_emoji, c_parent = [],
     c_system = False\<rparr>) [0..<n]"

section \<open>Dates\<close>

lemma digit_range: "is_digit c \<Longrightarrow> 48 \<le> (of_char c :: int) \<and> (of_char c :: int) \<le> 57"
proof -
  assume "is_digit c"
  moreover have "(of_char c :: int) = int (of_char c)" by (simp only: of_nat_of_char)
  ultimately show ?thesis by (simp add: is_digit_def)
qed

lemma digits_value_nonneg: "list_all is_digit s \<Longrightarrow> 0 \<le> digits_value s"
proof (induction s rule: rev_induct)
  case (snoc c s)
  then show ?case using digit_range [of c] by (simp add: digits_value_snoc)
qed (simp add: digits_value_def)

lemma stoi_digits:
  assumes "list_all is_digit s" "s \<noteq> []" "digits_value s < 10000" shows "stoi s = Some (digits_value s)"
  using digits_value_nonneg [OF assms(1)] read_digits [OF assms(1,2)] assms(3) by (simp add: stoi_def in_i32_def)

lemma digits_bound: "list_all is_digit s \<Longrightarrow> digits_value s < 10 ^ length s"
proof (induction s rule: rev_induct)
  case (snoc c s)
  then have "digits_value s + 1 \<le> 10 ^ length s" "is_digit c" by simp_all
  then show ?case using digit_range [of c] by (simp add: digits_value_snoc)
qed (simp add: digits_value_def)

lemma shape_parts:
  assumes "date_shape s"
  shows "list_all is_digit (substr 0 4 s)" "list_all is_digit (substr 5 2 s)" "list_all is_digit (substr 8 2 s)"
    "length (substr 0 4 s) = 4" "length (substr 5 2 s) = 2" "length (substr 8 2 s) = 2"
proof -
  obtain a b c d e f g h i j where s: "s = [a, b, c, d, e, f, g, h, i, j]"
    using assms by (auto simp: date_shape_def length_Suc_conv eval_nat_numeral)
  show "list_all is_digit (substr 0 4 s)" "list_all is_digit (substr 5 2 s)" "list_all is_digit (substr 8 2 s)"
    "length (substr 0 4 s) = 4" "length (substr 5 2 s) = 2" "length (substr 8 2 s) = 2"
    using assms by (simp_all add: s date_shape_def substr_def)
qed

lemma shape_numbers:
  assumes "date_shape s"
  shows "stoi (substr 0 4 s) = Some (digits_value (substr 0 4 s))"
    "stoi (substr 5 2 s) = Some (digits_value (substr 5 2 s))" "stoi (substr 8 2 s) = Some (digits_value (substr 8 2 s))"
  using shape_parts [OF assms] digits_bound [of "substr 0 4 s"] digits_bound [of "substr 5 2 s"] digits_bound [of "substr 8 2 s"]
  by (auto intro!: stoi_digits)

text \<open>On dates of the shape YYYY-MM-DD the validator asks what the store asks, and that the day is one of its month,
  February having 28.\<close>

theorem date_checks_compared:
  assumes "date_shape s"
  shows "is_valid_date s \<longleftrightarrow> store_valid_date s \<and>
    digits_value (substr 8 2 s) \<le> days_in_month ! nat (digits_value (substr 5 2 s) - 1)"
  using assms shape_numbers [OF assms]
  by (auto simp: is_valid_date_def store_valid_date_def Let_def date_shape_def)

theorem date_checks_compared_witness: "\<not> is_valid_date ''2024-02-31''"
proof -
  have "date_shape ''2024-02-31''" by code_simp
  moreover have "\<not> digits_value (substr 8 2 ''2024-02-31'') \<le> days_in_month ! nat (digits_value (substr 5 2 ''2024-02-31'') - 1)"
    by code_simp
  ultimately show ?thesis using date_checks_compared by blast
qed

text \<open>The leap day is refused, and other shapes, with blanks and signs for digits, are accepted.\<close>

lemma date_surprises: "\<not> is_valid_date ''2024-02-29''" "store_valid_date ''2024-02-29''" "is_valid_date ''2024- 5-+1''"
  by code_simp+

section \<open>What is found\<close>

lemma find_append: "find P (xs @ ys) = (case find P xs of Some x \<Rightarrow> Some x | None \<Rightarrow> find P ys)"
  by (induction xs) auto

lemma last_account: "map_of (foldl (\<lambda>m a. map_set (a_id a) a m) m accs) i =
    (case find (\<lambda>a. a_id a = i) (rev accs) of Some a \<Rightarrow> Some a | None \<Rightarrow> map_of m i)" if "map_ok m"
  using that
proof (induction accs arbitrary: m)
  case (Cons a accs)
  then show ?case by (simp add: map_ok_set map_of_set find_append split: option.split)
qed simp

lemma find_is: "find (\<lambda>a. f a = v) xs = Some x \<Longrightarrow> v \<in> f ` set xs"
  by (induction xs) (auto split: if_splits)

text \<open>A transaction is reported as an orphan exactly when no account has its identifier; else it is checked against the
  last account that has.\<close>

lemma orphans_found:
  assumes "i < length ts"
  shows "vr_anomaly (validate_all_transactions ts accs ! i) = ''orphan_account'' \<longleftrightarrow> t_account (ts ! i) \<notin> a_id ` set accs"
  using assms by (auto simp: validate_all_transactions_def Let_def last_account validate_transaction_def valid_result_def
      anomaly_def find_None_iff split: option.split dest!: find_is)

text \<open>The references of the store are in order exactly when no account of it is reported for its entity.\<close>

lemma refs_ok_validated:
  assumes "list_all (\<lambda>a. a_id a \<noteq> []) (ds_accounts d)"
  shows "refs_ok d \<longleftrightarrow> list_all (\<lambda>a. validate_account a (ds_entities d) = valid_result) (ds_accounts d)"
proof -
  have "validate_account a es = valid_result \<longleftrightarrow> a_entity a = [] \<or> a_entity a \<in> e_id ` set es" if "a_id a \<noteq> []" for a es
    using that by (auto simp: validate_account_def valid_result_def anomaly_def list_ex_iff intro: rev_image_eqI)
  then show ?thesis using assms by (simp add: refs_ok_def list_all_iff)
qed

section \<open>Generated data\<close>

definition generated_date :: "int \<times> int \<Rightarrow> string" where
  "generated_date = (\<lambda>(m, d). ''2026-'' @ two_digits m @ ''-'' @ two_digits d)"

lemma two_digits_read: "list_all (\<lambda>d. length (two_digits d) = 2 \<and> stoi (two_digits d) = Some d) [1..28]"
  by code_simp

lemma generated_dates:
  assumes "1 \<le> m" "m \<le> 5" "1 \<le> d" "d \<le> 28" shows "is_valid_date (generated_date (m, d))"
proof -
  have r: "length (two_digits m) = 2" "stoi (two_digits m) = Some m" "length (two_digits d) = 2" "stoi (two_digits d) = Some d"
    using two_digits_read assms by (auto simp: list_all_iff)
  have "stoi ''2026'' = Some 2026" by code_simp
  moreover have "d \<le> days_in_month ! nat (m - 1)"
  proof -
    have "m \<in> {1, 2, 3, 4, 5}" using assms by auto
    then show ?thesis using assms by (auto simp: days_in_month_def)
  qed
  ultimately show ?thesis
    using r assms by (simp add: is_valid_date_def generated_date_def substr_def nth_append)
qed

text \<open>A generated transaction is valid for an account unless it is an expense and the account is not one of credit or
  investment: its date always passes.\<close>

theorem generated_transactions_valid:
  assumes "draws_ok w"
  shows "vr_valid (validate_transaction (generate_transaction real_draw acc i w) a) \<longleftrightarrow>
    a_type a \<in> {CreditCard, Investment, OtherAccount} \<or> 0 \<le> t_amount (generate_transaction real_draw acc i w)"
proof -
  let ?t = "generate_transaction real_draw acc i w"
  have "is_valid_date (generated_date (dw_month w, dw_day w))"
    using generated_dates assms by (simp add: draws_ok_def)
  then have "is_valid_date (t_date ?t)" "t_id ?t \<noteq> []"
    by (simp_all add: generate_transaction_def generated_date_def Let_def case_prod_beta)
  then show ?thesis
    by (cases "a_type a") (simp_all add: validate_transaction_def is_valid_amount_def valid_result_def anomaly_def)
qed

theorem generated_transactions_valid_witness:
  "vr_valid (validate_transaction (generate_transaction fst ''a'' 0 \<lparr>dw_month = 1, dw_day = 1, dw_merchant = 0, dw_kind = 0\<rparr>)
     (plain_account ''a'' CreditCard 0))"
  by (subst generated_transactions_valid) (simp_all add: draws_ok_def plain_account_def)

text \<open>The four ranges of expenses have their larger end first, which the library does not allow.\<close>

lemma ranges_upside_down: "filter (\<lambda>(lo, hi). hi < lo) amount_ranges = take 4 amount_ranges"
  by (simp add: amount_ranges_def)

end
