(* ===== verification/App_Launch.thy ===== *)
theory App_Launch
  imports Client_App Client_Start
begin

text \<open>From the command line to the window (src/src/main.cpp): \<open>main\<close> past its gate and the services the
  constructor of \<open>App\<close> makes. A machine is what the process acts on: the net, the store of secrets, the disk with the
  last error of each storage service. The services of the parts are lifted to it, so that all of them act on one world,
  and the application of \<open>Client_App\<close> runs on it.
  What is shown: a data file survives closing and starting, but for the entities of budgets, which the start itself
  erases on the disk; after a start on a file it cannot parse the file holds the defaults and a copy the bytes;
  with the server as storage nothing is ever saved.\<close>

section \<open>The machine\<close>

record ('w, 's) machine =
  mc_net :: 'w
  mc_secrets :: 's
  mc_disk :: disk
  mc_file_error :: string
  mc_remote_error :: string

definition on_file :: "string \<Rightarrow> json_storage storage_service \<Rightarrow> ('w, 's) machine storage_service" where
  "on_file p v =
     (let inner = \<lambda>m. \<lparr>js_path = p, js_error = mc_file_error m, js_disk = mc_disk m\<rparr>;
          outer = \<lambda>j m. m\<lparr>mc_disk := js_disk j, mc_file_error := js_error j\<rparr>
      in \<lparr>op_load = \<lambda>c m. (case op_load v c (inner m) of (r, c1, j) \<Rightarrow> (r, c1, outer j m)),
          op_save = \<lambda>c m. (case op_save v c (inner m) of (r, j) \<Rightarrow> (r, outer j m)),
          op_error = \<lambda>m. op_error v (inner m)\<rparr>)"

definition on_remote :: "'w remote_state storage_service \<Rightarrow> ('w, 's) machine storage_service" where
  "on_remote v =
     (let inner = \<lambda>m. (mc_net m, mc_remote_error m); outer = \<lambda>(w, e) m. m\<lparr>mc_net := w, mc_remote_error := e\<rparr>
      in \<lparr>op_load = \<lambda>c m. (case op_load v c (inner m) of (r, c1, s) \<Rightarrow> (r, c1, outer s m)),
          op_save = \<lambda>c m. (case op_save v c (inner m) of (r, s) \<Rightarrow> (r, outer s m)),
          op_error = \<lambda>m. op_error v (inner m)\<rparr>)"

definition on_net :: "'w backend \<Rightarrow> ('w, 's) machine backend" where
  "on_net C = \<lparr>bc_send = \<lambda>r m. (case bc_send C r (mc_net m) of (x, w) \<Rightarrow> (x, m\<lparr>mc_net := w\<rparr>)),
     bc_base = bc_base C, bc_parse = bc_parse C, bc_dump = bc_dump C\<rparr>"

definition on_secrets :: "'s secrets \<Rightarrow> ('w, 's) machine secrets" where
  "on_secrets K = \<lparr>sec_put = \<lambda>k v m. (case sec_put K k v (mc_secrets m) of (b, s) \<Rightarrow> (b, m\<lparr>mc_secrets := s\<rparr>)),
     sec_get = \<lambda>k m. sec_get K k (mc_secrets m),
     sec_remove = \<lambda>k m. (case sec_remove K k (mc_secrets m) of (b, s) \<Rightarrow> (b, m\<lparr>mc_secrets := s\<rparr>))\<rparr>"

section \<open>The constructor's services and the start\<close>

text \<open>The storage: the server with the cached token, or the file named by the configuration. Without a backend
  there is no remote storage, as in \<open>effective_storage\<close>.\<close>

definition app_storage :: "('w, 's) process \<Rightarrow> config \<Rightarrow> 's \<Rightarrow> ('w, 's) machine storage_service" where
  "app_storage P cfg k = (case (effective_storage P cfg k, cs_backend (build_core_services P)) of
       (Remote_Server tok, Some C) \<Rightarrow> on_remote (remote_service \<lparr>rm_backend = C, rm_token = tok\<rparr>)
     | _ \<Rightarrow> on_file (get_storage_path cfg) (json_service (pr_text P)))"

definition app_services ::
    "('w, 's) process \<Rightarrow> (string \<Rightarrow> bool) \<Rightarrow> config \<Rightarrow> 's \<Rightarrow> ('w, 's) machine services" where
  "app_services P spawn cfg k = \<lparr>sv_storage = Some (app_storage P cfg k),
     sv_backend = map_option on_net (cs_backend (build_core_services P)),
     sv_secrets = map_option on_secrets (cs_secrets (build_core_services P)),
     sv_launcher = \<lparr>la_getenv = pr_getenv P, la_spawn = spawn\<rparr>, sv_config = cfg\<rparr>"

definition no_config :: config where
  "no_config = \<lparr>cf_map = Map.empty, cf_path = [], cf_configured = False\<rparr>"

definition read_config :: "('w, 's) process \<Rightarrow> disk \<Rightarrow> config" where
  "read_config P k = snd (load_env_file (pr_getenv P) (open_read ''.env'' k) no_config)"

datatype ('w, 's) launched =
    Uncaught string
  | Finished int
  | Running "('w, 's) machine services" "('w, 's) machine app"

definition open_window :: "('w, 's) process \<Rightarrow> (string \<Rightarrow> bool) \<Rightarrow> ('w, 's) machine \<Rightarrow> ('w, 's) launched" where
  "open_window P spawn m =
     (let S = app_services P spawn (read_config P (mc_disk m)) (mc_secrets m)
      in case create_app S (m\<lparr>mc_file_error := [], mc_remote_error := []\<rparr>) of
           Inl what \<Rightarrow> Uncaught what | Inr a \<Rightarrow> Running S a)"

definition launch ::
    "('w, 's) process \<Rightarrow> (string \<Rightarrow> bool) \<Rightarrow> string list \<Rightarrow> string list \<Rightarrow> ('w, 's) machine \<Rightarrow> ('w, 's) launched" where
  "launch P spawn args input m =
     (case client_main P args \<lparr>co_lines = input, co_out = [], co_err = [], co_world = mc_net m, co_secrets = mc_secrets m\<rparr> of
        (Inl what, _) \<Rightarrow> Uncaught what
      | (Inr (Exit n), _) \<Rightarrow> Finished n
      | (Inr Start_Interface, c) \<Rightarrow> open_window P spawn (m\<lparr>mc_net := co_world c, mc_secrets := co_secrets c\<rparr>))"

section \<open>Properties\<close>

definition data_file :: "('w, 's) process \<Rightarrow> ('w, 's) machine \<Rightarrow> string" where
  "data_file P m = get_storage_path (read_config P (mc_disk m))"

text \<open>Nobody is named in the environment: the gate lets the start pass, and the storage is the file.\<close>

lemma local_start:
  assumes "\<not> user_set P" and "pr_sodium P"
  shows "launch P spawn [] input m = open_window P spawn m"
    and "app_storage P cfg k = on_file (get_storage_path cfg) (json_service (pr_text P))"
  using assms by (auto simp: launch_def client_main_def session_gate_def user_set_def app_storage_def effective_storage_def
      Let_def split: option.split)

lemma file_loads:
  "store_load (Some (on_file p (json_service T))) d m =
     (case json_load T (collections.truncate d) \<lparr>js_path = p, js_error = mc_file_error m, js_disk = mc_disk m\<rparr> of
        (ok, c, j) \<Rightarrow> (let m1 = m\<lparr>mc_disk := js_disk j, mc_file_error := js_error j\<rparr>; d1 = with_collections c d
          in (Inr ok, if ok then d1 else d1\<lparr>ds_error := js_error j\<rparr>, m1)))"
  by (auto simp: store_load_def on_file_def json_service_def Let_def split: prod.split)

lemma save_keeps_collections [simp]:
  "collections.truncate (ap_store (save_app S a)) = collections.truncate (ap_store a)"
  by (auto simp: save_app_def store_save_def collections.defs Let_def split: option.split prod.split)

lemma first_views:
  "ap_entity a = 0 \<Longrightarrow> \<exists>a1. update_views_for_entity a = (Inr (), a1) \<and> ap_store a1 = ap_store a \<and> ap_world a1 = ap_world a"
  by (simp add: update_views_for_entity_def Let_def)

text \<open>The window opens on what the file gives, whatever that is, and the file is written at once.\<close>

lemma opened:
  assumes "\<not> user_set P" and "pr_sodium P" and "p = data_file P m"
    and "json_load (pr_text P) (collections.truncate new_data_store) \<lparr>js_path = p, js_error = [], js_disk = mc_disk m\<rparr> = (ok, c, j)"
  shows "\<exists>S a. launch P spawn [] input m = Running S a \<and> collections.truncate (ap_store a) = c \<and>
    mc_disk (ap_world a) = js_disk (snd (json_save (pr_text P) c \<lparr>js_path = p, js_error = js_error j, js_disk = js_disk j\<rparr>))"
proof -
  let ?cfg = "read_config P (mc_disk m)" and ?m = "m\<lparr>mc_file_error := [], mc_remote_error := []\<rparr>"
  let ?S = "app_services P spawn ?cfg (mc_secrets m)"
  have st: "sv_storage ?S = Some (on_file p (json_service (pr_text P)))"
    using local_start(2) [OF assms(1,2)] assms(3) by (simp add: app_services_def data_file_def)
  obtain d1 where d1: "store_load (sv_storage ?S) new_data_store ?m =
      (Inr ok, d1, ?m\<lparr>mc_disk := js_disk j, mc_file_error := js_error j\<rparr>)" "collections.truncate d1 = c"
    unfolding st file_loads using assms(4)
    by (auto simp: Let_def with_collections_def collections.defs)
  let ?a = "(fresh_app ?m)\<lparr>ap_store := d1, ap_world := ?m\<lparr>mc_disk := js_disk j, mc_file_error := js_error j\<rparr>\<rparr>"
  obtain a1 where a1: "update_views_for_entity ?a = (Inr (), a1)" "ap_store a1 = d1" "ap_world a1 = ap_world ?a"
    using first_views [of ?a] by (auto simp: fresh_app_def)
  have "create_app ?S ?m = Inr ((save_app ?S a1)\<lparr>ap_palette := set_dispatcher (ap_palette a1)\<rparr>)"
    using d1 a1 by (simp add: create_app_def fresh_app_def)
  moreover have "mc_disk (ap_world (save_app ?S a1)) = js_disk (snd (json_save (pr_text P) c \<lparr>js_path = p, js_error = js_error j, js_disk = js_disk j\<rparr>))"
    using d1(2) a1(2,3)
    by (auto simp: save_app_def st store_save_def on_file_def json_service_def Let_def json_storage.defs split: prod.splits)
  ultimately show ?thesis
    using local_start(1) [OF assms(1,2)] d1(2) a1(2) by (simp add: open_window_def Let_def)
qed

lemma saved_file:
  assumes "store_save (Some (on_file p (json_service T))) d w = (True, d1, m)"
  obtains out where "dump2 T (collections_to_json (collections.truncate d)) = Inr out"
    and "files (mc_disk m) p = Some (reaching p (mc_disk w) out)"
  using assms by (auto simp: store_save_def on_file_def json_service_def json_save_def write_file_def reaching_def Let_def
      split: if_splits sum.splits prod.splits)

lemma whole_file_loads:
  assumes "json_text_spec T" "amounts_ok c" "dump2 T (collections_to_json c) = Inr out"
    and "files k p = Some out" "readable k p"
  shows "json_load T c0 \<lparr>js_path = p, js_error = [], js_disk = k\<rparr> =
    (True, reloaded c, \<lparr>js_path = p, js_error = [], js_disk = k\<rparr>)"
proof -
  have "parse_text T out = Inr (collections_to_json c)"
    using assms(1,3) json_ok_collections [OF assms(2)] by (simp add: json_text_spec_def)
  then show ?thesis using assms(4,5) by (simp add: json_load_def open_read_def parse_all_back)
qed

text \<open>C27. Closing with the key q (no overlay open, no widget entered) and starting again, with nobody named in the
  environment and libsodium up. When the save on closing reports success, the file holds what reached it of the printed collections, which may be less: the save
  does not look. When all of it did, and the amounts are doubles, a next start that can read the same files opens
  on the collections as they were saved, but every budget has lost its entity; and where that start may write the
  file it has already written this back (again as much as reaches it), so on the disk the entities are gone before
  a key is pressed.\<close>

theorem restart_keeps_data:
  assumes "\<not> user_set P" and "pr_sodium P" and "json_text_spec (pr_text P)"
    and "sv_storage S = Some (on_file p (json_service (pr_text P)))"
    and "\<not> is_open (ap_palette a)" "\<not> ap_help a" "\<not> ap_g_pending a" "ap_tab a = 0 \<longrightarrow> level (ap_focus a) = Dashboard"
    and "fst (store_save (sv_storage S) (ap_store a) (ap_world a))" and "amounts_ok (collections.truncate (ap_store a))"
    and "on_event S (Character ''q'') a = (Inr True, a1)"
    and "files (mc_disk m2) = files (mc_disk (ap_world a1))" and "p = data_file P m2" and "readable (mc_disk m2) p"
  shows "\<exists>out. dump2 (pr_text P) (collections_to_json (collections.truncate (ap_store a))) = Inr out \<and>
    files (mc_disk m2) p = Some (reaching p (mc_disk (ap_world a)) out) \<and>
    (reaching p (mc_disk (ap_world a)) out = out \<longrightarrow>
      (\<exists>S2 a2. launch P spawn [] input m2 = Running S2 a2 \<and>
        collections.truncate (ap_store a2) = reloaded (collections.truncate (ap_store a)) \<and>
        (\<forall>out2. dump2 (pr_text P) (collections_to_json (reloaded (collections.truncate (ap_store a)))) = Inr out2 \<and>
           writable (mc_disk m2) p \<longrightarrow> files (mc_disk (ap_world a2)) p = Some (reaching p (mc_disk m2) out2))))"
proof -
  let ?c = "reloaded (collections.truncate (ap_store a))"
  have "a1 = (save_app S a)\<lparr>ap_exited := True\<rparr>" using leaving [OF assms(5-8), of S] assms(11) by simp
  then obtain d1 where "store_save (Some (on_file p (json_service (pr_text P)))) (ap_store a) (ap_world a) =
      (True, d1, ap_world a1)"
    using assms(4,9) by (auto simp: save_app_def split: prod.splits)
  then obtain out where out: "dump2 (pr_text P) (collections_to_json (collections.truncate (ap_store a))) = Inr out"
    "files (mc_disk m2) p = Some (reaching p (mc_disk (ap_world a)) out)"
    unfolding assms(12) by (rule saved_file)
  have "\<exists>S2 a2. launch P spawn [] input m2 = Running S2 a2 \<and> collections.truncate (ap_store a2) = ?c \<and>
      (\<forall>out2. dump2 (pr_text P) (collections_to_json ?c) = Inr out2 \<and> writable (mc_disk m2) p \<longrightarrow>
         files (mc_disk (ap_world a2)) p = Some (reaching p (mc_disk m2) out2))"
    if "reaching p (mc_disk (ap_world a)) out = out"
  proof -
    have "files (mc_disk m2) p = Some out" using out(2) that by simp
    note l = whole_file_loads [OF assms(3,10) out(1) this assms(14)]
    obtain S2 a2 where "launch P spawn [] input m2 = Running S2 a2" "collections.truncate (ap_store a2) = ?c"
      "mc_disk (ap_world a2) = js_disk (snd (json_save (pr_text P) ?c \<lparr>js_path = p, js_error = [], js_disk = mc_disk m2\<rparr>))"
      using opened [OF assms(1,2,13) l, of spawn input] by auto
    then show ?thesis by (auto simp: json_save_def write_file_def reaching_def Let_def split: option.split)
  qed
  with out show ?thesis by blast
qed

text \<open>A process without user and server that prints and parses the text of the default collections.\<close>

definition bare_process :: "(unit, unit) process" where
  "bare_process = \<lparr>pr_getenv = Map.empty, pr_http = \<lambda>_ w. (None, w), pr_parse = \<lambda>_. None, pr_dump = \<lambda>_. Inr [],
     pr_secrets = None, pr_text = one_document (collections_to_json (collections.truncate new_data_store)),
     pr_disk = open_disk Map.empty, pr_sodium = True\<rparr>"

definition bare_machine :: "(string \<Rightarrow> string option) \<Rightarrow> (unit, unit) machine" where
  "bare_machine fs = \<lparr>mc_net = (), mc_secrets = (), mc_disk = open_disk fs, mc_file_error = [], mc_remote_error = []\<rparr>"

lemma bare_user: "\<not> user_set bare_process" "pr_sodium bare_process" "json_text_spec (pr_text bare_process)"
  by (simp_all add: user_set_def nonempty_env_def bare_process_def one_document_spec)

lemma bare_file: "data_file bare_process m = ''data.json''" if "open_read ''.env'' (mc_disk m) = None"
  using that by (simp add: data_file_def read_config_def load_env_file_def load_from_environment_def no_config_def
      get_storage_path_def bare_process_def)

lemma bare_dump: "dump2 (pr_text bare_process) (collections_to_json (collections.truncate new_data_store)) = Inr ''doc''"
  by (simp add: bare_process_def one_document_def)

lemma default_reloaded: "reloaded (collections.truncate new_data_store) = collections.truncate new_data_store"
    "amounts_ok (collections.truncate new_data_store)"
  by (simp_all add: reloaded_def amounts_ok_def new_data_store_def init_default_categories_def
      empty_collections_def collections.defs data_store.defs)

theorem restart_keeps_data_witness:
  "let S = app_services bare_process (\<lambda>_. True) no_config ();
       m = ap_world (snd (on_event S (Character ''q'') (fresh_app (bare_machine Map.empty))))
   in files (mc_disk m) ''data.json'' = Some ''doc'' \<and> (\<exists>S2 a2. launch bare_process (\<lambda>_. True) [] [] m = Running S2 a2 \<and>
        collections.truncate (ap_store a2) = collections.truncate new_data_store)"
proof -
  let ?S = "app_services bare_process (\<lambda>_. True) no_config ()" and ?a = "fresh_app (bare_machine Map.empty)"
  have st: "sv_storage ?S = Some (on_file ''data.json'' (json_service (pr_text bare_process)))"
    using local_start(2) [OF bare_user(1,2)] by (simp add: app_services_def get_storage_path_def no_config_def)
  let ?a1 = "(save_app ?S ?a)\<lparr>ap_exited := True\<rparr>"
  have quiet: "\<not> is_open (ap_palette ?a)" "\<not> ap_help ?a" "\<not> ap_g_pending ?a" "ap_tab ?a = 0 \<longrightarrow> level (ap_focus ?a) = Dashboard"
    by (simp_all add: fresh_app_def new_palette_def new_controller_def)
  have q: "on_event ?S (Character ''q'') ?a = (Inr True, ?a1)" by (rule leaving [OF quiet, THEN conjunct1])
  have saved: "fst (store_save (sv_storage ?S) (ap_store ?a) (ap_world ?a))"
    and m: "mc_disk (ap_world ?a1) = open_disk (Map.empty(''data.json'' \<mapsto> ''doc''))" and store: "ap_store ?a = new_data_store"
    using bare_dump by (simp_all add: save_app_def st store_save_def on_file_def json_service_def json_save_def fresh_app_def
        bare_machine_def open_disk_def write_file_def reaching_def Let_def)
  have fl: "''data.json'' = data_file bare_process (ap_world ?a1)"
    using m by (subst bare_file) (simp_all add: open_read_def open_disk_def)
  have rd: "readable (mc_disk (ap_world ?a1)) ''data.json''" unfolding m by (simp add: open_disk_def)
  have am: "amounts_ok (collections.truncate (ap_store ?a))" unfolding store by (rule default_reloaded)
  have all: "reaching ''data.json'' (mc_disk (ap_world ?a)) out = out" for out
    by (simp add: reaching_def fresh_app_def bare_machine_def open_disk_def)
  have "\<exists>S2 a2. launch bare_process (\<lambda>_. True) [] [] (ap_world ?a1) = Running S2 a2 \<and>
      collections.truncate (ap_store a2) = collections.truncate new_data_store"
    using restart_keeps_data [OF bare_user st quiet saved am q refl fl rd, of "\<lambda>_. True" "[]"]
    unfolding store default_reloaded(1) using all by blast
  moreover have "files (mc_disk (ap_world ?a1)) ''data.json'' = Some ''doc''" unfolding m by (simp add: open_disk_def)
  ultimately show ?thesis unfolding Let_def q snd_conv by blast
qed

text \<open>C38. A local start (nobody named in the environment, libsodium up) on a data file that can be read but does not
  parse, where the default collections can be printed: the window opens on the default categories. When the
  file may be written the start has written them over it, and its bytes are kept in the backup when that may be
  written, and nowhere otherwise; of both writes the files hold what reaches them. When the file may not be
  written it stays as it was.\<close>

theorem start_on_corrupt_file:
  assumes "\<not> user_set P" and "pr_sodium P" and "p = data_file P m" and "readable (mc_disk m) p"
    and "files (mc_disk m) p = Some bytes" and "parse_text (pr_text P) bytes = Inl (syn, msg)"
    and "dump2 (pr_text P) (collections_to_json (collections.truncate new_data_store)) = Inr out"
  shows "\<exists>S a. launch P spawn [] input m = Running S a \<and>
    collections.truncate (ap_store a) = collections.truncate new_data_store \<and>
    (let backed_up = (if writable (mc_disk m) (p @ ''.backup'')
       then (files (mc_disk m))(p @ ''.backup'' \<mapsto> reaching (p @ ''.backup'') (mc_disk m) bytes) else files (mc_disk m))
     in files (mc_disk (ap_world a)) = (if writable (mc_disk m) p
       then backed_up(p \<mapsto> reaching p (mc_disk m) out) else backed_up))"
proof -
  let ?c = "collections.truncate new_data_store" and ?s = "\<lparr>js_path = p, js_error = [], js_disk = mc_disk m\<rparr>"
  obtain msg1 where "json_load (pr_text P) ?c ?s = (False, ?c, failed_load msg1 ?s)"
    using assms(4,5,6) by (simp add: json_load_def open_read_def)
  from opened [OF assms(1-3) this, of spawn input] show ?thesis
    using assms(4,5,7) by (auto simp: json_save_def failed_load_def create_backup_def open_read_def write_file_def
        reaching_def Let_def split: option.splits)
qed

theorem start_on_corrupt_file_witness:
  "\<exists>S a. launch bare_process (\<lambda>_. True) [] [] (bare_machine (Map.empty(''data.json'' \<mapsto> ''{''))) = Running S a \<and>
     files (mc_disk (ap_world a)) = Map.empty(''data.json.backup'' \<mapsto> ''{'', ''data.json'' \<mapsto> ''doc'')"
proof -
  let ?m = "bare_machine (Map.empty(''data.json'' \<mapsto> ''{''))"
  have "''data.json'' = data_file bare_process ?m"
    by (subst bare_file) (simp_all add: open_read_def open_disk_def bare_machine_def)
  from start_on_corrupt_file [OF bare_user(1,2) this, of "''{''" True "''unexpected end of input''" "''doc''" "\<lambda>_. True" "[]"]
  show ?thesis using bare_dump by (auto simp: bare_machine_def open_disk_def reaching_def bare_process_def one_document_def)
qed

text \<open>With the server as storage a save changes nothing but the message: what is edited in the window is gone when
  it closes.\<close>

lemma remote_never_saves:
  assumes "sv_storage S = Some (on_remote (remote_service R))"
  shows "\<exists>e. ap_world (save_app S a) = (ap_world a)\<lparr>mc_remote_error := e\<rparr>"
  by (simp add: save_app_def assms store_save_def on_remote_def remote_service_def remote_save_def Let_def) blast

end
