(* ===== verification/Shared_Connection.thy ===== *)
theory Shared_Connection
  imports Reference_Instance
begin

text \<open>
  All handlers and the worker share one \<open>Database\<close> (\<open>server/main.cpp\<close>), which \<open>db/Database.h\<close> says is not
  thread-safe; cpp-httplib runs the handlers in a pool of threads.  SQLite makes one call on a connection
  atomic, but a transaction belongs to the connection, not to a thread: a statement of one request that
  falls between another's \<open>BEGIN IMMEDIATE\<close> and \<open>ROLLBACK\<close> is undone with it.

  The statements of \<open>validate_and_touch_session\<close> (\<open>auth/Session.cpp\<close>) and of \<open>handle_logout\<close>
  (\<open>auth/AuthHandlers.cpp\<close>, with the audit record of \<open>SqlAuditLog.cpp\<close>) are one step each here, and two
  requests take their steps in any order.  Alone, each is the function the sequential model has; together,
  a logout can be answered 200 and undone.
\<close>

section \<open>The connection\<close>

text \<open>\<open>cn_saved\<close> is what \<open>ROLLBACK\<close> goes back to while a transaction is open.\<close>

record connection =
  cn_db :: db
  cn_saved :: "db option"

definition idle :: "db \<Rightarrow> connection" where
  "idle d = \<lparr>cn_db = d, cn_saved = None\<rparr>"

definition begin_immediate :: "connection \<Rightarrow> (string + unit) \<times> connection" where
  "begin_immediate c =
     (if cn_saved c \<noteq> None
      then (Inl ''Database::exec failed: cannot start a transaction within a transaction'', c)
      else (Inr (), c\<lparr>cn_saved := Some (cn_db c)\<rparr>))"

definition commit :: "connection \<Rightarrow> (string + unit) \<times> connection" where
  "commit c =
     (if cn_saved c = None
      then (Inl ''Database::exec failed: cannot commit - no transaction is active'', c)
      else (Inr (), c\<lparr>cn_saved := None\<rparr>))"

definition rollback :: "connection \<Rightarrow> (string + unit) \<times> connection" where
  "rollback c =
     (case cn_saved c of
        None \<Rightarrow> (Inl ''Database::exec failed: cannot rollback - no transaction is active'', c)
      | Some d \<Rightarrow> (Inr (), \<lparr>cn_db = d, cn_saved = None\<rparr>))"

section \<open>One request that validates a token\<close>

datatype validation =
    V_begin | V_select | V_touch string | V_commit string | V_rollback
  | V_returned "string option" | V_thrown string

definition validate_start :: "third_party \<Rightarrow> string \<Rightarrow> validation" where
  "validate_start L tok = (if length (base64url_decode L tok) \<noteq> 32 then V_returned None else V_begin)"

fun validate_stmt :: "string \<Rightarrow> int \<Rightarrow> validation \<Rightarrow> connection \<Rightarrow> validation \<times> connection" where
  "validate_stmt sid now V_begin c =
     (case begin_immediate c of (Inl what, c') \<Rightarrow> (V_thrown what, c') | (Inr _, c') \<Rightarrow> (V_select, c'))"
| "validate_stmt sid now V_select c =
     (case sel_by ses_id sid (sessions (cn_db c)) of
        None \<Rightarrow> (V_rollback, c)
      | Some r \<Rightarrow>
          if ses_revoked r \<noteq> 0 then (V_rollback, c)
          else if ses_expires r \<le> now then (V_rollback, c)
          else if ses_seen r \<le> now - kSessionIdleTimeoutSeconds then (V_rollback, c)
          else (V_touch (c_str (ses_user r)), c))"
| "validate_stmt sid now (V_touch uid) c =
     (V_commit uid, c\<lparr>cn_db := (cn_db c)\<lparr>sessions := upd_by ses_id sid (touch now) (sessions (cn_db c))\<rparr>\<rparr>)"
| "validate_stmt sid now (V_commit uid) c =
     (case commit c of
        (Inl what, c') \<Rightarrow> (V_thrown what, snd (rollback c'))
      | (Inr _, c') \<Rightarrow> (V_returned (Some uid), c'))"
| "validate_stmt sid now V_rollback c =
     (case rollback c of
        (Inl what, c') \<Rightarrow> (V_thrown what, snd (rollback c'))
      | (Inr _, c') \<Rightarrow> (V_returned None, c'))"
| "validate_stmt sid now (V_returned res) c = (V_returned res, c)"
| "validate_stmt sid now (V_thrown what) c = (V_thrown what, c)"

section \<open>A logout\<close>

datatype logout = L_update | L_begin | L_append | L_commit | L_rollback string | L_answered | L_thrown string

definition logout_record :: "third_party \<Rightarrow> env \<Rightarrow> db \<Rightarrow> (string + unit) \<times> db" where
  "logout_record L E d =
     emit_audit L E 0 [] ''user'' [] [] ''session'' ''session_revoked'' ''success'' (JObj []) d"

fun logout_stmt :: "third_party \<Rightarrow> env \<Rightarrow> string \<Rightarrow> logout \<Rightarrow> connection \<Rightarrow> logout \<times> connection" where
  "logout_stmt L E sid L_update c =
     (if sid \<in> set (map ses_id (sessions (cn_db c))) then L_begin else L_answered,
      c\<lparr>cn_db := (cn_db c)\<lparr>sessions :=
          upd_by ses_id sid (\<lambda>r. r\<lparr>ses_revoked := 1\<rparr>) (sessions (cn_db c))\<rparr>\<rparr>)"
| "logout_stmt L E sid L_begin c =
     (case begin_immediate c of (Inl what, c') \<Rightarrow> (L_thrown what, c') | (Inr _, c') \<Rightarrow> (L_append, c'))"
| "logout_stmt L E sid L_append c =
     (case logout_record L E (cn_db c) of
        (Inl what, d) \<Rightarrow> (L_rollback what, c\<lparr>cn_db := d\<rparr>)
      | (Inr _, d) \<Rightarrow> (L_commit, c\<lparr>cn_db := d\<rparr>))"
| "logout_stmt L E sid L_commit c =
     (case commit c of
        (Inl what, c') \<Rightarrow> (L_rollback what, c')
      | (Inr _, c') \<Rightarrow> (L_answered, c'))"
| "logout_stmt L E sid (L_rollback what) c = (L_thrown what, snd (rollback c))"
| "logout_stmt L E sid L_answered c = (L_answered, c)"
| "logout_stmt L E sid (L_thrown what) c = (L_thrown what, c)"

section \<open>Alone, each is the function of the sequential model\<close>

lemma four_times: "(f ^^ 4) x = f (f (f (f x)))"
  by (simp add: eval_nat_numeral)

definition validate_alone :: "third_party \<Rightarrow> string \<Rightarrow> int \<Rightarrow> db \<Rightarrow> validation \<times> connection" where
  "validate_alone L tok now d =
     ((\<lambda>(v, c). validate_stmt (session_key L (base64url_decode L tok)) now v c) ^^ 4)
       (validate_start L tok, idle d)"

lemma validate_alone_eq:
  "validate_alone L tok now d =
     (case validate_and_touch_session L tok now d of (res, d') \<Rightarrow> (V_returned res, idle d'))"
  by (simp add: validate_alone_def validate_start_def validate_and_touch_session_def Let_def idle_def
      begin_immediate_def commit_def rollback_def four_times split: option.splits)

definition logout_alone :: "third_party \<Rightarrow> env \<Rightarrow> string \<Rightarrow> db \<Rightarrow> logout \<times> connection" where
  "logout_alone L E tok d =
     ((\<lambda>(l, c). logout_stmt L E (session_key L (base64url_decode L tok)) l c) ^^ 4) (L_update, idle d)"

lemma record_error_same: "logout_record L E d = (Inl what, d') \<Longrightarrow> d' = d"
  unfolding logout_record_def emit_audit_def using record_event_error by blast

lemma logout_alone_eq:
  assumes "extract_bearer req = Some tok" "length (base64url_decode L tok) = 32"
  shows "(case logout_alone L E tok d of
       (L_answered, c) \<Rightarrow> handle_logout L E req d = (Inr (Resp 200 (JObj [])), cn_db c) \<and> cn_saved c = None
     | (L_thrown what, c) \<Rightarrow> handle_logout L E req d = (Inl what, cn_db c) \<and> cn_saved c = None
     | _ \<Rightarrow> False)"
proof (cases "session_key L (base64url_decode L tok) \<in> set (map ses_id (sessions d))")
  case False
  then show ?thesis using assms
    by (simp add: logout_alone_def handle_logout_def revoke_session_def Let_def idle_def four_times)
next
  case True
  define d1 where "d1 = snd (revoke_session L tok d)"
  obtain res d2 where r: "logout_record L E d1 = (res, d2)" by fastforce
  have d1: "d1 = d\<lparr>sessions := upd_by ses_id (session_key L (base64url_decode L tok))
      (\<lambda>r. r\<lparr>ses_revoked := 1\<rparr>) (sessions d)\<rparr>" and t: "fst (revoke_session L tok d)"
    using True assms by (simp_all add: d1_def revoke_session_def Let_def)
  have h: "handle_logout L E req d = and_then (logout_record L E d1) (\<lambda>_. Resp 200 (JObj []))"
    using assms t by (cases "revoke_session L tok d") (simp add: handle_logout_def logout_record_def d1_def)
  show ?thesis
  proof (cases res)
    case (Inl what)
    with r have "d2 = d1" using record_error_same by simp
    with Inl r True show ?thesis
      by (simp add: h logout_alone_def idle_def four_times begin_immediate_def rollback_def
          and_then_def d1 [symmetric])
  next
    case (Inr u)
    with r True show ?thesis
      by (simp add: h logout_alone_def idle_def four_times begin_immediate_def commit_def
          and_then_def d1 [symmetric])
  qed
qed

section \<open>Two requests on the connection\<close>

type_synonym two_requests = "validation \<times> logout \<times> connection"

text \<open>\<open>True\<close> is a statement of the first request, which validates \<open>tok\<close>, \<open>False\<close> one of the logout of \<open>tok'\<close>.\<close>

fun statement :: "third_party \<Rightarrow> env \<Rightarrow> string \<Rightarrow> int \<Rightarrow> string \<Rightarrow> bool \<Rightarrow> two_requests \<Rightarrow> two_requests" where
  "statement L E tok now tok' True (v, l, c) =
     (let (v', c') = validate_stmt (session_key L (base64url_decode L tok)) now v c in (v', l, c'))"
| "statement L E tok now tok' False (v, l, c) =
     (let (l', c') = logout_stmt L E (session_key L (base64url_decode L tok')) l c in (v, l', c'))"

definition interleave ::
  "third_party \<Rightarrow> env \<Rightarrow> string \<Rightarrow> int \<Rightarrow> string \<Rightarrow> bool list \<Rightarrow> db \<Rightarrow> two_requests" where
  "interleave L E tok now tok' sched d =
     fold (statement L E tok now tok') sched (validate_start L tok, L_update, idle d)"

text \<open>What the order of the statements cannot break: a logout that was answered holds, unless the other
  request was refused (its \<open>ROLLBACK\<close> may have fallen behind the \<open>UPDATE\<close>).\<close>

definition in_validation :: "validation \<Rightarrow> bool" where
  "in_validation v \<longleftrightarrow> (case v of V_select \<Rightarrow> True | V_touch _ \<Rightarrow> True | V_commit _ \<Rightarrow> True | V_rollback \<Rightarrow> True
     | _ \<Rightarrow> False)"

definition in_logout :: "logout \<Rightarrow> bool" where
  "in_logout l \<longleftrightarrow> (case l of L_append \<Rightarrow> True | L_commit \<Rightarrow> True | L_rollback _ \<Rightarrow> True | _ \<Rightarrow> False)"

definition holds_row :: "string \<Rightarrow> db \<Rightarrow> bool" where
  "holds_row sid d \<longleftrightarrow> sel_by ses_id sid (sessions d) \<noteq> None"

definition interleave_ok :: "string \<Rightarrow> two_requests \<Rightarrow> bool" where
  "interleave_ok sid = (\<lambda>(v, l, c).
     (cn_saved c = None \<longleftrightarrow> \<not> in_validation v \<and> \<not> in_logout l) \<and> \<not> (in_validation v \<and> in_logout l) \<and>
     holds_row sid (cn_db c) \<and> (\<forall>d. cn_saved c = Some d \<longrightarrow> holds_row sid d) \<and>
     (l \<noteq> L_update \<longrightarrow> session_revoked sid (cn_db c) \<or> v = V_returned None) \<and>
     (in_logout l \<longrightarrow> (\<forall>d. cn_saved c = Some d \<longrightarrow> session_revoked sid d \<or> v = V_returned None)))"

lemma holds_row_upd [simp]:
  "(\<And>r. ses_id (f r) = ses_id r) \<Longrightarrow>
     holds_row sid (d\<lparr>sessions := upd_by ses_id k f (sessions d)\<rparr>) \<longleftrightarrow> holds_row sid d"
  by (simp add: holds_row_def sel_by_upd_by)

lemma revoke_row: "holds_row sid d \<Longrightarrow>
    session_revoked sid (d\<lparr>sessions := upd_by ses_id sid (\<lambda>r. r\<lparr>ses_revoked := 1\<rparr>) (sessions d)\<rparr>)"
  by (auto simp: holds_row_def session_revoked_def sel_by_upd_by split: option.splits)

lemma record_keeps_sessions: "sessions (snd (logout_record L E d)) = sessions d"
proof -
  have "extends_log d (snd (logout_record L E d))"
    unfolding logout_record_def emit_audit_def by (rule record_event_log)
  then show ?thesis by (auto simp: extends_log_def)
qed

lemma record_keeps:
  "logout_record L E d = (res, d') \<Longrightarrow>
     holds_row sid d' = holds_row sid d \<and> session_revoked sid d' = session_revoked sid d"
  using record_keeps_sessions [of L E d] by (simp add: holds_row_def session_revoked_def)

lemma validate_stmt_ok:
  assumes "interleave_ok sid (v, l, c)"
  shows "interleave_ok sid (fst (validate_stmt k now v c), l, snd (validate_stmt k now v c))"
  using assms
  by (cases v) (auto simp: interleave_ok_def in_validation_def begin_immediate_def commit_def rollback_def
      session_revoked_upd split: option.splits logout.splits)

lemma logout_stmt_ok:
  assumes "interleave_ok sid (v, l, c)"
  shows "interleave_ok sid (v, fst (logout_stmt L E sid l c), snd (logout_stmt L E sid l c))"
proof (cases l)
  case L_append
  obtain res d' where r: "logout_record L E (cn_db c) = (res, d')" by fastforce
  with record_keeps [OF r] assms L_append show ?thesis
    by (cases res) (auto simp: interleave_ok_def in_logout_def split: validation.splits)
next
  case L_update
  with assms show ?thesis
    by (auto simp: interleave_ok_def in_logout_def revoke_row split: validation.splits)
next
  case L_begin
  with assms show ?thesis
    by (auto simp: interleave_ok_def in_logout_def begin_immediate_def split: validation.splits)
next
  case L_commit
  with assms show ?thesis
    by (auto simp: interleave_ok_def in_logout_def commit_def split: validation.splits)
next
  case (L_rollback what)
  with assms show ?thesis
    by (auto simp: interleave_ok_def in_logout_def rollback_def split: option.splits)
qed (use assms in \<open>auto simp: interleave_ok_def in_logout_def\<close>)

lemma statement_ok:
  "interleave_ok (session_key L (base64url_decode L tok')) s \<Longrightarrow>
     interleave_ok (session_key L (base64url_decode L tok')) (statement L E tok now tok' who s)"
  using validate_stmt_ok logout_stmt_ok by (cases s; cases who) (simp_all add: split_def Let_def)

lemma interleave_invariant:
  assumes "holds_row (session_key L (base64url_decode L tok')) d"
  shows "interleave_ok (session_key L (base64url_decode L tok')) (interleave L E tok now tok' sched d)"
proof -
  have "interleave_ok (session_key L (base64url_decode L tok')) (fold (statement L E tok now tok') sched s)"
    if "interleave_ok (session_key L (base64url_decode L tok')) s" for s
    using that by (induction sched arbitrary: s) (simp_all add: statement_ok)
  then show ?thesis using assms unfolding interleave_def
    by (simp add: interleave_ok_def validate_start_def idle_def in_validation_def in_logout_def)
qed

lemma logout_record_appends:
  assumes "append_ok E 0" "length (dump L (JObj [])) \<le> MAX_TOTAL_BYTES"
  shows "\<exists>row. logout_record L E d = (Inr (), d\<lparr>audit_log := audit_log d @ [row]\<rparr>)"
proof -
  have "sanitize L (JObj []) = None" using assms(2) by (simp add: MAX_DEPTH_def)
  then show ?thesis using assms(1)
    by (simp add: logout_record_def emit_audit_def record_event_cases append_locked_eq del: sanitize.simps) blast
qed

text \<open>The order that undoes a logout: its \<open>UPDATE\<close> falls between the other request's \<open>SELECT\<close> and
  \<open>ROLLBACK\<close>, its record after both.\<close>

definition undoing_order :: "bool list" where
  "undoing_order = [True, True, False, True, False, False, False]"

lemma undone:
  assumes "holds_row (session_key L (base64url_decode L tok')) d"
    and "length (base64url_decode L tok) = 32" "fst (validate_and_touch_session L tok now d) = None"
    and "fst (logout_record L E d) = Inr ()"
  shows "interleave L E tok now tok' undoing_order d =
    (V_returned None, L_answered, idle (snd (logout_record L E d)))"
proof -
  let ?sid = "session_key L (base64url_decode L tok)"
  have refused: "validate_stmt ?sid now V_select c = (V_rollback, c)" if "cn_db c = d" for c
    using assms(2,3) that by (auto simp: validate_and_touch_session_def Let_def split: option.splits if_splits)
  have known: "session_key L (base64url_decode L tok') \<in> ses_id ` set (sessions d)"
    using assms(1) sel_by_None [of ses_id _ "sessions d"] by (auto simp: holds_row_def)
  obtain d' where "logout_record L E d = (Inr (), d')" using assms(4) by (cases "logout_record L E d") simp
  then show ?thesis
    using assms(2) refused [of "\<lparr>cn_db = d, cn_saved = Some d\<rparr>"] known
    by (simp add: interleave_def undoing_order_def validate_start_def idle_def begin_immediate_def
        rollback_def commit_def del: validate_stmt.simps(2))
qed

text \<open>Two requests on the one connection of the server.  Against a request whose token is refused, an
  order of the statements exists in which a logout is answered 200, its record written, and the session
  still valid at once: the \<open>ROLLBACK\<close> of the refused request undid the logout's \<open>UPDATE\<close>.  In every other
  outcome of the other request the logout holds: whatever the order of the statements, once a logout of a
  session on record is answered, the session is revoked unless the other request was refused.\<close>

theorem logout_on_shared_connection:
  assumes "validate_and_touch_session L tok' now d = (Some uid, d1)"
    and "length (base64url_decode L tok) = 32" "fst (validate_and_touch_session L tok now d) = None"
    and "append_ok E 0" "length (dump L (JObj [])) \<le> MAX_TOTAL_BYTES"
  shows "(\<exists>c. interleave L E tok now tok' undoing_order d = (V_returned None, L_answered, c) \<and>
       length (audit_log (cn_db c)) = length (audit_log d) + 1 \<and>
       fst (validate_and_touch_session L tok' now (cn_db c)) = Some uid) \<and>
    (\<forall>sched v c tok2 now2. interleave L E tok2 now2 tok' sched d = (v, L_answered, c) \<longrightarrow>
       v = V_returned None \<or> session_revoked (session_key L (base64url_decode L tok')) (cn_db c))"
proof (intro conjI allI impI)
  have row: "holds_row (session_key L (base64url_decode L tok')) d"
    using assms(1) by (auto simp: holds_row_def elim!: validate_SomeE)
  have "fst (validate_and_touch_session L tok' now (snd (logout_record L E d))) = Some uid"
    using assms(1) record_keeps_sessions [of L E d] by (auto simp: validate_eq Let_def split: option.splits if_splits)
  then show "\<exists>c. interleave L E tok now tok' undoing_order d = (V_returned None, L_answered, c) \<and>
       length (audit_log (cn_db c)) = length (audit_log d) + 1 \<and>
       fst (validate_and_touch_session L tok' now (cn_db c)) = Some uid"
    using undone [OF row assms(2,3)] logout_record_appends [OF assms(4,5), of d] by (auto simp: idle_def)
  fix sched v c tok2 now2
  assume "interleave L E tok2 now2 tok' sched d = (v, L_answered, c)"
  with interleave_invariant [OF row, of E tok2 now2 sched]
  show "v = V_returned None \<or> session_revoked (session_key L (base64url_decode L tok')) (cn_db c)"
    by (auto simp: interleave_ok_def)
qed

theorem logout_on_shared_connection_witness:
  "\<exists>c. interleave reference_libs (surroundings 2000 5) (bytes_to_hex (replicate 32 7)) 2000
      (bytes_to_hex (replicate 32 1)) undoing_order small_db = (V_returned None, L_answered, c) \<and>
    fst (validate_and_touch_session reference_libs (bytes_to_hex (replicate 32 1)) 2000 (cn_db c)) = Some ''u1''"
proof -
  have "\<exists>d1. validate_and_touch_session reference_libs (bytes_to_hex (replicate 32 1)) 2000 small_db = (Some ''u1'', d1)"
    by (simp add: validate_eq small_db_def session_of_def session_live_def Let_def
        kSessionAbsoluteTimeoutSeconds_def kSessionIdleTimeoutSeconds_def c_str_def nul_def)
  then obtain d1 where live: "validate_and_touch_session reference_libs (bytes_to_hex (replicate 32 1)) 2000 small_db =
      (Some ''u1'', d1)" by blast
  have other: "session_key reference_libs (replicate 32 1) \<noteq> session_key reference_libs (replicate 32 7)"
    by code_simp
  have "fst (validate_and_touch_session reference_libs (bytes_to_hex (replicate 32 7)) 2000 small_db) = None"
    using other by (simp add: validate_eq small_db_def session_of_def Let_def)
  moreover have "append_ok (surroundings 2000 5) 0" "length (dump reference_libs (JObj [])) \<le> MAX_TOTAL_BYTES"
    by (simp_all add: surroundings_def reference_libs_def MAX_TOTAL_BYTES_def)
  moreover have "length (base64url_decode reference_libs (bytes_to_hex (replicate 32 7))) = 32" by simp
  ultimately show ?thesis using logout_on_shared_connection [OF live] by blast
qed

end
