(* ===== verification/Spec2Isabelle.thy ===== *)
theory Spec2Isabelle
  imports Audit_Properties Data_Properties Plaid_Properties Migrations_Model Client_Server Client_App
    Consolidation_Service App_Screen Client_Start Link_Page Curl_Http_Client Data_Validator App_Launch
    Shared_Connection
begin

text \<open>
  Greylock: a server that keeps the finances of legal entities (src/server) and a terminal client
  (src/src). The server is a set of HTTP routes over one SQLite database; it authenticates users
  with a passphrase and a one-time code, keeps every entity's data to its members, writes an audit log
  whose rows are chained by hashes, and syncs bank accounts through Plaid. The client keeps the data in
  memory, stores it in a JSON file or reads it from the server, and shows it in a dashboard driven by the
  keyboard. Every definition here is translated from the code it is mapped to; this text says which
  theory holds what, how the parts meet, and what is left out.

  \<open>Ground\<close>. \<open>Greylock_Prelude\<close>: JSON values, bytes, requests and answers of routes, C strings, and the two
  records that stand for what is not under src/: \<open>third_party\<close> (libsodium, the printing of JSON) and \<open>env\<close>
  (clock, randomness, whether the audit insert succeeds). Their documented behaviour appears as named
  hypotheses (\<open>bin2hex_spec\<close>, \<open>hash32\<close>, \<open>memcmp_spec\<close>, \<open>b64_spec\<close>, \<open>json_text_spec\<close>), met by
  \<open>Reference_Instance\<close>. \<open>Number_Text\<close>, \<open>Double_Arith\<close>, \<open>Json_Reading\<close>, \<open>Civil_Date\<close>: decimal text, doubles as
  rationals rounded to 53 bits, the accessors of nlohmann::json, calendar dates.

  \<open>Server\<close>. \<open>Database_Model\<close> has the tables of src/server/db/Migrations.cpp as lists of rows, with the
  constraints that make an INSERT fail; a statement is a function on the record \<open>db\<close>. \<open>Session_Model\<close>,
  \<open>Enrollment_Model\<close>, \<open>Rate_Limit\<close>, \<open>Hmac_Sha1\<close>, \<open>Totp\<close>, \<open>Auth_Handlers\<close> model src/server/auth, file by file;
  \<open>Sanitizer_Model\<close>, \<open>Canonical_Bytes\<close>, \<open>Sql_Audit_Log\<close> model src/server/audit; \<open>Entity_Scope\<close> the guard that
  the routes of an entity share, with the locales \<open>entity_route\<close> and \<open>data_route\<close>, interpreted on each handler of
  \<open>Entities_Handler\<close>, \<open>Accounts_Handler\<close>, \<open>Transactions_Handler\<close>, \<open>Categories_Handler\<close>, \<open>Budgets_Handler\<close> and
  \<open>V3_Objects\<close> (src/server/data). \<open>Plaid_Client\<close>, \<open>Envelope_Encryption\<close>, \<open>Plaid_Broker\<close>, \<open>Plaid_Sync\<close>, \<open>Plaid_Link\<close>,
  \<open>Link_Page\<close> model src/server/plaid, the encryption it uses, the linking routes and the page they serve; \<open>Migrations_Model\<close> the migration runner; \<open>Server_Boot\<close> what main does:
  environment, arguments, the key of the database, the administrative commands, which parts run.
  \<open>Server_Model\<close> puts the routes together as server/main.cpp registers them: \<open>server_step\<close> is one request, one
  issued token or one pass of the sync worker. A handler returns \<open>Inr\<close> of an answer or \<open>Inl\<close> of an exception,
  with the new state; \<open>guarded\<close> is the exception boundary. A step is one request from its first statement to its
  answer: the theorems on \<open>server_step\<close> are about requests served one after another. The program does not
  ensure that. cpp-httplib runs handlers in a pool of threads, the worker has its own, they share one connection,
  which \<open>db/Database.h\<close> says is not thread-safe, and only the rate limiter and the audit log hold a lock.
  \<open>Shared_Connection\<close> leaves the sequential model for one pair of requests, statement by statement: alone they are the
  functions of the model, together a \<open>ROLLBACK\<close> can undo a logout that was answered 200.

  \<open>Client\<close>. \<open>Client_Models\<close> and \<open>Data_Store\<close> model src/src/models, \<open>Data_Validator\<close> the checks and test data of
  src/src/utils; \<open>Local_Storage\<close> and \<open>Remote_Storage\<close> the two
  storage services, both interpretations of the locale \<open>persistent_storage\<close>; \<open>Curl_Http_Client\<close> the transport, \<open>Backend_Client\<close>, \<open>Auth_Client\<close>
  (with the locale \<open>secret_store\<close>, interpreted on the file store), \<open>Plaid_Service\<close> the services of
  src/src/services; \<open>V01_Migrator\<close> the upload of old files; \<open>Focus_Controller\<close>, \<open>Fuzzy_Match\<close>, \<open>Command_Palette\<close>
  the keyboard; \<open>Config_Manager\<close> the settings; \<open>Consolidation_Service\<close> the merging of what Plaid returns.
  \<open>Client_App\<close> is the application object of src/src/main.cpp: its start, the commands, the typed verbs and the keys
  in their layers, one event a step of \<open>app_step\<close>; \<open>Client_Start\<close> the command line and the check of the session before it,
  \<open>App_Launch\<close> the way from one to the other, with the services the constructor makes, on one machine.
  \<open>View_Elements\<close> has the terms the views return, built from the constructors of FTXUI; \<open>List_Views\<close>, \<open>Home_View\<close>,
  \<open>Ask_View\<close>, \<open>Dashboard_View\<close>, \<open>Drill_Views\<close>, \<open>Object_Views\<close> are src/src/views, with \<open>Std_Map\<close> for the ordered maps
  and \<open>Number_Format\<close> for amounts; \<open>App_Screen\<close> composes them as \<open>App::render\<close> does. \<open>Client_Server\<close> joins both programs over a modelled wire: a request runs the server's
  handlers or is lost before them, an answer arrives or is lost after them, as the \<open>delivery\<close> of each transfer says; the
  matching of paths and JSON text are parameters.

  \<open>What is shown\<close>. Isolation of entities and authentication on every route, what is final (logout, redeemed
  tokens), invariants of all reachable server states, and append-only logs (this theory); what a serving process implies of its configuration (\<open>Server_Boot\<close>); what a successful
  or refused login implies, budgets of the rate limiter, time windows of one-time codes (\<open>Auth_Properties\<close>); the
  hash chain: what verifies, what a hash commits to, which details survive (\<open>Audit_Properties\<close>); paging and
  deletion (\<open>Data_Properties\<close>); linking and syncing (\<open>Plaid_Properties\<close>); migrations that resume; SHA-1 by
  blocks against the one-shot definition, envelopes, dates; on the client the reachable states of the focus
  machine, the matcher against a declarative best path, references and sums of the data store, round trips of
  storage, refinement of a finite map by the file store when every system call may fail, the invariant of the window (overlays, focus, tab) over all
  sequences of events, what each key does, when the interface starts, what drawing changes, that the views agree with
  the store on the amounts they show, that merging a batch twice adds nothing, and what closing and starting leaves of the data. End to end: what the client sees of the server's rows,
  logout on both sides and what a lost answer leaves of it, and two things that do not work as meant, linking without a
  token and the upload.

  \<open>Bounds and fuel\<close>. The fuzzy matcher's counter of calls and its table of 256 positions are the code's own limits;
  the polling of a link is bounded by \<open>max_polls\<close>, 150, as in the code; the worker thread runs on an explicit list of
  what its waits see. Other recursions are structural or come with a measure. Integers wrap where the
  code's do (\<open>to_i32\<close>, \<open>to_i64\<close>, 32-bit words in \<open>Hmac_Sha1\<close>).

  \<open>Not modelled\<close>. libsodium, SQLite's engine, cpp-httplib, libcurl and nlohmann::json beyond the laws named above;
  what FTXUI draws from the terms; signals, the accept loop, the handshake of TLS, the
  stub audit log; Windows and macOS key
  stores; logging, zeroing of memory, file permissions; the Python monitoring tools, the build and the tests, but for
  the chain verifier the tests hold. Interleaving of requests is not modelled but for the pair in
  \<open>Shared_Connection\<close>: a limitation of the model, not a guarantee of the code. A file that opens for reading is read
  whole, and what is printed as JSON outside the audit log is taken to be UTF-8, as all text
  that came through the parser of nlohmann::json is.\<close>

section \<open>Authentication and isolation\<close>

text \<open>C10. Every data route answers 401 to a request without a valid session and changes nothing.\<close>

theorem authentication_required:
  assumes "bin2hex_spec (bin2hex L)" and "(m, p, h) \<in> set (data_routes L E)"
    and "fst (require_session L E req d) = None"
  shows "h req d = (Inr (err 401 ''unauthorized''), d)"
proof -
  have "require_session L E req d = (None, d)"
    using assms(3) require_None_same [OF assms(3)] by (metis prod.collapse)
  then show ?thesis by (rule data_route.rejects [OF data_routes_contract [OF assms(1,2)]])
qed

lemma route_member:
  "(DELETE, ''/accounts/:id'', handle_delete_account L E) \<in> set (data_routes L E)"
  by (simp add: data_routes_def register_accounts_handlers_def)

theorem authentication_required_witness:
  "handle_delete_account reference_libs (surroundings 5 5) plain_request small_db =
     (Inr (err 401 ''unauthorized''), small_db)"
  by (rule authentication_required [OF reference_bin2hex route_member])
     (simp add: require_session_def extract_bearer_def plain_request_def)

text \<open>C1. Tenant isolation: no request on any data route, whatever it holds, changes the row, the members,
  the accounts, transactions, categories or budgets of an entity the authenticated user is not a
  member of; nor does a request without a session.\<close>

theorem tenant_isolation:
  assumes "bin2hex_spec (bin2hex L)" and "(m, p, h) \<in> set (data_routes L E)" and "store_ok d"
    and "e \<in> ent_id ` set (entities d)"
    and "\<And>uid. fst (require_session L E req d) = Some uid \<Longrightarrow> \<not> user_has_access_to_entity d uid e"
  shows "entity_view e (snd (guarded (h req d))) = entity_view e d"
  using data_route.isolates [OF data_routes_contract [OF assms(1,2)] assms(3,4,5)] by simp

theorem tenant_isolation_witness:
  "entity_view ''e2'' (snd (guarded (handle_delete_account reference_libs (surroundings 2000 7)
     ((bearer_request 1)\<lparr>path_param := (\<lambda>_. ''a2'')\<rparr>) small_db))) = entity_view ''e2'' small_db"
proof (rule tenant_isolation [OF reference_bin2hex route_member small_db_ok])
  show "''e2'' \<in> ent_id ` set (entities small_db)" by (simp add: small_db_def)
  fix uid
  assume "fst (require_session reference_libs (surroundings 2000 7)
    ((bearer_request 1)\<lparr>path_param := (\<lambda>_. ''a2'')\<rparr>) small_db) = Some uid"
  moreover have "require_session reference_libs (surroundings 2000 7)
    ((bearer_request 1)\<lparr>path_param := (\<lambda>_. ''a2'')\<rparr>) small_db =
    require_session reference_libs (surroundings 2000 7) (bearer_request 1) small_db"
    by (simp add: require_session_def extract_bearer_def)
  ultimately have "uid = ''u1''" using owner_session [of 7] by simp
  then show "\<not> user_has_access_to_entity small_db uid ''e2''"
    by (simp add: user_has_access_to_entity_def small_db_def)
qed

section \<open>Reachable states\<close>

text \<open>C6. In every state the server can reach from an empty database, keys are unique, every reference
  has its row, entity kinds are valid, every session expires eight hours after it was minted, and
  the rate limiter's map is within its bounds.\<close>

theorem reachable_states_ok:
  assumes "bin2hex_spec (bin2hex L)" and "(server_step L)\<^sup>*\<^sup>* initial_state s"
  shows "db_ok (sv_db s) \<and> sessions_wf (sv_db s) \<and> buckets_ok (sv_rate s)"
  using server_steps_ok [OF assms initial_ok] by (simp add: server_ok_def store_ok_def)

definition issued_state :: server_state where
  "issued_state = initial_state\<lparr>sv_db := snd (mint_enrollment_command reference_libs (surroundings 1000 5)
     ''n@o'' 3600 (sv_db initial_state))\<rparr>"

lemma issued_reachable: "(server_step reference_libs)\<^sup>*\<^sup>* initial_state issued_state"
  unfolding issued_state_def by (rule r_into_rtranclp) (rule server_step.issue)

theorem reachable_states_ok_witness: "db_ok (sv_db issued_state) \<and> sessions_wf (sv_db issued_state) \<and>
    buckets_ok (sv_rate issued_state)"
  by (rule reachable_states_ok [OF reference_bin2hex issued_reachable])

text \<open>C11. The audit log is append-only: whatever requests the server serves, the rows it had are still
  the first rows, in the same order.\<close>

theorem audit_log_append_only:
  assumes "bin2hex_spec (bin2hex L)" and "(server_step L)\<^sup>*\<^sup>* s s'"
  shows "prefix (audit_log (sv_db s)) (audit_log (sv_db s'))"
  by (rule server_steps_log [OF assms])

theorem audit_log_append_only_witness:
  "prefix (audit_log (sv_db initial_state)) (audit_log (sv_db issued_state))"
  by (rule audit_log_append_only [OF reference_bin2hex issued_reachable])

section \<open>What is final\<close>

lemma logout_revokes:
  assumes "length (base64url_decode L tok) = 32" and "extract_bearer req = Some tok"
    and "sel_by ses_id (session_key L (base64url_decode L tok)) (sessions d) = Some row"
  shows "session_revoked (session_key L (base64url_decode L tok)) (snd (handle_logout L E req d))"
proof -
  have "session_revoked (session_key L (base64url_decode L tok)) (snd (revoke_session L tok d))"
    using revoke_selects [OF assms(1), of d] assms(3) by (simp add: session_revoked_def)
  then show ?thesis by (simp add: handle_logout_def assms(2) Let_def split_def)
qed

text \<open>C2. Logging out is final: once a session's token has been used to log out, it authenticates no
  data request in any later state, whatever the server has served in between.\<close>

theorem logout_is_final:
  assumes "bin2hex_spec (bin2hex L)" and "length (base64url_decode L tok) = 32"
    and "sel_by ses_id (session_key L (base64url_decode L tok)) (sessions (sv_db s)) = Some row"
    and "extract_bearer req = Some tok"
    and "(server_step L)\<^sup>*\<^sup>* (snd (on_db (handle_logout L E) req s)) s'"
    and "extract_bearer req' = Some tok" and "(m, p, h) \<in> set (data_routes L E')"
  shows "h req' (sv_db s') = (Inr (err 401 ''unauthorized''), sv_db s')"
proof -
  let ?k = "session_key L (base64url_decode L tok)"
  have "session_revoked ?k (sv_db (snd (on_db (handle_logout L E) req s)))"
    using logout_revokes [OF assms(2,4,3)] by simp
  then have "session_revoked ?k (sv_db s')" by (rule server_steps_revoked [OF assms(1,5)])
  then obtain r where "sel_by ses_id ?k (sessions (sv_db s')) = Some r" "ses_revoked r \<noteq> 0"
    by (auto simp: session_revoked_def split: option.splits)
  then have "require_session L E' req' (sv_db s') = (None, sv_db s')"
    using revoked_never_valid [of L tok "sv_db s'" r] by (simp add: require_session_def assms(6))
  then show ?thesis by (rule data_route.rejects [OF data_routes_contract [OF assms(1,7)]])
qed

definition small_server :: server_state where
  "small_server = initial_state\<lparr>sv_db := small_db\<rparr>"

theorem logout_is_final_witness:
  "handle_delete_account reference_libs (surroundings 2000 7) (bearer_request 1)
     (sv_db (snd (on_db (handle_logout reference_libs (surroundings 1500 7)) (bearer_request 1) small_server))) =
   (Inr (err 401 ''unauthorized''),
    sv_db (snd (on_db (handle_logout reference_libs (surroundings 1500 7)) (bearer_request 1) small_server)))"
proof (rule logout_is_final [OF reference_bin2hex _ _ bearer_decodes(1) _ bearer_decodes(1) route_member])
  show "length (base64url_decode reference_libs (bytes_to_hex (replicate 32 1))) = 32"
    by (simp add: bearer_decodes)
  show "sel_by ses_id (session_key reference_libs (base64url_decode reference_libs (bytes_to_hex (replicate 32 1))))
      (sessions (sv_db small_server)) = Some (session_of ''u1'' 1 1000)"
    by (simp add: bearer_decodes small_server_def small_db_def session_of_def)
qed (rule rtranclp.rtrancl_refl)

lemma enrollment_spends:
  assumes "handle_enroll L E req d = (Inr r, d')" and "status r = 200"
    and "body req = Some j" and "at_string j ''token'' = Some token"
  shows "token_spent (generichash L (hex_to_bytes token)) d'"
proof -
  let ?h = "generichash L (hex_to_bytes token)"
  from enroll_200 [OF assms(1,2)] assms(3,4) obtain row t us log where
    row: "sel_by enr_hash ?h (enrollments d) = Some row"
    and d': "d' = d\<lparr>users := us, enrollments := upd_by enr_hash (enr_hash row)
        (\<lambda>r. r\<lparr>enr_consumed := Some t\<rparr>) (enrollments d), audit_log := log\<rparr>"
    by auto
  have "enr_hash row = ?h" using sel_by_Some [OF row] by simp
  then show ?thesis by (simp add: token_spent_def d' sel_by_upd_by row)
qed

text \<open>C4. An enrollment token works once: after it has enrolled a user, no request that spells the
  same bytes enrolls anyone, in any later state of the server.\<close>

theorem enrollment_token_once:
  assumes "bin2hex_spec (bin2hex L)"
    and "handle_enroll L E req (sv_db s) = (Inr r, d)" and "status r = 200"
    and "body req = Some j" and "at_string j ''token'' = Some token"
    and "(server_step L)\<^sup>*\<^sup>* (s\<lparr>sv_db := d\<rparr>) s'"
    and "body req' = Some j'" and "at_string j' ''token'' = Some token'"
    and "hex_to_bytes token' = hex_to_bytes token"
    and "handle_enroll L E' req' (sv_db s') = (Inr r', d')"
  shows "status r' \<noteq> 200"
proof
  assume ok: "status r' = 200"
  let ?h = "generichash L (hex_to_bytes token)"
  have "token_spent ?h (sv_db (s\<lparr>sv_db := d\<rparr>))"
    using enrollment_spends [OF assms(2-5)] by simp
  then have "token_spent ?h (sv_db s')" by (rule server_steps_spent [OF assms(1,6)])
  moreover from enroll_200 [OF assms(10) ok] assms(7,8) obtain row where
    "sel_by enr_hash (generichash L (hex_to_bytes token')) (enrollments (sv_db s')) = Some row"
    "enr_consumed row = None"
    by auto
  ultimately show False by (simp add: token_spent_def assms(9))
qed

lemma handle_enroll_answers: "\<exists>r d'. handle_enroll L E req d = (Inr r, d')"
  by (auto simp: handle_enroll_def catch_all_def split: option.splits prod.splits sum.splits)

theorem enrollment_token_once_witness:
  "\<exists>r d r' d'. handle_enroll reference_libs (surroundings 2000 7) (enroll_request ''n@o'') enroll_db = (Inr r, d) \<and>
     status r = 200 \<and>
     handle_enroll reference_libs (surroundings 2001 8) (enroll_request ''n@o'') d = (Inr r', d') \<and> status r' \<noteq> 200"
proof -
  let ?s = "small_server\<lparr>sv_db := enroll_db\<rparr>"
  let ?req = "enroll_request ''n@o''"
  obtain r d where r: "handle_enroll reference_libs (surroundings 2000 7) ?req enroll_db = (Inr r, d)" "status r = 200"
    using enroll_example by blast
  obtain r' d' where r': "handle_enroll reference_libs (surroundings 2001 8) ?req d = (Inr r', d')"
    using handle_enroll_answers by blast
  have req: "body ?req = Some (JObj [(''email'', JStr ''n@o''), (''passphrase'', JStr ''pw''),
      (''token'', JStr (bytes_to_hex (replicate 32 5)))])"
    "at_string (JObj [(''email'', JStr ''n@o''), (''passphrase'', JStr ''pw''),
      (''token'', JStr (bytes_to_hex (replicate 32 5)))]) ''token'' = Some (bytes_to_hex (replicate 32 5))"
    by (simp_all add: enroll_request_def at_string_def)
  have "status r' \<noteq> 200"
    by (rule enrollment_token_once [OF reference_bin2hex, of "surroundings 2000 7" ?req ?s r d _ _
          "?s\<lparr>sv_db := d\<rparr>" ?req _ _ "surroundings 2001 8" r' d', OF _ r(2) req _ req])
       (simp_all add: r(1) r')
  with r r' show ?thesis by blast
qed

end
